(* ===== verification/GelPrelude.thy ===== *)
theory GelPrelude
  imports Main "HOL-Library.Word"
begin

text \<open>
  What every other theory shares: the machine types of \<open>gel/platform.h\<close> on a
  64-bit target, the ways a C++ operation of the runtime can fail, the error-passing
  combinators, little-endian bytes, and the power-of-two helpers of \<open>gel/common.h\<close>.

  The build modelled is the debug build of the project (\<open>GEL_DEBUG\<close>), in which
  \<open>ASSERT(x)\<close> is \<open>assert(x)\<close>: a failed assertion ends the process, as does a
  message logged at the \<open>FATAL\<close> level.
\<close>

unbundle bit_operations_syntax

section \<open>Machine types\<close>

type_synonym uword = "64 word"
type_synonym byte = "8 word"

section \<open>Failures and their propagation\<close>

datatype failure =
    AssertFailed            \<comment> \<open>a failed \<open>ASSERT\<close> of the debug build\<close>
  | LogFatal                \<comment> \<open>\<open>LOG(FATAL)\<close>, \<open>LOG_IF(FATAL, ...)\<close>\<close>
  | CppException string     \<comment> \<open>an exception of the C++ library leaves the operation\<close>
  | GelException string     \<comment> \<open>a \<open>gel::Exception\<close> leaves the operation\<close>
  | UndefinedBehaviour      \<comment> \<open>the C++ standard gives the operation no meaning\<close>
  | OutOfFuel               \<comment> \<open>the bound of the model was reached, not a behaviour of the code\<close>

type_synonym 'a res = "failure + 'a"

definition rbind :: "'a res \<Rightarrow> ('a \<Rightarrow> 'b res) \<Rightarrow> 'b res" where
  "rbind m f = (case m of Inl e \<Rightarrow> Inl e | Inr x \<Rightarrow> f x)"

definition guardr :: "failure \<Rightarrow> bool \<Rightarrow> 'b res \<Rightarrow> 'b res" where
  "guardr e p m = (if p then m else Inl e)"

abbreviation asserting :: "bool \<Rightarrow> 'b res \<Rightarrow> 'b res" where
  "asserting p m \<equiv> guardr AssertFailed p m"

named_theorems res_simps "rules that evaluate error-passing code"

lemma rbind_Inl [simp, res_simps]: "rbind (Inl e) f = Inl e"
  by (simp add: rbind_def)

lemma rbind_Inr [simp, res_simps]: "rbind (Inr x) f = f x"
  by (simp add: rbind_def)

lemma guardr_True [simp, res_simps]: "guardr e True m = m"
  by (simp add: guardr_def)

lemma guardr_False [simp, res_simps]: "guardr e False m = Inl e"
  by (simp add: guardr_def)

lemma rbind_eq_Inr: "rbind m f = Inr y \<longleftrightarrow> (\<exists>x. m = Inr x \<and> f x = Inr y)"
  by (cases m) auto

lemma rbind_eq_Inl:
  "rbind m f = Inl e \<longleftrightarrow> m = Inl e \<or> (\<exists>x. m = Inr x \<and> f x = Inl e)"
  by (cases m) auto

lemma guardr_eq_Inr: "guardr e p m = Inr y \<longleftrightarrow> p \<and> m = Inr y"
  by (simp add: guardr_def)

lemma rbind_assoc: "rbind (rbind m f) g = rbind m (\<lambda>x. rbind (f x) g)"
  by (cases m) auto

lemma rbind_cong [fundef_cong]:
  "m = m' \<Longrightarrow> (\<And>x. m' = Inr x \<Longrightarrow> f x = g x) \<Longrightarrow> rbind m f = rbind m' g"
  by (cases m') auto

lemma guardr_cong [fundef_cong]:
  "p = p' \<Longrightarrow> (p' \<Longrightarrow> m = m') \<Longrightarrow> guardr e p m = guardr e p' m'"
  by (auto simp: guardr_def)

lemmas res_elims = rbind_eq_Inr guardr_eq_Inr

section \<open>Memory as a list of bytes\<close>

definition slice :: "nat \<Rightarrow> nat \<Rightarrow> 'a list \<Rightarrow> 'a list" where
  "slice i n xs = take n (drop i xs)"

definition splice_at :: "nat \<Rightarrow> 'a list \<Rightarrow> 'a list \<Rightarrow> 'a list" where
  "splice_at i ys xs = take i xs @ ys @ drop (i + length ys) xs"

lemma length_slice [simp]: "length (slice i n xs) = min n (length xs - i)"
  by (simp add: slice_def)

lemma length_splice_at [simp]:
  "i + length ys \<le> length xs \<Longrightarrow> length (splice_at i ys xs) = length xs"
  by (simp add: splice_at_def)

lemma nth_slice [simp]: "k < n \<Longrightarrow> i + k < length xs \<Longrightarrow> slice i n xs ! k = xs ! (i + k)"
  by (simp add: slice_def)

lemma nth_splice_at:
  assumes "i + length ys \<le> length xs" "k < length xs"
  shows "splice_at i ys xs ! k =
    (if i \<le> k \<and> k < i + length ys then ys ! (k - i) else xs ! k)"
  using assms by (auto simp: splice_at_def nth_append min_def)

lemma slice_splice_at [simp]:
  assumes "i + length ys \<le> length xs" "n = length ys"
  shows "slice i n (splice_at i ys xs) = ys"
  using assms by (simp add: slice_def splice_at_def min_def)

lemma slice_splice_at_other:
  assumes "i + length ys \<le> length xs" "j + n \<le> i \<or> i + length ys \<le> j" "j + n \<le> length xs"
  shows "slice j n (splice_at i ys xs) = slice j n xs"
  using assms by (intro nth_equalityI) (auto simp: nth_splice_at)

section \<open>Words and their bytes\<close>

text \<open>A word in memory is its bytes, least significant first (both targets of
  \<open>gel/platform.h\<close> are little-endian).\<close>

primrec bytes_of :: "nat \<Rightarrow> uword \<Rightarrow> byte list" where
  "bytes_of 0 w = []"
| "bytes_of (Suc k) w = ucast w # bytes_of k (drop_bit 8 w)"

primrec word_of :: "byte list \<Rightarrow> uword" where
  "word_of [] = 0"
| "word_of (b # bs) = ucast b OR push_bit 8 (word_of bs)"

lemma length_bytes_of [simp]: "length (bytes_of k w) = k"
  by (induction k arbitrary: w) simp_all

lemma word_of_bytes_of: "word_of (bytes_of k w) = take_bit (8 * k) w"
proof (induction k arbitrary: w)
  case 0
  then show ?case by simp
next
  case (Suc k)
  show ?case
    by (rule bit_word_eqI) (auto simp: Suc bit_simps)
qed

lemma word_of_bytes_of_8 [simp]: "word_of (bytes_of 8 w) = w"
  using word_of_bytes_of [of 8 w] by (simp add: take_bit_word_eq_self)

lemma take_bit_uword_self: "unat (v :: uword) < 2 ^ n \<Longrightarrow> take_bit n v = v"
  by (rule word_unat_eq_iff [THEN iffD2]) (simp add: unsigned_take_bit_eq take_bit_nat_eq_self)

end
