(* ===== verification/Bytecodes.thy ===== *)
theory Bytecodes
  imports GelPrelude
begin

text \<open>
  The bytecodes of \<open>gel/bytecode.h\<close>: the enumeration \<open>Bytecode::Op\<close> in the order the
  \<open>FOR_EACH_BYTECODE\<close> macro gives it, its one-byte representation, the operator classes
  and the mnemonics. The datatype is put into the class \<open>linorder\<close> by its code, as the
  C++ enumeration is, because the assembler and the interpreter compute with the codes.
\<close>

section \<open>\<open>enum Bytecode::Op\<close>\<close>

datatype (plugins only: code size) op =
    kInvalid | kNop | kPop | kDup | kLookup | kStoreLocal | kStoreLocal0 | kStoreLocal1
     | kStoreLocal2 | kStoreLocal3 | kLoadLocal | kLoadLocal0 | kLoadLocal1 | kLoadLocal2
     | kLoadLocal3 | kInvoke | kInvokeDynamic | kInvokeNative | kCheckInstance | kRet
     | kPushQ | kPushI | kPushN | kPushT | kPushF | kJump | kJz | kJnz | kJeq | kJne | kCast
     | kNew | kThrow | kLoadField | kStoreField | kNot | kCar | kCdr | kNonnull | kNull
     | kAdd | kSubtract | kMultiply | kDivide | kModulus | kEquals | kBinaryAnd | kBinaryOr
     | kGreaterThan | kGreaterThanEqual | kLessThan | kLessThanEqual | kCons | kInstanceOf

definition all_ops :: "op list" where
  "all_ops =
    [kInvalid, kNop, kPop, kDup, kLookup, kStoreLocal, kStoreLocal0, kStoreLocal1
     , kStoreLocal2, kStoreLocal3, kLoadLocal, kLoadLocal0, kLoadLocal1, kLoadLocal2
     , kLoadLocal3, kInvoke, kInvokeDynamic, kInvokeNative, kCheckInstance, kRet, kPushQ
     , kPushI, kPushN, kPushT, kPushF, kJump, kJz, kJnz, kJeq, kJne, kCast, kNew, kThrow
     , kLoadField, kStoreField, kNot, kCar, kCdr, kNonnull, kNull, kAdd, kSubtract
     , kMultiply, kDivide, kModulus, kEquals, kBinaryAnd, kBinaryOr, kGreaterThan
     , kGreaterThanEqual, kLessThan, kLessThanEqual, kCons, kInstanceOf]"

fun op_code :: "op \<Rightarrow> nat" where
  "op_code kInvalid = 0"
| "op_code kNop = 1"
| "op_code kPop = 2"
| "op_code kDup = 3"
| "op_code kLookup = 4"
| "op_code kStoreLocal = 5"
| "op_code kStoreLocal0 = 6"
| "op_code kStoreLocal1 = 7"
| "op_code kStoreLocal2 = 8"
| "op_code kStoreLocal3 = 9"
| "op_code kLoadLocal = 10"
| "op_code kLoadLocal0 = 11"
| "op_code kLoadLocal1 = 12"
| "op_code kLoadLocal2 = 13"
| "op_code kLoadLocal3 = 14"
| "op_code kInvoke = 15"
| "op_code kInvokeDynamic = 16"
| "op_code kInvokeNative = 17"
| "op_code kCheckInstance = 18"
| "op_code kRet = 19"
| "op_code kPushQ = 20"
| "op_code kPushI = 21"
| "op_code kPushN = 22"
| "op_code kPushT = 23"
| "op_code kPushF = 24"
| "op_code kJump = 25"
| "op_code kJz = 26"
| "op_code kJnz = 27"
| "op_code kJeq = 28"
| "op_code kJne = 29"
| "op_code kCast = 30"
| "op_code kNew = 31"
| "op_code kThrow = 32"
| "op_code kLoadField = 33"
| "op_code kStoreField = 34"
| "op_code kNot = 35"
| "op_code kCar = 36"
| "op_code kCdr = 37"
| "op_code kNonnull = 38"
| "op_code kNull = 39"
| "op_code kAdd = 40"
| "op_code kSubtract = 41"
| "op_code kMultiply = 42"
| "op_code kDivide = 43"
| "op_code kModulus = 44"
| "op_code kEquals = 45"
| "op_code kBinaryAnd = 46"
| "op_code kBinaryOr = 47"
| "op_code kGreaterThan = 48"
| "op_code kGreaterThanEqual = 49"
| "op_code kLessThan = 50"
| "op_code kLessThanEqual = 51"
| "op_code kCons = 52"
| "op_code kInstanceOf = 53"

definition kTotalNumberOfOps :: nat where
  "kTotalNumberOfOps = 54"

lemma length_all_ops [simp]: "length all_ops = kTotalNumberOfOps"
  by (simp add: all_ops_def kTotalNumberOfOps_def)

lemma all_ops_nth [simp]: "all_ops ! op_code x = x"
  by (cases x) (simp_all add: all_ops_def)

lemma op_code_less [simp]: "op_code x < kTotalNumberOfOps"
  by (cases x) (simp_all add: kTotalNumberOfOps_def)

lemma op_code_inj: "op_code x = op_code y \<longleftrightarrow> x = y"
  by (metis all_ops_nth)

lemma map_op_code: "map op_code all_ops = [0..<kTotalNumberOfOps]"
  by (simp add: all_ops_def kTotalNumberOfOps_def upt_rec_numeral upt_rec)

lemma op_code_nth: "n < kTotalNumberOfOps \<Longrightarrow> op_code (all_ops ! n) = n"
  by (metis add_0 length_all_ops map_op_code nth_map nth_upt)

instantiation op :: linorder
begin

definition less_eq_op :: "op \<Rightarrow> op \<Rightarrow> bool" where
  "less_eq_op x y = (op_code x \<le> op_code y)"

definition less_op :: "op \<Rightarrow> op \<Rightarrow> bool" where
  "less_op x y = (op_code x < op_code y)"

instance
  by standard (auto simp: less_eq_op_def less_op_def op_code_inj)

end

section \<open>\<open>class Bytecode\<close>: one byte\<close>

text \<open>\<open>op()\<close> is a \<open>static_cast\<close>: a byte above the last operation names none of them
  (\<open>None\<close> here), and every \<open>switch\<close> of the code sends it to its \<open>default\<close> case.\<close>

definition raw_of_op :: "op \<Rightarrow> byte" where
  "raw_of_op x = of_nat (op_code x)"

definition op_of_raw :: "byte \<Rightarrow> op option" where
  "op_of_raw b = (if unat b < kTotalNumberOfOps then Some (all_ops ! unat b) else None)"

definition IsInvalidOp :: "op \<Rightarrow> bool" where
  "IsInvalidOp x = (x = kInvalid)"

fun IsBinaryOp :: "op \<Rightarrow> bool" where
  "IsBinaryOp kAdd = True"
| "IsBinaryOp kSubtract = True"
| "IsBinaryOp kMultiply = True"
| "IsBinaryOp kDivide = True"
| "IsBinaryOp kModulus = True"
| "IsBinaryOp kEquals = True"
| "IsBinaryOp kBinaryAnd = True"
| "IsBinaryOp kBinaryOr = True"
| "IsBinaryOp kGreaterThan = True"
| "IsBinaryOp kGreaterThanEqual = True"
| "IsBinaryOp kLessThan = True"
| "IsBinaryOp kLessThanEqual = True"
| "IsBinaryOp kCons = True"
| "IsBinaryOp kInstanceOf = True"
| "IsBinaryOp _ = False"

fun IsUnaryOp :: "op \<Rightarrow> bool" where
  "IsUnaryOp kNot = True"
| "IsUnaryOp kCar = True"
| "IsUnaryOp kCdr = True"
| "IsUnaryOp kNonnull = True"
| "IsUnaryOp kNull = True"
| "IsUnaryOp _ = False"

fun mnemonic :: "op \<Rightarrow> string" where
  "mnemonic kInvalid = ''unknown''"
| "mnemonic kNop = ''nop''"
| "mnemonic kPop = ''pop''"
| "mnemonic kDup = ''dup''"
| "mnemonic kLookup = ''lookup''"
| "mnemonic kStoreLocal = ''sl''"
| "mnemonic kStoreLocal0 = ''sl0''"
| "mnemonic kStoreLocal1 = ''sl1''"
| "mnemonic kStoreLocal2 = ''sl2''"
| "mnemonic kStoreLocal3 = ''sl3''"
| "mnemonic kLoadLocal = ''ll''"
| "mnemonic kLoadLocal0 = ''ll0''"
| "mnemonic kLoadLocal1 = ''ll1''"
| "mnemonic kLoadLocal2 = ''ll2''"
| "mnemonic kLoadLocal3 = ''ll3''"
| "mnemonic kInvoke = ''invoke''"
| "mnemonic kInvokeDynamic = ''invokedynamic''"
| "mnemonic kInvokeNative = ''invokenative''"
| "mnemonic kCheckInstance = ''checkinstance''"
| "mnemonic kRet = ''ret''"
| "mnemonic kPushQ = ''pushq''"
| "mnemonic kPushI = ''pushi''"
| "mnemonic kPushN = ''pushn''"
| "mnemonic kPushT = ''pusht''"
| "mnemonic kPushF = ''pushf''"
| "mnemonic kJump = ''jmp''"
| "mnemonic kJz = ''jz''"
| "mnemonic kJnz = ''jnz''"
| "mnemonic kJeq = ''jeq''"
| "mnemonic kJne = ''jne''"
| "mnemonic kCast = ''cast''"
| "mnemonic kNew = ''new''"
| "mnemonic kThrow = ''th''"
| "mnemonic kLoadField = ''ldfield''"
| "mnemonic kStoreField = ''stfield''"
| "mnemonic kNot = ''negate''"
| "mnemonic kCar = ''car''"
| "mnemonic kCdr = ''cdr''"
| "mnemonic kNonnull = ''neqnull''"
| "mnemonic kNull = ''eqnull''"
| "mnemonic kAdd = ''add''"
| "mnemonic kSubtract = ''sub''"
| "mnemonic kMultiply = ''mul''"
| "mnemonic kDivide = ''div''"
| "mnemonic kModulus = ''mod''"
| "mnemonic kEquals = ''eq''"
| "mnemonic kBinaryAnd = ''band''"
| "mnemonic kBinaryOr = ''bor''"
| "mnemonic kGreaterThan = ''gt''"
| "mnemonic kGreaterThanEqual = ''gte''"
| "mnemonic kLessThan = ''lt''"
| "mnemonic kLessThanEqual = ''lte''"
| "mnemonic kCons = ''cons''"
| "mnemonic kInstanceOf = ''instanceof''"

lemma unat_raw_of_op [simp]: "unat (raw_of_op x) = op_code x"
  using op_code_less [of x] by (simp add: raw_of_op_def unat_of_nat kTotalNumberOfOps_def)

lemma op_of_raw_of_op [simp]: "op_of_raw (raw_of_op x) = Some x"
  by (simp add: op_of_raw_def)

lemma raw_of_op_inj: "raw_of_op x = raw_of_op y \<longleftrightarrow> x = y"
  by (metis op_code_inj unat_raw_of_op)

lemma raw_of_op_of_raw: "op_of_raw b = Some x \<Longrightarrow> raw_of_op x = b"
  by (auto simp: op_of_raw_def raw_of_op_def op_code_nth split: if_splits)

lemma binary_ops_interval: "IsBinaryOp x \<longleftrightarrow> kAdd \<le> x"
  by (cases x) (simp_all add: less_eq_op_def)

lemma unary_ops_interval: "IsUnaryOp x \<longleftrightarrow> kNot \<le> x \<and> x \<le> kNull"
  by (cases x) (simp_all add: less_eq_op_def)

lemma distinct_mnemonics: "distinct (map mnemonic all_ops)"
  by (simp add: all_ops_def)

lemma mnemonic_inj: "mnemonic x = mnemonic y \<longleftrightarrow> x = y"
proof
  assume "mnemonic x = mnemonic y"
  then have "map mnemonic all_ops ! op_code x = map mnemonic all_ops ! op_code y"
    by simp
  then have "op_code x = op_code y"
    using distinct_mnemonics by (subst (asm) nth_eq_iff_index_eq) simp_all
  then show "x = y" by (simp add: op_code_inj)
qed simp

text \<open>The one-byte encoding of bytecodes is exact: a byte decodes to an operation
  exactly when it is that operation's code, the operations fill the codes 0 to 53, no
  operation is both unary and binary, and the mnemonics tell all operations apart.\<close>

theorem bytecode_encoding:
  "(op_of_raw b = Some x \<longleftrightarrow> b = raw_of_op x) \<and>
   (op_of_raw b = None \<longleftrightarrow> 54 \<le> unat b) \<and>
   \<not> (IsUnaryOp x \<and> IsBinaryOp x) \<and>
   (mnemonic x = mnemonic y \<longleftrightarrow> x = y)"
proof (intro conjI)
  show "op_of_raw b = Some x \<longleftrightarrow> b = raw_of_op x"
    using raw_of_op_of_raw by auto
  show "op_of_raw b = None \<longleftrightarrow> 54 \<le> unat b"
    by (auto simp: op_of_raw_def kTotalNumberOfOps_def)
  show "\<not> (IsUnaryOp x \<and> IsBinaryOp x)"
    by (auto simp: binary_ops_interval unary_ops_interval less_eq_op_def)
qed (rule mnemonic_inj)

end
