(* ===== verification/Assembler.thy ===== *)
theory Assembler
  imports Bytecodes
begin

text \<open>
  The bytecode assembler: labels and the code buffer of \<open>gel/assembler_base.h\<close>, the
  assembler of \<open>gel/assembler_vm.h\<close> and \<open>gel/assembler_vm.cc\<close>, and the decoder of
  \<open>gel/disassembler_vm.h\<close> that reads the assembled code back. Objects are given by
  their addresses, as the assembler emits them. A label is passed by pointer in the
  code: the operations here take it and return it updated, beside the buffer.
\<close>

section \<open>Labels\<close>

definition kWordSize :: uword where
  "kWordSize = 8"

record label =
  pos_of :: uword  \<comment> \<open>\<open>pos_\<close>, a signed word\<close>

definition new_label :: label where
  "new_label = \<lparr>pos_of = 0\<rparr>"

definition BindTo :: "uword \<Rightarrow> label \<Rightarrow> label" where
  "BindTo pos l = l\<lparr>pos_of := - pos - kWordSize\<rparr>"

definition LinkTo :: "uword \<Rightarrow> label \<Rightarrow> label" where
  "LinkTo pos l = l\<lparr>pos_of := pos + kWordSize\<rparr>"

definition IsBound :: "label \<Rightarrow> bool" where
  "IsBound l = (pos_of l <s 0)"

definition IsLinked :: "label \<Rightarrow> bool" where
  "IsLinked l = (0 <s pos_of l)"

definition GetPos :: "label \<Rightarrow> uword" where
  "GetPos l = (if IsBound l then - pos_of l - kWordSize else pos_of l - kWordSize)"

definition GetLinkPos :: "label \<Rightarrow> uword" where
  "GetLinkPos l = pos_of l - kWordSize"

section \<open>\<open>class AssemblerBuffer\<close>\<close>

record assembler_buffer =
  ab_start :: uword
  ab_current :: uword
  ab_asize :: uword
  ab_mem :: "byte list"  \<comment> \<open>the mapped bytes, from \<open>start_\<close> on\<close>

definition kDefaultInitSize :: uword where
  "kDefaultInitSize = 4096"

text \<open>The constructor; the address the operating system maps the region at is a parameter.\<close>

definition new_AssemblerBuffer :: "uword \<Rightarrow> uword \<Rightarrow> assembler_buffer" where
  "new_AssemblerBuffer mapped init_size =
    (if init_size = 0 then \<lparr>ab_start = 0, ab_current = 0, ab_asize = 0, ab_mem = []\<rparr>
     else \<lparr>ab_start = mapped, ab_current = mapped, ab_asize = init_size,
            ab_mem = replicate (unat init_size) 0\<rparr>)"

definition buffer_GetSize :: "assembler_buffer \<Rightarrow> uword" where
  "buffer_GetSize b = ab_current b - ab_start b"

definition LoadAt :: "nat \<Rightarrow> uword \<Rightarrow> assembler_buffer \<Rightarrow> byte list res" where
  "LoadAt n pos b =
    asserting (pos \<le> ab_asize b)
      (guardr UndefinedBehaviour (unat pos + n \<le> length (ab_mem b))
        (Inr (slice (unat pos) n (ab_mem b))))"

definition StoreAt :: "uword \<Rightarrow> byte list \<Rightarrow> assembler_buffer \<Rightarrow> assembler_buffer res" where
  "StoreAt pos rhs b =
    asserting (pos \<le> ab_asize b)
      (guardr UndefinedBehaviour (unat pos + length rhs \<le> length (ab_mem b))
        (Inr (b\<lparr>ab_mem := splice_at (unat pos) rhs (ab_mem b)\<rparr>)))"

definition buffer_Emit :: "byte list \<Rightarrow> assembler_buffer \<Rightarrow> assembler_buffer res" where
  "buffer_Emit rhs b =
    rbind (StoreAt (ab_current b - ab_start b) rhs b)
      (\<lambda>b'. Inr (b'\<lparr>ab_current := ab_current b' + of_nat (length rhs)\<rparr>))"

definition buffer_Clear :: "assembler_buffer \<Rightarrow> assembler_buffer" where
  "buffer_Clear b = b\<lparr>ab_mem := replicate (unat (ab_asize b)) 0 @ drop (unat (ab_asize b)) (ab_mem b)\<rparr>"

section \<open>\<open>class Assembler\<close>\<close>

definition EmitOp :: "op \<Rightarrow> assembler_buffer \<Rightarrow> assembler_buffer res" where
  "EmitOp x b = buffer_Emit [raw_of_op x] b"

definition Emit :: "uword \<Rightarrow> assembler_buffer \<Rightarrow> assembler_buffer res" where
  "Emit value b = buffer_Emit (bytes_of 8 value) b"

definition EmitAddress :: "uword \<Rightarrow> assembler_buffer \<Rightarrow> assembler_buffer res" where
  "EmitAddress addr b = Emit addr b"

definition EmitLabelLink :: "label \<Rightarrow> assembler_buffer \<Rightarrow> (label \<times> assembler_buffer) res" where
  "EmitLabelLink l b =
    (let pos = buffer_GetSize b in
     rbind (Emit (pos_of l) b) (\<lambda>b'. Inr (LinkTo pos l, b')))"

definition EmitLabel :: "label \<Rightarrow> assembler_buffer \<Rightarrow> (label \<times> assembler_buffer) res" where
  "EmitLabel l b =
    (if IsBound l then
       let offset = GetPos l - buffer_GetSize b in
       rbind (Emit offset b) (\<lambda>b'. Inr (l, b'))
     else EmitLabelLink l b)"

definition Jump :: "op \<Rightarrow> label \<Rightarrow> assembler_buffer \<Rightarrow> (label \<times> assembler_buffer) res" where
  "Jump x l b =
    (if IsBound l then
       let offset = GetPos l - buffer_GetSize b in
       asserting (offset \<le>s 0)
         (rbind (EmitOp x b) (\<lambda>b'. rbind (Emit offset b') (\<lambda>b''. Inr (l, b''))))
     else rbind (EmitOp x b) (EmitLabelLink l))"

fun bind_loop :: "nat \<Rightarrow> uword \<Rightarrow> label \<Rightarrow> assembler_buffer \<Rightarrow> (label \<times> assembler_buffer) res" where
  "bind_loop fuel bound l b =
    (if IsLinked l then
       (case fuel of
          0 \<Rightarrow> Inl OutOfFuel
        | Suc k \<Rightarrow>
            (let pos = GetLinkPos l; dest = bound - pos in
             rbind (LoadAt 8 pos b) (\<lambda>next.
             rbind (StoreAt pos (bytes_of 8 dest) b) (\<lambda>b'.
             bind_loop k bound (l\<lparr>pos_of := word_of next\<rparr>) b'))))
     else Inr (l, b))"

declare bind_loop.simps [simp del]

text \<open>A link takes eight bytes of its own, so a chain has fewer links than the buffer has
  bytes and the fuel is never what stops a binding of a chain the assembler made.\<close>

definition Bind :: "label \<Rightarrow> assembler_buffer \<Rightarrow> (label \<times> assembler_buffer) res" where
  "Bind l b =
    (let bound = buffer_GetSize b + 1 in
     rbind (bind_loop (unat (ab_asize b)) bound l b) (\<lambda>(l', b'). Inr (BindTo bound l', b')))"

definition asm_jmp :: "label \<Rightarrow> assembler_buffer \<Rightarrow> (label \<times> assembler_buffer) res" where
  "asm_jmp l b = Jump kJump l b"

definition asm_jz :: "label \<Rightarrow> assembler_buffer \<Rightarrow> (label \<times> assembler_buffer) res" where
  "asm_jz l b = Jump kJz l b"

definition asm_jnz :: "label \<Rightarrow> assembler_buffer \<Rightarrow> (label \<times> assembler_buffer) res" where
  "asm_jnz l b = Jump kJnz l b"

definition asm_jne :: "label \<Rightarrow> assembler_buffer \<Rightarrow> (label \<times> assembler_buffer) res" where
  "asm_jne l b = Jump kJne l b"

definition asm_jeq :: "label \<Rightarrow> assembler_buffer \<Rightarrow> (label \<times> assembler_buffer) res" where
  "asm_jeq l b = Jump kJeq l b"

subsection \<open>One method per instruction\<close>

definition asm_CastTo :: "uword \<Rightarrow> assembler_buffer \<Rightarrow> assembler_buffer res" where
  "asm_CastTo cls b = rbind (EmitOp kCast b) (EmitAddress cls)"

definition asm_dup :: "assembler_buffer \<Rightarrow> assembler_buffer res" where
  "asm_dup = EmitOp kDup"

definition asm_nop :: "assembler_buffer \<Rightarrow> assembler_buffer res" where
  "asm_nop = EmitOp kNop"

definition asm_pop :: "assembler_buffer \<Rightarrow> assembler_buffer res" where
  "asm_pop = EmitOp kPop"

definition asm_ret :: "assembler_buffer \<Rightarrow> assembler_buffer res" where
  "asm_ret = EmitOp kRet"

definition asm_ldfield :: "uword \<Rightarrow> assembler_buffer \<Rightarrow> assembler_buffer res" where
  "asm_ldfield field b =
    asserting (field \<noteq> 0) (rbind (EmitOp kLoadField b) (EmitAddress field))"

definition asm_stfield :: "uword \<Rightarrow> assembler_buffer \<Rightarrow> assembler_buffer res" where
  "asm_stfield field b =
    asserting (field \<noteq> 0) (rbind (EmitOp kStoreField b) (EmitAddress field))"

definition asm_pushq :: "uword \<Rightarrow> assembler_buffer \<Rightarrow> assembler_buffer res" where
  "asm_pushq value b = rbind (EmitOp kPushQ b) (Emit value)"

definition asm_pushl :: "uword \<Rightarrow> assembler_buffer \<Rightarrow> assembler_buffer res" where
  "asm_pushl rhs b = rbind (EmitOp kPushI b) (Emit rhs)"

definition asm_pusht :: "assembler_buffer \<Rightarrow> assembler_buffer res" where
  "asm_pusht = EmitOp kPushT"

definition asm_pushf :: "assembler_buffer \<Rightarrow> assembler_buffer res" where
  "asm_pushf = EmitOp kPushF"

definition asm_pushn :: "assembler_buffer \<Rightarrow> assembler_buffer res" where
  "asm_pushn = EmitOp kPushN"

definition asm_lookup :: "assembler_buffer \<Rightarrow> assembler_buffer res" where
  "asm_lookup = EmitOp kLookup"

definition asm_invoke :: "uword \<Rightarrow> uword \<Rightarrow> assembler_buffer \<Rightarrow> assembler_buffer res" where
  "asm_invoke func num_args b =
    asserting (func \<noteq> 0)
      (rbind (rbind (EmitOp kInvoke b) (EmitAddress func)) (Emit num_args))"

definition asm_invokedynamic :: "uword \<Rightarrow> assembler_buffer \<Rightarrow> assembler_buffer res" where
  "asm_invokedynamic num_args b = rbind (EmitOp kInvokeDynamic b) (Emit num_args)"

definition asm_invokenative :: "uword \<Rightarrow> uword \<Rightarrow> assembler_buffer \<Rightarrow> assembler_buffer res" where
  "asm_invokenative func num_args b =
    asserting (func \<noteq> 0)
      (rbind (rbind (EmitOp kInvokeNative b) (EmitAddress func)) (Emit num_args))"

definition asm_th :: "assembler_buffer \<Rightarrow> assembler_buffer res" where
  "asm_th = EmitOp kThrow"

definition op_plus :: "op \<Rightarrow> uword \<Rightarrow> op" where
  "op_plus x idx = all_ops ! (op_code x + unat idx)"

definition asm_LoadLocal :: "uword \<Rightarrow> assembler_buffer \<Rightarrow> assembler_buffer res" where
  "asm_LoadLocal idx b =
    (if unat idx \<le> op_code kLoadLocal3 - op_code kLoadLocal0 then EmitOp (op_plus kLoadLocal0 idx) b
     else rbind (EmitOp kLoadLocal b) (Emit idx))"

definition asm_StoreLocal :: "uword \<Rightarrow> assembler_buffer \<Rightarrow> assembler_buffer res" where
  "asm_StoreLocal idx b =
    (if unat idx \<le> op_code kStoreLocal3 - op_code kStoreLocal0 then EmitOp (op_plus kStoreLocal0 idx) b
     else rbind (EmitOp kStoreLocal b) (Emit idx))"

definition asm_negate :: "assembler_buffer \<Rightarrow> assembler_buffer res" where
  "asm_negate = EmitOp kNot"

definition asm_car :: "assembler_buffer \<Rightarrow> assembler_buffer res" where
  "asm_car = EmitOp kCar"

definition asm_cdr :: "assembler_buffer \<Rightarrow> assembler_buffer res" where
  "asm_cdr = EmitOp kCdr"

definition asm_isnonnull :: "assembler_buffer \<Rightarrow> assembler_buffer res" where
  "asm_isnonnull = EmitOp kNonnull"

definition asm_isnull :: "assembler_buffer \<Rightarrow> assembler_buffer res" where
  "asm_isnull = EmitOp kNull"

definition asm_add :: "assembler_buffer \<Rightarrow> assembler_buffer res" where
  "asm_add = EmitOp kAdd"

definition asm_sub :: "assembler_buffer \<Rightarrow> assembler_buffer res" where
  "asm_sub = EmitOp kSubtract"

definition asm_mul :: "assembler_buffer \<Rightarrow> assembler_buffer res" where
  "asm_mul = EmitOp kMultiply"

definition asm_div :: "assembler_buffer \<Rightarrow> assembler_buffer res" where
  "asm_div = EmitOp kDivide"

definition asm_mod :: "assembler_buffer \<Rightarrow> assembler_buffer res" where
  "asm_mod = EmitOp kModulus"

definition asm_eq :: "assembler_buffer \<Rightarrow> assembler_buffer res" where
  "asm_eq = EmitOp kEquals"

definition asm_band :: "assembler_buffer \<Rightarrow> assembler_buffer res" where
  "asm_band = EmitOp kBinaryAnd"

definition asm_bor :: "assembler_buffer \<Rightarrow> assembler_buffer res" where
  "asm_bor = EmitOp kBinaryOr"

definition asm_gt :: "assembler_buffer \<Rightarrow> assembler_buffer res" where
  "asm_gt = EmitOp kGreaterThan"

definition asm_gte :: "assembler_buffer \<Rightarrow> assembler_buffer res" where
  "asm_gte = EmitOp kGreaterThanEqual"

definition asm_lt :: "assembler_buffer \<Rightarrow> assembler_buffer res" where
  "asm_lt = EmitOp kLessThan"

definition asm_lte :: "assembler_buffer \<Rightarrow> assembler_buffer res" where
  "asm_lte = EmitOp kLessThanEqual"

definition asm_cons :: "assembler_buffer \<Rightarrow> assembler_buffer res" where
  "asm_cons = EmitOp kCons"

definition asm_instanceof :: "assembler_buffer \<Rightarrow> assembler_buffer res" where
  "asm_instanceof = EmitOp kInstanceOf"

definition asm_CheckInstance :: "uword \<Rightarrow> assembler_buffer \<Rightarrow> assembler_buffer res" where
  "asm_CheckInstance cls b =
    asserting (cls \<noteq> 0) (rbind (EmitOp kCheckInstance b) (EmitAddress cls))"

definition asm_New :: "uword \<Rightarrow> uword \<Rightarrow> assembler_buffer \<Rightarrow> assembler_buffer res" where
  "asm_New cls num_args b =
    asserting (cls \<noteq> 0) (rbind (rbind (EmitOp kNew b) (EmitAddress cls)) (Emit num_args))"

section \<open>Assembled code in memory\<close>

text \<open>The memory the code is copied to and read from: a partial map from addresses to
  bytes. Reading outside it has no defined meaning.\<close>

type_synonym memory = "uword \<rightharpoonup> byte"

definition load_region :: "uword \<Rightarrow> byte list \<Rightarrow> memory \<Rightarrow> memory" where
  "load_region addr bs m =
    (\<lambda>a. if unat (a - addr) < length bs then Some (bs ! unat (a - addr)) else m a)"

text \<open>\<open>Assemble\<close>: the code is copied to a fresh region, mapped at the address given; a
  region of size 0 cannot be mapped (\<open>RoundUpPow2(0)\<close> is 0, which \<open>mmap\<close> refuses).\<close>

definition Assemble :: "uword \<Rightarrow> assembler_buffer \<Rightarrow> memory \<Rightarrow> (uword \<times> uword \<times> memory) res" where
  "Assemble mapped b m =
    guardr LogFatal (buffer_GetSize b \<noteq> 0)
      (Inr (mapped, buffer_GetSize b, load_region mapped (take (unat (buffer_GetSize b)) (ab_mem b)) m))"

definition read_byte :: "memory \<Rightarrow> uword \<Rightarrow> byte res" where
  "read_byte m a = (case m a of None \<Rightarrow> Inl UndefinedBehaviour | Some v \<Rightarrow> Inr v)"

fun read_bytes :: "memory \<Rightarrow> uword \<Rightarrow> nat \<Rightarrow> byte list res" where
  "read_bytes m a 0 = Inr []"
| "read_bytes m a (Suc n) =
    rbind (read_byte m a) (\<lambda>v. rbind (read_bytes m (a + 1) n) (\<lambda>vs. Inr (v # vs)))"

definition read_word :: "memory \<Rightarrow> uword \<Rightarrow> uword res" where
  "read_word m a = rbind (read_bytes m a 8) (\<lambda>bs. Inr (word_of bs))"

section \<open>\<open>class BytecodeDecoder\<close>\<close>

record bytecode_decoder =
  region_start :: uword
  region_size :: uword
  decoder_current :: uword

definition new_BytecodeDecoder :: "uword \<Rightarrow> uword \<Rightarrow> bytecode_decoder" where
  "new_BytecodeDecoder st sz =
    \<lparr>region_start = st, region_size = sz, decoder_current = st\<rparr>"

definition decoder_GetPos :: "bytecode_decoder \<Rightarrow> uword" where
  "decoder_GetPos d = decoder_current d - region_start d"

definition HasNext :: "bytecode_decoder \<Rightarrow> bool" where
  "HasNext d = (decoder_current d + 1 \<le> region_start d + region_size d)"

definition NextBytecode :: "memory \<Rightarrow> bytecode_decoder \<Rightarrow> (byte \<times> bytecode_decoder) res" where
  "NextBytecode m d =
    rbind (read_byte m (decoder_current d))
      (\<lambda>v. Inr (v, d\<lparr>decoder_current := decoder_current d + 1\<rparr>))"

definition NextUWord :: "memory \<Rightarrow> bytecode_decoder \<Rightarrow> (uword \<times> bytecode_decoder) res" where
  "NextUWord m d =
    rbind (read_word m (decoder_current d))
      (\<lambda>v. Inr (v, d\<lparr>decoder_current := decoder_current d + 8\<rparr>))"

end
