(* ===== verification/AssemblerCorrect.thy ===== *)
theory AssemblerCorrect
  imports Assembler
begin

text \<open>
  Correctness of the assembler. The abstract value of a buffer is the list of bytes
  emitted so far (\<open>holds\<close>): every emitting method appends the encoding of one
  instruction to it, decoding an assembled region gives the instructions back, and
  binding a label patches exactly the jumps linked to it.
\<close>

section \<open>The bytes a buffer holds\<close>

definition holds :: "assembler_buffer \<Rightarrow> byte list \<Rightarrow> bool" where
  "holds b cs \<longleftrightarrow> length (ab_mem b) = unat (ab_asize b) \<and> unat (ab_asize b) \<le> 2 ^ 32 \<and>
     buffer_GetSize b = of_nat (length cs) \<and> length cs \<le> unat (ab_asize b) \<and>
     take (length cs) (ab_mem b) = cs"

definition room :: "assembler_buffer \<Rightarrow> byte list \<Rightarrow> nat" where
  "room b cs = unat (ab_asize b) - length cs"

lemma holds_new: "holds (new_AssemblerBuffer mapped kDefaultInitSize) []"
  by (simp add: holds_def new_AssemblerBuffer_def kDefaultInitSize_def buffer_GetSize_def)

lemma unat_of_nat_uword: "n \<le> 2 ^ 33 \<Longrightarrow> unat (of_nat n :: uword) = n"
  by (simp add: unat_of_nat)

lemma holdsD:
  assumes "holds b cs"
  shows "length (ab_mem b) = unat (ab_asize b)" "length cs \<le> 2 ^ 32"
    "buffer_GetSize b = of_nat (length cs)" "unat (buffer_GetSize b) = length cs" "length cs \<le> unat (ab_asize b)"
    "take (length cs) (ab_mem b) = cs"
  using assms unat_of_nat_uword [of "length cs"] by (auto simp: holds_def)

lemma buffer_Emit_holds:
  assumes h: "holds b cs" and r: "length bs \<le> room b cs"
  shows "\<exists>b'. buffer_Emit bs b = Inr b' \<and> holds b' (cs @ bs) \<and> ab_asize b' = ab_asize b"
proof -
  note H = holdsD [OF h]
  have fits: "length cs + length bs \<le> unat (ab_asize b)"
    using r H(5) by (simp add: room_def)
  define b' where "b' = b\<lparr>ab_mem := splice_at (length cs) bs (ab_mem b),
      ab_current := ab_current b + of_nat (length bs)\<rparr>"
  have "buffer_GetSize b \<le> ab_asize b"
    using H(4,5) by (simp add: word_le_nat_alt)
  then have "buffer_Emit bs b = Inr b'"
    using fits H(1,4) by (simp add: buffer_Emit_def StoreAt_def buffer_GetSize_def b'_def)
  moreover have "buffer_GetSize b' = of_nat (length (cs @ bs))"
    using H(3) by (simp add: b'_def buffer_GetSize_def algebra_simps)
  then have "holds b' (cs @ bs)"
    using h fits H unfolding holds_def
    by (simp add: b'_def splice_at_def)
  moreover have "ab_asize b' = ab_asize b" by (simp add: b'_def)
  ultimately show ?thesis by blast
qed

lemma buffer_Emit_overflow:
  assumes h: "holds b cs" and r: "room b cs < length bs"
  shows "buffer_Emit bs b = Inl UndefinedBehaviour"
proof -
  note H = holdsD [OF h]
  have "buffer_GetSize b \<le> ab_asize b"
    using H(4,5) by (simp add: word_le_nat_alt)
  then show ?thesis
    using r H(1,4) by (simp add: buffer_Emit_def StoreAt_def buffer_GetSize_def room_def guardr_def)
qed

text \<open>A state transformer that appends \<open>bs\<close> whenever there is room for it.\<close>

definition appends :: "(assembler_buffer \<Rightarrow> assembler_buffer res) \<Rightarrow> byte list \<Rightarrow> bool" where
  "appends f bs \<longleftrightarrow> (\<forall>b cs. holds b cs \<longrightarrow> length bs \<le> room b cs \<longrightarrow>
     (\<exists>b'. f b = Inr b' \<and> holds b' (cs @ bs) \<and> ab_asize b' = ab_asize b))"

lemma appends_EmitOp [intro]: "appends (EmitOp x) [raw_of_op x]"
  unfolding appends_def EmitOp_def using buffer_Emit_holds by blast

lemma appends_Emit [intro]: "appends (Emit v) (bytes_of 8 v)"
  unfolding appends_def Emit_def using buffer_Emit_holds by blast

lemma appends_seq:
  assumes "appends f bs" "appends g cs"
  shows "appends (\<lambda>b. rbind (f b) g) (bs @ cs)"
  unfolding appends_def
proof (intro allI impI)
  fix b xs assume h: "holds b xs" and r: "length (bs @ cs) \<le> room b xs"
  then obtain b1 where "f b = Inr b1" "holds b1 (xs @ bs)" "ab_asize b1 = ab_asize b"
    using assms(1) unfolding appends_def by fastforce
  moreover from this obtain b2 where "g b1 = Inr b2" "holds b2 ((xs @ bs) @ cs)" "ab_asize b2 = ab_asize b"
    using assms(2) r unfolding appends_def by (fastforce simp: room_def)
  ultimately show "\<exists>b'. rbind (f b) g = Inr b' \<and> holds b' (xs @ bs @ cs) \<and> ab_asize b' = ab_asize b"
    by simp
qed

section \<open>Instructions and the methods that emit them\<close>

text \<open>The instruction set as the assembler presents it: an operation alone, with one
  word (an immediate, an address, a count), or with an address and a count. Jumps are
  treated apart, as their operand depends on the label.\<close>

datatype instr =
    Plain op
  | OneWord op uword
  | TwoWords op uword uword

fun encode :: "instr \<Rightarrow> byte list" where
  "encode (Plain x) = [raw_of_op x]"
| "encode (OneWord x v) = raw_of_op x # bytes_of 8 v"
| "encode (TwoWords x v w) = raw_of_op x # bytes_of 8 v @ bytes_of 8 w"

text \<open>The short forms of the local variable instructions.\<close>

definition local_instr :: "op \<Rightarrow> op \<Rightarrow> uword \<Rightarrow> instr" where
  "local_instr short long idx =
    (if unat idx \<le> 3 then Plain (op_plus short idx) else OneWord long idx)"

lemma appends_Op1: "appends (\<lambda>b. rbind (EmitOp x b) (Emit v)) (encode (OneWord x v))"
  using appends_seq [OF appends_EmitOp appends_Emit, of x v] by simp

lemma appends_Op2:
  "appends (\<lambda>b. rbind (rbind (EmitOp x b) (Emit v)) (Emit w)) (encode (TwoWords x v w))"
  using appends_seq [OF appends_Op1 appends_Emit, of x v w] by simp

lemma appends_plain: "appends (EmitOp x) (encode (Plain x))"
  by auto

lemmas asm_plain_defs = asm_dup_def asm_nop_def asm_pop_def asm_ret_def asm_pusht_def asm_pushf_def
  asm_pushn_def asm_lookup_def asm_th_def asm_negate_def asm_car_def asm_cdr_def asm_isnonnull_def
  asm_isnull_def asm_add_def asm_sub_def asm_mul_def asm_div_def asm_mod_def asm_eq_def asm_band_def
  asm_bor_def asm_gt_def asm_gte_def asm_lt_def asm_lte_def asm_cons_def asm_instanceof_def

lemma EmitAddress_Emit [simp]: "EmitAddress = Emit"
  by (simp add: fun_eq_iff EmitAddress_def)

lemma asm_word_methods:
  "appends (asm_pushq v) (encode (OneWord kPushQ v))"
  "appends (asm_pushl v) (encode (OneWord kPushI v))"
  "appends (asm_CastTo c) (encode (OneWord kCast c))"
  "appends (asm_invokedynamic n) (encode (OneWord kInvokeDynamic n))"
  "f \<noteq> 0 \<Longrightarrow> appends (asm_ldfield f) (encode (OneWord kLoadField f))"
  "f \<noteq> 0 \<Longrightarrow> appends (asm_stfield f) (encode (OneWord kStoreField f))"
  "c \<noteq> 0 \<Longrightarrow> appends (asm_CheckInstance c) (encode (OneWord kCheckInstance c))"
  using appends_Op1
  by (simp_all add: asm_pushq_def asm_pushl_def asm_CastTo_def asm_invokedynamic_def
      asm_ldfield_def asm_stfield_def asm_CheckInstance_def fun_eq_iff appends_def)

lemma asm_two_word_methods:
  "p \<noteq> 0 \<Longrightarrow> appends (asm_invoke p n) (encode (TwoWords kInvoke p n))"
  "p \<noteq> 0 \<Longrightarrow> appends (asm_invokenative p n) (encode (TwoWords kInvokeNative p n))"
  "p \<noteq> 0 \<Longrightarrow> appends (asm_New p n) (encode (TwoWords kNew p n))"
  using appends_Op2
  by (simp_all add: asm_invoke_def asm_invokenative_def asm_New_def appends_def)

lemma asm_local_methods:
  "appends (asm_LoadLocal i) (encode (local_instr kLoadLocal0 kLoadLocal i))"
  "appends (asm_StoreLocal i) (encode (local_instr kStoreLocal0 kStoreLocal i))"
  using appends_Op1 appends_EmitOp
  by (auto simp: asm_LoadLocal_def asm_StoreLocal_def local_instr_def appends_def)

section \<open>Reading assembled code back\<close>

lemma read_byte_load_region:
  assumes "length bs \<le> 2 ^ 33" "i < length bs"
  shows "read_byte (load_region addr bs m) (addr + of_nat i) = Inr (bs ! i)"
  using assms unat_of_nat_uword [of i] by (simp add: read_byte_def load_region_def)

lemma read_bytes_load_region:
  assumes "length bs \<le> 2 ^ 33" "i + n \<le> length bs"
  shows "read_bytes (load_region addr bs m) (addr + of_nat i) n = Inr (slice i n bs)"
  using assms
proof (induction n arbitrary: i)
  case 0
  then show ?case by (simp add: slice_def)
next
  case (Suc n)
  have "read_bytes (load_region addr bs m) (addr + of_nat i + 1) n = Inr (slice (Suc i) n bs)"
    using Suc.IH [of "Suc i"] Suc.prems by (simp add: ac_simps)
  moreover have "slice i (Suc n) bs = bs ! i # slice (Suc i) n bs"
    using Suc.prems by (simp add: slice_def Cons_nth_drop_Suc [symmetric])
  ultimately show ?case
    using Suc.prems by (simp add: read_byte_load_region)
qed

lemma read_word_load_region:
  assumes "length bs \<le> 2 ^ 33" "i + 8 \<le> length bs"
  shows "read_word (load_region addr bs m) (addr + of_nat i) = Inr (word_of (slice i 8 bs))"
  using assms by (simp add: read_word_def read_bytes_load_region)

section \<open>Labels and their chains\<close>

lemma sint_of_nat_uword: "n < 2 ^ 63 \<Longrightarrow> sint (of_nat n :: uword) = int n"
  by (simp add: signed_of_nat signed_take_bit_int_eq_self)

lemma sint_minus_uword: "n < 2 ^ 63 \<Longrightarrow> sint (- of_nat n :: uword) = - int n"
proof -
  assume n: "n < 2 ^ 63"
  have "(- of_nat n :: uword) = of_int (- int n)" by simp
  then show ?thesis
    using n by (simp only: signed_of_int) (simp add: signed_take_bit_int_eq_self)
qed

text \<open>A chain of links: the label holds the position of the last operand word linked to it
  (plus the word size), that word holds the one before it, and so on down to 0.\<close>

fun chain :: "byte list \<Rightarrow> uword \<Rightarrow> nat list \<Rightarrow> bool" where
  "chain cs v [] \<longleftrightarrow> v = 0"
| "chain cs v (p # ps) \<longleftrightarrow> v = of_nat p + 8 \<and> p + 8 \<le> length cs \<and>
     (\<forall>q\<in>set ps. q + 8 \<le> p) \<and> chain cs (word_of (slice p 8 cs)) ps"

definition patch :: "nat \<Rightarrow> nat \<Rightarrow> byte list \<Rightarrow> byte list" where
  "patch bound p cs = splice_at p (bytes_of 8 (of_nat bound - of_nat p)) cs"

lemma length_patch [simp]: "p + 8 \<le> length cs \<Longrightarrow> length (patch bound p cs) = length cs"
  by (simp add: patch_def)

lemma chain_patch:
  assumes "chain cs v ps" "\<forall>q\<in>set ps. q + 8 \<le> p" "p + 8 \<le> length cs"
  shows "chain (patch bound p cs) v ps"
  using assms
proof (induction cs v ps rule: chain.induct)
  case (1 cs v)
  then show ?case by simp
next
  case (2 cs v q qs)
  have "slice q 8 (patch bound p cs) = slice q 8 cs"
    using 2 by (simp add: patch_def slice_splice_at_other)
  then show ?case using 2 by simp
qed

lemma chain_length: "chain cs v ps \<Longrightarrow> ps \<noteq> [] \<Longrightarrow> 8 * length ps \<le> hd ps + 8"
proof (induction cs v ps rule: chain.induct)
  case (2 cs v p ps)
  then show ?case by (cases ps) auto
qed simp

lemma IsLinked_chain:
  assumes "chain cs v ps" "length cs \<le> 2 ^ 33"
  shows "IsLinked \<lparr>pos_of = v\<rparr> \<longleftrightarrow> ps \<noteq> []"
proof (cases ps)
  case Nil
  then show ?thesis using assms by (simp add: IsLinked_def)
next
  case (Cons p qs)
  then have "v = of_nat (p + 8)" "p + 8 < 2 ^ 63" using assms by auto
  then have "sint v = int (p + 8)" by (simp only: sint_of_nat_uword)
  then show ?thesis using Cons by (simp add: IsLinked_def word_sless_alt)
qed

lemma holds_store:
  assumes "holds b cs" "p + 8 \<le> length cs" "length w = 8"
  shows "holds (b\<lparr>ab_mem := splice_at p w (ab_mem b)\<rparr>) (splice_at p w cs)"
proof -
  note H = holdsD [OF assms(1)]
  have nth: "ab_mem b ! k = cs ! k" if "k < length cs" for k
    using H(6) that by (metis nth_take)
  have "take (length cs) (splice_at p w (ab_mem b)) = splice_at p w cs"
    using assms(2,3) H(1,5) by (intro nth_equalityI) (auto simp: nth_splice_at nth)
  then show ?thesis
    using assms H by (simp add: holds_def buffer_GetSize_def)
qed

lemma bind_loop_chain:
  assumes "holds b cs" "chain cs v ps" "length ps \<le> fuel"
  shows "\<exists>b'. bind_loop fuel (of_nat bound) \<lparr>pos_of = v\<rparr> b = Inr (\<lparr>pos_of = 0\<rparr>, b') \<and>
     holds b' (fold (patch bound) ps cs) \<and> ab_asize b' = ab_asize b"
  using assms
proof (induction ps arbitrary: b cs v fuel)
  case Nil
  then show ?case
    using IsLinked_chain [of cs v "[]"] holdsD(2) [of b cs]
    by (subst bind_loop.simps) simp
next
  case (Cons p ps)
  note H = holdsD [OF Cons.prems(1)]
  have v: "v = of_nat p + 8" and p: "p + 8 \<le> length cs"
    using Cons.prems(2) by auto
  obtain k where k: "fuel = Suc k" "length ps \<le> k"
    using Cons.prems(3) by (cases fuel) auto
  have linked: "IsLinked \<lparr>pos_of = v\<rparr>"
    using IsLinked_chain [OF Cons.prems(2)] H(2) by simp
  have pos: "GetLinkPos \<lparr>pos_of = v\<rparr> = of_nat p" "unat (of_nat p :: uword) = p"
    using p H(2) by (simp_all add: GetLinkPos_def kWordSize_def v unat_of_nat_uword)
  have le: "of_nat p \<le> ab_asize b"
    using p H(5) pos(2) by (simp add: word_le_nat_alt)
  define b1 where "b1 = b\<lparr>ab_mem := splice_at p (bytes_of 8 (of_nat bound - of_nat p)) (ab_mem b)\<rparr>"
  have b1: "holds b1 (patch bound p cs)" "ab_asize b1 = ab_asize b"
    using holds_store [OF Cons.prems(1) p] by (simp_all add: b1_def patch_def)
  have same: "slice p 8 (ab_mem b) = slice p 8 cs"
    using p H(5) by (subst H(6) [symmetric]) (simp add: slice_def drop_take min_def)
  have "chain (patch bound p cs) (word_of (slice p 8 cs)) ps"
    using Cons.prems(2) p by (intro chain_patch) auto
  with Cons.IH [OF b1(1) this k(2)] b1(2) obtain b2
    where "bind_loop k (of_nat bound) \<lparr>pos_of = word_of (slice p 8 cs)\<rparr> b1 = Inr (\<lparr>pos_of = 0\<rparr>, b2)"
      "holds b2 (fold (patch bound) ps (patch bound p cs))" "ab_asize b2 = ab_asize b"
    by auto
  moreover have "bind_loop fuel (of_nat bound) \<lparr>pos_of = v\<rparr> b =
      bind_loop k (of_nat bound) \<lparr>pos_of = word_of (slice p 8 cs)\<rparr> b1"
    using linked le p H(1,5)
    by (subst bind_loop.simps) (simp add: k pos LoadAt_def StoreAt_def same b1_def)
  ultimately show ?case by simp
qed

lemma chain_append: "chain cs v ps \<Longrightarrow> chain (cs @ bs) v ps"
proof (induction cs v ps rule: chain.induct)
  case (2 cs v p ps)
  then have "slice p 8 (cs @ bs) = slice p 8 cs" by (simp add: slice_def)
  with 2 show ?case by simp
qed simp

lemma chain_bound: "chain cs v ps \<Longrightarrow> q \<in> set ps \<Longrightarrow> q + 8 \<le> length cs"
  by (cases "(cs, v, ps)" rule: chain.cases) force+

lemma not_IsBound_chain:
  assumes "chain cs v ps" "length cs \<le> 2 ^ 33"
  shows "\<not> IsBound \<lparr>pos_of = v\<rparr>"
proof (cases ps)
  case Nil
  then show ?thesis using assms by (simp add: IsBound_def)
next
  case (Cons p qs)
  then have "v = of_nat (p + 8)" "p + 8 < 2 ^ 63" using assms by auto
  then have "sint v = int (p + 8)" by (simp only: sint_of_nat_uword)
  then show ?thesis by (simp add: IsBound_def word_sless_alt)
qed

lemma Jump_forward:
  assumes h: "holds b cs" and c: "chain cs v ps" and r: "9 \<le> room b cs"
  shows "\<exists>b'. Jump x \<lparr>pos_of = v\<rparr> b = Inr (\<lparr>pos_of = of_nat (length cs + 1) + 8\<rparr>, b') \<and>
     holds b' (cs @ raw_of_op x # bytes_of 8 v) \<and> ab_asize b' = ab_asize b \<and>
     chain (cs @ raw_of_op x # bytes_of 8 v) (of_nat (length cs + 1) + 8) ((length cs + 1) # ps)"
proof -
  note H = holdsD [OF h]
  obtain b1 where 1: "EmitOp x b = Inr b1" "holds b1 (cs @ [raw_of_op x])" "ab_asize b1 = ab_asize b"
    using appends_EmitOp [of x] h r unfolding appends_def by fastforce
  obtain b2 where 2: "Emit v b1 = Inr b2" "holds b2 ((cs @ [raw_of_op x]) @ bytes_of 8 v)" "ab_asize b2 = ab_asize b"
    using appends_Emit [of v] 1 r unfolding appends_def by (fastforce simp: room_def)
  have "Jump x \<lparr>pos_of = v\<rparr> b = Inr (\<lparr>pos_of = of_nat (length cs + 1) + 8\<rparr>, b2)"
    using not_IsBound_chain [OF c] H(2) 1 2 holdsD(3) [OF 1(2)]
    by (simp add: Jump_def EmitLabelLink_def LinkTo_def kWordSize_def add.commute)
  moreover have "slice (Suc (length cs)) 8 (cs @ raw_of_op x # bytes_of 8 v) = bytes_of 8 v"
    by (simp add: slice_def)
  then have "chain (cs @ raw_of_op x # bytes_of 8 v) (of_nat (length cs + 1) + 8) ((length cs + 1) # ps)"
    using chain_append [OF c] chain_bound [OF c] by (fastforce simp del: bytes_of.simps)
  ultimately show ?thesis using 2 by auto
qed

lemma Bind_chain:
  assumes "holds b cs" "chain cs v ps"
  shows "\<exists>b'. Bind \<lparr>pos_of = v\<rparr> b = Inr (BindTo (of_nat (length cs + 1)) \<lparr>pos_of = 0\<rparr>, b') \<and>
     holds b' (fold (patch (length cs + 1)) ps cs) \<and> ab_asize b' = ab_asize b"
proof -
  note H = holdsD [OF assms(1)]
  have "length ps \<le> unat (ab_asize b)"
  proof (cases ps)
    case (Cons p qs)
    then show ?thesis
      using chain_length [OF assms(2)] chain_bound [OF assms(2), of p] H(5) by simp
  qed simp
  from bind_loop_chain [OF assms this, of "length cs + 1"] H(3)
  show ?thesis by (auto simp: Bind_def add.commute)
qed

section \<open>One pass with back-patching against two passes\<close>

text \<open>A program around one label: instructions and forward jumps to the label's place, which
  is the end. The reference assembler knows the end in advance; the assembler of the code
  emits links and patches them when the label is bound.\<close>

datatype action = Code instr | JumpTo op

definition asm_one_word :: "op \<Rightarrow> uword \<Rightarrow> assembler_buffer \<Rightarrow> assembler_buffer res" where
  "asm_one_word x v =
    (if x = kPushQ then asm_pushq v
     else if x = kPushI then asm_pushl v
     else if x = kCast then asm_CastTo v
     else if x = kInvokeDynamic then asm_invokedynamic v
     else if x = kLoadField then asm_ldfield v
     else if x = kStoreField then asm_stfield v
     else if x = kCheckInstance then asm_CheckInstance v
     else if x = kLoadLocal then asm_LoadLocal v
     else if x = kStoreLocal then asm_StoreLocal v
     else (\<lambda>_. Inl LogFatal))"

definition asm_two_words :: "op \<Rightarrow> uword \<Rightarrow> uword \<Rightarrow> assembler_buffer \<Rightarrow> assembler_buffer res" where
  "asm_two_words x p n =
    (if x = kInvoke then asm_invoke p n
     else if x = kInvokeNative then asm_invokenative p n
     else if x = kNew then asm_New p n
     else (\<lambda>_. Inl LogFatal))"

fun asm_instr :: "instr \<Rightarrow> assembler_buffer \<Rightarrow> assembler_buffer res" where
  "asm_instr (Plain x) = EmitOp x"
| "asm_instr (OneWord x v) = asm_one_word x v"
| "asm_instr (TwoWords x p n) = asm_two_words x p n"

fun instr_ok :: "instr \<Rightarrow> bool" where
  "instr_ok (Plain x) = (x \<notin> {kPushQ, kPushI, kCast, kInvokeDynamic, kLoadField, kStoreField,
     kCheckInstance, kLoadLocal, kStoreLocal, kInvoke, kInvokeNative, kNew,
     kJump, kJz, kJnz, kJeq, kJne})"
| "instr_ok (OneWord x v) = (x \<in> {kPushQ, kPushI, kCast, kInvokeDynamic} \<or>
     x \<in> {kLoadField, kStoreField, kCheckInstance} \<and> v \<noteq> 0 \<or>
     x \<in> {kLoadLocal, kStoreLocal} \<and> 3 < unat v)"
| "instr_ok (TwoWords x v n) = (x \<in> {kInvoke, kInvokeNative, kNew} \<and> v \<noteq> 0)"

fun action_ok :: "action \<Rightarrow> bool" where
  "action_ok (Code i) = instr_ok i"
| "action_ok (JumpTo x) = (x \<in> {kJump, kJz, kJnz, kJeq, kJne})"

fun run_actions :: "action list \<Rightarrow> label \<Rightarrow> assembler_buffer \<Rightarrow> (label \<times> assembler_buffer) res" where
  "run_actions [] l b = Inr (l, b)"
| "run_actions (Code i # as) l b = rbind (asm_instr i b) (run_actions as l)"
| "run_actions (JumpTo x # as) l b = rbind (Jump x l b) (\<lambda>(l', b'). run_actions as l' b')"

fun width :: "action \<Rightarrow> nat" where
  "width (Code i) = length (encode i)"
| "width (JumpTo x) = 9"

definition widths :: "action list \<Rightarrow> nat" where
  "widths as = sum_list (map width as)"

fun two_pass :: "nat \<Rightarrow> nat \<Rightarrow> action list \<Rightarrow> byte list" where
  "two_pass e q [] = []"
| "two_pass e q (Code i # as) = encode i @ two_pass e (q + length (encode i)) as"
| "two_pass e q (JumpTo x # as) =
     raw_of_op x # bytes_of 8 (of_nat e - of_nat q) @ two_pass e (q + 9) as"

lemma asm_local_long:
  "3 < unat i \<Longrightarrow> appends (asm_LoadLocal i) (encode (OneWord kLoadLocal i))"
  "3 < unat i \<Longrightarrow> appends (asm_StoreLocal i) (encode (OneWord kStoreLocal i))"
  using asm_local_methods [of i] by (simp_all add: local_instr_def not_le [symmetric] del: encode.simps)

lemma appends_asm_instr: "instr_ok i \<Longrightarrow> appends (asm_instr i) (encode i)"
  using appends_plain
  by (cases i)
     (auto simp: asm_one_word_def asm_two_words_def asm_word_methods asm_two_word_methods
        asm_local_long simp del: encode.simps)

lemma fold_patch_append:
  "\<forall>p\<in>set ps. p + 8 \<le> length cs \<Longrightarrow>
     fold (patch e) ps (cs @ bs) = fold (patch e) ps cs @ bs \<and>
     length (fold (patch e) ps cs) = length cs"
proof (induction ps arbitrary: cs)
  case (Cons p ps)
  have "patch e p (cs @ bs) = patch e p cs @ bs"
    using Cons.prems by (simp add: patch_def splice_at_def)
  then show ?case using Cons by simp
qed simp

lemma run_actions_two_pass:
  assumes "holds b cs" "chain cs v ps" "widths as \<le> room b cs" "\<forall>a\<in>set as. action_ok a"
  shows "\<exists>v' b' cs' ps'. run_actions as \<lparr>pos_of = v\<rparr> b = Inr (\<lparr>pos_of = v'\<rparr>, b') \<and>
     holds b' cs' \<and> chain cs' v' ps' \<and> ab_asize b' = ab_asize b \<and> length cs' = length cs + widths as \<and>
     (\<forall>e. fold (patch (e + 1)) ps' cs' =
        fold (patch (e + 1)) ps cs @ two_pass e (length cs) as)"
  using assms
proof (induction as arbitrary: b cs v ps)
  case Nil
  then show ?case by (auto simp: widths_def)
next
  case (Cons a as)
  show ?case
  proof (cases a)
    case (Code i)
    then have i: "instr_ok i" and r: "length (encode i) \<le> room b cs"
      using Cons.prems by (auto simp: widths_def)
    obtain b1 where 1: "asm_instr i b = Inr b1" "holds b1 (cs @ encode i)" "ab_asize b1 = ab_asize b"
      using appends_asm_instr [OF i] Cons.prems(1) r unfolding appends_def by blast
    have "widths as \<le> room b1 (cs @ encode i)"
      using Cons.prems(3) 1(3) Code by (simp add: widths_def room_def)
    with Cons.IH [OF 1(2) chain_append [OF Cons.prems(2)]] Cons.prems(4)
    show ?thesis
      using 1 Code fold_patch_append [of ps cs] chain_bound [OF Cons.prems(2)]
      by (fastforce simp: widths_def)
  next
    case (JumpTo x)
    then have r: "9 \<le> room b cs"
      using Cons.prems by (auto simp: widths_def)
    let ?cs1 = "cs @ raw_of_op x # bytes_of 8 v"
    let ?v1 = "of_nat (length cs + 1) + 8 :: uword"
    let ?ps1 = "(length cs + 1) # ps"
    obtain b1 where 1: "Jump x \<lparr>pos_of = v\<rparr> b = Inr (\<lparr>pos_of = ?v1\<rparr>, b1)"
        "holds b1 ?cs1" "ab_asize b1 = ab_asize b" "chain ?cs1 ?v1 ?ps1"
      using Jump_forward [OF Cons.prems(1,2) r] by blast
    have r1: "widths as \<le> room b1 ?cs1"
      using Cons.prems(3) 1(3) JumpTo by (simp add: widths_def room_def)
    have patched: "fold (patch (e + 1)) ?ps1 ?cs1 =
        fold (patch (e + 1)) ps cs @ raw_of_op x # bytes_of 8 (of_nat e - of_nat (length cs))" for e
    proof -
      have "patch (e + 1) (length cs + 1) ?cs1 =
          cs @ raw_of_op x # bytes_of 8 (of_nat e - of_nat (length cs))"
        by (simp add: patch_def splice_at_def del: bytes_of.simps)
      then show ?thesis
        using fold_patch_append [of ps cs] chain_bound [OF Cons.prems(2)] by simp
    qed
    obtain v' b' cs' ps' where IH: "run_actions as \<lparr>pos_of = ?v1\<rparr> b1 = Inr (\<lparr>pos_of = v'\<rparr>, b')"
       "holds b' cs'" "chain cs' v' ps'" "ab_asize b' = ab_asize b1" "length cs' = length ?cs1 + widths as"
       "\<forall>e. fold (patch (e + 1)) ps' cs' =
        fold (patch (e + 1)) ?ps1 ?cs1 @ two_pass e (length ?cs1) as"
      using Cons.IH [OF 1(2,4) r1] Cons.prems(4) by auto
    have "fold (patch (e + 1)) ps' cs' =
        fold (patch (e + 1)) ps cs @ two_pass e (length cs) (a # as)" for e
      using IH(6) [rule_format, of e] JumpTo
      unfolding patched by simp
    then show ?thesis
      using IH(1-5) 1(1,3) JumpTo by (fastforce simp: widths_def)
  qed
qed

lemma run_then_bind:
  assumes "\<forall>a\<in>set as. action_ok a" "widths as \<le> 4096"
  shows "\<exists>l b. rbind (run_actions as new_label (new_AssemblerBuffer mapped kDefaultInitSize))
      (\<lambda>(l, b). Bind l b) = Inr (l, b) \<and> holds b (two_pass (widths as) 0 as) \<and>
      l = BindTo (of_nat (widths as + 1)) new_label \<and> ab_asize b = kDefaultInitSize"
proof -
  let ?b0 = "new_AssemblerBuffer mapped kDefaultInitSize"
  have a0: "ab_asize ?b0 = kDefaultInitSize"
    by (simp add: new_AssemblerBuffer_def kDefaultInitSize_def)
  have "widths as \<le> room ?b0 []"
    using assms(2) a0 by (simp add: room_def kDefaultInitSize_def)
  with run_actions_two_pass [OF holds_new, of 0 "[]" as mapped] assms(1)
  obtain v' b' cs' ps' where 1: "run_actions as \<lparr>pos_of = 0\<rparr> ?b0 = Inr (\<lparr>pos_of = v'\<rparr>, b')"
     "holds b' cs'" "chain cs' v' ps'" "ab_asize b' = ab_asize ?b0" "length cs' = widths as"
     "\<And>e. fold (patch (e + 1)) ps' cs' = two_pass e 0 as"
    by auto
  from Bind_chain [OF 1(2,3)] 1 a0 show ?thesis
    by (auto simp: new_label_def)
qed

section \<open>Decoding\<close>

text \<open>The operand words each operation is followed by, as \<open>Disassembler::Disassemble\<close> and
  \<open>Interpreter::Run\<close> read them.\<close>

definition operand_words :: "op \<Rightarrow> nat" where
  "operand_words x =
    (if x \<in> {kInvoke, kInvokeNative, kNew} then 2
     else if x \<in> {kPushQ, kPushI, kCast, kInvokeDynamic, kLoadField, kStoreField, kCheckInstance,
       kLoadLocal, kStoreLocal, kJump, kJz, kJnz, kJeq, kJne} then 1
     else 0)"

definition read_instr :: "memory \<Rightarrow> bytecode_decoder \<Rightarrow> (instr \<times> bytecode_decoder) res" where
  "read_instr m d =
    rbind (NextBytecode m d) (\<lambda>(raw, d1).
    case op_of_raw raw of
      None \<Rightarrow> Inl LogFatal
    | Some x \<Rightarrow>
        if operand_words x = 0 then Inr (Plain x, d1)
        else rbind (NextUWord m d1) (\<lambda>(v, d2).
          if operand_words x = 1 then Inr (OneWord x v, d2)
          else rbind (NextUWord m d2) (\<lambda>(w, d3). Inr (TwoWords x v w, d3))))"

fun read_all :: "nat \<Rightarrow> memory \<Rightarrow> bytecode_decoder \<Rightarrow> (uword \<times> instr) list res" where
  "read_all fuel m d =
    (if HasNext d then
       (case fuel of
          0 \<Rightarrow> Inl OutOfFuel
        | Suc k \<Rightarrow> rbind (read_instr m d) (\<lambda>(i, d').
            rbind (read_all k m d') (\<lambda>is. Inr ((decoder_GetPos d, i) # is))))
     else Inr [])"

declare read_all.simps [simp del]

fun instrs_of :: "nat \<Rightarrow> nat \<Rightarrow> action list \<Rightarrow> (uword \<times> instr) list" where
  "instrs_of e q [] = []"
| "instrs_of e q (Code i # as) = (of_nat q, i) # instrs_of e (q + length (encode i)) as"
| "instrs_of e q (JumpTo x # as) =
     (of_nat q, OneWord x (of_nat e - of_nat q)) # instrs_of e (q + 9) as"

lemma instr_ok_shape:
  "instr_ok i \<Longrightarrow> (case i of Plain x \<Rightarrow> operand_words x = 0 | OneWord x _ \<Rightarrow> operand_words x = 1
     | TwoWords x _ _ \<Rightarrow> operand_words x = 2)"
  by (cases i) (auto simp: operand_words_def)

definition decoder_at :: "uword \<Rightarrow> byte list \<Rightarrow> nat \<Rightarrow> bytecode_decoder" where
  "decoder_at addr bs q =
    \<lparr>region_start = addr, region_size = of_nat (length bs), decoder_current = addr + of_nat q\<rparr>"

lemma NextBytecode_at:
  assumes "length bs \<le> 2 ^ 33" "q < length bs"
  shows "NextBytecode (load_region addr bs m) (decoder_at addr bs q) =
    Inr (bs ! q, decoder_at addr bs (q + 1))"
  using assms by (simp add: NextBytecode_def decoder_at_def read_byte_load_region ac_simps)

lemma NextUWord_at:
  assumes "length bs \<le> 2 ^ 33" "q + 8 \<le> length bs"
  shows "NextUWord (load_region addr bs m) (decoder_at addr bs q) =
    Inr (word_of (slice q 8 bs), decoder_at addr bs (q + 8))"
  using assms by (simp add: NextUWord_def decoder_at_def read_word_load_region ac_simps)

lemma slice_slice: "j + n \<le> k \<Longrightarrow> slice j n (slice q k xs) = slice (q + j) n xs"
  by (simp add: slice_def drop_take min_def add.commute)

lemma read_instr_at:
  assumes len: "length bs \<le> 2 ^ 33" and q: "q + length (encode i) \<le> length bs"
    and at: "slice q (length (encode i)) bs = encode i"
    and shape: "case i of Plain x \<Rightarrow> operand_words x = 0 | OneWord x _ \<Rightarrow> operand_words x = 1
      | TwoWords x _ _ \<Rightarrow> operand_words x = 2"
  shows "read_instr (load_region addr bs m) (decoder_at addr bs q) =
    Inr (i, decoder_at addr bs (q + length (encode i)))"
proof -
  have sub: "slice (q + j) n bs = slice j n (encode i)" if "j + n \<le> length (encode i)" for j n
    using slice_slice [OF that, of q bs] at by simp
  have head: "bs ! q = encode i ! 0"
  proof -
    have pos: "0 < length (encode i)" by (cases i) auto
    then have "q < length bs" using q by linarith
    then have "slice q (length (encode i)) bs ! 0 = bs ! q"
      using pos nth_slice [of 0 "length (encode i)" q bs] by (simp del: length_greater_0_conv)
    then show ?thesis using at by simp
  qed
  show ?thesis
  proof (cases i)
    case (Plain x)
    then show ?thesis
      using assms head by (simp add: read_instr_def NextBytecode_at)
  next
    case (OneWord x v)
    have "slice (q + 1) 8 bs = bytes_of 8 v"
      using sub [of 1 8] OneWord by (simp add: slice_def)
    then show ?thesis
      using len q shape head OneWord
      by (simp add: read_instr_def NextBytecode_at NextUWord_at ac_simps)
  next
    case (TwoWords x v w)
    have "slice (q + 1) 8 bs = bytes_of 8 v" "slice (q + 9) 8 bs = bytes_of 8 w"
      using sub [of 1 8] sub [of 9 8] TwoWords by (simp_all add: slice_def)
    then show ?thesis
      using len q shape head TwoWords
      by (simp add: read_instr_def NextBytecode_at NextUWord_at ac_simps)
  qed
qed

lemma length_two_pass: "length (two_pass e q as) = widths as"
  by (induction e q as rule: two_pass.induct) (simp_all add: widths_def)

lemma slice_here: "slice (length xs) (length ys) (xs @ ys @ zs) = ys"
  by (simp add: slice_def)

lemma read_all_two_pass:
  assumes "length bs \<le> 2 ^ 32" "bs = pre @ two_pass e (length pre) as"
    "\<forall>a\<in>set as. action_ok a" "widths as \<le> fuel"
    "unat addr + length bs + 1 < 2 ^ 64"
  shows "read_all fuel (load_region addr bs m) (decoder_at addr bs (length pre)) =
    Inr (instrs_of e (length pre) as)"
  using assms
proof (induction as arbitrary: pre fuel)
  case Nil
  have "\<not> HasNext (decoder_at addr bs (length bs))"
    using Nil.prems(5) by (auto simp: HasNext_def decoder_at_def word_le_nat_alt unat_word_ariths unat_of_nat)
  then show ?case
    using Nil.prems by (subst read_all.simps) simp
next
  case (Cons a as)
  define i where "i = (case a of Code i \<Rightarrow> i | JumpTo x \<Rightarrow> OneWord x (of_nat e - of_nat (length pre)))"
  have split: "two_pass e (length pre) (a # as) =
      encode i @ two_pass e (length (pre @ encode i)) as"
    "instrs_of e (length pre) (a # as) =
      (of_nat (length pre), i) # instrs_of e (length (pre @ encode i)) as"
    "widths (a # as) = length (encode i) + widths as"
    by (cases a; simp add: i_def widths_def)+
  have shape: "case i of Plain x \<Rightarrow> operand_words x = 0 | OneWord x _ \<Rightarrow> operand_words x = 1
      | TwoWords x _ _ \<Rightarrow> operand_words x = 2"
    using Cons.prems(3) instr_ok_shape [of i]
    by (cases a) (auto simp: i_def operand_words_def)
  have pos: "0 < length (encode i)" by (cases i) auto
  have bs: "bs = pre @ encode i @ two_pass e (length (pre @ encode i)) as"
    using Cons.prems(2) split(1) by simp
  then have bound: "length pre + length (encode i) \<le> length bs" by simp
  have at: "slice (length pre) (length (encode i)) bs = encode i"
    using slice_here [of pre "encode i"] bs by simp
  obtain k where k: "fuel = Suc k" "widths as \<le> k"
    using Cons.prems(4) pos split(3) by (cases fuel) auto
  have "HasNext (decoder_at addr bs (length pre))"
  proof -
    have u: "unat (of_nat (length pre) :: uword) = length pre"
      "unat (of_nat (length bs) :: uword) = length bs"
      using bound Cons.prems(1) by (simp_all add: unat_of_nat)
    have "unat (addr + of_nat (length bs)) = unat addr + length bs"
      "unat (addr + of_nat (length pre) + 1) = unat addr + length pre + 1"
      using Cons.prems(5) bound pos u by (simp_all add: unat_word_ariths)
    moreover have "length pre + 1 \<le> length bs" using bound pos by linarith
    ultimately show ?thesis
      by (simp add: HasNext_def decoder_at_def word_le_nat_alt)
  qed
  moreover have "read_instr (load_region addr bs m) (decoder_at addr bs (length pre)) =
      Inr (i, decoder_at addr bs (length (pre @ encode i)))"
    using read_instr_at [OF _ bound at shape] Cons.prems(1) by simp
  moreover have "read_all k (load_region addr bs m) (decoder_at addr bs (length (pre @ encode i))) =
      Inr (instrs_of e (length (pre @ encode i)) as)"
    using Cons.prems(1,3,5) bs k by (intro Cons.IH) auto
  moreover have "decoder_GetPos (decoder_at addr bs (length pre)) = of_nat (length pre)"
    by (simp add: decoder_GetPos_def decoder_at_def)
  ultimately show ?case
    using k split(2) by (subst read_all.simps) simp
qed

definition example_actions :: "action list" where
  "example_actions = [Code (Plain kPushT), JumpTo kJnz, Code (OneWord kPushI 5), JumpTo kJump,
     Code (TwoWords kInvoke 4096 1)]"

lemma example_actions_ok: "(\<forall>a\<in>set example_actions. action_ok a) \<and> widths example_actions = 45"
  by (simp add: example_actions_def widths_def)

lemma assembled_decodes:
  assumes "\<forall>a\<in>set as. action_ok a" "widths as \<le> 4096" "as \<noteq> []"
    "unat addr + widths as + 1 < 2 ^ 64"
  shows "\<exists>l b sz m. rbind (run_actions as new_label (new_AssemblerBuffer mapped kDefaultInitSize))
      (\<lambda>(l, b). Bind l b) = Inr (l, b) \<and> Assemble addr b Map.empty = Inr (addr, sz, m) \<and>
      read_all (unat sz) m (new_BytecodeDecoder addr sz) = Inr (instrs_of (widths as) 0 as)"
proof -
  let ?bs = "two_pass (widths as) 0 as"
  obtain l b where 1: "rbind (run_actions as new_label (new_AssemblerBuffer mapped kDefaultInitSize))
      (\<lambda>(l, b). Bind l b) = Inr (l, b)" and h: "holds b ?bs"
    using run_then_bind [OF assms(1,2)] by blast
  note H = holdsD [OF h]
  have pos: "0 < widths as"
    using assms(3) by (cases as; cases "hd as"; cases "case hd as of Code i \<Rightarrow> i")
      (auto simp: widths_def)
  have "buffer_GetSize b \<noteq> 0"
  proof
    assume "buffer_GetSize b = 0"
    then have "unat (buffer_GetSize b) = 0" by simp
    then show False using H(4) pos by (simp add: length_two_pass)
  qed
  then have "Assemble addr b Map.empty = Inr (addr, buffer_GetSize b, load_region addr ?bs Map.empty)"
    using H by (simp add: Assemble_def)
  moreover have "new_BytecodeDecoder addr (buffer_GetSize b) = decoder_at addr ?bs 0"
    using H(3) by (simp add: new_BytecodeDecoder_def decoder_at_def)
  moreover have "read_all (unat (buffer_GetSize b)) (load_region addr ?bs Map.empty)
        (decoder_at addr ?bs (length ([] :: byte list))) =
      Inr (instrs_of (widths as) (length ([] :: byte list)) as)"
  proof (rule read_all_two_pass [OF _ _ assms(1)])
    show "length ?bs \<le> 2 ^ 32" by (rule H(2))
    show "widths as \<le> unat (buffer_GetSize b)" by (simp only: H(4) length_two_pass order_refl)
    show "unat addr + length ?bs + 1 < 2 ^ 64" using assms(4) by (simp only: length_two_pass)
  qed simp
  ultimately show ?thesis using 1 by auto
qed

text \<open>C13. Code that was assembled around a label, copied to a fresh region by \<open>Assemble\<close> and
  read by the decoder until \<open>HasNext\<close> is false, decodes to the instructions that were
  emitted, each at its position and each jump with the distance from its own position to
  the label, without reading outside the region.\<close>

theorem assemble_decode_roundtrip:
  assumes "\<forall>a\<in>set as. action_ok a" "widths as \<le> 4096" "as \<noteq> []"
    "unat addr + widths as + 1 < 2 ^ 64"
  shows "rbind (rbind (run_actions as new_label (new_AssemblerBuffer mapped kDefaultInitSize))
      (\<lambda>(l, b). Bind l b)) (\<lambda>(l, b).
      rbind (Assemble addr b Map.empty) (\<lambda>(st, sz, m).
      read_all (unat sz) m (new_BytecodeDecoder st sz))) =
    Inr (instrs_of (widths as) 0 as)"
proof -
  obtain l b sz m where "rbind (run_actions as new_label (new_AssemblerBuffer mapped kDefaultInitSize))
      (\<lambda>(l, b). Bind l b) = Inr (l, b)" "Assemble addr b Map.empty = Inr (addr, sz, m)"
    "read_all (unat sz) m (new_BytecodeDecoder addr sz) = Inr (instrs_of (widths as) 0 as)"
    using assembled_decodes [OF assms] by blast
  then show ?thesis by simp
qed

theorem assemble_decode_roundtrip_witness:
  "rbind (rbind (run_actions example_actions new_label (new_AssemblerBuffer 65536 kDefaultInitSize))
      (\<lambda>(l, b). Bind l b)) (\<lambda>(l, b).
      rbind (Assemble 8192 b Map.empty) (\<lambda>(st, sz, m).
      read_all (unat sz) m (new_BytecodeDecoder st sz))) =
    Inr [(0, Plain kPushT), (1, OneWord kJnz 44), (10, OneWord kPushI 5), (19, OneWord kJump 26),
      (28, TwoWords kInvoke 4096 1)]"
proof -
  have "instrs_of 45 0 example_actions = [(0, Plain kPushT), (1, OneWord kJnz 44),
      (10, OneWord kPushI 5), (19, OneWord kJump 26), (28, TwoWords kInvoke 4096 1)]"
    by (simp add: example_actions_def)
  moreover have "example_actions \<noteq> []" by (simp add: example_actions_def)
  ultimately show ?thesis
    using assemble_decode_roundtrip [of example_actions 8192 65536, unfolded example_actions_ok [THEN conjunct2]]
      example_actions_ok by simp
qed

text \<open>C32. A jump to a label that is already bound is off by one: \<open>Bind\<close> records the position
  after the next operation byte, and \<open>Jump\<close> subtracts the position of the operation
  itself, so its operand leads one byte past the place where the label was bound, while
  \<open>EmitLabel\<close>, which subtracts the operand's own position, leads to that place.\<close>

theorem backward_jump_off_by_one:
  assumes h: "holds b cs" and p: "p < length cs" and r: "9 \<le> room b cs"
  shows "let l = BindTo (of_nat (p + 1)) new_label; q = of_nat (length cs) in
    (\<exists>b' offset. Jump x l b = Inr (l, b') \<and>
       take (unat (buffer_GetSize b')) (ab_mem b') = cs @ raw_of_op x # bytes_of 8 offset \<and>
       q + offset = of_nat p + 1) \<and>
    (\<exists>b' offset. rbind (EmitOp x b) (EmitLabel l) = Inr (l, b') \<and>
       take (unat (buffer_GetSize b')) (ab_mem b') = cs @ raw_of_op x # bytes_of 8 offset \<and>
       q + offset = of_nat p)"
proof -
  note H = holdsD [OF h]
  define l where "l = BindTo (of_nat (p + 1)) new_label"
  have lp: "pos_of l = - of_nat (p + 9)"
    by (simp add: l_def BindTo_def kWordSize_def)
  have "sint (pos_of l) = - int (p + 9)"
    using p H(2) sint_minus_uword [of "p + 9"] by (simp add: lp)
  then have bound: "IsBound l" by (simp add: IsBound_def word_sless_alt)
  then have pos: "GetPos l = of_nat p + 1"
    by (simp add: GetPos_def lp kWordSize_def)
  define d :: uword where "d = of_nat p + 1 - of_nat (length cs)"
  have "sint d = - int (length cs - p - 1)"
  proof -
    have "d = - of_nat (length cs - p - 1)"
      using p by (simp add: d_def of_nat_diff)
    then show ?thesis
      using p H(2) sint_minus_uword [of "length cs - p - 1"] by simp
  qed
  then have neg: "d \<le>s 0" using p by (simp add: word_sle_eq)
  obtain b1 where 1: "EmitOp x b = Inr b1" "holds b1 (cs @ [raw_of_op x])" "ab_asize b1 = ab_asize b"
    using appends_EmitOp [of x] h r unfolding appends_def by fastforce
  have emit: "\<exists>b2. Emit v b1 = Inr b2 \<and> holds b2 (cs @ raw_of_op x # bytes_of 8 v)" for v
    using appends_Emit [of v] 1 r unfolding appends_def by (fastforce simp: room_def)
  obtain b2 where 2: "Emit d b1 = Inr b2" "holds b2 (cs @ raw_of_op x # bytes_of 8 d)"
    using emit by blast
  obtain b3 where 3: "Emit (d - 1 - 1 + 1) b1 = Inr b3" "holds b3 (cs @ raw_of_op x # bytes_of 8 (d - 1 - 1 + 1))"
    using emit by blast
  have "Jump x l b = Inr (l, b2)"
    using bound pos neg 1 2 H(3) by (simp add: Jump_def d_def)
  moreover have "rbind (EmitOp x b) (EmitLabel l) = Inr (l, b3)"
    using bound pos 1 3 holdsD(3) [OF 1(2)] by (simp add: EmitLabel_def d_def algebra_simps)
  moreover have "of_nat (length cs) + d = of_nat p + 1"
     "of_nat (length cs) + (d - 1 - 1 + 1) = of_nat p"
    by (simp_all add: d_def)
  ultimately show ?thesis
    using holdsD(4,6) [OF 2(2)] holdsD(4,6) [OF 3(2)] unfolding l_def Let_def
    by metis
qed

definition example_buffer :: assembler_buffer where
  "example_buffer = \<lparr>ab_start = 4096, ab_current = 4098, ab_asize = 32,
     ab_mem = raw_of_op kNop # raw_of_op kPop # replicate 30 0\<rparr>"

lemma example_buffer_holds: "holds example_buffer [raw_of_op kNop, raw_of_op kPop]"
  by (simp add: holds_def example_buffer_def buffer_GetSize_def)

theorem backward_jump_off_by_one_witness:
  "let l = BindTo 2 new_label; q = 2 in
    (\<exists>b' offset. Jump kJump l example_buffer = Inr (l, b') \<and>
       take (unat (buffer_GetSize b')) (ab_mem b') = [raw_of_op kNop, raw_of_op kPop] @ raw_of_op kJump # bytes_of 8 offset \<and>
       q + offset = 2) \<and>
    (\<exists>b' offset. rbind (EmitOp kJump example_buffer) (EmitLabel l) = Inr (l, b') \<and>
       take (unat (buffer_GetSize b')) (ab_mem b') = [raw_of_op kNop, raw_of_op kPop] @ raw_of_op kJump # bytes_of 8 offset \<and>
       q + offset = 1)"
  using backward_jump_off_by_one [OF example_buffer_holds, of 1 kJump]
  by (simp add: room_def example_buffer_def)

end
