(* ===== verification/AssemblerLabels.thy ===== *)
theory AssemblerLabels
  imports AssemblerCorrect
begin

text \<open>
  Programs with any number of labels, jumped to from before and from behind: what the assembler leaves in
  its buffer, the links of the jumps resolved by \<open>Bind\<close>, is what a two-pass assembler emits.
\<close>

section \<open>Programs with any number of labels\<close>

text \<open>A program as its author writes it: instructions, jumps to labels, and the places of the labels.
  The assembler of the code keeps a label of its own for every name.\<close>

datatype item = Ins instr | Jmp op nat | Lab nat

fun run_items :: "item list \<Rightarrow> (nat \<Rightarrow> label) \<Rightarrow> assembler_buffer \<Rightarrow> ((nat \<Rightarrow> label) \<times> assembler_buffer) res" where
  "run_items [] ls b = Inr (ls, b)"
| "run_items (Ins i # is) ls b = rbind (asm_instr i b) (run_items is ls)"
| "run_items (Jmp x k # is) ls b = rbind (Jump x (ls k) b) (\<lambda>(l, b'). run_items is (ls(k := l)) b')"
| "run_items (Lab k # is) ls b = rbind (Bind (ls k) b) (\<lambda>(l, b'). run_items is (ls(k := l)) b')"

text \<open>The reference: the first pass finds the places of the labels, the second one emits the bytes with
  the distances. A backward jump of the assembler leads one byte past its label, and the
  reference says so.\<close>

fun item_width :: "item \<Rightarrow> nat" where
  "item_width (Ins i) = length (encode i)"
| "item_width (Jmp x k) = 9"
| "item_width (Lab k) = 0"

definition items_width :: "item list \<Rightarrow> nat" where
  "items_width is = sum_list (map item_width is)"

fun place :: "nat \<Rightarrow> item list \<Rightarrow> nat \<Rightarrow> nat" where
  "place q [] k = q"
| "place q (i # is) k = (if i = Lab k then q else place (q + item_width i) is k)"

definition distance :: "nat \<Rightarrow> nat \<Rightarrow> uword" where
  "distance p q = (if q < p then of_nat p - of_nat q else of_nat p + 1 - of_nat q)"

fun second_pass :: "(nat \<Rightarrow> nat) \<Rightarrow> nat \<Rightarrow> item list \<Rightarrow> byte list" where
  "second_pass pl q [] = []"
| "second_pass pl q (Ins i # is) = encode i @ second_pass pl (q + length (encode i)) is"
| "second_pass pl q (Jmp x k # is) = raw_of_op x # bytes_of 8 (distance (pl k) q) @ second_pass pl (q + 9) is"
| "second_pass pl q (Lab k # is) = second_pass pl q is"

text \<open>What is asked of a program: every label is placed once, every jump has a label that is placed, and
  no jump stands at the very place of its own label, where \<open>Jump\<close> fails its assertion.\<close>

fun labels :: "item list \<Rightarrow> nat list" where
  "labels [] = []"
| "labels (Lab k # is) = k # labels is"
| "labels (i # is) = labels is"

fun items_ok :: "(nat \<Rightarrow> nat) \<Rightarrow> nat set \<Rightarrow> nat \<Rightarrow> item list \<Rightarrow> bool" where
  "items_ok pl known q [] \<longleftrightarrow> True"
| "items_ok pl known q (Ins i # is) \<longleftrightarrow> instr_ok i \<and> items_ok pl known (q + length (encode i)) is"
| "items_ok pl known q (Jmp x k # is) \<longleftrightarrow>
     x \<in> {kJump, kJz, kJnz, kJeq, kJne} \<and> k \<in> known \<and> pl k \<noteq> q \<and> items_ok pl known (q + 9) is"
| "items_ok pl known q (Lab k # is) \<longleftrightarrow> items_ok pl known q is"

definition program_ok :: "item list \<Rightarrow> bool" where
  "program_ok is \<longleftrightarrow> distinct (labels is) \<and> items_ok (place 0 is) (set (labels is)) 0 is"

text \<open>Patching a chain of separate words.\<close>

lemma length_fold_patch: "\<forall>p\<in>set ps. p + 8 \<le> length cs \<Longrightarrow> length (fold (patch e) ps cs) = length cs"
  by (induction ps arbitrary: cs) simp_all

lemma nth_patch:
  "p + 8 \<le> length cs \<Longrightarrow> i < length cs \<Longrightarrow> patch e p cs ! i =
    (if p \<le> i \<and> i < p + 8 then bytes_of 8 (of_nat e - of_nat p) ! (i - p) else cs ! i)"
  by (simp add: patch_def nth_splice_at del: bytes_of.simps)

lemma nth_fold_patch:
  assumes "chain cs v ps" "i < length cs"
  shows "((\<forall>p\<in>set ps. \<not> (p \<le> i \<and> i < p + 8)) \<longrightarrow> fold (patch e) ps cs ! i = cs ! i) \<and>
    (\<forall>p\<in>set ps. p \<le> i \<and> i < p + 8 \<longrightarrow> fold (patch e) ps cs ! i = bytes_of 8 (of_nat e - of_nat p) ! (i - p))"
  using assms
proof (induction ps arbitrary: cs v)
  case (Cons p ps)
  have p: "p + 8 \<le> length cs" "\<forall>q\<in>set ps. q + 8 \<le> p" "chain cs (word_of (slice p 8 cs)) ps"
    using Cons.prems(1) by auto
  have "chain (patch e p cs) (word_of (slice p 8 cs)) ps" using p by (intro chain_patch)
  from Cons.IH [OF this] Cons.prems(2) p(1)
  have IH: "(\<forall>q\<in>set ps. \<not> (q \<le> i \<and> i < q + 8)) \<Longrightarrow> fold (patch e) ps (patch e p cs) ! i = patch e p cs ! i"
    "\<And>q. q \<in> set ps \<Longrightarrow> q \<le> i \<Longrightarrow> i < q + 8 \<Longrightarrow>
      fold (patch e) ps (patch e p cs) ! i = bytes_of 8 (of_nat e - of_nat q) ! (i - q)"
    by simp_all
  have sep: "\<not> (q \<le> i \<and> i < q + 8)" if "q \<in> set ps" "p \<le> i" for q
    using p(2) that by fastforce
  show ?case
    using IH sep nth_patch [OF p(1) Cons.prems(2), of e] by (auto simp del: bytes_of.simps)
qed simp

lemma chain_cong:
  "chain cs v ps \<Longrightarrow> length cs' = length cs \<Longrightarrow> \<forall>p\<in>set ps. slice p 8 cs' = slice p 8 cs \<Longrightarrow> chain cs' v ps"
  by (induction cs v ps rule: chain.induct) auto

section \<open>Between the two assemblers\<close>

text \<open>While the program is assembled: \<open>cs\<close> is emitted, \<open>ref\<close> is what the reference has for it. They
  agree but for the operands of jumps to labels not yet bound, which the labels' chains list.\<close>

definition slots :: "(nat \<Rightarrow> nat list) \<Rightarrow> nat \<Rightarrow> bool" where
  "slots pend i \<longleftrightarrow> (\<exists>k. \<exists>p\<in>set (pend k). p \<le> i \<and> i < p + 8)"

definition apart :: "(nat \<Rightarrow> nat list) \<Rightarrow> bool" where
  "apart pend \<longleftrightarrow> (\<forall>j k. j \<noteq> k \<longrightarrow> (\<forall>p\<in>set (pend j). \<forall>q\<in>set (pend k). p + 8 \<le> q \<or> q + 8 \<le> p))"

definition label_state :: "(nat \<Rightarrow> nat) \<Rightarrow> nat set \<Rightarrow> byte list \<Rightarrow> byte list \<Rightarrow> nat list \<Rightarrow> nat \<Rightarrow> label \<Rightarrow> bool" where
  "label_state pl done cs ref ps k l \<longleftrightarrow>
    (if k \<in> done then l = BindTo (of_nat (pl k + 1)) new_label \<and> ps = [] \<and> pl k \<le> length cs
     else chain cs (pos_of l) ps \<and> (\<forall>p\<in>set ps. slice p 8 ref = bytes_of 8 (of_nat (pl k + 1) - of_nat p)))"

definition in_step :: "(nat \<Rightarrow> nat) \<Rightarrow> nat set \<Rightarrow> (nat \<Rightarrow> nat list) \<Rightarrow> byte list \<Rightarrow> byte list \<Rightarrow> (nat \<Rightarrow> label) \<Rightarrow> bool" where
  "in_step pl done pend cs ref ls \<longleftrightarrow>
    length ref = length cs \<and> (\<forall>k. label_state pl done cs ref (pend k) k (ls k)) \<and> apart pend \<and>
    (\<forall>i<length cs. \<not> slots pend i \<longrightarrow> cs ! i = ref ! i)"

lemma in_step_bound:
  assumes "in_step pl done pend cs ref ls" "p \<in> set (pend k)"
  shows "p + 8 \<le> length cs"
  using assms chain_bound [of cs "pos_of (ls k)" "pend k" p]
  unfolding in_step_def label_state_def by (metis empty_iff list.set(1))

text \<open>The same bytes on both sides.\<close>

lemma in_step_append:
  assumes "in_step pl done pend cs ref ls"
  shows "in_step pl done pend (cs @ bs) (ref @ bs) ls"
proof -
  have len: "length ref = length cs" using assms by (simp add: in_step_def)
  have sl: "slice p 8 (ref @ bs) = slice p 8 ref" if "p \<in> set (pend k)" for p k
    using in_step_bound [OF assms that] len by (simp add: slice_def)
  have "label_state pl done (cs @ bs) (ref @ bs) (pend k) k (ls k)" for k
  proof -
    have "label_state pl done cs ref (pend k) k (ls k)" using assms by (simp add: in_step_def)
    then show ?thesis
      using sl [of _ k] chain_append [of cs "pos_of (ls k)" "pend k" bs] by (auto simp: label_state_def split: if_splits)
  qed
  moreover have "(cs @ bs) ! i = (ref @ bs) ! i" if "i < length (cs @ bs)" "\<not> slots pend i" for i
    using assms that len by (cases "i < length cs") (simp_all add: in_step_def nth_append)
  ultimately show ?thesis using assms len by (simp add: in_step_def)
qed

lemma appends_asm_step:
  assumes "holds b cs" "instr_ok i" "length (encode i) \<le> room b cs"
  shows "\<exists>b'. asm_instr i b = Inr b' \<and> holds b' (cs @ encode i) \<and> ab_asize b' = ab_asize b"
  using appends_asm_instr [OF assms(2)] assms(1,3) unfolding appends_def by blast

text \<open>A jump to a label that is not bound yet.\<close>

lemma in_step_forward:
  assumes B: "in_step pl done pend cs ref ls" and k: "k \<notin> done" "length cs < pl k"
    and h: "holds b cs" and r: "9 \<le> room b cs"
  shows "\<exists>l b'. Jump x (ls k) b = Inr (l, b') \<and> ab_asize b' = ab_asize b \<and>
    holds b' (cs @ raw_of_op x # bytes_of 8 (pos_of (ls k))) \<and>
    in_step pl done (pend(k := (length cs + 1) # pend k)) (cs @ raw_of_op x # bytes_of 8 (pos_of (ls k)))
      (ref @ raw_of_op x # bytes_of 8 (distance (pl k) (length cs))) (ls(k := l))"
proof -
  let ?v = "pos_of (ls k)" and ?q = "length cs + 1"
  let ?cs = "cs @ raw_of_op x # bytes_of 8 ?v" and ?ref = "ref @ raw_of_op x # bytes_of 8 (distance (pl k) (length cs))"
  let ?pend = "pend(k := ?q # pend k)" and ?l = "\<lparr>pos_of = of_nat ?q + 8\<rparr>"
  have len: "length ref = length cs" and c: "chain cs ?v (pend k)"
    using B k(1) by (auto simp: in_step_def label_state_def)
  have l: "ls k = \<lparr>pos_of = ?v\<rparr>" by simp
  obtain b' where J: "Jump x (ls k) b = Inr (?l, b')" "holds b' ?cs" "ab_asize b' = ab_asize b"
      "chain ?cs (of_nat ?q + 8) (?q # pend k)"
    using Jump_forward [OF h c r, of x] l by auto
  have old: "p + 8 \<le> length cs" if "p \<in> set (pend j)" for p j using in_step_bound [OF B that] .
  have sl: "slice p 8 ?ref = slice p 8 ref" if "p \<in> set (pend j)" for p j
    using old [OF that] len by (simp add: slice_def)
  have new: "slice ?q 8 ?ref = bytes_of 8 (of_nat (pl k + 1) - of_nat ?q)"
    using len k(2) by (simp add: slice_def distance_def del: bytes_of.simps)
  have "label_state pl done ?cs ?ref (?pend j) j ((ls(k := ?l)) j)" for j
  proof (cases "j = k")
    case True
    have "slice p 8 ?ref = bytes_of 8 (of_nat (pl k + 1) - of_nat p)" if "p \<in> set (?q # pend k)" for p
      using that new sl [of p k] B k(1) by (auto simp: in_step_def label_state_def simp del: bytes_of.simps)
    then show ?thesis using True k(1) J(4) by (simp add: label_state_def del: bytes_of.simps chain.simps)
  next
    case False
    have S: "label_state pl done cs ref (pend j) j (ls j)" using B by (simp add: in_step_def)
    show ?thesis
    proof (cases "j \<in> done")
      case True
      then show ?thesis using S False by (simp add: label_state_def)
    next
      case nd: False
      then show ?thesis
        using S False sl [of _ j] chain_append [of cs "pos_of (ls j)" "pend j"] by (simp add: label_state_def)
    qed
  qed
  moreover have "apart ?pend"
    unfolding apart_def
  proof (intro allI impI ballI)
    fix i j p q assume a: "i \<noteq> j" "p \<in> set (?pend i)" "q \<in> set (?pend j)"
    show "p + 8 \<le> q \<or> q + 8 \<le> p"
    proof (cases "(i = k \<and> p = ?q) \<or> (j = k \<and> q = ?q)")
      case True
      then show ?thesis using a old [of p i] old [of q j] by (auto split: if_splits)
    next
      case False
      then have "p \<in> set (pend i)" "q \<in> set (pend j)" using a by (auto split: if_splits)
      then show ?thesis using B a(1) unfolding in_step_def apart_def by blast
    qed
  qed
  moreover have "?cs ! i = ?ref ! i" if "i < length ?cs" "\<not> slots ?pend i" for i
  proof -
    have o: "\<not> slots pend i" and n: "\<not> (?q \<le> i \<and> i < ?q + 8)"
      using that(2) by (auto simp: slots_def split: if_splits)
    then have "i < ?q" using that(1) by simp
    then show ?thesis
      using B o len by (cases "i < length cs") (auto simp: in_step_def nth_append less_Suc_eq)
  qed
  ultimately have "in_step pl done ?pend ?cs ?ref (ls(k := ?l))" using len by (simp add: in_step_def)
  then show ?thesis using J(1-3) by blast
qed

text \<open>A jump back to a label that is bound.\<close>

lemma IsBound_BindTo:
  assumes "p \<le> 2 ^ 32"
  shows "IsBound (BindTo (of_nat (p + 1)) new_label) \<and> GetPos (BindTo (of_nat (p + 1)) new_label) = of_nat p + 1"
proof -
  let ?l = "BindTo (of_nat (p + 1)) new_label"
  have lp: "pos_of ?l = - of_nat (p + 9)" by (simp add: BindTo_def kWordSize_def)
  have "sint (pos_of ?l) = - int (p + 9)" unfolding lp using assms by (intro sint_minus_uword) simp
  then have "IsBound ?l" by (simp add: IsBound_def word_sless_alt)
  then show ?thesis unfolding GetPos_def lp by (simp add: kWordSize_def)
qed

lemma Jump_backward:
  assumes h: "holds b cs" and p: "p < length cs" and r: "9 \<le> room b cs"
  shows "\<exists>b'. Jump x (BindTo (of_nat (p + 1)) new_label) b = Inr (BindTo (of_nat (p + 1)) new_label, b') \<and>
    holds b' (cs @ raw_of_op x # bytes_of 8 (of_nat p + 1 - of_nat (length cs))) \<and> ab_asize b' = ab_asize b"
proof -
  note H = holdsD [OF h]
  have l: "IsBound (BindTo (of_nat (p + 1)) new_label)" "GetPos (BindTo (of_nat (p + 1)) new_label) = of_nat p + 1"
    using IsBound_BindTo [of p] p H(2) by simp_all
  define d :: uword where "d = of_nat p + 1 - of_nat (length cs)"
  have "d = - of_nat (length cs - p - 1)" using p by (simp add: d_def of_nat_diff)
  then have "sint d = - int (length cs - p - 1)"
    using p H(2) sint_minus_uword [of "length cs - p - 1"] by simp
  then have neg: "d \<le>s 0" using p by (simp add: word_sle_eq)
  obtain b1 where 1: "EmitOp x b = Inr b1" "holds b1 (cs @ [raw_of_op x])" "ab_asize b1 = ab_asize b"
    using appends_EmitOp [of x] h r unfolding appends_def by fastforce
  obtain b2 where 2: "Emit d b1 = Inr b2" "holds b2 ((cs @ [raw_of_op x]) @ bytes_of 8 d)" "ab_asize b2 = ab_asize b"
    using appends_Emit [of d] 1 r unfolding appends_def by (fastforce simp: room_def)
  have "Jump x (BindTo (of_nat (p + 1)) new_label) b = Inr (BindTo (of_nat (p + 1)) new_label, b2)"
    using l neg 1 2 H(3) by (simp add: Jump_def d_def)
  then show ?thesis using 2 by (simp add: d_def)
qed

text \<open>The place of a label.\<close>

lemma in_step_bind:
  assumes B: "in_step pl done pend cs ref ls" and k: "k \<notin> done" "length cs = pl k" and h: "holds b cs"
  shows "\<exists>l b' cs'. Bind (ls k) b = Inr (l, b') \<and> ab_asize b' = ab_asize b \<and> holds b' cs' \<and>
    length cs' = length cs \<and> in_step pl (insert k done) (pend(k := [])) cs' ref (ls(k := l))"
proof -
  let ?e = "length cs + 1" and ?l = "BindTo (of_nat (pl k + 1)) new_label"
  let ?cs = "fold (patch ?e) (pend k) cs" and ?pend = "pend(k := [])"
  have len: "length ref = length cs" and c: "chain cs (pos_of (ls k)) (pend k)"
    using B k(1) by (auto simp: in_step_def label_state_def)
  have old: "p + 8 \<le> length cs" if "p \<in> set (pend j)" for p j using in_step_bound [OF B that] .
  have len': "length ?cs = length cs" using old by (intro length_fold_patch) blast
  have l: "ls k = \<lparr>pos_of = pos_of (ls k)\<rparr>" by simp
  obtain b' where b': "Bind (ls k) b = Inr (?l, b')" "holds b' ?cs" "ab_asize b' = ab_asize b"
    using Bind_chain [OF h c] k(2) l by (auto simp: new_label_def)
  note N = nth_fold_patch [OF c, of _ ?e]
  have "label_state pl (insert k done) ?cs ref (?pend j) j ((ls(k := ?l)) j)" for j
  proof (cases "j = k")
    case True
    then show ?thesis using k len' by (simp add: label_state_def)
  next
    case False
    have "slice p 8 ?cs = slice p 8 cs" if p: "p \<in> set (pend j)" for p
    proof (rule nth_equalityI)
      fix i assume "i < length (slice p 8 ?cs)"
      then have i: "i < 8" "p + i < length cs" using len' old [OF p] by simp_all
      have "q + 8 \<le> p \<or> p + 8 \<le> q" if "q \<in> set (pend k)" for q
        using B p that False unfolding in_step_def apart_def by blast
      then have "\<forall>q\<in>set (pend k). \<not> (q \<le> p + i \<and> p + i < q + 8)" using i(1) by fastforce
      then have "?cs ! (p + i) = cs ! (p + i)" using N [OF i(2)] by blast
      then show "slice p 8 ?cs ! i = slice p 8 cs ! i" using i len' by simp
    qed (use len' in simp)
    then show ?thesis
      using B False chain_cong [OF _ len'] len' unfolding in_step_def label_state_def by auto
  qed
  moreover have "apart ?pend" using B by (auto simp: in_step_def apart_def)
  moreover have "?cs ! i = ref ! i" if i: "i < length cs" and s: "\<not> slots ?pend i" for i
  proof (cases "\<exists>p\<in>set (pend k). p \<le> i \<and> i < p + 8")
    case True
    then obtain p where p: "p \<in> set (pend k)" "p \<le> i" "i < p + 8" by blast
    have "slice p 8 ref = bytes_of 8 (of_nat (pl k + 1) - of_nat p)"
      using B k(1) p(1) by (auto simp: in_step_def label_state_def simp del: bytes_of.simps)
    then have "ref ! i = bytes_of 8 (of_nat (pl k + 1) - of_nat p) ! (i - p)"
      using nth_slice [of "i - p" 8 p ref] p(2,3) i len by (simp del: bytes_of.simps)
    then show ?thesis using N [OF i] p k(2) by (simp del: bytes_of.simps)
  next
    case False
    then have "\<not> slots pend i" using s unfolding slots_def by (metis fun_upd_other)
    then show ?thesis using B N [OF i] False i by (auto simp: in_step_def)
  qed
  ultimately have "in_step pl (insert k done) ?pend ?cs ref (ls(k := ?l))" using len len' by (simp add: in_step_def)
  then show ?thesis using b' len' by blast
qed


section \<open>The whole program\<close>

lemma place_ge: "q \<le> place q is k"
  by (induction q "is" k rule: place.induct) (auto intro: le_trans [rotated])

lemma place_bound: "place q is k \<le> q + items_width is"
  by (induction q "is" k rule: place.induct) (auto simp: items_width_def)

lemma in_step_end:
  assumes "in_step pl done pend cs ref ls" "\<forall>k. pend k = []"
  shows "cs = ref"
  using assms by (auto simp: in_step_def slots_def intro: nth_equalityI)

lemma run_items_second_pass:
  assumes "in_step pl done pend cs ref ls" "holds b cs" "items_width is \<le> room b cs"
    and "items_ok pl (done \<union> set (labels is)) (length cs) is"
    and "distinct (labels is)" "set (labels is) \<inter> done = {}"
    and "\<forall>k\<in>set (labels is). place (length cs) is k = pl k"
    and "\<forall>k. pend k \<noteq> [] \<longrightarrow> k \<in> set (labels is)"
  shows "\<exists>ls' b'. run_items is ls b = Inr (ls', b') \<and> ab_asize b' = ab_asize b \<and>
    holds b' (ref @ second_pass pl (length cs) is) \<and>
    (\<forall>k\<in>done \<union> set (labels is). ls' k = BindTo (of_nat (pl k + 1)) new_label)"
  using assms
proof (induction "is" arbitrary: "done" pend cs ref ls b)
  case Nil
  then show ?case using in_step_end [OF Nil.prems(1)]
    by (auto simp: in_step_def label_state_def)
next
  case (Cons i "is")
  note P = Cons.prems
  show ?case
  proof (cases i)
    case (Ins c)
    then have w: "length (encode c) \<le> room b cs" using P(3) by (simp add: items_width_def)
    obtain b1 where 1: "asm_instr c b = Inr b1" "holds b1 (cs @ encode c)" "ab_asize b1 = ab_asize b"
      using appends_asm_step [OF P(2) _ w] P(4) Ins by auto
    show ?thesis
      using Cons.IH [OF in_step_append [OF P(1), of "encode c"] 1(2)] P(3-8) Ins 1
      by (auto simp: items_width_def room_def)
  next
    case (Lab k)
    then have k: "k \<notin> done" "length cs = pl k" using P(6,7) by auto
    obtain l b1 cs1 where 1: "Bind (ls k) b = Inr (l, b1)" "ab_asize b1 = ab_asize b" "holds b1 cs1"
        "length cs1 = length cs" "in_step pl (insert k done) (pend(k := [])) cs1 ref (ls(k := l))"
      using in_step_bind [OF P(1) k P(2)] by blast
    have others: "\<forall>j\<in>set (labels is). place (length cs1) is j = pl j" using P(5,7) Lab 1(4) by (auto split: if_splits)
    have linked: "\<forall>j. (pend(k := [])) j \<noteq> [] \<longrightarrow> j \<in> set (labels is)" using P(8) Lab by auto
    show ?thesis
      using Cons.IH [OF 1(5,3) _ _ _ _ others linked] P(3-6) Lab 1
      by (auto simp: items_width_def room_def fun_upd_def)
  next
    case (Jmp x k)
    show ?thesis
    proof (cases "k \<in> done")
      case True
      let ?bs = "raw_of_op x # bytes_of 8 (distance (pl k) (length cs))"
      have l: "ls k = BindTo (of_nat (pl k + 1)) new_label" "pl k < length cs"
        using P(1,4) True Jmp by (auto simp: in_step_def label_state_def dest: spec [of _ k])
      obtain b1 where 1: "Jump x (ls k) b = Inr (ls k, b1)" "holds b1 (cs @ ?bs)" "ab_asize b1 = ab_asize b"
        using Jump_backward [OF P(2) l(2), of x] P(3) Jmp l
        by (auto simp: items_width_def distance_def simp del: bytes_of.simps)
      show ?thesis
        using Cons.IH [OF in_step_append [OF P(1), of ?bs] 1(2)] P(3-8) Jmp 1
        by (auto simp: items_width_def room_def simp del: bytes_of.simps)
    next
      case False
      let ?bs = "raw_of_op x # bytes_of 8 (pos_of (ls k))"
      let ?rs = "raw_of_op x # bytes_of 8 (distance (pl k) (length cs))"
      have k: "k \<in> set (labels is)" "length cs < pl k"
        using P(4,7) False Jmp place_ge [of "length cs + 9" "is" k] by auto
      obtain l b1 where 1: "Jump x (ls k) b = Inr (l, b1)" "ab_asize b1 = ab_asize b" "holds b1 (cs @ ?bs)"
          "in_step pl done (pend(k := (length cs + 1) # pend k)) (cs @ ?bs) (ref @ ?rs) (ls(k := l))"
        using in_step_forward [OF P(1) False k(2) P(2), of x] P(3) Jmp
        by (auto simp: items_width_def simp del: bytes_of.simps)
      have linked: "\<forall>j. (pend(k := (length cs + 1) # pend k)) j \<noteq> [] \<longrightarrow> j \<in> set (labels is)"
        using P(8) k(1) Jmp by auto
      have fits: "items_width is \<le> room b1 (cs @ ?bs)" using P(3) Jmp 1(2) by (simp add: items_width_def room_def)
      show ?thesis
        using Cons.IH [OF 1(4,3) fits _ _ _ _ linked] P(4-7) Jmp 1(1,2)
        by (auto simp: fun_upd_def simp del: bytes_of.simps)
    qed
  qed
qed

text \<open>C5. Assembling any program of at most 4096 bytes of instructions, labels and jumps, forward and backward, to any of
  the labels, as the code does it in one pass - a jump to a label still unbound emits a link to the previous jump to it, \<open>Bind\<close> patches
  the whole chain - leaves the bytes a two-pass assembler emits, which finds the places of all the labels before it
  emits anything. The distance of a jump is measured from the jump, to the label if it lies ahead and to
  the byte after the label if it lies behind. Every label is bound at the end.\<close>

theorem backpatching_is_two_pass:
  assumes "program_ok is" "items_width is \<le> 4096"
  shows "\<exists>ls b. run_items is (\<lambda>_. new_label) (new_AssemblerBuffer mapped kDefaultInitSize) = Inr (ls, b) \<and>
    buffer_GetSize b = of_nat (length (second_pass (place 0 is) 0 is)) \<and>
    take (length (second_pass (place 0 is) 0 is)) (ab_mem b) = second_pass (place 0 is) 0 is \<and>
    (\<forall>k\<in>set (labels is). IsBound (ls k) \<and> GetPos (ls k) = of_nat (place 0 is k) + 1)"
proof -
  have "in_step (place 0 is) {} (\<lambda>_. []) [] [] (\<lambda>_. new_label)"
    by (simp add: in_step_def label_state_def apart_def new_label_def)
  moreover have "items_width is \<le> room (new_AssemblerBuffer mapped kDefaultInitSize) []"
    using assms(2) by (simp add: room_def new_AssemblerBuffer_def kDefaultInitSize_def)
  ultimately obtain ls b where
    1: "run_items is (\<lambda>_. new_label) (new_AssemblerBuffer mapped kDefaultInitSize) = Inr (ls, b)"
      "holds b (second_pass (place 0 is) 0 is)"
      "\<forall>k\<in>set (labels is). ls k = BindTo (of_nat (place 0 is k + 1)) new_label"
    using run_items_second_pass [of "place 0 is" "{}" "\<lambda>_. []" "[]" "[]" "\<lambda>_. new_label"
        "new_AssemblerBuffer mapped kDefaultInitSize" "is"] holds_new [of mapped] assms(1)
    by (auto simp: program_ok_def)
  have "place 0 is k \<le> 2 ^ 32" for k using place_bound [of 0 "is" k] assms(2) by simp
  then show ?thesis using 1 holdsD(3,6) [OF 1(2)] IsBound_BindTo by metis
qed

text \<open>A loop with a branch out of it and a branch inside it: two jumps to the end and one to the middle,
  all ahead, and one back to the head.\<close>

definition example_items :: "item list" where
  "example_items = [Ins (OneWord kPushI 5), Lab 0, Jmp kJz 2, Ins (Plain kDup), Jmp kJnz 1, Jmp kJump 2,
     Lab 1, Ins (Plain kPop), Jmp kJump 0, Lab 2, Ins (Plain kRet)]"

lemma example_items_values:
  "program_ok example_items" "items_width example_items = 48"
  "map (place 0 example_items) [0, 1, 2] = [9, 37, 47]"
  by (simp_all add: example_items_def program_ok_def items_width_def)

theorem backpatching_is_two_pass_witness:
  "\<exists>ls b. run_items example_items (\<lambda>_. new_label) (new_AssemblerBuffer 65536 kDefaultInitSize) = Inr (ls, b) \<and>
     buffer_GetSize b = 48 \<and>
     take 48 (ab_mem b) = encode (OneWord kPushI 5) @ raw_of_op kJz # bytes_of 8 38 @ encode (Plain kDup) @
       raw_of_op kJnz # bytes_of 8 18 @ raw_of_op kJump # bytes_of 8 19 @ encode (Plain kPop) @
       raw_of_op kJump # bytes_of 8 (- 28) @ encode (Plain kRet) \<and>
     IsBound (ls 0) \<and> GetPos (ls 0) = 10"
proof -
  have s: "second_pass (place 0 example_items) 0 example_items =
    encode (OneWord kPushI 5) @ raw_of_op kJz # bytes_of 8 38 @ encode (Plain kDup) @
       raw_of_op kJnz # bytes_of 8 18 @ raw_of_op kJump # bytes_of 8 19 @ encode (Plain kPop) @
       raw_of_op kJump # bytes_of 8 (- 28) @ encode (Plain kRet)"
    using example_items_values(3) unfolding example_items_def
    by (simp add: distance_def del: bytes_of.simps place.simps)
  have l: "0 \<in> set (labels example_items)" by (simp add: example_items_def)
  show ?thesis
    using backpatching_is_two_pass [of example_items 65536] example_items_values s l by (auto simp del: bytes_of.simps)
qed

end
