(* ===== verification/Tags.thy ===== *)
theory Tags
  imports GelPrelude
begin

text \<open>
  The object header word: the generic bit field template of \<open>gel/bitfield.h\<close> and the
  tag of \<open>gel/tag.h\<close> built from it (reference count, new, old, marked and remembered
  bits, object size). A field is a pair of its position and its size; the locale
  \<open>bit_field\<close> proves the template's laws once and is interpreted on each field.
\<close>

section \<open>\<open>BitField<S, T, Position, Size>\<close> at \<open>S = uword\<close>\<close>

definition bf_mask :: "nat \<Rightarrow> uword" where
  "bf_mask sz = push_bit sz 1 - 1"

definition bf_mask_in_place :: "nat \<Rightarrow> nat \<Rightarrow> uword" where
  "bf_mask_in_place pos sz = push_bit pos (bf_mask sz)"

definition bf_decode :: "nat \<Rightarrow> nat \<Rightarrow> uword \<Rightarrow> uword" where
  "bf_decode pos sz val = drop_bit pos val AND bf_mask sz"

definition bf_encode :: "nat \<Rightarrow> nat \<Rightarrow> uword \<Rightarrow> uword" where
  "bf_encode pos sz val = push_bit pos (val AND bf_mask sz)"

definition bf_update :: "nat \<Rightarrow> nat \<Rightarrow> uword \<Rightarrow> uword \<Rightarrow> uword" where
  "bf_update pos sz val original =
     bf_encode pos sz val OR (NOT (bf_mask_in_place pos sz) AND original)"

lemma bf_mask_eq_mask: "bf_mask sz = mask sz"
  by (simp add: bf_mask_def mask_eq_exp_minus_1 push_bit_eq_mult)

lemma bit_bf_decode:
  "bit (bf_decode pos sz v) n \<longleftrightarrow> n < sz \<and> bit v (pos + n)"
  by (auto simp: bf_decode_def bf_mask_eq_mask bit_simps dest: bit_imp_le_length)

lemma bit_bf_update:
  "bit (bf_update pos sz v orig) n \<longleftrightarrow>
     (if pos \<le> n \<and> n < pos + sz then n < 64 \<and> bit v (n - pos) else bit orig n)"
  by (auto simp: bf_update_def bf_encode_def bf_mask_in_place_def bf_mask_eq_mask bit_simps
      dest: bit_imp_le_length)

locale bit_field =
  fixes pos sz :: nat
  assumes fits: "pos + sz \<le> 64"
begin

lemma decode_update: "bf_decode pos sz (bf_update pos sz v orig) = take_bit sz v"
  using fits by (auto intro!: bit_word_eqI simp: bit_bf_decode bit_bf_update bit_simps)

lemma decode_update_small:
  "unat v < 2 ^ sz \<Longrightarrow> bf_decode pos sz (bf_update pos sz v orig) = v"
  by (simp add: decode_update take_bit_uword_self)

lemma decode_encode: "bf_decode pos sz (bf_encode pos sz v) = take_bit sz v"
  using fits
  by (auto intro!: bit_word_eqI
      simp: bit_bf_decode bf_encode_def bf_mask_eq_mask bit_simps)

lemma update_other:
  assumes "pos' + sz' \<le> pos \<or> pos + sz \<le> pos'"
  shows "bf_decode pos' sz' (bf_update pos sz v orig) = bf_decode pos' sz' orig"
  using assms by (auto intro!: bit_word_eqI simp: bit_bf_decode bit_bf_update)

lemma update_same: "bf_update pos sz (bf_decode pos sz orig) orig = orig"
  by (auto intro!: bit_word_eqI simp: bit_bf_decode bit_bf_update split: if_splits)

end

section \<open>The fields of the tag\<close>

text \<open>The layout of \<open>Tag::Layout\<close>: 16 bits of references, four flags, 32 bits of size.\<close>

datatype tag_field = ReferencesField | NewBit | OldBit | MarkedBit | RememberedBit | SizeField

fun field_pos :: "tag_field \<Rightarrow> nat" where
  "field_pos ReferencesField = 0"
| "field_pos NewBit = 16"
| "field_pos OldBit = 17"
| "field_pos MarkedBit = 18"
| "field_pos RememberedBit = 19"
| "field_pos SizeField = 20"

fun field_bits :: "tag_field \<Rightarrow> nat" where
  "field_bits ReferencesField = 16"
| "field_bits NewBit = 1"
| "field_bits OldBit = 1"
| "field_bits MarkedBit = 1"
| "field_bits RememberedBit = 1"
| "field_bits SizeField = 32"

definition field_decode :: "tag_field \<Rightarrow> uword \<Rightarrow> uword" where
  "field_decode f val = bf_decode (field_pos f) (field_bits f) val"

definition field_encode :: "tag_field \<Rightarrow> uword \<Rightarrow> uword" where
  "field_encode f val = bf_encode (field_pos f) (field_bits f) val"

definition field_update :: "tag_field \<Rightarrow> uword \<Rightarrow> uword \<Rightarrow> uword" where
  "field_update f val original = bf_update (field_pos f) (field_bits f) val original"

interpretation tf: bit_field "field_pos f" "field_bits f" for f
  by unfold_locales (cases f; simp)

lemma fields_disjoint:
  "f \<noteq> g \<Longrightarrow> field_pos f + field_bits f \<le> field_pos g \<or> field_pos g + field_bits g \<le> field_pos f"
  by (cases f; cases g; simp)

lemma field_decode_update:
  "field_decode g (field_update f v orig) =
     (if g = f then take_bit (field_bits f) v else field_decode g orig)"
proof (cases "g = f")
  case True
  then show ?thesis by (simp add: field_decode_def field_update_def tf.decode_update)
next
  case False
  then show ?thesis
    by (simp add: field_decode_def field_update_def tf.update_other fields_disjoint)
qed

section \<open>\<open>class Tag\<close>\<close>

record tag =
  raw :: uword

definition kInvalidTag :: uword where
  "kInvalidTag = 0"

definition uword_of_bool :: "bool \<Rightarrow> uword" where
  "uword_of_bool b = (if b then 1 else 0)"

definition IsInvalid :: "tag \<Rightarrow> bool" where
  "IsInvalid t = (raw t = kInvalidTag)"

definition GetNumberOfReferences :: "tag \<Rightarrow> uword" where
  "GetNumberOfReferences t = field_decode ReferencesField (raw t)"

definition IsNew :: "tag \<Rightarrow> bool" where
  "IsNew t = (field_decode NewBit (raw t) \<noteq> 0)"

definition SetNewBit :: "bool \<Rightarrow> tag \<Rightarrow> tag" where
  "SetNewBit v t = t\<lparr>raw := field_update NewBit (uword_of_bool v) (raw t)\<rparr>"

definition ClearNewBit :: "tag \<Rightarrow> tag" where
  "ClearNewBit t = SetNewBit False t"

definition IsOld :: "tag \<Rightarrow> bool" where
  "IsOld t = (field_decode OldBit (raw t) \<noteq> 0)"

definition SetOldBit :: "bool \<Rightarrow> tag \<Rightarrow> tag" where
  "SetOldBit v t = t\<lparr>raw := field_update OldBit (uword_of_bool v) (raw t)\<rparr>"

definition ClearOldBit :: "tag \<Rightarrow> tag" where
  "ClearOldBit t = SetOldBit False t"

definition IsMarked :: "tag \<Rightarrow> bool" where
  "IsMarked t = (field_decode MarkedBit (raw t) \<noteq> 0)"

definition SetMarkedBit :: "bool \<Rightarrow> tag \<Rightarrow> tag" where
  "SetMarkedBit v t = t\<lparr>raw := field_update MarkedBit (uword_of_bool v) (raw t)\<rparr>"

definition ClearMarkedBit :: "tag \<Rightarrow> tag" where
  "ClearMarkedBit t = SetMarkedBit False t"

definition IsRemembered :: "tag \<Rightarrow> bool" where
  "IsRemembered t = (field_decode RememberedBit (raw t) \<noteq> 0)"

definition SetRememberedBit :: "bool \<Rightarrow> tag \<Rightarrow> tag" where
  "SetRememberedBit v t = t\<lparr>raw := field_update RememberedBit (uword_of_bool v) (raw t)\<rparr>"

definition ClearRememberedBit :: "tag \<Rightarrow> tag" where
  "ClearRememberedBit t = SetRememberedBit False t"

definition GetSize :: "tag \<Rightarrow> uword" where
  "GetSize t = field_decode SizeField (raw t)"

definition SetSize :: "uword \<Rightarrow> tag \<Rightarrow> tag" where
  "SetSize v t = t\<lparr>raw := field_update SizeField v (raw t)\<rparr>"

definition ClearSize :: "tag \<Rightarrow> tag" where
  "ClearSize t = SetSize 0 t"

definition Tag_Invalid :: tag where
  "Tag_Invalid = \<lparr>raw = kInvalidTag\<rparr>"

definition Tag_New :: "uword \<Rightarrow> tag" where
  "Tag_New sz = \<lparr>raw = kInvalidTag OR field_encode NewBit (uword_of_bool True) OR field_encode SizeField sz\<rparr>"

definition Tag_Old :: "uword \<Rightarrow> tag" where
  "Tag_Old sz = \<lparr>raw = kInvalidTag OR field_encode OldBit (uword_of_bool True) OR field_encode SizeField sz\<rparr>"

text \<open>What a tag says, all fields at once: the abstract value the setters act on.\<close>

record tag_view =
  v_refs :: uword
  v_new :: bool
  v_old :: bool
  v_marked :: bool
  v_remembered :: bool
  v_size :: uword

definition view :: "tag \<Rightarrow> tag_view" where
  "view t = \<lparr>v_refs = GetNumberOfReferences t, v_new = IsNew t, v_old = IsOld t,
     v_marked = IsMarked t, v_remembered = IsRemembered t, v_size = GetSize t\<rparr>"

lemmas tag_defs = GetNumberOfReferences_def IsNew_def IsOld_def IsMarked_def IsRemembered_def
  GetSize_def SetNewBit_def SetOldBit_def SetMarkedBit_def SetRememberedBit_def SetSize_def
  ClearNewBit_def ClearOldBit_def ClearMarkedBit_def ClearRememberedBit_def ClearSize_def

lemma uword_of_bool_mod_2 [simp]:
  "uword_of_bool b mod 2 = uword_of_bool b" "uword_of_bool b = 1 \<longleftrightarrow> b" "uword_of_bool b = 0 \<longleftrightarrow> \<not> b"
  by (simp_all add: uword_of_bool_def)

lemma setters_act_on_view:
  "view (SetNewBit b t) = (view t)\<lparr>v_new := b\<rparr>"
  "view (SetOldBit b t) = (view t)\<lparr>v_old := b\<rparr>"
  "view (SetMarkedBit b t) = (view t)\<lparr>v_marked := b\<rparr>"
  "view (SetRememberedBit b t) = (view t)\<lparr>v_remembered := b\<rparr>"
  "view (SetSize n t) = (view t)\<lparr>v_size := take_bit 32 n\<rparr>"
  by (simp_all add: view_def tag_defs field_decode_update)

lemma field_decode_or:
  "field_decode f (a OR b) = field_decode f a OR field_decode f b"
  by (auto intro!: bit_word_eqI simp: field_decode_def bit_bf_decode bit_simps)

lemma field_decode_0 [simp]: "field_decode f 0 = 0"
  by (auto intro!: bit_word_eqI simp: field_decode_def bit_bf_decode)

lemma field_encode_update: "field_encode f v = field_update f v 0"
  by (simp add: field_encode_def field_update_def bf_update_def)

lemma field_decode_encode:
  "field_decode g (field_encode f v) = (if g = f then take_bit (field_bits f) v else 0)"
  by (simp add: field_encode_update field_decode_update)

text \<open>A freshly made tag (\<open>Tag::New\<close>, \<open>Tag::Old\<close>) carries exactly one generation bit,
  no references, no mark, no remembered bit, and the size it was made with modulo
  \<open>2^32\<close>; every setter changes its own field and no other; a size below \<open>2^32\<close> is read
  back unchanged.\<close>

theorem tag_fields_independent:
  "view (Tag_New sz) = \<lparr>v_refs = 0, v_new = True, v_old = False, v_marked = False,
     v_remembered = False, v_size = take_bit 32 sz\<rparr> \<and>
   view (Tag_Old sz) = \<lparr>v_refs = 0, v_new = False, v_old = True, v_marked = False,
     v_remembered = False, v_size = take_bit 32 sz\<rparr> \<and>
   view (SetNewBit b t) = (view t)\<lparr>v_new := b\<rparr> \<and>
   view (SetOldBit b t) = (view t)\<lparr>v_old := b\<rparr> \<and>
   view (SetMarkedBit b t) = (view t)\<lparr>v_marked := b\<rparr> \<and>
   view (SetRememberedBit b t) = (view t)\<lparr>v_remembered := b\<rparr> \<and>
   view (SetSize n t) = (view t)\<lparr>v_size := take_bit 32 n\<rparr> \<and>
   IsInvalid Tag_Invalid \<and> \<not> IsInvalid (Tag_New sz) \<and> \<not> IsInvalid (Tag_Old sz)"
proof -
  have new: "view (Tag_New sz) = \<lparr>v_refs = 0, v_new = True, v_old = False, v_marked = False,
     v_remembered = False, v_size = take_bit 32 sz\<rparr>"
    by (simp add: view_def tag_defs Tag_New_def kInvalidTag_def field_decode_or field_decode_encode)
  have old: "view (Tag_Old sz) = \<lparr>v_refs = 0, v_new = False, v_old = True, v_marked = False,
     v_remembered = False, v_size = take_bit 32 sz\<rparr>"
    by (simp add: view_def tag_defs Tag_Old_def kInvalidTag_def field_decode_or field_decode_encode)
  have "IsNew (Tag_New sz)" "IsOld (Tag_Old sz)"
    using new old by (simp_all add: view_def)
  then have "\<not> IsInvalid (Tag_New sz)" "\<not> IsInvalid (Tag_Old sz)"
    by (auto simp: IsInvalid_def kInvalidTag_def IsNew_def IsOld_def)
  then show ?thesis
    using new old by (simp add: setters_act_on_view IsInvalid_def Tag_Invalid_def)
qed

lemma GetSize_New: "unat sz < 2 ^ 32 \<Longrightarrow> GetSize (Tag_New sz) = sz"
  using take_bit_uword_self [of sz 32]
  by (simp add: GetSize_def Tag_New_def kInvalidTag_def field_decode_or field_decode_encode)

lemma IsNew_New [simp]: "IsNew (Tag_New sz)"
  by (simp add: IsNew_def Tag_New_def kInvalidTag_def field_decode_or field_decode_encode)

end
