(* ===== verification/Common.thy ===== *)
theory Common
  imports GelPrelude
begin

text \<open>
  The helper functions of \<open>gel/common.h\<close>: rounding up to a power of two, the power-of-two
  test, and splitting a string. \<open>RoundUpPow2\<close> takes a signed word, so its right shifts are
  arithmetic ones.
\<close>

section \<open>Powers of two\<close>

definition smear :: "nat \<Rightarrow> uword \<Rightarrow> uword" where
  "smear n x = x OR signed_drop_bit n x"

definition RoundUpPow2 :: "uword \<Rightarrow> uword" where
  "RoundUpPow2 x0 =
    (let x = x0 - 1;
         x = smear 1 x;
         x = smear 2 x;
         x = smear 4 x;
         x = smear 8 x;
         x = smear 16 x;
         x = smear 32 x
     in x + 1)"

definition IsPow2 :: "uword \<Rightarrow> bool" where
  "IsPow2 x = (x AND (x - 1) = 0 \<and> x \<noteq> 0)"

text \<open>\<open>covers y x n\<close>: bit \<open>i\<close> of \<open>x\<close> says whether one of the bits \<open>i\<close> to \<open>i + n - 1\<close> of \<open>y\<close> is set.\<close>

definition covers :: "uword \<Rightarrow> uword \<Rightarrow> nat \<Rightarrow> bool" where
  "covers y x n \<longleftrightarrow> (\<forall>i. bit x i \<longleftrightarrow> (\<exists>j<n. bit y (i + j)))"

lemma covers_start: "covers y y 1"
  by (simp add: covers_def)

lemma covers_smear:
  assumes "covers y x n" "\<not> bit y 63"
  shows "covers y (smear n x) (n + n)"
proof -
  have top: "\<not> bit x 63"
  proof
    assume "bit x 63"
    then obtain j where "bit y (63 + j)" using assms(1) by (auto simp: covers_def)
    moreover from this have "63 + j < 64" using bit_imp_le_length [of y "63 + j"] by simp
    ultimately show False using assms(2) by simp
  qed
  have "bit (smear n x) i \<longleftrightarrow> bit x i \<or> bit x (n + i)" for i
    using top bit_imp_le_length [of x "n + i"] bit_imp_le_length [of x i]
    by (auto simp: smear_def bit_simps)
  moreover have "(\<exists>j<n + n. bit y (i + j)) \<longleftrightarrow> (\<exists>j<n. bit y (i + j)) \<or> (\<exists>j<n. bit y (n + i + j))" for i
  proof
    assume "\<exists>j<n + n. bit y (i + j)"
    then obtain j where j: "j < n + n" "bit y (i + j)" by blast
    show "(\<exists>j<n. bit y (i + j)) \<or> (\<exists>j<n. bit y (n + i + j))"
    proof (cases "j < n")
      case False
      then have "j - n < n \<and> bit y (n + i + (j - n))" using j by (simp add: ac_simps)
      then show ?thesis by blast
    qed (use j in blast)
  next
    assume "(\<exists>j<n. bit y (i + j)) \<or> (\<exists>j<n. bit y (n + i + j))"
    then show "\<exists>j<n + n. bit y (i + j)"
    proof
      assume "\<exists>j<n. bit y (n + i + j)"
      then obtain j where "j < n" "bit y (i + (n + j))" by (auto simp: ac_simps)
      then show ?thesis by (intro exI [of _ "n + j"]) simp
    qed (auto intro: trans_less_add1)
  qed
  ultimately show ?thesis using assms(1) by (simp add: covers_def)
qed

lemma unat_pow2_uword: "k < 64 \<Longrightarrow> unat (2 ^ k :: uword) = 2 ^ k"
proof -
  assume "k < 64"
  then have "(2 :: nat) ^ k < 2 ^ 64" by (intro power_strict_increasing) auto
  then have "unat (of_nat (2 ^ k) :: uword) = 2 ^ k" by (simp only: unat_of_nat) simp
  then show ?thesis by simp
qed

lemma covers_double:
  "covers y x n \<Longrightarrow> \<not> bit y 63 \<Longrightarrow> m = n + n \<Longrightarrow> covers y (smear n x) m"
  using covers_smear by simp

lemma covers_64:
  assumes "covers y x 64" "y \<noteq> 0"
  shows "\<exists>n. bit y n \<and> x = mask (Suc n) \<and> unat y < 2 ^ Suc n"
proof -
  define n where "n = Max {i. bit y i}"
  have fin: "finite {i. bit y i}"
    by (rule finite_subset [of _ "{..<64}"]) (auto dest: bit_imp_le_length)
  moreover have "{i. bit y i} \<noteq> {}"
  proof
    assume "{i. bit y i} = {}"
    then have "\<not> bit y i" for i by blast
    then have "y = 0" by (intro bit_word_eqI) simp
    with assms(2) show False ..
  qed
  ultimately have n: "bit y n" "\<And>i. bit y i \<Longrightarrow> i \<le> n"
    unfolding n_def using Max_in [of "{i. bit y i}"] Max_ge [of "{i. bit y i}"] by auto
  have "n < 64" using n(1) bit_imp_le_length [of y n] by simp
  have "bit x i \<longleftrightarrow> i \<le> n" for i
  proof
    assume "bit x i"
    then obtain j where "bit y (i + j)" using assms(1) by (auto simp: covers_def)
    then show "i \<le> n" using n(2) [of "i + j"] by simp
  next
    assume "i \<le> n"
    then have "n - i < 64 \<and> bit y (i + (n - i))" using n(1) \<open>n < 64\<close> by simp
    then show "bit x i" using assms(1) by (auto simp: covers_def)
  qed
  then have bits: "bit x i = (i \<le> n)" for i .
  have "x = mask (Suc n)"
  proof (rule bit_word_eqI)
    fix i assume "i < LENGTH(64)"
    then show "bit x i = bit (mask (Suc n) :: uword) i"
      unfolding bits bit_mask_iff possible_bit_word by linarith
  qed
  moreover have "take_bit (Suc n) y = y"
    using n(2) by (intro bit_word_eqI) (simp only: bit_take_bit_iff less_Suc_eq_le, blast)
  then have "unat y < 2 ^ Suc n"
    by (metis take_bit_nat_less_exp unsigned_take_bit_eq)
  ultimately show ?thesis using n(1) by blast
qed

text \<open>\<open>RoundUpPow2\<close> of a size between 1 and \<open>2^62\<close> is the least power of two that is not
  below it: the shifts smear the highest set bit of the predecessor over all lower bits.\<close>

theorem RoundUpPow2_least:
  assumes "x \<noteq> 0" "unat x \<le> 2 ^ 62"
  shows "\<exists>n \<le> 62. unat (RoundUpPow2 x) = 2 ^ n \<and> unat x \<le> 2 ^ n \<and> (\<forall>m. unat x \<le> 2 ^ m \<longrightarrow> n \<le> m)"
proof (cases "x = 1")
  case True
  have "RoundUpPow2 1 = 1" by (simp add: RoundUpPow2_def smear_def)
  then show ?thesis using True by (intro exI [of _ 0]) simp
next
  case False
  define y where "y = x - 1"
  have y0: "y \<noteq> 0" using False by (simp add: y_def)
  have uy: "unat y = unat x - 1" using assms(1) by (simp add: y_def unat_minus_one)
  have u1: "1 < unat x"
    using assms(1) False by (metis One_nat_def less_one linorder_neqE_nat unat_1 unat_eq_0 word_unat_eq_iff)
  have small: "unat y < 2 ^ 62" using uy assms(2) u1 by linarith
  then have hi: "i < 62" if "bit y i" for i
  proof -
    have "take_bit 62 y = y" using small by (rule take_bit_uword_self)
    then show ?thesis using that by (metis bit_take_bit_iff)
  qed
  then have top: "\<not> bit y 63" by fastforce
  have "covers y (smear 32 (smear 16 (smear 8 (smear 4 (smear 2 (smear 1 y)))))) 64"
    by (rule covers_double [OF covers_double [OF covers_double [OF covers_double [OF covers_double
      [OF covers_double [OF covers_start]]]]]]) (simp_all add: top)
  then obtain n where n: "bit y n" "RoundUpPow2 x = mask (Suc n) + 1" "unat y < 2 ^ Suc n"
    using covers_64 [OF _ y0] by (auto simp: RoundUpPow2_def y_def Let_def)
  have n62: "n < 62" using hi n(1) by blast
  have "RoundUpPow2 x = 2 ^ Suc n"
    using n(2) by (simp add: mask_eq_exp_minus_1)
  then have 1: "unat (RoundUpPow2 x) = 2 ^ Suc n"
    using n62 by (simp only: unat_pow2_uword)
  have 2: "unat x \<le> 2 ^ Suc n" using n(3) uy u1 by linarith
  have 3: "Suc n \<le> m" if m: "unat x \<le> 2 ^ m" for m
  proof (rule ccontr)
    assume "\<not> Suc n \<le> m"
    then have "m \<le> n" by simp
    have "unat y < 2 ^ m" using m uy u1 by linarith
    then have "take_bit m y = y" by (rule take_bit_uword_self)
    then have "n < m" using n(1) by (metis bit_take_bit_iff)
    then show False using \<open>m \<le> n\<close> by simp
  qed
  show ?thesis using 1 2 3 n62 by (intro exI [of _ "Suc n"]) auto
qed

theorem RoundUpPow2_least_witness:
  "\<exists>n \<le> 62. unat (RoundUpPow2 5000) = 2 ^ n \<and> (5000 :: nat) \<le> 2 ^ n \<and> (\<forall>m. (5000 :: nat) \<le> 2 ^ m \<longrightarrow> n \<le> m)"
  using RoundUpPow2_least [of 5000] by simp

section \<open>\<open>Split\<close>\<close>

text \<open>The loop over the characters: the piece being read and the pieces found so far. The
  other overload inserts the same pieces into a set.\<close>

fun split_loop :: "char \<Rightarrow> string \<Rightarrow> string \<Rightarrow> string list \<Rightarrow> string list" where
  "split_loop delimiter [] current results = (if current \<noteq> [] then results @ [current] else results)"
| "split_loop delimiter (c # cs) current results =
    (if c = delimiter then
       (if current = [] then split_loop delimiter cs current results
        else split_loop delimiter cs [] (results @ [current]))
     else split_loop delimiter cs (current @ [c]) results)"

definition Split :: "string \<Rightarrow> char \<Rightarrow> string list \<Rightarrow> string list" where
  "Split str delimiter results = split_loop delimiter str [] results"

definition Split_set :: "string \<Rightarrow> char \<Rightarrow> string set \<Rightarrow> string set" where
  "Split_set str delimiter results = results \<union> set (split_loop delimiter str [] [])"

lemma split_loop_pieces:
  assumes "d \<notin> set cur" "\<forall>p\<in>set rs. p \<noteq> [] \<and> d \<notin> set p"
  shows "concat (split_loop d s cur rs) = concat rs @ cur @ filter (\<lambda>c. c \<noteq> d) s \<and>
    (\<forall>p\<in>set (split_loop d s cur rs). p \<noteq> [] \<and> d \<notin> set p)"
  using assms
proof (induction d s cur rs rule: split_loop.induct)
  case (1 d cur rs)
  then show ?case by auto
next
  case (2 d c cs cur rs)
  consider "c = d" "cur = []" | "c = d" "cur \<noteq> []" | "c \<noteq> d" by blast
  then show ?case
  proof cases
    case 1
    with "2.IH"(1) [OF 1] "2.prems" show ?thesis by (simp del: split_paired_All)
  next
    case c: 2
    with "2.IH"(2) [OF c] "2.prems" show ?thesis by auto
  next
    case c: 3
    with "2.IH"(3) [OF c] "2.prems" show ?thesis by auto
  qed
qed

end
