(* ===== verification/Regions.thy ===== *)
theory Regions
  imports Tags Common
begin

text \<open>
  Memory management: regions and allocation regions (\<open>gel/section.h\<close>), object pointers
  (\<open>gel/pointer.h\<close>), semispaces (\<open>gel/semispace.h\<close>, \<open>gel/semispace.cc\<close>), the new and the
  old zone (\<open>gel/zone.h\<close>, \<open>gel/zone.cc\<close>), the free list (\<open>gel/free_list.h\<close>,
  \<open>gel/free_list.cc\<close>) and the heap's allocation functions (\<open>gel/heap.cc\<close>). The header
  words at the start of an object are a partial map from addresses; the addresses the
  operating system maps zones at are parameters.
\<close>

section \<open>\<open>class Region\<close> and \<open>class AllocationRegion\<close>\<close>

record region =
  r_start :: uword
  r_size :: uword

definition GetEndingAddress :: "('a) region_scheme \<Rightarrow> uword" where
  "GetEndingAddress r = r_start r + r_size r"

definition region_Contains :: "('a) region_scheme \<Rightarrow> uword \<Rightarrow> bool" where
  "region_Contains r address = (r_start r \<le> address \<and> address \<le> GetEndingAddress r)"

definition region_equal :: "('a) region_scheme \<Rightarrow> ('b) region_scheme \<Rightarrow> bool" where
  "region_equal r q = (r_start r = r_start q \<and> r_size r = r_size q)"

definition IsAllocated :: "('a) region_scheme \<Rightarrow> bool" where
  "IsAllocated r = (r_start r \<noteq> 0 \<and> 1 \<le> r_size r)"

record alloc_region = region +
  r_current :: uword

definition new_AllocationRegion :: "uword \<Rightarrow> uword \<Rightarrow> alloc_region" where
  "new_AllocationRegion st sz = \<lparr>r_start = st, r_size = sz, r_current = st\<rparr>"

definition SetCurrent :: "uword \<Rightarrow> ('a) alloc_region_scheme \<Rightarrow> ('a) alloc_region_scheme res" where
  "SetCurrent address r =
    asserting (r_start r \<le> address \<and> address \<le> GetEndingAddress r)
      (Inr (r\<lparr>r_current := address\<rparr>))"

definition region_Clear :: "('a) alloc_region_scheme \<Rightarrow> ('a) alloc_region_scheme" where
  "region_Clear r = r\<lparr>r_current := r_start r\<rparr>"

definition SetRegion :: "region \<Rightarrow> ('a) alloc_region_scheme \<Rightarrow> ('a) alloc_region_scheme" where
  "SetRegion rhs r = r\<lparr>r_start := r_start rhs, r_size := r_size rhs, r_current := r_start rhs\<rparr>"

definition IsEmpty :: "('a) alloc_region_scheme \<Rightarrow> bool" where
  "IsEmpty r = (r_current r = r_start r)"

definition IsFull :: "('a) alloc_region_scheme \<Rightarrow> bool" where
  "IsFull r = (r_current r = GetEndingAddress r)"

definition GetNumberOfBytesAllocated :: "('a) alloc_region_scheme \<Rightarrow> uword" where
  "GetNumberOfBytesAllocated r = r_current r - r_start r"

definition GetNumberOfBytesRemaining :: "('a) alloc_region_scheme \<Rightarrow> uword" where
  "GetNumberOfBytesRemaining r = r_size r - GetNumberOfBytesAllocated r"

section \<open>\<open>class Pointer\<close>: the header of an object\<close>

record pointer =
  ptr_tag :: tag
  forwarding :: uword

type_synonym headers = "uword \<rightharpoonup> pointer"

definition sizeof_Pointer :: uword where
  "sizeof_Pointer = 16"

definition new_Pointer :: "uword \<Rightarrow> pointer" where
  "new_Pointer sz = \<lparr>ptr_tag = Tag_New sz, forwarding = 0\<rparr>"

definition GetObjectSize :: "pointer \<Rightarrow> uword" where
  "GetObjectSize p = GetSize (ptr_tag p)"

definition GetTotalSize :: "pointer \<Rightarrow> uword" where
  "GetTotalSize p = sizeof_Pointer + GetObjectSize p"

definition GetObjectAddress :: "uword \<Rightarrow> uword" where
  "GetObjectAddress address = address + sizeof_Pointer"

definition SetForwardingAddress :: "uword \<Rightarrow> pointer \<Rightarrow> pointer" where
  "SetForwardingAddress address p = p\<lparr>forwarding := address\<rparr>"

definition IsForwarding :: "pointer \<Rightarrow> bool" where
  "IsForwarding p = (forwarding p \<noteq> 0)"

text \<open>\<open>memset\<close> over a range erases the headers in it.\<close>

definition erase :: "uword \<Rightarrow> uword \<Rightarrow> headers \<Rightarrow> headers" where
  "erase st n hs = (\<lambda>a. if a - st < n then None else hs a)"

section \<open>Walking a space\<close>

text \<open>\<open>Iterator\<close> of \<open>Semispace\<close> and of \<open>NewZone\<close>: from \<open>pos\<close> on, the next header is where the
  present object ends. The visitor is asked about each pointer and stops the walk with
  \<open>False\<close>; the result is what was visited and whether the walk was finished. Every step
  moves forward by at least the size of a header, unless an address wraps around, so the
  number of bytes between is fuel enough.\<close>

fun visit_loop :: "nat \<Rightarrow> (pointer \<Rightarrow> bool) \<Rightarrow> (uword \<Rightarrow> pointer \<Rightarrow> bool) \<Rightarrow> (pointer \<Rightarrow> bool) \<Rightarrow>
    headers \<Rightarrow> uword \<Rightarrow> uword \<Rightarrow> ((uword \<times> pointer) list \<times> bool) res" where
  "visit_loop fuel chk vis sel hs pos stop =
    (if pos < stop then
       (case fuel of
          0 \<Rightarrow> Inl OutOfFuel
        | Suc k \<Rightarrow>
           (case hs pos of
              None \<Rightarrow> Inl UndefinedBehaviour
            | Some p \<Rightarrow>
               asserting (chk p)
                 (if \<not> sel p then visit_loop k chk vis sel hs (pos + GetTotalSize p) stop
                  else if \<not> vis pos p then Inr ([(pos, p)], False)
                  else rbind (visit_loop k chk vis sel hs (pos + GetTotalSize p) stop)
                    (\<lambda>(ps, ok). Inr ((pos, p) # ps, ok)))))
     else Inr ([], True))"

declare visit_loop.simps [simp del]

definition walk :: "(pointer \<Rightarrow> bool) \<Rightarrow> (pointer \<Rightarrow> bool) \<Rightarrow> (uword \<Rightarrow> pointer \<Rightarrow> bool) \<Rightarrow>
    headers \<Rightarrow> ('a) alloc_region_scheme \<Rightarrow> ((uword \<times> pointer) list \<times> bool) res" where
  "walk chk sel vis hs r =
    visit_loop (unat (r_current r - r_start r)) chk vis sel hs (r_start r) (r_current r)"

section \<open>\<open>class Semispace\<close>\<close>

type_synonym semispace = alloc_region

definition Semispace_TryAllocate :: "uword \<Rightarrow> semispace \<Rightarrow> (uword \<times> semispace) res" where
  "Semispace_TryAllocate sz s =
    asserting (0 < sz \<and> IsPow2 sz)
      (if GetEndingAddress s \<le> r_current s + sz then Inr (0, s)
       else Inr (r_current s, s\<lparr>r_current := r_current s + sz\<rparr>))"

definition Semispace_VisitAllPointers ::
    "(uword \<Rightarrow> pointer \<Rightarrow> bool) \<Rightarrow> headers \<Rightarrow> semispace \<Rightarrow> ((uword \<times> pointer) list \<times> bool) res" where
  "Semispace_VisitAllPointers vis hs s =
    walk (\<lambda>p. 0 < GetObjectSize p) (\<lambda>p. True) vis hs s"

definition Semispace_VisitAllMarkedPointers ::
    "(uword \<Rightarrow> pointer \<Rightarrow> bool) \<Rightarrow> headers \<Rightarrow> semispace \<Rightarrow> ((uword \<times> pointer) list \<times> bool) res" where
  "Semispace_VisitAllMarkedPointers vis hs s =
    walk (\<lambda>p. 0 < GetObjectSize p) (\<lambda>p. IsMarked (ptr_tag p)) vis hs s"

section \<open>\<open>class NewZone\<close>\<close>

record new_zone = alloc_region +
  fromspace :: uword
  tospace :: uword
  semi_size :: uword
  zone_headers :: headers

definition CalcSemispaceSize :: "uword \<Rightarrow> uword res" where
  "CalcSemispaceSize sz = asserting (IsPow2 sz) (Inr (sz div 2))"

definition new_NewZone :: "uword \<Rightarrow> uword \<Rightarrow> new_zone res" where
  "new_NewZone mapped sz =
    rbind (CalcSemispaceSize sz) (\<lambda>semi.
      Inr \<lparr>r_start = mapped, r_size = sz, r_current = mapped, fromspace = mapped,
           tospace = mapped + semi, semi_size = semi, zone_headers = Map.empty\<rparr>)"

definition SwapSpaces :: "new_zone \<Rightarrow> new_zone" where
  "SwapSpaces z = z\<lparr>fromspace := tospace z, tospace := fromspace z\<rparr>"

definition NewZone_TryAllocate :: "uword \<Rightarrow> new_zone \<Rightarrow> (uword \<times> new_zone) res" where
  "NewZone_TryAllocate sz z =
    asserting (0 < sz)
      (let total_size = sizeof_Pointer + sz in
       guardr LogFatal (\<not> fromspace z + semi_size z \<le> r_current z + total_size)
         (let new_address = r_current z in
          Inr (GetObjectAddress new_address,
            z\<lparr>r_current := r_current z + total_size,
              zone_headers := (erase new_address total_size (zone_headers z))
                (new_address \<mapsto> new_Pointer sz)\<rparr>)))"

definition NewZone_VisitAllPointers ::
    "(uword \<Rightarrow> pointer \<Rightarrow> bool) \<Rightarrow> new_zone \<Rightarrow> ((uword \<times> pointer) list \<times> bool) res" where
  "NewZone_VisitAllPointers vis z = walk (\<lambda>p. True) (\<lambda>p. True) vis (zone_headers z) z"

definition NewZone_VisitAllMarkedPointers ::
    "(uword \<Rightarrow> pointer \<Rightarrow> bool) \<Rightarrow> new_zone \<Rightarrow> ((uword \<times> pointer) list \<times> bool) res" where
  "NewZone_VisitAllMarkedPointers vis z =
    walk (\<lambda>p. True) (\<lambda>p. IsMarked (ptr_tag p)) vis (zone_headers z) z"

definition NewZone_GetNumberOfBytesAllocated :: "new_zone \<Rightarrow> uword" where
  "NewZone_GetNumberOfBytesAllocated z = r_current z - fromspace z"

section \<open>The old zone and its free list\<close>

record free_pointer =
  fp_address :: uword
  fp_tag :: tag
  fp_next :: uword

record free_list = region +
  fl_head :: "free_pointer option"

definition new_FreePointer :: "uword \<Rightarrow> tag \<Rightarrow> free_pointer res" where
  "new_FreePointer address t =
    asserting (0 < address) (Inr \<lparr>fp_address = address, fp_tag = t, fp_next = 0\<rparr>)"

definition FreePointer_GetTotalSize :: "free_pointer \<Rightarrow> uword" where
  "FreePointer_GetTotalSize p = sizeof_Pointer + GetSize (fp_tag p)"

definition FreePointer_Equals :: "free_pointer \<Rightarrow> free_pointer \<Rightarrow> bool" where
  "FreePointer_Equals p q =
    (fp_address p = fp_address q \<and> FreePointer_GetTotalSize p = FreePointer_GetTotalSize q)"

definition new_FreeList :: "uword \<Rightarrow> uword \<Rightarrow> free_list res" where
  "new_FreeList st sz =
    rbind (new_FreePointer st (Tag_Old sz)) (\<lambda>p.
      Inr \<lparr>r_start = st, r_size = sz, fl_head = Some p\<rparr>)"

text \<open>\<open>NOT_IMPLEMENTED(ERROR)\<close> logs and goes on: no allocation in the free list succeeds.\<close>

definition FreeList_TryAllocate :: "uword \<Rightarrow> free_list \<Rightarrow> uword res" where
  "FreeList_TryAllocate sz fl = asserting (0 < sz) (Inr 0)"

text \<open>No pointer of the list is ever given a next one, so a pointer with one is not of the code's
  making.\<close>

definition VisitFreePointers :: "(free_pointer \<Rightarrow> bool) \<Rightarrow> free_list \<Rightarrow> (free_pointer list \<times> bool) res" where
  "VisitFreePointers vis fl =
    (case fl_head fl of
       None \<Rightarrow> Inr ([], True)
     | Some p \<Rightarrow>
         if \<not> vis p then Inr ([p], False)
         else if fp_next p = 0 then Inr ([p], True) else Inl UndefinedBehaviour)"

record old_zone = alloc_region +
  zone_free_list :: free_list

definition new_OldZone :: "uword \<Rightarrow> uword \<Rightarrow> old_zone res" where
  "new_OldZone mapped sz =
    rbind (new_FreeList mapped sz) (\<lambda>fl.
      Inr \<lparr>r_start = mapped, r_size = sz, r_current = mapped, zone_free_list = fl\<rparr>)"

definition OldZone_TryAllocate :: "uword \<Rightarrow> old_zone \<Rightarrow> uword res" where
  "OldZone_TryAllocate sz z =
    asserting (0 < sz) (FreeList_TryAllocate sz (zone_free_list z))"

section \<open>\<open>class Heap\<close>\<close>

record heap =
  heap_new_zone :: new_zone
  heap_old_zone :: old_zone

definition kLargeObjectSize :: uword where
  "kLargeObjectSize = 4 * 1024"

definition new_Heap :: "uword \<Rightarrow> uword \<Rightarrow> uword \<Rightarrow> uword \<Rightarrow> heap res" where
  "new_Heap new_mapped new_size old_mapped old_size =
    rbind (new_NewZone new_mapped new_size) (\<lambda>nz.
    rbind (new_OldZone old_mapped old_size) (\<lambda>oz.
      Inr \<lparr>heap_new_zone = nz, heap_old_zone = oz\<rparr>))"

text \<open>\<open>MajorCollection\<close> is \<open>NOT_IMPLEMENTED(FATAL)\<close>.\<close>

definition MajorCollection :: "heap \<Rightarrow> heap res" where
  "MajorCollection h = Inl LogFatal"

definition TryAllocateOld :: "uword \<Rightarrow> heap \<Rightarrow> (uword \<times> heap) res" where
  "TryAllocateOld sz h =
    rbind (OldZone_TryAllocate sz (heap_old_zone h)) (\<lambda>result.
      if result = 0 then
        rbind (MajorCollection h) (\<lambda>h'.
        rbind (OldZone_TryAllocate sz (heap_old_zone h')) (\<lambda>result.
        guardr LogFatal (result \<noteq> 0) (Inr (result, h'))))
      else Inr (result, h))"

text \<open>\<open>NewZone::TryAllocate\<close> never returns \<open>UNALLOCATED\<close> (it ends the process first), so the
  minor collection in \<open>TryAllocateNew\<close> is not reached; its assertion remains.\<close>

definition TryAllocateNew :: "uword \<Rightarrow> heap \<Rightarrow> (uword \<times> heap) res" where
  "TryAllocateNew sz h =
    rbind (NewZone_TryAllocate sz (heap_new_zone h)) (\<lambda>(result, nz).
      asserting (result \<noteq> 0) (Inr (result, h\<lparr>heap_new_zone := nz\<rparr>)))"

definition TryAllocate :: "uword \<Rightarrow> heap \<Rightarrow> (uword \<times> heap) res" where
  "TryAllocate sz h =
    asserting (0 < sz)
      (if kLargeObjectSize \<le> sz then TryAllocateOld sz h else TryAllocateNew sz h)"

text \<open>\<open>Clear\<close> fills the zones with zeros and starts them again; the two spaces of the new zone stay
  as they are, and the head of the free list is in the memory that is filled.\<close>

definition NewZone_Clear :: "new_zone \<Rightarrow> new_zone" where
  "NewZone_Clear z = (region_Clear z)\<lparr>zone_headers := erase (r_start z) (r_size z) (zone_headers z)\<rparr>"

definition OldZone_Clear :: "old_zone \<Rightarrow> old_zone" where
  "OldZone_Clear z =
    (let zero = (\<lambda>p. if fp_address p - r_start z < r_size z
                    then p\<lparr>fp_tag := \<lparr>raw = kInvalidTag\<rparr>, fp_next := 0\<rparr> else p) in
     (region_Clear z)\<lparr>zone_free_list :=
       (zone_free_list z)\<lparr>fl_head := map_option zero (fl_head (zone_free_list z))\<rparr>\<rparr>)"

definition Heap_Clear :: "heap \<Rightarrow> heap" where
  "Heap_Clear h = \<lparr>heap_new_zone = NewZone_Clear (heap_new_zone h), heap_old_zone = OldZone_Clear (heap_old_zone h)\<rparr>"

definition Heap_GetTotalSize :: "heap \<Rightarrow> uword" where
  "Heap_GetTotalSize h = r_size (heap_new_zone h) + r_size (heap_old_zone h)"

end
