(* ===== verification/RegionsCorrect.thy ===== *)
theory RegionsCorrect
  imports Regions
begin

text \<open>
  Correctness of allocation. The locale \<open>bump_space\<close> states what a bump allocator promises
  about one allocation and derives what a client relies on for any sequence of them:
  blocks that are disjoint, in increasing order and inside the space. It is interpreted on
  the semispace and on the heap. The new zone's headers always parse: walking the zone
  visits exactly the objects that were allocated, in order.
\<close>

section \<open>The interface of a bump allocator\<close>

fun alloc_seq :: "(uword \<Rightarrow> 's \<Rightarrow> (uword \<times> 's) res) \<Rightarrow> uword list \<Rightarrow> 's \<Rightarrow>
    ((uword \<times> uword) list \<times> 's) res" where
  "alloc_seq alloc [] s = Inr ([], s)"
| "alloc_seq alloc (n # ns) s =
    rbind (alloc n s) (\<lambda>(a, s1).
    rbind (alloc_seq alloc ns s1) (\<lambda>(bs, s2). Inr ((a, n) # bs, s2)))"

definition before :: "uword \<times> uword \<Rightarrow> uword \<times> uword \<Rightarrow> bool" where
  "before x y \<longleftrightarrow> fst x \<noteq> 0 \<longrightarrow> fst y \<noteq> 0 \<longrightarrow> unat (fst x) + unat (snd x) \<le> unat (fst y)"

definition inside :: "nat \<Rightarrow> nat \<Rightarrow> uword \<times> uword \<Rightarrow> bool" where
  "inside lo hi x \<longleftrightarrow> fst x \<noteq> 0 \<longrightarrow> lo \<le> unat (fst x) \<and> unat (fst x) + unat (snd x) \<le> hi"

locale bump_space =
  fixes alloc :: "uword \<Rightarrow> 's \<Rightarrow> (uword \<times> 's) res"
    and cursor limit :: "'s \<Rightarrow> nat"
    and good :: "'s \<Rightarrow> bool"
  assumes keeps: "good s \<Longrightarrow> alloc n s = Inr (a, s') \<Longrightarrow> good s' \<and> limit s' = limit s"
    and refused: "good s \<Longrightarrow> alloc n s = Inr (0, s') \<Longrightarrow> s' = s"
    and block: "good s \<Longrightarrow> alloc n s = Inr (a, s') \<Longrightarrow> a \<noteq> 0 \<Longrightarrow>
      cursor s \<le> unat a \<and> unat a + unat n = cursor s' \<and> cursor s' < limit s"
begin

lemma cursor_mono: "good s \<Longrightarrow> alloc n s = Inr (a, s') \<Longrightarrow> cursor s \<le> cursor s'"
  by (cases "a = 0") (use refused block in force)+

lemma blocks_ordered:
  assumes "good s" "alloc_seq alloc ns s = Inr (bs, s')"
  shows "good s' \<and> limit s' = limit s \<and> cursor s \<le> cursor s' \<and>
    sorted_wrt before bs \<and> (\<forall>x\<in>set bs. inside (cursor s) (cursor s') x)"
  using assms
proof (induction ns arbitrary: s bs)
  case Nil
  then show ?case by simp
next
  case (Cons n ns)
  then obtain a s1 cs where 1: "alloc n s = Inr (a, s1)" "alloc_seq alloc ns s1 = Inr (cs, s')"
      and bs: "bs = (a, n) # cs"
    by (auto simp: rbind_eq_Inr)
  have k: "good s1" "limit s1 = limit s" using keeps [OF Cons.prems(1) 1(1)] by auto
  have IH: "good s' \<and> limit s' = limit s1 \<and> cursor s1 \<le> cursor s' \<and>
    sorted_wrt before cs \<and> (\<forall>x\<in>set cs. inside (cursor s1) (cursor s') x)"
    by (rule Cons.IH [OF k(1) 1(2)])
  have mono: "cursor s \<le> cursor s1" by (rule cursor_mono [OF Cons.prems(1) 1(1)])
  have first: "inside (cursor s) (cursor s') (a, n)"
    using block [OF Cons.prems(1) 1(1)] IH by (auto simp: inside_def)
  moreover have "before (a, n) x" if "x \<in> set cs" for x
    using that IH block [OF Cons.prems(1) 1(1)] by (auto simp: before_def inside_def)
  moreover have "inside (cursor s) (cursor s') x" if "x \<in> set cs" for x
    using that IH mono by (auto simp: inside_def)
  ultimately show ?case using IH k(2) mono bs by auto
qed

lemma blocks_below_limit:
  assumes "good s" "cursor s \<le> limit s" "alloc_seq alloc ns s = Inr (bs, s')"
  shows "cursor s' \<le> limit s"
  using assms
proof (induction ns arbitrary: s bs)
  case (Cons n ns)
  then obtain a s1 cs where 1: "alloc n s = Inr (a, s1)" "alloc_seq alloc ns s1 = Inr (cs, s')"
    by (auto simp: rbind_eq_Inr)
  have "cursor s1 \<le> limit s"
    using refused [OF Cons.prems(1)] block [OF Cons.prems(1)] 1(1) Cons.prems(2)
    by (cases "a = 0") fastforce+
  then show ?case
    using Cons.IH [of s1] keeps [OF Cons.prems(1) 1(1)] 1(2) by metis
qed simp

end

section \<open>Semispaces\<close>

definition good_semispace :: "semispace \<Rightarrow> bool" where
  "good_semispace s \<longleftrightarrow> 0 < unat (r_start s) \<and> unat (r_start s) + unat (r_size s) < 2 ^ 63 \<and>
     unat (r_start s) \<le> unat (r_current s) \<and>
     unat (r_current s) \<le> unat (r_start s) + unat (r_size s)"

lemma bit_63_iff: "bit (w :: uword) 63 \<longleftrightarrow> 2 ^ 63 \<le> unat w"
proof
  assume "2 ^ 63 \<le> unat w"
  show "bit w 63"
  proof (rule ccontr)
    assume "\<not> bit w 63"
    then have "take_bit 63 w = w"
      by (auto intro!: bit_word_eqI simp: bit_take_bit_iff less_Suc_eq numeral_eq_Suc)
    then have "unat w < 2 ^ 63"
      by (metis take_bit_nat_less_exp unsigned_take_bit_eq)
    then show False using \<open>2 ^ 63 \<le> unat w\<close> by simp
  qed
next
  assume "bit w 63"
  show "2 ^ 63 \<le> unat w"
  proof (rule ccontr)
    assume "\<not> 2 ^ 63 \<le> unat w"
    then have "take_bit 63 w = w" by (intro take_bit_uword_self) simp
    then have "\<not> bit w 63" by (metis bit_take_bit_iff less_irrefl)
    then show False using \<open>bit w 63\<close> by simp
  qed
qed

lemma IsPow2_le: "IsPow2 n \<Longrightarrow> unat n \<le> 2 ^ 63"
proof (rule ccontr)
  assume p: "IsPow2 n" and "\<not> unat n \<le> 2 ^ 63"
  then have "2 ^ 63 \<le> unat n" "2 ^ 63 \<le> unat (n - 1)"
    by (auto simp: IsPow2_def unat_minus_one)
  then have "bit (n AND (n - 1)) 63" unfolding bit_and_iff by (simp only: bit_63_iff)
  then show False using p by (simp add: IsPow2_def)
qed

lemma unat_plus_small: "unat x + unat y < 2 ^ 64 \<Longrightarrow> unat (x + y :: uword) = unat x + unat y"
  by (simp add: unat_word_ariths)

lemma Semispace_TryAllocate_cases:
  assumes "good_semispace s" "Semispace_TryAllocate n s = Inr (a, s')"
  shows "a = 0 \<and> s' = s \<or>
    a = r_current s \<and> s' = s\<lparr>r_current := r_current s + n\<rparr> \<and>
    unat (r_current s + n) = unat (r_current s) + unat n \<and>
    unat (r_current s + n) < unat (r_start s) + unat (r_size s)"
proof -
  have p: "IsPow2 n" using assms(2) by (auto simp: Semispace_TryAllocate_def guardr_eq_Inr)
  have e: "unat (GetEndingAddress s) = unat (r_start s) + unat (r_size s)"
    using assms(1) by (simp add: good_semispace_def GetEndingAddress_def unat_plus_small)
  show ?thesis
  proof (cases "GetEndingAddress s \<le> r_current s + n")
    case True
    then show ?thesis using assms(2) by (auto simp: Semispace_TryAllocate_def guardr_eq_Inr)
  next
    case False
    then have r: "a = r_current s" "s' = s\<lparr>r_current := r_current s + n\<rparr>"
      using assms(2) by (auto simp: Semispace_TryAllocate_def guardr_eq_Inr)
    have nowrap: "unat (r_current s + n) = unat (r_current s) + unat n"
      using IsPow2_le [OF p] assms(1) by (intro unat_plus_small) (simp add: good_semispace_def)
    then have "unat (r_current s + n) < unat (r_start s) + unat (r_size s)"
      using False e by (simp add: word_le_nat_alt)
    then show ?thesis using r nowrap by simp
  qed
qed

interpretation semispace_bump: bump_space Semispace_TryAllocate
  "\<lambda>s. unat (r_current s)" "\<lambda>s. unat (r_start s) + unat (r_size s)" good_semispace
proof
  fix s s' :: semispace and n a
  assume g: "good_semispace s" and r: "Semispace_TryAllocate n s = Inr (a, s')"
  note c = Semispace_TryAllocate_cases [OF g r]
  show "good_semispace s' \<and> unat (r_start s') + unat (r_size s') = unat (r_start s) + unat (r_size s)"
    using c g by (auto simp: good_semispace_def)
  show "a \<noteq> 0 \<Longrightarrow> unat (r_current s) \<le> unat a \<and> unat a + unat n = unat (r_current s') \<and>
      unat (r_current s') < unat (r_start s) + unat (r_size s)"
    using c by auto
next
  fix s s' :: semispace and n
  assume g: "good_semispace s" and r: "Semispace_TryAllocate n s = Inr (0, s')"
  then have "unat (r_current s) \<noteq> 0" by (auto simp: good_semispace_def)
  then show "s' = s" using Semispace_TryAllocate_cases [OF g r] by auto
qed

section \<open>The heap\<close>

definition good_zone :: "new_zone \<Rightarrow> bool" where
  "good_zone z \<longleftrightarrow> 0 < unat (fromspace z) \<and> unat (fromspace z) + unat (semi_size z) < 2 ^ 62 \<and>
     unat (fromspace z) \<le> unat (r_current z) \<and>
     unat (r_current z) \<le> unat (fromspace z) + unat (semi_size z)"

definition heap_cursor :: "heap \<Rightarrow> nat" where
  "heap_cursor h = unat (r_current (heap_new_zone h))"

definition heap_limit :: "heap \<Rightarrow> nat" where
  "heap_limit h = unat (fromspace (heap_new_zone h)) + unat (semi_size (heap_new_zone h))"

definition good_heap :: "heap \<Rightarrow> bool" where
  "good_heap h = good_zone (heap_new_zone h)"

definition bump :: "uword \<Rightarrow> new_zone \<Rightarrow> new_zone" where
  "bump n z = z\<lparr>r_current := r_current z + (sizeof_Pointer + n),
     zone_headers := (erase (r_current z) (sizeof_Pointer + n) (zone_headers z))
       (r_current z \<mapsto> new_Pointer n)\<rparr>"

lemma NewZone_TryAllocate_eq:
  assumes "good_zone z" "0 < n" "n < kLargeObjectSize"
  shows "NewZone_TryAllocate n z =
    (if unat (r_current z) + 16 + unat n < unat (fromspace z) + unat (semi_size z)
     then Inr (r_current z + 16, bump n z) else Inl LogFatal)"
    and "unat (r_current z + 16) = unat (r_current z) + 16"
    and "unat (r_current (bump n z)) = unat (r_current z) + 16 + unat n"
proof -
  have n: "unat n < 4096" using assms(3) by (simp add: kLargeObjectSize_def word_less_nat_alt)
  have b: "unat (r_current z) < 2 ^ 62"
    using assms(1) unfolding good_zone_def by linarith
  have t: "unat (sizeof_Pointer + n) = 16 + unat n"
    using n by (subst unat_plus_small) (simp_all add: sizeof_Pointer_def)
  have c: "unat (r_current z + (sizeof_Pointer + n)) = unat (r_current z) + 16 + unat n"
    using n b t by (subst unat_plus_small) simp_all
  have e: "unat (fromspace z + semi_size z) = unat (fromspace z) + unat (semi_size z)"
    using assms(1) by (intro unat_plus_small) (simp add: good_zone_def)
  show "unat (r_current z + 16) = unat (r_current z) + 16"
    using b by (subst unat_plus_small) simp_all
  show "unat (r_current (bump n z)) = unat (r_current z) + 16 + unat n"
    using c by (simp add: bump_def)
  show "NewZone_TryAllocate n z =
    (if unat (r_current z) + 16 + unat n < unat (fromspace z) + unat (semi_size z)
     then Inr (r_current z + 16, bump n z) else Inl LogFatal)"
    using assms(2) c e
    by (auto simp: NewZone_TryAllocate_def Let_def GetObjectAddress_def bump_def word_le_nat_alt
        sizeof_Pointer_def guardr_def)
qed

lemma TryAllocate_large: "kLargeObjectSize \<le> n \<Longrightarrow> TryAllocate n h = Inl LogFatal"
proof -
  assume l: "kLargeObjectSize \<le> n"
  then have "0 < n" by (auto simp: kLargeObjectSize_def word_gt_0)
  then show ?thesis using l
    by (simp add: TryAllocate_def TryAllocateOld_def OldZone_TryAllocate_def
        FreeList_TryAllocate_def MajorCollection_def)
qed

lemma TryAllocate_eq:
  assumes "good_heap h"
  shows "TryAllocate n h =
    (if n = 0 then Inl AssertFailed
     else if kLargeObjectSize \<le> n then Inl LogFatal
     else if heap_cursor h + 16 + unat n < heap_limit h
       then Inr (r_current (heap_new_zone h) + 16, h\<lparr>heap_new_zone := bump n (heap_new_zone h)\<rparr>)
       else Inl LogFatal)"
proof -
  have z: "good_zone (heap_new_zone h)" using assms by (simp add: good_heap_def)
  consider "n = 0" | "kLargeObjectSize \<le> n" "n \<noteq> 0" | "0 < n" "n < kLargeObjectSize"
    using word_gt_0 [of n] by fastforce
  then show ?thesis
  proof cases
    case 1
    then show ?thesis by (simp add: TryAllocate_def)
  next
    case 2
    then show ?thesis by (simp add: TryAllocate_large)
  next
    case 3
    have "r_current (heap_new_zone h) + 16 \<noteq> 0"
    proof
      assume "r_current (heap_new_zone h) + 16 = 0"
      then have "unat (r_current (heap_new_zone h) + 16) = 0" by simp
      then show False using NewZone_TryAllocate_eq(2) [OF z 3] by simp
    qed
    then show ?thesis
      using 3 NewZone_TryAllocate_eq(1) [OF z 3]
      by (auto simp: TryAllocate_def TryAllocateNew_def heap_cursor_def heap_limit_def)
  qed
qed

lemma bump_fields [simp]:
  "fromspace (bump n z) = fromspace z" "semi_size (bump n z) = semi_size z"
  "r_start (bump n z) = r_start z"
  by (simp_all add: bump_def)

lemma TryAllocate_Inr:
  assumes "good_heap h" "TryAllocate n h = Inr (a, h')"
  shows "0 < n" "n < kLargeObjectSize" "unat n < 2 ^ 32"
    "a = r_current (heap_new_zone h) + 16" "h' = h\<lparr>heap_new_zone := bump n (heap_new_zone h)\<rparr>"
    "unat a = heap_cursor h + 16" "heap_cursor h' = heap_cursor h + 16 + unat n"
    "heap_cursor h' < heap_limit h" "good_heap h'" "heap_limit h' = heap_limit h"
proof -
  have z: "good_zone (heap_new_zone h)" using assms(1) by (simp add: good_heap_def)
  show n: "0 < n" "n < kLargeObjectSize"
    using assms by (auto simp: TryAllocate_eq word_gt_0 split: if_splits)
  then show "unat n < 2 ^ 32" by (simp add: kLargeObjectSize_def word_less_nat_alt)
  show a: "a = r_current (heap_new_zone h) + 16"
    and h': "h' = h\<lparr>heap_new_zone := bump n (heap_new_zone h)\<rparr>"
    using assms by (auto simp: TryAllocate_eq split: if_splits)
  show "unat a = heap_cursor h + 16"
    using NewZone_TryAllocate_eq(2) [OF z n] by (simp add: a heap_cursor_def)
  show c: "heap_cursor h' = heap_cursor h + 16 + unat n"
    using NewZone_TryAllocate_eq(3) [OF z n] by (simp add: h' heap_cursor_def)
  show l: "heap_cursor h' < heap_limit h"
    using assms c by (auto simp: TryAllocate_eq split: if_splits)
  show "heap_limit h' = heap_limit h" by (simp add: h' heap_limit_def)
  show "good_heap h'"
    using z c l by (auto simp: h' good_heap_def good_zone_def heap_cursor_def heap_limit_def)
qed

interpretation heap_bump: bump_space TryAllocate heap_cursor heap_limit good_heap
proof
  fix h h' :: heap and n a
  assume g: "good_heap h" and r: "TryAllocate n h = Inr (a, h')"
  note T = TryAllocate_Inr [OF g r]
  show "good_heap h' \<and> heap_limit h' = heap_limit h" using T by simp
  show "a \<noteq> 0 \<Longrightarrow> heap_cursor h \<le> unat a \<and> unat a + unat n = heap_cursor h' \<and> heap_cursor h' < heap_limit h"
    using T by simp
next
  fix h h' :: heap and n
  assume g: "good_heap h" and r: "TryAllocate n h = Inr (0, h')"
  show "h' = h" using TryAllocate_Inr(6) [OF g r] by simp
qed

section \<open>The headers parse\<close>

text \<open>\<open>layout hs p bs q\<close>: from address \<open>p\<close> to \<open>q\<close> the headers are those of the objects \<open>bs\<close>,
  one right after the other.\<close>

fun layout :: "headers \<Rightarrow> nat \<Rightarrow> (uword \<times> uword) list \<Rightarrow> nat \<Rightarrow> bool" where
  "layout hs p [] q \<longleftrightarrow> p = q"
| "layout hs p ((a, n) # bs) q \<longleftrightarrow> unat a = p + 16 \<and> hs (of_nat p) = Some (new_Pointer n) \<and>
     unat n < 2 ^ 32 \<and> layout hs (p + 16 + unat n) bs q"

lemma layout_mono: "layout hs p bs q \<Longrightarrow> p + 16 * length bs \<le> q"
  by (induction hs p bs q rule: layout.induct) auto

lemma layout_snoc:
  "layout hs p (bs @ [(a, n)]) q \<longleftrightarrow>
     (\<exists>r. layout hs p bs r \<and> unat a = r + 16 \<and> hs (of_nat r) = Some (new_Pointer n) \<and>
       unat n < 2 ^ 32 \<and> q = r + 16 + unat n)"
  by (induction hs p bs q rule: layout.induct) auto

lemma layout_agree:
  assumes "layout hs p bs q" "\<And>r. p \<le> r \<Longrightarrow> r < q \<Longrightarrow> hs' (of_nat r) = hs (of_nat r)"
  shows "layout hs' p bs q"
  using assms
proof (induction hs p bs q rule: layout.induct)
  case (2 hs p a n bs q)
  then have "p + 16 \<le> q" using layout_mono [of hs "p + 16 + unat n" bs q] by auto
  then show ?case using 2 by auto
qed simp

definition heap_layout :: "(uword \<times> uword) list \<Rightarrow> heap \<Rightarrow> bool" where
  "heap_layout bs h \<longleftrightarrow> good_heap h \<and> r_start (heap_new_zone h) = fromspace (heap_new_zone h) \<and>
     layout (zone_headers (heap_new_zone h)) (unat (fromspace (heap_new_zone h))) bs (heap_cursor h)"

lemma erase_other: "\<not> a - st < n \<Longrightarrow> erase st n hs a = hs a"
  by (simp add: erase_def)

lemma bump_headers: "zone_headers (bump n z) =
    (erase (r_current z) (sizeof_Pointer + n) (zone_headers z))(r_current z \<mapsto> new_Pointer n)"
  by (simp add: bump_def)

lemma heap_layout_step:
  assumes "heap_layout bs h" "TryAllocate n h = Inr (a, h')"
  shows "heap_layout (bs @ [(a, n)]) h'"
proof -
  have g: "good_heap h" using assms(1) by (simp add: heap_layout_def)
  note T = TryAllocate_Inr [OF g assms(2)]
  let ?z = "heap_new_zone h" and ?c = "heap_cursor h"
  have lim: "heap_limit h < 2 ^ 62" and lo: "unat (fromspace ?z) \<le> ?c"
    using g by (auto simp: good_heap_def good_zone_def heap_limit_def heap_cursor_def)
  have cur: "r_current ?z = of_nat ?c" by (simp add: heap_cursor_def)
  have other: "zone_headers (bump n ?z) (of_nat r) = zone_headers ?z (of_nat r)" if "r < ?c" for r
  proof -
    have big: "unat (of_nat r - r_current ?z) = 2 ^ 64 + r - ?c"
    proof -
      have "unat (of_nat r :: uword) = r"
        using that T(7,8) lim by (simp add: unat_of_nat)
      then show ?thesis
        using that by (simp add: unat_sub_if' heap_cursor_def)
    qed
    have "unat (sizeof_Pointer + n) = 16 + unat n"
      using T(3) by (subst unat_plus_small) (simp_all add: sizeof_Pointer_def)
    then have "\<not> of_nat r - r_current ?z < sizeof_Pointer + n"
      using big that T(3,7,8) lim by (simp add: word_less_nat_alt)
    then have er: "erase (r_current ?z) (sizeof_Pointer + n) (zone_headers ?z) (of_nat r) =
        zone_headers ?z (of_nat r)"
      by (rule erase_other)
    have "of_nat r \<noteq> r_current ?z"
    proof
      assume "of_nat r = r_current ?z"
      then have "unat (of_nat r - r_current ?z) = 0" by simp
      then have "2 ^ 64 + r - ?c = 0" using big by (simp only:)
      then show False using T(7,8) lim by simp
    qed
    then show ?thesis unfolding bump_headers fun_upd_apply by (simp only: if_False er)
  qed
  have "layout (zone_headers (bump n ?z)) (unat (fromspace ?z)) bs ?c"
  proof (rule layout_agree)
    show "layout (zone_headers ?z) (unat (fromspace ?z)) bs ?c"
      using assms(1) unfolding heap_layout_def by blast
  qed (rule other)
  moreover have "zone_headers (bump n ?z) (of_nat ?c) = Some (new_Pointer n)"
    by (simp add: bump_def cur)
  ultimately show ?thesis
    using T(3,5,6,7,9) assms(1) by (auto simp: heap_layout_def layout_snoc)
qed

lemma heap_layout_seq:
  "heap_layout bs h \<Longrightarrow> alloc_seq TryAllocate ns h = Inr (cs, h') \<Longrightarrow> heap_layout (bs @ cs) h'"
proof (induction ns arbitrary: bs h cs)
  case (Cons n ns)
  then obtain a h1 ds where 1: "TryAllocate n h = Inr (a, h1)" "alloc_seq TryAllocate ns h1 = Inr (ds, h')"
      and cs: "cs = (a, n) # ds"
    by (auto simp: rbind_eq_Inr)
  show ?case
    using Cons.IH [OF heap_layout_step [OF Cons.prems(1) 1(1)] 1(2)] cs by simp
qed simp

lemma GetTotalSize_new: "unat n < 2 ^ 32 \<Longrightarrow> GetTotalSize (new_Pointer n) = 16 + n"
  by (simp add: GetTotalSize_def GetObjectSize_def new_Pointer_def GetSize_New sizeof_Pointer_def)

lemma visit_loop_layout:
  assumes "layout hs p bs q" "q < 2 ^ 63" "length bs \<le> fuel"
  shows "visit_loop fuel (\<lambda>_. True) (\<lambda>_ _. True) (\<lambda>_. True) hs (of_nat p) (of_nat q) =
    Inr (map (\<lambda>(a, n). (a - 16, new_Pointer n)) bs, True)"
  using assms
proof (induction hs p bs q arbitrary: fuel rule: layout.induct)
  case (1 hs p q)
  then show ?case by (subst visit_loop.simps) simp
next
  case (2 hs p a n bs q)
  obtain k where k: "fuel = Suc k" "length bs \<le> k" using "2.prems"(3) by (cases fuel) auto
  have pq: "p + 16 + unat n \<le> q"
    using layout_mono [of hs "p + 16 + unat n" bs q] "2.prems"(1) by simp
  have u: "unat (of_nat p :: uword) = p" "unat (of_nat q :: uword) = q"
    using pq "2.prems"(2) by (simp_all add: unat_of_nat)
  have a: "a - 16 = of_nat p"
  proof -
    have "of_nat (unat a) = (of_nat (p + 16) :: uword)" using "2.prems"(1) by simp
    then have "a = of_nat p + 16" by simp
    then show ?thesis by simp
  qed
  have "of_nat p + GetTotalSize (new_Pointer n) = (of_nat (p + 16 + unat n) :: uword)"
    using "2.prems"(1) by (simp add: GetTotalSize_new)
  moreover have "visit_loop k (\<lambda>_. True) (\<lambda>_ _. True) (\<lambda>_. True) hs (of_nat (p + 16 + unat n)) (of_nat q) =
    Inr (map (\<lambda>(a, n). (a - 16, new_Pointer n)) bs, True)"
    using "2.IH" [of k] "2.prems" k by simp
  moreover have "(of_nat p :: uword) < of_nat q"
    using pq u by (simp add: word_less_nat_alt)
  ultimately show ?case
    using "2.prems"(1) k a by (subst visit_loop.simps) (simp add: add.assoc)
qed

lemma new_Heap_layout:
  assumes "new_Heap nm ns om os = Inr h" "0 < nm" "unat nm + unat ns < 2 ^ 62"
  shows "heap_layout [] h" "heap_cursor h = unat nm" "heap_limit h = unat nm + unat ns div 2"
    "good_heap h"
proof -
  have z: "heap_new_zone h = \<lparr>r_start = nm, r_size = ns, r_current = nm, fromspace = nm,
           tospace = nm + ns div 2, semi_size = ns div 2, zone_headers = Map.empty\<rparr>"
    using assms(1) by (auto simp: new_Heap_def new_NewZone_def CalcSemispaceSize_def res_elims)
  have d: "unat (ns div 2) = unat ns div 2" by (simp add: unat_div)
  have "0 < unat nm" using assms(2) by (simp add: unat_gt_0)
  then show "heap_cursor h = unat nm" "heap_limit h = unat nm + unat ns div 2" "good_heap h"
    using z d assms(3) by (simp_all add: heap_cursor_def heap_limit_def good_heap_def good_zone_def)
  then show "heap_layout [] h" using z by (simp add: heap_layout_def)
qed

text \<open>C8. Whatever sequence of allocations a fresh heap grants, the objects have the sizes asked
  for, lie one after another inside the from-space without overlapping, none at address 0,
  and walking the new zone's headers visits exactly these objects, in order, each header
  carrying the object's size and the new bit.\<close>

theorem heap_allocation_sound:
  assumes "new_Heap nm ns om os = Inr h" "0 < nm" "unat nm + unat ns < 2 ^ 62"
    and "alloc_seq TryAllocate sizes h = Inr (bs, h')"
  shows "sorted_wrt before bs \<and>
    (\<forall>x\<in>set bs. inside (unat nm) (unat nm + unat ns div 2) x) \<and>
    NewZone_VisitAllPointers (\<lambda>_ _. True) (heap_new_zone h') =
      Inr (map (\<lambda>(a, n). (a - 16, new_Pointer n)) bs, True)"
proof -
  note N = new_Heap_layout [OF assms(1-3)]
  have o: "good_heap h' \<and> heap_limit h' = heap_limit h \<and> heap_cursor h \<le> heap_cursor h' \<and>
    sorted_wrt before bs \<and> (\<forall>x\<in>set bs. inside (heap_cursor h) (heap_cursor h') x)"
    by (rule heap_bump.blocks_ordered [OF N(4) assms(4)])
  have b: "heap_cursor h' \<le> heap_limit h"
    using heap_bump.blocks_below_limit [OF N(4) _ assms(4)] N(2,3) by simp
  have l: "heap_layout bs h'" using heap_layout_seq [OF N(1) assms(4)] by simp
  have lim: "heap_limit h < 2 ^ 62" using N(3) assms(3) by linarith
  let ?z = "heap_new_zone h'"
  have lo: "unat (fromspace ?z) \<le> heap_cursor h'" and st: "r_start ?z = fromspace ?z"
    and lay: "layout (zone_headers ?z) (unat (fromspace ?z)) bs (heap_cursor h')"
    using l by (auto simp: heap_layout_def good_heap_def good_zone_def heap_cursor_def)
  have f: "unat (r_current ?z - r_start ?z) = heap_cursor h' - unat (fromspace ?z)"
    using lo by (simp add: st heap_cursor_def unat_sub word_le_nat_alt)
  have "length bs \<le> heap_cursor h' - unat (fromspace ?z)"
    using layout_mono [OF lay] by linarith
  then have "NewZone_VisitAllPointers (\<lambda>_ _. True) ?z =
      Inr (map (\<lambda>(a, n). (a - 16, new_Pointer n)) bs, True)"
    using visit_loop_layout [OF lay] b lim
    by (simp add: NewZone_VisitAllPointers_def walk_def f) (simp add: st heap_cursor_def)
  moreover have "inside (unat nm) (unat nm + unat ns div 2) x" if "x \<in> set bs" for x
    using o that b N(2,3) by (fastforce simp: inside_def)
  ultimately show ?thesis using o by blast
qed

definition total_bytes :: "uword list \<Rightarrow> nat" where
  "total_bytes sizes = (\<Sum>n\<leftarrow>sizes. 16 + unat n)"

lemma alloc_seq_succeeds_iff:
  assumes "good_heap h" "sizes \<noteq> []"
  shows "(\<exists>bs h'. alloc_seq TryAllocate sizes h = Inr (bs, h')) \<longleftrightarrow>
    (\<forall>n\<in>set sizes. 0 < n \<and> n < kLargeObjectSize) \<and> heap_cursor h + total_bytes sizes < heap_limit h"
  using assms
proof (induction sizes arbitrary: h)
  case (Cons n ns)
  show ?case
  proof (cases "0 < n \<and> n < kLargeObjectSize \<and> heap_cursor h + 16 + unat n < heap_limit h")
    case False
    then show ?thesis
      using TryAllocate_eq [OF Cons.prems(1), of n] by (auto simp: total_bytes_def word_gt_0)
  next
    case True
    then have "\<not> kLargeObjectSize \<le> n" "n \<noteq> 0" by auto
    then obtain a h1 where 1: "TryAllocate n h = Inr (a, h1)"
      using TryAllocate_eq [OF Cons.prems(1), of n] True by simp
    note T = TryAllocate_Inr [OF Cons.prems(1) 1]
    show ?thesis
    proof (cases "ns = []")
      case True
      then show ?thesis using 1 T by (simp add: total_bytes_def)
    next
      case False
      have "(\<exists>bs h'. alloc_seq TryAllocate (n # ns) h = Inr (bs, h')) \<longleftrightarrow>
          (\<exists>bs h'. alloc_seq TryAllocate ns h1 = Inr (bs, h'))"
        by (auto simp: 1 rbind_eq_Inr)
      then show ?thesis
        using Cons.IH [OF T(9) False] T by (simp add: total_bytes_def add.assoc)
    qed
  qed
qed simp

text \<open>C33. A fresh heap grants a sequence of allocations exactly when every size is between 1 and
  4095 bytes and the sizes with their 16-byte headers add up to less than half the new
  zone: an object of 4096 bytes or more always ends the process, since the old zone's free
  list never allocates and the major collection is not implemented.\<close>

theorem heap_allocation_succeeds_iff:
  assumes "new_Heap nm ns om os = Inr h" "0 < nm" "unat nm + unat ns < 2 ^ 62" "sizes \<noteq> []"
  shows "(\<exists>bs h'. alloc_seq TryAllocate sizes h = Inr (bs, h')) \<longleftrightarrow>
    (\<forall>n\<in>set sizes. 0 < n \<and> n < 4096) \<and> total_bytes sizes < unat ns div 2"
  using alloc_seq_succeeds_iff [OF new_Heap_layout(4) [OF assms(1-3)] assms(4)]
    new_Heap_layout(2,3) [OF assms(1-3)]
  by (simp add: kLargeObjectSize_def)

definition example_heap :: heap where
  "example_heap = (case new_Heap 65536 1024 131072 1024 of Inr h \<Rightarrow> h | Inl _ \<Rightarrow> undefined)"

lemma example_heap_eq: "new_Heap 65536 1024 131072 1024 = Inr example_heap"
  by (simp add: example_heap_def new_Heap_def new_NewZone_def CalcSemispaceSize_def IsPow2_def
      new_OldZone_def new_FreeList_def new_FreePointer_def)

theorem heap_allocation_succeeds_iff_witness:
  "(\<exists>bs h'. alloc_seq TryAllocate [24, 100] example_heap = Inr (bs, h')) \<and>
   \<not> (\<exists>bs h'. alloc_seq TryAllocate [24, 480] example_heap = Inr (bs, h'))"
  using heap_allocation_succeeds_iff [OF example_heap_eq, of "[24, 100]"]
    heap_allocation_succeeds_iff [OF example_heap_eq, of "[24, 480]"]
  by (simp add: total_bytes_def)

theorem heap_allocation_sound_witness:
  "\<exists>bs h'. alloc_seq TryAllocate [24, 100] example_heap = Inr (bs, h') \<and> sorted_wrt before bs \<and>
    (\<forall>x\<in>set bs. inside 65536 66048 x) \<and>
    NewZone_VisitAllPointers (\<lambda>_ _. True) (heap_new_zone h') =
      Inr (map (\<lambda>(a, n). (a - 16, new_Pointer n)) bs, True)"
proof -
  have "good_heap example_heap" "heap_cursor example_heap = 65536" "heap_limit example_heap = 66048"
    using new_Heap_layout [OF example_heap_eq] by simp_all
  then obtain bs h' where r: "alloc_seq TryAllocate [24, 100] example_heap = Inr (bs, h')"
    using alloc_seq_succeeds_iff [of example_heap "[24, 100]"]
    by (auto simp: total_bytes_def kLargeObjectSize_def)
  show ?thesis
    using heap_allocation_sound [OF example_heap_eq _ _ r] r by simp
qed

end
