(* ===== verification/Tries.thy ===== *)
theory Tries
  imports GelPrelude
begin

text \<open>
  The tries of \<open>gel/trie.h\<close> and \<open>gel/token.h\<close> (the keyword trie of the lexer and the
  symbol pool). A node has one child slot for each of the characters 0 to 126; the checked
  access \<open>children.at(c)\<close> throws for any other character. The abstract value of a trie is a
  partial map from strings, and the locale \<open>string_store\<close> states what its clients use.
\<close>

section \<open>Nodes\<close>

datatype 'v node = Node (epsilon: bool) (node_value: 'v) (children: "char \<Rightarrow> 'v node option")

definition kAlphabetSize :: nat where
  "kAlphabetSize = 127"

text \<open>The index is the character converted to an unsigned size: a negative \<open>char\<close> is out of
  range too.\<close>

definition in_alphabet :: "char \<Rightarrow> bool" where
  "in_alphabet c = ((of_char c :: nat) < kAlphabetSize)"

definition new_node :: "'v \<Rightarrow> 'v node" where
  "new_node dflt = Node False dflt (\<lambda>_. None)"

definition out_of_range :: failure where
  "out_of_range = CppException ''out_of_range''"

definition child_or_new :: "'v \<Rightarrow> (char \<Rightarrow> 'v node option) \<Rightarrow> char \<Rightarrow> 'v node" where
  "child_or_new dflt ch c = (case ch c of None \<Rightarrow> new_node dflt | Some n \<Rightarrow> n)"

section \<open>\<open>Insert\<close>, \<open>Search\<close> and \<open>SearchOrCreate\<close>\<close>

text \<open>\<open>dflt\<close> is the value of a fresh node (\<open>Value{}\<close>, \<open>kInvalid\<close>) and what a search that fails
  stores in its result.\<close>

fun trie_Insert :: "'v \<Rightarrow> string \<Rightarrow> 'v \<Rightarrow> 'v node \<Rightarrow> 'v node res" where
  "trie_Insert dflt [] v (Node e x ch) = Inr (Node True v ch)"
| "trie_Insert dflt (c # cs) v (Node e x ch) =
    guardr out_of_range (in_alphabet c)
      (rbind (trie_Insert dflt cs v (child_or_new dflt ch c))
        (\<lambda>n. Inr (Node e x (ch(c \<mapsto> n)))))"

fun trie_Search :: "'v \<Rightarrow> string \<Rightarrow> 'v node \<Rightarrow> (bool \<times> 'v) res" where
  "trie_Search dflt [] (Node e x ch) = (if e then Inr (True, x) else Inr (False, dflt))"
| "trie_Search dflt (c # cs) (Node e x ch) =
    guardr out_of_range (in_alphabet c)
      (case ch c of
         None \<Rightarrow> Inr (False, dflt)
       | Some n \<Rightarrow> trie_Search dflt cs n)"

text \<open>The supplier may change the state (it allocates a symbol); it is called with the whole
  key, at most once, after the nodes of the path exist.\<close>

fun trie_SearchOrCreate :: "'v \<Rightarrow> string \<Rightarrow> (unit \<Rightarrow> 's \<Rightarrow> ('v \<times> 's) res) \<Rightarrow> 'v node \<Rightarrow> 's \<Rightarrow>
    ('v \<times> 'v node \<times> 's) res" where
  "trie_SearchOrCreate dflt [] supplier (Node e x ch) s =
    (if \<not> e then rbind (supplier () s) (\<lambda>(v, s'). Inr (v, Node True v ch, s'))
     else Inr (x, Node e x ch, s))"
| "trie_SearchOrCreate dflt (c # cs) supplier (Node e x ch) s =
    guardr out_of_range (in_alphabet c)
      (rbind (trie_SearchOrCreate dflt cs supplier (child_or_new dflt ch c) s)
        (\<lambda>(v, n, s'). Inr (v, Node e x (ch(c \<mapsto> n)), s')))"

section \<open>The abstract value: a partial map\<close>

fun contents :: "'v node \<Rightarrow> string \<Rightarrow> 'v option" where
  "contents (Node e x ch) [] = (if e then Some x else None)"
| "contents (Node e x ch) (c # cs) = (case ch c of None \<Rightarrow> None | Some n \<Rightarrow> contents n cs)"

lemma contents_new [simp]: "contents (new_node d) k = None"
  by (cases k) (simp_all add: new_node_def)

lemma contents_child_or_new:
  "contents (child_or_new d ch c) k = (case ch c of None \<Rightarrow> None | Some n \<Rightarrow> contents n k)"
  by (simp add: child_or_new_def split: option.split)

lemma contents_Node_upd:
  "contents (Node e x (ch(c \<mapsto> n))) k =
    (case k of [] \<Rightarrow> (if e then Some x else None)
     | d # ds \<Rightarrow> if d = c then contents n ds else contents (Node e x ch) k)"
  by (cases k) simp_all

lemma trie_Insert_contents:
  assumes "\<forall>c\<in>set key. in_alphabet c"
  shows "\<exists>t'. trie_Insert d key v t = Inr t' \<and> contents t' = (contents t)(key \<mapsto> v)"
  using assms
proof (induction d key v t rule: trie_Insert.induct)
  case (1 d v e x ch)
  have "contents (Node True v ch) = (contents (Node e x ch))([] \<mapsto> v)"
    by (rule ext, case_tac xa) simp_all
  then show ?case by (auto simp del: fun_upd_apply)
next
  case (2 d c cs v e x ch)
  then obtain n where n: "trie_Insert d cs v (child_or_new d ch c) = Inr n"
      "contents n = (contents (child_or_new d ch c))(cs \<mapsto> v)"
    by (auto simp del: fun_upd_apply)
  have "contents (Node e x (ch(c \<mapsto> n))) = (contents (Node e x ch))(c # cs \<mapsto> v)"
    by (rule ext) (auto simp: contents_Node_upd n(2) contents_child_or_new split: list.split option.split)
  then show ?case using n(1) 2 by (auto simp del: fun_upd_apply)
qed

lemma trie_Insert_bad: "\<exists>c\<in>set key. \<not> in_alphabet c \<Longrightarrow> trie_Insert d key v t = Inl out_of_range"
  by (induction d key v t rule: trie_Insert.induct) (auto simp: guardr_def)

lemma trie_Search_contents:
  "\<forall>c\<in>set key. in_alphabet c \<Longrightarrow>
    trie_Search d key t = Inr (case contents t key of None \<Rightarrow> (False, d) | Some v \<Rightarrow> (True, v))"
  by (induction d key t rule: trie_Search.induct) (auto split: option.split)

lemma trie_SearchOrCreate_hit:
  "\<forall>c\<in>set key. in_alphabet c \<Longrightarrow> contents t key = Some v \<Longrightarrow>
    \<exists>t'. trie_SearchOrCreate d key f t s = Inr (v, t', s) \<and> contents t' = contents t"
proof (induction key arbitrary: t)
  case Nil
  then show ?case by (cases t) (auto split: if_splits)
next
  case (Cons c cs)
  obtain e x ch where t: "t = Node e x ch" by (cases t)
  obtain n where n: "ch c = Some n" "contents n cs = Some v"
    using Cons.prems(2) by (auto simp: t split: option.splits)
  obtain n' where n': "trie_SearchOrCreate d cs f n s = Inr (v, n', s)" "contents n' = contents n"
    using Cons.IH [OF _ n(2)] Cons.prems(1) by auto
  have "contents (Node e x (ch(c \<mapsto> n'))) = contents (Node e x ch)"
    by (rule ext) (auto simp: contents_Node_upd n' n(1) split: list.split)
  then show ?case using n n' Cons.prems(1) by (simp add: t child_or_new_def)
qed

lemma trie_SearchOrCreate_miss:
  "\<forall>c\<in>set key. in_alphabet c \<Longrightarrow> contents t key = None \<Longrightarrow> f () s = Inr (v, s') \<Longrightarrow>
    \<exists>t'. trie_SearchOrCreate d key f t s = Inr (v, t', s') \<and> contents t' = (contents t)(key \<mapsto> v)"
proof (induction key arbitrary: t)
  case Nil
  obtain e x ch where t: "t = Node e x ch" by (cases t)
  have "contents (Node True v ch) = (contents (Node e x ch))([] \<mapsto> v)"
    by (rule ext, case_tac xa) simp_all
  then show ?case using Nil by (auto simp: t simp del: fun_upd_apply split: if_splits)
next
  case (Cons c cs)
  obtain e x ch where t: "t = Node e x ch" by (cases t)
  have "contents (child_or_new d ch c) cs = None"
    using Cons.prems(2) by (auto simp: t contents_child_or_new split: option.splits)
  then obtain n where n: "trie_SearchOrCreate d cs f (child_or_new d ch c) s = Inr (v, n, s')"
      "contents n = (contents (child_or_new d ch c))(cs \<mapsto> v)"
    using Cons by force
  have "contents (Node e x (ch(c \<mapsto> n))) = (contents (Node e x ch))(c # cs \<mapsto> v)"
    by (rule ext) (auto simp: contents_Node_upd n(2) contents_child_or_new split: list.split option.split)
  then show ?case using n(1) Cons.prems(1) by (auto simp: t simp del: fun_upd_apply)
qed

lemma trie_SearchOrCreate_error:
  "f () s = Inl e \<Longrightarrow> contents t key = None \<Longrightarrow> \<forall>c\<in>set key. in_alphabet c \<Longrightarrow>
    trie_SearchOrCreate d key f t s = Inl e"
proof (induction key arbitrary: t)
  case Nil
  then show ?case by (cases t) (auto split: if_splits)
next
  case (Cons c cs)
  obtain e' x ch where t: "t = Node e' x ch" by (cases t)
  have "contents (child_or_new d ch c) cs = None"
    using Cons.prems(2) by (auto simp: t contents_child_or_new split: option.splits)
  then show ?case using Cons by (simp add: t)
qed

section \<open>The interface of a string store\<close>

locale string_store =
  fixes insert_fn :: "string \<Rightarrow> 'v \<Rightarrow> 't \<Rightarrow> 't res"
    and look :: "'t \<Rightarrow> string \<Rightarrow> 'v option"
    and key_ok :: "string \<Rightarrow> bool"
  assumes insert_ok: "key_ok k \<Longrightarrow> \<exists>t'. insert_fn k v t = Inr t' \<and> look t' = (look t)(k \<mapsto> v)"
    and insert_bad: "\<not> key_ok k \<Longrightarrow> \<exists>e. insert_fn k v t = Inl e"
begin

fun insert_all :: "(string \<times> 'v) list \<Rightarrow> 't \<Rightarrow> 't res" where
  "insert_all [] t = Inr t"
| "insert_all ((k, v) # kvs) t = rbind (insert_fn k v t) (insert_all kvs)"

lemma insert_all_look:
  assumes "\<forall>k\<in>fst ` set kvs. key_ok k"
  shows "\<exists>t'. insert_all kvs t = Inr t' \<and> look t' = look t ++ map_of (rev kvs)"
  using assms
proof (induction kvs arbitrary: t)
  case (Cons kv kvs)
  obtain k v where kv: "kv = (k, v)" by (cases kv)
  obtain t1 where t1: "insert_fn k v t = Inr t1" "look t1 = (look t)(k \<mapsto> v)"
    using insert_ok [of k v t] Cons.prems kv by auto
  obtain t2 where t2: "insert_all kvs t1 = Inr t2" "look t2 = look t1 ++ map_of (rev kvs)"
    using Cons.IH [of t1] Cons.prems by auto
  have "(look t)(k \<mapsto> v) ++ map_of (rev kvs) = look t ++ map_of (rev kvs @ [(k, v)])"
    by (rule ext) (simp add: map_add_def split: option.split)
  then show ?case using t1 t2 kv by simp
qed simp

end

definition key_in_alphabet :: "string \<Rightarrow> bool" where
  "key_in_alphabet k = (\<forall>c\<in>set k. in_alphabet c)"

interpretation trie_store: string_store "trie_Insert d" contents key_in_alphabet for d
  by unfold_locales
     (use trie_Insert_contents trie_Insert_bad in \<open>fastforce simp: key_in_alphabet_def\<close>)+

lemma in_alphabet_iff: "in_alphabet c \<longleftrightarrow> of_char c < (127 :: nat)"
  by (simp add: in_alphabet_def kAlphabetSize_def)

lemma trie_SearchOrCreate_bad:
  "\<exists>c\<in>set key. \<not> in_alphabet c \<Longrightarrow> trie_SearchOrCreate d key f t s = Inl out_of_range"
  by (induction d key f t s rule: trie_SearchOrCreate.induct) (auto simp: guardr_def)

lemma trie_Search_bad:
  "\<exists>c\<in>set key. \<not> in_alphabet c \<Longrightarrow> trie_Search d key t = Inl out_of_range \<or> trie_Search d key t = Inr (False, d)"
  by (induction d key t rule: trie_Search.induct) (auto simp: guardr_def split: option.split)

text \<open>C12. A trie is a finite map from the strings over the first 127 characters, 0 to 126: inserting
  such a key succeeds and updates the map at that key only, and searching such a key returns what
  the map holds, or the default when it holds nothing. Every other key, with a character 127 or
  above anywhere in it, makes \<open>Insert\<close> and \<open>SearchOrCreate\<close> throw, the latter before it asks for a
  value; a search for it throws or finds nothing.\<close>

theorem trie_refines_map:
  assumes "\<forall>c\<in>set key. of_char c < (127 :: nat)" "\<forall>c\<in>set key'. of_char c < (127 :: nat)"
    and "\<exists>c\<in>set other. (127 :: nat) \<le> of_char c"
  shows "(\<exists>t'. trie_Insert d key v t = Inr t' \<and> contents t' = (contents t)(key \<mapsto> v) \<and>
      trie_Search d key' t' = Inr (if key' = key then (True, v)
        else case contents t key' of None \<Rightarrow> (False, d) | Some w \<Rightarrow> (True, w))) \<and>
    trie_Insert d other v t = Inl out_of_range \<and>
    trie_SearchOrCreate d other f t s = Inl out_of_range \<and>
    (trie_Search d other t = Inl out_of_range \<or> trie_Search d other t = Inr (False, d))"
proof -
  have k: "\<forall>c\<in>set key. in_alphabet c" "\<forall>c\<in>set key'. in_alphabet c"
    using assms(1,2) by (simp_all add: in_alphabet_iff)
  obtain t' where t': "trie_Insert d key v t = Inr t'" "contents t' = (contents t)(key \<mapsto> v)"
    using trie_Insert_contents [OF k(1), of d v t] by blast
  have o: "\<exists>c\<in>set other. \<not> in_alphabet c"
    using assms(3) by (auto simp: in_alphabet_iff not_less)
  have "\<exists>t'. trie_Insert d key v t = Inr t' \<and> contents t' = (contents t)(key \<mapsto> v) \<and>
      trie_Search d key' t' = Inr (if key' = key then (True, v)
        else case contents t key' of None \<Rightarrow> (False, d) | Some w \<Rightarrow> (True, w))"
    using t' trie_Search_contents [OF k(2), of d t'] by auto
  then show ?thesis
    using trie_Insert_bad [OF o, of d v t] trie_SearchOrCreate_bad [OF o, of d f t s] trie_Search_bad [OF o, of d t]
    by blast
qed

theorem trie_refines_map_witness:
  "(\<exists>t'. trie_Insert 0 ''let'' (7 :: nat) (new_node 0) = Inr t' \<and>
      contents t' = (contents (new_node (0 :: nat)))(''let'' \<mapsto> 7) \<and> trie_Search 0 ''le'' t' = Inr (False, 0)) \<and>
    trie_Insert 0 [CHR ''l'', CHR 0x7F] (7 :: nat) (new_node 0) = Inl out_of_range"
  using trie_refines_map [of "''let''" "''le''" "[CHR ''l'', CHR 0x7F]" "0 :: nat" 7 "new_node 0"
      "\<lambda>u s. Inr (7, s)" "()"]
  by simp

end
