(* ===== verification/Symbols.thy ===== *)
theory Symbols
  imports Tries
begin

text \<open>
  Symbols (\<open>gel/symbol.h\<close>, \<open>gel/symbol.cc\<close>): a namespace, a type and a name, written
  \<open>ns/type:name\<close> with the empty parts left out; building a symbol from such text, equality,
  and the pool that interns symbols, a trie from the text to the symbol's object. What an
  interned symbol is (an address in the heap) is left to the theory that uses the pool.
\<close>

section \<open>Strings\<close>

text \<open>\<open>std::string::find_last_of\<close> for one character and \<open>std::string::substr\<close>, which throws when
  the position is past the end and clips the count.\<close>

fun find_last_from :: "nat \<Rightarrow> char \<Rightarrow> string \<Rightarrow> nat option" where
  "find_last_from i c [] = None"
| "find_last_from i c (x # xs) =
    (case find_last_from (i + 1) c xs of
       Some j \<Rightarrow> Some j
     | None \<Rightarrow> if x = c then Some i else None)"

definition find_last_of :: "char \<Rightarrow> string \<Rightarrow> nat option" where
  "find_last_of c s = find_last_from 0 c s"

definition substr :: "string \<Rightarrow> nat \<Rightarrow> nat \<Rightarrow> string res" where
  "substr s pos count = guardr out_of_range (pos \<le> length s) (Inr (take count (drop pos s)))"

definition substr_from :: "string \<Rightarrow> nat \<Rightarrow> string res" where
  "substr_from s pos = guardr out_of_range (pos \<le> length s) (Inr (drop pos s))"

section \<open>\<open>class Symbol\<close>\<close>

record symbol =
  sym_ns :: string
  sym_type :: string
  sym_name :: string

definition new_Symbol :: "string \<Rightarrow> string \<Rightarrow> string \<Rightarrow> symbol res" where
  "new_Symbol ns ty name =
    asserting (name \<noteq> []) (Inr \<lparr>sym_ns = ns, sym_type = ty, sym_name = name\<rparr>)"

definition HasNamespace :: "symbol \<Rightarrow> bool" where
  "HasNamespace s = (sym_ns s \<noteq> [])"

definition HasSymbolType :: "symbol \<Rightarrow> bool" where
  "HasSymbolType s = (sym_type s \<noteq> [])"

definition GetFullyQualifiedName :: "symbol \<Rightarrow> string" where
  "GetFullyQualifiedName s =
    (if HasNamespace s then
       (if HasSymbolType s then sym_ns s @ ''/'' @ sym_type s @ '':'' @ sym_name s
        else sym_ns s @ ''/'' @ sym_name s)
     else if HasSymbolType s then sym_type s @ '':'' @ sym_name s
     else sym_name s)"

text \<open>The three parts as \<open>NewInternal\<close> and \<open>New(const std::string&)\<close> take the text apart. The
  second argument of the second \<open>substr\<close> is the position of the colon, where a length is
  expected.\<close>

definition symbol_parts :: "string \<Rightarrow> (string \<times> string \<times> string) res" where
  "symbol_parts rhs =
    (let slashpos = find_last_of (CHR ''/'') rhs in
     rbind (case slashpos of Some p \<Rightarrow> substr rhs 0 p | None \<Rightarrow> Inr []) (\<lambda>ns.
     let colonpos = find_last_of (CHR '':'') rhs;
         from = (if ns = [] then 0 else length ns + 1) in
     rbind (case colonpos of Some q \<Rightarrow> substr rhs from q | None \<Rightarrow> Inr []) (\<lambda>ty.
     rbind (substr_from rhs (from + (if ty = [] then 0 else length ty + 1))) (\<lambda>name.
       Inr (ns, ty, name)))))"

definition NewInternal :: "string \<Rightarrow> symbol res" where
  "NewInternal rhs = rbind (symbol_parts rhs) (\<lambda>(ns, ty, name). new_Symbol ns ty name)"

definition Symbol_Equals_string :: "symbol \<Rightarrow> string \<Rightarrow> bool res" where
  "Symbol_Equals_string s rhs = asserting (rhs \<noteq> []) (Inr (GetFullyQualifiedName s = rhs))"

text \<open>Equality of two symbols, once the argument is known to be one.\<close>

definition Symbol_Equals :: "symbol \<Rightarrow> symbol \<Rightarrow> bool" where
  "Symbol_Equals s t =
    (if (HasNamespace s \<and> \<not> HasNamespace t) \<or> (\<not> HasNamespace s \<and> HasNamespace t) \<or>
        sym_ns s \<noteq> sym_ns t
     then False
     else sym_name s = sym_name t)"

definition Symbol_Comparator :: "symbol \<Rightarrow> symbol \<Rightarrow> bool" where
  "Symbol_Comparator s t = (if sym_ns s \<noteq> sym_ns t then False else sym_name s = sym_name t)"

text \<open>The text \<open>New(ns, type, name)\<close> builds before it consults the pool.\<close>

definition symbol_text :: "string \<Rightarrow> string \<Rightarrow> string \<Rightarrow> string" where
  "symbol_text ns ty name =
    (if ns \<noteq> [] then ns @ ''/'' else []) @ (if ty \<noteq> [] then ty @ '':'' else []) @ name"

section \<open>The pool\<close>

record pool =
  pool_trie :: "uword node"
  pool_size :: uword

definition empty_pool :: pool where
  "empty_pool = \<lparr>pool_trie = new_node 0, pool_size = 0\<rparr>"

definition kSymbolPoolMaxSize :: uword where
  "kSymbolPoolMaxSize = 65535"

text \<open>\<open>Symbol::New(ns, type, name)\<close>: \<open>alloc\<close> puts a symbol into the heap. The counter is
  incremented whether the symbol was in the pool or not.\<close>

definition pool_New :: "(symbol \<Rightarrow> 's \<Rightarrow> (uword \<times> 's) res) \<Rightarrow> string \<Rightarrow> string \<Rightarrow> string \<Rightarrow>
    pool \<Rightarrow> 's \<Rightarrow> (uword \<times> pool \<times> 's) res" where
  "pool_New alloc ns ty name p st =
    asserting (name \<noteq> [])
      (let text = symbol_text ns ty name;
           supplier = (\<lambda>_ st. rbind (NewInternal text) (\<lambda>s. alloc s st)) in
       if pool_size p + 1 \<le> kSymbolPoolMaxSize then
         rbind (trie_SearchOrCreate 0 text supplier (pool_trie p) st) (\<lambda>(a, t, st').
           asserting (a \<noteq> 0) (Inr (a, \<lparr>pool_trie = t, pool_size = pool_size p + 1\<rparr>, st')))
       else rbind (supplier () st) (\<lambda>(a, st'). Inr (a, p, st')))"

definition pool_New_text :: "(symbol \<Rightarrow> 's \<Rightarrow> (uword \<times> 's) res) \<Rightarrow> string \<Rightarrow>
    pool \<Rightarrow> 's \<Rightarrow> (uword \<times> pool \<times> 's) res" where
  "pool_New_text alloc rhs p st =
    rbind (symbol_parts rhs) (\<lambda>(ns, ty, name). pool_New alloc ns ty name p st)"

section \<open>Reading a symbol's text back\<close>

lemma find_last_from_None: "find_last_from i c s = None \<longleftrightarrow> c \<notin> set s"
  by (induction i c s rule: find_last_from.induct) (auto split: option.splits)

lemma find_last_from_append:
  "c \<notin> set t \<Longrightarrow> find_last_from i c (s @ c # t) = Some (i + length s)"
proof (induction s arbitrary: i)
  case Nil
  then show ?case using find_last_from_None [of "i + 1" c t] by simp
qed simp

lemma find_last_of_None: "c \<notin> set s \<Longrightarrow> find_last_of c s = None"
  by (simp add: find_last_of_def find_last_from_None)

lemma find_last_of_append: "c \<notin> set t \<Longrightarrow> find_last_of c (s @ c # t) = Some (length s)"
  by (simp add: find_last_of_def find_last_from_append)

lemma symbol_text_FullyQualifiedName:
  "symbol_text (sym_ns s) (sym_type s) (sym_name s) = GetFullyQualifiedName s"
  by (simp add: symbol_text_def GetFullyQualifiedName_def HasNamespace_def HasSymbolType_def)

lemma symbol_parts_plain:
  "CHR ''/'' \<notin> set name \<Longrightarrow> CHR '':'' \<notin> set name \<Longrightarrow> symbol_parts name = Inr ([], [], name)"
  by (simp add: symbol_parts_def find_last_of_None substr_from_def)

lemma symbol_parts_ns:
  assumes "ns \<noteq> []" "CHR ''/'' \<notin> set name" "CHR '':'' \<notin> set (ns @ name)"
  shows "symbol_parts (ns @ CHR ''/'' # name) = Inr (ns, [], name)"
  using assms find_last_of_append [of "CHR ''/''" name ns]
    find_last_of_None [of "CHR '':''" "ns @ CHR ''/'' # name"]
  by (simp add: symbol_parts_def substr_def substr_from_def)

lemma symbol_parts_type:
  assumes "ty \<noteq> []" "CHR ''/'' \<notin> set (ty @ name)" "CHR '':'' \<notin> set name"
  shows "symbol_parts (ty @ CHR '':'' # name) = Inr ([], ty, name)"
  using assms find_last_of_append [of "CHR '':''" name ty]
    find_last_of_None [of "CHR ''/''" "ty @ CHR '':'' # name"]
  by (simp add: symbol_parts_def substr_def substr_from_def)

lemma symbol_parts_ns_type:
  assumes "ns \<noteq> []" "ty \<noteq> []" "CHR ''/'' \<notin> set (ty @ name)" "CHR '':'' \<notin> set name"
  shows "symbol_parts (ns @ CHR ''/'' # ty @ CHR '':'' # name) =
    (if length name \<le> length ns then Inl out_of_range
     else Inr (ns, ty @ CHR '':'' # take (length ns) name, drop (length ns + 1) name))"
proof -
  let ?t = "ns @ CHR ''/'' # ty @ CHR '':'' # name"
  have slash: "find_last_of (CHR ''/'') ?t = Some (length ns)"
    by (rule find_last_of_append) (use assms in simp)
  have colon: "find_last_of (CHR '':'') ?t = Some (length ns + 1 + length ty)"
    using assms find_last_of_append [of "CHR '':''" name "ns @ CHR ''/'' # ty"] by simp
  have ty: "substr ?t (length ns + 1) (length ns + 1 + length ty) =
      Inr (ty @ CHR '':'' # take (length ns) name)"
    by (simp add: substr_def)
  have name: "drop (length ns + length ty + 2 + k) ?t = drop k name" for k
  proof -
    have "?t = (ns @ CHR ''/'' # ty @ [CHR '':'']) @ name" by simp
    moreover have "length (ns @ CHR ''/'' # ty @ [CHR '':'']) = length ns + length ty + 2" by simp
    ultimately show ?thesis by (simp only: drop_append) simp
  qed
  have rest: "substr_from ?t (length ns + 1 + (length (ty @ CHR '':'' # take (length ns) name) + 1)) =
      (if length name \<le> length ns then Inl out_of_range else Inr (drop (length ns + 1) name))"
    using name [of "length ns + 1"]
    by (auto simp: substr_from_def guardr_def min_def add.commute add.left_commute)
  show ?thesis
    using assms(1) ty rest
    by (cases "length name \<le> length ns"; simp add: symbol_parts_def slash colon)
       (simp_all add: substr_def min_def)
qed

text \<open>C34. A symbol with a namespace only, a type only or neither is read back from its
  fully qualified name, if the parts do not contain the separators; a symbol with both
  never is: the position of the colon is used as a length, so reading its name throws when the
  name is no longer than the namespace, and otherwise drops characters of the name (all of
  it when it is one character longer, which fails the constructor's assertion).\<close>

theorem symbol_text_roundtrip:
  assumes "sym_name s \<noteq> []" "CHR ''/'' \<notin> set (sym_type s @ sym_name s)"
    "CHR '':'' \<notin> set (sym_ns s @ sym_name s)"
  shows "NewInternal (GetFullyQualifiedName s) =
    (if sym_ns s = [] \<or> sym_type s = [] then Inr s
     else if length (sym_name s) \<le> length (sym_ns s) then Inl out_of_range
     else if length (sym_name s) = length (sym_ns s) + 1 then Inl AssertFailed
     else Inr \<lparr>sym_ns = sym_ns s, sym_type = sym_type s @ CHR '':'' # take (length (sym_ns s)) (sym_name s),
            sym_name = drop (length (sym_ns s) + 1) (sym_name s)\<rparr>)"
proof -
  obtain ns ty name where s: "s = \<lparr>sym_ns = ns, sym_type = ty, sym_name = name\<rparr>" by (cases s)
  show ?thesis
    using assms
    by (cases "ns = []"; cases "ty = []")
       (auto simp: s NewInternal_def GetFullyQualifiedName_def HasNamespace_def HasSymbolType_def
          symbol_parts_plain symbol_parts_ns symbol_parts_type symbol_parts_ns_type new_Symbol_def
          guardr_def)
qed

theorem symbol_text_roundtrip_witness:
  "NewInternal ''gel/map'' = Inr \<lparr>sym_ns = ''gel'', sym_type = '''', sym_name = ''map''\<rparr> \<and>
   NewInternal ''Long:abs'' = Inr \<lparr>sym_ns = '''', sym_type = ''Long'', sym_name = ''abs''\<rparr> \<and>
   NewInternal ''gel/Long:abs'' = Inl out_of_range \<and>
   NewInternal ''gel/Long:plus'' = Inl AssertFailed \<and>
   NewInternal ''gel/Long:modulus'' = Inr \<lparr>sym_ns = ''gel'', sym_type = ''Long:mod'', sym_name = ''lus''\<rparr>"
  using symbol_text_roundtrip [of "\<lparr>sym_ns = ''gel'', sym_type = '''', sym_name = ''map''\<rparr>"]
    symbol_text_roundtrip [of "\<lparr>sym_ns = '''', sym_type = ''Long'', sym_name = ''abs''\<rparr>"]
    symbol_text_roundtrip [of "\<lparr>sym_ns = ''gel'', sym_type = ''Long'', sym_name = ''abs''\<rparr>"]
    symbol_text_roundtrip [of "\<lparr>sym_ns = ''gel'', sym_type = ''Long'', sym_name = ''plus''\<rparr>"]
    symbol_text_roundtrip [of "\<lparr>sym_ns = ''gel'', sym_type = ''Long'', sym_name = ''modulus''\<rparr>"]
  by (simp add: GetFullyQualifiedName_def HasNamespace_def HasSymbolType_def)

lemma Symbol_Equals_iff: "Symbol_Equals s t \<longleftrightarrow> sym_ns s = sym_ns t \<and> sym_name s = sym_name t"
  by (auto simp: Symbol_Equals_def HasNamespace_def)

lemma Symbol_Comparator_Equals: "Symbol_Comparator = Symbol_Equals"
  by (auto simp: fun_eq_iff Symbol_Comparator_def Symbol_Equals_iff)

section \<open>Interning\<close>

text \<open>While the pool has room, making a symbol a second time from the same parts gives the
  same object without allocating, and does not change what the pool holds for any other
  text; but every request, hit or miss, counts towards the pool's size, so that a pool of
  65535 slots stops interning after 65535 requests even for a single symbol.\<close>

theorem pool_interns:
  assumes first: "pool_New alloc ns ty name p st = Inr (a, p1, st1)"
    and ascii: "\<forall>c\<in>set (symbol_text ns ty name). in_alphabet c"
    and room: "pool_size p < 65534"
  shows "\<exists>p2. pool_New alloc ns ty name p1 st1 = Inr (a, p2, st1) \<and>
    pool_size p2 = pool_size p + 2 \<and>
    contents (pool_trie p2) (symbol_text ns ty name) = Some a \<and>
    (\<forall>k. k \<noteq> symbol_text ns ty name \<longrightarrow> contents (pool_trie p2) k = contents (pool_trie p) k)"
proof -
  let ?t = "symbol_text ns ty name"
  let ?f = "\<lambda>_ :: unit. \<lambda>st. rbind (NewInternal ?t) (\<lambda>s. alloc s st)"
  have u: "unat (pool_size p) < 65534" using room by (simp add: word_less_nat_alt)
  have s1: "unat (pool_size p + 1) = unat (pool_size p) + 1"
    "unat (pool_size p + 1 + 1) = unat (pool_size p) + 2"
    using u by (simp_all add: unat_word_ariths)
  have le: "pool_size p + 1 \<le> kSymbolPoolMaxSize" "pool_size p + 1 + 1 \<le> kSymbolPoolMaxSize"
    using u s1 by (simp_all add: kSymbolPoolMaxSize_def word_le_nat_alt)
  have name: "name \<noteq> []" using first by (auto simp: pool_New_def guardr_eq_Inr)
  from first name le(1) obtain t where t:
    "trie_SearchOrCreate 0 ?t ?f (pool_trie p) st = Inr (a, t, st1)" and a: "a \<noteq> 0"
    and p1: "p1 = \<lparr>pool_trie = t, pool_size = pool_size p + 1\<rparr>"
    by (auto simp: pool_New_def Let_def res_elims split: prod.splits)
  have c: "contents t = (contents (pool_trie p))(?t \<mapsto> a)"
  proof (cases "contents (pool_trie p) ?t")
    case (Some v)
    then have "a = v" "contents t = contents (pool_trie p)"
      using trie_SearchOrCreate_hit [OF ascii Some, of 0 ?f st] t by auto
    then show ?thesis using Some by (auto simp: fun_eq_iff)
  next
    case None
    show ?thesis
    proof (cases "?f () st")
      case (Inr r)
      then obtain v st' where "?f () st = Inr (v, st')" by (cases r) auto
      then show ?thesis using trie_SearchOrCreate_miss [OF ascii None, of ?f st v st' 0] t by auto
    next
      case (Inl e)
      then show ?thesis using trie_SearchOrCreate_error [of ?f st e "pool_trie p" ?t 0] None ascii t by simp
    qed
  qed
  then have hit: "contents t ?t = Some a" by simp
  obtain t2 where t2: "trie_SearchOrCreate 0 ?t ?f t st1 = Inr (a, t2, st1)" "contents t2 = contents t"
    using trie_SearchOrCreate_hit [OF ascii hit, of 0 ?f st1] by blast
  then have "pool_New alloc ns ty name p1 st1 =
      Inr (a, \<lparr>pool_trie = t2, pool_size = pool_size p + 1 + 1\<rparr>, st1)"
    using name le(2) a by (simp add: pool_New_def p1)
  then show ?thesis using t2 c by simp
qed

definition example_alloc :: "symbol \<Rightarrow> uword \<Rightarrow> (uword \<times> uword) res" where
  "example_alloc s n = Inr (n, n + 64)"

theorem pool_interns_witness:
  "\<exists>p1 p2. pool_New example_alloc ''gel'' '''' ''map'' empty_pool 4096 = Inr (4096, p1, 4160) \<and>
    pool_New example_alloc ''gel'' '''' ''map'' p1 4160 = Inr (4096, p2, 4160) \<and> pool_size p2 = 2"
proof -
  have 1: "\<exists>p1. pool_New example_alloc ''gel'' '''' ''map'' empty_pool 4096 = Inr (4096, p1, 4160)"
    using symbol_text_roundtrip [of "\<lparr>sym_ns = ''gel'', sym_type = '''', sym_name = ''map''\<rparr>"]
    by (simp add: pool_New_def empty_pool_def kSymbolPoolMaxSize_def symbol_text_def new_node_def
        in_alphabet_def kAlphabetSize_def child_or_new_def example_alloc_def
        GetFullyQualifiedName_def HasNamespace_def HasSymbolType_def)
  then obtain p1 where p1: "pool_New example_alloc ''gel'' '''' ''map'' empty_pool 4096 = Inr (4096, p1, 4160)"
    by blast
  show ?thesis
    using pool_interns [OF p1] p1
    by (auto simp: symbol_text_def in_alphabet_def kAlphabetSize_def empty_pool_def)
qed

end
