(* ===== verification/Scopes.thy ===== *)
theory Scopes
  imports GelPrelude
begin

text \<open>
  Local variables and scopes (\<open>gel/local.h\<close>, \<open>gel/local.cc\<close>, \<open>gel/local_scope.h\<close>,
  \<open>gel/local_scope.cc\<close>). Both are C++ objects that are shared by pointer: a variable can
  be in several scopes (\<open>Union\<close>), a scope is the parent of others. The state therefore is a
  store of scopes and of variables, each known by a number; \<open>None\<close> is the null pointer. A
  symbol argument is given by its fully qualified name, which is all these functions read.
\<close>

section \<open>The store\<close>

record local_var =
  lv_owner :: "nat option"
  lv_index :: uword
  lv_name :: string
  lv_ptr :: uword  \<comment> \<open>\<open>value_\<close>: the object's header, or null\<close>

record scope =
  sc_parent :: "nat option"
  sc_locals :: "nat list"

record scopes =
  sc_map :: "nat \<rightharpoonup> scope"
  sc_next :: nat
  lv_map :: "nat \<rightharpoonup> local_var"
  lv_next :: nat

definition empty_scopes :: scopes where
  "empty_scopes = \<lparr>sc_map = Map.empty, sc_next = 0, lv_map = Map.empty, lv_next = 0\<rparr>"

definition get_scope :: "scopes \<Rightarrow> nat \<Rightarrow> scope res" where
  "get_scope st i = (case sc_map st i of None \<Rightarrow> Inl UndefinedBehaviour | Some s \<Rightarrow> Inr s)"

definition get_local :: "scopes \<Rightarrow> nat \<Rightarrow> local_var res" where
  "get_local st l = (case lv_map st l of None \<Rightarrow> Inl UndefinedBehaviour | Some v \<Rightarrow> Inr v)"

definition upd_local :: "nat \<Rightarrow> local_var \<Rightarrow> scopes \<Rightarrow> scopes" where
  "upd_local l v st = st\<lparr>lv_map := (lv_map st)(l \<mapsto> v)\<rparr>"

section \<open>\<open>class LocalVariable\<close>\<close>

definition header_size :: uword where
  "header_size = 16"

definition GetValue :: "local_var \<Rightarrow> uword" where
  "GetValue v = (if lv_ptr v \<noteq> 0 then lv_ptr v + header_size else 0)"

definition HasValue :: "local_var \<Rightarrow> bool" where
  "HasValue v = (GetValue v \<noteq> 0)"

definition SetValue :: "uword \<Rightarrow> local_var \<Rightarrow> local_var res" where
  "SetValue rhs v = asserting (rhs \<noteq> 0) (Inr (v\<lparr>lv_ptr := rhs - header_size\<rparr>))"

definition new_LocalVariable :: "nat option \<Rightarrow> uword \<Rightarrow> string \<Rightarrow> uword \<Rightarrow> scopes \<Rightarrow> (nat \<times> scopes) res" where
  "new_LocalVariable owner index name value st =
    rbind (let v = \<lparr>lv_owner = owner, lv_index = index, lv_name = name, lv_ptr = 0\<rparr> in
           if value \<noteq> 0 then SetValue value v else Inr v) (\<lambda>v.
    Inr (lv_next st, st\<lparr>lv_map := (lv_map st)(lv_next st \<mapsto> v), lv_next := lv_next st + 1\<rparr>))"

section \<open>\<open>class LocalScope\<close>\<close>

definition new_LocalScope :: "nat option \<Rightarrow> nat list \<Rightarrow> scopes \<Rightarrow> nat \<times> scopes" where
  "new_LocalScope parent locals st =
    (sc_next st, st\<lparr>sc_map := (sc_map st)(sc_next st \<mapsto> \<lparr>sc_parent = parent, sc_locals = locals\<rparr>),
       sc_next := sc_next st + 1\<rparr>)"

definition LocalScope_New :: "nat option \<Rightarrow> scopes \<Rightarrow> nat \<times> scopes" where
  "LocalScope_New parent st = new_LocalScope parent [] st"

definition GetNumberOfLocals :: "scope \<Rightarrow> uword" where
  "GetNumberOfLocals s = of_nat (length (sc_locals s))"

text \<open>\<open>LocalVariable::New(owner, name, value)\<close>.\<close>

definition LocalVariable_New :: "nat \<Rightarrow> string \<Rightarrow> uword \<Rightarrow> scopes \<Rightarrow> (nat \<times> scopes) res" where
  "LocalVariable_New owner name value st =
    asserting (name \<noteq> [])
      (rbind (get_scope st owner) (\<lambda>s.
        new_LocalVariable (Some owner) (GetNumberOfLocals s) name value st))"

definition IsGlobal :: "scopes \<Rightarrow> local_var \<Rightarrow> bool res" where
  "IsGlobal st v =
    (case lv_owner v of
       None \<Rightarrow> Inr False
     | Some i \<Rightarrow> rbind (get_scope st i) (\<lambda>s. Inr (sc_parent s = None)))"

text \<open>The loop over the variables of one scope: the first with the name.\<close>

fun find_local :: "scopes \<Rightarrow> string \<Rightarrow> nat list \<Rightarrow> nat option res" where
  "find_local st name [] = Inr None"
| "find_local st name (l # ls) =
    rbind (get_local st l) (\<lambda>v. if lv_name v = name then Inr (Some l) else find_local st name ls)"

fun Lookup_from :: "nat \<Rightarrow> scopes \<Rightarrow> string \<Rightarrow> bool \<Rightarrow> nat \<Rightarrow> nat option res" where
  "Lookup_from fuel st name recursive i =
    rbind (get_scope st i) (\<lambda>s.
    rbind (find_local st name (sc_locals s)) (\<lambda>found.
    case found of
      Some l \<Rightarrow> Inr (Some l)
    | None \<Rightarrow>
        (if recursive then
           case sc_parent s of
             None \<Rightarrow> Inr None
           | Some p \<Rightarrow>
               (case fuel of 0 \<Rightarrow> Inl OutOfFuel | Suc k \<Rightarrow> Lookup_from k st name recursive p)
         else Inr None)))"

declare Lookup_from.simps [simp del]

text \<open>Parents are older than their children, so the number of a scope bounds the length of its
  chain of parents and is fuel enough.\<close>

definition Lookup :: "scopes \<Rightarrow> nat \<Rightarrow> string \<Rightarrow> bool \<Rightarrow> nat option res" where
  "Lookup st i name recursive = asserting (name \<noteq> []) (Lookup_from i st name recursive i)"

text \<open>\<open>Has\<close> has the loop of \<open>Lookup\<close> without its assertion on the name.\<close>

definition Has :: "scopes \<Rightarrow> nat \<Rightarrow> string \<Rightarrow> bool \<Rightarrow> bool res" where
  "Has st i name recursive =
    rbind (Lookup_from i st name recursive i) (\<lambda>found. Inr (found \<noteq> None))"

text \<open>\<open>Add(LocalVariable*)\<close>.\<close>

definition Add_local :: "nat \<Rightarrow> nat \<Rightarrow> scopes \<Rightarrow> (bool \<times> scopes) res" where
  "Add_local i l st =
    rbind (get_local st l) (\<lambda>v.
    rbind (Has st i (lv_name v) False) (\<lambda>has.
    if has then Inr (False, st)
    else rbind (get_scope st i) (\<lambda>s.
      let st1 = st\<lparr>sc_map := (sc_map st)(i \<mapsto> s\<lparr>sc_locals := sc_locals s @ [l]\<rparr>)\<rparr> in
      Inr (True, if lv_owner v = None then upd_local l (v\<lparr>lv_owner := Some i\<rparr>) st1 else st1))))"

text \<open>\<open>Add(name, value)\<close>, and \<open>Add(symbol, value)\<close> which calls it with the symbol's name: a
  variable without a value is given one, a variable with a value is never overwritten.\<close>

definition Add_name :: "nat \<Rightarrow> string \<Rightarrow> uword \<Rightarrow> scopes \<Rightarrow> (bool \<times> scopes) res" where
  "Add_name i name value st =
    asserting (name \<noteq> [])
      (rbind (Lookup st i name False) (\<lambda>found.
       case found of
         None \<Rightarrow>
           rbind (get_scope st i) (\<lambda>s.
           rbind (new_LocalVariable (Some i) (GetNumberOfLocals s) name value st) (\<lambda>(l, st1).
           Add_local i l st1))
       | Some l \<Rightarrow>
           rbind (get_local st l) (\<lambda>v.
           if HasValue v then Inr (False, st)
           else rbind (SetValue value v) (\<lambda>v'. Inr (True, upd_local l v' st)))))"

text \<open>\<open>Add(LocalScope*)\<close>: native procedures are counted as added without being added. Whether
  a value is a native procedure is asked of the object.\<close>

fun Add_scope_loop :: "(uword \<Rightarrow> bool res) \<Rightarrow> nat \<Rightarrow> nat list \<Rightarrow> nat \<Rightarrow> scopes \<Rightarrow> (nat \<times> scopes) res" where
  "Add_scope_loop is_native i [] n st = Inr (n, st)"
| "Add_scope_loop is_native i (l # ls) n st =
    rbind (get_local st l) (\<lambda>v.
    rbind (if HasValue v then is_native (GetValue v) else Inr False) (\<lambda>native.
    if native then Add_scope_loop is_native i ls (n + 1) st
    else rbind (Add_name i (lv_name v) (GetValue v) st) (\<lambda>(added, st1).
      Add_scope_loop is_native i ls (if added then n + 1 else n) st1)))"

definition Add_scope :: "(uword \<Rightarrow> bool res) \<Rightarrow> nat \<Rightarrow> nat \<Rightarrow> scopes \<Rightarrow> (bool \<times> scopes) res" where
  "Add_scope is_native i other st =
    rbind (get_scope st other) (\<lambda>s.
    rbind (Add_scope_loop is_native i (sc_locals s) 0 st) (\<lambda>(n, st1).
    Inr (n = length (sc_locals s), st1)))"

definition GetLocalAt :: "scopes \<Rightarrow> nat \<Rightarrow> uword \<Rightarrow> nat res" where
  "GetLocalAt st i index =
    rbind (get_scope st i) (\<lambda>s.
    asserting (index \<le> GetNumberOfLocals s)
      (guardr UndefinedBehaviour (unat index < length (sc_locals s))
        (Inr (sc_locals s ! unat index))))"

definition scope_IsEmpty :: "scope \<Rightarrow> bool" where
  "scope_IsEmpty s = (sc_locals s = [])"

fun collect_locals :: "scopes \<Rightarrow> nat list \<Rightarrow> nat list res" where
  "collect_locals st [] = Inr []"
| "collect_locals st (i # is) =
    rbind (get_scope st i) (\<lambda>s. rbind (collect_locals st is) (\<lambda>ls. Inr (sc_locals s @ ls)))"

definition scope_Union :: "nat list \<Rightarrow> nat option \<Rightarrow> scopes \<Rightarrow> (nat \<times> scopes) res" where
  "scope_Union is parent st =
    (if is = [] then Inr (LocalScope_New parent st)
     else rbind (collect_locals st is) (\<lambda>ls. Inr (new_LocalScope parent ls st)))"

subsection \<open>Visiting\<close>

fun visit_locals :: "(nat \<Rightarrow> bool) \<Rightarrow> nat list \<Rightarrow> nat list \<times> bool" where
  "visit_locals vis [] = ([], True)"
| "visit_locals vis (l # ls) =
    (if \<not> vis l then ([l], False)
     else let (seen, ok) = visit_locals vis ls in (l # seen, ok))"

definition VisitAllLocals :: "scopes \<Rightarrow> (nat \<Rightarrow> bool) \<Rightarrow> nat \<Rightarrow> (nat list \<times> bool) res" where
  "VisitAllLocals st vis i = rbind (get_scope st i) (\<lambda>s. Inr (visit_locals vis (sc_locals s)))"

text \<open>\<open>VisitLocals\<close>, \<open>VisitLocalPointers\<close> and \<open>Accept\<close> (always recursive): the variables of
  the scope and then of its parents, until the visitor says no.\<close>

fun VisitLocals_from :: "nat \<Rightarrow> scopes \<Rightarrow> (nat \<Rightarrow> bool) \<Rightarrow> bool \<Rightarrow> nat \<Rightarrow> (nat list \<times> bool) res" where
  "VisitLocals_from fuel st vis recursive i =
    rbind (get_scope st i) (\<lambda>s.
    let (seen, ok) = visit_locals vis (sc_locals s) in
    if \<not> ok then Inr (seen, False)
    else if recursive then
      case sc_parent s of
        None \<Rightarrow> Inr (seen, True)
      | Some p \<Rightarrow>
          (case fuel of 0 \<Rightarrow> Inl OutOfFuel
           | Suc k \<Rightarrow> rbind (VisitLocals_from k st vis recursive p) (\<lambda>(seen', ok').
               Inr (seen @ seen', ok')))
    else Inr (seen, True))"

declare VisitLocals_from.simps [simp del]

definition VisitLocals :: "scopes \<Rightarrow> (nat \<Rightarrow> bool) \<Rightarrow> bool \<Rightarrow> nat \<Rightarrow> (nat list \<times> bool) res" where
  "VisitLocals st vis recursive i = VisitLocals_from i st vis recursive i"

subsection \<open>Iterators\<close>

record scope_iterator =
  it_scope :: nat
  it_index :: uword

definition new_Iterator :: "nat \<Rightarrow> scope_iterator" where
  "new_Iterator i = \<lparr>it_scope = i, it_index = 0\<rparr>"

definition Iterator_HasNext :: "scopes \<Rightarrow> scope_iterator \<Rightarrow> bool res" where
  "Iterator_HasNext st it =
    rbind (get_scope st (it_scope it)) (\<lambda>s. Inr (it_index it < GetNumberOfLocals s))"

definition Iterator_Next :: "scopes \<Rightarrow> scope_iterator \<Rightarrow> (nat \<times> scope_iterator) res" where
  "Iterator_Next st it =
    rbind (GetLocalAt st (it_scope it) (it_index it)) (\<lambda>l.
    Inr (l, it\<lparr>it_index := it_index it + 1\<rparr>))"

definition RecursiveIterator_HasNext :: "scopes \<Rightarrow> scope_iterator \<Rightarrow> bool res" where
  "RecursiveIterator_HasNext st it =
    rbind (get_scope st (it_scope it)) (\<lambda>s.
    Inr (it_index it < GetNumberOfLocals s \<or> sc_parent s \<noteq> None))"

text \<open>The loop of \<open>RecursiveIterator::Next\<close> goes to the parent and keeps the index.\<close>

fun next_scope :: "nat \<Rightarrow> scopes \<Rightarrow> uword \<Rightarrow> nat \<Rightarrow> nat res" where
  "next_scope fuel st index i =
    rbind (get_scope st i) (\<lambda>s.
    if scope_IsEmpty s \<or> GetNumberOfLocals s \<le> index then
      case sc_parent s of
        None \<Rightarrow> Inr i
      | Some p \<Rightarrow> (case fuel of 0 \<Rightarrow> Inl OutOfFuel | Suc k \<Rightarrow> next_scope k st index p)
    else Inr i)"

declare next_scope.simps [simp del]

definition RecursiveIterator_Next :: "scopes \<Rightarrow> scope_iterator \<Rightarrow> (nat \<times> scope_iterator) res" where
  "RecursiveIterator_Next st it =
    rbind (next_scope (it_scope it) st (it_index it) (it_scope it)) (\<lambda>i.
    rbind (get_scope st i) (\<lambda>s.
    asserting (it_index it \<le> GetNumberOfLocals s)
      (rbind (GetLocalAt st i (it_index it)) (\<lambda>l.
       Inr (l, \<lparr>it_scope = i, it_index = it_index it + 1\<rparr>)))))"

end
