(* ===== verification/ScopesCorrect.thy ===== *)
theory ScopesCorrect
  imports Scopes
begin

text \<open>
  Correctness of scopes: lookup finds the innermost variable of the name and always ends,
  adding binds a fresh name, gives a value to a variable that has none and never changes a
  variable that has one; the locale \<open>environment\<close> is the interface through which the
  runtime binds arguments, interpreted on both ways the code adds a variable.
\<close>

section \<open>Well-formed stores\<close>

definition scope_ok :: "scopes \<Rightarrow> nat \<Rightarrow> scope \<Rightarrow> bool" where
  "scope_ok st i s \<longleftrightarrow> i < sc_next st \<and>
     (\<forall>p. sc_parent s = Some p \<longrightarrow> p < i \<and> sc_map st p \<noteq> None) \<and>
     (\<forall>l\<in>set (sc_locals s). lv_map st l \<noteq> None)"

definition scopes_ok :: "scopes \<Rightarrow> bool" where
  "scopes_ok st \<longleftrightarrow> (\<forall>i s. sc_map st i = Some s \<longrightarrow> scope_ok st i s) \<and>
     (\<forall>l v. lv_map st l = Some v \<longrightarrow> l < lv_next st)"

definition name_of :: "scopes \<Rightarrow> nat \<Rightarrow> string" where
  "name_of st l = (case lv_map st l of Some v \<Rightarrow> lv_name v | None \<Rightarrow> [])"

definition own :: "scopes \<Rightarrow> string \<Rightarrow> nat list \<Rightarrow> nat option" where
  "own st name ls = find (\<lambda>l. name_of st l = name) ls"

lemma find_local_own:
  "\<forall>l\<in>set ls. lv_map st l \<noteq> None \<Longrightarrow> find_local st name ls = Inr (own st name ls)"
  by (induction ls) (auto simp: own_def get_local_def name_of_def)

lemma own_SomeD: "own st name ls = Some l \<Longrightarrow> l \<in> set ls \<and> name_of st l = name"
  by (auto simp: own_def find_Some_iff)

lemma own_append:
  "own st name (xs @ ys) = (case own st name xs of None \<Rightarrow> own st name ys | Some l \<Rightarrow> Some l)"
  by (induction xs) (simp_all add: own_def)

lemma own_single: "own st name [l] = (if name_of st l = name then Some l else None)"
  by (simp add: own_def)

lemma own_None: "own st name ls = None \<longleftrightarrow> name \<notin> name_of st ` set ls"
  by (auto simp: own_def find_None_iff)

lemma own_cong: "(\<And>l. l \<in> set ls \<Longrightarrow> name_of st' l = name_of st l) \<Longrightarrow> own st' name ls = own st name ls"
  unfolding own_def by (intro find_cong) auto

section \<open>Lookup\<close>

text \<open>\<open>resolves st name i l\<close>: seen from scope \<open>i\<close>, the name is variable \<open>l\<close>: the scope's own
  first variable of that name, or what its parent resolves the name to.\<close>

inductive resolves :: "scopes \<Rightarrow> string \<Rightarrow> nat \<Rightarrow> nat \<Rightarrow> bool" for st name where
  here: "sc_map st i = Some s \<Longrightarrow> own st name (sc_locals s) = Some l \<Longrightarrow> resolves st name i l"
| outer: "sc_map st i = Some s \<Longrightarrow> own st name (sc_locals s) = None \<Longrightarrow> sc_parent s = Some p \<Longrightarrow>
    resolves st name p l \<Longrightarrow> resolves st name i l"

inductive_cases resolves_elim: "resolves st name i l"
inductive_simps resolves_simp: "resolves st name i l"

lemma Lookup_from_resolves:
  assumes "scopes_ok st" "sc_map st i \<noteq> None" "i \<le> fuel"
  shows "\<exists>r. Lookup_from fuel st name True i = Inr r \<and> (\<forall>l. r = Some l \<longleftrightarrow> resolves st name i l)"
  using assms(2,3)
proof (induction fuel arbitrary: i)
  case 0
  then obtain s where s: "sc_map st i = Some s" by blast
  have o: "scope_ok st i s" using assms(1) s by (auto simp: scopes_ok_def)
  have "sc_parent s = None" using o 0 by (cases "sc_parent s") (auto simp: scope_ok_def)
  then show ?case
    using s o by (subst Lookup_from.simps, subst resolves_simp)
      (auto simp: get_scope_def find_local_own scope_ok_def split: option.split)
next
  case (Suc k)
  then obtain s where s: "sc_map st i = Some s" by blast
  have o: "scope_ok st i s" using assms(1) s by (auto simp: scopes_ok_def)
  have f: "find_local st name (sc_locals s) = Inr (own st name (sc_locals s))"
    using o by (intro find_local_own) (simp add: scope_ok_def)
  show ?case
  proof (cases "own st name (sc_locals s)")
    case (Some l)
    then show ?thesis
      using s f by (subst Lookup_from.simps, subst resolves_simp) (auto simp: get_scope_def)
  next
    case None
    show ?thesis
    proof (cases "sc_parent s")
      case None
      then show ?thesis
        using s f \<open>own st name (sc_locals s) = None\<close>
        by (subst Lookup_from.simps, subst resolves_simp) (auto simp: get_scope_def)
    next
      case (Some p)
      then have "p < i" "sc_map st p \<noteq> None" using o by (auto simp: scope_ok_def)
      then obtain r where "Lookup_from k st name True p = Inr r" "\<forall>l. r = Some l \<longleftrightarrow> resolves st name p l"
        using Suc by fastforce
      then show ?thesis
        using s f \<open>own st name (sc_locals s) = None\<close> Some
        by (subst Lookup_from.simps, subst resolves_simp) (auto simp: get_scope_def)
    qed
  qed
qed

lemma Lookup_from_local:
  assumes "scopes_ok st" "sc_map st i = Some s"
  shows "Lookup_from fuel st name False i = Inr (own st name (sc_locals s))"
proof -
  have "scope_ok st i s" using assms by (auto simp: scopes_ok_def)
  then show ?thesis
    using assms(2) by (subst Lookup_from.simps)
      (auto simp: get_scope_def find_local_own scope_ok_def split: option.split)
qed

text \<open>C11. In a well-formed store, recursive lookup of a name ends, and returns the innermost
  variable of that name seen from the scope, or nothing when there is none; \<open>Has\<close> says
  exactly whether lookup finds something; without recursion only the scope's own variables
  are looked at.\<close>

theorem Lookup_innermost:
  assumes "scopes_ok st" "sc_map st i = Some s" "name \<noteq> []"
  shows "\<exists>r. Lookup st i name True = Inr r \<and> (\<forall>l. r = Some l \<longleftrightarrow> resolves st name i l) \<and>
    Has st i name True = Inr (r \<noteq> None) \<and>
    Lookup st i name False = Inr (own st name (sc_locals s)) \<and>
    Has st i name False = Inr (name \<in> name_of st ` set (sc_locals s))"
proof -
  obtain r where "Lookup_from i st name True i = Inr r" "\<forall>l. r = Some l \<longleftrightarrow> resolves st name i l"
    using Lookup_from_resolves [OF assms(1), of i i name] assms(2) by auto
  then show ?thesis
    using assms Lookup_from_local [OF assms(1,2)] own_None [of st name "sc_locals s"]
    by (auto simp: Lookup_def Has_def)
qed

definition example_scopes :: scopes where
  "example_scopes = \<lparr>
     sc_map = [0 \<mapsto> \<lparr>sc_parent = None, sc_locals = [0, 1, 2]\<rparr>,
               1 \<mapsto> \<lparr>sc_parent = Some 0, sc_locals = [3]\<rparr>],
     sc_next = 2,
     lv_map = [0 \<mapsto> \<lparr>lv_owner = Some 0, lv_index = 0, lv_name = ''x'', lv_ptr = 4096\<rparr>,
               1 \<mapsto> \<lparr>lv_owner = Some 0, lv_index = 1, lv_name = ''y'', lv_ptr = 8192\<rparr>,
               2 \<mapsto> \<lparr>lv_owner = Some 0, lv_index = 2, lv_name = ''z'', lv_ptr = 0\<rparr>,
               3 \<mapsto> \<lparr>lv_owner = Some 1, lv_index = 0, lv_name = ''x'', lv_ptr = 12288\<rparr>],
     lv_next = 4\<rparr>"

lemma example_scopes_ok: "scopes_ok example_scopes"
  by (auto simp: scopes_ok_def scope_ok_def example_scopes_def split: if_splits)

theorem Lookup_innermost_witness:
  "(\<exists>r. Lookup example_scopes 1 ''x'' True = Inr r \<and> (\<forall>l. r = Some l \<longleftrightarrow> l = 3) \<and>
     Has example_scopes 1 ''x'' True = Inr True) \<and>
   Lookup example_scopes 1 ''y'' False = Inr None"
proof -
  have s: "sc_map example_scopes 1 = Some \<lparr>sc_parent = Some 0, sc_locals = [3]\<rparr>"
    by (simp add: example_scopes_def)
  have o: "own example_scopes ''x'' [3] = Some 3" "own example_scopes ''y'' [3] = None"
    by (simp_all add: own_def name_of_def example_scopes_def)
  have r: "resolves example_scopes ''x'' 1 l \<longleftrightarrow> l = 3" for l
    using s o by (subst resolves_simp) auto
  then have some: "\<exists>l. resolves example_scopes ''x'' 1 l" by blast
  show ?thesis
    using Lookup_innermost [OF example_scopes_ok s, of "''x''"] some
      Lookup_innermost [OF example_scopes_ok s, of "''y''"] o r by force
qed

section \<open>Adding\<close>

lemma name_of_upd_local:
  "lv_name v = name_of st l \<Longrightarrow> name_of (upd_local l v st) k = name_of st k"
  by (auto simp: name_of_def upd_local_def split: option.split)

lemma SetValue_value: "rhs \<noteq> 0 \<Longrightarrow> rhs \<noteq> header_size \<Longrightarrow>
    \<exists>v'. SetValue rhs v = Inr v' \<and> GetValue v' = rhs \<and> lv_name v' = lv_name v \<and> lv_owner v' = lv_owner v"
  by (auto simp: SetValue_def GetValue_def)

text \<open>The value a scope itself gives a name.\<close>

definition value_in :: "nat \<Rightarrow> scopes \<Rightarrow> string \<Rightarrow> uword option" where
  "value_in i st name =
    (case sc_map st i of
       None \<Rightarrow> None
     | Some s \<Rightarrow>
        (case own st name (sc_locals s) of
           None \<Rightarrow> None
         | Some l \<Rightarrow>
            (case lv_map st l of
               None \<Rightarrow> None
             | Some v \<Rightarrow> if HasValue v then Some (GetValue v) else None)))"

definition value_ok :: "uword \<Rightarrow> bool" where
  "value_ok v \<longleftrightarrow> v \<noteq> 0 \<and> v \<noteq> header_size"

text \<open>The names a scope itself has, with the value or null.\<close>

definition names_in :: "nat \<Rightarrow> scopes \<Rightarrow> string \<Rightarrow> uword option" where
  "names_in i st name =
    (case sc_map st i of
       None \<Rightarrow> None
     | Some s \<Rightarrow> map_option (\<lambda>l. case lv_map st l of Some v \<Rightarrow> GetValue v | None \<Rightarrow> 0) (own st name (sc_locals s)))"

text \<open>Scope \<open>i\<close> after a fresh variable \<open>l\<close> was appended to it.\<close>

lemma append_local:
  assumes "scopes_ok st" "sc_map st i = Some s" "l = lv_next st" "own st (lv_name v) (sc_locals s) = None"
    and "GetValue v = w" "w \<noteq> 0"
  shows "\<exists>st'. Add_local i l (st\<lparr>lv_map := (lv_map st)(l \<mapsto> v), lv_next := l + 1\<rparr>) = Inr (True, st') \<and>
    scopes_ok st' \<and> sc_map st' i \<noteq> None \<and> value_in i st' = (value_in i st)(lv_name v \<mapsto> w) \<and>
    names_in i st' = (names_in i st)(lv_name v \<mapsto> w)"
proof -
  define st1 where "st1 = st\<lparr>lv_map := (lv_map st)(l \<mapsto> v), lv_next := l + 1\<rparr>"
  have fresh: "lv_map st l = None"
    using assms(1,3) by (cases "lv_map st l") (auto simp: scopes_ok_def)
  have ls: "\<forall>k\<in>set (sc_locals s). lv_map st k \<noteq> None" and so: "scope_ok st i s"
    using assms(1,2) by (auto simp: scopes_ok_def scope_ok_def)
  then have new: "l \<notin> set (sc_locals s)" using fresh by auto
  have ok1: "scopes_ok st1"
    using assms(1,3) by (auto simp: scopes_ok_def scope_ok_def st1_def less_Suc_eq)
  have n1: "name_of st1 k = (if k = l then lv_name v else name_of st k)" for k
    by (simp add: name_of_def st1_def)
  have o1: "own st1 name (sc_locals s) = own st name (sc_locals s)" for name
    using new n1 by (intro own_cong) auto
  define v' where "v' = (if lv_owner v = None then v\<lparr>lv_owner := Some i\<rparr> else v)"
  define st' where "st' = st1\<lparr>sc_map := (sc_map st)(i \<mapsto> s\<lparr>sc_locals := sc_locals s @ [l]\<rparr>),
     lv_map := (lv_map st)(l \<mapsto> v')\<rparr>"
  have s1: "sc_map st1 i = Some s" using assms(2) by (simp add: st1_def)
  have run: "Add_local i l st1 = Inr (True, st')"
    using Lookup_from_local [OF ok1 s1, of i "lv_name v"] o1 assms(4) s1
    by (auto simp: Add_local_def get_local_def st1_def Has_def get_scope_def st'_def v'_def upd_local_def)
  have ok': "scopes_ok st'"
    using assms(1-3) by (auto simp: scopes_ok_def scope_ok_def st'_def st1_def less_Suc_eq)
  have n': "name_of st' k = (if k = l then lv_name v else name_of st k)" for k
    by (simp add: name_of_def st'_def v'_def)
  have o': "own st' name (sc_locals s @ [l]) =
      (if name = lv_name v then Some l else own st name (sc_locals s))" for name
  proof -
    have "own st' name (sc_locals s) = own st name (sc_locals s)"
      using new n' by (intro own_cong) auto
    then show ?thesis
      using assms(4) by (auto simp: own_append own_single n' split: option.split)
  qed
  have "value_in i st' = (value_in i st)(lv_name v \<mapsto> w)"
  proof
    fix name
    show "value_in i st' name = ((value_in i st)(lv_name v \<mapsto> w)) name"
    proof (cases "name = lv_name v")
      case True
      then show ?thesis
        using o' assms(5,6) by (auto simp: value_in_def st'_def v'_def HasValue_def GetValue_def)
    next
      case False
      have "lv_map st' k = lv_map st k" if "own st name (sc_locals s) = Some k" for k
        using own_SomeD [OF that] new by (auto simp: st'_def)
      then show ?thesis
        using False o' assms(2) by (auto simp: value_in_def st'_def split: option.split)
    qed
  qed
  moreover have "names_in i st' = (names_in i st)(lv_name v \<mapsto> w)"
  proof
    fix name
    show "names_in i st' name = ((names_in i st)(lv_name v \<mapsto> w)) name"
    proof (cases "name = lv_name v")
      case True
      then show ?thesis
        using o' assms(5) by (auto simp: names_in_def st'_def v'_def GetValue_def)
    next
      case False
      have "lv_map st' k = lv_map st k" if "own st name (sc_locals s) = Some k" for k
        using own_SomeD [OF that] new by (auto simp: st'_def)
      then show ?thesis
        using False o' assms(2)
        by (cases "own st name (sc_locals s)") (auto simp: names_in_def st'_def)
    qed
  qed
  ultimately show ?thesis using run ok' by (auto simp: st1_def st'_def)
qed

definition good_scope :: "nat \<Rightarrow> scopes \<Rightarrow> bool" where
  "good_scope i st \<longleftrightarrow> scopes_ok st \<and> sc_map st i \<noteq> None"

lemma Add_name_fresh:
  assumes "scopes_ok st" "sc_map st i = Some s" "name \<noteq> []" "value_ok w"
    and "own st name (sc_locals s) = None"
  shows "\<exists>st'. Add_name i name w st = Inr (True, st') \<and> good_scope i st' \<and>
    value_in i st' = (value_in i st)(name \<mapsto> w) \<and> names_in i st' = (names_in i st)(name \<mapsto> w)"
proof -
  define v where "v = \<lparr>lv_owner = Some i, lv_index = GetNumberOfLocals s, lv_name = name,
     lv_ptr = w - header_size\<rparr>"
  have w: "w \<noteq> 0" "GetValue v = w" using assms(4) by (auto simp: value_ok_def v_def GetValue_def)
  have "new_LocalVariable (Some i) (GetNumberOfLocals s) name w st =
      Inr (lv_next st, st\<lparr>lv_map := (lv_map st)(lv_next st \<mapsto> v), lv_next := lv_next st + 1\<rparr>)"
    using w(1) by (simp add: new_LocalVariable_def SetValue_def v_def)
  then have "Add_name i name w st =
      Add_local i (lv_next st) (st\<lparr>lv_map := (lv_map st)(lv_next st \<mapsto> v), lv_next := lv_next st + 1\<rparr>)"
    using assms Lookup_from_local [OF assms(1,2)] by (simp add: Add_name_def Lookup_def get_scope_def)
  then show ?thesis
    using append_local [OF assms(1,2) refl, of v w] assms(5) w by (auto simp: v_def good_scope_def)
qed

lemma Add_name_valueless:
  assumes "scopes_ok st" "sc_map st i = Some s" "name \<noteq> []" "value_ok w"
    and "own st name (sc_locals s) = Some l" "lv_map st l = Some v" "\<not> HasValue v"
  shows "\<exists>st'. Add_name i name w st = Inr (True, st') \<and> good_scope i st' \<and>
    value_in i st' = (value_in i st)(name \<mapsto> w)"
proof -
  obtain v' where v': "SetValue w v = Inr v'" "GetValue v' = w" "lv_name v' = lv_name v"
    using SetValue_value [of w v] assms(4) by (auto simp: value_ok_def)
  have w0: "w \<noteq> 0" using assms(4) by (simp add: value_ok_def)
  let ?st = "upd_local l v' st"
  have name: "name_of ?st k = name_of st k" for k
    using assms(6) v'(3) by (auto simp: name_of_def upd_local_def)
  have nm: "name_of st l = name" using own_SomeD [OF assms(5)] by simp
  have run: "Add_name i name w st = Inr (True, ?st)"
    using assms Lookup_from_local [OF assms(1,2)] v'(1)
    by (simp add: Add_name_def Lookup_def get_local_def)
  have ok: "scopes_ok ?st"
    using assms(1,6) by (auto simp: scopes_ok_def scope_ok_def upd_local_def)
  have own: "own ?st n ls = own st n ls" for n ls
    using name by (intro own_cong) simp
  have "value_in i ?st n = ((value_in i st)(name \<mapsto> w)) n" for n
  proof (cases "n = name")
    case True
    then show ?thesis
      using own assms(2,5) v'(2) w0 by (simp add: value_in_def upd_local_def HasValue_def)
  next
    case False
    have "k \<noteq> l" if "own st n (sc_locals s) = Some k" for k
      using own_SomeD [OF that] nm False by auto
    then show ?thesis
      using False own assms(2) by (auto simp: value_in_def upd_local_def split: option.split)
  qed
  then show ?thesis using run ok assms(2) by (auto simp: good_scope_def upd_local_def)
qed

lemma Add_name_taken:
  assumes "scopes_ok st" "name \<noteq> []" "value_in i st name = Some u"
  shows "Add_name i name w st = Inr (False, st)"
proof -
  obtain s l v where "sc_map st i = Some s" "own st name (sc_locals s) = Some l" "lv_map st l = Some v" "HasValue v"
    using assms(3) by (auto simp: value_in_def split: option.splits if_splits)
  then show ?thesis
    using assms(1,2) Lookup_from_local [OF assms(1)] by (simp add: Add_name_def Lookup_def get_local_def)
qed

lemma Add_name_free:
  assumes "good_scope i st" "name \<noteq> []" "value_ok w" "value_in i st name = None"
  shows "\<exists>st'. Add_name i name w st = Inr (True, st') \<and> good_scope i st' \<and>
    value_in i st' = (value_in i st)(name \<mapsto> w)"
proof -
  obtain s where s: "sc_map st i = Some s" and ok: "scopes_ok st"
    using assms(1) by (auto simp: good_scope_def)
  show ?thesis
  proof (cases "own st name (sc_locals s)")
    case None
    then show ?thesis using Add_name_fresh [OF ok s assms(2,3)] by blast
  next
    case (Some l)
    then have "l \<in> set (sc_locals s)" by (simp add: own_SomeD)
    then obtain v where v: "lv_map st l = Some v"
      using ok s by (fastforce simp: scopes_ok_def scope_ok_def)
    then have "\<not> HasValue v" using assms(4) s Some by (auto simp: value_in_def split: if_splits)
    then show ?thesis using Add_name_valueless [OF ok s assms(2,3) Some v] by blast
  qed
qed

section \<open>The interface the runtime binds arguments through\<close>

locale environment =
  fixes bind :: "string \<Rightarrow> uword \<Rightarrow> 's \<Rightarrow> (bool \<times> 's) res"
    and look :: "'s \<Rightarrow> string \<Rightarrow> uword option"
    and good :: "'s \<Rightarrow> bool"
  assumes bind_free: "good s \<Longrightarrow> n \<noteq> [] \<Longrightarrow> value_ok v \<Longrightarrow> look s n = None \<Longrightarrow>
      \<exists>s'. bind n v s = Inr (True, s') \<and> good s' \<and> look s' = (look s)(n \<mapsto> v)"
begin

text \<open>Every binding has to succeed, as the runtime demands of the parameters of a call.\<close>

fun bind_all :: "(string \<times> uword) list \<Rightarrow> 's \<Rightarrow> 's res" where
  "bind_all [] s = Inr s"
| "bind_all ((n, v) # nvs) s =
    rbind (bind n v s) (\<lambda>(ok, s'). guardr LogFatal ok (bind_all nvs s'))"

lemma bind_all_look:
  assumes "good s" "distinct (map fst nvs)" "\<forall>(n, v)\<in>set nvs. n \<noteq> [] \<and> value_ok v \<and> look s n = None"
  shows "\<exists>s'. bind_all nvs s = Inr s' \<and> good s' \<and> look s' = look s ++ map_of nvs"
  using assms
proof (induction nvs arbitrary: s)
  case (Cons nv nvs)
  obtain n v where nv: "nv = (n, v)" by (cases nv)
  obtain s1 where s1: "bind n v s = Inr (True, s1)" "good s1" "look s1 = (look s)(n \<mapsto> v)"
    using bind_free [of s n v] Cons.prems nv by auto
  have "\<forall>(n', v')\<in>set nvs. n' \<noteq> [] \<and> value_ok v' \<and> look s1 n' = None"
    using Cons.prems(2,3) nv s1(3) by (force simp: image_iff)
  then obtain s2 where s2: "bind_all nvs s1 = Inr s2" "good s2" "look s2 = look s1 ++ map_of nvs"
    using Cons.IH [OF s1(2)] Cons.prems(2) by auto
  have "(look s)(n \<mapsto> v) ++ map_of nvs = look s ++ map_of ((n, v) # nvs)"
  proof
    fix x
    have "map_of nvs n = None" using Cons.prems(2) nv by (simp add: map_of_eq_None_iff)
    then show "((look s)(n \<mapsto> v) ++ map_of nvs) x = (look s ++ map_of ((n, v) # nvs)) x"
      by (auto simp: map_add_def split: option.split)
  qed
  moreover have "bind_all (nv # nvs) s = Inr s2" using s1(1) s2(1) nv by simp
  ultimately show ?case using s1(3) s2(2,3) nv by (simp del: map_of.simps)
qed simp

end

interpretation native_env: environment "Add_name i" "value_in i" "good_scope i" for i
  by unfold_locales (rule Add_name_free)

text \<open>How a call of a lambda adds a parameter: a fresh variable, then \<open>Add(LocalVariable*)\<close>.\<close>

definition add_parameter :: "nat \<Rightarrow> string \<Rightarrow> uword \<Rightarrow> scopes \<Rightarrow> (bool \<times> scopes) res" where
  "add_parameter i name value st =
    rbind (LocalVariable_New i name value st) (\<lambda>(l, st1). Add_local i l st1)"

lemma add_parameter_fresh:
  assumes "scopes_ok st" "sc_map st i = Some s" "name \<noteq> []" "value_ok w"
    and "own st name (sc_locals s) = None"
  shows "add_parameter i name w st = Add_name i name w st"
  using assms Lookup_from_local [OF assms(1,2)]
  by (simp add: add_parameter_def LocalVariable_New_def Add_name_def Lookup_def get_scope_def)

lemma add_parameter_free:
  assumes "good_scope i st" "name \<noteq> []" "value_ok w" "names_in i st name = None"
  shows "\<exists>st'. add_parameter i name w st = Inr (True, st') \<and> good_scope i st' \<and>
    names_in i st' = (names_in i st)(name \<mapsto> w)"
proof -
  obtain s where s: "sc_map st i = Some s" and ok: "scopes_ok st"
    using assms(1) by (auto simp: good_scope_def)
  then have none: "own st name (sc_locals s) = None" using assms(4) by (simp add: names_in_def)
  show ?thesis
    using add_parameter_fresh [OF ok s assms(2,3) none] Add_name_fresh [OF ok s assms(2,3) none] by auto
qed

interpretation parameter_env: environment "add_parameter i" "names_in i" "good_scope i" for i
  by unfold_locales (rule add_parameter_free)

text \<open>Adding a name to a well-formed scope succeeds when the scope gives the name no value
  yet, whether the name is new or only declared, and afterwards the scope gives it exactly the
  value added and every other name the value it had; a name with a value is refused and
  nothing changes.\<close>

theorem Add_name_binds_once:
  assumes "scopes_ok st" "sc_map st i \<noteq> None" "name \<noteq> []" "w \<noteq> 0" "w \<noteq> header_size"
  shows "case value_in i st name of
      None \<Rightarrow> \<exists>st'. Add_name i name w st = Inr (True, st') \<and> scopes_ok st' \<and>
        value_in i st' = (value_in i st)(name \<mapsto> w)
    | Some u \<Rightarrow> Add_name i name w st = Inr (False, st)"
  using assms Add_name_free [of i st name w] Add_name_taken [of st name i _ w]
  by (auto simp: good_scope_def value_ok_def split: option.split)

theorem Add_name_binds_once_witness:
  "value_in 0 example_scopes ''z'' = None \<and>
   (\<exists>st'. Add_name 0 ''z'' 64 example_scopes = Inr (True, st') \<and> value_in 0 st' ''z'' = Some 64) \<and>
   Add_name 0 ''x'' 64 example_scopes = Inr (False, example_scopes)"
proof -
  have z: "value_in 0 example_scopes ''z'' = None" and x: "value_in 0 example_scopes ''x'' = Some 4112"
    by (simp_all add: value_in_def own_def name_of_def example_scopes_def HasValue_def GetValue_def header_size_def)
  have s: "sc_map example_scopes 0 \<noteq> None" by (simp add: example_scopes_def)
  show ?thesis
    using Add_name_binds_once [OF example_scopes_ok s, of "''z''" 64] z
      Add_name_binds_once [OF example_scopes_ok s, of "''x''" 64] x
    by (auto simp: header_size_def)
qed

section \<open>The recursive iterator\<close>

text \<open>C36. When a recursive iterator has handed out the \<open>n\<close> variables of a scope and goes on
  to its parent, it keeps the index \<open>n\<close>: the parent's first \<open>n\<close> variables are never visited,
  and if the parent (a root) has no more than \<open>n\<close> of them, \<open>Next\<close> reads past the end or fails
  its assertion although \<open>HasNext\<close> answered true.\<close>

theorem RecursiveIterator_skips:
  assumes "sc_map st i = Some s" "sc_parent s = Some p" "sc_map st p = Some t" "sc_parent t = None"
    and "0 < i" "length (sc_locals s) < 2 ^ 64" "length (sc_locals t) < 2 ^ 64"
    and "n = length (sc_locals s)" "m = length (sc_locals t)"
  shows "RecursiveIterator_HasNext st \<lparr>it_scope = i, it_index = of_nat n\<rparr> = Inr True \<and>
    RecursiveIterator_Next st \<lparr>it_scope = i, it_index = of_nat n\<rparr> =
      (if n < m then Inr (sc_locals t ! n, \<lparr>it_scope = p, it_index = of_nat n + 1\<rparr>)
       else if n = m then Inl UndefinedBehaviour else Inl AssertFailed)"
proof
  show "RecursiveIterator_HasNext st \<lparr>it_scope = i, it_index = of_nat n\<rparr> = Inr True"
    using assms by (simp add: RecursiveIterator_HasNext_def get_scope_def)
  have un: "unat (of_nat n :: uword) = n" "unat (of_nat m :: uword) = m"
    using assms(6-9) by (simp_all add: unat_of_nat take_bit_nat_eq_self)
  obtain k where k: "i = Suc k" using assms(5) by (cases i) auto
  have step: "next_scope i st (of_nat n) i = next_scope k st (of_nat n) p"
    using assms(1,2,8) k by (subst next_scope.simps) (simp add: get_scope_def GetNumberOfLocals_def)
  have stop: "next_scope k st (of_nat n) p = Inr p"
    using assms(3,4) by (subst next_scope.simps) (simp add: get_scope_def)
  have le: "(of_nat n :: uword) \<le> GetNumberOfLocals t \<longleftrightarrow> n \<le> m"
    using assms(9) un by (simp add: GetNumberOfLocals_def word_le_nat_alt)
  have "RecursiveIterator_Next st \<lparr>it_scope = i, it_index = of_nat n\<rparr> =
      asserting (n \<le> m) (guardr UndefinedBehaviour (n < m)
        (Inr (sc_locals t ! n, \<lparr>it_scope = p, it_index = of_nat n + 1\<rparr>)))"
    using assms(3,9) un le step stop
    by (cases "n \<le> m"; cases "n < m") (simp_all add: RecursiveIterator_Next_def GetLocalAt_def get_scope_def)
  then show "RecursiveIterator_Next st \<lparr>it_scope = i, it_index = of_nat n\<rparr> =
      (if n < m then Inr (sc_locals t ! n, \<lparr>it_scope = p, it_index = of_nat n + 1\<rparr>)
       else if n = m then Inl UndefinedBehaviour else Inl AssertFailed)"
    by (auto simp: guardr_def)
qed

theorem RecursiveIterator_skips_witness:
  "RecursiveIterator_Next example_scopes \<lparr>it_scope = 1, it_index = 1\<rparr> =
    Inr (1, \<lparr>it_scope = 0, it_index = 2\<rparr>)"
  using RecursiveIterator_skips [of example_scopes 1 "\<lparr>sc_parent = Some 0, sc_locals = [3]\<rparr>" 0
      "\<lparr>sc_parent = None, sc_locals = [0, 1, 2]\<rparr>" 1 3]
  by (simp add: example_scopes_def)

end
