(* ===== verification/StateOps.thy ===== *)
theory StateOps
  imports GelPrelude
begin

text \<open>
  Operations on a mutable state that can fail: a function from the state to a failure or to a
  result and the state after it. The combinators thread the state the way the statements of a
  C++ function do.
\<close>

type_synonym ('s, 'a) op_on = "'s \<Rightarrow> ('a \<times> 's) res"

definition ret :: "'a \<Rightarrow> ('s, 'a) op_on" where
  "ret x = (\<lambda>s. Inr (x, s))"

definition sbind :: "('s, 'a) op_on \<Rightarrow> ('a \<Rightarrow> ('s, 'b) op_on) \<Rightarrow> ('s, 'b) op_on" where
  "sbind m f = (\<lambda>s. rbind (m s) (\<lambda>(x, s'). f x s'))"

definition sthen :: "('s, 'a) op_on \<Rightarrow> ('s, 'b) op_on \<Rightarrow> ('s, 'b) op_on" where
  "sthen m k = sbind m (\<lambda>_. k)"

definition fails :: "failure \<Rightarrow> ('s, 'a) op_on" where
  "fails e = (\<lambda>s. Inl e)"

text \<open>Reading the state, and reading it with a function that can fail.\<close>

definition asks :: "('s \<Rightarrow> 'a) \<Rightarrow> ('s, 'a) op_on" where
  "asks f = (\<lambda>s. Inr (f s, s))"

definition reads :: "('s \<Rightarrow> 'a res) \<Rightarrow> ('s, 'a) op_on" where
  "reads f = (\<lambda>s. rbind (f s) (\<lambda>x. Inr (x, s)))"

definition modifies :: "('s \<Rightarrow> 's) \<Rightarrow> ('s, unit) op_on" where
  "modifies f = (\<lambda>s. Inr ((), f s))"

definition sguard :: "failure \<Rightarrow> bool \<Rightarrow> ('s, unit) op_on" where
  "sguard e p = (\<lambda>s. guardr e p (Inr ((), s)))"

abbreviation sassert :: "bool \<Rightarrow> ('s, unit) op_on" where
  "sassert p \<equiv> sguard AssertFailed p"

text \<open>An operation on a part of the state.\<close>

definition on_part :: "('s \<Rightarrow> 't) \<Rightarrow> ('t \<Rightarrow> 's \<Rightarrow> 's) \<Rightarrow> ('t, 'a) op_on \<Rightarrow> ('s, 'a) op_on" where
  "on_part get put m = (\<lambda>s. rbind (m (get s)) (\<lambda>(x, t). Inr (x, put t s)))"

named_theorems op_simps "rules that run operations on a state"

lemma ret_apply [op_simps]: "ret x s = Inr (x, s)"
  by (simp add: ret_def)

lemma sbind_apply [op_simps]: "sbind m f s = rbind (m s) (\<lambda>(x, s'). f x s')"
  by (simp add: sbind_def)

lemma sthen_apply [op_simps]: "sthen m k s = rbind (m s) (\<lambda>(x, s'). k s')"
  by (simp add: sthen_def sbind_def)

lemma fails_apply [op_simps]: "fails e s = Inl e"
  by (simp add: fails_def)

lemma asks_apply [op_simps]: "asks f s = Inr (f s, s)"
  by (simp add: asks_def)

lemma reads_apply [op_simps]: "reads f s = rbind (f s) (\<lambda>x. Inr (x, s))"
  by (simp add: reads_def)

lemma modifies_apply [op_simps]: "modifies f s = Inr ((), f s)"
  by (simp add: modifies_def)

lemma sguard_apply [op_simps]: "sguard e p s = guardr e p (Inr ((), s))"
  by (simp add: sguard_def)

lemma on_part_apply [op_simps]:
  "on_part get put m s = rbind (m (get s)) (\<lambda>(x, t). Inr (x, put t s))"
  by (simp add: on_part_def)

lemma if_op_apply [op_simps]: "(if b then m else k) s = (if b then m s else k s)"
  by simp

lemma rbind_guard_unit [op_simps]:
  "rbind (guardr e p (Inr (x, s))) f = guardr e p (f (x, s))"
  by (simp add: guardr_def)

lemma sbind_cong [fundef_cong]:
  "m s = m' s' \<Longrightarrow> (\<And>x t. m' s' = Inr (x, t) \<Longrightarrow> f x t = g x t) \<Longrightarrow> sbind m f s = sbind m' g s'"
  by (cases "m' s'") (auto simp: sbind_def)

lemma sbind_Inr: "sbind m f s = Inr (y, t) \<longleftrightarrow> (\<exists>x u. m s = Inr (x, u) \<and> f x u = Inr (y, t))"
  by (auto simp: sbind_def rbind_eq_Inr)

lemma sthen_Inr: "sthen m k s = Inr (y, t) \<longleftrightarrow> (\<exists>x u. m s = Inr (x, u) \<and> k u = Inr (y, t))"
  by (auto simp: sthen_def sbind_Inr)

lemma sbind_assoc: "sbind (sbind m f) g = sbind m (\<lambda>x. sbind (f x) g)"
  by (auto simp: sbind_def rbind_assoc split: prod.split intro!: ext rbind_cong)

lemma sbind_ret [simp]: "sbind (ret x) f = f x"
  by (simp add: sbind_def ret_def)

lemmas op_elims = sbind_Inr sthen_Inr

section \<open>What an operation keeps\<close>

text \<open>An operation keeps a relation when every run that succeeds relates the state before to the
  state after. For a preorder this is closed under the combinators.\<close>

definition keeps :: "('s \<Rightarrow> 's \<Rightarrow> bool) \<Rightarrow> ('s, 'a) op_on \<Rightarrow> bool" where
  "keeps R m \<longleftrightarrow> (\<forall>s x t. m s = Inr (x, t) \<longrightarrow> R s t)"

lemma keepsD: "keeps R m \<Longrightarrow> m s = Inr (x, t) \<Longrightarrow> R s t"
  by (auto simp: keeps_def)

lemma keepsI: "(\<And>s x t. m s = Inr (x, t) \<Longrightarrow> R s t) \<Longrightarrow> keeps R m"
  by (simp add: keeps_def)

lemma keeps_on_part:
  assumes "keeps Q m" "\<And>s t u. Q (get s) t \<Longrightarrow> R s (put t s)"
  shows "keeps R (on_part get put m)"
  using assms by (fastforce simp: keeps_def op_simps rbind_eq_Inr)

locale kept =
  fixes R :: "'s \<Rightarrow> 's \<Rightarrow> bool"
  assumes kept_refl: "R s s"
    and kept_trans: "R s t \<Longrightarrow> R t u \<Longrightarrow> R s u"
begin

lemma keeps_ret: "keeps R (ret x)"
  by (simp add: keeps_def op_simps kept_refl)

lemma keeps_fails: "keeps R (fails e)"
  by (simp add: keeps_def op_simps)

lemma keeps_asks: "keeps R (asks f)"
  by (simp add: keeps_def op_simps kept_refl)

lemma keeps_reads: "keeps R (reads f)"
  by (auto simp: keeps_def op_simps rbind_eq_Inr kept_refl)

lemma keeps_sguard: "keeps R (sguard e p)"
  by (auto simp: keeps_def op_simps guardr_eq_Inr kept_refl)

lemma keeps_sbind: "keeps R m \<Longrightarrow> (\<And>x. keeps R (f x)) \<Longrightarrow> keeps R (sbind m f)"
  unfolding keeps_def sbind_Inr using kept_trans by blast

lemma keeps_sthen: "keeps R m \<Longrightarrow> keeps R k \<Longrightarrow> keeps R (sthen m k)"
  unfolding keeps_def sthen_Inr using kept_trans by blast

lemma keeps_if: "(b \<Longrightarrow> keeps R m) \<Longrightarrow> (\<not> b \<Longrightarrow> keeps R k) \<Longrightarrow> keeps R (if b then m else k)"
  by simp

lemma keeps_option:
  "keeps R m \<Longrightarrow> (\<And>x. keeps R (f x)) \<Longrightarrow> keeps R (case r of None \<Rightarrow> m | Some x \<Rightarrow> f x)"
  by (cases r) simp_all

lemma keeps_list:
  "keeps R m \<Longrightarrow> (\<And>x xs. keeps R (f x xs)) \<Longrightarrow> keeps R (case r of [] \<Rightarrow> m | x # xs \<Rightarrow> f x xs)"
  by (cases r) simp_all

lemma keeps_prod: "(\<And>x y. keeps R (f x y)) \<Longrightarrow> keeps R (case p of (x, y) \<Rightarrow> f x y)"
  by (cases p) simp

lemma keeps_let: "(\<And>x. keeps R (f x)) \<Longrightarrow> keeps R (let x = v in f x)"
  by simp

lemmas keeps_intros = keeps_ret keeps_fails keeps_asks keeps_reads keeps_sguard keeps_sbind
  keeps_sthen keeps_if keeps_option keeps_list keeps_prod keeps_let

end

end
