(* ===== verification/Exprs.thy ===== *)
theory Exprs
  imports StateOps
begin

text \<open>
  The syntax tree (\<open>gel/expression.h\<close>, \<open>gel/expression.cc\<close>) and formal arguments
  (\<open>gel/argument.h\<close>): one constructor per expression class, the children of a node as the
  visitors and the macro expander number them, and the checks of the \<open>New\<close> functions. Objects
  inside a tree (literals, symbols, classes, fields, modules) are addresses in the heap,
  variables and scopes are numbers in the store of scopes.
\<close>

section \<open>Arguments\<close>

record argument =
  arg_index :: uword
  arg_name :: string
  arg_optional :: bool
  arg_vararg :: bool

definition argument_eq :: "argument \<Rightarrow> argument \<Rightarrow> bool" where
  "argument_eq a b = (arg_index a = arg_index b \<and> arg_name a = arg_name b)"

definition argument_less :: "argument \<Rightarrow> argument \<Rightarrow> bool" where
  "argument_less a b = (arg_index a < arg_index b)"

text \<open>\<open>ArgumentSet\<close> is a \<open>std::set\<close> ordered by the index: an argument whose index is taken is
  not inserted.\<close>

fun ArgumentSet_insert :: "argument \<Rightarrow> argument list \<Rightarrow> argument list" where
  "ArgumentSet_insert a [] = [a]"
| "ArgumentSet_insert a (b # bs) =
    (if argument_less a b then a # b # bs
     else if argument_less b a then b # ArgumentSet_insert a bs
     else b # bs)"

section \<open>Expressions\<close>

datatype binary_op =
    BAdd | BSubtract | BMultiply | BDivide | BModulus | BEquals | BBinaryAnd | BBinaryOr
  | BGreaterThan | BGreaterThanEqual | BLessThan | BLessThanEqual | BCons | BInstanceOf

datatype unary_op = UNot | UCar | UCdr | UNonnull | UNull

datatype (plugins only: code size) expr =
    LiteralExpr uword
  | UnaryExpr unary_op expr
  | BinaryOpExpr binary_op expr expr
  | BeginExpr "expr list"
  | WhileExpr expr "expr list"
  | CondExpr "expr list" "expr option"
  | ClauseExpr expr "expr list"
  | WhenExpr expr "expr list"
  | CaseExpr expr "expr list"
  | LocalDef nat expr
  | ImportExpr uword
  | CallProcExpr expr "expr list"
  | LoadInstanceMethodExpr uword uword
  | SetFieldExpr uword expr expr
  | SetLocalExpr nat "expr option"
  | Binding nat expr
  | LetExpr nat "expr list" "expr list"
  | RxOpExpr uword "expr list"
  | LetRxExpr nat expr "expr list"
  | ListExpr "expr list"
  | ThrowExpr expr
  | QuotedExpr uword
  | InstanceOfExpr uword expr
  | CastExpr uword expr
  | NewExpr uword "expr list"
  | NewMapExpr "(uword \<times> expr) list"
  | LoadFieldExpr expr uword

subsection \<open>Construction\<close>

definition new_LiteralExpr :: "uword \<Rightarrow> expr res" where
  "new_LiteralExpr value = asserting (value \<noteq> 0) (Inr (LiteralExpr value))"

definition new_QuotedExpr :: "uword \<Rightarrow> expr res" where
  "new_QuotedExpr symbol = asserting (symbol \<noteq> 0) (Inr (QuotedExpr symbol))"

definition new_ClauseExpr :: "expr \<Rightarrow> expr list \<Rightarrow> expr res" where
  "new_ClauseExpr key actions = asserting (actions \<noteq> []) (Inr (ClauseExpr key actions))"

definition new_CondExpr :: "expr list \<Rightarrow> expr option \<Rightarrow> expr res" where
  "new_CondExpr clauses alt = asserting (clauses \<noteq> []) (Inr (CondExpr clauses alt))"

definition new_CondExpr_test :: "expr \<Rightarrow> expr \<Rightarrow> expr option \<Rightarrow> expr res" where
  "new_CondExpr_test test conseq alt =
    rbind (new_ClauseExpr test [conseq]) (\<lambda>c. new_CondExpr [c] alt)"

definition new_WhenExpr :: "expr \<Rightarrow> expr list \<Rightarrow> expr res" where
  "new_WhenExpr test actions = asserting (actions \<noteq> []) (Inr (WhenExpr test actions))"

definition new_InstanceOfExpr :: "uword \<Rightarrow> expr \<Rightarrow> expr res" where
  "new_InstanceOfExpr target value = asserting (target \<noteq> 0) (Inr (InstanceOfExpr target value))"

definition new_CastExpr :: "uword \<Rightarrow> expr \<Rightarrow> expr res" where
  "new_CastExpr cls value = asserting (cls \<noteq> 0) (Inr (CastExpr cls value))"

definition new_LoadFieldExpr :: "expr \<Rightarrow> uword \<Rightarrow> expr res" where
  "new_LoadFieldExpr inst field = asserting (field \<noteq> 0) (Inr (LoadFieldExpr inst field))"

definition new_SetFieldExpr :: "uword \<Rightarrow> expr \<Rightarrow> expr \<Rightarrow> expr res" where
  "new_SetFieldExpr field inst value =
    asserting (field \<noteq> 0) (Inr (SetFieldExpr field inst value))"

definition new_LoadInstanceMethodExpr :: "uword \<Rightarrow> uword \<Rightarrow> expr res" where
  "new_LoadInstanceMethodExpr cls name =
    asserting (cls \<noteq> 0 \<and> name \<noteq> 0) (Inr (LoadInstanceMethodExpr cls name))"

definition new_ImportExpr :: "uword \<Rightarrow> expr res" where
  "new_ImportExpr m = asserting (m \<noteq> 0) (Inr (ImportExpr m))"

definition new_SetLocalExpr :: "nat \<Rightarrow> expr option \<Rightarrow> expr res" where
  "new_SetLocalExpr local value = Inr (SetLocalExpr local value)"

definition new_LocalDef :: "nat \<Rightarrow> expr option \<Rightarrow> expr res" where
  "new_LocalDef local value =
    (case value of None \<Rightarrow> Inl AssertFailed | Some e \<Rightarrow> Inr (LocalDef local e))"

definition new_RxOpExpr :: "uword \<Rightarrow> expr list \<Rightarrow> expr res" where
  "new_RxOpExpr symbol body = asserting (symbol \<noteq> 0) (Inr (RxOpExpr symbol body))"

subsection \<open>Children\<close>

text \<open>Reading a vector out of its bounds.\<close>

definition vec_at :: "'a list \<Rightarrow> nat \<Rightarrow> 'a res" where
  "vec_at xs i = guardr UndefinedBehaviour (i < length xs) (Inr (xs ! i))"

text \<open>A fixed array of children, read with \<open>std::array::at\<close>, after an assertion that lets the
  index one past the end through.\<close>

definition array_at :: "'a list \<Rightarrow> nat \<Rightarrow> 'a res" where
  "array_at xs i = asserting (i \<le> length xs) (guardr (CppException ''out_of_range'') (i < length xs) (Inr (xs ! i)))"

definition definition_at :: "expr list \<Rightarrow> nat \<Rightarrow> expr res" where
  "definition_at es i = asserting (i \<le> length es) (vec_at es i)"

definition sequence_at :: "expr list \<Rightarrow> nat \<Rightarrow> expr res" where
  "sequence_at es i = asserting (i \<le> length es) (vec_at es i)"

definition CallProcExpr_at :: "expr \<Rightarrow> expr list \<Rightarrow> nat \<Rightarrow> expr res" where
  "CallProcExpr_at target args i =
    asserting (i \<le> length args + 1) (if i = 0 then Inr target else vec_at args (i - 1))"

definition ClauseExpr_GetActionAt :: "expr list \<Rightarrow> nat \<Rightarrow> expr res" where
  "ClauseExpr_GetActionAt actions i = asserting (i \<le> length actions) (vec_at actions i)"

definition ClauseExpr_at :: "expr \<Rightarrow> expr list \<Rightarrow> nat \<Rightarrow> expr res" where
  "ClauseExpr_at key actions i =
    asserting (i \<le> 1 + length actions)
      (if i = 0 then Inr key else ClauseExpr_GetActionAt actions (i - 1))"

definition CondExpr_at :: "expr list \<Rightarrow> expr option \<Rightarrow> nat \<Rightarrow> expr option res" where
  "CondExpr_at clauses alt i =
    asserting (i < (if alt \<noteq> None then 1 else 0) + length clauses)
      (if i \<le> length clauses then rbind (vec_at clauses i) (\<lambda>c. Inr (Some c)) else Inr alt)"

definition WhenExpr_GetActionAt :: "expr list \<Rightarrow> nat \<Rightarrow> expr res" where
  "WhenExpr_GetActionAt actions i = asserting (i \<le> length actions) (vec_at actions i)"

definition WhenExpr_at :: "expr \<Rightarrow> expr list \<Rightarrow> nat \<Rightarrow> expr res" where
  "WhenExpr_at test actions i =
    asserting (i \<le> 1 + length actions)
      (if i = 0 then Inr test else WhenExpr_GetActionAt actions (i - 1))"

text \<open>The bindings of a \<open>let\<close> come before its body. \<open>SequenceExpr::GetChildAt\<close>, called for the
  body, compares the index with the number of children of the whole \<open>let\<close>, a virtual call.\<close>

definition LetExpr_at :: "expr list \<Rightarrow> expr list \<Rightarrow> nat \<Rightarrow> expr res" where
  "LetExpr_at bindings body i =
    asserting (i \<le> length body + length bindings)
      (if length bindings \<le> i
       then asserting (i - length bindings \<le> length body + length bindings)
              (vec_at body (i - length bindings))
       else vec_at bindings i)"

definition NewExpr_at :: "expr list \<Rightarrow> nat \<Rightarrow> expr res" where
  "NewExpr_at args i = asserting (i \<le> length args) (vec_at args i)"

definition NewMapExpr_at :: "(uword \<times> expr) list \<Rightarrow> nat \<Rightarrow> expr res" where
  "NewMapExpr_at data i =
    asserting (i \<le> length data) (rbind (vec_at data i) (\<lambda>kv. Inr (snd kv)))"

text \<open>The virtual functions \<open>GetNumberOfChildren\<close> and \<open>GetChildAt\<close>; \<open>Expression\<close>'s own answer
  zero and null.\<close>

definition GetNumberOfChildren :: "expr \<Rightarrow> nat" where
  "GetNumberOfChildren e =
    (case e of
       UnaryExpr _ _ \<Rightarrow> 1 | BinaryOpExpr _ _ _ \<Rightarrow> 2 | ThrowExpr _ \<Rightarrow> 1
     | LoadFieldExpr _ _ \<Rightarrow> 1 | InstanceOfExpr _ _ \<Rightarrow> 1 | CastExpr _ _ \<Rightarrow> 1 | LocalDef _ _ \<Rightarrow> 1
     | BeginExpr es \<Rightarrow> length es | WhileExpr _ es \<Rightarrow> length es | RxOpExpr _ es \<Rightarrow> length es
     | LetRxExpr _ _ es \<Rightarrow> length es | ListExpr es \<Rightarrow> length es
     | LetExpr _ bs es \<Rightarrow> length es + length bs
     | CallProcExpr _ args \<Rightarrow> length args + 1
     | ClauseExpr _ as \<Rightarrow> 1 + length as | WhenExpr _ as \<Rightarrow> 1 + length as
     | CondExpr cs alt \<Rightarrow> (if alt \<noteq> None then 1 else 0) + length cs
     | NewExpr _ args \<Rightarrow> length args
     | NewMapExpr kvs \<Rightarrow> length kvs
     | _ \<Rightarrow> 0)"

definition GetChildAt :: "expr \<Rightarrow> nat \<Rightarrow> expr option res" where
  "GetChildAt e i =
    (let some = (\<lambda>r. rbind r (\<lambda>x. Inr (Some x))) in
     case e of
       UnaryExpr _ a \<Rightarrow> some (array_at [a] i)
     | BinaryOpExpr _ a b \<Rightarrow> some (array_at [a, b] i)
     | ThrowExpr a \<Rightarrow> some (array_at [a] i)
     | LoadFieldExpr a _ \<Rightarrow> some (array_at [a] i)
     | InstanceOfExpr _ a \<Rightarrow> some (array_at [a] i)
     | CastExpr _ a \<Rightarrow> some (array_at [a] i)
     | LocalDef _ a \<Rightarrow> some (definition_at [a] i)
     | BeginExpr es \<Rightarrow> some (sequence_at es i)
     | WhileExpr _ es \<Rightarrow> some (sequence_at es i)
     | RxOpExpr _ es \<Rightarrow> some (sequence_at es i)
     | LetRxExpr _ _ es \<Rightarrow> some (sequence_at es i)
     | ListExpr es \<Rightarrow> some (sequence_at es i)
     | LetExpr _ bs es \<Rightarrow> some (LetExpr_at bs es i)
     | CallProcExpr t args \<Rightarrow> some (CallProcExpr_at t args i)
     | ClauseExpr k as \<Rightarrow> some (ClauseExpr_at k as i)
     | WhenExpr t as \<Rightarrow> some (WhenExpr_at t as i)
     | CondExpr cs alt \<Rightarrow> CondExpr_at cs alt i
     | NewExpr _ args \<Rightarrow> some (NewExpr_at args i)
     | NewMapExpr kvs \<Rightarrow> some (NewMapExpr_at kvs i)
     | _ \<Rightarrow> Inr None)"

definition GetArgAt :: "expr list \<Rightarrow> expr \<Rightarrow> nat \<Rightarrow> expr res" where
  "GetArgAt args target i = CallProcExpr_at target args (i + 1)"

definition GetLastExpr :: "expr list \<Rightarrow> expr option" where
  "GetLastExpr es = (if es = [] then None else Some (last es))"

subsection \<open>Visiting the children\<close>

text \<open>A visitor is called on an expression and answers whether to go on. What it does to the
  state is its own.\<close>

type_synonym 's visitor = "expr \<Rightarrow> ('s, bool) op_on"

fun visit_all :: "'s visitor \<Rightarrow> expr list \<Rightarrow> ('s, bool) op_on" where
  "visit_all vis [] = ret True"
| "visit_all vis (e # es) = sbind (vis e) (\<lambda>ok. if ok then visit_all vis es else ret False)"

definition both :: "('s, bool) op_on \<Rightarrow> ('s, bool) op_on \<Rightarrow> ('s, bool) op_on" where
  "both m k = sbind m (\<lambda>ok. if ok then k else ret False)"

definition TemplateExpression_VisitChildren :: "'s visitor \<Rightarrow> expr list \<Rightarrow> ('s, bool) op_on" where
  "TemplateExpression_VisitChildren vis children = visit_all vis children"

definition BinaryOpExpr_VisitChildren :: "'s visitor \<Rightarrow> expr \<Rightarrow> expr \<Rightarrow> ('s, bool) op_on" where
  "BinaryOpExpr_VisitChildren vis left right = both (vis left) (both (vis right) (ret True))"

definition SequenceExpr_VisitChildren :: "'s visitor \<Rightarrow> expr list \<Rightarrow> ('s, bool) op_on" where
  "SequenceExpr_VisitChildren vis children = visit_all vis children"

text \<open>Only the definitions of a sequence.\<close>

fun SequenceExpr_VisitAllDefinitions :: "'s visitor \<Rightarrow> expr list \<Rightarrow> ('s, bool) op_on" where
  "SequenceExpr_VisitAllDefinitions vis [] = ret True"
| "SequenceExpr_VisitAllDefinitions vis (e # es) =
    (case e of
       LocalDef _ _ \<Rightarrow> both (vis e) (SequenceExpr_VisitAllDefinitions vis es)
     | _ \<Rightarrow> SequenceExpr_VisitAllDefinitions vis es)"

definition CallProcExpr_VisitChildren :: "'s visitor \<Rightarrow> expr \<Rightarrow> expr list \<Rightarrow> ('s, bool) op_on" where
  "CallProcExpr_VisitChildren vis target args = both (vis target) (visit_all vis args)"

definition ClauseExpr_VisitAllActions :: "'s visitor \<Rightarrow> expr list \<Rightarrow> ('s, bool) op_on" where
  "ClauseExpr_VisitAllActions vis actions = visit_all vis actions"

definition ClauseExpr_VisitChildren :: "'s visitor \<Rightarrow> expr \<Rightarrow> expr list \<Rightarrow> ('s, bool) op_on" where
  "ClauseExpr_VisitChildren vis key actions = both (vis key) (ClauseExpr_VisitAllActions vis actions)"

definition CondExpr_VisitAllClauses :: "'s visitor \<Rightarrow> expr list \<Rightarrow> ('s, bool) op_on" where
  "CondExpr_VisitAllClauses vis clauses = visit_all vis clauses"

definition CondExpr_VisitChildren :: "'s visitor \<Rightarrow> expr list \<Rightarrow> expr option \<Rightarrow> ('s, bool) op_on" where
  "CondExpr_VisitChildren vis clauses alt =
    both (CondExpr_VisitAllClauses vis clauses)
      (case alt of None \<Rightarrow> ret True | Some a \<Rightarrow> both (vis a) (ret True))"

definition WhenExpr_VisitChildren :: "'s visitor \<Rightarrow> expr \<Rightarrow> expr list \<Rightarrow> ('s, bool) op_on" where
  "WhenExpr_VisitChildren vis test actions = both (vis test) (visit_all vis actions)"

definition CaseExpr_VisitAllClauses :: "'s visitor \<Rightarrow> expr list \<Rightarrow> ('s, bool) op_on" where
  "CaseExpr_VisitAllClauses vis clauses = visit_all vis clauses"

definition CaseExpr_VisitChildren :: "'s visitor \<Rightarrow> expr \<Rightarrow> expr list \<Rightarrow> ('s, bool) op_on" where
  "CaseExpr_VisitChildren vis key clauses = both (vis key) (CaseExpr_VisitAllClauses vis clauses)"

definition SetLocalExpr_VisitChildren :: "'s visitor \<Rightarrow> expr option \<Rightarrow> ('s, bool) op_on" where
  "SetLocalExpr_VisitChildren vis value = (case value of None \<Rightarrow> ret False | Some e \<Rightarrow> vis e)"

text \<open>\<open>SetFieldExpr\<close> visits its value only when it has none, a call on the null pointer that the
  constructor excludes.\<close>

definition SetFieldExpr_VisitChildren :: "'s visitor \<Rightarrow> expr option \<Rightarrow> expr option \<Rightarrow> ('s, bool) op_on" where
  "SetFieldExpr_VisitChildren vis inst value =
    both (case inst of None \<Rightarrow> ret True | Some i \<Rightarrow> vis i)
      (case value of None \<Rightarrow> fails UndefinedBehaviour | Some v \<Rightarrow> ret True)"

definition LetExpr_VisitAllBindings :: "'s visitor \<Rightarrow> expr list \<Rightarrow> ('s, bool) op_on" where
  "LetExpr_VisitAllBindings vis bindings = visit_all vis bindings"

definition LetExpr_VisitChildren :: "'s visitor \<Rightarrow> expr list \<Rightarrow> expr list \<Rightarrow> ('s, bool) op_on" where
  "LetExpr_VisitChildren vis bindings body =
    both (LetExpr_VisitAllBindings vis bindings) (SequenceExpr_VisitChildren vis body)"

definition NewExpr_VisitArgs :: "'s visitor \<Rightarrow> expr list \<Rightarrow> ('s, bool) op_on" where
  "NewExpr_VisitArgs vis args = visit_all vis args"

fun NewMapExpr_VisitChildren :: "'s visitor \<Rightarrow> (uword \<times> expr) list \<Rightarrow> ('s, bool) op_on" where
  "NewMapExpr_VisitChildren vis [] = ret True"
| "NewMapExpr_VisitChildren vis ((k, e) # kvs) =
    sthen (sassert (k \<noteq> 0)) (both (vis e) (NewMapExpr_VisitChildren vis kvs))"

definition TemplateDefinition_VisitChildren :: "'s visitor \<Rightarrow> expr list \<Rightarrow> ('s, bool) op_on" where
  "TemplateDefinition_VisitChildren vis children = visit_all vis children"

text \<open>The virtual function; \<open>Expression\<close>'s own answers false.\<close>

definition VisitChildren :: "'s visitor \<Rightarrow> expr \<Rightarrow> ('s, bool) op_on" where
  "VisitChildren vis e =
    (case e of
       UnaryExpr _ a \<Rightarrow> TemplateExpression_VisitChildren vis [a]
     | BinaryOpExpr _ a b \<Rightarrow> BinaryOpExpr_VisitChildren vis a b
     | ThrowExpr a \<Rightarrow> TemplateExpression_VisitChildren vis [a]
     | LoadFieldExpr a _ \<Rightarrow> TemplateExpression_VisitChildren vis [a]
     | InstanceOfExpr _ a \<Rightarrow> TemplateExpression_VisitChildren vis [a]
     | CastExpr _ a \<Rightarrow> TemplateExpression_VisitChildren vis [a]
     | LocalDef _ a \<Rightarrow> TemplateDefinition_VisitChildren vis [a]
     | BeginExpr es \<Rightarrow> SequenceExpr_VisitChildren vis es
     | WhileExpr _ es \<Rightarrow> SequenceExpr_VisitChildren vis es
     | RxOpExpr _ es \<Rightarrow> SequenceExpr_VisitChildren vis es
     | LetRxExpr _ _ es \<Rightarrow> SequenceExpr_VisitChildren vis es
     | ListExpr es \<Rightarrow> SequenceExpr_VisitChildren vis es
     | LetExpr _ bs es \<Rightarrow> LetExpr_VisitChildren vis bs es
     | CallProcExpr t args \<Rightarrow> CallProcExpr_VisitChildren vis t args
     | ClauseExpr k as \<Rightarrow> ClauseExpr_VisitChildren vis k as
     | CondExpr cs alt \<Rightarrow> CondExpr_VisitChildren vis cs alt
     | WhenExpr t as \<Rightarrow> WhenExpr_VisitChildren vis t as
     | CaseExpr k cs \<Rightarrow> CaseExpr_VisitChildren vis k cs
     | SetLocalExpr _ v \<Rightarrow> SetLocalExpr_VisitChildren vis v
     | SetFieldExpr _ i v \<Rightarrow> SetFieldExpr_VisitChildren vis (Some i) (Some v)
     | NewExpr _ args \<Rightarrow> NewExpr_VisitArgs vis args
     | NewMapExpr kvs \<Rightarrow> NewMapExpr_VisitChildren vis kvs
     | _ \<Rightarrow> ret False)"

subsection \<open>What the children are\<close>

text \<open>Every child of a node, in the order in which the code that owns the node numbers them.\<close>

definition children :: "expr \<Rightarrow> expr list" where
  "children e =
    (case e of
       UnaryExpr _ a \<Rightarrow> [a] | BinaryOpExpr _ a b \<Rightarrow> [a, b] | ThrowExpr a \<Rightarrow> [a]
     | LoadFieldExpr a _ \<Rightarrow> [a] | InstanceOfExpr _ a \<Rightarrow> [a] | CastExpr _ a \<Rightarrow> [a] | LocalDef _ a \<Rightarrow> [a]
     | BeginExpr es \<Rightarrow> es | WhileExpr _ es \<Rightarrow> es | RxOpExpr _ es \<Rightarrow> es
     | LetRxExpr _ _ es \<Rightarrow> es | ListExpr es \<Rightarrow> es | LetExpr _ bs es \<Rightarrow> bs @ es
     | CallProcExpr t args \<Rightarrow> t # args | ClauseExpr k as \<Rightarrow> k # as | WhenExpr t as \<Rightarrow> t # as
     | CondExpr cs alt \<Rightarrow> cs @ (case alt of None \<Rightarrow> [] | Some a \<Rightarrow> [a])
     | NewExpr _ args \<Rightarrow> args | NewMapExpr kvs \<Rightarrow> map snd kvs | _ \<Rightarrow> [])"

lemma number_of_children: "GetNumberOfChildren e = length (children e)"
  by (cases e) (simp_all add: GetNumberOfChildren_def children_def split: option.split)

lemma array_at_nth: "i < length xs \<Longrightarrow> array_at xs i = Inr (xs ! i)"
  by (simp add: array_at_def)

lemma vec_at_nth: "i < length xs \<Longrightarrow> vec_at xs i = Inr (xs ! i)"
  by (simp add: vec_at_def)

lemmas child_defs = GetChildAt_def GetNumberOfChildren_def children_def vec_at_def array_at_def
  definition_at_def sequence_at_def CallProcExpr_at_def ClauseExpr_at_def WhenExpr_at_def
  ClauseExpr_GetActionAt_def WhenExpr_GetActionAt_def CondExpr_at_def LetExpr_at_def
  NewExpr_at_def NewMapExpr_at_def

text \<open>C35. Within the bounds a node reports, \<open>GetChildAt\<close> returns exactly the node's children in
  order, but for one child: the alternate of a conditional, whose index passes the test for a
  clause, so that reading it is a read past the end of the clauses.\<close>

theorem GetChildAt_children:
  assumes "i < GetNumberOfChildren e"
  shows "GetChildAt e i =
    (case e of
       CondExpr cs alt \<Rightarrow> if i = length cs then Inl UndefinedBehaviour else Inr (Some (children e ! i))
     | _ \<Rightarrow> Inr (Some (children e ! i)))"
proof (cases e)
  case (CallProcExpr t as)
  then show ?thesis using assms by (cases i) (simp_all add: child_defs)
next
  case (ClauseExpr t as)
  then show ?thesis using assms by (cases i) (simp_all add: child_defs)
next
  case (WhenExpr t as)
  then show ?thesis using assms by (cases i) (simp_all add: child_defs)
next
  case (CondExpr cs alt)
  then show ?thesis using assms
    by (cases alt) (auto simp: child_defs nth_append)
next
  case (LetExpr s bs es)
  then have "i - length bs < length es" "i - length bs \<le> length es + length bs" if "length bs \<le> i"
    using assms that by (simp_all add: GetNumberOfChildren_def)
  then show ?thesis using assms LetExpr
    by (auto simp: child_defs nth_append)
next
  case (BinaryOpExpr op a b)
  then show ?thesis using assms
    by (auto simp: child_defs less_2_cases_iff)
qed (use assms in \<open>simp_all add: child_defs\<close>)

theorem GetChildAt_children_witness:
  "GetChildAt (CondExpr [ClauseExpr (LiteralExpr 8) [LiteralExpr 16]] (Some (LiteralExpr 24))) 1 =
     Inl UndefinedBehaviour \<and>
   GetChildAt (CallProcExpr (LiteralExpr 8) [LiteralExpr 16]) 1 = Inr (Some (LiteralExpr 16))"
  using GetChildAt_children
      [of 1 "CondExpr [ClauseExpr (LiteralExpr 8) [LiteralExpr 16]] (Some (LiteralExpr 24))"]
    GetChildAt_children [of 1 "CallProcExpr (LiteralExpr 8) [LiteralExpr 16]"]
  by (simp add: GetNumberOfChildren_def children_def)

text \<open>The subexpressions of a node in the order of the code that walks the whole tree, and the
  nodes that have a walk of their own.\<close>

definition subexprs :: "expr \<Rightarrow> expr list" where
  "subexprs e =
    (case e of
       CaseExpr k cs \<Rightarrow> k # cs
     | WhileExpr t es \<Rightarrow> t # es
     | SetLocalExpr _ v \<Rightarrow> (case v of None \<Rightarrow> [] | Some x \<Rightarrow> [x])
     | SetFieldExpr _ i v \<Rightarrow> [i, v]
     | Binding _ v \<Rightarrow> [v]
     | LetRxExpr _ s es \<Rightarrow> s # es
     | _ \<Rightarrow> children e)"

definition null_key :: "expr \<Rightarrow> bool" where
  "null_key e = (case e of NewMapExpr kvs \<Rightarrow> 0 \<in> fst ` set kvs | _ \<Rightarrow> False)"

lemma visit_all_apply:
  "visit_all vis (es @ fs) = both (visit_all vis es) (visit_all vis fs)"
proof (rule ext, induction es)
  case Nil
  show ?case by (simp add: both_def sbind_def ret_def)
next
  case (Cons e es)
  have "visit_all vis (es @ fs) = both (visit_all vis es) (visit_all vis fs)"
    using Cons by (rule ext)
  then show ?case by (auto simp: both_def op_simps rbind_assoc split_def intro!: rbind_cong)
qed

lemma both_ret: "both m (ret True) = m"
  by (rule ext) (auto simp: both_def op_simps rbind_def split: sum.splits)

lemma visit_all_single: "visit_all vis [e] = vis e"
  by (rule ext) (auto simp: op_simps rbind_def split: sum.splits)

lemma visit_all_Cons: "visit_all vis (e # es) = both (vis e) (visit_all vis es)"
  by (simp add: both_def)

lemma NewMapExpr_visits:
  "0 \<notin> fst ` set kvs \<Longrightarrow> NewMapExpr_VisitChildren vis kvs = visit_all vis (map snd kvs)"
proof (induction kvs)
  case (Cons kv kvs)
  then show ?case by (cases kv) (simp add: both_def sthen_def sbind_def sguard_def)
qed simp

lemmas visit_defs = VisitChildren_def TemplateExpression_VisitChildren_def
  BinaryOpExpr_VisitChildren_def SequenceExpr_VisitChildren_def CallProcExpr_VisitChildren_def
  ClauseExpr_VisitAllActions_def ClauseExpr_VisitChildren_def CondExpr_VisitAllClauses_def
  CondExpr_VisitChildren_def WhenExpr_VisitChildren_def CaseExpr_VisitAllClauses_def
  CaseExpr_VisitChildren_def SetLocalExpr_VisitChildren_def SetFieldExpr_VisitChildren_def
  LetExpr_VisitAllBindings_def LetExpr_VisitChildren_def NewExpr_VisitArgs_def
  TemplateDefinition_VisitChildren_def

text \<open>Visiting the children of a node visits its subexpressions, each once and in order, until
  the visitor answers false - for every node but those that keep a subexpression from the
  visitor: a while loop its test, a reactive let its source, a field assignment the assigned
  value; a binding, a literal, a quoted symbol, an import and an instance method answer false
  without visiting.\<close>

theorem VisitChildren_visits:
  assumes "\<not> null_key e"
  shows "VisitChildren vis e =
    (case e of
       WhileExpr t es \<Rightarrow> visit_all vis (tl (subexprs e))
     | LetRxExpr _ _ es \<Rightarrow> visit_all vis (tl (subexprs e))
     | SetFieldExpr _ _ _ \<Rightarrow> visit_all vis [hd (subexprs e)]
     | SetLocalExpr _ v \<Rightarrow> if v = None then ret False else visit_all vis (subexprs e)
     | Binding _ _ \<Rightarrow> ret False
     | LiteralExpr _ \<Rightarrow> ret False | QuotedExpr _ \<Rightarrow> ret False | ImportExpr _ \<Rightarrow> ret False
     | LoadInstanceMethodExpr _ _ \<Rightarrow> ret False
     | _ \<Rightarrow> visit_all vis (subexprs e))"
proof (cases e)
  case (CondExpr cs alt)
  then show ?thesis
    by (cases alt)
      (simp_all add: visit_defs subexprs_def children_def visit_all_apply visit_all_single both_ret
        del: visit_all.simps)
next
  case (NewMapExpr kvs)
  then show ?thesis using assms
    by (simp add: visit_defs subexprs_def children_def null_key_def NewMapExpr_visits)
next
  case (SetLocalExpr l v)
  then show ?thesis
    by (cases v) (simp_all add: visit_defs subexprs_def visit_all_single del: visit_all.simps)
next
  case (LetExpr s bs es)
  then show ?thesis by (simp add: visit_defs subexprs_def children_def visit_all_apply)
next
  case (SetFieldExpr f i v)
  then show ?thesis
    by (simp add: visit_defs subexprs_def visit_all_single both_ret del: visit_all.simps)
next
  case (BinaryOpExpr op a b)
  then show ?thesis
    by (simp add: visit_defs subexprs_def children_def visit_all_Cons both_ret del: visit_all.simps(2))
qed (simp_all add: visit_defs subexprs_def children_def visit_all_Cons del: visit_all.simps)

theorem VisitChildren_visits_witness:
  "VisitChildren (\<lambda>e log. Inr (True, log @ [e])) (SetFieldExpr 8 (LiteralExpr 16) (LiteralExpr 24)) [] =
     Inr (True, [LiteralExpr 16])"
  using VisitChildren_visits [of "SetFieldExpr 8 (LiteralExpr 16) (LiteralExpr 24)"
      "\<lambda>e log. Inr (True, log @ [e])"]
  by (simp add: null_key_def subexprs_def op_simps)

end
