(* ===== verification/Objects.thy ===== *)
theory Objects
  imports StateOps Exprs Regions Symbols Scopes
begin

text \<open>
  The objects of the runtime (\<open>gel/object.h\<close>, \<open>gel/object.cc\<close> and the headers of the object
  classes) and the store that holds them. An object is known by its address in the heap of
  theory \<open>Regions\<close>; the null pointer is address 0. The store is what the process keeps in
  globals and in the heap: the heap itself, the object at each address, the words of instance
  fields, the symbol pool, the scopes, the registered classes, and the shared values true,
  false, the empty list and the empty string.
\<close>

section \<open>Classes of objects\<close>

datatype (plugins only: code size) kind =
    KObject | KSeq | KClass | KField | KBool | KNumber | KDouble | KLong | KString | KSymbol
  | KMacro | KProcedure | KLambda | KNativeProcedure | KPair | KScript | KError | KNamespace
  | KSet | KMap | KModule | KEventLoop | KTimer | KBuffer | KArray | KExpression
  | KObserver | KObservable | KSubject | KPublishSubject | KReplaySubject

text \<open>The name a class is registered under.\<close>

definition kind_name :: "kind \<Rightarrow> string" where
  "kind_name k =
    (case k of
       KObject \<Rightarrow> ''Object'' | KSeq \<Rightarrow> ''Seq'' | KClass \<Rightarrow> ''Class'' | KField \<Rightarrow> ''Field''
     | KBool \<Rightarrow> ''Bool'' | KNumber \<Rightarrow> ''Number'' | KDouble \<Rightarrow> ''Double'' | KLong \<Rightarrow> ''Long''
     | KString \<Rightarrow> ''String'' | KSymbol \<Rightarrow> ''Symbol'' | KMacro \<Rightarrow> ''Macro''
     | KProcedure \<Rightarrow> ''Procedure'' | KLambda \<Rightarrow> ''Lambda'' | KNativeProcedure \<Rightarrow> ''NativeProcedure''
     | KPair \<Rightarrow> ''Pair'' | KScript \<Rightarrow> ''Script'' | KError \<Rightarrow> ''Error'' | KNamespace \<Rightarrow> ''Namespace''
     | KSet \<Rightarrow> ''Set'' | KMap \<Rightarrow> ''Map'' | KModule \<Rightarrow> ''Module'' | KEventLoop \<Rightarrow> ''EventLoop''
     | KTimer \<Rightarrow> ''Timer'' | KBuffer \<Rightarrow> ''Buffer'' | KArray \<Rightarrow> ''Array'' | KExpression \<Rightarrow> ''Object''
     | KObserver \<Rightarrow> ''Observer'' | KObservable \<Rightarrow> ''Observable'' | KSubject \<Rightarrow> ''Subject''
     | KPublishSubject \<Rightarrow> ''PublishSubject'' | KReplaySubject \<Rightarrow> ''ReplaySubject'')"

section \<open>Objects\<close>

record class_obj =
  cl_id :: uword
  cl_parent :: uword
  cl_name :: uword
  cl_funcs :: "uword list"
  cl_fields :: "uword list"

datatype field_value = FOffset uword | FObject uword

record field_obj =
  fd_owner :: uword
  fd_name :: uword
  fd_value :: field_value

record lambda =
  lm_symbol :: uword
  lm_owner :: uword
  lm_docs :: uword
  lm_scope :: "nat option"
  lm_args :: "argument list"
  lm_body :: "expr list"
  lm_code :: region

text \<open>The entry of a native procedure is a C++ object; here, its number.\<close>

record native =
  nv_symbol :: uword
  nv_args :: "argument list"
  nv_docs :: uword
  nv_entry :: "nat option"

record script =
  sp_scope :: "nat option"
  sp_name :: uword
  sp_macros :: "uword list"
  sp_lambdas :: "uword list"
  sp_namespaces :: "uword list"
  sp_body :: "expr list"
  sp_code :: region

record macro =
  mc_owner :: uword
  mc_symbol :: uword
  mc_docs :: uword
  mc_scope :: "nat option"
  mc_args :: "argument list"
  mc_body :: "expr list"

record namespace_obj =
  ns_owner :: uword
  ns_symbol :: uword
  ns_scope :: nat
  ns_docs :: uword

record module_obj =
  md_name :: uword
  md_scope :: nat
  md_namespaces :: "uword list"
  md_macros :: "uword list"
  md_init :: uword

text \<open>A double is its bits. A set is its elements and a map its bindings, each with the hash it was
  inserted under and in the order of insertion; an array is the addresses of its elements, 0 for
  none; a buffer is its capacity and the bytes written; an event loop is its timers, a timer its
  number and its procedure, without the handles of the event library. The reactive objects keep
  their contents in library objects that are left out.\<close>

datatype (plugins only: code size) obj =
    OClass class_obj
  | OField field_obj
  | OBool bool
  | OLong uword
  | ODouble uword
  | OPair uword uword
  | OString string
  | OSymbol symbol
  | OLambda lambda
  | ONative native
  | OScript script
  | OError uword
  | OMacro macro
  | ONamespace namespace_obj
  | OModule module_obj
  | OSet "(uword \<times> uword) list"
  | OMap "(uword \<times> uword \<times> uword) list"
  | OBuffer uword "byte list"
  | OArray "uword list"
  | OEventLoop "uword list"
  | OTimer uword uword
  | ORx kind

definition kind_of :: "obj \<Rightarrow> kind" where
  "kind_of x =
    (case x of
       OClass _ \<Rightarrow> KClass | OField _ \<Rightarrow> KField | OBool _ \<Rightarrow> KBool | OLong _ \<Rightarrow> KLong
     | ODouble _ \<Rightarrow> KDouble | OPair _ _ \<Rightarrow> KPair | OString _ \<Rightarrow> KString | OSymbol _ \<Rightarrow> KSymbol
     | OLambda _ \<Rightarrow> KLambda | ONative _ \<Rightarrow> KNativeProcedure | OScript _ \<Rightarrow> KScript
     | OError _ \<Rightarrow> KError | OMacro _ \<Rightarrow> KMacro | ONamespace _ \<Rightarrow> KNamespace | OModule _ \<Rightarrow> KModule
     | OSet _ \<Rightarrow> KSet | OMap _ \<Rightarrow> KMap | OBuffer _ _ \<Rightarrow> KBuffer | OArray _ \<Rightarrow> KArray
     | OEventLoop _ \<Rightarrow> KEventLoop
     | OTimer _ _ \<Rightarrow> KTimer | ORx k \<Rightarrow> k)"

definition IsProcedure :: "obj \<Rightarrow> bool" where
  "IsProcedure x = (case x of OLambda _ \<Rightarrow> True | ONative _ \<Rightarrow> True | _ \<Rightarrow> False)"

definition IsNumber :: "obj \<Rightarrow> bool" where
  "IsNumber x = (case x of OLong _ \<Rightarrow> True | ODouble _ \<Rightarrow> True | _ \<Rightarrow> False)"

definition IsClassObj :: "obj \<Rightarrow> bool" where
  "IsClassObj x = (case x of OClass _ \<Rightarrow> True | _ \<Rightarrow> False)"

section \<open>The machine and the store\<close>

text \<open>What the compiler and the floating point unit of the target provide: the size of each
  class, and the operations on doubles. Converting a double out of range has no meaning in C++.\<close>

record machine =
  m_sizeof :: "kind \<Rightarrow> uword"
  m_dadd :: "uword \<Rightarrow> uword \<Rightarrow> uword"
  m_dsub :: "uword \<Rightarrow> uword \<Rightarrow> uword"
  m_dmul :: "uword \<Rightarrow> uword \<Rightarrow> uword"
  m_ddiv :: "uword \<Rightarrow> uword \<Rightarrow> uword"
  m_deq :: "uword \<Rightarrow> uword \<Rightarrow> bool"
  m_to_long :: "uword \<Rightarrow> uword option"
  m_to_double :: "uword \<Rightarrow> uword"

record store =
  st_heap :: heap
  st_objs :: "uword \<rightharpoonup> obj"
  st_slots :: "uword \<rightharpoonup> uword"
  st_pool :: pool
  st_scopes :: scopes
  st_class :: "kind \<Rightarrow> uword"
  st_classes :: "uword list"
  st_num_classes :: uword
  st_true :: uword
  st_false :: uword
  st_empty_pair :: uword
  st_empty_string :: uword

text \<open>The globals before the runtime is initialised.\<close>

definition initial_store :: "heap \<Rightarrow> store" where
  "initial_store h =
    \<lparr>st_heap = h, st_objs = Map.empty, st_slots = Map.empty, st_pool = empty_pool,
     st_scopes = empty_scopes, st_class = (\<lambda>_. 0), st_classes = [], st_num_classes = 0,
     st_true = 0, st_false = 0, st_empty_pair = 0, st_empty_string = 0\<rparr>"

lemma initial_store_sel [simp]:
  "st_heap (initial_store h) = h" "st_objs (initial_store h) = Map.empty"
  "st_class (initial_store h) k = 0" "st_empty_pair (initial_store h) = 0"
  "st_scopes (initial_store h) = empty_scopes" "st_classes (initial_store h) = []"
  "st_true (initial_store h) = 0" "st_false (initial_store h) = 0"
  by (simp_all add: initial_store_def)

type_synonym 'a sop = "(store, 'a) op_on"

definition obj_at :: "uword \<Rightarrow> store \<Rightarrow> obj res" where
  "obj_at a st =
    (if a = 0 then Inl UndefinedBehaviour
     else case st_objs st a of None \<Rightarrow> Inl UndefinedBehaviour | Some x \<Rightarrow> Inr x)"

definition put_obj :: "uword \<Rightarrow> obj \<Rightarrow> store \<Rightarrow> store" where
  "put_obj a x st = st\<lparr>st_objs := (st_objs st)(a \<mapsto> x)\<rparr>"

definition string_at :: "uword \<Rightarrow> store \<Rightarrow> string res" where
  "string_at a st =
    rbind (obj_at a st) (\<lambda>x. case x of OString s \<Rightarrow> Inr s | _ \<Rightarrow> Inl UndefinedBehaviour)"

definition symbol_at :: "uword \<Rightarrow> store \<Rightarrow> symbol res" where
  "symbol_at a st =
    rbind (obj_at a st) (\<lambda>x. case x of OSymbol s \<Rightarrow> Inr s | _ \<Rightarrow> Inl UndefinedBehaviour)"

definition class_at :: "uword \<Rightarrow> store \<Rightarrow> class_obj res" where
  "class_at a st =
    rbind (obj_at a st) (\<lambda>x. case x of OClass c \<Rightarrow> Inr c | _ \<Rightarrow> Inl UndefinedBehaviour)"

definition field_at :: "uword \<Rightarrow> store \<Rightarrow> field_obj res" where
  "field_at a st =
    rbind (obj_at a st) (\<lambda>x. case x of OField f \<Rightarrow> Inr f | _ \<Rightarrow> Inl UndefinedBehaviour)"

section \<open>Equality\<close>

definition String_Equals :: "string \<Rightarrow> obj \<Rightarrow> bool" where
  "String_Equals s x =
    (case x of
       OSymbol y \<Rightarrow> s = GetFullyQualifiedName y
     | OString t \<Rightarrow> s = t
     | _ \<Rightarrow> False)"

text \<open>\<open>Class::Equals\<close> compares the names.\<close>

definition Class_Equals :: "uword \<Rightarrow> uword \<Rightarrow> store \<Rightarrow> bool res" where
  "Class_Equals a b st =
    (if b = 0 then Inr False
     else rbind (obj_at b st) (\<lambda>y.
       case y of
         OClass d \<Rightarrow>
           rbind (class_at a st) (\<lambda>c.
           rbind (string_at (cl_name c) st) (\<lambda>s.
           rbind (string_at (cl_name d) st) (\<lambda>t. Inr (s = t))))
       | _ \<Rightarrow> Inr False))"

text \<open>Two objects that are equal when their symbols are.\<close>

definition symbols_equal :: "uword \<Rightarrow> uword \<Rightarrow> store \<Rightarrow> bool res" where
  "symbols_equal a b st =
    rbind (symbol_at a st) (\<lambda>s.
    if b = 0 then Inr False
    else rbind (symbol_at b st) (\<lambda>t. Inr (Symbol_Equals s t)))"

text \<open>The virtual function \<open>Equals(Object*)\<close>. Comparing pairs recurses into both fields and does
  not end on a cyclic list, hence the fuel. A call on the null pointer, which the fields of the
  empty pair are, has no meaning.\<close>

fun Equals :: "nat \<Rightarrow> machine \<Rightarrow> uword \<Rightarrow> uword \<Rightarrow> store \<Rightarrow> bool res" where
  "Equals fuel M a b st =
    rbind (obj_at a st) (\<lambda>x.
    case x of
      OBool v \<Rightarrow> rbind (obj_at b st) (\<lambda>y. Inr (case y of OBool w \<Rightarrow> v = w | _ \<Rightarrow> False))
    | OPair p q \<Rightarrow>
        rbind (obj_at b st) (\<lambda>y.
        case y of
          OPair p' q' \<Rightarrow>
            (case fuel of
               0 \<Rightarrow> Inl OutOfFuel
             | Suc k \<Rightarrow>
                 rbind (Equals k M p p' st) (\<lambda>e. if e then Equals k M q q' st else Inr False))
        | _ \<Rightarrow> Inr False)
    | OLambda _ \<Rightarrow> rbind (obj_at b st) (\<lambda>y. Inr False)
    | OField _ \<Rightarrow> asserting (b \<noteq> 0) (Inr False)
    | OSet _ \<Rightarrow> Inl LogFatal
    | OBuffer _ _ \<Rightarrow> asserting (b \<noteq> 0) (Inl LogFatal)
    | ORx _ \<Rightarrow> asserting (b \<noteq> 0) (Inl LogFatal)
    | OClass _ \<Rightarrow> Class_Equals a b st
    | _ \<Rightarrow>
        if b = 0 then Inr False
        else rbind (obj_at b st) (\<lambda>y.
          case (x, y) of
            (OLong v, OLong w) \<Rightarrow> Inr (v = w)
          | (ODouble v, ODouble w) \<Rightarrow> Inr (m_deq M v w)
          | (OString s, _) \<Rightarrow> Inr (String_Equals s y)
          | (OSymbol s, OSymbol t) \<Rightarrow> Inr (Symbol_Equals s t)
          | (ONative n, ONative m) \<Rightarrow> symbols_equal (nv_symbol n) (nv_symbol m) st
          | (OScript _, OScript _) \<Rightarrow> Inr True
          | (OError s, OError t) \<Rightarrow> Inr (s = t)
          | (OMacro n, OMacro m) \<Rightarrow> symbols_equal (mc_symbol n) (mc_symbol m) st
          | (ONamespace n, ONamespace m) \<Rightarrow> symbols_equal (ns_symbol n) (ns_symbol m) st
          | (OModule n, OModule m) \<Rightarrow>
              rbind (string_at (md_name n) st) (\<lambda>s. rbind (string_at (md_name m) st) (\<lambda>t. Inr (s = t)))
          | (OMap _, OMap _) \<Rightarrow> Inl LogFatal
          | (OArray vs, OArray ws) \<Rightarrow> Inr (length vs = length ws)
          | _ \<Rightarrow> Inr False))"

declare Equals.simps [simp del]

section \<open>Allocation\<close>

text \<open>\<open>Class::GetAllocationSize\<close>: classes whose instances the heap sizes itself; asking for a
  module's size also gives the fields of the class \<open>Module\<close> their offsets.\<close>

fun set_offsets :: "uword list \<Rightarrow> uword \<Rightarrow> uword sop" where
  "set_offsets [] sz = ret sz"
| "set_offsets (f # fs) sz =
    sthen (sassert (f \<noteq> 0))
      (sbind (reads (field_at f)) (\<lambda>fd.
       sthen (modifies (put_obj f (OField (fd\<lparr>fd_value := FOffset sz\<rparr>))))
         (set_offsets fs (sz + 8))))"

definition GetAllocationSize :: "machine \<Rightarrow> uword \<Rightarrow> uword sop" where
  "GetAllocationSize M cls =
    sbind (asks st_class) (\<lambda>kc.
    sbind (reads (Class_Equals cls (kc KClass))) (\<lambda>is_class.
    if is_class then ret (m_sizeof M KClass)
    else sbind (reads (Class_Equals cls (kc KField))) (\<lambda>is_field.
    if is_field then ret (m_sizeof M KField)
    else sbind (reads (Class_Equals cls (kc KString))) (\<lambda>is_string.
    if is_string then ret (m_sizeof M KString)
    else sbind (reads (Class_Equals cls (kc KModule))) (\<lambda>is_module.
    if is_module then
      sbind (reads (class_at (kc KModule))) (\<lambda>c. set_offsets (cl_fields c) (m_sizeof M KModule))
    else ret 0)))))"

definition heap_op :: "(heap, 'a) op_on \<Rightarrow> 'a sop" where
  "heap_op m = on_part st_heap (\<lambda>h st. st\<lparr>st_heap := h\<rparr>) m"

text \<open>\<open>operator new\<close> of a class and the constructor's initialisation of the object.\<close>

definition operator_new :: "machine \<Rightarrow> kind \<Rightarrow> uword sop" where
  "operator_new M k =
    sbind (asks (\<lambda>st. st_class st k)) (\<lambda>cls.
    sbind (if cls \<noteq> 0 then GetAllocationSize M cls else ret (m_sizeof M k)) (\<lambda>alloc_size.
    sbind (heap_op (TryAllocate (if 0 < alloc_size then alloc_size else m_sizeof M k))) (\<lambda>address.
    sthen (sassert (address \<noteq> 0)) (ret address))))"

definition new_obj :: "machine \<Rightarrow> obj \<Rightarrow> uword sop" where
  "new_obj M x =
    sbind (operator_new M (kind_of x)) (\<lambda>a. sthen (modifies (put_obj a x)) (ret a))"

section \<open>The shared values\<close>

definition Bool_True :: "uword sop" where
  "Bool_True = sbind (asks st_true) (\<lambda>a. sthen (sassert (a \<noteq> 0)) (ret a))"

definition Bool_False :: "uword sop" where
  "Bool_False = sbind (asks st_false) (\<lambda>a. sthen (sassert (a \<noteq> 0)) (ret a))"

definition Bool_Box :: "bool \<Rightarrow> uword sop" where
  "Bool_Box b = (if b then Bool_True else Bool_False)"

text \<open>\<open>Pair::Empty\<close>, which is \<open>Null()\<close>: made on the first use.\<close>

definition Null :: "machine \<Rightarrow> uword sop" where
  "Null M =
    sbind (asks st_empty_pair) (\<lambda>e.
    if e \<noteq> 0 then ret e
    else sbind (new_obj M (OPair 0 0)) (\<lambda>a.
         sthen (modifies (\<lambda>st. st\<lparr>st_empty_pair := a\<rparr>)) (ret a)))"

definition IsNull :: "uword \<Rightarrow> store \<Rightarrow> bool res" where
  "IsNull a st =
    (if a = 0 then Inr True
     else rbind (obj_at a st) (\<lambda>x. Inr (case x of OPair p q \<Rightarrow> p = 0 \<and> q = 0 | _ \<Rightarrow> False)))"

definition Truth :: "uword \<Rightarrow> store \<Rightarrow> bool res" where
  "Truth a st =
    asserting (a \<noteq> 0)
      (rbind (obj_at a st) (\<lambda>x. case x of OBool b \<Rightarrow> Inr b | _ \<Rightarrow> rbind (IsNull a st) (\<lambda>n. Inr (\<not> n))))"

definition Not :: "uword \<Rightarrow> uword sop" where
  "Not a = sthen (sassert (a \<noteq> 0)) (sbind (reads (Truth a)) (\<lambda>t. if t then Bool_False else Bool_True))"

section \<open>Pairs and lists\<close>

definition Pair_New :: "machine \<Rightarrow> uword \<Rightarrow> uword \<Rightarrow> uword sop" where
  "Pair_New M car cdr = new_obj M (OPair car cdr)"

definition Cons :: "machine \<Rightarrow> uword \<Rightarrow> uword \<Rightarrow> uword sop" where
  "Cons M lhs rhs = sthen (sassert (lhs \<noteq> 0)) (sthen (sassert (rhs \<noteq> 0)) (Pair_New M lhs rhs))"

definition pair_of :: "uword \<Rightarrow> store \<Rightarrow> (uword \<times> uword) res" where
  "pair_of a st =
    asserting (a \<noteq> 0)
      (rbind (obj_at a st) (\<lambda>x. case x of OPair p q \<Rightarrow> Inr (p, q) | _ \<Rightarrow> Inl AssertFailed))"

definition Car :: "machine \<Rightarrow> uword \<Rightarrow> uword sop" where
  "Car M a = sbind (reads (pair_of a)) (\<lambda>(p, q). if p \<noteq> 0 then ret p else Null M)"

definition Cdr :: "machine \<Rightarrow> uword \<Rightarrow> uword sop" where
  "Cdr M a = sbind (reads (pair_of a)) (\<lambda>(p, q). if q \<noteq> 0 then ret q else Null M)"

definition SetCar :: "uword \<Rightarrow> uword \<Rightarrow> unit sop" where
  "SetCar a v =
    sbind (reads (pair_of a)) (\<lambda>(p, q). sthen (sassert (v \<noteq> 0)) (modifies (put_obj a (OPair v q))))"

definition SetCdr :: "uword \<Rightarrow> uword \<Rightarrow> unit sop" where
  "SetCdr a v =
    sbind (reads (pair_of a)) (\<lambda>(p, q). sthen (sassert (v \<noteq> 0)) (modifies (put_obj a (OPair p v))))"

definition IsTuple :: "uword \<Rightarrow> store \<Rightarrow> bool res" where
  "IsTuple a st =
    rbind (pair_of a st) (\<lambda>(p, q).
    if q = 0 then Inr False
    else rbind (obj_at q st) (\<lambda>y. Inr (kind_of y \<noteq> KPair)))"

fun push_all :: "machine \<Rightarrow> uword list \<Rightarrow> uword \<Rightarrow> uword sop" where
  "push_all M [] result = ret result"
| "push_all M (x # xs) result = sbind (Pair_New M x result) (\<lambda>r. push_all M xs r)"

definition ToList :: "machine \<Rightarrow> uword list \<Rightarrow> bool \<Rightarrow> uword sop" where
  "ToList M values reverse =
    sbind (Null M) (\<lambda>result.
    sbind (push_all M (if reverse then rev values else values) result) (\<lambda>result.
    sthen (sassert (result \<noteq> 0)) (ret result)))"

definition Long_New :: "machine \<Rightarrow> uword \<Rightarrow> uword sop" where
  "Long_New M v = new_obj M (OLong v)"

function range_loop :: "machine \<Rightarrow> uword \<Rightarrow> uword \<Rightarrow> uword \<Rightarrow> uword sop" where
  "range_loop M first idx result =
    (if first \<le> idx then
       sbind (Long_New M idx) (\<lambda>l.
       sbind (Pair_New M l result) (\<lambda>r.
       if idx = 0 then ret r else range_loop M first (idx - 1) r))
     else ret result)"
  by pat_completeness auto

termination
  by (relation "measure (\<lambda>(M, first, idx, result). unat idx)") (auto simp: unat_minus_one word_gt_0_no unat_gt_0)

definition ListFromRange :: "machine \<Rightarrow> uword \<Rightarrow> uword \<Rightarrow> uword sop" where
  "ListFromRange M from till =
    sbind (Null M) (\<lambda>result. range_loop M (min from till) (max from till) result)"

section \<open>Arithmetic\<close>

datatype arith = ArAdd | ArSub | ArMul | ArDiv | ArMod

text \<open>The argument of \<open>Long\<close>'s operators as an integer, of \<open>Double\<close>'s as a double.\<close>

definition long_value :: "machine \<Rightarrow> obj \<Rightarrow> uword res" where
  "long_value M y =
    (case y of
       OLong w \<Rightarrow> Inr w
     | ODouble d \<Rightarrow> (case m_to_long M d of None \<Rightarrow> Inl UndefinedBehaviour | Some w \<Rightarrow> Inr w)
     | _ \<Rightarrow> Inl UndefinedBehaviour)"

definition double_value :: "machine \<Rightarrow> obj \<Rightarrow> uword res" where
  "double_value M y =
    (case y of ODouble d \<Rightarrow> Inr d | OLong w \<Rightarrow> Inr (m_to_double M w) | _ \<Rightarrow> Inl UndefinedBehaviour)"

definition long_arith :: "arith \<Rightarrow> uword \<Rightarrow> uword \<Rightarrow> uword res" where
  "long_arith op v w =
    (case op of
       ArAdd \<Rightarrow> Inr (v + w) | ArSub \<Rightarrow> Inr (v - w) | ArMul \<Rightarrow> Inr (v * w)
     | ArDiv \<Rightarrow> guardr UndefinedBehaviour (w \<noteq> 0) (Inr (v div w))
     | ArMod \<Rightarrow> guardr UndefinedBehaviour (w \<noteq> 0) (Inr (v mod w)))"

text \<open>The operators log an argument that is not a number, a call on the null pointer if it is
  null.\<close>

definition Long_arith :: "machine \<Rightarrow> arith \<Rightarrow> uword \<Rightarrow> uword \<Rightarrow> uword sop" where
  "Long_arith M op v b =
    sbind (reads (obj_at b)) (\<lambda>y.
    if \<not> IsNumber y then Null M
    else sbind (reads (\<lambda>_. long_value M y)) (\<lambda>w.
         sbind (reads (\<lambda>_. long_arith op v w)) (\<lambda>r. Long_New M r)))"

text \<open>A double has no remainder operator of its own: \<open>Mod\<close> is \<open>Object\<close>'s, which answers null.\<close>

definition Double_arith :: "machine \<Rightarrow> arith \<Rightarrow> uword \<Rightarrow> uword \<Rightarrow> uword sop" where
  "Double_arith M op d b =
    (if op = ArMod then Null M
     else sbind (reads (obj_at b)) (\<lambda>y.
       if \<not> IsNumber y then Null M
       else sbind (reads (\<lambda>_. double_value M y)) (\<lambda>e.
         new_obj M (ODouble
           (case op of
              ArAdd \<Rightarrow> m_dadd M d e | ArSub \<Rightarrow> m_dsub M d e | ArMul \<Rightarrow> m_dmul M d e
            | ArDiv \<Rightarrow> m_ddiv M d e | ArMod \<Rightarrow> 0)))))"

text \<open>The virtual functions \<open>Add\<close>, \<open>Sub\<close>, \<open>Mul\<close>, \<open>Div\<close>, \<open>Mod\<close>: \<open>Object\<close>'s own answer null.\<close>

definition Arith :: "machine \<Rightarrow> arith \<Rightarrow> uword \<Rightarrow> uword \<Rightarrow> uword sop" where
  "Arith M op a b =
    sbind (reads (obj_at a)) (\<lambda>x.
    case x of
      OLong v \<Rightarrow> Long_arith M op v b
    | ODouble d \<Rightarrow> Double_arith M op d b
    | _ \<Rightarrow> Null M)"

definition And :: "machine \<Rightarrow> uword \<Rightarrow> uword \<Rightarrow> uword sop" where
  "And M a b =
    sbind (reads (obj_at a)) (\<lambda>x.
    case x of
      OBool v \<Rightarrow> if v then sbind (reads (Truth b)) Bool_Box else Bool_Box False
    | _ \<Rightarrow> Null M)"

definition Or :: "machine \<Rightarrow> uword \<Rightarrow> uword \<Rightarrow> uword sop" where
  "Or M a b =
    sbind (reads (obj_at a)) (\<lambda>x.
    case x of
      OBool v \<Rightarrow> if v then Bool_Box True else sbind (reads (Truth b)) Bool_Box
    | _ \<Rightarrow> Null M)"

text \<open>\<open>Compare\<close>: only integers have one, and only for integers.\<close>

definition Compare :: "uword \<Rightarrow> uword \<Rightarrow> store \<Rightarrow> int res" where
  "Compare a b st =
    rbind (obj_at a st) (\<lambda>x.
    case x of
      OLong v \<Rightarrow>
        asserting (b \<noteq> 0) (rbind (obj_at b st) (\<lambda>y.
          case y of
            OLong w \<Rightarrow> Inr (if v < w then -1 else if w < v then 1 else 0)
          | _ \<Rightarrow> Inl AssertFailed))
    | _ \<Rightarrow> Inl LogFatal)"

section \<open>Instance fields\<close>

definition FieldAddr :: "uword \<Rightarrow> uword \<Rightarrow> store \<Rightarrow> uword res" where
  "FieldAddr a f st =
    asserting (f \<noteq> 0)
      (rbind (field_at f st) (\<lambda>fd.
       case fd_value fd of
         FOffset off \<Rightarrow> asserting (0 < off) (Inr (a + off))
       | FObject _ \<Rightarrow> Inl (CppException ''bad_variant_access'')))"

definition GetField :: "uword \<Rightarrow> uword \<Rightarrow> store \<Rightarrow> uword res" where
  "GetField a f st =
    rbind (FieldAddr a f st) (\<lambda>p.
    case st_slots st p of None \<Rightarrow> Inl UndefinedBehaviour | Some v \<Rightarrow> Inr v)"

definition SetField :: "uword \<Rightarrow> uword \<Rightarrow> uword \<Rightarrow> unit sop" where
  "SetField a f v =
    sbind (reads (FieldAddr a f)) (\<lambda>p. modifies (\<lambda>st. st\<lparr>st_slots := (st_slots st)(p \<mapsto> v)\<rparr>))"

section \<open>Strings, errors and symbols\<close>

definition String_New :: "machine \<Rightarrow> string \<Rightarrow> uword sop" where
  "String_New M s = new_obj M (OString s)"

definition String_New_empty :: "machine \<Rightarrow> uword sop" where
  "String_New_empty M =
    sbind (asks st_empty_string) (\<lambda>e.
    if e \<noteq> 0 then ret e
    else sbind (new_obj M (OString [])) (\<lambda>a.
         sthen (modifies (\<lambda>st. st\<lparr>st_empty_string := a\<rparr>)) (ret a)))"

definition Error_New :: "machine \<Rightarrow> uword \<Rightarrow> uword sop" where
  "Error_New M message = sthen (sassert (message \<noteq> 0)) (new_obj M (OError message))"

definition Error_New_text :: "machine \<Rightarrow> string \<Rightarrow> uword sop" where
  "Error_New_text M message =
    sthen (sassert (message \<noteq> [])) (sbind (String_New M message) (Error_New M))"

definition Symbol_New :: "machine \<Rightarrow> string \<Rightarrow> string \<Rightarrow> string \<Rightarrow> uword sop" where
  "Symbol_New M ns ty name = (\<lambda>st.
    rbind (pool_New (\<lambda>s. new_obj M (OSymbol s)) ns ty name (st_pool st) st) (\<lambda>(a, p, st').
    Inr (a, st'\<lparr>st_pool := p\<rparr>)))"

definition Symbol_New_text :: "machine \<Rightarrow> string \<Rightarrow> uword sop" where
  "Symbol_New_text M s = (\<lambda>st.
    rbind (pool_New_text (\<lambda>s. new_obj M (OSymbol s)) s (st_pool st) st) (\<lambda>(a, p, st').
    Inr (a, st'\<lparr>st_pool := p\<rparr>)))"

end
