(* ===== verification/ObjectsCorrect.thy ===== *)
theory ObjectsCorrect
  imports Objects RegionsCorrect
begin

text \<open>
  Correctness of the object store: what allocating an object promises (the locale
  \<open>object_store\<close>, interpreted on \<open>new_obj\<close>), lists built from it, arithmetic, and equality of
  lists.
\<close>

section \<open>Lists in the store\<close>

text \<open>The proper list of the given elements: pairs ending in an empty pair.\<close>

fun list_in :: "(uword \<rightharpoonup> obj) \<Rightarrow> uword \<Rightarrow> uword list \<Rightarrow> bool" where
  "list_in m a [] = (a \<noteq> 0 \<and> m a = Some (OPair 0 0))"
| "list_in m a (x # xs) = (a \<noteq> 0 \<and> x \<noteq> 0 \<and> (\<exists>t. m a = Some (OPair x t) \<and> list_in m t xs))"

abbreviation list_at :: "store \<Rightarrow> uword \<Rightarrow> uword list \<Rightarrow> bool" where
  "list_at st \<equiv> list_in (st_objs st)"

lemma list_in_nonzero: "list_in m a xs \<Longrightarrow> a \<noteq> 0"
  by (cases xs) simp_all

lemma list_in_elements: "list_in m a xs \<Longrightarrow> x \<in> set xs \<Longrightarrow> x \<noteq> 0"
  by (induction xs arbitrary: a) auto

lemma list_in_mono: "list_in m a xs \<Longrightarrow> m \<subseteq>\<^sub>m m' \<Longrightarrow> list_in m' a xs"
proof (induction xs arbitrary: a)
  case Nil
  then show ?case by (auto simp: map_le_def dom_def)
next
  case (Cons x xs)
  then obtain t where "m a = Some (OPair x t)" "list_in m t xs" by auto
  then show ?case using Cons by (auto simp: map_le_def dom_def)
qed

lemma obj_at_Inr: "obj_at a st = Inr x \<longleftrightarrow> a \<noteq> 0 \<and> st_objs st a = Some x"
  by (auto simp: obj_at_def split: option.split)

lemma IsNull_list_at: "list_at st a xs \<Longrightarrow> IsNull a st = Inr (xs = [])"
  by (cases xs) (auto simp: IsNull_def obj_at_def)

lemma obj_at_Cons: "list_at st a (x # xs) \<Longrightarrow> \<exists>t. obj_at a st = Inr (OPair x t) \<and> list_at st t xs"
  by (auto simp: obj_at_def)

section \<open>The interface of an object store\<close>

locale object_store =
  fixes alloc :: "obj \<Rightarrow> 's \<Rightarrow> (uword \<times> 's) res"
    and view :: "'s \<Rightarrow> uword \<rightharpoonup> obj"
    and good :: "'s \<Rightarrow> bool"
    and plain :: "obj \<Rightarrow> bool"
    and cost :: "obj \<Rightarrow> nat"
    and free :: "'s \<Rightarrow> nat"
  assumes alloc_fresh: "good s \<Longrightarrow> plain x \<Longrightarrow> cost x < free s \<Longrightarrow>
      \<exists>a s'. alloc x s = Inr (a, s') \<and> good s' \<and> a \<noteq> 0 \<and> view s a = None \<and>
        view s' = (view s)(a \<mapsto> x) \<and> free s' + cost x = free s"
    and pairs_plain: "plain (OPair a b) = plain (OPair 0 0)"
    and pairs_cost: "cost (OPair a b) = cost (OPair 0 0)"
begin

lemma alloc_grows:
  assumes "good s" "plain x" "cost x < free s"
  shows "\<exists>a s'. alloc x s = Inr (a, s') \<and> good s' \<and> a \<noteq> 0 \<and> view s' a = Some x \<and>
    view s \<subseteq>\<^sub>m view s' \<and> free s' + cost x = free s"
  using alloc_fresh [OF assms] by (fastforce simp: map_le_def)

text \<open>Consing elements in front of a list one after the other.\<close>

fun cons_all :: "uword list \<Rightarrow> uword \<Rightarrow> 's \<Rightarrow> (uword \<times> 's) res" where
  "cons_all [] t s = Inr (t, s)"
| "cons_all (x # xs) t s = rbind (alloc (OPair x t) s) (\<lambda>(r, s'). cons_all xs r s')"

lemma cons_all_list:
  assumes "good s" "plain (OPair 0 0)" "list_in (view s) t ys" "\<forall>x\<in>set xs. x \<noteq> 0"
    and "length xs * cost (OPair 0 0) < free s"
  shows "\<exists>r s'. cons_all xs t s = Inr (r, s') \<and> good s' \<and> view s \<subseteq>\<^sub>m view s' \<and>
    list_in (view s') r (rev xs @ ys) \<and> free s' + length xs * cost (OPair 0 0) = free s"
  using assms
proof (induction xs arbitrary: s t ys)
  case (Cons x xs)
  let ?c = "cost (OPair 0 0)"
  have "cost (OPair x t) < free s" "plain (OPair x t)"
    using Cons.prems(2,5) pairs_cost [of x t] pairs_plain [of x t] by simp_all
  then obtain a s1 where a: "alloc (OPair x t) s = Inr (a, s1)" "good s1" "a \<noteq> 0"
      "view s1 a = Some (OPair x t)" "view s \<subseteq>\<^sub>m view s1" "free s1 + ?c = free s"
    using alloc_grows [OF Cons.prems(1), of "OPair x t"] pairs_cost [of x t] by auto
  have "list_in (view s1) a (x # ys)"
    using a Cons.prems(3,4) list_in_mono by auto
  moreover have "length xs * ?c < free s1" using Cons.prems(5) a(6) by simp
  ultimately obtain r s' where "cons_all xs a s1 = Inr (r, s')" "good s'" "view s1 \<subseteq>\<^sub>m view s'"
      "list_in (view s') r (rev xs @ x # ys)" "free s' + length xs * ?c = free s1"
    using Cons.IH [OF a(2), of a "x # ys"] Cons.prems(2,4) by auto
  then show ?case using a(1,5,6) map_le_trans by fastforce
qed simp

end

section \<open>The store of the runtime\<close>

definition class_named :: "store \<Rightarrow> uword \<Rightarrow> string \<Rightarrow> bool" where
  "class_named st a n \<longleftrightarrow>
    a \<noteq> 0 \<and> (\<exists>c. st_objs st a = Some (OClass c) \<and> cl_name c \<noteq> 0 \<and>
      st_objs st (cl_name c) = Some (OString n))"

definition store_ok :: "store \<Rightarrow> bool" where
  "store_ok st \<longleftrightarrow> good_heap (st_heap st) \<and>
     (\<forall>a\<in>dom (st_objs st). a \<noteq> 0 \<and> unat a < heap_cursor (st_heap st)) \<and>
     (\<forall>k. st_class st k \<noteq> 0 \<longrightarrow> class_named st (st_class st k) (kind_name k)) \<and>
     (st_empty_pair st \<noteq> 0 \<longrightarrow> st_objs st (st_empty_pair st) = Some (OPair 0 0))"

definition store_free :: "store \<Rightarrow> nat" where
  "store_free st = heap_limit (st_heap st) - heap_cursor (st_heap st)"

definition obj_cost :: "machine \<Rightarrow> obj \<Rightarrow> nat" where
  "obj_cost M x = 16 + unat (m_sizeof M (kind_of x))"

definition plain_obj :: "machine \<Rightarrow> obj \<Rightarrow> bool" where
  "plain_obj M x \<longleftrightarrow> kind_of x \<noteq> KModule \<and> 0 < m_sizeof M (kind_of x) \<and>
     m_sizeof M (kind_of x) < kLargeObjectSize"

lemma Class_Equals_named:
  assumes "class_named st a n" "b \<noteq> 0 \<longrightarrow> class_named st b m"
  shows "Class_Equals a b st = Inr (b \<noteq> 0 \<and> n = m)"
  using assms
  by (auto simp: Class_Equals_def class_named_def class_at_def string_at_def obj_at_def)

lemma kind_name_sized:
  "kind_name k = kind_name KClass \<longleftrightarrow> k = KClass" "kind_name k = kind_name KField \<longleftrightarrow> k = KField"
  "kind_name k = kind_name KString \<longleftrightarrow> k = KString" "kind_name k = kind_name KModule \<longleftrightarrow> k = KModule"
  by (cases k; simp add: kind_name_def)+

lemma GetAllocationSize_plain:
  assumes "store_ok st" "st_class st k \<noteq> 0" "k \<noteq> KModule"
  shows "\<exists>n. GetAllocationSize M (st_class st k) st = Inr (n, st) \<and> (n = 0 \<or> n = m_sizeof M k)"
proof -
  have "Class_Equals (st_class st k) (st_class st j) st =
      Inr (st_class st j \<noteq> 0 \<and> kind_name k = kind_name j)" for j
    using assms(1,2) by (intro Class_Equals_named) (auto simp: store_ok_def)
  then have "GetAllocationSize M (st_class st k) st =
      Inr (if st_class st KClass \<noteq> 0 \<and> k = KClass then m_sizeof M KClass
           else if st_class st KField \<noteq> 0 \<and> k = KField then m_sizeof M KField
           else if st_class st KString \<noteq> 0 \<and> k = KString then m_sizeof M KString else 0, st)"
    using assms(3) by (simp add: GetAllocationSize_def op_simps kind_name_sized)
  then show ?thesis by auto
qed

lemma operator_new_plain:
  assumes "store_ok st" "k \<noteq> KModule"
  shows "operator_new M k st =
    rbind (TryAllocate (m_sizeof M k) (st_heap st)) (\<lambda>(a, h).
      asserting (a \<noteq> 0) (Inr (a, st\<lparr>st_heap := h\<rparr>)))"
proof (cases "st_class st k = 0")
  case True
  then show ?thesis
    by (auto simp: operator_new_def op_simps heap_op_def rbind_assoc guardr_def split: prod.split intro!: rbind_cong)
next
  case False
  obtain n where "GetAllocationSize M (st_class st k) st = Inr (n, st)" "n = 0 \<or> n = m_sizeof M k"
    using GetAllocationSize_plain [OF assms(1) False assms(2)] by blast
  then show ?thesis using False
    by (auto simp: operator_new_def op_simps heap_op_def rbind_assoc word_gt_0 guardr_def
        split: prod.split intro!: rbind_cong)
qed

lemma new_obj_fresh:
  assumes "store_ok st" "plain_obj M x" "obj_cost M x < store_free st"
  shows "\<exists>a st'. new_obj M x st = Inr (a, st') \<and> store_ok st' \<and> a \<noteq> 0 \<and> st_objs st a = None \<and>
    st_objs st' = (st_objs st)(a \<mapsto> x) \<and> store_free st' + obj_cost M x = store_free st"
proof -
  let ?h = "st_heap st" and ?n = "m_sizeof M (kind_of x)"
  have g: "good_heap ?h" using assms(1) by (simp add: store_ok_def)
  have n: "?n \<noteq> 0" "\<not> kLargeObjectSize \<le> ?n" and k: "kind_of x \<noteq> KModule"
    using assms(2) by (auto simp: plain_obj_def)
  have room: "heap_cursor ?h + 16 + unat ?n < heap_limit ?h"
    using assms(3) by (simp add: obj_cost_def store_free_def)
  obtain a h' where T: "TryAllocate ?n ?h = Inr (a, h')"
    using TryAllocate_eq [OF g, of ?n] n room by auto
  note B = TryAllocate_Inr [OF g T]
  have a: "a \<noteq> 0" using B(6) by auto
  define st' where "st' = st\<lparr>st_heap := h', st_objs := (st_objs st)(a \<mapsto> x)\<rparr>"
  have run: "new_obj M x st = Inr (a, st')"
    using operator_new_plain [OF assms(1) k] T a
    by (simp add: new_obj_def op_simps put_obj_def st'_def)
  have fresh: "st_objs st a = None"
  proof (rule ccontr)
    assume "st_objs st a \<noteq> None"
    then have "unat a < heap_cursor ?h" using assms(1) by (auto simp: store_ok_def)
    then show False using B(6) by simp
  qed
  have "class_named st' b m" if "class_named st b m" for b m
    using that fresh by (auto simp: class_named_def st'_def)
  moreover have "unat b < heap_cursor h' \<and> b \<noteq> 0" if "b \<in> dom (st_objs st')" for b
  proof (cases "b = a")
    case True
    then show ?thesis using B(1,6,7) a by (simp add: word_gt_0 unat_gt_0)
  next
    case False
    then have "unat b < heap_cursor ?h \<and> b \<noteq> 0"
      using that assms(1) by (auto simp: store_ok_def st'_def)
    then show ?thesis using B(7) by simp
  qed
  moreover have "st_empty_pair st \<noteq> 0 \<longrightarrow> st_objs st' (st_empty_pair st) = Some (OPair 0 0)"
    using assms(1) fresh by (auto simp: store_ok_def st'_def)
  ultimately have "store_ok st'"
    using assms(1) B(9) by (auto simp: store_ok_def st'_def)
  moreover have "store_free st' + obj_cost M x = store_free st"
    using B(7,10) room by (simp add: store_free_def obj_cost_def st'_def)
  ultimately show ?thesis using run a fresh by (auto simp: st'_def)
qed

definition sane_machine :: "machine \<Rightarrow> bool" where
  "sane_machine M \<longleftrightarrow> (\<forall>k. 0 < m_sizeof M k \<and> m_sizeof M k < kLargeObjectSize)"

lemma sane_plain: "sane_machine M \<Longrightarrow> kind_of x \<noteq> KModule \<Longrightarrow> plain_obj M x"
  by (simp add: sane_machine_def plain_obj_def)

interpretation gel_store: object_store "new_obj M" st_objs store_ok "plain_obj M" "obj_cost M" store_free
  for M
proof
  show "store_ok s \<Longrightarrow> plain_obj M x \<Longrightarrow> obj_cost M x < store_free s \<Longrightarrow>
      \<exists>a s'. new_obj M x s = Inr (a, s') \<and> store_ok s' \<and> a \<noteq> 0 \<and> st_objs s a = None \<and>
        st_objs s' = (st_objs s)(a \<mapsto> x) \<and> store_free s' + obj_cost M x = store_free s" for s x
    by (rule new_obj_fresh)
qed (simp_all add: plain_obj_def obj_cost_def kind_of_def)

text \<open>What a pair and an integer take of the heap, header included.\<close>

definition pair_cost :: "machine \<Rightarrow> nat" where
  "pair_cost M = 16 + unat (m_sizeof M KPair)"

definition long_cost :: "machine \<Rightarrow> nat" where
  "long_cost M = 16 + unat (m_sizeof M KLong)"

lemma obj_costs [simp]: "obj_cost M (OPair a b) = pair_cost M" "obj_cost M (OLong v) = long_cost M"
  by (simp_all add: obj_cost_def kind_of_def pair_cost_def long_cost_def)

lemma kind_of_simps [simp]:
  "kind_of (OPair a b) = KPair" "kind_of (OLong v) = KLong" "kind_of (OBool t) = KBool"
  "kind_of (OString u) = KString" "kind_of (OError e) = KError" "kind_of (ODouble d) = KDouble"
  by (simp_all add: kind_of_def)

lemma push_all_cons_all: "push_all M xs t = gel_store.cons_all M xs t"
proof
  fix st
  show "push_all M xs t st = gel_store.cons_all M xs t st"
    by (induction xs arbitrary: t st) (simp_all add: op_simps Pair_New_def)
qed

lemma Null_list:
  assumes "store_ok st" "plain_obj M (OPair 0 0)" "pair_cost M < store_free st"
  shows "\<exists>e st'. Null M st = Inr (e, st') \<and> store_ok st' \<and> st_objs st \<subseteq>\<^sub>m st_objs st' \<and>
    list_at st' e [] \<and> store_free st \<le> store_free st' + pair_cost M"
proof (cases "st_empty_pair st = 0")
  case False
  then show ?thesis using assms(1) by (simp add: Null_def op_simps store_ok_def)
next
  case True
  obtain a st' where A: "new_obj M (OPair 0 0) st = Inr (a, st')" "store_ok st'" "a \<noteq> 0"
      "st_objs st' a = Some (OPair 0 0)" "st_objs st \<subseteq>\<^sub>m st_objs st'" "store_free st' + pair_cost M = store_free st"
    using gel_store.alloc_grows [OF assms(1,2)] assms(3) by auto
  let ?st = "st'\<lparr>st_empty_pair := a\<rparr>"
  have "class_named ?st b m = class_named st' b m" for b m by (simp add: class_named_def)
  then have "store_ok ?st" using A(2,3,4) by (simp add: store_ok_def)
  moreover have "store_free ?st = store_free st'" by (simp add: store_free_def)
  ultimately show ?thesis using True A by (simp add: Null_def op_simps)
qed

text \<open>C15. A vector of values becomes the list of these values, in order when reversal is asked
  for and in reverse order when it is not, whenever the heap has room for one pair more than
  values; no object that existed is changed.\<close>

theorem ToList_list:
  assumes "store_ok st" "sane_machine M" "\<forall>x\<in>set xs. x \<noteq> 0"
    and "(length xs + 1) * pair_cost M < store_free st"
  shows "\<exists>r st'. ToList M xs in_order st = Inr (r, st') \<and> store_ok st' \<and>
    st_objs st \<subseteq>\<^sub>m st_objs st' \<and> list_in (st_objs st') r (if in_order then xs else rev xs)"
proof -
  have pl: "plain_obj M (OPair 0 0)" by (rule sane_plain [OF assms(2)]) simp
  obtain e st1 where E: "Null M st = Inr (e, st1)" "store_ok st1" "st_objs st \<subseteq>\<^sub>m st_objs st1"
      "list_at st1 e []" "store_free st \<le> store_free st1 + pair_cost M"
    using Null_list [OF assms(1) pl] assms(4) by auto
  let ?ys = "if in_order then rev xs else xs"
  have "length ?ys * pair_cost M < store_free st1" using E(5) assms(4) by simp
  moreover have "\<forall>x\<in>set ?ys. x \<noteq> 0" using assms(3) by simp
  ultimately obtain r st2 where R: "gel_store.cons_all M ?ys e st1 = Inr (r, st2)" "store_ok st2"
      "st_objs st1 \<subseteq>\<^sub>m st_objs st2" "list_at st2 r (rev ?ys)"
    using gel_store.cons_all_list [OF E(2) pl E(4), of ?ys] by auto
  have "ToList M xs in_order st = Inr (r, st2)"
    using E(1) R(1) list_in_nonzero [OF R(4)] by (simp add: ToList_def op_simps push_all_cons_all)
  then show ?thesis using R E(3) map_le_trans by auto
qed

lemma range_step:
  assumes "store_ok st" "sane_machine M" "list_at st t bs" "pair_cost M + long_cost M < store_free st"
  shows "\<exists>l r st1 st2. Long_New M v st = Inr (l, st1) \<and> Pair_New M l t st1 = Inr (r, st2) \<and> store_ok st2 \<and>
    st_objs st \<subseteq>\<^sub>m st_objs st2 \<and> list_at st2 r (l # bs) \<and> st_objs st2 l = Some (OLong v) \<and>
    store_free st2 + (pair_cost M + long_cost M) = store_free st"
proof -
  have pl: "plain_obj M (OLong v)" "plain_obj M (OPair a b)" for a b
    by (rule sane_plain [OF assms(2)], simp)+
  obtain l st1 where L: "new_obj M (OLong v) st = Inr (l, st1)" "store_ok st1" "l \<noteq> 0"
      "st_objs st1 l = Some (OLong v)" "st_objs st \<subseteq>\<^sub>m st_objs st1" "store_free st1 + long_cost M = store_free st"
    using gel_store.alloc_grows [OF assms(1) pl(1)] assms(4) by auto
  have "pair_cost M < store_free st1" using assms(4) L(6) by simp
  then obtain r st2 where R: "new_obj M (OPair l t) st1 = Inr (r, st2)" "store_ok st2" "r \<noteq> 0"
      "st_objs st2 r = Some (OPair l t)" "st_objs st1 \<subseteq>\<^sub>m st_objs st2" "store_free st2 + pair_cost M = store_free st1"
    using gel_store.alloc_grows [OF L(2) pl(2)] by fastforce
  have "st_objs st2 l = Some (OLong v)" using L(4) R(5) by (force simp: map_le_def dom_def)
  moreover have mono: "st_objs st \<subseteq>\<^sub>m st_objs st2" using L(5) R(5) map_le_trans by blast
  moreover have "list_at st2 r (l # bs)" using R(3,4) L(3) list_in_mono [OF assms(3) mono] by auto
  ultimately show ?thesis using L R by (auto simp: Long_New_def Pair_New_def)
qed

lemma range_loop_list:
  assumes "store_ok st" "sane_machine M" "list_at st t bs" "first \<le> idx"
    and "(unat idx - unat first + 1) * (pair_cost M + long_cost M) < store_free st"
  shows "\<exists>r st' as. range_loop M first idx t st = Inr (r, st') \<and> store_ok st' \<and>
    st_objs st \<subseteq>\<^sub>m st_objs st' \<and> list_at st' r (as @ bs) \<and>
    map (st_objs st') as = map (\<lambda>n. Some (OLong (of_nat n))) [unat first..<unat idx + 1]"
  using assms(1,3-)
proof (induction "unat idx - unat first" arbitrary: idx t bs st)
  case (0 idx t bs st)
  then have eq: "unat idx = unat first" by (simp add: word_le_nat_alt)
  then have idx: "idx = first" by (rule word_unat_eq_iff [THEN iffD2])
  obtain l r st1 st2 where S: "Long_New M idx st = Inr (l, st1)" "Pair_New M l t st1 = Inr (r, st2)" "store_ok st2"
      "st_objs st \<subseteq>\<^sub>m st_objs st2" "list_at st2 r (l # bs)" "st_objs st2 l = Some (OLong idx)"
    using range_step [OF 0(2) assms(2) 0(3), of idx] 0(5) eq by auto
  have stop: "range_loop M first (idx - 1) r st2 = Inr (r, st2)" if "idx \<noteq> 0"
  proof -
    have "\<not> first \<le> idx - 1"
      using that idx by (simp add: word_le_nat_alt unat_minus_one not_le unat_gt_0)
    then show ?thesis by (subst range_loop.simps) (simp add: op_simps)
  qed
  have "range_loop M first idx t st = Inr (r, st2)"
    using S(1,2) stop 0(4) by (subst range_loop.simps) (simp add: op_simps)
  moreover have "map (st_objs st2) [l] = map (\<lambda>n. Some (OLong (of_nat n))) [unat first..<unat idx + 1]"
    using S(6) eq idx by simp
  ultimately show ?case using S(3-5) by (intro exI [of _ r] exI [of _ st2] exI [of _ "[l]"]) auto
next
  case (Suc n idx t bs st)
  let ?c = "pair_cost M + long_cost M"
  have gt: "unat first < unat idx" using Suc(2) by linarith
  then have nz: "idx \<noteq> 0" by auto
  have u: "unat (idx - 1) = unat idx - 1" by (rule unat_minus_one [OF nz])
  have cnt: "unat idx - unat first + 1 = Suc (unat (idx - 1) - unat first + 1)" using gt u by simp
  have room: "?c + (unat (idx - 1) - unat first + 1) * ?c < store_free st"
    using Suc(6) unfolding cnt by simp
  then have "?c < store_free st" by linarith
  then obtain l r st1 st2 where S: "Long_New M idx st = Inr (l, st1)" "Pair_New M l t st1 = Inr (r, st2)" "store_ok st2"
      "st_objs st \<subseteq>\<^sub>m st_objs st2" "list_at st2 r (l # bs)" "st_objs st2 l = Some (OLong idx)"
      "store_free st2 + ?c = store_free st"
    using range_step [OF Suc(3) assms(2) Suc(4), of idx] by auto
  have "n = unat (idx - 1) - unat first" "first \<le> idx - 1"
    using Suc(2) u gt by (simp_all add: word_le_nat_alt)
  moreover have "(unat (idx - 1) - unat first + 1) * ?c < store_free st2" using room S(7) by linarith
  ultimately obtain q st3 as where I: "range_loop M first (idx - 1) r st2 = Inr (q, st3)" "store_ok st3"
      "st_objs st2 \<subseteq>\<^sub>m st_objs st3" "list_at st3 q (as @ l # bs)"
      "map (st_objs st3) as = map (\<lambda>n. Some (OLong (of_nat n))) [unat first..<unat (idx - 1) + 1]"
    using Suc(1) [of "idx - 1" st2 r "l # bs"] S(3,5) by blast
  have run: "range_loop M first idx t st = Inr (q, st3)"
    using S(1,2) I(1) Suc(5) nz by (subst range_loop.simps) (simp add: op_simps)
  have "st_objs st3 l = Some (OLong idx)" using S(6) I(3) by (force simp: map_le_def dom_def)
  moreover have "[unat first..<unat idx + 1] = [unat first..<unat (idx - 1) + 1] @ [unat idx]"
    using gt u by simp
  ultimately have "map (st_objs st3) (as @ [l]) = map (\<lambda>n. Some (OLong (of_nat n))) [unat first..<unat idx + 1]"
    using I(5) by simp
  then show ?case
    using run I(2,4) map_le_trans [OF S(4) I(3)]
    by (intro exI [of _ q] exI [of _ st3] exI [of _ "as @ [l]"]) simp
qed

text \<open>The list of a range holds, in ascending order, every integer from the smaller to the
  larger bound, both included, whichever order the bounds are given in, whenever the heap has
  room; the loop also ends when the smaller bound is 0, where the counter would wrap around.\<close>

theorem ListFromRange_ascending:
  assumes "store_ok st" "sane_machine M" "lo = min (unat a) (unat b)" "hi = max (unat a) (unat b)"
    and "(hi - lo + 1) * (pair_cost M + long_cost M) + pair_cost M < store_free st"
  shows "\<exists>r st' as. ListFromRange M a b st = Inr (r, st') \<and> list_in (st_objs st') r as \<and>
    map (st_objs st') as = map (\<lambda>n. Some (OLong (of_nat n))) [lo..<hi + 1]"
proof -
  have pl: "plain_obj M (OPair 0 0)" by (rule sane_plain [OF assms(2)]) simp
  have mm: "unat (min a b) = lo" "unat (max a b) = hi"
    using assms(3,4) by (auto simp: min_def max_def word_le_nat_alt)
  have "pair_cost M < store_free st" using assms(5) by linarith
  then obtain e st1 where E: "Null M st = Inr (e, st1)" "store_ok st1"
      "list_at st1 e []" "store_free st \<le> store_free st1 + pair_cost M"
    using Null_list [OF assms(1) pl] by auto
  have "min a b \<le> max a b" by (rule order_trans [OF min.cobounded1 max.cobounded1])
  moreover have "(unat (max a b) - unat (min a b) + 1) * (pair_cost M + long_cost M) < store_free st1"
    unfolding mm using assms(5) E(4) by linarith
  ultimately show ?thesis
    using range_loop_list [OF E(2) assms(2) E(3), of "min a b" "max a b"] E(1) mm
    by (fastforce simp: ListFromRange_def op_simps)
qed

section \<open>Arithmetic\<close>

text \<open>The result of an operator on integers, as a natural number below \<open>2^64\<close>.\<close>

definition arith_spec :: "arith \<Rightarrow> nat \<Rightarrow> nat \<Rightarrow> nat option" where
  "arith_spec op v w =
    (case op of
       ArAdd \<Rightarrow> Some ((v + w) mod 2 ^ 64)
     | ArSub \<Rightarrow> Some ((v + (2 ^ 64 - w)) mod 2 ^ 64)
     | ArMul \<Rightarrow> Some ((v * w) mod 2 ^ 64)
     | ArDiv \<Rightarrow> if w = 0 then None else Some (v div w)
     | ArMod \<Rightarrow> if w = 0 then None else Some (v mod w))"

lemma unat_sub_mod: "unat (v - w :: uword) = (unat v + (2 ^ 64 - unat w)) mod 2 ^ 64"
proof -
  have "unat w < 2 ^ 64" using unsigned_less [of w] by simp
  then have "int (unat v + (2 ^ 64 - unat w)) = uint v - uint w + 2 ^ 64"
    by (simp add: of_nat_diff)
  then have "int ((unat v + (2 ^ 64 - unat w)) mod 2 ^ 64) = (uint v - uint w) mod 2 ^ 64"
    by (simp add: zmod_int del: of_nat_add)
  moreover have "int (unat (v - w)) = (uint v - uint w) mod 2 ^ 64"
    by (simp add: uint_word_ariths)
  ultimately show ?thesis by linarith
qed

lemma of_nat_unatI: "unat x = n \<Longrightarrow> x = of_nat n" for x :: uword
  by auto

lemma long_arith_spec:
  "long_arith op v w =
    (case arith_spec op (unat v) (unat w) of None \<Rightarrow> Inl UndefinedBehaviour | Some n \<Rightarrow> Inr (of_nat n))"
proof (cases op)
  case ArAdd
  have "v + w = of_nat ((unat v + unat w) mod 2 ^ 64)"
    by (rule of_nat_unatI) (simp add: unat_word_ariths)
  then show ?thesis using ArAdd by (simp only: long_arith_def arith_spec_def arith.simps option.simps)
next
  case ArSub
  have "v - w = of_nat ((unat v + (2 ^ 64 - unat w)) mod 2 ^ 64)"
    by (rule of_nat_unatI) (rule unat_sub_mod)
  then show ?thesis using ArSub by (simp only: long_arith_def arith_spec_def arith.simps option.simps)
next
  case ArMul
  have "v * w = of_nat ((unat v * unat w) mod 2 ^ 64)"
    by (rule of_nat_unatI) (simp add: unat_word_ariths)
  then show ?thesis using ArMul by (simp only: long_arith_def arith_spec_def arith.simps option.simps)
next
  case ArDiv
  have "v div w = of_nat (unat v div unat w)" by (rule of_nat_unatI) (rule unat_div)
  then show ?thesis using ArDiv by (simp add: long_arith_def arith_spec_def guardr_def unat_eq_0)
next
  case ArMod
  have "v mod w = of_nat (unat v mod unat w)" by (rule of_nat_unatI) (rule unat_mod)
  then show ?thesis using ArMod by (simp add: long_arith_def arith_spec_def guardr_def unat_eq_0)
qed

text \<open>C37. Arithmetic on two integers is arithmetic modulo \<open>2^64\<close> on their unsigned values and
  puts the result into a new object, leaving every other object alone; dividing by zero, or
  taking the remainder by zero, has no defined behaviour.\<close>

theorem Long_arithmetic:
  assumes "store_ok st" "sane_machine M" "long_cost M < store_free st"
    and "obj_at a st = Inr (OLong v)" "obj_at b st = Inr (OLong w)"
  shows "case arith_spec op (unat v) (unat w) of
      None \<Rightarrow> Arith M op a b st = Inl UndefinedBehaviour
    | Some n \<Rightarrow> \<exists>r st'. Arith M op a b st = Inr (r, st') \<and> r \<noteq> 0 \<and> st_objs st r = None \<and>
        st_objs st' = (st_objs st)(r \<mapsto> OLong (of_nat n)) \<and> n < 2 ^ 64"
proof (cases "arith_spec op (unat v) (unat w)")
  case None
  then show ?thesis
    using assms(4,5)
    by (simp add: Arith_def Long_arith_def op_simps IsNumber_def long_value_def long_arith_spec)
next
  case (Some n)
  have "plain_obj M (OLong (of_nat n))" by (rule sane_plain [OF assms(2)]) simp
  then obtain r st' where R: "new_obj M (OLong (of_nat n)) st = Inr (r, st')" "r \<noteq> 0" "st_objs st r = None"
      "st_objs st' = (st_objs st)(r \<mapsto> OLong (of_nat n))"
    using gel_store.alloc_fresh [OF assms(1), of M "OLong (of_nat n)"] assms(3) by auto
  have "unat v < 2 ^ 64" "unat w < 2 ^ 64" using unsigned_less [of v] unsigned_less [of w] by simp_all
  then have "n < 2 ^ 64"
    using Some by (auto simp: arith_spec_def less_imp_diff_less div_le_dividend [THEN le_less_trans]
        mod_le_divisor [THEN le_less_trans] split: arith.splits if_splits)
  moreover have "Arith M op a b st = Inr (r, st')"
    using assms(4,5) R(1) Some
    by (simp add: Arith_def Long_arith_def op_simps IsNumber_def long_value_def long_arith_spec Long_New_def)
  ultimately show ?thesis using Some R by auto
qed

section \<open>Equality of lists\<close>

lemma Equals_null: "Equals k M 0 b st = Inl UndefinedBehaviour"
  by (subst Equals.simps) (simp add: obj_at_def)

lemma Equals_pairs:
  assumes "obj_at a st = Inr (OPair p q)" "obj_at b st = Inr (OPair p' q')"
  shows "Equals k M a b st =
    (case k of 0 \<Rightarrow> Inl OutOfFuel
     | Suc k' \<Rightarrow> rbind (Equals k' M p p' st) (\<lambda>e. if e then Equals k' M q q' st else Inr False))"
  using assms by (subst Equals.simps) simp

lemma Equals_pair_null: "obj_at a st = Inr (OPair p q) \<Longrightarrow> Equals k M a 0 st = Inl UndefinedBehaviour"
  by (subst Equals.simps) (simp add: obj_at_def)

lemma list_pair: "list_at st a xs \<Longrightarrow> \<exists>p q. obj_at a st = Inr (OPair p q)"
  by (cases xs) (auto simp: obj_at_def)

lemma lists_never_equal: "list_at st a xs \<Longrightarrow> list_at st b ys \<Longrightarrow> Equals k M a b st \<noteq> Inr True"
proof (induction xs arbitrary: a b ys k)
  case Nil
  obtain p q where "obj_at b st = Inr (OPair p q)" using list_pair [OF Nil(2)] by blast
  moreover have "obj_at a st = Inr (OPair 0 0)" using Nil by (simp add: obj_at_def)
  ultimately show ?case by (simp add: Equals_pairs Equals_null split: nat.split)
next
  case (Cons x xs)
  obtain t where t: "obj_at a st = Inr (OPair x t)" "list_at st t xs"
    using obj_at_Cons [OF Cons.prems(1)] by blast
  show ?case
  proof (cases ys)
    case Nil
    then have "obj_at b st = Inr (OPair 0 0)" using Cons.prems(2) by (simp add: obj_at_def)
    moreover obtain p q where "obj_at t st = Inr (OPair p q)" using list_pair [OF t(2)] by blast
    ultimately show ?thesis
      using t(1) by (auto simp: Equals_pairs Equals_pair_null rbind_eq_Inr split: nat.split)
  next
    case (Cons y zs)
    obtain u where "obj_at b st = Inr (OPair y u)" "list_at st u zs"
      using obj_at_Cons Cons.prems(2) Cons by blast
    then show ?thesis
      using t Cons.IH [OF t(2)] by (auto simp: Equals_pairs rbind_eq_Inr split: nat.split)
  qed
qed

text \<open>The answers \<open>es\<close> of comparing the elements at equal places decide.\<close>

lemma compared_lists:
  assumes "list_at st a xs" "list_at st b ys" "length es = min (length xs) (length ys)"
    and "\<forall>i<length es. \<forall>k\<ge>n. Equals k M (xs ! i) (ys ! i) st = Inr (es ! i)" "length xs + n < k"
  shows "(False \<in> set es \<longrightarrow> Equals k M a b st = Inr False) \<and>
    (False \<notin> set es \<longrightarrow> length xs \<le> length ys \<longrightarrow> Equals k M a b st = Inl UndefinedBehaviour)"
  using assms
proof (induction xs arbitrary: a b ys es k)
  case Nil
  obtain p q where "obj_at b st = Inr (OPair p q)" using list_pair [OF Nil(2)] by blast
  moreover have "obj_at a st = Inr (OPair 0 0)" using Nil(1) by (simp add: obj_at_def)
  ultimately show ?case using Nil(3,5) by (cases k) (auto simp: Equals_pairs Equals_null)
next
  case (Cons x xs)
  show ?case
  proof (cases ys)
    case Nil
    then show ?thesis using Cons.prems(3) by simp
  next
    case ys: (Cons y zs)
    obtain e es' where es: "es = e # es'" "length es' = min (length xs) (length zs)"
      using Cons.prems(3) ys by (cases es) auto
    obtain t where t: "obj_at a st = Inr (OPair x t)" "list_at st t xs"
      using obj_at_Cons [OF Cons.prems(1)] by blast
    obtain u where u: "obj_at b st = Inr (OPair y u)" "list_at st u zs"
      using obj_at_Cons Cons.prems(2) ys by blast
    obtain k' where k: "k = Suc k'" "length xs + n < k'" using Cons.prems(5) by (cases k) auto
    have e: "Equals k' M x y st = Inr e" using Cons.prems(4) es(1) ys k(2) by force
    have "\<forall>i<length es'. \<forall>k\<ge>n. Equals k M (xs ! i) (zs ! i) st = Inr (es' ! i)"
      using Cons.prems(4) es(1) ys by force
    from Cons.IH [OF t(2) u(2) es(2) this k(2)]
    show ?thesis using e k(1) es(1) ys by (auto simp: Equals_pairs [OF t(1) u(1)])
  qed
qed

text \<open>C38. No two proper lists are ever found equal, not even a list and itself. Where two elements at
  the same place compare as different the answer is no. Where all that are compared are equal and
  the first list is not the longer one, the comparison goes on to the empty pair at its end, calls
  \<open>Equals\<close> on the null car of that pair, and has no defined behaviour.\<close>

theorem Equals_lists:
  assumes "list_in (st_objs st) a xs" "list_in (st_objs st) b ys" "length es = min (length xs) (length ys)"
    and "\<forall>i<length es. \<forall>k\<ge>n. Equals k M (xs ! i) (ys ! i) st = Inr (es ! i)" "length xs + n < k"
  shows "(\<forall>j. Equals j M a b st \<noteq> Inr True) \<and>
    (False \<in> set es \<longrightarrow> Equals k M a b st = Inr False) \<and>
    (False \<notin> set es \<longrightarrow> length xs \<le> length ys \<longrightarrow> Equals k M a b st = Inl UndefinedBehaviour)"
  using compared_lists [OF assms] lists_never_equal [OF assms(1,2)] by blast

section \<open>Concrete stores\<close>

definition example_machine :: machine where
  "example_machine = \<lparr>m_sizeof = \<lambda>_. 32, m_dadd = (+), m_dsub = (-), m_dmul = (*), m_ddiv = (div),
     m_deq = (=), m_to_long = Some, m_to_double = id\<rparr>"

definition example_objects :: store where
  "example_objects = (initial_store example_heap)\<lparr>st_objs :=
     [4096 \<mapsto> OPair 4176 4128, 4128 \<mapsto> OPair 4208 4256, 4176 \<mapsto> OLong 42, 4208 \<mapsto> OLong 6,
      4256 \<mapsto> OPair 0 0]\<rparr>"

lemma example_heap_facts:
  "good_heap example_heap" "heap_cursor example_heap = 65536" "heap_limit example_heap = 66048"
  using new_Heap_layout(2-4) [OF example_heap_eq] by simp_all

lemma example_objects_ok: "store_ok example_objects" "store_free example_objects = 512"
  using example_heap_facts
  by (auto simp: store_ok_def store_free_def example_objects_def split: if_splits)

lemma example_machine_sane: "sane_machine example_machine"
  by (simp add: sane_machine_def example_machine_def kLargeObjectSize_def)

lemma example_costs: "pair_cost example_machine = 48" "long_cost example_machine = 48"
  by (simp_all add: pair_cost_def long_cost_def example_machine_def)

lemma example_objects_at:
  "obj_at 4176 example_objects = Inr (OLong 42)" "obj_at 4208 example_objects = Inr (OLong 6)"
  "list_at example_objects 4096 [4176, 4208]"
  by (simp_all add: example_objects_def obj_at_def)

theorem ToList_list_witness:
  "\<exists>r st'. ToList example_machine [4176, 4208] True example_objects = Inr (r, st') \<and>
    list_in (st_objs st') r [4176, 4208]"
  using ToList_list [OF example_objects_ok(1) example_machine_sane, of "[4176, 4208]" True]
    example_objects_ok(2) example_costs by auto

theorem ListFromRange_ascending_witness:
  "\<exists>r st' as. ListFromRange example_machine 2 0 example_objects = Inr (r, st') \<and>
    list_in (st_objs st') r as \<and>
    map (st_objs st') as = [Some (OLong 0), Some (OLong 1), Some (OLong 2)]"
proof -
  have "map (\<lambda>n. Some (OLong (of_nat n))) [0..<2 + 1] = [Some (OLong 0), Some (OLong 1), Some (OLong 2)]"
    by (simp add: numeral_2_eq_2)
  moreover have "(0 :: nat) = min (unat (2 :: uword)) (unat (0 :: uword))"
    and "(2 :: nat) = max (unat (2 :: uword)) (unat (0 :: uword))" by simp_all
  moreover have "(2 - 0 + 1) * (pair_cost example_machine + long_cost example_machine) +
      pair_cost example_machine < store_free example_objects"
    unfolding example_costs example_objects_ok(2) by simp
  ultimately show ?thesis
    using ListFromRange_ascending [OF example_objects_ok(1) example_machine_sane, of 0 2 0 2] by metis
qed

theorem Long_arithmetic_witness:
  "\<exists>r st'. Arith example_machine ArSub 4208 4176 example_objects = Inr (r, st') \<and>
     st_objs st' r = Some (OLong (of_nat (2 ^ 64 - 36)))"
proof -
  have "arith_spec ArSub (unat (6 :: uword)) (unat (42 :: uword)) = Some (2 ^ 64 - 36)"
    by (simp add: arith_spec_def)
  moreover have "long_cost example_machine < store_free example_objects"
    by (simp only: example_objects_ok(2) example_costs)
  ultimately show ?thesis
    using Long_arithmetic [OF example_objects_ok(1) example_machine_sane _ example_objects_at(2,1), of ArSub]
    by (simp only: option.simps) (metis fun_upd_same)
qed

theorem Equals_lists_witness:
  "Equals 9 example_machine 4096 4096 example_objects = Inl UndefinedBehaviour \<and>
    Equals 9 example_machine 4128 4096 example_objects = Inr False"
proof -
  have e: "Equals k example_machine 4176 4176 example_objects = Inr True"
    "Equals k example_machine 4208 4208 example_objects = Inr True"
    "Equals k example_machine 4208 4176 example_objects = Inr False" for k
    using example_objects_at(1,2) by (subst Equals.simps; auto)+
  have l: "list_at example_objects 4128 [4208]" by (simp add: example_objects_def)
  have "\<forall>i<length [True, True]. \<forall>k\<ge>0. Equals k example_machine ([4176, 4208] ! i) ([4176, 4208] ! i) example_objects =
      Inr ([True, True] ! i)"
    using e by (auto simp: less_Suc_eq)
  from Equals_lists [OF example_objects_at(3) example_objects_at(3) _ this, of 9]
    Equals_lists [OF l example_objects_at(3), of "[False]" 0 example_machine 9]
  show ?thesis using e(3) by simp
qed

end
