(* ===== verification/Printing.thy ===== *)
theory Printing
  imports ObjectsCorrect
begin

text \<open>
  Printing values (\<open>PrintValue\<close> and \<open>String::ValueOf\<close> in \<open>gel/object.cc\<close>) and the constructors
  of strings and errors that use it. How the standard library writes a double is a parameter,
  and so are the order in which its hash table goes through the elements of a set (\<open>pr_set\<close>) and the
  diagnostic text \<open>ToString\<close> of the objects that are not printed by name (\<open>pr_other\<close>).
\<close>

record printer =
  pr_double :: "uword \<Rightarrow> string"
  pr_set :: "(uword \<times> uword) list \<Rightarrow> uword list"
  pr_other :: "obj \<Rightarrow> string"

section \<open>Decimal numbers\<close>

definition digit :: "nat \<Rightarrow> char" where
  "digit d = char_of (48 + d)"

fun show_nat :: "nat \<Rightarrow> string" where
  "show_nat n = (if n < 10 then [digit n] else show_nat (n div 10) @ [digit (n mod 10)])"

declare show_nat.simps [simp del]

definition show_bool :: "bool \<Rightarrow> string" where
  "show_bool b = (if b then ''#t'' else ''#f'')"

definition symbol_text_at :: "uword \<Rightarrow> store \<Rightarrow> string res" where
  "symbol_text_at a st = rbind (symbol_at a st) (\<lambda>s. Inr (GetFullyQualifiedName s))"

section \<open>Printing\<close>

text \<open>The value itself, the loop over the rest of a list, and the loop over the elements of a set. A cyclic
  list is printed forever.\<close>

fun PrintValue :: "nat \<Rightarrow> printer \<Rightarrow> uword \<Rightarrow> store \<Rightarrow> string res"
  and PrintRest :: "nat \<Rightarrow> printer \<Rightarrow> uword \<Rightarrow> store \<Rightarrow> string res"
  and PrintElements :: "nat \<Rightarrow> printer \<Rightarrow> uword list \<Rightarrow> store \<Rightarrow> string res" where
  "PrintValue fuel P a st =
    asserting (a \<noteq> 0)
      (rbind (obj_at a st) (\<lambda>x.
       case x of
         OBool b \<Rightarrow> Inr (show_bool b)
       | ODouble d \<Rightarrow> Inr (pr_double P d)
       | OLong v \<Rightarrow> Inr (show_nat (unat v))
       | OString s \<Rightarrow> Inr s
       | OSymbol s \<Rightarrow> Inr (GetFullyQualifiedName s)
       | ONative n \<Rightarrow>
           rbind (symbol_text_at (nv_symbol n) st) (\<lambda>t. Inr (''NativeProcedure('' @ t @ '')''))
       | OClass c \<Rightarrow> rbind (string_at (cl_name c) st) (\<lambda>t. Inr (''Class('' @ t @ '')''))
       | OLambda l \<Rightarrow>
           rbind (if lm_symbol l \<noteq> 0 then symbol_text_at (lm_symbol l) st else Inr [])
             (\<lambda>t. Inr (''Lambda('' @ t @ '')''))
       | OPair p q \<Rightarrow>
           (if p = 0 \<and> q = 0 then Inr ''()''
            else case fuel of
              0 \<Rightarrow> Inl OutOfFuel
            | Suc k \<Rightarrow>
                rbind (PrintValue k P p st) (\<lambda>s. rbind (PrintRest k P q st) (\<lambda>t. Inr (''('' @ s @ t))))
       | OSet ns \<Rightarrow>
           (case fuel of
              0 \<Rightarrow> Inl OutOfFuel
            | Suc k \<Rightarrow> rbind (PrintElements k P (pr_set P ns) st) (\<lambda>t. Inr (''('' @ t @ '')'')))
       | _ \<Rightarrow> Inr (pr_other P x)))"
| "PrintRest fuel P a st =
    rbind (IsNull a st) (\<lambda>n.
    if n then Inr '')''
    else rbind (obj_at a st) (\<lambda>x.
      case fuel of
        0 \<Rightarrow> Inl OutOfFuel
      | Suc k \<Rightarrow>
          (case x of
             OPair p q \<Rightarrow>
               rbind (PrintValue k P p st) (\<lambda>s. rbind (PrintRest k P q st) (\<lambda>t. Inr ('' '' @ s @ t)))
           | _ \<Rightarrow> rbind (PrintValue k P a st) (\<lambda>s. Inr ('' '' @ s @ '')'')))))"
| "PrintElements fuel P vs st =
    (case vs of
       [] \<Rightarrow> Inr []
     | v # rest \<Rightarrow>
         (case fuel of
            0 \<Rightarrow> Inl OutOfFuel
          | Suc k \<Rightarrow>
              rbind (PrintValue k P v st) (\<lambda>s. rbind (PrintElements k P rest st) (\<lambda>t.
              Inr (s @ (if rest \<noteq> [] then '', '' else []) @ t)))))"

declare PrintValue.simps [simp del] PrintRest.simps [simp del] PrintElements.simps [simp del]

text \<open>The text \<open>String::ValueOf\<close> makes of a value that is neither a string nor a symbol.\<close>

definition value_text :: "nat \<Rightarrow> printer \<Rightarrow> uword \<Rightarrow> obj \<Rightarrow> store \<Rightarrow> string res" where
  "value_text fuel P a x st =
    (case x of
       OBool b \<Rightarrow> Inr (show_bool b)
     | OLong v \<Rightarrow> Inr (show_nat (unat v))
     | ODouble d \<Rightarrow> Inr (pr_double P d)
     | OPair p q \<Rightarrow> PrintValue fuel P a st
     | _ \<Rightarrow> Inr (pr_other P x))"

definition String_ValueOf :: "nat \<Rightarrow> machine \<Rightarrow> printer \<Rightarrow> uword \<Rightarrow> uword sop" where
  "String_ValueOf fuel M P a =
    sbind (reads (obj_at a)) (\<lambda>x.
    case x of
      OString _ \<Rightarrow> ret a
    | OSymbol s \<Rightarrow> String_New M (GetFullyQualifiedName s)
    | _ \<Rightarrow> sbind (reads (value_text fuel P a x)) (String_New M))"

definition Error_New_value :: "nat \<Rightarrow> machine \<Rightarrow> printer \<Rightarrow> uword \<Rightarrow> uword sop" where
  "Error_New_value fuel M P a =
    sthen (sassert (a \<noteq> 0)) (sbind (String_ValueOf fuel M P a) (Error_New M))"

section \<open>Printed lists\<close>

text \<open>The elements as a printed sentence.\<close>

fun spaced :: "string list \<Rightarrow> string" where
  "spaced [] = []"
| "spaced (t # ts) = t @ concat (map (\<lambda>u. CHR '' '' # u) ts)"

lemma PrintRest_list:
  assumes "list_at st a xs" "list_all2 (\<lambda>x t. \<forall>k\<ge>n. PrintValue k P x st = Inr t) xs ts" "length xs + n \<le> k"
  shows "PrintRest k P a st = Inr (concat (map (\<lambda>u. CHR '' '' # u) ts) @ '')'')"
  using assms
proof (induction xs arbitrary: a ts k)
  case Nil
  then show ?case using IsNull_list_at [OF Nil(1)] by (subst PrintRest.simps) simp
next
  case (Cons x xs)
  obtain b where b: "obj_at a st = Inr (OPair x b)" "list_at st b xs"
    using obj_at_Cons [OF Cons.prems(1)] by blast
  obtain t us where ts: "ts = t # us" "\<forall>k\<ge>n. PrintValue k P x st = Inr t"
      "list_all2 (\<lambda>x t. \<forall>k\<ge>n. PrintValue k P x st = Inr t) xs us"
    using Cons.prems(2) by (auto simp: list_all2_Cons1)
  obtain k' where k: "k = Suc k'" "length xs + n \<le> k'" using Cons.prems(3) by (cases k) auto
  show ?case
    using Cons.IH [OF b(2) ts(3) k(2)] ts(1,2) k b(1) IsNull_list_at [OF Cons.prems(1)]
    by (subst PrintRest.simps) simp
qed

text \<open>C39. A proper list whose elements print as given texts prints as these texts, separated by
  blanks and in parentheses; with a recursion depth of its length and that of its elements,
  printing it ends.\<close>

theorem PrintValue_list:
  assumes "list_in (st_objs st) a xs" "list_all2 (\<lambda>x t. \<forall>k\<ge>n. PrintValue k P x st = Inr t) xs ts"
    and "length xs + n \<le> k"
  shows "PrintValue k P a st = Inr (''('' @ spaced ts @ '')'')"
proof (cases xs)
  case Nil
  then show ?thesis using assms by (subst PrintValue.simps) (simp add: obj_at_def)
next
  case (Cons x ys)
  obtain b where b: "obj_at a st = Inr (OPair x b)" "list_at st b ys" "x \<noteq> 0" "a \<noteq> 0"
    using assms(1) Cons obj_at_Cons [of st a x ys] list_in_nonzero [OF assms(1)] by auto
  obtain t us where ts: "ts = t # us" "\<forall>k\<ge>n. PrintValue k P x st = Inr t"
      "list_all2 (\<lambda>x t. \<forall>k\<ge>n. PrintValue k P x st = Inr t) ys us"
    using assms(2) Cons by (auto simp: list_all2_Cons1)
  obtain k' where k: "k = Suc k'" "length ys + n \<le> k'" using assms(3) Cons by (cases k) auto
  show ?thesis
    using PrintRest_list [OF b(2) ts(3) k(2)] ts(1,2) k b
    by (subst PrintValue.simps) simp
qed

theorem PrintValue_list_witness:
  "PrintValue 5 \<lparr>pr_double = \<lambda>_. [], pr_set = map snd, pr_other = \<lambda>_. []\<rparr> 4096 example_objects = Inr ''(42 6)''"
proof -
  let ?P = "\<lparr>pr_double = \<lambda>_. [], pr_set = map snd, pr_other = \<lambda>_. []\<rparr>"
  have n: "show_nat 42 = ''42''" "show_nat 6 = ''6''"
    by code_simp+
  have "list_all2 (\<lambda>x t. \<forall>k\<ge>0. PrintValue k ?P x example_objects = Inr t) [4176, 4208] [''42'', ''6'']"
    using n example_objects_at(1,2) by (auto simp: PrintValue.simps)
  then show ?thesis
    using PrintValue_list [OF example_objects_at(3), of 0 ?P "[''42'', ''6'']" 5] by simp
qed

end
