(* ===== verification/Classes.thy ===== *)
theory Classes
  imports Printing
begin

text \<open>
  Classes and fields (\<open>gel/class.h\<close>, \<open>gel/class.cc\<close>): making and registering classes, the
  classes of the runtime in the order \<open>Object::Init\<close> makes them, the walk up the parents
  (instances, functions, fields) and new instances. The native procedures that \<open>Object::Init\<close>
  registers in between are left out; they make no class.
\<close>

section \<open>Making classes\<close>

text \<open>\<open>Class::New(id, parent, name)\<close> and \<open>Register\<close>; the registered pointer is the class.\<close>

definition Class_New :: "machine \<Rightarrow> uword \<Rightarrow> uword \<Rightarrow> uword \<Rightarrow> uword sop" where
  "Class_New M cid parent name =
    sthen (sassert (name \<noteq> 0))
      (sbind (new_obj M (OClass \<lparr>cl_id = cid, cl_parent = parent, cl_name = name, cl_funcs = [], cl_fields = []\<rparr>))
        (\<lambda>cls.
         sthen (sassert (cls \<noteq> 0))
           (sthen (modifies (\<lambda>st. st\<lparr>st_classes := st_classes st @ [cls]\<rparr>)) (ret cls))))"

definition Class_New_id_text :: "machine \<Rightarrow> uword \<Rightarrow> uword \<Rightarrow> string \<Rightarrow> uword sop" where
  "Class_New_id_text M cid parent name =
    sthen (sassert (parent \<noteq> 0)) (sbind (String_New M name) (Class_New M cid parent))"

definition next_class_id :: "uword sop" where
  "next_class_id =
    sthen (modifies (\<lambda>st. st\<lparr>st_num_classes := st_num_classes st + 1\<rparr>)) (asks st_num_classes)"

definition Class_New_parent :: "machine \<Rightarrow> uword \<Rightarrow> uword \<Rightarrow> uword sop" where
  "Class_New_parent M parent name =
    sthen (sassert (parent \<noteq> 0)) (sthen (sassert (name \<noteq> 0))
      (sbind next_class_id (\<lambda>cid. Class_New M cid parent name)))"

definition Class_New_parent_text :: "machine \<Rightarrow> uword \<Rightarrow> string \<Rightarrow> uword sop" where
  "Class_New_parent_text M parent name =
    sthen (sassert (parent \<noteq> 0)) (sthen (sassert (name \<noteq> []))
      (sbind (String_New M name) (Class_New_parent M parent)))"

text \<open>\<open>Class::New(id, name)\<close> takes the next number and not the number it is given.\<close>

definition Class_New_root :: "machine \<Rightarrow> uword \<Rightarrow> uword \<Rightarrow> uword sop" where
  "Class_New_root M cid name =
    sthen (sassert (name \<noteq> 0)) (sbind next_class_id (\<lambda>n. Class_New M n 0 name))"

definition Class_New_root_text :: "machine \<Rightarrow> uword \<Rightarrow> string \<Rightarrow> uword sop" where
  "Class_New_root_text M cid name =
    sthen (sassert (name \<noteq> [])) (sbind (String_New M name) (Class_New_root M cid))"

definition Field_New :: "machine \<Rightarrow> uword \<Rightarrow> uword \<Rightarrow> uword sop" where
  "Field_New M owner name =
    sthen (sassert (owner \<noteq> 0 \<and> name \<noteq> 0))
      (new_obj M (OField \<lparr>fd_owner = owner, fd_name = name, fd_value = FOffset 0\<rparr>))"

definition Class_Add :: "uword \<Rightarrow> uword \<Rightarrow> unit sop" where
  "Class_Add cls field =
    sthen (sassert (field \<noteq> 0))
      (sbind (reads (class_at cls)) (\<lambda>c.
       modifies (put_obj cls (OClass (c\<lparr>cl_fields := cl_fields c @ [field]\<rparr>)))))"

definition AddField :: "machine \<Rightarrow> uword \<Rightarrow> string \<Rightarrow> uword sop" where
  "AddField M cls name =
    sthen (sassert (name \<noteq> []))
      (sbind (String_New M name) (\<lambda>n.
       sbind (Field_New M cls n) (\<lambda>field.
       sthen (Class_Add cls field) (ret field))))"

definition AddFunction :: "uword \<Rightarrow> uword \<Rightarrow> unit sop" where
  "AddFunction cls func =
    sthen (sassert (func \<noteq> 0))
      (sbind (reads (class_at cls)) (\<lambda>c.
       modifies (put_obj cls (OClass (c\<lparr>cl_funcs := cl_funcs c @ [func]\<rparr>)))))"

section \<open>The classes of the runtime\<close>

text \<open>The numbers of \<open>Class::ClassIds\<close>.\<close>

definition ClassIds :: "kind \<Rightarrow> uword" where
  "ClassIds k =
    (case k of
       KObject \<Rightarrow> 1 | KClass \<Rightarrow> 2 | KField \<Rightarrow> 3 | KString \<Rightarrow> 4 | KSymbol \<Rightarrow> 5 | KNamespace \<Rightarrow> 6
     | KModule \<Rightarrow> 7 | KSeq \<Rightarrow> 8 | KMap \<Rightarrow> 9 | KProcedure \<Rightarrow> 10 | KLambda \<Rightarrow> 11
     | KNativeProcedure \<Rightarrow> 12 | KBuffer \<Rightarrow> 13 | KScript \<Rightarrow> 14 | KBool \<Rightarrow> 15 | KNumber \<Rightarrow> 16
     | KLong \<Rightarrow> 17 | KDouble \<Rightarrow> 18 | KPair \<Rightarrow> 19 | KArray \<Rightarrow> 20 | KMacro \<Rightarrow> 21 | KError \<Rightarrow> 22
     | KSet \<Rightarrow> 23 | KExpression \<Rightarrow> 24 | KEventLoop \<Rightarrow> 25 | KTimer \<Rightarrow> 26 | KObservable \<Rightarrow> 27
     | KObserver \<Rightarrow> 28 | KSubject \<Rightarrow> 29 | KReplaySubject \<Rightarrow> 30 | KPublishSubject \<Rightarrow> 31)"

definition kTotalNumberOfInternalClassIds :: uword where
  "kTotalNumberOfInternalClassIds = 32"

definition IsPrimitive :: "class_obj \<Rightarrow> bool" where
  "IsPrimitive c = (cl_id c \<le> kTotalNumberOfInternalClassIds)"

definition GetClass :: "kind \<Rightarrow> uword sop" where
  "GetClass k = sbind (asks (\<lambda>st. st_class st k)) (\<lambda>c. sthen (sassert (c \<noteq> 0)) (ret c))"

text \<open>The class a class is made under.\<close>

definition parent_kind :: "kind \<Rightarrow> kind" where
  "parent_kind k =
    (case k of
       KLong \<Rightarrow> KNumber | KDouble \<Rightarrow> KNumber | KLambda \<Rightarrow> KProcedure | KNativeProcedure \<Rightarrow> KProcedure
     | KArray \<Rightarrow> KSeq | KPair \<Rightarrow> KSeq | KSet \<Rightarrow> KSeq | KMap \<Rightarrow> KSeq | KObservable \<Rightarrow> KSeq
     | KPublishSubject \<Rightarrow> KSubject | KReplaySubject \<Rightarrow> KSubject | _ \<Rightarrow> KObject)"

text \<open>The classes that are made with a number of their own.\<close>

definition explicit_id :: "kind \<Rightarrow> bool" where
  "explicit_id k = (k = KLong \<or> k = KDouble \<or> k = KBool)"

text \<open>\<open>CreateClass\<close> of every class. The class of expressions takes the name it inherits, that of
  \<open>Object\<close>.\<close>

definition CreateClass :: "machine \<Rightarrow> kind \<Rightarrow> uword sop" where
  "CreateClass M k =
    (if k = KObject then Class_New_root_text M (ClassIds KObject) (kind_name KObject)
     else sbind (GetClass (parent_kind k)) (\<lambda>p.
       if explicit_id k then Class_New_id_text M (ClassIds k) p (kind_name k)
       else sbind (Class_New_parent_text M p (kind_name k)) (\<lambda>cls.
         if k = KModule then sthen (AddField M cls ''initialized'') (ret cls) else ret cls)))"

definition InitClass :: "machine \<Rightarrow> kind \<Rightarrow> unit sop" where
  "InitClass M k =
    sbind (asks (\<lambda>st. st_class st k)) (\<lambda>c.
    sthen (sassert (c = 0))
      (sbind (CreateClass M k) (\<lambda>cls.
       sthen (modifies (\<lambda>st. st\<lparr>st_class := (st_class st)(k := cls)\<rparr>)) (sassert (cls \<noteq> 0)))))"

definition Bool_Init :: "machine \<Rightarrow> unit sop" where
  "Bool_Init M =
    sthen (InitClass M KBool)
      (sbind (new_obj M (OBool True)) (\<lambda>t.
       sthen (modifies (\<lambda>st. st\<lparr>st_true := t\<rparr>))
         (sbind (new_obj M (OBool False)) (\<lambda>f. modifies (\<lambda>st. st\<lparr>st_false := f\<rparr>)))))"

definition init_order :: "kind list" where
  "init_order =
    [KObject, KClass, KField, KString, KSymbol, KNamespace, KModule, KSeq, KMap, KProcedure,
     KLambda, KNativeProcedure, KBuffer, KScript, KNumber, KLong, KDouble, KPair, KBool, KArray,
     KMacro, KError, KSet, KExpression, KEventLoop, KTimer, KObservable, KObserver, KSubject,
     KReplaySubject, KPublishSubject]"

fun InitClasses :: "machine \<Rightarrow> kind list \<Rightarrow> unit sop" where
  "InitClasses M [] = ret ()"
| "InitClasses M (k # ks) =
    sthen (if k = KBool then Bool_Init M else InitClass M k) (InitClasses M ks)"

definition Object_Init :: "machine \<Rightarrow> unit sop" where
  "Object_Init M = InitClasses M init_order"

section \<open>Walking up the parents\<close>

text \<open>A class is registered after its parent, so the number of classes bounds the walk.\<close>

fun instance_loop :: "nat \<Rightarrow> uword \<Rightarrow> uword \<Rightarrow> store \<Rightarrow> bool res" where
  "instance_loop fuel cls rhs st =
    (if cls = 0 then Inr False
     else rbind (Class_Equals cls rhs st) (\<lambda>e.
       if e then Inr True
       else rbind (class_at cls st) (\<lambda>c.
         case fuel of 0 \<Rightarrow> Inl OutOfFuel | Suc k \<Rightarrow> instance_loop k (cl_parent c) rhs st)))"

declare instance_loop.simps [simp del]

definition IsInstanceOf :: "uword \<Rightarrow> uword \<Rightarrow> store \<Rightarrow> bool res" where
  "IsInstanceOf cls rhs st =
    asserting (rhs \<noteq> 0) (instance_loop (length (st_classes st)) cls rhs st)"

text \<open>The class of an object, \<open>GetType\<close>.\<close>

definition GetType :: "uword \<Rightarrow> store \<Rightarrow> uword res" where
  "GetType a st =
    rbind (obj_at a st) (\<lambda>x.
      let c = st_class st (kind_of x) in asserting (c \<noteq> 0) (Inr c))"

fun find_first :: "(uword \<Rightarrow> store \<Rightarrow> bool res) \<Rightarrow> uword list \<Rightarrow> store \<Rightarrow> uword res" where
  "find_first p [] st = Inr 0"
| "find_first p (x # xs) st = rbind (p x st) (\<lambda>b. if b then Inr x else find_first p xs st)"

fun search_parents :: "nat \<Rightarrow> (class_obj \<Rightarrow> store \<Rightarrow> uword res) \<Rightarrow> bool \<Rightarrow> uword \<Rightarrow> store \<Rightarrow> uword res" where
  "search_parents fuel own recursive cls st =
    rbind (class_at cls st) (\<lambda>c.
    rbind (own c st) (\<lambda>r.
    if r \<noteq> 0 then Inr r
    else if recursive \<and> cl_parent c \<noteq> 0 then
      (case fuel of 0 \<Rightarrow> Inl OutOfFuel | Suc k \<Rightarrow> search_parents k own recursive (cl_parent c) st)
    else Inr 0))"

declare search_parents.simps [simp del]

definition procedure_symbol :: "uword \<Rightarrow> store \<Rightarrow> symbol res" where
  "procedure_symbol f st =
    rbind (obj_at f st) (\<lambda>x.
      case x of
        OLambda l \<Rightarrow> symbol_at (lm_symbol l) st
      | ONative n \<Rightarrow> symbol_at (nv_symbol n) st
      | _ \<Rightarrow> Inl UndefinedBehaviour)"

definition GetFunction_named :: "uword \<Rightarrow> string \<Rightarrow> bool \<Rightarrow> store \<Rightarrow> uword res" where
  "GetFunction_named cls name recursive st =
    search_parents (length (st_classes st))
      (\<lambda>c. find_first (\<lambda>f st. rbind (procedure_symbol f st) (\<lambda>s. Inr (sym_name s = name))) (cl_funcs c))
      recursive cls st"

definition symbol_matches :: "uword \<Rightarrow> uword \<Rightarrow> store \<Rightarrow> bool res" where
  "symbol_matches sy f st =
    rbind (procedure_symbol f st) (\<lambda>s.
    if sy = 0 then Inr False
    else rbind (obj_at sy st) (\<lambda>y. Inr (case y of OSymbol t \<Rightarrow> Symbol_Equals s t | _ \<Rightarrow> False)))"

definition GetFunction :: "uword \<Rightarrow> uword \<Rightarrow> bool \<Rightarrow> store \<Rightarrow> uword res" where
  "GetFunction cls sy recursive st =
    search_parents (length (st_classes st)) (\<lambda>c. find_first (symbol_matches sy) (cl_funcs c))
      recursive cls st"

text \<open>\<open>HasFunction\<close> has a loop of its own, which answers true where \<open>GetFunction\<close> returns.\<close>

fun any_match :: "(uword \<Rightarrow> store \<Rightarrow> bool res) \<Rightarrow> uword list \<Rightarrow> store \<Rightarrow> bool res" where
  "any_match p [] st = Inr False"
| "any_match p (x # xs) st = rbind (p x st) (\<lambda>b. if b then Inr True else any_match p xs st)"

fun has_loop :: "nat \<Rightarrow> (uword \<Rightarrow> store \<Rightarrow> bool res) \<Rightarrow> bool \<Rightarrow> uword \<Rightarrow> store \<Rightarrow> bool res" where
  "has_loop fuel p recursive cls st =
    rbind (class_at cls st) (\<lambda>c.
    rbind (any_match p (cl_funcs c) st) (\<lambda>b.
    if b then Inr True
    else if \<not> recursive \<or> cl_parent c = 0 then Inr False
    else case fuel of 0 \<Rightarrow> Inl OutOfFuel | Suc k \<Rightarrow> has_loop k p recursive (cl_parent c) st))"

declare has_loop.simps [simp del]

definition HasFunction :: "uword \<Rightarrow> uword \<Rightarrow> bool \<Rightarrow> store \<Rightarrow> bool res" where
  "HasFunction cls sy recursive st =
    has_loop (length (st_classes st)) (symbol_matches sy) recursive cls st"

definition Class_GetField :: "uword \<Rightarrow> uword \<Rightarrow> bool \<Rightarrow> store \<Rightarrow> uword res" where
  "Class_GetField cls sy recursive st =
    search_parents (length (st_classes st))
      (\<lambda>c. find_first (\<lambda>f st.
          rbind (field_at f st) (\<lambda>fd. rbind (string_at (fd_name fd) st) (\<lambda>n.
          rbind (symbol_at sy st) (\<lambda>s. Inr (n = sym_name s))))) (cl_fields c))
      recursive cls st"

definition FindClass :: "string \<Rightarrow> store \<Rightarrow> uword res" where
  "FindClass name st =
    find_first (\<lambda>a st. asserting (a \<noteq> 0) (rbind (class_at a st) (\<lambda>c.
      rbind (string_at (cl_name c) st) (\<lambda>n. Inr (n = name))))) (st_classes st) st"

definition FindClass_symbol :: "uword \<Rightarrow> store \<Rightarrow> uword res" where
  "FindClass_symbol sy st = rbind (symbol_at sy st) (\<lambda>s. FindClass (sym_name s) st)"

section \<open>New instances\<close>

text \<open>The types of \<open>FOR_EACH_TYPE\<close>, in the order in which they are compared.\<close>

definition type_order :: "kind list" where
  "type_order =
    [KSeq, KClass, KField, KBool, KNumber, KDouble, KLong, KString, KSymbol, KMacro, KProcedure,
     KLambda, KNativeProcedure, KPair, KScript, KError, KNamespace, KSet, KMap, KModule,
     KEventLoop, KTimer, KBuffer, KObserver, KObservable, KSubject, KPublishSubject, KReplaySubject]"

definition Bool_New_args :: "machine \<Rightarrow> uword list \<Rightarrow> uword sop" where
  "Bool_New_args M args =
    (case args of
       [] \<Rightarrow> Bool_False
     | [a] \<Rightarrow> sbind (reads (Truth a)) Bool_Box
     | _ \<Rightarrow> sbind (ToList M args False) (\<lambda>l. sbind (reads (Truth l)) Bool_Box))"

text \<open>A buffer's bytes are outside the model: \<open>buffer_text\<close> is the text of the buffer at an address.\<close>

definition String_New_args :: "nat \<Rightarrow> machine \<Rightarrow> printer \<Rightarrow> (uword \<Rightarrow> store \<Rightarrow> string res) \<Rightarrow>
    uword list \<Rightarrow> uword sop" where
  "String_New_args fuel M P buffer_text args =
    (case args of
       [] \<Rightarrow> String_New_empty M
     | a # _ \<Rightarrow>
         sbind (reads (IsNull a)) (\<lambda>n.
         if n then String_New_empty M
         else sbind (reads (obj_at a)) (\<lambda>x.
           case x of
             OString s \<Rightarrow> String_New M s
           | OBuffer _ _ \<Rightarrow> sbind (reads (buffer_text a)) (String_New M)
           | _ \<Rightarrow> String_ValueOf fuel M P a)))"

definition Error_New_args :: "nat \<Rightarrow> machine \<Rightarrow> printer \<Rightarrow> uword list \<Rightarrow> uword sop" where
  "Error_New_args fuel M P args =
    (case args of
       [] \<Rightarrow> sbind (String_New_empty M) (\<lambda>m. new_obj M (OError m))
     | a # _ \<Rightarrow> Error_New_value fuel M P a)"

text \<open>Objects of the containers and of the reactive library are made by \<open>ext\<close>.\<close>

definition New_of_kind :: "nat \<Rightarrow> machine \<Rightarrow> printer \<Rightarrow> (uword \<Rightarrow> store \<Rightarrow> string res) \<Rightarrow>
    (kind \<Rightarrow> uword list \<Rightarrow> uword sop) \<Rightarrow> kind \<Rightarrow> uword list \<Rightarrow> uword sop" where
  "New_of_kind fuel M P buffer_text ext k args =
    (if k = KBool then Bool_New_args M args
     else if k = KString then String_New_args fuel M P buffer_text args
     else if k = KError then Error_New_args fuel M P args
     else if k = KPair then (if args = [] then Null M else fails LogFatal)
     else if k \<in> {KSet, KMap, KBuffer, KObserver, KObservable, KPublishSubject, KReplaySubject}
       then ext k args
     else fails LogFatal)"

fun new_instance_loop :: "nat \<Rightarrow> machine \<Rightarrow> printer \<Rightarrow> (uword \<Rightarrow> store \<Rightarrow> string res) \<Rightarrow>
    (kind \<Rightarrow> uword list \<Rightarrow> uword sop) \<Rightarrow> uword \<Rightarrow> uword list \<Rightarrow> kind list \<Rightarrow> uword sop" where
  "new_instance_loop fuel M P buffer_text ext cls args [] = fails LogFatal"
| "new_instance_loop fuel M P buffer_text ext cls args (k # ks) =
    sbind (GetClass k) (\<lambda>c.
    sbind (reads (Class_Equals cls c)) (\<lambda>e.
    if e then New_of_kind fuel M P buffer_text ext k args
    else new_instance_loop fuel M P buffer_text ext cls args ks))"

definition NewInstance :: "nat \<Rightarrow> machine \<Rightarrow> printer \<Rightarrow> (uword \<Rightarrow> store \<Rightarrow> string res) \<Rightarrow>
    (kind \<Rightarrow> uword list \<Rightarrow> uword sop) \<Rightarrow> uword \<Rightarrow> uword list \<Rightarrow> uword sop" where
  "NewInstance fuel M P buffer_text ext cls args =
    sbind (GetClass KObject) (\<lambda>c.
    sbind (reads (Class_Equals cls c)) (\<lambda>e.
    if e then fails LogFatal
    else new_instance_loop fuel M P buffer_text ext cls args type_order))"

end
