(* ===== verification/ClassesCorrect.thy ===== *)
theory ClassesCorrect
  imports Classes
begin

text \<open>
  Correctness of classes: the initialisation of the runtime's classes establishes the
  well-formedness that the object store relies on, with the class numbers it really gives; the
  instance test is the test for an ancestor of the same name; the two ways to look a function up
  agree.
\<close>

section \<open>Allocating during initialisation\<close>

lemma new_obj_shape:
  assumes "store_ok st" "kind_of x \<noteq> KModule" "new_obj M x st = Inr (a, st')"
  shows "\<exists>h. st' = st\<lparr>st_heap := h, st_objs := (st_objs st)(a \<mapsto> x)\<rparr>"
  using assms(3) operator_new_plain [OF assms(1,2), of M]
  by (auto simp: new_obj_def op_simps rbind_eq_Inr guardr_eq_Inr put_obj_def)

definition max_cost :: nat where
  "max_cost = 16 + 4095"

lemma sane_cost: "sane_machine M \<Longrightarrow> obj_cost M x \<le> max_cost"
proof -
  assume "sane_machine M"
  then have "m_sizeof M (kind_of x) < 4096" by (simp add: sane_machine_def kLargeObjectSize_def)
  then have "unat (m_sizeof M (kind_of x)) < 4096" by (simp add: word_less_nat_alt)
  then show ?thesis by (simp add: obj_cost_def max_cost_def)
qed

lemma new_obj_step:
  assumes "store_ok st" "sane_machine M" "kind_of x \<noteq> KModule" "max_cost < store_free st"
  shows "\<exists>a h. new_obj M x st = Inr (a, st\<lparr>st_heap := h, st_objs := (st_objs st)(a \<mapsto> x)\<rparr>) \<and>
    store_ok (st\<lparr>st_heap := h, st_objs := (st_objs st)(a \<mapsto> x)\<rparr>) \<and> a \<noteq> 0 \<and> st_objs st a = None \<and>
    store_free st \<le> store_free (st\<lparr>st_heap := h\<rparr>) + max_cost"
proof -
  have c: "obj_cost M x < store_free st" using sane_cost [OF assms(2), of x] assms(4) by linarith
  obtain a st' where A: "new_obj M x st = Inr (a, st')" "store_ok st'" "a \<noteq> 0" "st_objs st a = None"
      "store_free st' + obj_cost M x = store_free st"
    using gel_store.alloc_fresh [OF assms(1) sane_plain [OF assms(2,3)] c] by auto
  obtain h where h: "st' = st\<lparr>st_heap := h, st_objs := (st_objs st)(a \<mapsto> x)\<rparr>"
    using new_obj_shape [OF assms(1,3) A(1)] by blast
  have "store_free st' = store_free (st\<lparr>st_heap := h\<rparr>)" using h by (simp add: store_free_def)
  then show ?thesis using A h sane_cost [OF assms(2), of x] by (intro exI [of _ a] exI [of _ h]) simp
qed

lemma store_free_heap [simp]:
  "store_free (st\<lparr>st_objs := m\<rparr>) = store_free st" "store_free (st\<lparr>st_classes := cs\<rparr>) = store_free st"
  "store_free (st\<lparr>st_num_classes := n\<rparr>) = store_free st" "store_free (st\<lparr>st_class := f\<rparr>) = store_free st"
  "store_free (st\<lparr>st_true := t\<rparr>) = store_free st" "store_free (st\<lparr>st_false := t\<rparr>) = store_free st"
  by (simp_all add: store_free_def)

lemma class_named_fields [simp]:
  "class_named (st\<lparr>st_classes := cs\<rparr>) = class_named st" "class_named (st\<lparr>st_num_classes := n\<rparr>) = class_named st"
  "class_named (st\<lparr>st_class := f\<rparr>) = class_named st" "class_named (st\<lparr>st_true := t\<rparr>) = class_named st"
  "class_named (st\<lparr>st_false := t\<rparr>) = class_named st" "class_named (st\<lparr>st_heap := h\<rparr>) = class_named st"
  by (auto simp: class_named_def fun_eq_iff)

lemma store_ok_fields [simp]:
  "store_ok (st\<lparr>st_classes := cs\<rparr>) = store_ok st" "store_ok (st\<lparr>st_num_classes := n\<rparr>) = store_ok st"
  "store_ok (st\<lparr>st_true := t\<rparr>) = store_ok st" "store_ok (st\<lparr>st_false := t\<rparr>) = store_ok st"
  by (simp_all add: store_ok_def)

lemma store_ok_class:
  "store_ok st \<Longrightarrow> class_named st c (kind_name k) \<Longrightarrow> store_ok (st\<lparr>st_class := (st_class st)(k := c)\<rparr>)"
  by (simp add: store_ok_def)

section \<open>The state of the initialisation\<close>

text \<open>The number a class gets after the classes in the list were made.\<close>

definition numbered :: "kind list \<Rightarrow> nat" where
  "numbered ks = length (filter (\<lambda>k. \<not> explicit_id k) ks)"

definition given_id :: "kind list \<Rightarrow> kind \<Rightarrow> uword" where
  "given_id ks k =
    (if explicit_id k then ClassIds k else of_nat (1 + numbered (takeWhile (\<lambda>j. j \<noteq> k) ks)))"

definition row_in :: "(uword \<rightharpoonup> obj) \<Rightarrow> uword \<Rightarrow> uword \<Rightarrow> uword \<Rightarrow> string \<Rightarrow> bool" where
  "row_in m cls parent cid name \<longleftrightarrow> cls \<noteq> 0 \<and>
    (\<exists>c. m cls = Some (OClass c) \<and> cl_id c = cid \<and> cl_parent c = parent \<and> cl_name c \<noteq> 0 \<and>
      m (cl_name c) = Some (OString name))"

lemma row_in_mono: "row_in m cls p cid name \<Longrightarrow> m \<subseteq>\<^sub>m m' \<Longrightarrow> row_in m' cls p cid name"
  unfolding row_in_def map_le_def dom_def by (metis (mono_tags, lifting) mem_Collect_eq option.discI)

lemma row_in_named: "row_in (st_objs st) cls p cid name \<Longrightarrow> class_named st cls name"
  by (auto simp: row_in_def class_named_def)

definition parent_address :: "store \<Rightarrow> kind \<Rightarrow> uword" where
  "parent_address st k = (if k = KObject then 0 else st_class st (parent_kind k))"

definition class_row :: "store \<Rightarrow> kind list \<Rightarrow> kind \<Rightarrow> bool" where
  "class_row st ks k \<longleftrightarrow>
    row_in (st_objs st) (st_class st k) (parent_address st k) (given_id ks k) (kind_name k)"

definition booted :: "kind list \<Rightarrow> store \<Rightarrow> bool" where
  "booted ks st \<longleftrightarrow> store_ok st \<and> distinct ks \<and> st_classes st = map (st_class st) ks \<and>
     (\<forall>k. st_class st k \<noteq> 0 \<longleftrightarrow> k \<in> set ks) \<and> st_num_classes st = of_nat (numbered ks) \<and>
     (\<forall>k\<in>set ks. class_row st ks k \<and> (k \<noteq> KObject \<longrightarrow> parent_kind k \<in> set ks))"

lemma given_id_old: "k \<in> set ks \<Longrightarrow> given_id (ks @ [j]) k = given_id ks k"
  by (auto simp: given_id_def takeWhile_append)

lemma given_id_new: "k \<notin> set ks \<Longrightarrow>
    given_id (ks @ [k]) k = (if explicit_id k then ClassIds k else of_nat (numbered ks) + 1)"
proof -
  assume "k \<notin> set ks"
  then have "takeWhile (\<lambda>j. j \<noteq> k) (ks @ [k]) = ks" by (auto simp: takeWhile_append)
  then show ?thesis by (simp add: given_id_def)
qed

text \<open>The name and the class object, whatever the counter of classes is set to in between.\<close>

lemma make_class:
  assumes "store_ok st" "sane_machine M" "2 * max_cost < store_free st"
  shows "\<exists>nm st1 cls h m. String_New M name st = Inr (nm, st1) \<and> nm \<noteq> 0 \<and>
    st_num_classes st1 = st_num_classes st \<and>
    Class_New M cid p nm (st1\<lparr>st_num_classes := v\<rparr>) = Inr (cls,
      st\<lparr>st_heap := h, st_objs := m, st_classes := st_classes st @ [cls], st_num_classes := v\<rparr>) \<and>
    store_ok (st\<lparr>st_heap := h, st_objs := m\<rparr>) \<and> st_objs st \<subseteq>\<^sub>m m \<and> row_in m cls p cid name \<and>
    st_objs st cls = None \<and> store_free st \<le> store_free (st\<lparr>st_heap := h\<rparr>) + 2 * max_cost"
proof -
  define c where "c nm = OClass \<lparr>cl_id = cid, cl_parent = p, cl_name = nm, cl_funcs = [], cl_fields = []\<rparr>" for nm
  have k: "kind_of (c nm) \<noteq> KModule" for nm by (simp add: kind_of_def c_def)
  have "max_cost < store_free st" using assms(3) by linarith
  then obtain nm h1 where N: "new_obj M (OString name) st =
        Inr (nm, st\<lparr>st_heap := h1, st_objs := (st_objs st)(nm \<mapsto> OString name)\<rparr>)"
      "store_ok (st\<lparr>st_heap := h1, st_objs := (st_objs st)(nm \<mapsto> OString name)\<rparr>)" "nm \<noteq> 0"
      "st_objs st nm = None" "store_free st \<le> store_free (st\<lparr>st_heap := h1\<rparr>) + max_cost"
    using new_obj_step [OF assms(1,2), of "OString name"] by auto
  define st1 where "st1 = st\<lparr>st_heap := h1, st_objs := (st_objs st)(nm \<mapsto> OString name)\<rparr>"
  have f1: "store_free st1 = store_free (st\<lparr>st_heap := h1\<rparr>)" by (simp add: st1_def)
  have "store_ok (st1\<lparr>st_num_classes := v\<rparr>)" "max_cost < store_free (st1\<lparr>st_num_classes := v\<rparr>)"
    using N(2,5) assms(3) f1 by (simp_all add: st1_def)
  then obtain cls h where C: "new_obj M (c nm) (st1\<lparr>st_num_classes := v\<rparr>) =
        Inr (cls, st1\<lparr>st_num_classes := v, st_heap := h, st_objs := (st_objs st1)(cls \<mapsto> c nm)\<rparr>)"
      "store_ok (st1\<lparr>st_num_classes := v, st_heap := h, st_objs := (st_objs st1)(cls \<mapsto> c nm)\<rparr>)" "cls \<noteq> 0"
      "st_objs st1 cls = None" "store_free st1 \<le> store_free (st1\<lparr>st_heap := h\<rparr>) + max_cost"
    using new_obj_step [OF _ assms(2) k, of "st1\<lparr>st_num_classes := v\<rparr>" nm] by (auto simp: store_free_def)
  define m where "m = (st_objs st)(nm \<mapsto> OString name, cls \<mapsto> c nm)"
  have ne: "cls \<noteq> nm" using C(4) by (auto simp: st1_def)
  have "Class_New M cid p nm (st1\<lparr>st_num_classes := v\<rparr>) = Inr (cls,
      st\<lparr>st_heap := h, st_objs := m, st_classes := st_classes st @ [cls], st_num_classes := v\<rparr>)"
    using C(1,3) N(3) by (simp add: Class_New_def op_simps m_def st1_def c_def)
  moreover have "store_ok (st\<lparr>st_heap := h, st_objs := m\<rparr>)"
    using C(2) by (simp add: store_ok_def st1_def m_def class_named_def)
  moreover have "st_objs st \<subseteq>\<^sub>m m" using N(4) C(4) ne by (auto simp: map_le_def m_def st1_def split: if_splits)
  moreover have "row_in m cls p cid name" using ne N(3) C(3) by (simp add: row_in_def m_def c_def)
  moreover have "st_objs st cls = None" using C(4) ne by (simp add: st1_def)
  moreover have "store_free st \<le> store_free (st\<lparr>st_heap := h\<rparr>) + 2 * max_cost"
    using N(5) C(5) f1 by (simp add: store_free_def st1_def)
  ultimately show ?thesis
    using N(1,3) by (intro exI [of _ nm] exI [of _ st1] exI [of _ cls] exI [of _ h] exI [of _ m])
      (simp add: String_New_def st1_def)
qed

lemma booted_add:
  assumes "booted ks st" "k \<notin> set ks" "k \<noteq> KObject \<longrightarrow> parent_kind k \<in> set ks"
    and "store_ok (st\<lparr>st_heap := h, st_objs := m\<rparr>)" "st_objs st \<subseteq>\<^sub>m m"
    and "row_in m cls (parent_address st k) (given_id (ks @ [k]) k) (kind_name k)"
    and "v = of_nat (numbered (ks @ [k]))"
  shows "booted (ks @ [k]) (st\<lparr>st_heap := h, st_objs := m, st_classes := st_classes st @ [cls],
     st_num_classes := v, st_class := (st_class st)(k := cls)\<rparr>)" (is "booted _ ?s")
proof -
  have cls: "cls \<noteq> 0" using assms(6) by (simp add: row_in_def)
  have old: "class_row ?s (ks @ [k]) j" if j: "j \<in> set ks" for j
  proof -
    have "j \<noteq> k" and pj: "j \<noteq> KObject \<longrightarrow> parent_kind j \<noteq> k"
      using j assms(1,2) by (auto simp: booted_def)
    then have "parent_address ?s j = parent_address st j" by (simp add: parent_address_def)
    moreover have "class_row st ks j" using j assms(1) by (simp add: booted_def)
    ultimately show ?thesis
      using row_in_mono assms(5) \<open>j \<noteq> k\<close> given_id_old [OF j] by (simp add: class_row_def)
  qed
  have "k \<noteq> KObject \<longrightarrow> parent_kind k \<noteq> k" by (cases k) (simp_all add: parent_kind_def)
  then have "parent_address ?s k = parent_address st k" by (simp add: parent_address_def)
  then have new: "class_row ?s (ks @ [k]) k" using assms(6) by (simp add: class_row_def)
  have "class_named (st\<lparr>st_heap := h, st_objs := m\<rparr>) cls (kind_name k)"
    by (rule row_in_named) (use assms(6) in simp)
  then have "store_ok (st\<lparr>st_heap := h, st_objs := m\<rparr>\<lparr>st_class := (st_class st)(k := cls)\<rparr>)"
    using store_ok_class [OF assms(4)] by simp
  then have "store_ok ?s" by (simp add: store_ok_def class_named_def)
  moreover have "\<forall>j. st_class ?s j \<noteq> 0 \<longleftrightarrow> j \<in> set (ks @ [k])"
    using assms(1) cls by (auto simp: booted_def)
  moreover have "st_classes ?s = map (st_class ?s) (ks @ [k])"
    using assms(1,2) by (auto simp: booted_def)
  moreover have "distinct (ks @ [k])" using assms(1,2) by (simp add: booted_def)
  moreover have "j \<noteq> KObject \<longrightarrow> parent_kind j \<in> set (ks @ [k])" if "j \<in> set (ks @ [k])" for j
    using that assms(1,3) by (auto simp: booted_def)
  ultimately show ?thesis using old new assms(7) unfolding booted_def by auto
qed

text \<open>Giving a class a field changes nothing else.\<close>

lemma store_ok_put_class:
  assumes "store_ok st" "st_objs st a = Some (OClass c)"
  shows "store_ok (put_obj a (OClass (c\<lparr>cl_fields := fs\<rparr>)) st)"
proof -
  define st' where "st' = put_obj a (OClass (c\<lparr>cl_fields := fs\<rparr>)) st"
  have f: "st_heap st' = st_heap st" "st_class st' = st_class st" "st_empty_pair st' = st_empty_pair st"
      "dom (st_objs st') = dom (st_objs st)"
    using assms(2) by (auto simp: st'_def put_obj_def)
  have nm: "class_named st' b n" if cn: "class_named st b n" for b n
  proof -
    obtain d where d: "b \<noteq> 0" "st_objs st b = Some (OClass d)" "cl_name d \<noteq> 0"
        "st_objs st (cl_name d) = Some (OString n)"
      using cn by (auto simp: class_named_def)
    then have "cl_name d \<noteq> a" using assms(2) by auto
    then have "st_objs st' (cl_name d) = Some (OString n)" using d(4) by (simp add: st'_def put_obj_def)
    moreover have "st_objs st' b = Some (OClass (if b = a then c\<lparr>cl_fields := fs\<rparr> else d))"
      using d(2) by (simp add: st'_def put_obj_def)
    moreover have "cl_name (if b = a then c\<lparr>cl_fields := fs\<rparr> else d) = cl_name d"
      using d(2) assms(2) by auto
    ultimately show ?thesis using d(1,3) unfolding class_named_def by metis
  qed
  have e: "st_objs st' (st_empty_pair st) = Some (OPair 0 0)" if "st_empty_pair st \<noteq> 0"
    using that assms by (auto simp: store_ok_def st'_def put_obj_def)
  have "store_ok st'"
    using assms(1) nm e unfolding store_ok_def f by blast
  then show ?thesis by (simp add: st'_def)
qed

lemma AddField_step:
  assumes "store_ok st" "sane_machine M" "row_in (st_objs st) cls p cid n" "2 * max_cost < store_free st" "name \<noteq> []"
  shows "\<exists>f h m. AddField M cls name st = Inr (f, st\<lparr>st_heap := h, st_objs := m\<rparr>) \<and>
    store_ok (st\<lparr>st_heap := h, st_objs := m\<rparr>) \<and> row_in m cls p cid n \<and>
    (\<forall>a. st_objs st a \<noteq> None \<longrightarrow> a \<noteq> cls \<longrightarrow> m a = st_objs st a) \<and>
    store_free st \<le> store_free (st\<lparr>st_heap := h\<rparr>) + 2 * max_cost"
proof -
  define fd where "fd nm = OField \<lparr>fd_owner = cls, fd_name = nm, fd_value = FOffset 0\<rparr>" for nm
  have k: "kind_of (fd nm) \<noteq> KModule" for nm by (simp add: fd_def kind_of_def)
  obtain c where c: "st_objs st cls = Some (OClass c)" "cl_id c = cid" "cl_parent c = p" "cl_name c \<noteq> 0"
      "st_objs st (cl_name c) = Some (OString n)" "cls \<noteq> 0"
    using assms(3) by (auto simp: row_in_def)
  have "max_cost < store_free st" using assms(4) by linarith
  then obtain nm h1 where N: "new_obj M (OString name) st =
        Inr (nm, st\<lparr>st_heap := h1, st_objs := (st_objs st)(nm \<mapsto> OString name)\<rparr>)"
      "store_ok (st\<lparr>st_heap := h1, st_objs := (st_objs st)(nm \<mapsto> OString name)\<rparr>)" "nm \<noteq> 0"
      "st_objs st nm = None" "store_free st \<le> store_free (st\<lparr>st_heap := h1\<rparr>) + max_cost"
    using new_obj_step [OF assms(1,2), of "OString name"] by auto
  define st1 where "st1 = st\<lparr>st_heap := h1, st_objs := (st_objs st)(nm \<mapsto> OString name)\<rparr>"
  have f1: "store_free st1 = store_free (st\<lparr>st_heap := h1\<rparr>)" by (simp add: st1_def)
  have "store_ok st1" "max_cost < store_free st1" using N(2,5) assms(4) f1 by (simp_all add: st1_def)
  then obtain f h2 where F: "new_obj M (fd nm) st1 =
        Inr (f, st1\<lparr>st_heap := h2, st_objs := (st_objs st1)(f \<mapsto> fd nm)\<rparr>)"
      "store_ok (st1\<lparr>st_heap := h2, st_objs := (st_objs st1)(f \<mapsto> fd nm)\<rparr>)" "f \<noteq> 0"
      "st_objs st1 f = None" "store_free st1 \<le> store_free (st1\<lparr>st_heap := h2\<rparr>) + max_cost"
    using new_obj_step [OF _ assms(2) k, of st1 nm] by auto
  define st2 where "st2 = st1\<lparr>st_heap := h2, st_objs := (st_objs st1)(f \<mapsto> fd nm)\<rparr>"
  have ne: "nm \<noteq> cls" "f \<noteq> cls" "nm \<noteq> cl_name c" "f \<noteq> cl_name c"
    using N(4) F(4) c by (auto simp: st1_def split: if_splits)
  have at2: "st_objs st2 cls = Some (OClass c)" using ne c(1) by (simp add: st2_def st1_def)
  define m where "m = (st_objs st2)(cls \<mapsto> OClass (c\<lparr>cl_fields := cl_fields c @ [f]\<rparr>))"
  have "AddField M cls name st = Inr (f, st\<lparr>st_heap := h2, st_objs := m\<rparr>)"
    using N(1,3) F(1,3) at2 c(6) assms(5)
    by (simp add: AddField_def op_simps String_New_def Field_New_def Class_Add_def class_at_def obj_at_def
        fd_def put_obj_def st1_def st2_def m_def)
  moreover have "st\<lparr>st_heap := h2, st_objs := m\<rparr> = put_obj cls (OClass (c\<lparr>cl_fields := cl_fields c @ [f]\<rparr>)) st2"
    by (simp add: put_obj_def m_def st2_def st1_def)
  moreover have "store_ok st2" using F(2) by (simp add: st2_def)
  moreover have "row_in m cls p cid n"
    using ne c by (auto simp: row_in_def m_def st2_def st1_def)
  moreover have "\<forall>a. st_objs st a \<noteq> None \<longrightarrow> a \<noteq> cls \<longrightarrow> m a = st_objs st a"
    using N(4) F(4) by (auto simp: m_def st2_def st1_def)
  moreover have "store_free st \<le> store_free (st\<lparr>st_heap := h2\<rparr>) + 2 * max_cost"
    using N(5) F(5) f1 by (simp add: store_free_def st1_def)
  ultimately show ?thesis
    using store_ok_put_class [OF _ at2, of "cl_fields c @ [f]"]
    by (intro exI [of _ f] exI [of _ h2] exI [of _ m]) simp
qed

definition extends_store :: "store \<Rightarrow> store \<Rightarrow> bool" where
  "extends_store st st' \<longleftrightarrow> st_objs st \<subseteq>\<^sub>m st_objs st' \<and> st_true st' = st_true st \<and> st_false st' = st_false st"

lemma extends_store_refl: "extends_store st st"
  by (simp add: extends_store_def)

lemma extends_store_trans: "extends_store a b \<Longrightarrow> extends_store b c \<Longrightarrow> extends_store a c"
  by (auto simp: extends_store_def intro: map_le_trans)

lemma extends_store_at: "extends_store st st' \<Longrightarrow> st_objs st a = Some x \<Longrightarrow> st_objs st' a = Some x"
  by (auto simp: extends_store_def map_le_def dom_def)

lemma InitClass_step:
  assumes "booted ks st" "sane_machine M" "k \<notin> set ks" "if k = KObject then True else parent_kind k \<in> set ks"
    and "4 * max_cost < store_free st"
  shows "\<exists>st'. InitClass M k st = Inr ((), st') \<and> booted (ks @ [k]) st' \<and> extends_store st st' \<and>
    store_free st \<le> store_free st' + 4 * max_cost"
proof -
  have ok: "store_ok st" and none: "st_class st k = 0" and num: "st_num_classes st = of_nat (numbered ks)"
    using assms(1,3) by (auto simp: booted_def)
  have p: "k \<noteq> KObject \<Longrightarrow> st_class st (parent_kind k) \<noteq> 0" using assms(1,4) by (auto simp: booted_def)
  define v where "v = (of_nat (numbered (ks @ [k])) :: uword)"
  have v: "v = (if explicit_id k then st_num_classes st else st_num_classes st + 1)"
    using num by (simp add: v_def numbered_def)
  have id: "given_id (ks @ [k]) k = (if explicit_id k then ClassIds k else v)"
    using given_id_new [OF assms(3)] v num by simp
  have room: "2 * max_cost < store_free st" using assms(5) by linarith
  obtain nm st1 cls h m where C: "String_New M (kind_name k) st = Inr (nm, st1)" "nm \<noteq> 0"
      "st_num_classes st1 = st_num_classes st"
      "Class_New M (given_id (ks @ [k]) k) (parent_address st k) nm (st1\<lparr>st_num_classes := v\<rparr>) = Inr (cls,
        st\<lparr>st_heap := h, st_objs := m, st_classes := st_classes st @ [cls], st_num_classes := v\<rparr>)"
      "store_ok (st\<lparr>st_heap := h, st_objs := m\<rparr>)" "st_objs st \<subseteq>\<^sub>m m"
      "row_in m cls (parent_address st k) (given_id (ks @ [k]) k) (kind_name k)"
      "st_objs st cls = None" "store_free st \<le> store_free (st\<lparr>st_heap := h\<rparr>) + 2 * max_cost"
    using make_class [OF ok assms(2) room, of "kind_name k" "given_id (ks @ [k]) k" "parent_address st k" v] by blast
  let ?s = "st\<lparr>st_heap := h, st_objs := m, st_classes := st_classes st @ [cls], st_num_classes := v\<rparr>"
  have st1: "st1\<lparr>st_num_classes := st_num_classes st\<rparr> = st1" by (simp flip: C(3))
  have name: "kind_name k \<noteq> []" by (cases k) (simp_all add: kind_name_def)
  have cls: "cls \<noteq> 0" using C(7) by (simp add: row_in_def)
  have kobj: "\<not> explicit_id KObject" by (simp add: explicit_id_def)
  have kmod: "\<not> explicit_id KModule" by (simp add: explicit_id_def)
  show ?thesis
  proof (cases "k = KModule")
    case False
    have "CreateClass M k st = Inr (cls, ?s)"
      using C(1,2,4) st1 name False p id v C(3) kobj
      by (cases "k = KObject"; cases "explicit_id k")
        (simp_all add: CreateClass_def op_simps Class_New_root_text_def Class_New_root_def next_class_id_def
          GetClass_def Class_New_id_text_def Class_New_parent_text_def Class_New_parent_def parent_address_def)
    then have run: "InitClass M k st = Inr ((), ?s\<lparr>st_class := (st_class st)(k := cls)\<rparr>)"
      using none cls by (simp add: InitClass_def op_simps)
    have "booted (ks @ [k]) (?s\<lparr>st_class := (st_class st)(k := cls)\<rparr>)"
      using booted_add [OF assms(1,3) _ C(5,6,7) v_def] assms(4) by (simp split: if_splits)
    then show ?thesis using run C(6,9)
      by (intro exI conjI) (assumption, assumption, simp_all add: extends_store_def)
  next
    case True
    have ok2: "store_ok ?s" using C(5) by (simp add: store_ok_def class_named_def)
    have room2: "2 * max_cost < store_free ?s" using C(9) assms(5) by simp
    obtain f h3 m3 where F: "AddField M cls ''initialized'' ?s = Inr (f, ?s\<lparr>st_heap := h3, st_objs := m3\<rparr>)"
        "store_ok (?s\<lparr>st_heap := h3, st_objs := m3\<rparr>)"
        "row_in m3 cls (parent_address st k) (given_id (ks @ [k]) k) (kind_name k)"
        "\<forall>a. st_objs ?s a \<noteq> None \<longrightarrow> a \<noteq> cls \<longrightarrow> m3 a = st_objs ?s a"
        "store_free ?s \<le> store_free (?s\<lparr>st_heap := h3\<rparr>) + 2 * max_cost"
      using AddField_step [OF ok2 assms(2) _ room2, of cls "parent_address st k" "given_id (ks @ [k]) k" "kind_name k"
          "''initialized''"] C(7) by auto
    have "CreateClass M k st = Inr (cls, ?s\<lparr>st_heap := h3, st_objs := m3\<rparr>)"
      using C(1,2,4) name True p id v C(3) kmod F(1)
      by (simp add: CreateClass_def op_simps GetClass_def Class_New_parent_text_def Class_New_parent_def
          parent_address_def next_class_id_def)
    then have run: "InitClass M k st =
        Inr ((), ?s\<lparr>st_heap := h3, st_objs := m3, st_class := (st_class st)(k := cls)\<rparr>)"
      using none cls by (simp add: InitClass_def op_simps)
    have mono: "st_objs st \<subseteq>\<^sub>m m3"
      using C(6,8) F(4) unfolding map_le_def dom_def by (auto; metis option.distinct(1))
    have "store_ok (st\<lparr>st_heap := h3, st_objs := m3\<rparr>)"
      using F(2) by (simp add: store_ok_def class_named_def)
    with mono have "booted (ks @ [k]) (st\<lparr>st_heap := h3, st_objs := m3, st_classes := st_classes st @ [cls],
        st_num_classes := v, st_class := (st_class st)(k := cls)\<rparr>)"
      using booted_add [OF assms(1,3) _ _ _ F(3) v_def, of h3] assms(4) by (simp split: if_splits)
    moreover have "store_free st \<le> store_free (st\<lparr>st_heap := h3\<rparr>) + 4 * max_cost"
      using C(9) F(5) by (simp add: store_free_def)
    moreover have "?s\<lparr>st_heap := h3, st_objs := m3, st_class := (st_class st)(k := cls)\<rparr> =
        st\<lparr>st_heap := h3, st_objs := m3, st_classes := st_classes st @ [cls],
          st_num_classes := v, st_class := (st_class st)(k := cls)\<rparr>" (is "_ = ?t") by simp
    ultimately show ?thesis using run mono by (intro exI [of _ ?t]) (simp add: store_free_def extends_store_def)
  qed
qed

text \<open>Every class comes after the class it is made under.\<close>

fun parents_before :: "kind list \<Rightarrow> kind list \<Rightarrow> bool" where
  "parents_before ks [] = True"
| "parents_before ks (j # js) \<longleftrightarrow>
    j \<noteq> KBool \<and> (j \<noteq> KObject \<longrightarrow> parent_kind j \<in> set ks) \<and> parents_before (ks @ [j]) js"

lemma InitClasses_step:
  assumes "booted ks st" "sane_machine M" "distinct (ks @ js)" "length js * (4 * max_cost) < store_free st"
    and "parents_before ks js"
  shows "\<exists>st'. InitClasses M js st = Inr ((), st') \<and> booted (ks @ js) st' \<and> extends_store st st' \<and>
    store_free st \<le> store_free st' + length js * (4 * max_cost)"
  using assms(1,3-)
proof (induction js arbitrary: ks st)
  case (Cons k js)
  have h: "k \<noteq> KBool" "if k = KObject then True else parent_kind k \<in> set ks"
    using Cons.prems(4) by auto
  have "k \<notin> set ks" "4 * max_cost < store_free st" using Cons.prems(2,3) by auto
  then obtain st1 where S: "InitClass M k st = Inr ((), st1)" "booted (ks @ [k]) st1" "extends_store st st1"
      "store_free st \<le> store_free st1 + 4 * max_cost"
    using InitClass_step [OF Cons.prems(1) assms(2) _ h(2)] by blast
  have "parents_before (ks @ [k]) js" using Cons.prems(4) by simp
  moreover have "length js * (4 * max_cost) < store_free st1" using Cons.prems(3) S(4) by simp
  ultimately obtain st2 where "InitClasses M js st1 = Inr ((), st2)" "booted (ks @ k # js) st2" "extends_store st1 st2"
      "store_free st1 \<le> store_free st2 + length js * (4 * max_cost)"
    using Cons.IH [OF S(2)] Cons.prems(2) by auto
  then show ?case using S h(1) extends_store_trans [OF S(3)] by (intro exI [of _ st2]) (simp add: op_simps)
qed (simp add: op_simps extends_store_refl)

lemma booted_grow:
  assumes "booted ks st" "st_objs st \<subseteq>\<^sub>m m" "store_ok (st\<lparr>st_heap := h, st_objs := m\<rparr>)"
  shows "booted ks (st\<lparr>st_heap := h, st_objs := m, st_true := t, st_false := f\<rparr>)"
proof -
  have "class_row (st\<lparr>st_heap := h, st_objs := m, st_true := t, st_false := f\<rparr>) ks k" if "class_row st ks k" for k
    using that row_in_mono [OF _ assms(2)] by (cases "k = KObject") (simp_all add: class_row_def parent_address_def)
  then show ?thesis using assms(1,3) by (auto simp: booted_def)
qed

lemma booted_empty_pair:
  "booted ks st \<Longrightarrow> st_objs st e = Some (OPair 0 0) \<Longrightarrow> booted ks (st\<lparr>st_empty_pair := e\<rparr>)"
  unfolding booted_def store_ok_def class_row_def parent_address_def class_named_def string_at_def obj_at_def
  by (cases "e = 0") auto

lemma booted_new:
  assumes "booted ks st" "sane_machine M" "kind_of x \<noteq> KModule" "max_cost < store_free st"
  shows "\<exists>a st'. new_obj M x st = Inr (a, st') \<and> booted ks st' \<and> a \<noteq> 0 \<and> st_objs st a = None \<and>
    st_objs st' = (st_objs st)(a \<mapsto> x) \<and> st_empty_pair st' = st_empty_pair st \<and>
    store_free st \<le> store_free st' + max_cost"
proof -
  obtain a h where A: "new_obj M x st = Inr (a, st\<lparr>st_heap := h, st_objs := (st_objs st)(a \<mapsto> x)\<rparr>)"
      "store_ok (st\<lparr>st_heap := h, st_objs := (st_objs st)(a \<mapsto> x)\<rparr>)" "a \<noteq> 0" "st_objs st a = None"
      "store_free st \<le> store_free (st\<lparr>st_heap := h\<rparr>) + max_cost"
    using new_obj_step [OF _ assms(2-4)] assms(1) by (auto simp: booted_def)
  have "st_objs st \<subseteq>\<^sub>m (st_objs st)(a \<mapsto> x)" using A(4) by (auto simp: map_le_def)
  then have "booted ks (st\<lparr>st_heap := h, st_objs := (st_objs st)(a \<mapsto> x)\<rparr>)"
    using booted_grow [OF assms(1) _ A(2), where t = "st_true st" and f = "st_false st"] by simp
  then show ?thesis using A by (simp add: store_free_def)
qed

lemma Bool_Init_step:
  assumes "booted ks st" "sane_machine M" "KBool \<notin> set ks" "KObject \<in> set ks" "6 * max_cost < store_free st"
  shows "\<exists>st'. Bool_Init M st = Inr ((), st') \<and> booted (ks @ [KBool]) st' \<and>
    st_objs st' (st_true st') = Some (OBool True) \<and> st_objs st' (st_false st') = Some (OBool False) \<and>
    st_true st' \<noteq> 0 \<and> st_false st' \<noteq> 0 \<and> store_free st \<le> store_free st' + 6 * max_cost"
proof -
  have p: "if KBool = KObject then True else parent_kind KBool \<in> set ks" and r: "4 * max_cost < store_free st"
    using assms(4,5) by (simp_all add: parent_kind_def)
  obtain s1 where S: "InitClass M KBool st = Inr ((), s1)" "booted (ks @ [KBool]) s1"
      "store_free st \<le> store_free s1 + 4 * max_cost"
    using InitClass_step [OF assms(1-3) p r] by blast
  have ok1: "store_ok s1" and r1: "max_cost < store_free s1" using S assms(5) by (simp_all add: booted_def)
  obtain t h2 where T: "new_obj M (OBool True) s1 =
        Inr (t, s1\<lparr>st_heap := h2, st_objs := (st_objs s1)(t \<mapsto> OBool True)\<rparr>)"
      "store_ok (s1\<lparr>st_heap := h2, st_objs := (st_objs s1)(t \<mapsto> OBool True)\<rparr>)" "t \<noteq> 0"
      "st_objs s1 t = None" "store_free s1 \<le> store_free (s1\<lparr>st_heap := h2\<rparr>) + max_cost"
    using new_obj_step [OF ok1 assms(2) _ r1, of "OBool True"] by (auto simp: kind_of_def)
  define s2 where "s2 = s1\<lparr>st_heap := h2, st_objs := (st_objs s1)(t \<mapsto> OBool True), st_true := t\<rparr>"
  have ok2: "store_ok s2" using T(2) by (simp add: s2_def)
  have f2: "store_free s2 = store_free (s1\<lparr>st_heap := h2\<rparr>)" by (simp add: s2_def)
  have r2: "max_cost < store_free s2" using T(5) S(3) assms(5) f2 by linarith
  obtain f h3 where F: "new_obj M (OBool False) s2 =
        Inr (f, s2\<lparr>st_heap := h3, st_objs := (st_objs s2)(f \<mapsto> OBool False)\<rparr>)"
      "store_ok (s2\<lparr>st_heap := h3, st_objs := (st_objs s2)(f \<mapsto> OBool False)\<rparr>)" "f \<noteq> 0"
      "st_objs s2 f = None" "store_free s2 \<le> store_free (s2\<lparr>st_heap := h3\<rparr>) + max_cost"
    using new_obj_step [OF ok2 assms(2) _ r2, of "OBool False"] by (auto simp: kind_of_def)
  define m where "m = (st_objs s1)(t \<mapsto> OBool True, f \<mapsto> OBool False)"
  let ?s = "s1\<lparr>st_heap := h3, st_objs := m, st_true := t, st_false := f\<rparr>"
  have "t \<noteq> f" using F(4) by (auto simp: s2_def)
  have "st_objs s1 \<subseteq>\<^sub>m m" using T(4) F(4) by (auto simp: map_le_def m_def s2_def split: if_splits)
  moreover have "store_ok (s1\<lparr>st_heap := h3, st_objs := m\<rparr>)"
    using F(2) by (simp add: s2_def m_def store_ok_def class_named_def)
  ultimately have "booted (ks @ [KBool]) ?s" by (rule booted_grow [OF S(2)])
  moreover have "Bool_Init M st = Inr ((), ?s)"
    using S(1) T(1) F(1) by (simp add: Bool_Init_def op_simps s2_def m_def)
  moreover have "store_free st \<le> store_free ?s + 6 * max_cost"
    using S(3) T(5) F(5) f2 by (simp add: s2_def store_free_def)
  ultimately show ?thesis using T(3) F(3) \<open>t \<noteq> f\<close> by (intro exI [of _ ?s]) (simp add: m_def)
qed

lemma InitClasses_append:
  "InitClasses M (ks @ js) = sthen (InitClasses M ks) (InitClasses M js)"
  by (induction ks) (auto simp: fun_eq_iff op_simps rbind_assoc split_def)

definition before_Bool :: "kind list" where
  "before_Bool = takeWhile (\<lambda>k. k \<noteq> KBool) init_order"

definition after_Bool :: "kind list" where
  "after_Bool = tl (dropWhile (\<lambda>k. k \<noteq> KBool) init_order)"

lemma init_order_split:
  "init_order = before_Bool @ KBool # after_Bool" "length before_Bool = 18" "length after_Bool = 12"
  "distinct (before_Bool @ KBool # after_Bool)" "KObject \<in> set before_Bool"
  by (simp_all add: before_Bool_def after_Bool_def init_order_def)

lemma init_order_parents:
  "parents_before [] before_Bool" "parents_before (before_Bool @ [KBool]) after_Bool"
  by (simp_all add: before_Bool_def after_Bool_def init_order_def parent_kind_def)

lemma booted_initial:
  "good_heap h \<Longrightarrow> booted [] (initial_store h)"
  by (simp add: booted_def store_ok_def numbered_def) (simp add: initial_store_def)

definition boot_room :: nat where
  "boot_room = 126 * max_cost"

lemma Object_Init_boots:
  assumes "good_heap h" "sane_machine M" "boot_room < heap_limit h - heap_cursor h"
  shows "\<exists>st. Object_Init M (initial_store h) = Inr ((), st) \<and> booted init_order st \<and>
    st_objs st (st_true st) = Some (OBool True) \<and> st_objs st (st_false st) = Some (OBool False) \<and>
    st_true st \<noteq> 0 \<and> st_false st \<noteq> 0 \<and> store_free (initial_store h) \<le> store_free st + boot_room"
proof -
  let ?z = "initial_store h"
  have z: "booted [] ?z" "boot_room < store_free ?z"
    using booted_initial [OF assms(1)] assms(3) by (simp_all add: store_free_def)
  have d1: "distinct ([] @ before_Bool)" and nb: "KBool \<notin> set before_Bool"
    using init_order_split(4) by auto
  have r0: "length before_Bool * (4 * max_cost) < store_free ?z"
    using z(2) by (simp add: init_order_split boot_room_def)
  obtain s1 where A: "InitClasses M before_Bool ?z = Inr ((), s1)" "booted before_Bool s1"
      "store_free ?z \<le> store_free s1 + 18 * (4 * max_cost)"
    using InitClasses_step [OF z(1) assms(2) d1 r0 init_order_parents(1)] by (auto simp: init_order_split(2))
  have r1: "6 * max_cost < store_free s1" using A(3) z(2) by (simp add: boot_room_def)
  obtain s2 where B: "Bool_Init M s1 = Inr ((), s2)" "booted (before_Bool @ [KBool]) s2"
      "st_objs s2 (st_true s2) = Some (OBool True)" "st_objs s2 (st_false s2) = Some (OBool False)"
      "st_true s2 \<noteq> 0" "st_false s2 \<noteq> 0" "store_free s1 \<le> store_free s2 + 6 * max_cost"
    using Bool_Init_step [OF A(2) assms(2) nb init_order_split(5) r1] by blast
  have d2: "distinct ((before_Bool @ [KBool]) @ after_Bool)" using init_order_split(4) by simp
  have r2: "length after_Bool * (4 * max_cost) < store_free s2"
    using A(3) B(7) z(2) by (simp add: init_order_split(3) boot_room_def)
  obtain s3 where C: "InitClasses M after_Bool s2 = Inr ((), s3)"
      "booted ((before_Bool @ [KBool]) @ after_Bool) s3" "extends_store s2 s3"
      "store_free s2 \<le> store_free s3 + 12 * (4 * max_cost)"
    using InitClasses_step [OF B(2) assms(2) d2 r2 init_order_parents(2)] by (auto simp: init_order_split(3))
  have "store_free ?z \<le> store_free s3 + boot_room"
    using A(3) B(7) C(4) by (simp add: boot_room_def)
  have "Object_Init M ?z = Inr ((), s3)"
    using A(1) B(1) C(1) by (simp add: Object_Init_def init_order_split(1) InitClasses_append op_simps)
  moreover have "booted init_order s3" using C(2) by (simp add: init_order_split(1))
  moreover have "st_true s3 = st_true s2" "st_false s3 = st_false s2" using C(3) by (simp_all add: extends_store_def)
  ultimately show ?thesis using B extends_store_at [OF C(3)] \<open>store_free ?z \<le> store_free s3 + boot_room\<close>
    by (intro exI [of _ s3]) simp
qed

lemma booted_row:
  assumes "booted init_order st"
  obtains c where "st_objs st (st_class st k) = Some (OClass c)" "st_class st k \<noteq> 0"
    "cl_id c = given_id init_order k" "cl_parent c = parent_address st k"
    "class_named st (st_class st k) (kind_name k)"
proof -
  have "k \<in> set init_order" by (cases k) (simp_all add: init_order_def)
  then have "class_row st init_order k" using assms by (simp add: booted_def)
  then show thesis using that row_in_named unfolding class_row_def row_in_def by blast
qed

text \<open>C16. On a heap with room, \<open>Object::Init\<close> succeeds from the zeroed globals: it registers one
  class per type, each under its declared name and parent, and makes the shared \<open>#t\<close> and \<open>#f\<close>.
  The numbers are those of the order of initialisation and not those of \<open>Class::ClassIds\<close>, but for
  the three classes made with their own: so \<open>Number\<close> and \<open>Bool\<close> share the number 15, \<open>Array\<close> has
  the number of \<open>Long\<close> and \<open>Macro\<close> that of \<open>Double\<close>.\<close>

theorem Object_Init_classes:
  assumes "good_heap h" "sane_machine M" "boot_room < heap_limit h - heap_cursor h"
  shows "\<exists>st. Object_Init M (initial_store h) = Inr ((), st) \<and>
    st_classes st = map (st_class st) init_order \<and> distinct init_order \<and>
    (\<forall>k. \<exists>c. st_objs st (st_class st k) = Some (OClass c) \<and> cl_id c = given_id init_order k \<and>
       cl_parent c = (if k = KObject then 0 else st_class st (parent_kind k)) \<and>
       string_at (cl_name c) st = Inr (kind_name k)) \<and>
    given_id init_order KNumber = 15 \<and> given_id init_order KBool = 15 \<and>
    given_id init_order KArray = given_id init_order KLong \<and>
    given_id init_order KMacro = given_id init_order KDouble \<and>
    Bool_Box b st = Inr (if b then st_true st else st_false st, st) \<and>
    obj_at (if b then st_true st else st_false st) st = Inr (OBool b)"
proof -
  obtain st where S: "Object_Init M (initial_store h) = Inr ((), st)" "booted init_order st"
      "st_objs st (st_true st) = Some (OBool True)" "st_objs st (st_false st) = Some (OBool False)"
      "st_true st \<noteq> 0" "st_false st \<noteq> 0"
    using Object_Init_boots [OF assms] by blast
  have row: "\<exists>c. st_objs st (st_class st k) = Some (OClass c) \<and> cl_id c = given_id init_order k \<and>
      cl_parent c = parent_address st k \<and> string_at (cl_name c) st = Inr (kind_name k)" for k
    by (rule booted_row [OF S(2), of k]) (auto simp: class_named_def string_at_def obj_at_def)
  have ids: "given_id init_order KNumber = 15" "given_id init_order KBool = 15"
      "given_id init_order KArray = given_id init_order KLong"
      "given_id init_order KMacro = given_id init_order KDouble"
    by (simp_all add: given_id_def init_order_def explicit_id_def ClassIds_def numbered_def)
  have "Bool_Box b st = Inr (if b then st_true st else st_false st, st)"
    using S(5,6) by (simp add: Bool_Box_def Bool_True_def Bool_False_def op_simps)
  moreover have "obj_at (if b then st_true st else st_false st) st = Inr (OBool b)"
    using S(3-6) by (simp add: obj_at_def)
  moreover have "st_classes st = map (st_class st) init_order" "distinct init_order"
    using S(2) by (simp_all add: booted_def)
  ultimately show ?thesis
    using S(1) row ids unfolding parent_address_def by blast
qed

definition large_heap :: heap where
  "large_heap = (case new_Heap 65536 2097152 4194304 1048576 of Inr h \<Rightarrow> h | Inl _ \<Rightarrow> undefined)"

lemma large_heap_facts:
  "good_heap large_heap" "boot_room < heap_limit large_heap - heap_cursor large_heap"
  and large_heap_room: "boot_room + 6 * max_cost < heap_limit large_heap - heap_cursor large_heap"
proof -
  have "new_Heap 65536 2097152 4194304 1048576 = Inr large_heap"
    by (simp add: large_heap_def new_Heap_def new_NewZone_def CalcSemispaceSize_def IsPow2_def
        new_OldZone_def new_FreeList_def new_FreePointer_def)
  note L = new_Heap_layout [OF this]
  show "good_heap large_heap" "boot_room < heap_limit large_heap - heap_cursor large_heap"
    "boot_room + 6 * max_cost < heap_limit large_heap - heap_cursor large_heap"
    using L by (simp_all add: boot_room_def max_cost_def)
qed

theorem Object_Init_classes_witness:
  "\<exists>st. Object_Init example_machine (initial_store large_heap) = Inr ((), st) \<and>
    st_classes st = map (st_class st) init_order"
  using Object_Init_classes [OF large_heap_facts(1) example_machine_sane large_heap_facts(2)] by blast

section \<open>The instance test\<close>

text \<open>The classes above a class of the runtime.\<close>

definition ancestors :: "kind \<Rightarrow> kind list" where
  "ancestors k =
    (if k = KObject then [k]
     else if parent_kind k = KObject then [k, KObject]
     else [k, parent_kind k, KObject])"

lemma parents_of_parents: "k \<noteq> KObject \<Longrightarrow> parent_kind k \<noteq> KObject \<Longrightarrow> parent_kind (parent_kind k) = KObject"
  by (cases k) (simp_all add: parent_kind_def)

lemma booted_equals:
  "booted init_order st \<Longrightarrow>
    Class_Equals (st_class st k) (st_class st j) st = Inr (kind_name k = kind_name j)"
proof -
  assume b: "booted init_order st"
  have n: "class_named st (st_class st i) (kind_name i)" for i by (rule booted_row [OF b])
  then have "st_class st j \<noteq> 0" by (simp add: class_named_def)
  then show ?thesis using Class_Equals_named [OF n, of "st_class st j" "kind_name j"] n by simp
qed

lemma instance_of_ancestors:
  assumes "booted init_order st"
  shows "IsInstanceOf (st_class st k) (st_class st j) st =
      Inr (kind_name j \<in> kind_name ` set (ancestors k)) \<and>
    IsInstanceOf (st_class st k) (st_class st KExpression) st = Inr True"
proof -
  have "length (st_classes st) = 31" using assms by (simp add: booted_def init_order_def)
  then have "length (st_classes st) = Suc (Suc (Suc 28))" by simp
  then obtain n where len: "length (st_classes st) = Suc (Suc (Suc n))" by blast
  have nz: "st_class st i \<noteq> 0" for i by (rule booted_row [OF assms, of i])
  have at: "\<exists>c. class_at (st_class st i) st = Inr c \<and> cl_parent c = parent_address st i" for i
    by (rule booted_row [OF assms, of i]) (simp add: class_at_def obj_at_def)
  have step: "instance_loop (Suc n) (st_class st i) (st_class st j) st =
      (if kind_name i = kind_name j then Inr True
       else if i = KObject then Inr False
       else instance_loop n (st_class st (parent_kind i)) (st_class st j) st)" for n i j
  proof -
    obtain c where "class_at (st_class st i) st = Inr c" "cl_parent c = parent_address st i" using at by blast
    moreover have "instance_loop n 0 (st_class st j) st = Inr False" by (simp add: instance_loop.simps)
    ultimately show ?thesis
      using nz [of i] booted_equals [OF assms, of i j]
      by (simp add: instance_loop.simps [of "Suc n"] parent_address_def)
  qed
  have all: "IsInstanceOf (st_class st k) (st_class st j) st = Inr (kind_name j \<in> kind_name ` set (ancestors k))" for k j
    using nz [of j] parents_of_parents [of k]
    by (cases "k = KObject"; cases "parent_kind k = KObject") (simp_all add: IsInstanceOf_def len step ancestors_def)
  moreover have "kind_name KExpression \<in> kind_name ` set (ancestors k)" for k
    by (simp add: ancestors_def kind_name_def)
  ultimately show ?thesis by simp
qed

text \<open>C40. After initialisation, the class of one type is an instance of another's exactly when a
  class above it has the other's \<^emph>\<open>name\<close>. The class of expressions is registered under the name
  of \<open>Object\<close>, so every class passes as an instance of it.\<close>

theorem IsInstanceOf_ancestors:
  assumes "booted init_order st"
  shows "IsInstanceOf (st_class st k) (st_class st j) st =
      Inr (kind_name j \<in> kind_name ` set (ancestors k)) \<and>
    IsInstanceOf (st_class st k) (st_class st KExpression) st = Inr True"
  by (rule instance_of_ancestors [OF assms])

theorem IsInstanceOf_ancestors_witness:
  "\<exists>st. Object_Init example_machine (initial_store large_heap) = Inr ((), st) \<and>
    IsInstanceOf (st_class st KLong) (st_class st KNumber) st = Inr True \<and>
    IsInstanceOf (st_class st KLong) (st_class st KPair) st = Inr False \<and>
    IsInstanceOf (st_class st KLong) (st_class st KExpression) st = Inr True"
proof -
  obtain st where S: "Object_Init example_machine (initial_store large_heap) = Inr ((), st)" "booted init_order st"
    using Object_Init_boots [OF large_heap_facts(1) example_machine_sane large_heap_facts(2)] by blast
  show ?thesis
    using S(1) IsInstanceOf_ancestors [OF S(2), of KLong KNumber] IsInstanceOf_ancestors [OF S(2), of KLong KPair]
    by (intro exI [of _ st]) (simp add: ancestors_def parent_kind_def kind_name_def)
qed

section \<open>Looking functions up\<close>

lemma any_match_first:
  "0 \<notin> set xs \<Longrightarrow> any_match p xs st = rbind (find_first p xs st) (\<lambda>r. Inr (r \<noteq> 0))"
proof (induction xs)
  case (Cons x xs)
  then show ?case by (cases "p x st") auto
qed simp

text \<open>\<open>HasFunction\<close> answers whether \<open>GetFunction\<close> finds something, failures included, wherever
  the classes up the parents have no null function, which \<open>AddFunction\<close> guarantees.\<close>

theorem HasFunction_GetFunction:
  assumes "\<And>a c. st_objs st a = Some (OClass c) \<Longrightarrow> 0 \<notin> set (cl_funcs c)"
  shows "HasFunction cls sy recursive st = rbind (GetFunction cls sy recursive st) (\<lambda>r. Inr (r \<noteq> 0))"
proof -
  have no: "0 \<notin> set (cl_funcs c)" if "class_at a st = Inr c" for a c
    using that assms [of a c]
    by (auto simp: class_at_def obj_at_def rbind_eq_Inr split: if_splits option.splits obj.splits)
  have "has_loop n p recursive a st =
      rbind (search_parents n (\<lambda>c. find_first p (cl_funcs c)) recursive a st) (\<lambda>r. Inr (r \<noteq> 0))" for n a p
  proof (induction n arbitrary: a)
    case 0
    show ?case
    proof (cases "class_at a st")
      case (Inr c)
      then show ?thesis
        by (cases "find_first p (cl_funcs c) st")
          (auto simp: has_loop.simps [of 0] search_parents.simps [of 0] any_match_first [OF no])
    qed (simp add: has_loop.simps search_parents.simps)
  next
    case (Suc n)
    show ?case
    proof (cases "class_at a st")
      case (Inr c)
      then show ?thesis
        using Suc.IH [of "cl_parent c"]
        by (cases recursive; cases "find_first p (cl_funcs c) st")
          (simp_all add: has_loop.simps [of "Suc n"] search_parents.simps [of "Suc n"] any_match_first [OF no])
    qed (simp add: has_loop.simps search_parents.simps)
  qed
  then show ?thesis by (simp add: HasFunction_def GetFunction_def)
qed

definition example_classes :: store where
  "example_classes = (initial_store large_heap)\<lparr>st_classes := [16, 32], st_objs :=
     [16 \<mapsto> OClass \<lparr>cl_id = 1, cl_parent = 0, cl_name = 48, cl_funcs = [64], cl_fields = []\<rparr>,
      32 \<mapsto> OClass \<lparr>cl_id = 2, cl_parent = 16, cl_name = 48, cl_funcs = [], cl_fields = []\<rparr>,
      48 \<mapsto> OString ''A'',
      64 \<mapsto> ONative \<lparr>nv_symbol = 80, nv_args = [], nv_docs = 0, nv_entry = None\<rparr>,
      80 \<mapsto> OSymbol \<lparr>sym_ns = [], sym_type = [], sym_name = ''f''\<rparr>]\<rparr>"

theorem HasFunction_GetFunction_witness:
  "HasFunction 32 80 True example_classes = Inr True"
proof -
  have "0 \<notin> set (cl_funcs c)" if "st_objs example_classes a = Some (OClass c)" for a c
    using that by (auto simp: example_classes_def split: if_splits)
  moreover have "GetFunction 32 80 True example_classes = Inr 64"
    by (simp add: example_classes_def GetFunction_def search_parents.simps class_at_def obj_at_def
        symbol_matches_def procedure_symbol_def symbol_at_def Symbol_Equals_def)
  ultimately show ?thesis using HasFunction_GetFunction [of example_classes 32 80 True] by simp
qed

end
