(* ===== verification/Runtime.thy ===== *)
theory Runtime
  imports Classes Assembler
begin

text \<open>
  The runtime (\<open>gel/runtime.h\<close>, \<open>gel/runtime.cc\<close>), its stack frames (\<open>gel/stack_frame.h\<close>,
  \<open>gel/stack_frame.cc\<close>), the operation stack of a frame (\<open>gel/operation_stack.h\<close>) and the
  registry of native procedures (\<open>gel/native_procedure.cc\<close>). The interpreter's loop is an
  argument \<open>run\<close> of the calls, since it calls back into them; theory \<open>Interpreter\<close> closes the
  knot.
\<close>

section \<open>The state\<close>

datatype target = TScript uword | TLambda uword | TNative uword

text \<open>The operation stack of a frame is a list, its top first.\<close>

record frame =
  fr_id :: uword
  fr_target :: target
  fr_locals :: nat
  fr_return :: uword
  fr_stack :: "uword list"

record runtime =
  rt_store :: store
  rt_code :: memory
  rt_current :: uword
  rt_init_scope :: nat
  rt_scope :: "nat option"
  rt_frames :: "frame list"
  rt_result :: uword
  rt_natives :: "uword list"
  rt_modules :: "uword list"
  rt_namespaces :: "uword list"
  rt_event_loop :: uword
  rt_output :: string

type_synonym 'a rop = "(runtime, 'a) op_on"

text \<open>What the runtime calls and is not part of it: the bodies of the native procedures, by the
  number of their entry, with the way to call a procedure they are given; the compiler, on a
  lambda and a scope; running the pending events of the event loop; and what theory \<open>Classes\<close>
  leaves to its caller.\<close>

record world =
  w_machine :: machine
  w_printer :: printer
  w_native :: "(uword \<Rightarrow> uword list \<Rightarrow> unit rop) \<Rightarrow> nat \<Rightarrow> uword list \<Rightarrow> bool rop"
  w_compile :: "uword \<Rightarrow> nat \<Rightarrow> bool rop"
  w_events :: "unit rop"
  w_buffer_text :: "uword \<Rightarrow> store \<Rightarrow> string res"
  w_new :: "kind \<Rightarrow> uword list \<Rightarrow> uword sop"

definition on_store :: "'a sop \<Rightarrow> 'a rop" where
  "on_store m = on_part rt_store (\<lambda>st rt. rt\<lparr>rt_store := st\<rparr>) m"

definition on_scopes :: "(scopes \<Rightarrow> ('a \<times> scopes) res) \<Rightarrow> 'a rop" where
  "on_scopes m = on_store (on_part st_scopes (\<lambda>sc st. st\<lparr>st_scopes := sc\<rparr>) m)"

definition stored :: "(store \<Rightarrow> 'a res) \<Rightarrow> 'a rop" where
  "stored f = reads (\<lambda>rt. f (rt_store rt))"

definition scoped :: "(scopes \<Rightarrow> 'a res) \<Rightarrow> 'a rop" where
  "scoped f = stored (\<lambda>st. f (st_scopes st))"

section \<open>The operation stack\<close>

definition GetOperationStack :: "runtime \<Rightarrow> uword list res" where
  "GetOperationStack rt = (case rt_frames rt of [] \<Rightarrow> Inl AssertFailed | f # _ \<Rightarrow> Inr (fr_stack f))"

definition set_stack :: "uword list \<Rightarrow> runtime \<Rightarrow> runtime" where
  "set_stack vs rt =
    (case rt_frames rt of [] \<Rightarrow> rt | f # fs \<Rightarrow> rt\<lparr>rt_frames := f\<lparr>fr_stack := vs\<rparr> # fs\<rparr>)"

definition stack_Push :: "uword \<Rightarrow> unit rop" where
  "stack_Push v =
    sbind (reads GetOperationStack) (\<lambda>vs.
    sthen (sassert (v \<noteq> 0)) (modifies (set_stack (v # vs))))"

definition stack_Pop :: "uword option rop" where
  "stack_Pop =
    sbind (reads GetOperationStack) (\<lambda>vs.
    case vs of
      [] \<Rightarrow> ret None
    | v # vs' \<Rightarrow> sthen (sassert (v \<noteq> 0)) (sthen (modifies (set_stack vs')) (ret (Some v))))"

definition stack_PopOr :: "uword \<Rightarrow> uword rop" where
  "stack_PopOr v =
    sthen (sassert (v \<noteq> 0))
      (sbind stack_Pop (\<lambda>r. ret (case r of Some x \<Rightarrow> x | None \<Rightarrow> v)))"

definition stack_GetTop :: "uword option rop" where
  "stack_GetTop =
    sbind (reads GetOperationStack) (\<lambda>vs. ret (case vs of [] \<Rightarrow> None | v # _ \<Rightarrow> Some v))"

text \<open>\<open>PopN\<close> with \<open>reverse\<close>: as many values as asked, null for the missing ones, the last popped
  first.\<close>

fun pop_loop :: "world \<Rightarrow> nat \<Rightarrow> uword list rop" where
  "pop_loop W 0 = ret []"
| "pop_loop W (Suc n) =
    sbind (on_store (Null (w_machine W))) (\<lambda>z.
    sbind (stack_PopOr z) (\<lambda>v. sbind (pop_loop W n) (\<lambda>vs. ret (v # vs))))"

definition stack_PopN :: "world \<Rightarrow> uword \<Rightarrow> bool \<Rightarrow> uword list rop" where
  "stack_PopN W num reverse =
    sbind (pop_loop W (unat num)) (\<lambda>vs. ret (if reverse then rev vs else vs))"

text \<open>A value that must be there: the assertion on the popped optional.\<close>

definition pop_value :: "uword rop" where
  "pop_value = sbind stack_Pop (\<lambda>r. case r of None \<Rightarrow> fails AssertFailed | Some v \<Rightarrow> ret v)"

text \<open>A value taken out of the popped optional without a look.\<close>

definition pop_deref :: "uword rop" where
  "pop_deref = sbind stack_Pop (\<lambda>r. case r of None \<Rightarrow> fails UndefinedBehaviour | Some v \<Rightarrow> ret v)"

section \<open>Scopes and frames\<close>

definition PushScope :: "nat rop" where
  "PushScope =
    sbind (asks rt_scope) (\<lambda>p.
    sbind (on_scopes (\<lambda>sc. Inr (LocalScope_New p sc))) (\<lambda>i.
    sthen (modifies (\<lambda>rt. rt\<lparr>rt_scope := Some i\<rparr>)) (ret i)))"

definition PopScope :: "unit rop" where
  "PopScope =
    sbind (asks rt_scope) (\<lambda>p.
    case p of
      None \<Rightarrow> ret ()
    | Some i \<Rightarrow>
        sbind (scoped (\<lambda>sc. get_scope sc i)) (\<lambda>s.
        modifies (\<lambda>rt. rt\<lparr>rt_scope := sc_parent s\<rparr>)))"

definition next_frame_id :: "runtime \<Rightarrow> uword" where
  "next_frame_id rt = (case rt_frames rt of [] \<Rightarrow> 1 | f # _ \<Rightarrow> fr_id f + 1)"

definition PushStackFrame :: "target \<Rightarrow> nat \<Rightarrow> unit rop" where
  "PushStackFrame t locals =
    modifies (\<lambda>rt. rt\<lparr>rt_frames :=
      \<lparr>fr_id = next_frame_id rt, fr_target = t, fr_locals = locals, fr_return = rt_current rt,
       fr_stack = []\<rparr> # rt_frames rt\<rparr>)"

text \<open>Popping from the empty stack gives a frame without values and without a return address.\<close>

definition PopStackFrame :: "(uword list \<times> uword) rop" where
  "PopStackFrame =
    sbind (asks rt_frames) (\<lambda>fs.
    case fs of
      [] \<Rightarrow> ret ([], 0)
    | f # fs' \<Rightarrow> sthen (modifies (\<lambda>rt. rt\<lparr>rt_frames := fs'\<rparr>)) (ret (fr_stack f, fr_return f)))"

text \<open>\<open>StackFrameGuard\<close>: its constructor keeps the frame on top, its destructor compares it with the
  one on top then, by number and return address. The destructor runs at the end of the block and
  also when a \<open>gel::Exception\<close> leaves the block for a handler. At that moment the frames are those
  the rest of the block began with: of the calls made since, those that returned have popped their
  own frame, and one that was left by the exception would have ended the process in its own
  destructor. An exception of the C++ library has no handler anywhere in the program: it ends in
  \<open>std::terminate\<close>, and no destructor is waited for.\<close>

definition frame_key :: "runtime \<Rightarrow> (uword \<times> uword) option" where
  "frame_key rt = (case rt_frames rt of [] \<Rightarrow> None | f # _ \<Rightarrow> Some (fr_id f, fr_return f))"

definition unwinding :: "(uword \<times> uword) option \<Rightarrow> unit rop \<Rightarrow> unit rop" where
  "unwinding enter m = (\<lambda>rt.
    case m rt of
      Inl (GelException message) \<Rightarrow>
        guardr LogFatal (enter = frame_key rt) (Inl (GelException message))
    | r \<Rightarrow> r)"

definition guarded :: "unit rop \<Rightarrow> unit rop \<Rightarrow> unit rop" where
  "guarded push body =
    sbind (asks frame_key) (\<lambda>enter.
    sthen push
      (sthen (unwinding enter body)
        (sbind (asks frame_key) (\<lambda>exit. sguard LogFatal (enter = exit)))))"

section \<open>Calls\<close>

text \<open>The end of every call: the value the callee left on its stack, or null, goes to the
  caller's stack, and the interpreter goes back to the return address.\<close>

definition finish_call :: "world \<Rightarrow> unit rop" where
  "finish_call W =
    sbind PopStackFrame (\<lambda>(vs, return_address).
    sbind (case vs of v # _ \<Rightarrow> ret v | [] \<Rightarrow> on_store (Null (w_machine W))) (\<lambda>result.
    sthen (sassert (result \<noteq> 0))
      (sbind (asks rt_frames) (\<lambda>fs.
       sthen (if fs \<noteq> [] then stack_Push result else modifies (\<lambda>rt. rt\<lparr>rt_result := result\<rparr>))
         (if return_address \<noteq> 0 then modifies (\<lambda>rt. rt\<lparr>rt_current := return_address\<rparr>) else ret ())))))"

definition lambda_at :: "uword \<Rightarrow> store \<Rightarrow> lambda res" where
  "lambda_at a st =
    rbind (obj_at a st) (\<lambda>x. case x of OLambda l \<Rightarrow> Inr l | _ \<Rightarrow> Inl UndefinedBehaviour)"

definition native_at :: "uword \<Rightarrow> store \<Rightarrow> native res" where
  "native_at a st =
    rbind (obj_at a st) (\<lambda>x. case x of ONative n \<Rightarrow> Inr n | _ \<Rightarrow> Inl UndefinedBehaviour)"

definition script_at :: "uword \<Rightarrow> store \<Rightarrow> script res" where
  "script_at a st =
    rbind (obj_at a st) (\<lambda>x. case x of OScript s \<Rightarrow> Inr s | _ \<Rightarrow> Inl UndefinedBehaviour)"

text \<open>A new variable under a symbol's name, added to the scope or fatal.\<close>

definition add_local :: "nat \<Rightarrow> uword \<Rightarrow> uword \<Rightarrow> unit rop" where
  "add_local scope sy value =
    sbind (stored (symbol_at sy)) (\<lambda>s.
    sbind (on_scopes (LocalVariable_New scope (GetFullyQualifiedName s) value)) (\<lambda>l.
    sbind (on_scopes (Add_local scope l)) (\<lambda>ok. sguard LogFatal ok)))"

text \<open>The parameters, the last first, take the arguments in order.\<close>

fun bind_parameters :: "world \<Rightarrow> nat \<Rightarrow> argument list \<Rightarrow> uword list \<Rightarrow> unit rop" where
  "bind_parameters W scope [] args = ret ()"
| "bind_parameters W scope (p # ps) args =
    sbind (on_store (Symbol_New_text (w_machine W) (arg_name p))) (\<lambda>sy.
    case args of
      [] \<Rightarrow> fails UndefinedBehaviour
    | v # vs \<Rightarrow>
        sthen (sassert (v \<noteq> 0))
          (sthen (add_local scope sy v) (bind_parameters W scope ps vs)))"

definition Call_Lambda :: "world \<Rightarrow> (uword \<Rightarrow> unit rop) \<Rightarrow> uword \<Rightarrow> uword list \<Rightarrow> unit rop" where
  "Call_Lambda W run a args =
    sthen (sassert (a \<noteq> 0))
      (sbind PushScope (\<lambda>locals.
       sbind (stored (lambda_at a)) (\<lambda>lm.
       sbind (if lm_symbol lm \<noteq> 0 then ret (lm_symbol lm)
              else on_store (Symbol_New_text (w_machine W) ''$'')) (\<lambda>self.
       sthen (add_local locals self a)
         (sthen (sassert (length (lm_args lm) = length args))
           (sthen (bind_parameters W locals (rev (lm_args lm)) args)
             (sthen (if IsAllocated (lm_code lm) then ret ()
                     else sbind (w_compile W a locals) (\<lambda>ok. sguard LogFatal ok))
               (sthen
                 (guarded (PushStackFrame (TLambda a) locals)
                   (sbind (stored (lambda_at a)) (\<lambda>compiled.
                    sthen (run (r_start (lm_code compiled))) (finish_call W))))
                 PopScope))))))))"

text \<open>The arguments of a native procedure also become the variables \<open>arg0\<close>, \<open>arg1\<close>, ...\<close>

fun bind_native_args :: "world \<Rightarrow> nat \<Rightarrow> nat \<Rightarrow> uword list \<Rightarrow> unit rop" where
  "bind_native_args W scope idx [] = ret ()"
| "bind_native_args W scope idx (v # vs) =
    sbind (on_store (Symbol_New_text (w_machine W) (''arg'' @ show_nat idx))) (\<lambda>sy.
    sbind (stored (symbol_at sy)) (\<lambda>s.
    sthen (on_scopes (Add_name scope (GetFullyQualifiedName s) v))
      (bind_native_args W scope (idx + 1) vs)))"

definition Call_Native ::
    "world \<Rightarrow> (uword \<Rightarrow> uword list \<Rightarrow> unit rop) \<Rightarrow> uword \<Rightarrow> uword list \<Rightarrow> unit rop" where
  "Call_Native W call a args =
    sthen (sassert (a \<noteq> 0))
      (sbind (stored (native_at a)) (\<lambda>nv.
       case nv_entry nv of
         None \<Rightarrow> fails AssertFailed
       | Some entry \<Rightarrow>
           sbind PushScope (\<lambda>locals.
           sthen (bind_native_args W locals 0 args)
             (sthen
               (guarded (PushStackFrame (TNative a) locals)
                 (sbind (w_native W call entry args) (\<lambda>ok.
                  sthen (sguard LogFatal ok) (finish_call W))))
               PopScope))))"

text \<open>Whether a value of a variable is a native procedure, which importing a scope skips.\<close>

definition is_native_value :: "store \<Rightarrow> uword \<Rightarrow> bool res" where
  "is_native_value st v =
    (if v = 0 then Inr False
     else rbind (obj_at v st) (\<lambda>x. Inr (case x of ONative _ \<Rightarrow> True | _ \<Rightarrow> False)))"

definition import_scope :: "nat \<Rightarrow> nat \<Rightarrow> bool rop" where
  "import_scope scope other = sbind (asks rt_store) (\<lambda>st. on_scopes (Add_scope (is_native_value st) scope other))"

definition Call_Script :: "world \<Rightarrow> (uword \<Rightarrow> unit rop) \<Rightarrow> uword \<Rightarrow> unit rop" where
  "Call_Script W run a =
    sthen (sassert (a \<noteq> 0))
      (sbind (stored (script_at a)) (\<lambda>sp.
       sthen (sassert (IsAllocated (sp_code sp)))
         (sbind PushScope (\<lambda>locals.
          sthen (case sp_scope sp of None \<Rightarrow> fails AssertFailed | Some sc \<Rightarrow> import_scope locals sc)
            (sthen
              (guarded (PushStackFrame (TScript a) locals)
                (sthen (run (r_start (sp_code sp))) (finish_call W)))
              PopScope)))))"

text \<open>\<open>Call(Procedure*)\<close>.\<close>

definition Call_Procedure ::
    "world \<Rightarrow> (uword \<Rightarrow> unit rop) \<Rightarrow> (uword \<Rightarrow> uword list \<Rightarrow> unit rop) \<Rightarrow> uword \<Rightarrow> uword list \<Rightarrow> unit rop" where
  "Call_Procedure W run call a args =
    sbind (stored (obj_at a)) (\<lambda>x.
    case x of
      OLambda _ \<Rightarrow> Call_Lambda W run a args
    | ONative _ \<Rightarrow> Call_Native W call a args
    | _ \<Rightarrow> fails LogFatal)"

section \<open>Calls from code: the arguments are on the stack\<close>

fun pop_values :: "nat \<Rightarrow> uword list rop" where
  "pop_values 0 = ret []"
| "pop_values (Suc n) = sbind pop_value (\<lambda>v. sbind (pop_values n) (\<lambda>vs. ret (v # vs)))"

text \<open>The loop over the parameters: how many arguments remain (fewer than none for the optional
  parameters left out) and the values popped.\<close>

fun collect_args :: "argument list \<Rightarrow> int \<Rightarrow> uword list \<Rightarrow> (int \<times> uword list) rop" where
  "collect_args [] remaining args = ret (remaining, args)"
| "collect_args (p # ps) remaining args =
    (if arg_vararg p then
       sbind (pop_values (nat remaining)) (\<lambda>vs. ret (min remaining 0, args @ vs))
     else if 0 < remaining then
       sbind pop_value (\<lambda>v. collect_args ps (remaining - 1) (args @ [v]))
     else if arg_optional p then collect_args ps (remaining - 1) args
     else fails LogFatal)"

fun push_nulls :: "world \<Rightarrow> nat \<Rightarrow> uword list rop" where
  "push_nulls W 0 = ret []"
| "push_nulls W (Suc n) =
    sbind (on_store (Null (w_machine W))) (\<lambda>z. sbind (push_nulls W n) (\<lambda>zs. ret (z # zs)))"

text \<open>The number of arguments as a signed word; the arguments in the order of the call, then null
  for every optional parameter that was left out.\<close>

definition take_arguments :: "world \<Rightarrow> argument list \<Rightarrow> uword \<Rightarrow> uword list rop" where
  "take_arguments W params num_args =
    sbind (reads GetOperationStack) (\<lambda>_.
    sbind (collect_args params (sint num_args) []) (\<lambda>(remaining, args).
    sbind (push_nulls W (nat (- remaining))) (\<lambda>zs. ret (rev args @ zs))))"

definition CallWithNArgs_Lambda :: "world \<Rightarrow> (uword \<Rightarrow> unit rop) \<Rightarrow> uword \<Rightarrow> uword \<Rightarrow> unit rop" where
  "CallWithNArgs_Lambda W run a num_args =
    sbind (stored (lambda_at a)) (\<lambda>lm.
    sbind (take_arguments W (lm_args lm) num_args) (\<lambda>args. Call_Lambda W run a args))"

definition CallWithNArgs_Native ::
    "world \<Rightarrow> (uword \<Rightarrow> uword list \<Rightarrow> unit rop) \<Rightarrow> uword \<Rightarrow> uword \<Rightarrow> unit rop" where
  "CallWithNArgs_Native W call a num_args =
    sbind (stored (native_at a)) (\<lambda>nv.
    sbind (take_arguments W (nv_args nv) num_args) (\<lambda>args. Call_Native W call a args))"

section \<open>Calls from outside\<close>

text \<open>\<open>CallPop\<close>: the value of a call, off the stack of the frame that made it or out of the
  runtime's result.\<close>

definition CallPop :: "world \<Rightarrow> unit rop \<Rightarrow> uword rop" where
  "CallPop W call =
    sthen call
      (sbind (asks rt_frames) (\<lambda>fs.
       if fs \<noteq> [] then sbind (on_store (Null (w_machine W))) stack_PopOr
       else sbind (asks rt_result) (\<lambda>r.
         sbind (if r \<noteq> 0 then ret r else on_store (Null (w_machine W))) (\<lambda>result.
         sthen (sassert (result \<noteq> 0))
           (sthen (modifies (\<lambda>rt. rt\<lparr>rt_result := 0\<rparr>)) (ret result))))))"

definition Exec :: "world \<Rightarrow> (uword \<Rightarrow> unit rop) \<Rightarrow> uword \<Rightarrow> uword rop" where
  "Exec W run script = sthen (sassert (script \<noteq> 0)) (CallPop W (Call_Script W run script))"

text \<open>\<open>Eval\<close>: the parser is an argument; it may answer that there is no expression.\<close>

definition empty_lambda :: lambda where
  "empty_lambda =
    \<lparr>lm_symbol = 0, lm_owner = 0, lm_docs = 0, lm_scope = None, lm_args = [], lm_body = [],
     lm_code = \<lparr>r_start = 0, r_size = 0\<rparr>\<rparr>"

definition set_body :: "uword \<Rightarrow> expr option \<Rightarrow> unit rop" where
  "set_body a parsed =
    (case parsed of
       None \<Rightarrow> ret ()
     | Some e \<Rightarrow>
         sbind (stored (lambda_at a)) (\<lambda>lm.
         on_store (modifies (put_obj a (OLambda (lm\<lparr>lm_body := [e]\<rparr>))))))"

definition Eval ::
    "world \<Rightarrow> (uword \<Rightarrow> unit rop) \<Rightarrow> (string \<Rightarrow> nat \<Rightarrow> expr option rop) \<Rightarrow> string \<Rightarrow> uword rop" where
  "Eval W run parse text =
    sthen (sassert (text \<noteq> []))
      (sbind PushScope (\<lambda>scope.
       sbind (on_store (new_obj (w_machine W) (OLambda empty_lambda))) (\<lambda>a.
       sbind (on_scopes (LocalVariable_New scope ''this'' a)) (\<lambda>l.
       sbind (on_scopes (Add_local scope l)) (\<lambda>ok.
       sthen (sguard LogFatal ok)
         (sbind (parse text scope) (\<lambda>parsed.
          sthen (set_body a parsed)
            (sbind (w_compile W a scope) (\<lambda>compiled.
             sthen (sguard LogFatal compiled)
               (sbind (CallPop W (Call_Lambda W run a [])) (\<lambda>result.
                sthen PopScope (ret result))))))))))))"

section \<open>Native procedures\<close>

text \<open>\<open>NativeProcedure::Find(Symbol*)\<close> and \<open>Find(name)\<close>.\<close>

fun find_native :: "(native \<Rightarrow> store \<Rightarrow> bool res) \<Rightarrow> uword list \<Rightarrow> store \<Rightarrow> uword res" where
  "find_native p [] st = Inr 0"
| "find_native p (a # as) st =
    asserting (a \<noteq> 0)
      (rbind (native_at a st) (\<lambda>nv. rbind (p nv st) (\<lambda>b. if b then Inr a else find_native p as st)))"

definition native_named :: "string \<Rightarrow> native \<Rightarrow> store \<Rightarrow> bool res" where
  "native_named name nv st =
    rbind (symbol_at (nv_symbol nv) st) (\<lambda>s. Inr (name = GetFullyQualifiedName s))"

definition native_symbol_is :: "uword \<Rightarrow> native \<Rightarrow> store \<Rightarrow> bool res" where
  "native_symbol_is sy nv st = symbols_equal (nv_symbol nv) sy st"

definition NativeProcedure_Find_name :: "string \<Rightarrow> uword rop" where
  "NativeProcedure_Find_name name =
    sthen (sassert (name \<noteq> []))
      (sbind (asks rt_natives) (\<lambda>all. stored (find_native (native_named name) all)))"

definition NativeProcedure_Find :: "uword \<Rightarrow> uword rop" where
  "NativeProcedure_Find sy =
    sthen (sassert (sy \<noteq> 0))
      (sbind (asks rt_natives) (\<lambda>all. stored (find_native (native_symbol_is sy) all)))"

text \<open>\<open>Register\<close>: in the first scope under its symbol, unless a variable with a value is there.\<close>

definition NativeProcedure_Register :: "uword \<Rightarrow> unit rop" where
  "NativeProcedure_Register a =
    sthen (sassert (a \<noteq> 0))
      (sbind (asks rt_init_scope) (\<lambda>scope.
       sbind (stored (native_at a)) (\<lambda>nv.
       sbind (stored (symbol_at (nv_symbol nv))) (\<lambda>s.
       sbind (scoped (\<lambda>sc. Lookup sc scope (GetFullyQualifiedName s) False)) (\<lambda>found.
       sthen
         (case found of
            None \<Rightarrow> add_local scope (nv_symbol nv) a
          | Some l \<Rightarrow>
              sbind (scoped (\<lambda>sc. get_local sc l)) (\<lambda>v.
              if HasValue v then ret ()
              else on_scopes (\<lambda>sc. rbind (SetValue a v) (\<lambda>v'. Inr ((), upd_local l v' sc)))))
         (modifies (\<lambda>rt. rt\<lparr>rt_natives := rt_natives rt @ [a]\<rparr>)))))))"

definition FindOrCreate :: "world \<Rightarrow> uword \<Rightarrow> uword rop" where
  "FindOrCreate W sy =
    sbind (NativeProcedure_Find sy) (\<lambda>found.
    if found \<noteq> 0 then ret found
    else sbind (on_store (new_obj (w_machine W)
           (ONative \<lparr>nv_symbol = sy, nv_args = [], nv_docs = 0, nv_entry = None\<rparr>))) (\<lambda>a.
         sthen (NativeProcedure_Register a) (ret a)))"

text \<open>\<open>Link\<close>; that the entry is not bound yet is for the caller to see to.\<close>

definition NativeProcedure_Link :: "world \<Rightarrow> uword \<Rightarrow> nat \<Rightarrow> unit rop" where
  "NativeProcedure_Link W sy entry =
    sthen (sassert (sy \<noteq> 0))
      (sbind (FindOrCreate W sy) (\<lambda>a.
       sbind (stored (native_at a)) (\<lambda>nv.
       sthen (sguard LogFatal (nv_entry nv = None))
         (on_store (modifies (put_obj a (ONative (nv\<lparr>nv_entry := Some entry\<rparr>))))))))"

section \<open>Errors on the operation stack\<close>

definition stack_HasError :: "bool rop" where
  "stack_HasError =
    sbind stack_GetTop (\<lambda>t.
    case t of
      None \<Rightarrow> ret False
    | Some v \<Rightarrow> sbind (stored (obj_at v)) (\<lambda>x. ret (kind_of x = KError)))"

definition stack_GetError :: "uword rop" where
  "stack_GetError =
    sbind stack_HasError (\<lambda>has.
    sthen (sassert has)
      (sbind stack_GetTop (\<lambda>t. case t of None \<Rightarrow> fails UndefinedBehaviour | Some v \<Rightarrow> ret v)))"

definition PushError :: "uword \<Rightarrow> unit rop" where
  "PushError error = sthen (sassert (error \<noteq> 0)) (stack_Push error)"

definition PushError_text :: "world \<Rightarrow> string \<Rightarrow> unit rop" where
  "PushError_text W message =
    sthen (sassert (message \<noteq> []))
      (sbind (on_store (sbind (String_New (w_machine W) message) (Error_New (w_machine W)))) PushError)"

end
