(* ===== verification/Interpreter.thy ===== *)
theory Interpreter
  imports Runtime
begin

text \<open>
  The bytecode interpreter (\<open>gel/interpreter.h\<close>, \<open>gel/interpreter.cc\<close>): one operation per
  function of the class, on the state of the runtime. Code is read from the memory of theory
  \<open>Assembler\<close> at the interpreter's current address, which is part of that state.
\<close>

section \<open>Reading code\<close>

definition rt_NextBytecode :: "byte rop" where
  "rt_NextBytecode =
    sbind (reads (\<lambda>rt. read_byte (rt_code rt) (rt_current rt))) (\<lambda>b.
    sthen (modifies (\<lambda>rt. rt\<lparr>rt_current := rt_current rt + 1\<rparr>)) (ret b))"

definition rt_NextUWord :: "uword rop" where
  "rt_NextUWord =
    sbind (reads (\<lambda>rt. read_word (rt_code rt) (rt_current rt))) (\<lambda>w.
    sthen (modifies (\<lambda>rt. rt\<lparr>rt_current := rt_current rt + 8\<rparr>)) (ret w))"

definition rt_NextWord :: "uword rop" where
  "rt_NextWord =
    sbind (reads (\<lambda>rt. read_word (rt_code rt) (rt_current rt))) (\<lambda>w.
    sthen (modifies (\<lambda>rt. rt\<lparr>rt_current := rt_current rt + 8\<rparr>)) (ret w))"

definition NextLong :: "world \<Rightarrow> uword rop" where
  "NextLong W = sbind rt_NextUWord (\<lambda>w. on_store (Long_New (w_machine W) w))"

definition assert_object :: "(obj \<Rightarrow> bool) \<Rightarrow> uword \<Rightarrow> unit rop" where
  "assert_object p a =
    sthen (sassert (a \<noteq> 0)) (sbind (stored (obj_at a)) (\<lambda>x. sassert (p x)))"

definition NextClass :: "uword rop" where
  "NextClass = sbind rt_NextUWord (\<lambda>a. sthen (assert_object IsClassObj a) (ret a))"

definition NextField :: "uword rop" where
  "NextField =
    sbind rt_NextUWord (\<lambda>a.
    sthen (assert_object (\<lambda>x. case x of OField _ \<Rightarrow> True | _ \<Rightarrow> False) a) (ret a))"

section \<open>Operations\<close>

text \<open>\<open>PUSH\<close>: null in every form is pushed as the shared empty list.\<close>

definition push :: "world \<Rightarrow> uword \<Rightarrow> unit rop" where
  "push W v =
    sbind (stored (IsNull v)) (\<lambda>n.
    if n then sbind (on_store (Null (w_machine W))) stack_Push else stack_Push v)"

definition current_scope :: "nat rop" where
  "current_scope =
    sbind (asks rt_scope) (\<lambda>s. case s of None \<Rightarrow> fails UndefinedBehaviour | Some i \<Rightarrow> ret i)"

definition LoadLocal :: "world \<Rightarrow> uword \<Rightarrow> unit rop" where
  "LoadLocal W idx =
    sbind current_scope (\<lambda>i.
    sbind (scoped (\<lambda>sc. get_scope sc i)) (\<lambda>s.
    sthen (sassert (idx \<le> GetNumberOfLocals s))
      (sbind (scoped (\<lambda>sc. GetLocalAt sc i idx)) (\<lambda>l.
       sbind (scoped (\<lambda>sc. get_local sc l)) (\<lambda>v.
       sthen (sassert (HasValue v)) (push W (GetValue v)))))))"

definition StoreLocal :: "uword \<Rightarrow> unit rop" where
  "StoreLocal idx =
    sbind current_scope (\<lambda>i.
    sbind (scoped (\<lambda>sc. get_scope sc i)) (\<lambda>s.
    sthen (sassert (idx \<le> GetNumberOfLocals s))
      (sbind (scoped (\<lambda>sc. GetLocalAt sc i idx)) (\<lambda>l.
       sbind pop_value (\<lambda>value.
       sbind (scoped (\<lambda>sc. get_local sc l)) (\<lambda>v.
       on_scopes (\<lambda>sc. rbind (SetValue value v) (\<lambda>v'. Inr ((), upd_local l v' sc)))))))))"

definition exec_Push :: "world \<Rightarrow> op \<Rightarrow> unit rop" where
  "exec_Push W x =
    (case x of
       kPushQ \<Rightarrow> sbind rt_NextUWord (\<lambda>v. sthen (sassert (v \<noteq> 0)) (push W v))
     | kPushI \<Rightarrow> sbind (NextLong W) (\<lambda>v. sthen (sassert (v \<noteq> 0)) (push W v))
     | kPushN \<Rightarrow> sbind (on_store (Null (w_machine W))) (\<lambda>v. sthen (sassert (v \<noteq> 0)) (push W v))
     | kPushF \<Rightarrow> sbind (on_store Bool_False) (\<lambda>v. sthen (sassert (v \<noteq> 0)) (push W v))
     | kPushT \<Rightarrow> sbind (on_store Bool_True) (\<lambda>v. sthen (sassert (v \<noteq> 0)) (push W v))
     | _ \<Rightarrow> fails LogFatal)"

definition set_current :: "uword \<Rightarrow> unit rop" where
  "set_current a = modifies (\<lambda>rt. rt\<lparr>rt_current := a\<rparr>)"

text \<open>\<open>jnz\<close> jumps when the value is not true. The fuel of \<open>Equals\<close> is for cyclic lists.\<close>

definition exec_Jump :: "nat \<Rightarrow> world \<Rightarrow> op \<Rightarrow> uword \<Rightarrow> unit rop" where
  "exec_Jump fuel W x t =
    (case x of
       kJnz \<Rightarrow>
         sbind pop_value (\<lambda>v. sbind (stored (Truth v)) (\<lambda>b. if \<not> b then set_current t else ret ()))
     | kJne \<Rightarrow>
         sbind pop_value (\<lambda>rhs. sbind pop_value (\<lambda>lhs.
         sbind (stored (Equals fuel (w_machine W) lhs rhs)) (\<lambda>b.
         if \<not> b then set_current t else ret ())))
     | kJump \<Rightarrow> set_current t
     | _ \<Rightarrow> fails LogFatal)"

definition exec_Lookup :: "world \<Rightarrow> uword \<Rightarrow> unit rop" where
  "exec_Lookup W sy =
    sbind (asks rt_scope) (\<lambda>scope.
    case scope of
      None \<Rightarrow> fails AssertFailed
    | Some i \<Rightarrow>
        sbind (stored (symbol_at sy)) (\<lambda>s.
        sbind (scoped (\<lambda>sc. Lookup sc i (GetFullyQualifiedName s) True)) (\<lambda>found.
        sbind (case found of
                 None \<Rightarrow> on_store (Null (w_machine W))
               | Some l \<Rightarrow> sbind (scoped (\<lambda>sc. get_local sc l)) (\<lambda>v.
                   if HasValue v then ret (GetValue v) else on_store (Null (w_machine W)))) (\<lambda>value.
        push W value))))"

definition PopLookup :: "world \<Rightarrow> unit rop" where
  "PopLookup W =
    sbind pop_deref (\<lambda>sy.
    sbind (stored (obj_at sy)) (\<lambda>x.
    sthen (sguard LogFatal (case x of OSymbol _ \<Rightarrow> True | _ \<Rightarrow> False)) (exec_Lookup W sy)))"

text \<open>The exception \<open>Throw\<close> raises is caught nowhere.\<close>

definition exec_Throw :: "unit rop" where
  "exec_Throw =
    sbind pop_deref (\<lambda>a.
    sbind (stored (obj_at a)) (\<lambda>x.
    case x of
      OError m \<Rightarrow> sbind (stored (string_at m)) (\<lambda>s. fails (CppException s))
    | _ \<Rightarrow> fails AssertFailed))"

text \<open>The last lines of \<open>Invoke\<close>, for a procedure that is neither native nor a lambda, cannot be
  reached: \<open>Procedure\<close> has no other subclass.\<close>

definition Invoke ::
    "world \<Rightarrow> (uword \<Rightarrow> unit rop) \<Rightarrow> (uword \<Rightarrow> uword list \<Rightarrow> unit rop) \<Rightarrow> op \<Rightarrow> unit rop" where
  "Invoke W run call x =
    sbind (if x \<noteq> kInvokeDynamic then rt_NextUWord else pop_deref) (\<lambda>func.
    sthen (assert_object IsProcedure func)
      (sbind rt_NextUWord (\<lambda>num_args.
       sbind (stored (obj_at func)) (\<lambda>f.
       case f of
         ONative _ \<Rightarrow>
           sthen (sassert (x = kInvokeNative \<or> x = kInvokeDynamic)) (CallWithNArgs_Native W call func num_args)
       | OLambda _ \<Rightarrow>
           sthen (sassert (x = kInvoke \<or> x = kInvokeDynamic)) (CallWithNArgs_Lambda W run func num_args)
       | _ \<Rightarrow> fails UndefinedBehaviour))))"

definition compare_with :: "world \<Rightarrow> (int \<Rightarrow> bool) \<Rightarrow> uword \<Rightarrow> uword \<Rightarrow> uword rop" where
  "compare_with W p lhs rhs =
    sbind (stored (Compare lhs rhs)) (\<lambda>c. on_store (Bool_Box (p c)))"

definition ExecBinaryOp :: "nat \<Rightarrow> world \<Rightarrow> op \<Rightarrow> unit rop" where
  "ExecBinaryOp fuel W x =
    sthen (sassert (IsBinaryOp x))
      (sbind pop_deref (\<lambda>rhs. sthen (sassert (rhs \<noteq> 0))
        (sbind pop_deref (\<lambda>lhs. sthen (sassert (lhs \<noteq> 0))
          (sbind
            (case x of
               kAdd \<Rightarrow> on_store (Arith (w_machine W) ArAdd lhs rhs)
             | kSubtract \<Rightarrow> on_store (Arith (w_machine W) ArSub lhs rhs)
             | kDivide \<Rightarrow> on_store (Arith (w_machine W) ArDiv lhs rhs)
             | kMultiply \<Rightarrow> on_store (Arith (w_machine W) ArMul lhs rhs)
             | kModulus \<Rightarrow> on_store (Arith (w_machine W) ArMod lhs rhs)
             | kEquals \<Rightarrow>
                 sbind (stored (Equals fuel (w_machine W) lhs rhs)) (\<lambda>b. on_store (Bool_Box b))
             | kBinaryAnd \<Rightarrow> on_store (And (w_machine W) lhs rhs)
             | kBinaryOr \<Rightarrow> on_store (Or (w_machine W) lhs rhs)
             | kLessThan \<Rightarrow> compare_with W (\<lambda>c. c < 0) lhs rhs
             | kLessThanEqual \<Rightarrow> compare_with W (\<lambda>c. c \<le> 0) lhs rhs
             | kGreaterThan \<Rightarrow> compare_with W (\<lambda>c. 0 < c) lhs rhs
             | kGreaterThanEqual \<Rightarrow> compare_with W (\<lambda>c. 0 \<le> c) lhs rhs
             | kCons \<Rightarrow> on_store (Cons (w_machine W) lhs rhs)
             | kInstanceOf \<Rightarrow>
                 sthen (assert_object IsClassObj rhs)
                   (sbind (stored (GetType lhs)) (\<lambda>cls.
                    sbind (stored (IsInstanceOf cls rhs)) (\<lambda>b. on_store (Bool_Box b))))
             | _ \<Rightarrow> fails LogFatal)
            (\<lambda>value. sthen (sassert (value \<noteq> 0)) (push W value)))))))"

definition ExecUnaryOp :: "world \<Rightarrow> op \<Rightarrow> unit rop" where
  "ExecUnaryOp W x =
    sthen (sassert (IsUnaryOp x))
      (sbind pop_deref (\<lambda>v. sthen (sassert (v \<noteq> 0))
        (sbind
          (case x of
             kNot \<Rightarrow> sbind (stored (Truth v)) (\<lambda>b. on_store (Bool_Box (\<not> b)))
           | kCdr \<Rightarrow> on_store (Cdr (w_machine W) v)
           | kCar \<Rightarrow> on_store (Car (w_machine W) v)
           | kNull \<Rightarrow> sbind (stored (IsNull v)) (\<lambda>b. on_store (Bool_Box b))
           | kNonnull \<Rightarrow> sbind (stored (IsNull v)) (\<lambda>b. on_store (Bool_Box (\<not> b)))
           | _ \<Rightarrow> fails LogFatal)
          (\<lambda>value. sthen (sassert (value \<noteq> 0)) (push W value)))))"

text \<open>The checks look at the value on top and leave it there.\<close>

definition CheckInstance :: "uword \<Rightarrow> unit rop" where
  "CheckInstance cls =
    sthen (sassert (cls \<noteq> 0))
      (sbind stack_GetTop (\<lambda>top.
       case top of
         None \<Rightarrow> fails LogFatal
       | Some v \<Rightarrow>
           sbind (stored (GetType v)) (\<lambda>c.
           sbind (stored (IsInstanceOf c cls)) (\<lambda>b. sguard LogFatal b))))"

text \<open>A cast pops the value; only a cast to \<open>Observable\<close> pushes one.\<close>

definition Cast :: "world \<Rightarrow> uword \<Rightarrow> unit rop" where
  "Cast W cls =
    sthen (sassert (cls \<noteq> 0))
      (sbind pop_deref (\<lambda>v.
       sthen (sassert (v \<noteq> 0))
         (sbind (on_store (GetClass KObservable)) (\<lambda>obs.
          sbind (stored (Class_Equals cls obs)) (\<lambda>e.
          if e then
            sbind (on_store (w_new W KObservable [v])) (\<lambda>new_value.
            sthen (sassert (new_value \<noteq> 0)) (push W new_value))
          else ret ())))))"

definition exec_Pop :: "unit rop" where
  "exec_Pop = sbind pop_value (\<lambda>_. ret ())"

definition LoadField :: "world \<Rightarrow> uword \<Rightarrow> unit rop" where
  "LoadField W field =
    sthen (sassert (field \<noteq> 0))
      (sbind pop_value (\<lambda>inst.
       sbind (stored (GetField inst field)) (\<lambda>value.
       if value = 0 then sbind (on_store (Null (w_machine W))) (push W) else push W value)))"

definition StoreField :: "uword \<Rightarrow> unit rop" where
  "StoreField field =
    sthen (sassert (field \<noteq> 0))
      (sbind pop_value (\<lambda>inst. sbind pop_value (\<lambda>value. on_store (SetField inst field value))))"

definition exec_New :: "nat \<Rightarrow> world \<Rightarrow> uword \<Rightarrow> uword \<Rightarrow> unit rop" where
  "exec_New fuel W cls num_args =
    sthen (sassert (cls \<noteq> 0))
      (sbind (stack_PopN W num_args True) (\<lambda>args.
       sbind (on_store (NewInstance fuel (w_machine W) (w_printer W) (w_buffer_text W) (w_new W) cls args)) (\<lambda>v.
       sthen (sassert (v \<noteq> 0)) (push W v))))"

section \<open>One instruction\<close>

text \<open>The instruction at the current address, of the code that begins at \<open>address\<close>; whether the
  loop goes on.\<close>

definition goes_on :: "unit rop \<Rightarrow> bool rop" where
  "goes_on m = sthen m (ret True)"

definition exec_op ::
    "nat \<Rightarrow> world \<Rightarrow> (uword \<Rightarrow> unit rop) \<Rightarrow> (uword \<Rightarrow> uword list \<Rightarrow> unit rop) \<Rightarrow> uword \<Rightarrow> uword \<Rightarrow> op \<Rightarrow> bool rop" where
  "exec_op fuel W run call address pos x =
    (if x \<in> {kPushN, kPushT, kPushF, kPushI, kPushQ} then goes_on (exec_Push W x)
     else if x = kPop then goes_on exec_Pop
     else if x = kDup then fails LogFatal
     else if x = kLookup then goes_on (PopLookup W)
     else if x = kLoadLocal then goes_on (sbind rt_NextUWord (LoadLocal W))
     else if x \<in> {kLoadLocal0, kLoadLocal1, kLoadLocal2, kLoadLocal3}
       then goes_on (LoadLocal W (of_nat (op_code x - op_code kLoadLocal0)))
     else if x = kStoreLocal then goes_on (sbind rt_NextUWord StoreLocal)
     else if x \<in> {kStoreLocal0, kStoreLocal1, kStoreLocal2, kStoreLocal3}
       then goes_on (StoreLocal (of_nat (op_code x - op_code kStoreLocal0)))
     else if x \<in> {kInvoke, kInvokeNative, kInvokeDynamic} then goes_on (Invoke W run call x)
     else if x = kThrow then sthen exec_Throw (ret False)
     else if x = kCheckInstance then goes_on (sbind NextClass CheckInstance)
     else if x = kCast then goes_on (sbind NextClass (Cast W))
     else if x = kNop then ret True
     else if IsBinaryOp x then goes_on (ExecBinaryOp fuel W x)
     else if IsUnaryOp x then goes_on (ExecUnaryOp W x)
     else if x = kRet then sthen (w_events W) (ret False)
     else if x \<in> {kJump, kJz, kJnz, kJeq, kJne}
       then goes_on (sbind rt_NextWord (\<lambda>offset. exec_Jump fuel W x (address + (pos + offset))))
     else if x = kStoreField then goes_on (sbind NextField StoreField)
     else if x = kLoadField then goes_on (sbind NextField (LoadField W))
     else if x = kNew then goes_on (sbind NextClass (\<lambda>cls. sbind rt_NextUWord (exec_New fuel W cls)))
     else fails LogFatal)"

definition step ::
    "nat \<Rightarrow> world \<Rightarrow> (uword \<Rightarrow> unit rop) \<Rightarrow> (uword \<Rightarrow> uword list \<Rightarrow> unit rop) \<Rightarrow> uword \<Rightarrow> bool rop" where
  "step fuel W run call address =
    sbind (asks rt_current) (\<lambda>start_address.
    sbind rt_NextBytecode (\<lambda>b.
    case op_of_raw b of
      None \<Rightarrow> fails LogFatal
    | Some x \<Rightarrow> exec_op fuel W run call address (start_address - address) x))"

section \<open>The loop\<close>

text \<open>The fuel bounds the number of instructions executed one after the other and the depth of
  calls together: \<open>run_loop\<close> and the calls made from it go down by one each. A native procedure
  calls back with the fuel that is left.\<close>

fun run_loop :: "nat \<Rightarrow> world \<Rightarrow> uword \<Rightarrow> unit rop" and
    call_procedure :: "nat \<Rightarrow> world \<Rightarrow> uword \<Rightarrow> uword list \<Rightarrow> unit rop" where
  "run_loop 0 W address = fails OutOfFuel"
| "run_loop (Suc n) W address =
    sbind (step (Suc n) W (\<lambda>a. sthen (set_current a) (run_loop n W a)) (call_procedure n W) address)
      (\<lambda>again. if again then run_loop n W address else ret ())"
| "call_procedure 0 W a args = fails OutOfFuel"
| "call_procedure (Suc n) W a args =
    Call_Procedure W (\<lambda>b. sthen (set_current b) (run_loop n W b)) (call_procedure n W) a args"

definition Run :: "nat \<Rightarrow> world \<Rightarrow> uword \<Rightarrow> unit rop" where
  "Run fuel W address = sthen (set_current address) (run_loop fuel W address)"

end
