(* ===== verification/InterpreterCorrect.thy ===== *)
theory InterpreterCorrect
  imports Interpreter
begin

text \<open>
  Correctness of the interpreter and of calls: operations on objects leave the scopes alone,
  every instruction and every call gives back the frames and the scope it found, and a call
  passes its arguments by position.
\<close>

section \<open>Object operations leave the scopes alone\<close>

abbreviation same_scopes :: "store \<Rightarrow> store \<Rightarrow> bool" where
  "same_scopes \<equiv> \<lambda>st st'. st_scopes st' = st_scopes st"

interpretation scopes_kept: kept same_scopes
  by unfold_locales simp_all

lemma modifies_scopes: "(\<And>st. st_scopes (f st) = st_scopes st) \<Longrightarrow> keeps same_scopes (modifies f)"
  by (simp add: keeps_def op_simps)

lemma put_obj_scopes [simp]: "st_scopes (put_obj a x st) = st_scopes st"
  by (simp add: put_obj_def)

lemma heap_op_scopes: "keeps same_scopes (heap_op m)"
  unfolding heap_op_def by (rule keeps_on_part [of "\<lambda>_ _. True"]) (simp_all add: keeps_def)

lemma set_offsets_scopes: "keeps same_scopes (set_offsets fs sz)"
  by (induction fs arbitrary: sz) (auto intro!: scopes_kept.keeps_intros modifies_scopes)

lemma GetAllocationSize_scopes: "keeps same_scopes (GetAllocationSize M cls)"
  unfolding GetAllocationSize_def by (intro scopes_kept.keeps_intros set_offsets_scopes)

lemma new_obj_scopes: "keeps same_scopes (new_obj M x)"
  unfolding new_obj_def operator_new_def
  by (intro scopes_kept.keeps_intros heap_op_scopes GetAllocationSize_scopes modifies_scopes) simp

lemma Null_scopes: "keeps same_scopes (Null M)"
  unfolding Null_def by (intro scopes_kept.keeps_intros new_obj_scopes modifies_scopes) simp

lemma Bool_Box_scopes: "keeps same_scopes (Bool_Box b)"
  unfolding Bool_Box_def Bool_True_def Bool_False_def by (intro scopes_kept.keeps_intros)

lemma Bool_scopes: "keeps same_scopes Bool_True" "keeps same_scopes Bool_False"
  unfolding Bool_True_def Bool_False_def by (intro scopes_kept.keeps_intros)+

lemma Long_New_scopes: "keeps same_scopes (Long_New M v)"
  unfolding Long_New_def by (rule new_obj_scopes)

lemma Arith_scopes: "keeps same_scopes (Arith M op a b)"
proof -
  have "keeps same_scopes (Long_arith M op v b)" "keeps same_scopes (Double_arith M op v b)" for v
    unfolding Long_arith_def Double_arith_def
    by (intro scopes_kept.keeps_intros Null_scopes Long_New_scopes new_obj_scopes)+
  then show ?thesis
    unfolding Arith_def
    by (intro scopes_kept.keeps_intros) (auto split: obj.split intro: Null_scopes)
qed

lemma And_Or_scopes: "keeps same_scopes (And M a b)" "keeps same_scopes (Or M a b)"
  unfolding And_def Or_def
  by (intro scopes_kept.keeps_intros;
      auto split: obj.split intro!: scopes_kept.keeps_intros Null_scopes Bool_Box_scopes)+

lemma Pair_scopes:
  "keeps same_scopes (Cons M a b)" "keeps same_scopes (Car M a)" "keeps same_scopes (Cdr M a)"
  "keeps same_scopes (Pair_New M a b)"
  unfolding Cons_def Car_def Cdr_def Pair_New_def
  by (intro scopes_kept.keeps_intros Null_scopes new_obj_scopes)+

lemma GetClass_scopes: "keeps same_scopes (GetClass k)"
  unfolding GetClass_def by (intro scopes_kept.keeps_intros)

lemma SetField_scopes: "keeps same_scopes (SetField a f v)"
  unfolding SetField_def by (intro scopes_kept.keeps_intros modifies_scopes) simp


lemma String_scopes: "keeps same_scopes (String_New M s)" "keeps same_scopes (String_New_empty M)"
proof -
  show A: "keeps same_scopes (String_New M s)" for s
    unfolding String_New_def by (rule new_obj_scopes)
  show "keeps same_scopes (String_New_empty M)"
    unfolding String_New_empty_def
    by (intro scopes_kept.keeps_intros new_obj_scopes modifies_scopes) simp
qed

lemma trie_SearchOrCreate_state:
  assumes "\<And>v u. f () s = Inr (v, u) \<Longrightarrow> R s u" "R s s"
  shows "trie_SearchOrCreate d key f t s = Inr (v, t', s') \<Longrightarrow> R s s'"
  using assms
proof (induction d key f t s arbitrary: v t' rule: trie_SearchOrCreate.induct)
  case (1 d f e x ch s)
  then show ?case by (auto simp: res_elims split: if_splits prod.splits)
next
  case (2 d c cs f e x ch s)
  then show ?case by (auto simp: res_elims split: prod.splits)
qed

lemma Symbol_New_text_scopes: "keeps same_scopes (Symbol_New_text M s)"
proof (rule keepsI)
  fix st a u assume "Symbol_New_text M s st = Inr (a, u)"
  then obtain ns ty name p st' where
    n: "pool_New (\<lambda>s. new_obj M (OSymbol s)) ns ty name (st_pool st) st = Inr (a, p, st')"
    and u: "u = st'\<lparr>st_pool := p\<rparr>"
    by (auto simp: Symbol_New_text_def pool_New_text_def res_elims split: prod.splits)
  let ?f = "\<lambda>_ :: unit. \<lambda>st. rbind (NewInternal (symbol_text ns ty name)) (\<lambda>s. new_obj M (OSymbol s) st)"
  have f: "same_scopes st v" if "?f () st = Inr (b, v)" for b v
    using that new_obj_scopes [THEN keepsD] by (auto simp: rbind_eq_Inr)
  have g: "same_scopes st v" if "trie_SearchOrCreate 0 key ?f (pool_trie (st_pool st)) st = Inr (b, t', v)" for key b t' v
    by (rule trie_SearchOrCreate_state [of ?f st same_scopes, OF f _ that]) simp_all
  have "?f () st = Inr (a, st') \<or> (\<exists>t'. trie_SearchOrCreate 0 (symbol_text ns ty name) ?f (pool_trie (st_pool st)) st = Inr (a, t', st'))"
    using n by (auto simp: pool_New_def Let_def res_elims split: if_splits)
  then have "same_scopes st st'" using f g by blast
  then show "same_scopes st u" by (simp add: u)
qed

lemma String_ValueOf_scopes: "keeps same_scopes (String_ValueOf fuel M P a)"
  unfolding String_ValueOf_def
  by (intro scopes_kept.keeps_intros)
    (auto split: obj.split intro!: scopes_kept.keeps_intros String_scopes)

lemma Error_scopes:
  "keeps same_scopes (Error_New_value fuel M P a)" "keeps same_scopes (Error_New_args fuel M P as)"
proof -
  show A: "keeps same_scopes (Error_New_value fuel M P a)" for a
    unfolding Error_New_value_def Error_New_def
    by (intro scopes_kept.keeps_intros String_scopes String_ValueOf_scopes new_obj_scopes)
  show "keeps same_scopes (Error_New_args fuel M P as)"
    unfolding Error_New_args_def by (intro scopes_kept.keeps_intros String_scopes new_obj_scopes A)
qed

lemma ToList_scopes: "keeps same_scopes (ToList M as r)"
proof -
  have "keeps same_scopes (push_all M as l)" for as l
    by (induction as arbitrary: l) (auto intro!: scopes_kept.keeps_intros Pair_scopes)
  then show ?thesis
    unfolding ToList_def by (intro scopes_kept.keeps_intros Null_scopes)
qed

lemma New_of_kind_scopes:
  assumes "\<And>k as. keeps same_scopes (ext k as)"
  shows "keeps same_scopes (New_of_kind fuel M P bt ext k as)"
proof -
  have "keeps same_scopes (Bool_New_args M as)"
    unfolding Bool_New_args_def
    by (intro scopes_kept.keeps_intros Bool_scopes Bool_Box_scopes ToList_scopes)
  moreover have "keeps same_scopes (String_New_args fuel M P bt as)"
    unfolding String_New_args_def
    by (intro scopes_kept.keeps_intros String_scopes;
        auto split: obj.split intro!: scopes_kept.keeps_intros String_scopes String_ValueOf_scopes)
  ultimately show ?thesis
    unfolding New_of_kind_def
    by (intro scopes_kept.keeps_intros Null_scopes Error_scopes assms)
qed

lemma NewInstance_scopes:
  assumes "\<And>k as. keeps same_scopes (ext k as)"
  shows "keeps same_scopes (NewInstance fuel M P bt ext cls as)"
proof -
  have "keeps same_scopes (new_instance_loop fuel M P bt ext cls as ks)" for ks
    by (induction ks)
      (auto intro!: scopes_kept.keeps_intros GetClass_scopes New_of_kind_scopes assms)
  then show ?thesis
    unfolding NewInstance_def by (intro scopes_kept.keeps_intros GetClass_scopes)
qed

section \<open>Scopes only grow, and keep their parents\<close>

definition fresh_scopes :: "scopes \<Rightarrow> bool" where
  "fresh_scopes sc \<longleftrightarrow> (\<forall>i\<ge>sc_next sc. sc_map sc i = None)"

definition parents_kept :: "scopes \<Rightarrow> scopes \<Rightarrow> bool" where
  "parents_kept sc sc' \<longleftrightarrow> (fresh_scopes sc \<longrightarrow> fresh_scopes sc' \<and>
    (\<forall>i s. sc_map sc i = Some s \<longrightarrow> (\<exists>s'. sc_map sc' i = Some s' \<and> sc_parent s' = sc_parent s)))"

interpretation parents: kept parents_kept
proof unfold_locales
  show "parents_kept s u" if "parents_kept s t" "parents_kept t u" for s t u
    using that unfolding parents_kept_def by (metis (no_types, lifting))
qed (simp add: parents_kept_def)

lemma same_map_parents:
  "sc_map sc' = sc_map sc \<Longrightarrow> sc_next sc' = sc_next sc \<Longrightarrow> parents_kept sc sc'"
  by (simp add: parents_kept_def fresh_scopes_def)

lemma LocalScope_New_parents: "keeps parents_kept (\<lambda>sc. Inr (LocalScope_New p sc))"
  by (auto simp: keeps_def parents_kept_def fresh_scopes_def LocalScope_New_def new_LocalScope_def)

lemma new_LocalVariable_parents: "keeps parents_kept (new_LocalVariable owner idx name v)"
  by (auto simp: keeps_def new_LocalVariable_def rbind_eq_Inr intro: same_map_parents)

lemma LocalVariable_New_parents: "keeps parents_kept (LocalVariable_New owner name v)"
  using new_LocalVariable_parents
  by (auto simp: keeps_def LocalVariable_New_def rbind_eq_Inr guardr_eq_Inr)

lemma get_scope_Inr: "get_scope sc i = Inr s \<longleftrightarrow> sc_map sc i = Some s"
  by (simp add: get_scope_def split: option.split)

lemma Add_local_parents: "keeps parents_kept (Add_local i l)"
  unfolding keeps_def Add_local_def
  by (auto simp: rbind_eq_Inr Let_def upd_local_def parents_kept_def fresh_scopes_def get_scope_Inr
      split: if_splits)

lemma SetValue_parents: "parents_kept sc (upd_local l v sc)"
  by (rule same_map_parents) (simp_all add: upd_local_def)

lemma Add_name_parents: "keeps parents_kept (Add_name i name v)"
proof (rule keepsI)
  fix sc b sc' assume r: "Add_name i name v sc = Inr (b, sc')"
  show "parents_kept sc sc'"
  proof (cases "Lookup sc i name False")
    case (Inr found)
    show ?thesis
    proof (cases found)
      case None
      then obtain idx l sc1 where
        "new_LocalVariable (Some i) idx name v sc = Inr (l, sc1)" "Add_local i l sc1 = Inr (b, sc')"
        using r Inr by (auto simp: Add_name_def guardr_eq_Inr rbind_eq_Inr split: prod.splits)
      then show ?thesis
        using new_LocalVariable_parents [THEN keepsD] Add_local_parents [THEN keepsD] parents.kept_trans
        by blast
    next
      case (Some l)
      then show ?thesis
        using r Inr SetValue_parents parents.kept_refl
        by (auto simp: Add_name_def guardr_eq_Inr rbind_eq_Inr split: if_splits)
    qed
  qed (use r in \<open>simp add: Add_name_def guardr_eq_Inr\<close>)
qed

lemma Add_scope_parents: "keeps parents_kept (Add_scope native i other)"
proof -
  have loop: "Add_scope_loop native i ls n sc = Inr (m, sc') \<Longrightarrow> parents_kept sc sc'" for ls n m sc sc'
  proof (induction native i ls n sc arbitrary: m sc' rule: Add_scope_loop.induct)
    case (1 native i n sc)
    then show ?case by (simp add: parents.kept_refl)
  next
    case (2 native i l ls n sc)
    then obtain v nat where v: "get_local sc l = Inr v"
      and nat: "(if HasValue v then native (GetValue v) else Inr False) = Inr nat"
      by (auto simp: rbind_eq_Inr)
    show ?case
    proof (cases nat)
      case True
      then show ?thesis using 2 v nat by simp
    next
      case False
      then obtain b sc1 where a: "Add_name i (lv_name v) (GetValue v) sc = Inr (b, sc1)"
        and l: "Add_scope_loop native i ls (if b then n + 1 else n) sc1 = Inr (m, sc')"
        using 2(3) v nat by (auto simp: rbind_eq_Inr)
      have "parents_kept sc1 sc'"
        using 2(2) [OF v nat False a refl l] .
      then show ?thesis using Add_name_parents [THEN keepsD, OF a] parents.kept_trans by blast
    qed
  qed
  show ?thesis
    unfolding keeps_def Add_scope_def using loop by (auto simp: rbind_eq_Inr)
qed

section \<open>What a call keeps for its caller\<close>

text \<open>The frames below, the frame on top but for its stack of values, the scope and the parents of
  all scopes.\<close>

abbreviation scopes_of :: "runtime \<Rightarrow> scopes" where
  "scopes_of rt \<equiv> st_scopes (rt_store rt)"

definition callers :: "runtime \<Rightarrow> frame list" where
  "callers rt = (case rt_frames rt of [] \<Rightarrow> [] | f # fs \<Rightarrow> f\<lparr>fr_stack := []\<rparr> # fs)"

definition same_caller :: "runtime \<Rightarrow> runtime \<Rightarrow> bool" where
  "same_caller s t \<longleftrightarrow> (fresh_scopes (scopes_of s) \<longrightarrow>
    parents_kept (scopes_of s) (scopes_of t) \<and> rt_scope t = rt_scope s \<and> callers t = callers s)"

interpretation caller: kept same_caller
proof unfold_locales
  show "same_caller s s" for s by (simp add: same_caller_def parents.kept_refl)
  show "same_caller s u" if "same_caller s t" "same_caller t u" for s t u
  proof -
    have "fresh_scopes (scopes_of t)" if "fresh_scopes (scopes_of s)"
      using \<open>same_caller s t\<close> that by (simp add: same_caller_def parents_kept_def)
    then show ?thesis
      using that parents.kept_trans unfolding same_caller_def by metis
  qed
qed

lemma on_scopes_caller: "keeps parents_kept m \<Longrightarrow> keeps same_caller (on_scopes m)"
  unfolding on_scopes_def on_store_def
  by (rule keeps_on_part [OF keeps_on_part [of _ _ st_scopes "\<lambda>st st'. parents_kept (st_scopes st) (st_scopes st')"]])
    (assumption, simp_all add: same_caller_def callers_def)

lemma on_store_caller: "keeps same_scopes m \<Longrightarrow> keeps same_caller (on_store m)"
  unfolding on_store_def
  by (erule keeps_on_part) (simp add: same_caller_def callers_def parents.kept_refl)

lemma reads_caller: "keeps same_caller (stored f)" "keeps same_caller (scoped g)"
  unfolding scoped_def stored_def by (rule caller.keeps_reads)+

lemma modifies_caller:
  "(\<And>rt. rt_store (f rt) = rt_store rt \<and> rt_scope (f rt) = rt_scope rt \<and> callers (f rt) = callers rt)
    \<Longrightarrow> keeps same_caller (modifies f)"
  by (simp add: keeps_def op_simps same_caller_def parents.kept_refl)

lemma set_stack_simps [simp]:
  "callers (set_stack vs rt) = callers rt" "rt_store (set_stack vs rt) = rt_store rt"
  "rt_scope (set_stack vs rt) = rt_scope rt"
  by (simp_all add: set_stack_def callers_def split: list.split)

lemma stack_caller:
  "keeps same_caller (stack_Push v)" "keeps same_caller stack_Pop"
  "keeps same_caller (stack_PopOr v)" "keeps same_caller stack_GetTop"
  "keeps same_caller pop_value" "keeps same_caller pop_deref"
proof -
  show "keeps same_caller (stack_Push v)"
    unfolding stack_Push_def by (intro caller.keeps_intros modifies_caller) simp
  show p: "keeps same_caller stack_Pop"
    unfolding stack_Pop_def by (intro caller.keeps_intros modifies_caller) simp
  show "keeps same_caller (stack_PopOr v)" "keeps same_caller pop_value" "keeps same_caller pop_deref"
    unfolding stack_PopOr_def pop_value_def pop_deref_def by (intro caller.keeps_intros p)+
  show "keeps same_caller stack_GetTop"
    unfolding stack_GetTop_def by (intro caller.keeps_intros)
qed

lemma current_caller:
  "keeps same_caller (modifies (\<lambda>rt. rt\<lparr>rt_current := f rt\<rparr>))"
  "keeps same_caller (modifies (\<lambda>rt. rt\<lparr>rt_result := f rt\<rparr>))"
  by (rule modifies_caller, simp add: callers_def)+

lemma set_current_caller: "keeps same_caller (set_current a)"
  unfolding set_current_def by (rule current_caller)

lemmas store_caller = Null_scopes [THEN on_store_caller] Bool_Box_scopes [THEN on_store_caller]
  Bool_scopes [THEN on_store_caller] Long_New_scopes [THEN on_store_caller]
  Arith_scopes [THEN on_store_caller] And_Or_scopes [THEN on_store_caller]
  Pair_scopes [THEN on_store_caller] GetClass_scopes [THEN on_store_caller]
  SetField_scopes [THEN on_store_caller] Symbol_New_text_scopes [THEN on_store_caller]

lemmas caller_intros = caller.keeps_intros reads_caller stack_caller current_caller
  set_current_caller store_caller

lemma next_caller:
  "keeps same_caller rt_NextBytecode" "keeps same_caller rt_NextUWord"
  "keeps same_caller rt_NextWord" "keeps same_caller (NextLong W)"
  "keeps same_caller NextClass" "keeps same_caller NextField"
  unfolding rt_NextBytecode_def rt_NextUWord_def rt_NextWord_def NextLong_def NextClass_def
    NextField_def assert_object_def
  by (intro caller_intros)+

lemma push_caller: "keeps same_caller (push W v)"
  unfolding push_def by (intro caller_intros)

lemma locals_caller: "keeps same_caller (LoadLocal W idx)" "keeps same_caller (StoreLocal idx)"
proof -
  have s: "keeps same_caller current_scope"
    unfolding current_scope_def by (intro caller_intros)
  show "keeps same_caller (LoadLocal W idx)"
    unfolding LoadLocal_def by (intro caller_intros s push_caller)
  have v: "keeps parents_kept (\<lambda>sc. rbind (SetValue x v) (\<lambda>v'. Inr ((), upd_local l v' sc)))" for x v l
    by (auto simp: keeps_def rbind_eq_Inr intro: SetValue_parents)
  show "keeps same_caller (StoreLocal idx)"
    unfolding StoreLocal_def by (intro caller_intros s on_scopes_caller v)
qed

section \<open>Operations that leave the frames alone\<close>

abbreviation same_frames :: "runtime \<Rightarrow> runtime \<Rightarrow> bool" where
  "same_frames \<equiv> \<lambda>s t. same_caller s t \<and> rt_frames t = rt_frames s"

interpretation quiet: kept same_frames
  by unfold_locales (auto intro: caller.kept_refl caller.kept_trans)

lemma on_store_frames: "on_store m s = Inr (x, t) \<Longrightarrow> rt_frames t = rt_frames s"
  by (auto simp: on_store_def op_simps rbind_eq_Inr)

lemma part_quiet:
  "keeps parents_kept m \<Longrightarrow> keeps same_frames (on_scopes m)"
  "keeps same_scopes k \<Longrightarrow> keeps same_frames (on_store k)"
proof -
  show "keeps same_frames (on_scopes m)" if "keeps parents_kept m"
    using keepsD [OF on_scopes_caller [OF that]] on_store_frames
    by (intro keepsI) (simp add: on_scopes_def)
  show "keeps same_frames (on_store k)" if "keeps same_scopes k"
    using keepsD [OF on_store_caller [OF that]] on_store_frames by (intro keepsI) simp
qed

lemma reads_quiet: "keeps same_frames (stored f)" "keeps same_frames (scoped g)"
  unfolding scoped_def stored_def by (rule quiet.keeps_reads)+

lemmas quiet_intros = quiet.keeps_intros reads_quiet
  part_quiet(2) [OF Null_scopes] part_quiet(2) [OF Symbol_New_text_scopes]

lemma add_local_quiet: "keeps same_frames (add_local scope sy v)"
  unfolding add_local_def
  by (intro quiet_intros part_quiet LocalVariable_New_parents Add_local_parents)

lemma bind_quiet:
  "keeps same_frames (bind_parameters W scope ps args)"
  "keeps same_frames (bind_native_args W scope idx args)"
proof -
  show "keeps same_frames (bind_parameters W scope ps args)"
    by (induction ps arbitrary: args)
      (auto intro!: quiet_intros add_local_quiet split: list.split)
  show "keeps same_frames (bind_native_args W scope idx args)"
    by (induction W scope idx args rule: bind_native_args.induct)
      (auto intro!: quiet_intros part_quiet(1) Add_name_parents)
qed

lemma import_scope_quiet: "keeps same_frames (import_scope scope other)"
  unfolding import_scope_def by (intro quiet_intros part_quiet Add_scope_parents)

section \<open>What a call returns\<close>

text \<open>One value, on the stack of the caller or, from outside, as the runtime's result.\<close>

definition returns :: "runtime \<Rightarrow> runtime \<Rightarrow> uword \<Rightarrow> bool" where
  "returns s t v \<longleftrightarrow> v \<noteq> 0 \<and>
    (case rt_frames s of
       [] \<Rightarrow> rt_frames t = [] \<and> rt_result t = v
     | f # fs \<Rightarrow> rt_frames t = f\<lparr>fr_stack := v # fr_stack f\<rparr> # fs)"

definition returned :: "runtime \<Rightarrow> runtime \<Rightarrow> bool" where
  "returned s t \<longleftrightarrow> (fresh_scopes (scopes_of s) \<longrightarrow>
    parents_kept (scopes_of s) (scopes_of t) \<and> rt_scope t = rt_scope s \<and> (\<exists>v. returns s t v))"

lemma returned_caller: "returned s t \<Longrightarrow> same_caller s t"
  by (auto simp: returned_def same_caller_def returns_def callers_def split: list.splits)

lemma keeps_returned_caller: "keeps returned m \<Longrightarrow> keeps same_caller m"
  by (auto simp: keeps_def intro: returned_caller)

lemma quiet_returned:
  assumes q: "same_frames s t" and r: "returned t u"
  shows "returned s u"
  unfolding returned_def
proof
  assume "fresh_scopes (scopes_of s)"
  then have t: "parents_kept (scopes_of s) (scopes_of t)" "rt_scope t = rt_scope s"
    "fresh_scopes (scopes_of t)" "rt_frames t = rt_frames s"
    using q by (simp_all add: same_caller_def parents_kept_def)
  moreover from this r obtain v where "parents_kept (scopes_of t) (scopes_of u)"
    "rt_scope u = rt_scope t" "returns t u v"
    by (auto simp: returned_def)
  moreover from this t(4) have "returns s u v" by (simp add: returns_def)
  ultimately show "parents_kept (scopes_of s) (scopes_of u) \<and> rt_scope u = rt_scope s \<and> (\<exists>v. returns s u v)"
    using parents.kept_trans by auto
qed

lemma returned_sthen: "keeps same_frames m \<Longrightarrow> keeps returned k \<Longrightarrow> keeps returned (sthen m k)"
  unfolding keeps_def sthen_Inr using quiet_returned by blast

lemma returned_sbind:
  "keeps same_frames m \<Longrightarrow> (\<And>x. keeps returned (f x)) \<Longrightarrow> keeps returned (sbind m f)"
  unfolding keeps_def sbind_Inr using quiet_returned by blast

lemma returned_fails: "keeps returned (fails e)"
  by (simp add: keeps_def op_simps)

text \<open>A scope around a call that returns.\<close>

lemma returned_scope:
  assumes "\<And>i. keeps returned (body i)"
  shows "keeps returned (sbind PushScope (\<lambda>i. sthen (body i) PopScope))"
proof (rule keepsI)
  fix s x u assume "sbind PushScope (\<lambda>i. sthen (body i) PopScope) s = Inr (x, u)"
  then obtain i s1 y t where p: "PushScope s = Inr (i, s1)" and b: "body i s1 = Inr (y, t)"
    and q: "PopScope t = Inr (x, u)"
    by (auto simp: op_elims)
  show "returned s u"
    unfolding returned_def
  proof
    assume f: "fresh_scopes (scopes_of s)"
    have s1: "rt_frames s1 = rt_frames s" "rt_scope s1 = Some i" "fresh_scopes (scopes_of s1)"
      "sc_map (scopes_of s1) i = Some \<lparr>sc_parent = rt_scope s, sc_locals = []\<rparr>"
      "parents_kept (scopes_of s) (scopes_of s1)"
      using p f by (auto simp: PushScope_def on_scopes_def on_store_def op_simps LocalScope_New_def
          new_LocalScope_def fresh_scopes_def parents_kept_def)
    have "returned s1 t" using assms b by (rule keepsD)
    then have t: "parents_kept (scopes_of s1) (scopes_of t)" "rt_scope t = Some i"
      "\<exists>v. returns s1 t v"
      using s1 by (auto simp: returned_def)
    obtain sc where sc: "sc_map (scopes_of t) i = Some sc" "sc_parent sc = rt_scope s"
      using t(1) s1(3,4) unfolding parents_kept_def by fastforce
    have u: "u = t\<lparr>rt_scope := rt_scope s\<rparr>"
      using q sc t(2) by (simp add: PopScope_def scoped_def stored_def op_simps get_scope_def)
    show "parents_kept (scopes_of s) (scopes_of u) \<and> rt_scope u = rt_scope s \<and> (\<exists>v. returns s u v)"
      using t parents.kept_trans [OF s1(5) t(1)] s1(1) by (auto simp: u returns_def split: list.splits)
  qed
qed

lemma callers_Cons:
  assumes "callers t = callers s" "rt_frames s = f # fs"
  shows "\<exists>vs. rt_frames t = f\<lparr>fr_stack := vs\<rparr> # fs"
proof (cases "rt_frames t")
  case (Cons g gs)
  then have e: "gs = fs" "g\<lparr>fr_stack := []\<rparr> = f\<lparr>fr_stack := []\<rparr>"
    using assms by (simp_all add: callers_def)
  have "g = f\<lparr>fr_stack := fr_stack g\<rparr>"
    using e(2) by (cases f; cases g) simp
  then have "rt_frames t = f\<lparr>fr_stack := fr_stack g\<rparr> # fs"
    using Cons e(1) by simp
  then show ?thesis ..
qed (use assms in \<open>simp add: callers_def\<close>)

text \<open>A frame: whatever the callee does on its own frame is gone afterwards.\<close>

lemma frame_returned:
  assumes "keeps same_caller m"
    and r: "sthen (PushStackFrame tg locals) (sthen m (finish_call W)) s = Inr (x, u)"
  shows "returned s u"
proof -
  obtain s1 y t where p: "PushStackFrame tg locals s = Inr ((), s1)" and b: "m s1 = Inr (y, t)"
    and q: "finish_call W t = Inr ((), u)"
    using r by (auto simp: op_elims)
  show ?thesis
    unfolding returned_def
  proof
    assume f: "fresh_scopes (scopes_of s)"
    obtain fr where fr: "rt_frames s1 = fr # rt_frames s" "rt_store s1 = rt_store s" "rt_scope s1 = rt_scope s"
      using p by (auto simp: PushStackFrame_def op_simps)
    have "same_caller s1 t" using assms(1) b by (rule keepsD)
    then have t: "parents_kept (scopes_of s) (scopes_of t)" "rt_scope t = rt_scope s" "callers t = callers s1"
      using f fr by (auto simp: same_caller_def)
    then obtain vs where vs: "rt_frames t = fr\<lparr>fr_stack := vs\<rparr> # rt_frames s"
      using callers_Cons [OF _ fr(1)] by blast
    obtain v t2 where t2: "(case vs of v # _ \<Rightarrow> ret v | [] \<Rightarrow> on_store (Null (w_machine W)))
        (t\<lparr>rt_frames := rt_frames s\<rparr>) = Inr (v, t2)"
      and v: "v \<noteq> 0" and u: "rt_store u = rt_store t2" "rt_scope u = rt_scope t2" "returns t2 u v"
      using q vs by (auto simp: finish_call_def PopStackFrame_def op_simps rbind_eq_Inr guardr_eq_Inr
          stack_Push_def GetOperationStack_def set_stack_def returns_def split: list.splits if_splits prod.splits)
    have "same_frames (t\<lparr>rt_frames := rt_frames s\<rparr>) t2"
      using t2 by (rule keepsD [rotated]) (intro quiet_intros)
    then have t2': "parents_kept (scopes_of t) (scopes_of t2)" "rt_scope t2 = rt_scope t"
      "rt_frames t2 = rt_frames s"
      using t(1) f by (simp_all add: same_caller_def parents_kept_def)
    then show "parents_kept (scopes_of s) (scopes_of u) \<and> rt_scope u = rt_scope s \<and> (\<exists>v. returns s u v)"
      using t(2) u parents.kept_trans [OF t(1) t2'(1)] by (auto simp: returns_def)
  qed
qed

text \<open>The new frame is not the one the guard has seen: it must be gone when the block ends.\<close>

lemma frame_key_Push: "PushStackFrame tg locals s = Inr ((), u) \<Longrightarrow> frame_key s \<noteq> frame_key u"
proof -
  assume "PushStackFrame tg locals s = Inr ((), u)"
  then have "u = s\<lparr>rt_frames :=
      \<lparr>fr_id = next_frame_id s, fr_target = tg, fr_locals = locals, fr_return = rt_current s, fr_stack = []\<rparr> # rt_frames s\<rparr>"
    by (simp add: PushStackFrame_def op_simps)
  then show ?thesis by (simp add: frame_key_def next_frame_id_def split: list.split)
qed

lemma guarded_frame:
  "guarded (PushStackFrame tg locals) m s =
    (case sthen (PushStackFrame tg locals) m s of
       Inl (GelException x) \<Rightarrow> Inl LogFatal
     | Inl e \<Rightarrow> Inl e
     | Inr (_, t) \<Rightarrow> guardr LogFatal (frame_key s = frame_key t) (Inr ((), t)))"
proof -
  obtain u where u: "PushStackFrame tg locals s = Inr ((), u)" by (auto simp: PushStackFrame_def op_simps)
  show ?thesis
    using frame_key_Push [OF u]
    by (auto simp: guarded_def op_simps u unwinding_def split: sum.split failure.split)
qed

lemma returned_frame:
  assumes "keeps same_caller m"
  shows "keeps returned (guarded (PushStackFrame tg locals) (sthen m (finish_call W)))"
  using frame_returned [OF assms]
  by (auto simp: keeps_def guarded_frame guardr_eq_Inr split: sum.splits failure.splits)

section \<open>Calls\<close>

text \<open>What is asked of the code outside the runtime: native procedures keep what the calls they
  make keep, the compiler and the events leave the frames as they are.\<close>

definition world_ok :: "world \<Rightarrow> bool" where
  "world_ok W \<longleftrightarrow>
    (\<forall>call n args. (\<forall>a as. keeps same_caller (call a as)) \<longrightarrow> keeps same_caller (w_native W call n args)) \<and>
    (\<forall>a scope. keeps same_frames (w_compile W a scope)) \<and>
    keeps same_caller (w_events W) \<and> (\<forall>k args. keeps same_scopes (w_new W k args))"

lemma sthen_assoc: "sthen (sthen m j) k = sthen m (sthen j k)" "sthen (sbind m f) k = sbind m (\<lambda>x. sthen (f x) k)"
  by (simp_all add: sthen_def sbind_assoc)

lemma Call_Lambda_returned:
  assumes "world_ok W" "\<And>a. keeps same_caller (run a)"
  shows "keeps returned (Call_Lambda W run a args)"
proof -
  define body where "body locals =
    sbind (stored (lambda_at a)) (\<lambda>lm.
    sbind (if lm_symbol lm \<noteq> 0 then ret (lm_symbol lm)
           else on_store (Symbol_New_text (w_machine W) ''$'')) (\<lambda>self.
    sthen (add_local locals self a)
      (sthen (sassert (length (lm_args lm) = length args))
        (sthen (bind_parameters W locals (rev (lm_args lm)) args)
          (sthen (if IsAllocated (lm_code lm) then ret ()
                  else sbind (w_compile W a locals) (\<lambda>ok. sguard LogFatal ok))
            (guarded (PushStackFrame (TLambda a) locals)
              (sthen (sbind (stored (lambda_at a)) (\<lambda>compiled. run (r_start (lm_code compiled))))
                (finish_call W))))))))" for locals
  have "keeps returned (body locals)" for locals
    unfolding body_def using assms
    by (intro returned_sbind returned_sthen returned_frame quiet_intros add_local_quiet bind_quiet caller_intros)
      (simp_all add: world_ok_def)
  then have "keeps returned (sthen (sassert (a \<noteq> 0)) (sbind PushScope (\<lambda>i. sthen (body i) PopScope)))"
    by (intro returned_sthen returned_scope quiet_intros)
  then show ?thesis by (simp add: body_def Call_Lambda_def sthen_assoc)
qed

lemma Call_Native_returned:
  assumes "world_ok W" "\<And>a as. keeps same_caller (call a as)"
  shows "keeps returned (Call_Native W call a args)"
proof -
  define body where "body entry locals =
    sthen (bind_native_args W locals 0 args)
      (guarded (PushStackFrame (TNative a) locals)
        (sthen (sbind (w_native W call entry args) (\<lambda>ok. sguard LogFatal ok)) (finish_call W)))"
    for entry locals
  have "keeps returned (body entry locals)" for entry locals
    unfolding body_def using assms
    by (intro returned_sthen returned_frame bind_quiet caller_intros) (simp add: world_ok_def)
  then have s: "keeps returned (sbind PushScope (\<lambda>i. sthen (body entry i) PopScope))" for entry
    by (rule returned_scope)
  have "keeps returned (sthen (sassert (a \<noteq> 0)) (sbind (stored (native_at a)) (\<lambda>nv.
      case nv_entry nv of None \<Rightarrow> fails AssertFailed
      | Some entry \<Rightarrow> sbind PushScope (\<lambda>i. sthen (body entry i) PopScope))))"
    using s by (intro returned_sthen returned_sbind quiet_intros)
      (simp add: returned_fails split: option.split)
  then show ?thesis by (simp add: body_def Call_Native_def sthen_assoc cong: option.case_cong)
qed

lemma Call_Script_returned:
  assumes "\<And>a. keeps same_caller (run a)"
  shows "keeps returned (Call_Script W run a)"
proof -
  define body where "body sp locals =
    sthen (case sp_scope sp of None \<Rightarrow> fails AssertFailed | Some sc \<Rightarrow> import_scope locals sc)
      (guarded (PushStackFrame (TScript a) locals)
        (sthen (run (r_start (sp_code sp))) (finish_call W)))" for sp :: script and locals
  have "keeps returned (body sp locals)" for sp locals
    unfolding body_def using assms
    by (intro returned_sthen returned_frame quiet_intros import_scope_quiet)
  then have "keeps returned (sthen (sassert (a \<noteq> 0)) (sbind (stored (script_at a)) (\<lambda>sp.
      sthen (sassert (IsAllocated (sp_code sp))) (sbind PushScope (\<lambda>i. sthen (body sp i) PopScope)))))"
    by (intro returned_sthen returned_sbind returned_scope quiet_intros)
  then show ?thesis by (simp add: body_def Call_Script_def sthen_assoc)
qed

lemma Call_Procedure_returned:
  assumes "world_ok W" "\<And>a. keeps same_caller (run a)" "\<And>a as. keeps same_caller (call a as)"
  shows "keeps returned (Call_Procedure W run call a args)"
  unfolding Call_Procedure_def
  by (intro returned_sbind reads_quiet)
    (auto split: obj.split intro: Call_Lambda_returned Call_Native_returned returned_fails assms)

lemma take_arguments_caller: "keeps same_caller (take_arguments W ps n)"
proof -
  have p: "keeps same_caller (pop_values n)" for n
    by (induction n) (auto intro!: caller_intros)
  have c: "keeps same_caller (collect_args ps r as)" for ps r as
    by (induction ps r as rule: collect_args.induct) (auto intro!: caller_intros p)
  have z: "keeps same_caller (push_nulls W n)" for n
    by (induction n) (auto intro!: caller_intros)
  show ?thesis
    unfolding take_arguments_def by (intro caller_intros c z)
qed

lemma PopN_caller: "keeps same_caller (stack_PopN W n r)"
proof -
  have "keeps same_caller (pop_loop W n)" for n
    by (induction n) (auto intro!: caller_intros)
  then show ?thesis
    unfolding stack_PopN_def by (intro caller_intros)
qed

section \<open>Instructions\<close>

lemma exec_caller:
  "keeps same_caller (exec_Push W x)" "keeps same_caller exec_Pop" "keeps same_caller (PopLookup W)"
  "keeps same_caller exec_Throw" "keeps same_caller (CheckInstance c)"
  "keeps same_caller (ExecUnaryOp W x)" "keeps same_caller (exec_Jump fuel W x t)"
  "keeps same_caller (StoreField f)" "keeps same_caller (LoadField W f)"
proof -
  have l: "keeps same_caller (exec_Lookup W sy)" for sy
    unfolding exec_Lookup_def by (intro caller_intros push_caller)
  show "keeps same_caller (PopLookup W)"
    unfolding PopLookup_def by (intro caller_intros l)
  show "keeps same_caller (exec_Push W x)"
    unfolding exec_Push_def by (cases x) (auto intro!: caller_intros next_caller push_caller)
  show "keeps same_caller exec_Pop" "keeps same_caller (CheckInstance c)"
      "keeps same_caller (StoreField f)" "keeps same_caller (LoadField W f)"
    unfolding exec_Pop_def CheckInstance_def StoreField_def LoadField_def
    by (intro caller_intros push_caller)+
  show "keeps same_caller exec_Throw"
    unfolding exec_Throw_def by (intro caller_intros) (auto split: obj.split intro!: caller_intros)
  show "keeps same_caller (ExecUnaryOp W x)"
    unfolding ExecUnaryOp_def by (cases x) (auto intro!: caller_intros push_caller)
  show "keeps same_caller (exec_Jump fuel W x t)"
    unfolding exec_Jump_def by (cases x) (auto intro!: caller_intros)
qed

lemma ExecBinaryOp_caller: "keeps same_caller (ExecBinaryOp fuel W x)"
proof -
  have c: "keeps same_caller (compare_with W p a b)" for p a b
    unfolding compare_with_def by (intro caller_intros)
  show ?thesis
    unfolding ExecBinaryOp_def
    by (intro caller_intros push_caller; cases x)
      (auto simp: assert_object_def intro!: caller_intros c)
qed

lemma world_caller:
  assumes "world_ok W"
  shows "keeps same_caller (Cast W c)" "keeps same_caller (exec_New fuel W c n)"
proof -
  have n: "keeps same_scopes (w_new W k as)" for k as
    using assms by (simp add: world_ok_def)
  show "keeps same_caller (Cast W c)"
    unfolding Cast_def by (intro caller_intros push_caller on_store_caller n)
  show "keeps same_caller (exec_New fuel W c n)"
    unfolding exec_New_def
    by (intro caller_intros PopN_caller push_caller on_store_caller NewInstance_scopes n)
qed

lemma Invoke_caller:
  assumes "world_ok W" "\<And>a. keeps same_caller (run a)" "\<And>a as. keeps same_caller (call a as)"
  shows "keeps same_caller (Invoke W run call x)"
proof -
  have "keeps same_caller (CallWithNArgs_Lambda W run a n)" "keeps same_caller (CallWithNArgs_Native W call a n)" for a n
    unfolding CallWithNArgs_Lambda_def CallWithNArgs_Native_def
    by (intro caller_intros take_arguments_caller keeps_returned_caller Call_Lambda_returned
        Call_Native_returned assms)+
  then show ?thesis
    unfolding Invoke_def assert_object_def
    by (intro caller_intros next_caller) (auto split: obj.split intro!: caller_intros)
qed

lemma exec_op_caller:
  assumes "world_ok W" "\<And>a. keeps same_caller (run a)" "\<And>a as. keeps same_caller (call a as)"
  shows "keeps same_caller (exec_op fuel W run call address pos x)"
proof -
  have "keeps same_caller (w_events W)" using assms(1) by (simp add: world_ok_def)
  then show ?thesis
    unfolding exec_op_def goes_on_def
    by (intro caller_intros exec_caller ExecBinaryOp_caller world_caller Invoke_caller next_caller
        locals_caller assms)
qed

lemma step_caller:
  assumes "world_ok W" "\<And>a. keeps same_caller (run a)" "\<And>a as. keeps same_caller (call a as)"
  shows "keeps same_caller (step fuel W run call address)"
  unfolding step_def by (intro caller_intros next_caller exec_op_caller assms)

lemma run_caller:
  assumes "world_ok W"
  shows "keeps same_caller (run_loop n W a) \<and> keeps returned (call_procedure n W b args)"
proof (induction n arbitrary: a b args)
  case 0
  then show ?case by (auto intro: caller.keeps_fails returned_fails)
next
  case (Suc n)
  have r: "keeps same_caller (sthen (set_current c) (run_loop n W c))" for c
    using Suc by (intro caller_intros) auto
  have c: "keeps same_caller (call_procedure n W c as)" for c as
    using Suc keeps_returned_caller by blast
  have "keeps same_caller (run_loop (Suc n) W a)"
    using Suc by (auto intro!: caller_intros step_caller [OF assms r c])
  moreover have "keeps returned (call_procedure (Suc n) W b args)"
    using Call_Procedure_returned [OF assms r c] by simp
  ultimately show ?case ..
qed

section \<open>Arguments on the stack\<close>

lemma GetOperationStack_set [simp]:
  "GetOperationStack s = Inr ws \<Longrightarrow> GetOperationStack (set_stack vs s) = Inr vs"
  by (simp add: GetOperationStack_def set_stack_def split: list.splits)

lemma set_stack_same: "GetOperationStack s = Inr vs \<Longrightarrow> set_stack vs s = s"
  by (cases "rt_frames s"; cases s) (auto simp: GetOperationStack_def set_stack_def)

lemma set_stack_twice [simp]: "set_stack ws (set_stack vs s) = set_stack ws s"
  by (simp add: set_stack_def split: list.split)

lemma pop_value_run:
  "GetOperationStack s = Inr (v # vs) \<Longrightarrow> v \<noteq> 0 \<Longrightarrow> pop_value s = Inr (v, set_stack vs s)"
  by (simp add: pop_value_def stack_Pop_def op_simps)

text \<open>Parameters that are neither optional nor variable.\<close>

definition plain :: "argument \<Rightarrow> bool" where
  "plain p = (\<not> arg_optional p \<and> \<not> arg_vararg p)"

lemma collect_args_plain:
  assumes "\<forall>p\<in>set ps. plain p" "length vs = length ps" "0 \<notin> set vs"
    "GetOperationStack s = Inr (vs @ ws)" "int (length ps) \<le> r"
  shows "collect_args ps r as s = Inr ((r - int (length ps), as @ vs), set_stack ws s)"
  using assms
proof (induction ps arbitrary: vs r as s)
  case Nil
  then show ?case by (simp add: ret_apply set_stack_same)
next
  case (Cons p ps)
  then obtain v vs' where vs: "vs = v # vs'" "v \<noteq> 0" by (cases vs) auto
  have "pop_value s = Inr (v, set_stack (vs' @ ws) s)"
    using Cons.prems vs by (intro pop_value_run) simp_all
  moreover have "collect_args ps (r - 1) (as @ [v]) (set_stack (vs' @ ws) s) =
      Inr ((r - 1 - int (length ps), (as @ [v]) @ vs'), set_stack ws (set_stack (vs' @ ws) s))"
    using Cons.prems vs by (intro Cons.IH) auto
  ultimately show ?case
    using Cons.prems by (simp add: plain_def vs(1) sbind_apply algebra_simps)
qed

lemma collect_args_few:
  assumes "\<forall>p\<in>set ps. plain p" "length vs = n" "0 \<notin> set vs"
    "GetOperationStack s = Inr (vs @ ws)" "n < length ps"
  shows "collect_args ps (int n) as s = Inl LogFatal"
  using assms
proof (induction ps arbitrary: vs n as s)
  case (Cons p ps)
  show ?case
  proof (cases n)
    case 0
    then show ?thesis using Cons.prems by (simp add: plain_def fails_apply)
  next
    case (Suc m)
    then obtain v vs' where vs: "vs = v # vs'" "v \<noteq> 0" using Cons.prems by (cases vs) auto
    have "pop_value s = Inr (v, set_stack (vs' @ ws) s)"
      using Cons.prems vs by (intro pop_value_run) simp_all
    moreover have "collect_args ps (int m) (as @ [v]) (set_stack (vs' @ ws) s) = Inl LogFatal"
      using Cons.prems vs Suc by (intro Cons.IH) auto
    ultimately show ?thesis
      using Cons.prems by (simp add: plain_def Suc sbind_apply)
  qed
qed simp

text \<open>Taking the arguments of a call off the stack, for parameters that are neither optional
  nor variable: with too few arguments the call is fatal; otherwise the callee gets the last
  arguments in their order, one for each parameter, and surplus arguments, the first ones, stay
  on the caller's stack.\<close>

theorem take_arguments_plain:
  assumes "\<forall>p\<in>set ps. plain p" "GetOperationStack s = Inr (rev args @ ws)" "0 \<notin> set args"
    "length args < 2 ^ 63"
  shows "take_arguments W ps (of_nat (length args)) s =
    (if length args < length ps then Inl LogFatal
     else Inr (drop (length args - length ps) args,
               set_stack (rev (take (length args - length ps) args) @ ws) s))"
proof -
  let ?n = "length args" and ?k = "length args - length ps"
  have n: "sint (of_nat ?n :: uword) = int ?n"
    using assms(4) by (simp add: signed_of_nat signed_take_bit_int_eq_self)
  show ?thesis
  proof (cases "?n < length ps")
    case True
    then have "collect_args ps (int ?n) [] s = Inl LogFatal"
      using assms by (intro collect_args_few) auto
    then show ?thesis
      using True assms(2) n by (simp add: take_arguments_def op_simps)
  next
    case False
    have "rev args = rev (drop ?k args) @ rev (take ?k args)"
      by (simp flip: rev_append)
    then have "collect_args ps (int ?n) [] s =
        Inr ((int ?n - int (length ps), [] @ rev (drop ?k args)), set_stack (rev (take ?k args) @ ws) s)"
      using assms False by (intro collect_args_plain) (auto dest: in_set_dropD)
    then show ?thesis
      using False assms(2) n by (simp add: take_arguments_def op_simps)
  qed
qed

section \<open>Calls keep their caller\<close>

text \<open>C6. Whatever the code of a procedure does, a call that comes back leaves the caller as it
  was: the scope is the caller's again, the frames are the caller's, and the caller's stack has
  exactly one value more, which is not null; called from outside, the value is the runtime's
  result.\<close>

theorem call_keeps_caller:
  assumes "world_ok W" "fresh_scopes (scopes_of s)"
    and "call_procedure fuel W a args s = Inr ((), t)"
  shows "rt_scope t = rt_scope s \<and> fresh_scopes (scopes_of t) \<and>
    (\<exists>v. v \<noteq> 0 \<and>
      (case rt_frames s of
         [] \<Rightarrow> rt_frames t = [] \<and> rt_result t = v
       | f # fs \<Rightarrow> rt_frames t = f\<lparr>fr_stack := v # fr_stack f\<rparr> # fs))"
proof -
  have "returned s t"
    using run_caller [OF assms(1), THEN conjunct2] assms(3) by (rule keepsD)
  then show ?thesis
    using assms(2) by (simp add: returned_def returns_def parents_kept_def)
qed

lemma frame_key_callers: "callers t = callers s \<Longrightarrow> frame_key t = frame_key s"
  by (cases "rt_frames s"; cases "rt_frames t")
    (auto simp: callers_def frame_key_def, (metis frame.select_convs frame.surjective frame.update_convs(5))+)

text \<open>The check of a frame whose code keeps its callers.\<close>

lemma guard_of_frame:
  assumes "keeps same_caller m" "fresh_scopes (scopes_of s)"
  shows "guarded (PushStackFrame tg locals) (sthen m (finish_call W)) s =
    (case sthen (PushStackFrame tg locals) (sthen m (finish_call W)) s of
       Inl (GelException x) \<Rightarrow> Inl LogFatal | r \<Rightarrow> r)"
proof -
  have "frame_key t = frame_key s" if "sthen (PushStackFrame tg locals) (sthen m (finish_call W)) s = Inr (x, t)" for x t
  proof -
    have "returned s t"
      using frame_returned [OF assms(1) that] .
    then show ?thesis
      using assms(2) returned_caller by (intro frame_key_callers) (auto simp: same_caller_def)
  qed
  then show ?thesis
    by (auto simp: guarded_frame split: sum.split failure.split)
qed

text \<open>C17. The check of \<open>StackFrameGuard\<close>, for interpreted code and for native procedures alike: a call
  that returns passes it, so that it does the same with the check and without; a call that is left
  by a \<open>gel::Exception\<close> fails it, because its own frame is still there, and the process ends before
  a handler sees the exception.\<close>

theorem frame_guard_holds:
  assumes "world_ok W" "fresh_scopes (scopes_of s)"
  shows "guarded (PushStackFrame tg locals) (sthen (Run fuel W address) (finish_call W)) s =
      (case sthen (PushStackFrame tg locals) (sthen (Run fuel W address) (finish_call W)) s of
         Inl (GelException message) \<Rightarrow> Inl LogFatal | r \<Rightarrow> r) \<and>
    guarded (PushStackFrame tg locals)
        (sbind (w_native W (call_procedure fuel W) entry args) (\<lambda>ok. sthen (sguard LogFatal ok) (finish_call W))) s =
      (case sthen (PushStackFrame tg locals)
          (sbind (w_native W (call_procedure fuel W) entry args) (\<lambda>ok. sthen (sguard LogFatal ok) (finish_call W))) s of
         Inl (GelException message) \<Rightarrow> Inl LogFatal | r \<Rightarrow> r)"
proof
  have "keeps same_caller (Run fuel W address)"
    unfolding Run_def using run_caller [OF assms(1)] by (intro caller_intros) auto
  then show "guarded (PushStackFrame tg locals) (sthen (Run fuel W address) (finish_call W)) s =
      (case sthen (PushStackFrame tg locals) (sthen (Run fuel W address) (finish_call W)) s of
         Inl (GelException message) \<Rightarrow> Inl LogFatal | r \<Rightarrow> r)"
    using guard_of_frame assms(2) by blast
  have "keeps same_caller (call_procedure fuel W b as)" for b as
    using run_caller [OF assms(1)] keeps_returned_caller by blast
  then have "keeps same_caller (sbind (w_native W (call_procedure fuel W) entry args) (\<lambda>ok. sguard LogFatal ok))"
    using assms(1) by (intro caller_intros) (simp add: world_ok_def)
  from guard_of_frame [OF this assms(2)]
  show "guarded (PushStackFrame tg locals)
        (sbind (w_native W (call_procedure fuel W) entry args) (\<lambda>ok. sthen (sguard LogFatal ok) (finish_call W))) s =
      (case sthen (PushStackFrame tg locals)
          (sbind (w_native W (call_procedure fuel W) entry args) (\<lambda>ok. sthen (sguard LogFatal ok) (finish_call W))) s of
         Inl (GelException message) \<Rightarrow> Inl LogFatal | r \<Rightarrow> r)"
    by (simp only: sthen_assoc)
qed

section \<open>A concrete runtime\<close>

definition example_world :: world where
  "example_world =
    \<lparr>w_machine = example_machine, w_printer = \<lparr>pr_double = \<lambda>_. [], pr_set = map snd, pr_other = \<lambda>_. []\<rparr>,
     w_native = \<lambda>call n args. ret True, w_compile = \<lambda>a scope. ret False, w_events = ret (),
     w_buffer_text = \<lambda>a st. Inr [], w_new = \<lambda>k args. fails LogFatal\<rparr>"

definition example_store :: store where
  "example_store = example_objects\<lparr>
    st_objs := (st_objs example_objects)(
      8192 \<mapsto> OSymbol \<lparr>sym_ns = [], sym_type = [], sym_name = ''f''\<rparr>,
      8256 \<mapsto> OLambda (empty_lambda\<lparr>lm_symbol := 8192, lm_code := \<lparr>r_start = 16384, r_size = 2\<rparr>\<rparr>),
      8320 \<mapsto> OBool True),
    st_true := 8320\<rparr>"

definition example_runtime :: runtime where
  "example_runtime =
    \<lparr>rt_store = example_store, rt_code = [16384 \<mapsto> raw_of_op kPushT, 16385 \<mapsto> raw_of_op kRet],
     rt_current = 0, rt_init_scope = 0, rt_scope = None, rt_frames = [], rt_result = 0, rt_natives = [],
     rt_modules = [], rt_namespaces = [], rt_event_loop = 0, rt_output = []\<rparr>"

lemma example_world_ok: "world_ok example_world"
  by (simp add: world_ok_def example_world_def caller.keeps_ret caller.keeps_fails quiet.keeps_ret
      scopes_kept.keeps_fails)

theorem take_arguments_plain_witness:
  "take_arguments example_world [\<lparr>arg_index = 0, arg_name = ''x'', arg_optional = False, arg_vararg = False\<rparr>] 2
     (example_runtime\<lparr>rt_frames := [\<lparr>fr_id = 1, fr_target = TScript 64, fr_locals = 0, fr_return = 0, fr_stack = [4176, 4208, 4096]\<rparr>]\<rparr>) =
   Inr ([4176], example_runtime\<lparr>rt_frames := [\<lparr>fr_id = 1, fr_target = TScript 64, fr_locals = 0, fr_return = 0, fr_stack = [4208, 4096]\<rparr>]\<rparr>)"
  using take_arguments_plain [of "[\<lparr>arg_index = 0, arg_name = ''x'', arg_optional = False, arg_vararg = False\<rparr>]"
      "example_runtime\<lparr>rt_frames := [\<lparr>fr_id = 1, fr_target = TScript 64, fr_locals = 0, fr_return = 0, fr_stack = [4176, 4208, 4096]\<rparr>]\<rparr>"
      "[4208, 4176]" "[4096]" example_world]
  by (simp add: plain_def GetOperationStack_def set_stack_def)

lemma example_call:
  "\<exists>t. call_procedure (Suc (Suc (Suc 0))) example_world 8256 [] example_runtime = Inr ((), t)"
  by (simp add: Call_Procedure_def Call_Lambda_def stored_def scoped_def on_scopes_def on_store_def
      example_runtime_def example_store_def example_objects_def op_simps lambda_at_def obj_at_def PushScope_def LocalScope_New_def
      new_LocalScope_def empty_lambda_def add_local_def symbol_at_def LocalVariable_New_def empty_scopes_def
      get_scope_def new_LocalVariable_def GetFullyQualifiedName_def HasSymbolType_def HasNamespace_def SetValue_def header_size_def Add_local_def get_local_def Has_def
      Lookup_from.simps IsAllocated_def guarded_def unwinding_def PushStackFrame_def set_current_def step_def rt_NextBytecode_def read_byte_def
      exec_op_def goes_on_def exec_Push_def Bool_True_def push_def IsNull_def stack_Push_def GetOperationStack_def set_stack_def
      finish_call_def PopStackFrame_def PopScope_def example_world_def frame_key_def next_frame_id_def)

theorem call_keeps_caller_witness:
  "\<exists>t v. call_procedure 3 example_world 8256 [] example_runtime = Inr ((), t) \<and>
    rt_scope t = None \<and> rt_frames t = [] \<and> rt_result t = v \<and> v \<noteq> 0"
proof -
  have f: "fresh_scopes (scopes_of example_runtime)"
    by (simp add: example_runtime_def example_store_def example_objects_def fresh_scopes_def empty_scopes_def)
  obtain t where t: "call_procedure 3 example_world 8256 [] example_runtime = Inr ((), t)"
    using example_call by (auto simp: numeral_3_eq_3)
  have "rt_scope example_runtime = None" "rt_frames example_runtime = []"
    by (simp_all add: example_runtime_def)
  then show ?thesis
    using call_keeps_caller [OF example_world_ok f t] t by auto
qed

text \<open>A world whose native procedures throw, a frame of compiled code and one of a native
  procedure.\<close>

definition throwing_world :: world where
  "throwing_world = example_world\<lparr>w_native := \<lambda>call n args. fails (GelException ''expected a Long'')\<rparr>"

lemma throwing_world_ok: "world_ok throwing_world"
  by (simp add: world_ok_def throwing_world_def example_world_def caller.keeps_fails quiet.keeps_ret
      caller.keeps_ret scopes_kept.keeps_fails)

lemma example_frame:
  "\<exists>t. sthen (PushStackFrame (TLambda 8256) 0) (sthen (Run (Suc (Suc 0)) throwing_world 16384) (finish_call throwing_world))
    example_runtime = Inr ((), t)"
  by (simp add: Run_def throwing_world_def stored_def on_store_def example_runtime_def example_store_def
      example_objects_def op_simps obj_at_def PushStackFrame_def set_current_def step_def rt_NextBytecode_def read_byte_def
      exec_op_def goes_on_def exec_Push_def Bool_True_def push_def IsNull_def stack_Push_def GetOperationStack_def
      set_stack_def finish_call_def PopStackFrame_def example_world_def next_frame_id_def)

theorem frame_guard_holds_witness:
  "(\<exists>t. guarded (PushStackFrame (TLambda 8256) 0) (sthen (Run 2 throwing_world 16384) (finish_call throwing_world))
      example_runtime = Inr ((), t)) \<and>
    guarded (PushStackFrame (TNative 8256) 0)
      (sbind (w_native throwing_world (call_procedure 2 throwing_world) 0 [])
        (\<lambda>ok. sthen (sguard LogFatal ok) (finish_call throwing_world))) example_runtime = Inl LogFatal"
proof -
  have f: "fresh_scopes (scopes_of example_runtime)"
    by (simp add: example_runtime_def example_store_def example_objects_def fresh_scopes_def empty_scopes_def)
  obtain t where t: "sthen (PushStackFrame (TLambda 8256) 0) (sthen (Run 2 throwing_world 16384) (finish_call throwing_world))
      example_runtime = Inr ((), t)"
    using example_frame by (auto simp: numeral_2_eq_2)
  have n: "sthen (PushStackFrame (TNative 8256) 0)
      (sbind (w_native throwing_world (call_procedure 2 throwing_world) 0 [])
        (\<lambda>ok. sthen (sguard LogFatal ok) (finish_call throwing_world))) example_runtime =
      Inl (GelException ''expected a Long'')"
    by (simp add: throwing_world_def op_simps PushStackFrame_def)
  show ?thesis
    using frame_guard_holds [OF throwing_world_ok f, of "TLambda 8256" 0 2 16384, THEN conjunct1]
      frame_guard_holds [OF throwing_world_ok f, of "TNative 8256" 0 2 _ 0 "[]", THEN conjunct2]
    by (simp add: t n)
qed

section \<open>Parameters by position\<close>

lemma add_local_appends:
  assumes "add_local scope sy v s = Inr ((), t)" "sc_map (scopes_of s) scope = Some sc"
  shows "\<exists>l x. sc_map (scopes_of t) scope = Some (sc\<lparr>sc_locals := sc_locals sc @ [l]\<rparr>) \<and>
    lv_map (scopes_of t) l = Some x \<and> (v \<noteq> 0 \<longrightarrow> lv_ptr x = v - header_size) \<and>
    l = lv_next (scopes_of s) \<and> lv_next (scopes_of t) = l + 1 \<and>
    (\<forall>k<l. lv_map (scopes_of t) k = lv_map (scopes_of s) k)"
proof -
  obtain y l s1 where n: "LocalVariable_New scope (GetFullyQualifiedName y) v (scopes_of s) = Inr (l, s1)"
    and a: "Add_local scope l s1 = Inr (True, scopes_of t)"
    using assms(1)
    by (auto simp: add_local_def on_scopes_def on_store_def stored_def op_simps rbind_eq_Inr guardr_eq_Inr)
  have s1: "sc_map s1 scope = Some sc" "l = lv_next (scopes_of s)" "lv_next s1 = l + 1"
    "\<forall>k<l. lv_map s1 k = lv_map (scopes_of s) k"
    using n assms(2)
    by (auto simp: LocalVariable_New_def new_LocalVariable_def SetValue_def Let_def rbind_eq_Inr guardr_eq_Inr
        get_scope_Inr split: if_splits)
  obtain x where x: "lv_map s1 l = Some x" "lv_owner x = Some scope" "v \<noteq> 0 \<longrightarrow> lv_ptr x = v - header_size"
    using n assms(2)
    by (auto simp: LocalVariable_New_def new_LocalVariable_def SetValue_def Let_def rbind_eq_Inr guardr_eq_Inr
        get_scope_Inr split: if_splits)
  have "scopes_of t = s1\<lparr>sc_map := (sc_map s1)(scope \<mapsto> sc\<lparr>sc_locals := sc_locals sc @ [l]\<rparr>)\<rparr>"
    using a s1(1) x by (auto simp: Add_local_def get_local_def get_scope_def rbind_eq_Inr Let_def split: if_splits)
  then show ?thesis using s1 x by (intro exI [of _ l] exI [of _ x]) simp
qed

lemma on_store_scopes: "keeps same_scopes m \<Longrightarrow> on_store m s = Inr (x, t) \<Longrightarrow> scopes_of t = scopes_of s"
  by (auto simp: on_store_def op_simps rbind_eq_Inr dest: keepsD)

lemma bind_parameters_appends:
  assumes "bind_parameters W scope ps args s = Inr ((), t)" "sc_map (scopes_of s) scope = Some sc"
  shows "\<exists>ls. sc_map (scopes_of t) scope = Some (sc\<lparr>sc_locals := sc_locals sc @ ls\<rparr>) \<and> length ls = length ps \<and>
    length ps \<le> length args \<and>
    (\<forall>i<length ps. \<exists>x. lv_map (scopes_of t) (ls ! i) = Some x \<and> lv_ptr x = args ! i - header_size) \<and>
    (\<forall>k<lv_next (scopes_of s). lv_map (scopes_of t) k = lv_map (scopes_of s) k) \<and>
    lv_next (scopes_of s) \<le> lv_next (scopes_of t)"
  using assms
proof (induction ps arbitrary: args s sc)
  case Nil
  then show ?case by (auto simp: ret_apply intro!: exI [of _ "[]"])
next
  case (Cons p ps)
  obtain sy s1 where sy: "on_store (Symbol_New_text (w_machine W) (arg_name p)) s = Inr (sy, s1)"
    using Cons.prems(1) by (auto simp: sbind_Inr)
  obtain v vs s2 where args: "args = v # vs" "v \<noteq> 0" and a: "add_local scope sy v s1 = Inr ((), s2)"
    and r: "bind_parameters W scope ps vs s2 = Inr ((), t)"
    using Cons.prems(1) sy
    by (cases args) (auto simp: sbind_apply sthen_Inr fails_apply sguard_apply guardr_eq_Inr)
  have s1: "scopes_of s1 = scopes_of s" using Symbol_New_text_scopes sy by (rule on_store_scopes)
  obtain l x where l: "sc_map (scopes_of s2) scope = Some (sc\<lparr>sc_locals := sc_locals sc @ [l]\<rparr>)"
    "lv_map (scopes_of s2) l = Some x" "lv_ptr x = v - header_size" "l = lv_next (scopes_of s)"
    "lv_next (scopes_of s2) = l + 1" "\<forall>k<l. lv_map (scopes_of s2) k = lv_map (scopes_of s) k"
    using add_local_appends [OF a] Cons.prems(2) s1 args(2) by auto
  obtain ls where ls: "sc_map (scopes_of t) scope = Some (sc\<lparr>sc_locals := sc_locals sc @ [l]\<rparr>\<lparr>sc_locals := sc_locals sc @ [l] @ ls\<rparr>)"
    "length ls = length ps" "length ps \<le> length vs"
    "\<forall>i<length ps. \<exists>x. lv_map (scopes_of t) (ls ! i) = Some x \<and> lv_ptr x = vs ! i - header_size"
    "\<forall>k<l + 1. lv_map (scopes_of t) k = lv_map (scopes_of s2) k" "l + 1 \<le> lv_next (scopes_of t)"
    using Cons.IH [OF r l(1)] l(5) by auto
  show ?case
  proof (intro exI [of _ "l # ls"] conjI allI impI)
    fix i assume "i < length (p # ps)"
    then show "\<exists>x. lv_map (scopes_of t) ((l # ls) ! i) = Some x \<and> lv_ptr x = args ! i - header_size"
      using ls(4,5) l(2,3) by (cases i) (simp_all add: args)
  qed (use ls l args in simp_all)
qed

text \<open>C18. Binding the parameters of a lambda gives the scope of the call one variable for each
  parameter behind those it has, and the variable at position \<open>i\<close> of these holds argument \<open>i\<close>:
  code that reads its parameters by index finds the arguments in their order.\<close>

theorem parameters_by_position:
  assumes "bind_parameters W scope params args s = Inr ((), t)"
    and "get_scope (scopes_of s) scope = Inr sc" "i < length params"
    and "length (sc_locals sc) + length params < 2 ^ 64" "args ! i \<notin> {0, header_size}"
  shows "\<exists>l x. GetLocalAt (scopes_of t) scope (of_nat (length (sc_locals sc) + i)) = Inr l \<and>
    get_local (scopes_of t) l = Inr x \<and> GetValue x = args ! i"
proof -
  obtain ls x where ls: "sc_map (scopes_of t) scope = Some (sc\<lparr>sc_locals := sc_locals sc @ ls\<rparr>)"
      "length ls = length params" "lv_map (scopes_of t) (ls ! i) = Some x" "lv_ptr x = args ! i - header_size"
    using bind_parameters_appends [OF assms(1)] assms(2,3) by (auto simp: get_scope_Inr)
  have n: "unat (of_nat (length (sc_locals sc) + i) :: uword) = length (sc_locals sc) + i"
    using assms(3,4) by (simp add: unat_of_nat del: of_nat_add)
  have m: "unat (of_nat (length (sc_locals sc @ ls)) :: uword) = length (sc_locals sc) + length params"
    using assms(4) ls(2) by (simp add: unat_of_nat del: of_nat_add)
  have "GetLocalAt (scopes_of t) scope (of_nat (length (sc_locals sc) + i)) = Inr (ls ! i)"
    using ls(1,2) assms(3) n m
    by (simp add: GetLocalAt_def get_scope_def GetNumberOfLocals_def word_le_nat_alt nth_append del: of_nat_add)
  then show ?thesis
    using ls(3,4) assms(5) by (simp add: get_local_def GetValue_def)
qed

lemma Symbol_New_text_x:
  assumes "new_obj M (OSymbol \<lparr>sym_ns = [], sym_type = [], sym_name = ''x''\<rparr>) st = Inr (a, st')"
    and "a \<noteq> 0" "st_pool st = empty_pool"
  shows "\<exists>p. Symbol_New_text M ''x'' st = Inr (a, st'\<lparr>st_pool := p\<rparr>)"
proof -
  have p: "symbol_parts ''x'' = Inr ([], [], ''x'')" by code_simp
  have n: "NewInternal ''x'' = Inr \<lparr>sym_ns = [], sym_type = [], sym_name = ''x''\<rparr>"
    by (simp add: NewInternal_def p new_Symbol_def)
  show ?thesis
    using assms
    by (simp add: Symbol_New_text_def pool_New_text_def p pool_New_def Let_def empty_pool_def n
        symbol_text_def kSymbolPoolMaxSize_def new_node_def in_alphabet_def kAlphabetSize_def child_or_new_def)
      (rule exI, rule refl)
qed

text \<open>A scope of a call, and a parameter to bind in it.\<close>

definition example_callee :: runtime where
  "example_callee = example_runtime\<lparr>rt_store := (initial_store example_heap)\<lparr>
    st_scopes := snd (LocalScope_New None empty_scopes)\<rparr>\<rparr>"

definition example_params :: "argument list" where
  "example_params = [\<lparr>arg_index = 0, arg_name = ''x'', arg_optional = False, arg_vararg = False\<rparr>]"

lemma example_binding:
  "\<exists>t. bind_parameters example_world 0 example_params [4176] example_callee = Inr ((), t)"
proof -
  let ?y = "\<lparr>sym_ns = [], sym_type = [], sym_name = ''x''\<rparr>" and ?st = "rt_store example_callee"
  have "store_ok ?st" "obj_cost example_machine (OSymbol ?y) < store_free ?st"
    using example_heap_facts
    by (simp_all add: example_callee_def store_ok_def store_free_def obj_cost_def example_machine_def)
  moreover have "plain_obj example_machine (OSymbol ?y)"
    by (simp add: plain_obj_def example_machine_def kind_of_def kLargeObjectSize_def)
  ultimately obtain a st' where n: "new_obj example_machine (OSymbol ?y) ?st = Inr (a, st')" "a \<noteq> 0"
    and at: "st_objs st' = (st_objs ?st)(a \<mapsto> OSymbol ?y)"
    using new_obj_fresh by metis
  have "st_pool ?st = empty_pool"
    by (simp add: example_callee_def initial_store_def)
  then obtain p where sy: "Symbol_New_text example_machine ''x'' ?st = Inr (a, st'\<lparr>st_pool := p\<rparr>)"
    using Symbol_New_text_x [OF n] by blast
  have sc: "st_scopes st' = st_scopes ?st"
    using new_obj_scopes [THEN keepsD] n(1) by blast
  show ?thesis
    using sy n(2) at sc
    by (simp add: example_params_def example_world_def on_store_def op_simps add_local_def stored_def
        symbol_at_def obj_at_def on_scopes_def LocalVariable_New_def GetFullyQualifiedName_def HasNamespace_def
        HasSymbolType_def example_callee_def LocalScope_New_def new_LocalScope_def empty_scopes_def get_scope_def
        new_LocalVariable_def SetValue_def Add_local_def get_local_def Has_def Lookup_from.simps)
qed

theorem parameters_by_position_witness:
  "\<exists>t l x. bind_parameters example_world 0 example_params [4176] example_callee = Inr ((), t) \<and>
    GetLocalAt (scopes_of t) 0 0 = Inr l \<and> get_local (scopes_of t) l = Inr x \<and> GetValue x = 4176"
proof -
  obtain t where t: "bind_parameters example_world 0 example_params [4176] example_callee = Inr ((), t)"
    using example_binding by blast
  have "get_scope (scopes_of example_callee) 0 = Inr \<lparr>sc_parent = None, sc_locals = []\<rparr>"
    by (simp add: example_callee_def LocalScope_New_def new_LocalScope_def empty_scopes_def get_scope_def)
  then show ?thesis
    using parameters_by_position [OF t, of _ 0] t by (auto simp: example_params_def header_size_def)
qed

end
