(* ===== verification/Tokens.thy ===== *)
theory Tokens
  imports Tries Exprs
begin

text \<open>
  The tokens of the parser (\<open>gel/token.h\<close>), its keywords (the table \<open>Parser::Init\<close> registers,
  \<open>gel/parser.cc\<close>) and the tests on characters that the lexer makes. The kinds of tokens are
  listed the way \<open>FOR_EACH_TOKEN\<close> lists them: the expression classes, the binary and the unary
  operators, and kinds of their own.
\<close>

section \<open>Kinds of tokens\<close>

datatype (plugins only: code size) expr_node =
    N_LiteralExpr | N_UnaryExpr | N_BinaryOpExpr | N_BeginExpr | N_WhileExpr | N_CondExpr
  | N_ClauseExpr | N_WhenExpr | N_CaseExpr | N_LocalDef | N_ImportExpr | N_CallProcExpr
  | N_LoadInstanceMethodExpr | N_SetFieldExpr | N_SetLocalExpr | N_Binding | N_LetExpr
  | N_RxOpExpr | N_LetRxExpr | N_ListExpr | N_ThrowExpr | N_QuotedExpr | N_InstanceOfExpr
  | N_CastExpr | N_NewExpr | N_NewMapExpr | N_LoadFieldExpr

datatype (plugins only: code size) token_kind =
    T_EndOfStream | T_Invalid
  | T_Node expr_node | T_BinaryOp binary_op | T_UnaryOp unary_op
  | T_Fn | T_DefNamespace | T_DefNative | T_DefMacro | T_Set | T_Def | T_Defn | T_Comment
  | T_Hash | T_Quote | T_DoubleQuote | T_Cond | T_LParen | T_RParen | T_Dot | T_DotDotDot
  | T_Range | T_Identifier | T_LBrace | T_RBrace | T_LBracket | T_RBracket | T_Question
  | T_Comma | T_Dollar | T_Dispatch | T_LiteralNumber | T_LiteralDouble | T_LiteralLong
  | T_LiteralTrue | T_LiteralFalse | T_LiteralString

record position =
  pos_row :: uword
  pos_column :: uword

record token =
  tk_kind :: token_kind
  tk_pos :: position
  tk_text :: string

text \<open>\<open>Token{}\<close>.\<close>

definition no_token :: token where
  "no_token = \<lparr>tk_kind = T_Invalid, tk_pos = \<lparr>pos_row = 0, pos_column = 0\<rparr>, tk_text = []\<rparr>"

definition tk_IsInvalid :: "token \<Rightarrow> bool" where
  "tk_IsInvalid t = (tk_kind t = T_Invalid)"

definition tk_IsEndOfStream :: "token \<Rightarrow> bool" where
  "tk_IsEndOfStream t = (tk_kind t = T_EndOfStream)"

definition tk_IsLiteral :: "token \<Rightarrow> bool" where
  "tk_IsLiteral t =
    (tk_kind t \<in> {T_LBrace, T_LiteralTrue, T_LiteralFalse, T_LiteralString, T_LiteralNumber,
                   T_LiteralLong, T_LiteralDouble})"

definition tk_IsIdentifier :: "token \<Rightarrow> bool" where
  "tk_IsIdentifier t = (tk_kind t = T_Identifier)"

definition tk_IsQuote :: "token \<Rightarrow> bool" where
  "tk_IsQuote t = (tk_kind t = T_Quote)"

definition tk_IsBinaryOp :: "token \<Rightarrow> bool" where
  "tk_IsBinaryOp t = (case tk_kind t of T_BinaryOp _ \<Rightarrow> True | _ \<Rightarrow> False)"

definition ToBinaryOp :: "token \<Rightarrow> binary_op res" where
  "ToBinaryOp t = (case tk_kind t of T_BinaryOp op \<Rightarrow> Inr op | _ \<Rightarrow> Inl AssertFailed)"

definition tk_IsUnaryOp :: "token \<Rightarrow> bool" where
  "tk_IsUnaryOp t = (case tk_kind t of T_UnaryOp _ \<Rightarrow> True | _ \<Rightarrow> False)"

definition ToUnaryOp :: "token \<Rightarrow> unary_op res" where
  "ToUnaryOp t = (case tk_kind t of T_UnaryOp op \<Rightarrow> Inr op | _ \<Rightarrow> Inl AssertFailed)"

section \<open>Characters\<close>

text \<open>The character tests of the C locale; \<open>EOF\<close>, cast to a character, is the byte 255.\<close>

definition code_of_char :: "char \<Rightarrow> nat" where
  "code_of_char c = of_char c"

definition EOF :: char where
  "EOF = CHR 0xFF"

definition isdigit :: "char \<Rightarrow> bool" where
  "isdigit c = (48 \<le> code_of_char c \<and> code_of_char c \<le> 57)"

definition isalpha :: "char \<Rightarrow> bool" where
  "isalpha c = (65 \<le> code_of_char c \<and> code_of_char c \<le> 90 \<or> 97 \<le> code_of_char c \<and> code_of_char c \<le> 122)"

definition tolower :: "char \<Rightarrow> char" where
  "tolower c =
    (if 65 \<le> code_of_char c \<and> code_of_char c \<le> 90 then char_of (code_of_char c + 32) else c)"

definition IsWhitespaceChar :: "char \<Rightarrow> bool" where
  "IsWhitespaceChar c \<longleftrightarrow>
    c = CHR '' '' \<or> c = CHR 0x09 \<or> c = CHR 0x0D \<or> c = CHR 0x0A \<or> c = EOF"

definition IsDoubleQuote :: "char \<Rightarrow> bool" where
  "IsDoubleQuote c = (c = CHR 0x22)"

definition IsValidStringCharacter :: "char \<Rightarrow> bool" where
  "IsValidStringCharacter c \<longleftrightarrow> c \<noteq> EOF \<and> \<not> IsDoubleQuote c"

definition IsValidNumberChar :: "char \<Rightarrow> bool \<Rightarrow> bool" where
  "IsValidNumberChar c whole \<longleftrightarrow> isdigit c \<or> c = CHR ''.'' \<and> whole"

text \<open>\<open>parsing_args\<close> is the parser's flag of that name, \<open>initial\<close> says that the character would
  be the first one.\<close>

definition IsValidIdentifierChar :: "bool \<Rightarrow> char \<Rightarrow> bool \<Rightarrow> bool" where
  "IsValidIdentifierChar parsing_args c initial =
    (if isalpha c then True
     else if isdigit c \<and> \<not> initial then True
     else if c \<in> set ''!$%&*/:<=>?'' then \<not> parsing_args
     else if c \<in> set ''~_^+-'' then True
     else c = CHR ''.'' \<and> \<not> initial)"

section \<open>Numbers\<close>

text \<open>\<open>atol\<close> and \<open>atoi\<close> on a text without sign or leading blanks: the number its digits up to
  the first other character denote. Out of the range of the type it has no meaning in C.\<close>

fun digits_value :: "nat \<Rightarrow> string \<Rightarrow> nat" where
  "digits_value acc [] = acc"
| "digits_value acc (c # cs) =
    (if isdigit c then digits_value (10 * acc + (code_of_char c - 48)) cs else acc)"

definition atol :: "string \<Rightarrow> uword res" where
  "atol s =
    (let n = digits_value 0 s in guardr UndefinedBehaviour (n < 2 ^ 63) (Inr (of_nat n)))"

definition atoi :: "string \<Rightarrow> nat res" where
  "atoi s = (let n = digits_value 0 s in guardr UndefinedBehaviour (n < 2 ^ 31) (Inr n))"

section \<open>Keywords\<close>

definition keyword_table :: "(string \<times> token_kind) list" where
  "keyword_table =
    [(''ns'', T_DefNamespace), (''def'', T_Def), (''defmacro'', T_DefMacro),
     (''import'', T_Node N_ImportExpr), (''cons'', T_BinaryOp BCons), (''car'', T_UnaryOp UCar),
     (''cdr'', T_UnaryOp UCdr), (''begin'', T_Node N_BeginExpr), (''add'', T_BinaryOp BAdd),
     (''subtract'', T_BinaryOp BSubtract), (''multiply'', T_BinaryOp BMultiply),
     (''divide'', T_BinaryOp BDivide), (''fn'', T_Fn), (''quote'', T_Quote), (''not'', T_UnaryOp UNot),
     (''and'', T_BinaryOp BBinaryAnd), (''or'', T_BinaryOp BBinaryOr), (''throw'', T_Node N_ThrowExpr),
     (''eq?'', T_BinaryOp BEquals), (''instanceof?'', T_BinaryOp BInstanceOf),
     (''nonnull?'', T_UnaryOp UNonnull), (''null?'', T_UnaryOp UNull), (''set!'', T_Set),
     (''cond'', T_Cond), (''when'', T_Node N_WhenExpr), (''case'', T_Node N_CaseExpr),
     (''while'', T_Node N_WhileExpr), (''defn'', T_Defn), (''let'', T_Node N_LetExpr),
     (''let:rx'', T_Node N_LetRxExpr), (''defnative'', T_DefNative)]"

fun RegisterKeywords :: "(string \<times> token_kind) list \<Rightarrow> token_kind node \<Rightarrow> token_kind node res" where
  "RegisterKeywords [] root = Inr root"
| "RegisterKeywords ((keyword, kind) # rest) root =
    rbind (trie_Insert T_Invalid keyword kind root) (RegisterKeywords rest)"

text \<open>The trie after \<open>Parser::Init\<close>.\<close>

definition keyword_trie :: "token_kind node" where
  "keyword_trie =
    (case RegisterKeywords keyword_table (new_node T_Invalid) of
       Inr root \<Rightarrow> root | Inl _ \<Rightarrow> new_node T_Invalid)"

end
