(* ===== verification/Lexer.thy ===== *)
theory Lexer
  imports Tokens Runtime
begin

text \<open>
  The state of the parser and its lexer: characters out of the stream, and
  \<open>Parser::NextToken\<close> and \<open>PeekToken\<close> (\<open>gel/parser.h\<close>, \<open>gel/parser.cc\<close>). A character is what a
  signed 8-bit \<open>char\<close> holds, so that the byte 255 reads as \<open>EOF\<close>. The memory reserved for the
  chunk and for the text of a token is taken for their size: the code indexes both without
  resizing them.
\<close>

section \<open>The state\<close>

text \<open>The stream is what is left to read of it, and whether it is good. The buffer is its first
  \<open>token_len_\<close> characters. A null pointer to an object is 0.\<close>

record parser =
  ps_rt :: runtime
  ps_stream :: string
  ps_good :: bool
  ps_scope :: nat
  ps_chunk :: string
  ps_buffer :: string
  ps_pos :: position
  ps_wpos :: nat
  ps_rpos :: nat
  ps_depth :: uword
  ps_next :: token
  ps_peek :: token
  ps_script :: uword
  ps_module :: uword
  ps_namespace :: uword
  ps_dispatched :: int
  ps_args :: bool

type_synonym 'a pop = "(parser, 'a) op_on"

definition on_runtime :: "'a rop \<Rightarrow> 'a pop" where
  "on_runtime m = on_part ps_rt (\<lambda>rt s. s\<lparr>ps_rt := rt\<rparr>) m"

definition on_pstore :: "'a sop \<Rightarrow> 'a pop" where
  "on_pstore m = on_runtime (on_store m)"

definition on_pscopes :: "(scopes \<Rightarrow> ('a \<times> scopes) res) \<Rightarrow> 'a pop" where
  "on_pscopes m = on_runtime (on_scopes m)"

definition pstored :: "(store \<Rightarrow> 'a res) \<Rightarrow> 'a pop" where
  "pstored f = reads (\<lambda>s. f (rt_store (ps_rt s)))"

definition pscoped :: "(scopes \<Rightarrow> 'a res) \<Rightarrow> 'a pop" where
  "pscoped f = pstored (\<lambda>st. f (st_scopes st))"

definition kDefaultChunkSize :: nat where
  "kDefaultChunkSize = 4096"

definition kDefaultBufferSize :: nat where
  "kDefaultBufferSize = 1024"

definition IsParsingArgs :: "parser \<Rightarrow> bool" where
  "IsParsingArgs s = ps_args s"

definition IsDispatching :: "parser \<Rightarrow> bool" where
  "IsDispatching s = (0 \<le> ps_dispatched s)"

section \<open>Characters out of the stream\<close>

text \<open>A read that reaches the end of the stream leaves it not good.\<close>

definition ReadNextChunk :: "nat \<Rightarrow> bool pop" where
  "ReadNextChunk num_bytes =
    sbind (asks ps_good) (\<lambda>good.
    sthen (sassert good)
      (sbind (asks ps_stream) (\<lambda>stream.
       let bytes = take num_bytes stream in
       sthen (modifies (\<lambda>s. s\<lparr>ps_stream := drop num_bytes stream, ps_good := num_bytes \<le> length stream,
           ps_chunk := bytes @ drop (length bytes) (ps_chunk s), ps_rpos := 0, ps_wpos := length bytes\<rparr>))
         (ret (1 \<le> length bytes)))))"

definition PeekChar :: "nat \<Rightarrow> parser \<Rightarrow> char" where
  "PeekChar offset s =
    (let idx = ps_rpos s + offset in if ps_wpos s \<le> idx then EOF else ps_chunk s ! idx)"

definition IncrementDepth :: "unit pop" where
  "IncrementDepth = modifies (\<lambda>s. s\<lparr>ps_depth := ps_depth s + 1\<rparr>)"

text \<open>The depth is unsigned: below zero it wraps, and the assertion never fails.\<close>

definition DecrementDepth :: "unit pop" where
  "DecrementDepth = modifies (\<lambda>s. s\<lparr>ps_depth := ps_depth s - 1\<rparr>)"

definition next_row :: "position \<Rightarrow> position" where
  "next_row p = \<lparr>pos_row = pos_row p + 1, pos_column = 1\<rparr>"

definition next_column :: "position \<Rightarrow> position" where
  "next_column p = p\<lparr>pos_column := pos_column p + 1\<rparr>"

text \<open>\<open>NextChar\<close> where the chunk has a character.\<close>

definition take_char :: "char pop" where
  "take_char =
    sbind (asks (\<lambda>s. ps_chunk s ! ps_rpos s)) (\<lambda>c.
    sthen (modifies (\<lambda>s. s\<lparr>ps_rpos := ps_rpos s + 1\<rparr>))
      (sthen
        (if c = CHR 0x0A then modifies (\<lambda>s. s\<lparr>ps_pos := next_row (ps_pos s)\<rparr>)
         else if c = CHR ''('' then
           sthen IncrementDepth (modifies (\<lambda>s. s\<lparr>ps_pos := next_column (ps_pos s)\<rparr>))
         else if c = CHR '')'' then
           sthen DecrementDepth (modifies (\<lambda>s. s\<lparr>ps_pos := next_column (ps_pos s)\<rparr>))
         else modifies (\<lambda>s. s\<lparr>ps_pos := next_column (ps_pos s)\<rparr>))
        (ret c)))"

text \<open>After a chunk that is not empty has been read, the second call finds a character.\<close>

definition NextChar :: "char pop" where
  "NextChar =
    sbind (asks (\<lambda>s. ps_wpos s < ps_rpos s + 1)) (\<lambda>exhausted.
    if exhausted then
      sbind (ReadNextChunk kDefaultChunkSize) (\<lambda>ok. if \<not> ok then ret EOF else take_char)
    else take_char)"

fun Advance :: "nat \<Rightarrow> unit pop" where
  "Advance 0 = ret ()"
| "Advance (Suc n) = sthen NextChar (Advance n)"

text \<open>How many characters of the chunk are left: a bound for the loops below, each round of which
  takes one.\<close>

definition chars_left :: "parser \<Rightarrow> nat" where
  "chars_left s = ps_wpos s - ps_rpos s"

text \<open>\<open>while (p) body;\<close> with a bound on the rounds.\<close>

fun while_loop :: "nat \<Rightarrow> (parser \<Rightarrow> bool) \<Rightarrow> unit pop \<Rightarrow> unit pop" where
  "while_loop fuel p body =
    sbind (asks p) (\<lambda>go.
    if \<not> go then ret ()
    else case fuel of 0 \<Rightarrow> fails OutOfFuel | Suc n \<Rightarrow> sthen body (while_loop n p body))"

declare while_loop.simps [simp del]

text \<open>At the end of the stream blanks never end: the second \<open>NextChar\<close> there fails an assertion.\<close>

definition SkipWhitespace :: "unit pop" where
  "SkipWhitespace =
    sbind (asks chars_left) (\<lambda>n.
    while_loop (n + 2) (\<lambda>s. IsWhitespaceChar (PeekChar 0 s)) (sthen NextChar (ret ())))"

definition AdvanceUntil :: "char \<Rightarrow> unit pop" where
  "AdvanceUntil expected =
    sbind (asks chars_left) (\<lambda>n.
    while_loop n
      (\<lambda>s. PeekChar 0 s \<noteq> expected \<and> PeekChar 0 s \<noteq> CHR 0x00 \<and> PeekChar 0 s \<noteq> EOF)
      (sthen NextChar (ret ())))"

section \<open>The text of a token\<close>

definition clear_buffer :: "unit pop" where
  "clear_buffer = modifies (\<lambda>s. s\<lparr>ps_buffer := []\<rparr>)"

text \<open>\<open>buffer_[token_len_++] = c\<close>.\<close>

definition buffer_put :: "char \<Rightarrow> unit pop" where
  "buffer_put c =
    sbind (asks ps_buffer) (\<lambda>b.
    sthen (sguard UndefinedBehaviour (length b < kDefaultBufferSize))
      (modifies (\<lambda>s. s\<lparr>ps_buffer := b @ [c]\<rparr>)))"

definition take_into_buffer :: "unit pop" where
  "take_into_buffer = sbind NextChar buffer_put"

definition GetBufferedText :: "parser \<Rightarrow> string" where
  "GetBufferedText s = ps_buffer s"

definition GetRemaining :: "parser \<Rightarrow> string" where
  "GetRemaining s = slice (ps_rpos s) (ps_wpos s - ps_rpos s) (ps_chunk s)"

text \<open>\<open>while (p) buffer_[token_len_++] = NextChar();\<close>\<close>

definition buffer_while :: "(parser \<Rightarrow> bool) \<Rightarrow> unit pop" where
  "buffer_while p = sbind (asks chars_left) (\<lambda>n. while_loop n p take_into_buffer)"

definition at_identifier :: "parser \<Rightarrow> bool" where
  "at_identifier s = IsValidIdentifierChar (IsParsingArgs s) (PeekChar 0 s) (ps_buffer s = [])"

definition new_token :: "token_kind \<Rightarrow> string \<Rightarrow> token pop" where
  "new_token kind text =
    sbind (asks (\<lambda>s. \<lparr>tk_kind = kind, tk_pos = ps_pos s, tk_text = text\<rparr>)) (\<lambda>t.
    sthen (modifies (\<lambda>s. s\<lparr>ps_next := t\<rparr>)) (ret t))"

definition buffered_token :: "token_kind \<Rightarrow> token pop" where
  "buffered_token kind = sbind (asks GetBufferedText) (new_token kind)"

text \<open>\<open>Advance(n)\<close> and a token without text.\<close>

definition short_token :: "nat \<Rightarrow> token_kind \<Rightarrow> token pop" where
  "short_token n kind = sthen (Advance n) (new_token kind [])"

section \<open>Identifiers, numbers and strings\<close>

text \<open>The walk through the keyword trie that goes with reading an identifier: null once a
  character has no child.\<close>

definition keyword_step :: "token_kind node option \<Rightarrow> char \<Rightarrow> token_kind node option res" where
  "keyword_step ckw c =
    (case ckw of
       None \<Rightarrow> Inr None
     | Some n \<Rightarrow> guardr out_of_range (in_alphabet c) (Inr (Tries.children n c)))"

datatype round = Stop | Found token | Again "token_kind node option"

text \<open>A round of the loop over the characters of an identifier: the loop ends, or \<open>NextToken\<close>
  returns, or it goes on at a place in the trie. A question mark that ends the identifier and
  names no class is taken without a step in the trie.\<close>

definition take_identifier_char :: "token_kind node option \<Rightarrow> round pop" where
  "take_identifier_char ckw =
    sbind NextChar (\<lambda>c.
    sthen (buffer_put c) (sbind (reads (\<lambda>s. keyword_step ckw c)) (\<lambda>k. ret (Again k))))"

definition identifier_round :: "token_kind node option \<Rightarrow> round pop" where
  "identifier_round ckw =
    sbind (asks (\<lambda>s. (at_identifier s, PeekChar 0 s, PeekChar 1 s, IsParsingArgs s, GetBufferedText s)))
      (\<lambda>(go, c, d, parsing_args, ident).
    if \<not> go then ret Stop
    else if c = CHR ''?'' then
      if \<not> IsValidIdentifierChar parsing_args d False then
        sbind (pstored (FindClass ident)) (\<lambda>cls.
        if cls = 0 then sthen take_into_buffer (ret (Again ckw))
        else sthen NextChar (sbind (new_token (T_Node N_InstanceOfExpr) ident) (\<lambda>t. ret (Found t))))
      else if parsing_args then ret Stop
      else take_identifier_char ckw
    else if c = CHR ''.'' \<and> d = CHR ''.'' then ret Stop
    else take_identifier_char ckw)"

fun identifier_loop ::
    "nat \<Rightarrow> token_kind node option \<Rightarrow> (token option \<times> token_kind node option) pop" where
  "identifier_loop fuel ckw =
    sbind (identifier_round ckw) (\<lambda>r.
    case r of
      Stop \<Rightarrow> ret (None, ckw)
    | Found t \<Rightarrow> ret (Some t, ckw)
    | Again k \<Rightarrow> (case fuel of 0 \<Rightarrow> fails OutOfFuel | Suc n \<Rightarrow> identifier_loop n k))"

declare identifier_loop.simps [simp del]

definition lex_identifier :: "token pop" where
  "lex_identifier =
    sthen clear_buffer
      (sbind (asks chars_left) (\<lambda>n.
       sbind (identifier_loop n (Some keyword_trie)) (\<lambda>(early, ckw).
       case early of
         Some t \<Rightarrow> ret t
       | None \<Rightarrow>
           sbind (asks IsParsingArgs) (\<lambda>parsing_args.
           if parsing_args then buffered_token T_Identifier
           else case ckw of
             Some k \<Rightarrow> buffered_token (if epsilon k then node_value k else T_Identifier)
           | None \<Rightarrow> buffered_token T_Identifier))))"

text \<open>The loop over the characters of a number; the answer is whether it is whole.\<close>

fun number_loop :: "nat \<Rightarrow> bool \<Rightarrow> bool pop" where
  "number_loop fuel whole =
    sbind (asks (\<lambda>s. (PeekChar 0 s, PeekChar 1 s))) (\<lambda>(c, d).
    if \<not> IsValidNumberChar c whole then ret whole
    else if c = CHR ''.'' \<and> \<not> IsValidNumberChar d False then ret whole
    else case fuel of
      0 \<Rightarrow> fails OutOfFuel
    | Suc n \<Rightarrow>
        sbind NextChar (\<lambda>next.
        let whole' = (if next = CHR ''.'' then False else whole) in
        sthen (buffer_put next) (number_loop n whole')))"

declare number_loop.simps [simp del]

definition lex_number :: "token pop" where
  "lex_number =
    sthen clear_buffer
      (sbind (asks chars_left) (\<lambda>n.
       sbind (number_loop n True) (\<lambda>whole.
       buffered_token (if whole then T_LiteralLong else T_LiteralDouble))))"

definition lex_string :: "token pop" where
  "lex_string =
    sthen (Advance 1)
      (sthen clear_buffer
        (sthen (buffer_while (\<lambda>s. IsValidStringCharacter (PeekChar 0 s)))
          (sbind (asks (PeekChar 0)) (\<lambda>c.
           sthen (sassert (IsDoubleQuote c))
             (sthen (Advance 1) (buffered_token T_LiteralString))))))"

text \<open>The text after a prefix of \<open>n\<close> characters: casts and constructors.\<close>

definition lex_prefixed :: "nat \<Rightarrow> token_kind \<Rightarrow> token pop" where
  "lex_prefixed n kind =
    sthen (Advance n) (sthen clear_buffer (sthen (buffer_while at_identifier) (buffered_token kind)))"

text \<open>A dollar: an argument of a dispatch by its number, or the next one, or a dispatch.\<close>

definition lex_argument_number :: "token pop" where
  "lex_argument_number =
    sthen clear_buffer
      (sthen take_into_buffer
        (sthen (buffer_while (\<lambda>s. IsValidNumberChar (PeekChar 0 s) True))
          (sbind (asks GetBufferedText) (\<lambda>text.
           sbind (reads (\<lambda>s. atoi (tl text))) (\<lambda>arg_idx.
           sthen (modifies (\<lambda>s. s\<lparr>ps_dispatched := max (ps_dispatched s) (int arg_idx + 1)\<rparr>))
             (new_token T_Identifier text))))))"

definition lex_next_argument :: "token pop" where
  "lex_next_argument =
    sthen (Advance 1)
      (sbind (asks ps_dispatched) (\<lambda>k.
       sthen (modifies (\<lambda>s. s\<lparr>ps_dispatched := k + 1\<rparr>))
         (new_token T_Identifier (CHR ''$'' # show_nat (nat k)))))"

section \<open>The next token\<close>

definition operator_chars :: "(char \<times> token_kind) list" where
  "operator_chars =
    [(CHR ''('', T_LParen), (CHR '')'', T_RParen), (CHR ''+'', T_BinaryOp BAdd),
     (CHR ''-'', T_BinaryOp BSubtract), (CHR ''*'', T_BinaryOp BMultiply), (CHR ''/'', T_BinaryOp BDivide),
     (CHR ''%'', T_BinaryOp BModulus), (CHR ''='', T_BinaryOp BEquals), (CHR ''&'', T_BinaryOp BBinaryAnd),
     (CHR ''|'', T_BinaryOp BBinaryOr), (CHR ''!'', T_UnaryOp UNot), (CHR ''['', T_LBracket),
     (CHR '']'', T_RBracket), (CHR '','', T_Comma), (CHR ''{'', T_LBrace), (CHR ''}'', T_RBrace),
     (CHR ''?'', T_Question), (CHR 0x27, T_Quote)]"

text \<open>The tests after the switch: strings, numbers, identifiers, anything else. An invalid
  character is not taken.\<close>

definition lex_other :: "token pop" where
  "lex_other =
    sbind (asks (\<lambda>s. (PeekChar 0 s, IsParsingArgs s))) (\<lambda>(next, parsing_args).
    if IsDoubleQuote next then lex_string
    else if isdigit next then lex_number
    else if IsValidIdentifierChar parsing_args next True then lex_identifier
    else sbind (asks GetRemaining) (new_token T_Invalid))"

text \<open>A hash: false, true, an instance test or a token of its own. The message of the fatal log
  asks for the next token.\<close>

definition lex_hash :: "token pop \<Rightarrow> token pop" where
  "lex_hash again =
    sbind (asks (\<lambda>s. (PeekChar 1 s, IsParsingArgs s))) (\<lambda>(d, parsing_args).
    if tolower d = CHR ''f'' then short_token 2 T_LiteralFalse
    else if tolower d = CHR ''t'' then short_token 2 T_LiteralTrue
    else if IsValidIdentifierChar parsing_args d False then
      sthen (Advance 1)
        (sthen clear_buffer
          (sthen (buffer_while (\<lambda>s. at_identifier s \<and> PeekChar 0 s \<noteq> CHR ''?''))
            (sbind (asks (PeekChar 0)) (\<lambda>c.
             if c \<noteq> CHR ''?'' then sthen again (fails LogFatal)
             else sthen (Advance 1) (buffered_token (T_Node N_InstanceOfExpr))))))
    else sthen (Advance 1) (new_token T_Hash ''#''))"

text \<open>The switch on the next character; blanks and comments start over.\<close>

fun lex :: "nat \<Rightarrow> token pop" where
  "lex fuel =
    (let again = (case fuel of 0 \<Rightarrow> fails OutOfFuel | Suc n \<Rightarrow> lex n) in
    sbind (asks (\<lambda>s. (PeekChar 0 s, PeekChar 1 s, PeekChar 2 s, PeekChar 3 s))) (\<lambda>(c, c1, c2, c3).
    case map_of operator_chars c of
      Some kind \<Rightarrow> short_token 1 kind
    | None \<Rightarrow>
      if c = CHR ''.'' then
        if c1 = CHR ''.'' \<and> c2 = CHR ''.'' then
          sbind (asks IsParsingArgs) (\<lambda>parsing_args.
          short_token 3 (if parsing_args then T_DotDotDot else T_Range))
        else short_token 1 T_Dot
      else if c = CHR ''#'' then lex_hash again
      else if c = CHR ''$'' then
        sbind (asks IsDispatching) (\<lambda>dispatching.
        if dispatching then if isdigit c1 then lex_argument_number else lex_next_argument
        else if c1 = CHR ''('' then short_token 2 T_Dispatch
        else lex_other)
      else if c = CHR 0x0A \<or> c = CHR 0x09 \<or> c = CHR 0x0D \<or> c = CHR '' '' then sthen (Advance 1) again
      else if c = CHR '';'' then sthen (AdvanceUntil (CHR 0x0A)) again
      else if c = CHR ''<'' then
        if c1 = CHR ''='' then short_token 2 (T_BinaryOp BLessThanEqual) else short_token 1 (T_BinaryOp BLessThan)
      else if c = CHR ''>'' then
        if c1 = CHR ''='' then short_token 2 (T_BinaryOp BGreaterThanEqual)
        else short_token 1 (T_BinaryOp BGreaterThan)
      else if c = EOF then new_token T_EndOfStream []
      else if c = CHR '':'' \<and> c1 = CHR ''-'' \<and> c2 = CHR ''>'' then lex_prefixed 3 (T_Node N_CastExpr)
      else if c = CHR ''n'' \<and> c1 = CHR ''e'' \<and> c2 = CHR ''w'' \<and> c3 = CHR '':'' then
        lex_prefixed 4 (T_Node N_NewExpr)
      else lex_other))"

declare lex.simps [simp del]

text \<open>\<open>Parser::NextToken\<close>. Every time the lexer starts over it has taken a character.\<close>

definition NextToken :: "token pop" where
  "NextToken =
    sbind (asks ps_peek) (\<lambda>peek.
    if \<not> tk_IsInvalid peek then
      sthen (modifies (\<lambda>s. s\<lparr>ps_next := peek, ps_peek := no_token\<rparr>)) (ret peek)
    else sbind (asks chars_left) lex)"

definition PeekToken :: "token pop" where
  "PeekToken =
    sbind (asks ps_peek) (\<lambda>peek.
    if \<not> tk_IsInvalid peek then ret peek
    else sbind NextToken (\<lambda>t. sthen (modifies (\<lambda>s. s\<lparr>ps_peek := t\<rparr>)) (ret t)))"

definition PeekKind :: "token_kind pop" where
  "PeekKind = sbind PeekToken (\<lambda>t. ret (tk_kind t))"

definition PeekEq :: "token_kind \<Rightarrow> bool pop" where
  "PeekEq kind = sbind PeekKind (\<lambda>k. ret (k = kind))"

text \<open>\<open>ExpectNext\<close> logs a token of another kind and goes on with it.\<close>

definition ExpectNext :: "token_kind \<Rightarrow> token pop" where
  "ExpectNext kind = NextToken"

text \<open>\<open>Parser::Parser\<close>: the whole stream is the first chunk.\<close>

definition new_Parser :: "string \<Rightarrow> nat \<Rightarrow> runtime \<Rightarrow> (unit \<times> parser) res" where
  "new_Parser stream scope rt =
    rbind (ReadNextChunk (length stream)
      \<lparr>ps_rt = rt, ps_stream = stream, ps_good = True, ps_scope = scope,
       ps_chunk = replicate (length stream) (CHR 0x00), ps_buffer = [],
       ps_pos = \<lparr>pos_row = 0, pos_column = 0\<rparr>, ps_wpos = 0, ps_rpos = 0, ps_depth = 0,
       ps_next = no_token, ps_peek = no_token, ps_script = 0, ps_module = 0, ps_namespace = 0,
       ps_dispatched = -1, ps_args = False\<rparr>) (\<lambda>(_, s). Inr ((), s))"

end
