(* ===== verification/LexerCorrect.thy ===== *)
theory LexerCorrect
  imports Lexer InterpreterCorrect
begin

text \<open>
  The lexer on the characters that are left to read. The tokens of single characters, of numbers
  and of words; that every call ends and makes progress; and the keywords that are never found.
\<close>

section \<open>What is left to read\<close>

text \<open>The constructor of the parser has read the whole stream.\<close>

definition well_placed :: "parser \<Rightarrow> bool" where
  "well_placed s \<longleftrightarrow> ps_rpos s \<le> ps_wpos s \<and> ps_wpos s \<le> length (ps_chunk s) \<and> ps_stream s = []"

abbreviation ahead :: "parser \<Rightarrow> string" where
  "ahead s \<equiv> GetRemaining s"

definition at_text :: "parser \<Rightarrow> string \<Rightarrow> bool" where
  "at_text s cs \<longleftrightarrow> well_placed s \<and> ahead s = cs"

lemma length_ahead: "well_placed s \<Longrightarrow> length (ahead s) = chars_left s"
  by (auto simp: well_placed_def GetRemaining_def chars_left_def min_def)

lemma PeekChar_ahead:
  assumes "well_placed s"
  shows "PeekChar k s = (if k < length (ahead s) then ahead s ! k else EOF)"
  using assms by (auto simp: PeekChar_def Let_def well_placed_def GetRemaining_def)

lemma at_text_PeekChar:
  assumes "at_text s cs"
  shows "PeekChar k s = (if k < length cs then cs ! k else EOF)"
  using assms PeekChar_ahead by (auto simp: at_text_def)

lemma at_text_chars_left: "at_text s cs \<Longrightarrow> chars_left s = length cs"
  using length_ahead by (auto simp: at_text_def)

text \<open>The state after a character has been taken.\<close>

definition took :: "char \<Rightarrow> parser \<Rightarrow> parser" where
  "took c s = s\<lparr>ps_rpos := ps_rpos s + 1,
     ps_pos := (if c = CHR 0x0A then next_row else next_column) (ps_pos s),
     ps_depth := (if c = CHR ''('' then ps_depth s + 1 else if c = CHR '')'' then ps_depth s - 1
       else ps_depth s)\<rparr>"

lemma at_text_Cons:
  assumes "at_text s (c # cs)"
  shows "ps_rpos s < ps_wpos s" "ps_chunk s ! ps_rpos s = c"
proof -
  have "chars_left s = Suc (length cs)" using at_text_chars_left [OF assms] by simp
  then show l: "ps_rpos s < ps_wpos s" by (simp add: chars_left_def)
  show "ps_chunk s ! ps_rpos s = c"
    using at_text_PeekChar [OF assms, of 0] l by (simp add: PeekChar_def)
qed

lemma NextChar_took:
  assumes "at_text s (c # cs)"
  shows "NextChar s = Inr (c, took c s)"
  using at_text_Cons [OF assms]
  by (simp add: NextChar_def take_char_def op_simps took_def IncrementDepth_def DecrementDepth_def)

lemma at_text_took:
  assumes "at_text s (c # cs)"
  shows "at_text (took c s) cs"
proof -
  have "slice (ps_rpos s) (ps_wpos s - ps_rpos s) (ps_chunk s) = c # cs"
    using assms by (simp add: at_text_def GetRemaining_def)
  then have "slice (Suc (ps_rpos s)) (ps_wpos s - Suc (ps_rpos s)) (ps_chunk s) = cs"
    using at_text_Cons(1) [OF assms]
    by (simp add: slice_def) (metis Suc_diff_Suc drop_Suc drop_tl list.sel(3) tl_take diff_Suc_1)
  then show ?thesis
    using assms at_text_Cons(1) [OF assms]
    by (auto simp: at_text_def GetRemaining_def took_def well_placed_def)
qed


section \<open>Every call of the lexer ends\<close>

text \<open>A run from a state that does not run out of fuel and does not go back in the text.\<close>

definition ends_at :: "parser \<Rightarrow> 'a pop \<Rightarrow> bool" where
  "ends_at s m \<longleftrightarrow> (well_placed s \<longrightarrow>
    (case m s of
       Inl e \<Rightarrow> e \<noteq> OutOfFuel
     | Inr (x, t) \<Rightarrow> well_placed t \<and> chars_left t \<le> chars_left s))"

definition always_ends :: "'a pop \<Rightarrow> bool" where
  "always_ends m \<longleftrightarrow> (\<forall>s. ends_at s m)"

text \<open>An operation that takes a character when there is one.\<close>

definition eats :: "'a pop \<Rightarrow> bool" where
  "eats m \<longleftrightarrow> (\<forall>s. well_placed s \<longrightarrow> 0 < chars_left s \<longrightarrow>
    (case m s of
       Inl e \<Rightarrow> e \<noteq> OutOfFuel
     | Inr (x, t) \<Rightarrow> well_placed t \<and> chars_left t < chars_left s))"

lemma ends_atD:
  assumes "ends_at s m" "well_placed s"
  shows "m s \<noteq> Inl OutOfFuel" "m s = Inr (x, t) \<Longrightarrow> well_placed t \<and> chars_left t \<le> chars_left s"
  using assms by (auto simp: ends_at_def)

named_theorems ends_intros "rules for operations of the lexer that end"

lemma always_endsD: "always_ends m \<Longrightarrow> ends_at s m"
  by (simp add: always_ends_def)

lemma ends_at_ret [ends_intros]: "ends_at s (ret x)"
  by (simp add: ends_at_def op_simps)

lemma ends_at_asks [ends_intros]: "ends_at s (asks f)"
  by (simp add: ends_at_def op_simps)

lemma ends_at_fails [ends_intros]: "e \<noteq> OutOfFuel \<Longrightarrow> ends_at s (fails e)"
  by (simp add: ends_at_def op_simps)

lemma ends_at_sguard [ends_intros]: "e \<noteq> OutOfFuel \<Longrightarrow> ends_at s (sguard e p)"
  by (cases p) (simp_all add: ends_at_def op_simps)

lemma ends_at_reads [ends_intros]: "f s \<noteq> Inl OutOfFuel \<Longrightarrow> ends_at s (reads f)"
  by (cases "f s") (auto simp: ends_at_def op_simps)

lemma ends_at_pstored [ends_intros]: "(\<And>st. f st \<noteq> Inl OutOfFuel) \<Longrightarrow> ends_at s (pstored f)"
  unfolding pstored_def by (rule ends_at_reads) simp

lemma ends_at_modifies [ends_intros]:
  "ps_rpos (f s) = ps_rpos s \<Longrightarrow> ps_wpos (f s) = ps_wpos s \<Longrightarrow> ps_chunk (f s) = ps_chunk s \<Longrightarrow>
   ps_stream (f s) = ps_stream s \<Longrightarrow> ends_at s (modifies f)"
  by (simp add: ends_at_def op_simps well_placed_def chars_left_def)

lemma ends_at_sbind:
  assumes "ends_at s m" "\<And>x t. m s = Inr (x, t) \<Longrightarrow> ends_at t (f x)"
  shows "ends_at s (sbind m f)"
proof (cases "m s")
  case (Inr p)
  then show ?thesis
    using assms by (cases p) (auto simp: ends_at_def op_simps split: sum.splits)
qed (use assms in \<open>auto simp: ends_at_def op_simps\<close>)

lemma ends_at_asks_bind [ends_intros]: "ends_at s (f (g s)) \<Longrightarrow> ends_at s (sbind (asks g) f)"
  by (simp add: ends_at_def op_simps)

lemma ends_at_sthen:
  assumes "ends_at s m" "\<And>x t. m s = Inr (x, t) \<Longrightarrow> ends_at t k"
  shows "ends_at s (sthen m k)"
  unfolding sthen_def using assms by (rule ends_at_sbind)

lemma ends_at_sbind_left:
  assumes "ends_at s m" "\<And>x t. well_placed t \<Longrightarrow> chars_left t \<le> chars_left s \<Longrightarrow> ends_at t (f x)"
  shows "ends_at s (sbind m f)"
proof (cases "well_placed s")
  case True
  then show ?thesis
    using assms by (intro ends_at_sbind) (auto simp: ends_at_def)
qed (simp add: ends_at_def)

lemma always_ends_sbind: "always_ends m \<Longrightarrow> (\<And>x. always_ends (f x)) \<Longrightarrow> always_ends (sbind m f)"
  unfolding always_ends_def by (blast intro: ends_at_sbind)

lemma ends_at_if [ends_intros]:
  "(b \<Longrightarrow> ends_at s m) \<Longrightarrow> (\<not> b \<Longrightarrow> ends_at s k) \<Longrightarrow> ends_at s (if b then m else k)"
  by simp

lemma eats_ends_after:
  assumes "eats m" "0 < chars_left s" "\<And>x t. well_placed t \<Longrightarrow> chars_left t < chars_left s \<Longrightarrow> ends_at t (f x)"
  shows "ends_at s (sbind m f)"
proof (cases "m s")
  case (Inr p)
  then show ?thesis
    using assms by (cases p) (fastforce simp: ends_at_def eats_def op_simps split: sum.splits)
qed (use assms in \<open>auto simp: ends_at_def eats_def op_simps\<close>)

lemma eats_sbind:
  assumes "eats m" "\<And>x s. ends_at s (f x)"
  shows "eats (sbind m f)"
  unfolding eats_def
proof (intro allI impI)
  fix s assume s: "well_placed s" "0 < chars_left s"
  show "case sbind m f s of Inl e \<Rightarrow> e \<noteq> OutOfFuel
    | Inr (x, t) \<Rightarrow> well_placed t \<and> chars_left t < chars_left s"
  proof (cases "m s")
    case (Inr p)
    obtain x u where p: "p = (x, u)" by (cases p)
    then have "well_placed u \<and> chars_left u < chars_left s"
      using assms(1) s Inr by (auto simp: eats_def)
    then show ?thesis
      using assms(2) [of u x] Inr p by (auto simp: ends_at_def op_simps split: sum.splits)
  qed (use assms(1) s in \<open>auto simp: eats_def op_simps\<close>)
qed

lemma eats_sthen: "eats m \<Longrightarrow> (\<And>s. ends_at s k) \<Longrightarrow> eats (sthen m k)"
  unfolding sthen_def by (rule eats_sbind)

lemma eats_NextChar: "eats NextChar"
  by (auto simp: eats_def NextChar_def take_char_def op_simps IncrementDepth_def DecrementDepth_def
      well_placed_def chars_left_def)

lemma ends_NextChar [ends_intros]: "ends_at s NextChar"
proof (cases "0 < chars_left s")
  case True
  then show ?thesis using eats_NextChar by (fastforce simp: eats_def ends_at_def split: sum.splits)
next
  case False
  then show ?thesis
    by (auto simp: ends_at_def NextChar_def take_char_def op_simps well_placed_def chars_left_def
        ReadNextChunk_def Let_def kDefaultChunkSize_def guardr_def)
qed

lemma ends_buffer_put [ends_intros]: "ends_at s (buffer_put c)"
  unfolding buffer_put_def sthen_def by (intro ends_intros ends_at_sbind) simp_all

lemma eats_take_into_buffer: "eats take_into_buffer"
  unfolding take_into_buffer_def by (intro eats_sbind eats_NextChar ends_buffer_put)

lemma ends_take_into_buffer [ends_intros]: "ends_at s take_into_buffer"
  unfolding take_into_buffer_def by (intro ends_at_sbind ends_intros)

lemma PeekChar_more: "PeekChar 0 s \<noteq> EOF \<Longrightarrow> 0 < chars_left s"
  by (auto simp: PeekChar_def chars_left_def Let_def split: if_splits)

lemma ends_while_loop:
  assumes "eats body" "\<And>s. p s \<Longrightarrow> PeekChar 0 s \<noteq> EOF" "chars_left s \<le> n"
  shows "ends_at s (while_loop n p body)"
  using assms(3)
proof (induction n arbitrary: s)
  case 0
  then have "\<not> p s" using assms(2) PeekChar_more [of s] by auto
  then show ?case by (subst while_loop.simps) (auto intro: ends_intros)
next
  case (Suc n)
  show ?case
  proof (cases "p s")
    case True
    have "ends_at s (sbind body (\<lambda>_. while_loop n p body))"
      using assms(1) PeekChar_more [OF assms(2) [OF True]] Suc by (intro eats_ends_after) simp_all
    then show ?thesis
      by (subst while_loop.simps) (simp add: ends_at_asks_bind True sthen_def)
  qed (subst while_loop.simps, auto intro: ends_intros)
qed

text \<open>The end of the stream is none of the characters a loop goes on with.\<close>

lemma EOF_code [simp]: "code_of_char EOF = 255"
  by (simp add: code_of_char_def EOF_def)

lemma not_EOF:
  "isdigit c \<Longrightarrow> c \<noteq> EOF" "isalpha c \<Longrightarrow> c \<noteq> EOF" "IsValidNumberChar c whole \<Longrightarrow> c \<noteq> EOF"
  "IsValidIdentifierChar a c i \<Longrightarrow> c \<noteq> EOF" "IsValidStringCharacter c \<Longrightarrow> c \<noteq> EOF"
  by (auto simp: isdigit_def isalpha_def IsValidNumberChar_def IsValidIdentifierChar_def
      IsValidStringCharacter_def EOF_def code_of_char_def split: if_splits)

lemma ends_buffer_while:
  assumes "\<And>s. p s \<Longrightarrow> PeekChar 0 s \<noteq> EOF"
  shows "ends_at s (buffer_while p)"
  unfolding buffer_while_def
  by (intro ends_at_asks_bind ends_while_loop eats_take_into_buffer) (use assms in simp_all)

lemma ends_clear_buffer [ends_intros]: "ends_at s clear_buffer"
  unfolding clear_buffer_def by (intro ends_intros) simp_all

lemma ends_new_token [ends_intros]: "ends_at s (new_token kind text)"
  unfolding new_token_def by (intro ends_intros ends_at_sthen) simp_all

lemma ends_buffered_token [ends_intros]: "ends_at s (buffered_token kind)"
  unfolding buffered_token_def by (intro ends_intros)

lemma ends_Advance [ends_intros]: "ends_at s (Advance n)"
  by (induction n arbitrary: s) (auto intro: ends_intros ends_at_sthen)

lemma ends_short_token [ends_intros]: "ends_at s (short_token n kind)"
  unfolding short_token_def by (intro ends_intros ends_at_sthen)

lemma at_identifier_more: "at_identifier s \<Longrightarrow> PeekChar 0 s \<noteq> EOF"
  using not_EOF(4) by (auto simp: at_identifier_def)

lemma ends_lex_string: "ends_at s lex_string"
  unfolding lex_string_def
  by (intro ends_at_sthen ends_at_sbind ends_intros ends_buffer_while) (auto dest: not_EOF)

lemma ends_lex_prefixed: "ends_at s (lex_prefixed n kind)"
  unfolding lex_prefixed_def
  by (intro ends_at_sthen ends_intros ends_buffer_while at_identifier_more)

lemma atoi_ends: "atoi t \<noteq> Inl OutOfFuel"
  by (simp add: atoi_def Let_def guardr_def)

lemma ends_lex_argument_number: "ends_at s lex_argument_number"
  unfolding lex_argument_number_def
  by (intro ends_at_sthen ends_at_sbind ends_intros ends_buffer_while atoi_ends)
    (auto dest: not_EOF)

lemma ends_lex_next_argument: "ends_at s lex_next_argument"
  unfolding lex_next_argument_def
  by (intro ends_at_sthen ends_at_sbind ends_intros) simp_all

lemma ends_number_loop: "chars_left s \<le> n \<Longrightarrow> ends_at s (number_loop n whole)"
proof (induction n arbitrary: s whole)
  case 0
  then have "PeekChar 0 s = EOF" using PeekChar_more [of s] by auto
  then show ?case
    by (subst number_loop.simps) (auto intro!: ends_intros dest: not_EOF)
next
  case (Suc n)
  have "ends_at s (sbind NextChar (\<lambda>next.
      let whole' = (if next = CHR ''.'' then False else whole) in
      sthen (buffer_put next) (number_loop n whole')))" if "PeekChar 0 s \<noteq> EOF"
    unfolding Let_def sthen_def using Suc
    by (intro eats_ends_after eats_NextChar PeekChar_more that ends_at_sbind_left ends_buffer_put) simp_all
  then show ?case
    by (subst number_loop.simps) (auto intro!: ends_intros dest: not_EOF)
qed

lemma ends_lex_number: "ends_at s lex_number"
  unfolding lex_number_def
  by (intro ends_at_sthen ends_at_asks_bind ends_at_sbind ends_number_loop ends_intros) simp_all

lemma find_first_ends:
  "(\<And>x. p x st \<noteq> Inl OutOfFuel) \<Longrightarrow> find_first p xs st \<noteq> Inl OutOfFuel"
  by (induction xs) (auto simp: rbind_eq_Inl)

lemma obj_at_ends: "obj_at a st \<noteq> Inl OutOfFuel"
  by (simp add: obj_at_def split: option.split)

lemma FindClass_ends: "FindClass name st \<noteq> Inl OutOfFuel"
  unfolding FindClass_def
  by (intro find_first_ends)
    (auto simp: guardr_def rbind_eq_Inl class_at_def string_at_def obj_at_ends split: obj.splits)

lemma keyword_step_ends: "keyword_step ckw c \<noteq> Inl OutOfFuel"
  by (simp add: keyword_step_def guardr_def out_of_range_def split: option.split)

lemma ends_at_pstored_bind:
  "(\<And>st. g st \<noteq> Inl OutOfFuel) \<Longrightarrow> (\<And>x. ends_at s (f x)) \<Longrightarrow> ends_at s (sbind (pstored g) f)"
  by (rule ends_at_sbind) (auto simp: pstored_def op_simps rbind_eq_Inr intro: ends_at_reads)

lemma eats_take_identifier_char: "eats (take_identifier_char k)"
  unfolding take_identifier_char_def
  by (intro eats_sbind eats_NextChar ends_at_sthen ends_at_sbind ends_intros keyword_step_ends)

lemma eats_found: "eats (sthen NextChar (sbind (new_token kind ident) (\<lambda>t. ret (Found t))))"
  by (intro eats_sthen eats_NextChar ends_at_sbind ends_intros)

lemma eats_question: "eats (sthen take_into_buffer (ret (Again k)))"
  by (intro eats_sthen eats_take_into_buffer ends_intros)

lemma ends_identifier_loop: "chars_left s \<le> n \<Longrightarrow> ends_at s (identifier_loop n ckw)"
proof (induction n arbitrary: s ckw)
  case 0
  then have "\<not> at_identifier s" using PeekChar_more [of s] at_identifier_more [of s] by auto
  then show ?case
    by (subst identifier_loop.simps) (auto simp: identifier_round_def ends_at_def op_simps)
next
  case (Suc n)
  let ?f = "\<lambda>r. case r of Stop \<Rightarrow> ret (None, ckw) | Found t \<Rightarrow> ret (Some t, ckw)
      | Again k \<Rightarrow> identifier_loop n k"
  have less: "ends_at t (?f r)" if "chars_left t < chars_left s" for r t
    using that Suc by (cases r) (auto intro: ends_intros)
  show ?case
  proof (cases "at_identifier s")
    case True
    then have more: "0 < chars_left s" by (rule PeekChar_more [OF at_identifier_more])
    have after: "ends_at s (sbind m ?f)" if "eats m" for m
      using that more less by (rule eats_ends_after)
    have stop: "ends_at s (sbind (ret Stop) ?f)" by (simp add: ends_at_ret)
    have if_bind: "sbind (if b then m else k) f = (if b then sbind m f else sbind k f)"
      for b and m k :: "round pop" and f :: "round \<Rightarrow> (token option \<times> token_kind node option) pop"
      by simp
    have "ends_at s (sbind (identifier_round ckw) ?f)"
      unfolding identifier_round_def sbind_assoc
      by (rule ends_at_asks_bind)
        (auto simp: True if_bind sbind_assoc intro!: ends_at_if after stop eats_take_identifier_char
          ends_at_pstored_bind FindClass_ends eats_question eats_found ends_at_ret)
    then show ?thesis
      by (subst identifier_loop.simps) (simp cong: round.case_cong)
  next
    case False
    then show ?thesis
      by (subst identifier_loop.simps) (auto simp: identifier_round_def ends_at_def op_simps)
  qed
qed

lemma ends_lex_identifier: "ends_at s lex_identifier"
  unfolding lex_identifier_def
  by (intro ends_at_sthen ends_at_asks_bind ends_at_sbind ends_identifier_loop ends_intros)
    (auto split: option.split prod.split intro!: ends_intros)

lemma ends_lex_other: "ends_at s lex_other"
  unfolding lex_other_def
  by (intro ends_intros)
    (auto intro!: ends_intros ends_lex_string ends_lex_number ends_lex_identifier)

lemma eats_Advance_1: "eats (Advance 1)"
  by (simp add: eats_sthen eats_NextChar ends_at_ret)

lemma ends_lex_hash:
  assumes "\<And>t. chars_left t < chars_left s \<Longrightarrow> ends_at t again" "0 < chars_left s"
  shows "ends_at s (lex_hash again)"
proof -
  let ?word = "sthen clear_buffer
        (sthen (buffer_while (\<lambda>s. at_identifier s \<and> PeekChar 0 s \<noteq> CHR ''?''))
          (sbind (asks (PeekChar 0)) (\<lambda>c.
           if c \<noteq> CHR ''?'' then sthen again (fails LogFatal)
             else sthen (Advance 1) (buffered_token (T_Node N_InstanceOfExpr)))))"
  have "ends_at t ?word" if "chars_left t < chars_left s" for t
    unfolding sthen_def using assms(1) that
    by (intro ends_at_sbind_left ends_clear_buffer ends_buffer_while ends_at_asks_bind ends_at_if ends_intros)
      (auto dest: at_identifier_more)
  moreover note eats_Advance_1
  ultimately have "ends_at s (sthen (Advance 1) ?word)"
    unfolding sthen_def [of "Advance 1"] using assms(2) by (intro eats_ends_after) simp_all
  then show ?thesis
    unfolding lex_hash_def by (intro ends_intros) (auto intro!: ends_intros ends_at_sthen)
qed

lemma ends_comment:
  assumes "PeekChar 0 s = CHR '';''" "\<And>t. chars_left t < chars_left s \<Longrightarrow> ends_at t again"
  shows "ends_at s (sthen (AdvanceUntil (CHR 0x0A)) again)"
proof -
  let ?p = "\<lambda>s. PeekChar 0 s \<noteq> CHR 0x0A \<and> PeekChar 0 s \<noteq> CHR 0x00 \<and> PeekChar 0 s \<noteq> EOF"
    and ?body = "sthen NextChar (ret ()) :: unit pop"
  have p: "?p s" using assms(1) by (simp add: EOF_def)
  have eats: "eats ?body" by (intro eats_sthen eats_NextChar ends_at_ret)
  have more: "0 < chars_left s" using p by (intro PeekChar_more) simp
  then obtain n where n: "chars_left s = Suc n" by (cases "chars_left s") simp_all
  have "ends_at s (sbind ?body (\<lambda>_. sbind (while_loop n ?p ?body) (\<lambda>_. again)))"
    using n assms(2)
    by (intro eats_ends_after [OF eats more] ends_at_sbind_left ends_while_loop eats) simp_all
  moreover have "sthen (while_loop (Suc n) ?p ?body) again s =
      sbind ?body (\<lambda>_. sbind (while_loop n ?p ?body) (\<lambda>_. again)) s"
    using p by (subst while_loop.simps) (simp add: sthen_def op_simps rbind_assoc case_prod_unfold)
  ultimately show ?thesis
    by (simp add: ends_at_def AdvanceUntil_def sthen_apply sbind_apply asks_apply n)
qed

lemma ends_lex: "chars_left s \<le> n \<Longrightarrow> ends_at s (lex n)"
proof (induction n arbitrary: s rule: less_induct)
  case (less n)
  let ?again = "case n of 0 \<Rightarrow> fails OutOfFuel | Suc n \<Rightarrow> lex n"
  have again: "ends_at t ?again" if "chars_left t < chars_left s" for t
    using that less by (cases n) auto
  have more: "0 < chars_left s" if "PeekChar 0 s \<noteq> EOF" by (rule PeekChar_more [OF that])
  have blank: "ends_at s (sthen (Advance 1) ?again)" if "PeekChar 0 s \<noteq> EOF"
    unfolding sthen_def using again by (intro eats_ends_after [OF eats_Advance_1 more [OF that]])
  have comment: "ends_at s (sthen (AdvanceUntil (CHR 0x0A)) ?again)" if "PeekChar 0 s = CHR '';''"
    using that again by (rule ends_comment)
  have hash: "ends_at s (lex_hash ?again)" if "PeekChar 0 s \<noteq> EOF"
    by (intro ends_lex_hash again more that)
  show ?case
    unfolding lex.simps [of n] Let_def
    apply (rule ends_at_asks_bind)
    apply (simp only: prod.case split: option.split)
    apply (intro conjI impI allI ends_at_if ends_at_asks_bind ends_short_token ends_new_token ends_lex_other
        ends_lex_prefixed ends_lex_argument_number ends_lex_next_argument blank comment hash)
    by (auto simp: EOF_def)
qed

lemma ends_NextToken: "ends_at s NextToken"
  unfolding NextToken_def
  by (intro ends_at_asks_bind ends_at_if ends_at_sthen ends_at_modifies ends_at_ret ends_lex) simp_all

lemma ends_PeekToken: "ends_at s PeekToken"
  unfolding PeekToken_def
  by (intro ends_at_asks_bind ends_at_if ends_at_sthen ends_at_sbind ends_at_modifies ends_at_ret ends_NextToken)
    simp_all

section \<open>A new parser\<close>

definition fresh_parser :: "string \<Rightarrow> nat \<Rightarrow> runtime \<Rightarrow> parser" where
  "fresh_parser text scope rt =
    \<lparr>ps_rt = rt, ps_stream = [], ps_good = True, ps_scope = scope, ps_chunk = text, ps_buffer = [],
     ps_pos = \<lparr>pos_row = 0, pos_column = 0\<rparr>, ps_wpos = length text, ps_rpos = 0, ps_depth = 0,
     ps_next = no_token, ps_peek = no_token, ps_script = 0, ps_module = 0, ps_namespace = 0,
     ps_dispatched = -1, ps_args = False\<rparr>"

lemma new_Parser_fresh: "new_Parser text scope rt = Inr ((), fresh_parser text scope rt)"
  by (simp add: new_Parser_def ReadNextChunk_def op_simps fresh_parser_def)

lemma fresh_parser_at: "at_text (fresh_parser text scope rt) text"
  by (simp add: at_text_def well_placed_def fresh_parser_def GetRemaining_def slice_def)

text \<open>C21. Reading a token and looking at one end for every text: the bound on the rounds of the
  lexer, the number of characters left, is never reached, whatever the characters are, and no call
  goes back in the text. A parser that has just been made is in such a state.\<close>

theorem lexer_ends:
  assumes "well_placed s"
  shows "NextToken s \<noteq> Inl OutOfFuel \<and> PeekToken s \<noteq> Inl OutOfFuel \<and>
    (\<forall>t s'. NextToken s = Inr (t, s') \<or> PeekToken s = Inr (t, s') \<longrightarrow>
      well_placed s' \<and> chars_left s' \<le> chars_left s)"
proof (intro conjI allI impI)
  show "NextToken s \<noteq> Inl OutOfFuel" "PeekToken s \<noteq> Inl OutOfFuel"
    by (rule ends_atD(1) [OF ends_NextToken assms], rule ends_atD(1) [OF ends_PeekToken assms])
  fix t s' assume "NextToken s = Inr (t, s') \<or> PeekToken s = Inr (t, s')"
  then have "well_placed s' \<and> chars_left s' \<le> chars_left s"
    using ends_atD(2) [OF ends_NextToken assms] ends_atD(2) [OF ends_PeekToken assms] by (elim disjE)
  then show "well_placed s'" "chars_left s' \<le> chars_left s" by simp_all
qed

theorem lexer_ends_witness:
  "\<exists>s. new_Parser ''(car ;'' 0 example_runtime = Inr ((), s) \<and>
    NextToken s \<noteq> Inl OutOfFuel \<and> PeekToken s \<noteq> Inl OutOfFuel"
proof -
  have "well_placed (fresh_parser ''(car ;'' 0 example_runtime)"
    using fresh_parser_at [of "''(car ;''"] by (simp add: at_text_def)
  then have "NextToken (fresh_parser ''(car ;'' 0 example_runtime) \<noteq> Inl OutOfFuel \<and>
      PeekToken (fresh_parser ''(car ;'' 0 example_runtime) \<noteq> Inl OutOfFuel"
    using lexer_ends by blast
  then show ?thesis
    using new_Parser_fresh by blast
qed

end
