(* ===== verification/LexerTexts.thy ===== *)
theory LexerTexts
  imports LexerCorrect
begin

text \<open>
  What the lexer reads from given texts: punctuation, operators, numbers and words; and the view
  of the parser's state as a text still to be read, with or without a token peeked at.
\<close>

section \<open>Tokens of a text\<close>

text \<open>What lexing leaves as it was.\<close>

definition same_rest :: "parser \<Rightarrow> parser \<Rightarrow> bool" where
  "same_rest s t \<longleftrightarrow>
    ps_rt t = ps_rt s \<and> ps_scope t = ps_scope s \<and> ps_script t = ps_script s \<and> ps_module t = ps_module s \<and>
    ps_namespace t = ps_namespace s \<and> ps_dispatched t = ps_dispatched s \<and> ps_args t = ps_args s"

lemma same_rest_refl [simp]: "same_rest s s"
  by (simp add: same_rest_def)

lemma same_rest_trans: "same_rest s t \<Longrightarrow> same_rest t u \<Longrightarrow> same_rest s u"
  by (simp add: same_rest_def)

definition yields :: "token pop \<Rightarrow> parser \<Rightarrow> token_kind \<Rightarrow> string \<Rightarrow> string \<Rightarrow> bool" where
  "yields m s kind text cs \<longleftrightarrow>
    (\<exists>t s'. m s = Inr (t, s') \<and> tk_kind t = kind \<and> tk_text t = text \<and> at_text s' cs \<and>
      ps_peek s' = ps_peek s \<and> same_rest s s')"

lemma took_rest [simp]: "same_rest s (took c s)" "ps_peek (took c s) = ps_peek s"
    "ps_buffer (took c s) = ps_buffer s" "ps_args (took c s) = ps_args s"
  by (simp_all add: same_rest_def took_def)

lemma at_text_update [simp]:
  "at_text (s\<lparr>ps_buffer := b\<rparr>) cs = at_text s cs" "at_text (s\<lparr>ps_next := t\<rparr>) cs = at_text s cs"
  "at_text (s\<lparr>ps_peek := t\<rparr>) cs = at_text s cs" "at_text (s\<lparr>ps_rt := rt\<rparr>) cs = at_text s cs"
  "at_text (s\<lparr>ps_scope := i\<rparr>) cs = at_text s cs"
  by (simp_all add: at_text_def well_placed_def GetRemaining_def)

lemma yields_new_token:
  assumes "at_text s cs"
  shows "yields (new_token kind text) s kind text cs"
  using assms by (simp add: yields_def new_token_def op_simps same_rest_def)

lemma yields_then:
  assumes "m s = Inr (x, s1)" "yields k s1 kind text cs" "ps_peek s1 = ps_peek s" "same_rest s s1"
  shows "yields (sthen m k) s kind text cs" "yields (sbind m (\<lambda>_. k)) s kind text cs"
  using assms same_rest_trans by (auto simp: yields_def op_simps)

lemma Advance_took:
  assumes "at_text s (ds @ cs)"
  shows "\<exists>s'. Advance (length ds) s = Inr ((), s') \<and> at_text s' cs \<and> ps_peek s' = ps_peek s \<and> same_rest s s'"
  using assms
proof (induction ds arbitrary: s)
  case Nil
  then show ?case by (simp add: op_simps)
next
  case (Cons c ds)
  have a: "at_text s (c # ds @ cs)" using Cons.prems by simp
  obtain s' where "Advance (length ds) (took c s) = Inr ((), s')" "at_text s' cs"
      "ps_peek s' = ps_peek (took c s)" "same_rest (took c s) s'"
    using Cons.IH [OF at_text_took [OF a]] by blast
  then show ?case
    using NextChar_took [OF a] same_rest_trans [OF took_rest(1)] by (auto simp: op_simps)
qed

lemma yields_short_token:
  assumes "at_text s (ds @ cs)"
  shows "yields (short_token (length ds) kind) s kind [] cs"
proof -
  obtain s' where "Advance (length ds) s = Inr ((), s')" "at_text s' cs" "ps_peek s' = ps_peek s" "same_rest s s'"
    using Advance_took [OF assms] by blast
  then show ?thesis
    unfolding short_token_def by (intro yields_then yields_new_token)
qed

text \<open>The tokens of single characters.\<close>

lemma yields_operator_char:
  assumes "at_text s (c # cs)" "map_of operator_chars c = Some kind"
  shows "yields (lex n) s kind [] cs"
  using yields_short_token [of s "[c]" cs kind] assms at_text_PeekChar [OF assms(1), of 0]
  by (subst lex.simps) (simp add: yields_def Let_def sbind_apply asks_apply)

lemma yields_blank:
  assumes "at_text s (CHR '' '' # cs)"
    and "\<And>t. at_text t cs \<Longrightarrow> ps_peek t = ps_peek s \<Longrightarrow> same_rest s t \<Longrightarrow> yields (lex n) t kind text ds"
  shows "yields (lex (Suc n)) s kind text ds"
proof -
  obtain s' where s': "Advance (length '' '') s = Inr ((), s')" "at_text s' cs" "ps_peek s' = ps_peek s" "same_rest s s'"
    using Advance_took [of s "'' ''" cs] assms(1) by auto
  then have "yields (sthen (Advance (length '' '')) (lex n)) s kind text ds"
    using assms(2) by (intro yields_then(1)) auto
  then show ?thesis
    using at_text_PeekChar [OF assms(1), of 0]
    by (subst lex.simps) (simp add: yields_def Let_def sbind_apply asks_apply operator_chars_def)
qed

text \<open>Comparisons, by the character that follows.\<close>

lemma yields_comparison:
  assumes "at_text s (ds @ CHR '' '' # cs)"
    and "(ds, op) \<in> {(''<'', BLessThan), (''<='', BLessThanEqual), (''>'', BGreaterThan), (''>='', BGreaterThanEqual)}"
  shows "yields (lex n) s (T_BinaryOp op) [] (CHR '' '' # cs)"
proof -
  have y: "yields (short_token (length ds) (T_BinaryOp op)) s (T_BinaryOp op) [] (CHR '' '' # cs)"
    using assms(1) by (rule yields_short_token)
  have p: "PeekChar 0 s = ds ! 0" "PeekChar 1 s = (ds @ '' '') ! 1"
    using at_text_PeekChar [OF assms(1), of 0] at_text_PeekChar [OF assms(1), of 1] assms(2)
    by (auto simp: nth_append)
  consider "ds = ''<''" "op = BLessThan" | "ds = ''<=''" "op = BLessThanEqual"
    | "ds = ''>''" "op = BGreaterThan" | "ds = ''>=''" "op = BGreaterThanEqual"
    using assms(2) by auto
  then show ?thesis
  proof cases
    case 1
    with y p show ?thesis
      by (subst lex.simps) (simp add: yields_def Let_def sbind_apply asks_apply operator_chars_def)
  next
    case 2
    with y p show ?thesis
      by (subst lex.simps)
        (simp add: yields_def Let_def sbind_apply asks_apply operator_chars_def eval_nat_numeral)
  next
    case 3
    with y p show ?thesis
      by (subst lex.simps) (simp add: yields_def Let_def sbind_apply asks_apply operator_chars_def)
  next
    case 4
    with y p show ?thesis
      by (subst lex.simps)
        (simp add: yields_def Let_def sbind_apply asks_apply operator_chars_def eval_nat_numeral)
  qed
qed

text \<open>Texts that begin with none of the special characters.\<close>

definition special_chars :: "char list" where
  "special_chars = map fst operator_chars @
    [CHR ''.'', CHR ''#'', CHR ''$'', CHR 0x0A, CHR 0x09, CHR 0x0D, CHR '' '', CHR '';'', CHR ''<'', CHR ''>'',
      EOF, CHR '':'']"

lemma lex_plain:
  assumes "PeekChar 0 s \<notin> set special_chars"
    and "PeekChar 0 s = CHR ''n'' \<longrightarrow> PeekChar 1 s \<noteq> CHR ''e'' \<or> PeekChar 2 s \<noteq> CHR ''w'' \<or> PeekChar 3 s \<noteq> CHR '':''"
  shows "lex n s = lex_other s"
proof -
  have "map_of operator_chars (PeekChar 0 s) = None"
    using assms(1) by (simp add: map_of_eq_None_iff special_chars_def)
  then show ?thesis
    using assms by (subst lex.simps) (auto simp: special_chars_def Let_def sbind_apply asks_apply)
qed

lemma special_not_alnum: "\<forall>c\<in>set special_chars. \<not> isdigit c \<and> \<not> isalpha c"
  by (simp add: special_chars_def operator_chars_def isdigit_def isalpha_def code_of_char_def EOF_def)

section \<open>Numbers\<close>

text \<open>Where a number or a word of letters ends.\<close>

definition delimited :: "string \<Rightarrow> bool" where
  "delimited cs \<longleftrightarrow> cs = [] \<or> hd cs = CHR '' '' \<or> hd cs = CHR '')''"

lemma delimited_PeekChar:
  "at_text s cs \<Longrightarrow> delimited cs \<Longrightarrow> PeekChar 0 s \<in> {EOF, CHR '' '', CHR '')''}"
  by (cases cs) (auto simp: delimited_def at_text_PeekChar)

lemma number_loop_digits:
  assumes "at_text s (ds @ cs)" "\<forall>c\<in>set ds. isdigit c" "delimited cs" "length (ps_buffer s) + length ds \<le> 1024"
    and "length ds \<le> n"
  shows "\<exists>s'. number_loop n True s = Inr (True, s') \<and> at_text s' cs \<and> ps_buffer s' = ps_buffer s @ ds \<and>
    ps_peek s' = ps_peek s \<and> same_rest s s'"
  using assms
proof (induction ds arbitrary: s n)
  case Nil
  then have "PeekChar 0 s \<in> {EOF, CHR '' '', CHR '')''}" using delimited_PeekChar [of s cs] by simp
  then have "\<not> IsValidNumberChar (PeekChar 0 s) True"
    by (auto simp: IsValidNumberChar_def isdigit_def code_of_char_def EOF_def)
  then show ?case
    using Nil by (subst number_loop.simps) (simp add: op_simps)
next
  case (Cons c ds)
  have a: "at_text s (c # ds @ cs)" using Cons.prems(1) by simp
  have c: "PeekChar 0 s = c" "isdigit c" "c \<noteq> CHR ''.''"
    using at_text_PeekChar [OF a, of 0] Cons.prems(2) by (auto simp: isdigit_def code_of_char_def)
  obtain m where n: "n = Suc m" using Cons.prems(5) by (cases n) auto
  let ?s = "(took c s)\<lparr>ps_buffer := ps_buffer s @ [c]\<rparr>"
  obtain s' where s': "number_loop m True ?s = Inr (True, s')" "at_text s' cs"
      "ps_buffer s' = ps_buffer ?s @ ds" "ps_peek s' = ps_peek ?s" "same_rest ?s s'"
    using Cons.IH [of ?s m] Cons.prems at_text_took [OF a] n by auto
  have "number_loop n True s = Inr (True, s')"
    using s'(1) c Cons.prems(4) n NextChar_took [OF a]
    by (subst number_loop.simps)
      (simp add: op_simps Let_def IsValidNumberChar_def buffer_put_def kDefaultBufferSize_def)
  moreover have "same_rest s s'" using s'(5) by (simp add: same_rest_def took_def)
  ultimately show ?case using s' by auto
qed

lemma yields_number:
  assumes "at_text s (ds @ cs)" "ds \<noteq> []" "\<forall>c\<in>set ds. isdigit c" "delimited cs" "length ds \<le> 1024"
  shows "yields (lex n) s T_LiteralLong ds cs"
proof -
  obtain c es where ds: "ds = c # es" using assms(2) by (cases ds) simp_all
  have c: "PeekChar 0 s = c" "isdigit c"
    using at_text_PeekChar [OF assms(1), of 0] assms(3) ds by auto
  let ?s = "s\<lparr>ps_buffer := []\<rparr>"
  obtain s' where s': "number_loop (chars_left ?s) True ?s = Inr (True, s')" "at_text s' cs"
      "ps_buffer s' = ps_buffer ?s @ ds" "ps_peek s' = ps_peek ?s" "same_rest ?s s'"
    using number_loop_digits [of ?s ds cs "chars_left ?s"] at_text_chars_left [of ?s "ds @ cs"] assms by auto
  have "yields (buffered_token T_LiteralLong) s' T_LiteralLong ds cs"
    using yields_new_token [OF s'(2), of T_LiteralLong ds] s'(3)
    by (simp add: buffered_token_def yields_def op_simps GetBufferedText_def)
  then have "yields lex_number s T_LiteralLong ds cs"
    using s'(1,4,5)
    by (auto simp: lex_number_def clear_buffer_def op_simps yields_def same_rest_def)
  moreover have "lex_other s = lex_number s"
    using c by (simp add: lex_other_def op_simps IsDoubleQuote_def isdigit_def)
      (auto simp: code_of_char_def)
  moreover have "PeekChar 0 s \<notin> set special_chars" using special_not_alnum c by auto
  moreover have "PeekChar 0 s \<noteq> CHR ''n''" using c by (auto simp: isdigit_def code_of_char_def)
  ultimately show ?thesis
    using lex_plain [of s n] by (simp add: yields_def)
qed

section \<open>Words\<close>

text \<open>The walk through the trie that goes with a word, and the keyword at its end.\<close>

fun walk_input :: "token_kind node option \<Rightarrow> string \<Rightarrow> token_kind node option" where
  "walk_input k [] = k"
| "walk_input None (c # cs) = None"
| "walk_input (Some n) (c # cs) = walk_input (Tries.children n c) cs"

lemma walk_None [simp]: "walk_input None w = None"
  by (cases w) simp_all

definition ending_kind :: "token_kind node option \<Rightarrow> token_kind" where
  "ending_kind k = (case k of Some n \<Rightarrow> if epsilon n then node_value n else T_Identifier | None \<Rightarrow> T_Identifier)"

lemma ending_kind_contents:
  "ending_kind (walk_input (Some n) w) = (case contents n w of Some k \<Rightarrow> k | None \<Rightarrow> T_Identifier)"
proof (induction w arbitrary: n)
  case Nil
  then show ?case by (cases n) (simp add: ending_kind_def)
next
  case (Cons c w)
  obtain e x ch where n: "n = Node e x ch" by (cases n)
  show ?case using Cons by (cases "ch c") (simp_all add: n ending_kind_def)
qed

lemma RegisterKeywords_insert_all: "RegisterKeywords kws t = trie_store.insert_all T_Invalid kws t"
  by (induction kws t rule: RegisterKeywords.induct) (auto intro: rbind_cong)

lemma keyword_contents: "contents keyword_trie = map_of keyword_table"
proof -
  have "list_all (\<lambda>kw. list_all in_alphabet (fst kw)) keyword_table"
    by (simp add: keyword_table_def in_alphabet_def kAlphabetSize_def)
  then have "\<forall>k\<in>fst ` set keyword_table. key_in_alphabet k"
    by (auto simp: list_all_iff key_in_alphabet_def)
  then obtain t where t: "trie_store.insert_all T_Invalid keyword_table (new_node T_Invalid) = Inr t"
      "contents t = contents (new_node T_Invalid) ++ map_of (rev keyword_table)"
    using trie_store.insert_all_look [where kvs = keyword_table and t = "new_node T_Invalid" and d = T_Invalid]
    by (elim meta_impE exE conjE) simp
  have "distinct (map fst keyword_table)" by (simp add: keyword_table_def)
  then have "map_of (rev keyword_table) = map_of keyword_table"
    by (simp add: map_of_inject_set flip: rev_map)
  then have "contents t = map_of keyword_table"
    using t(2) by (simp add: fun_eq_iff map_add_def split: option.split)
  then show ?thesis
    using t(1) by (simp add: keyword_trie_def RegisterKeywords_insert_all)
qed

definition word_kind :: "string \<Rightarrow> token_kind" where
  "word_kind w = (case map_of keyword_table w of Some k \<Rightarrow> k | None \<Rightarrow> T_Identifier)"

lemma ending_kind_word: "ending_kind (walk_input (Some keyword_trie) w) = word_kind w"
  by (simp add: ending_kind_contents keyword_contents word_kind_def)

lemma isalpha_letter: "isalpha c \<Longrightarrow> c \<noteq> CHR ''?'' \<and> c \<noteq> CHR ''.'' \<and> in_alphabet c \<and> IsValidIdentifierChar a c i"
  by (auto simp: isalpha_def in_alphabet_def kAlphabetSize_def IsValidIdentifierChar_def code_of_char_def)

lemma walk_Cons: "walk_input k (c # w) = walk_input (case k of None \<Rightarrow> None | Some n \<Rightarrow> Tries.children n c) w"
  by (cases k) simp_all

lemma identifier_loop_letters:
  assumes "at_text s (w @ cs)" "\<forall>c\<in>set w. isalpha c" "length (ps_buffer s) + length w \<le> 1024" "length w \<le> n"
  shows "\<exists>s'. identifier_loop n k s = identifier_loop (n - length w) (walk_input k w) s' \<and> at_text s' cs \<and>
    ps_buffer s' = ps_buffer s @ w \<and> ps_peek s' = ps_peek s \<and> same_rest s s'"
  using assms
proof (induction w arbitrary: s n k)
  case Nil
  then show ?case by (intro exI [of _ s]) simp
next
  case (Cons c w)
  have a: "at_text s (c # w @ cs)" using Cons.prems(1) by simp
  have c: "PeekChar 0 s = c" using at_text_PeekChar [OF a, of 0] by simp
  note l = isalpha_letter [of c] Cons.prems(2)
  obtain m where n: "n = Suc m" using Cons.prems(4) by (cases n) auto
  let ?s = "(took c s)\<lparr>ps_buffer := ps_buffer s @ [c]\<rparr>"
    and ?k = "case k of None \<Rightarrow> None | Some n \<Rightarrow> Tries.children n c"
  have step: "take_identifier_char k s = Inr (Again ?k, ?s)"
    using NextChar_took [OF a] l Cons.prems(3)
    by (simp add: take_identifier_char_def op_simps buffer_put_def kDefaultBufferSize_def keyword_step_def
        split: option.split)
  then have "identifier_round k s = Inr (Again ?k, ?s)"
    using l c by (simp add: identifier_round_def op_simps at_identifier_def)
  then have go: "identifier_loop n k s = identifier_loop m ?k ?s"
    by (subst identifier_loop.simps) (simp add: n op_simps)
  obtain s' where s': "identifier_loop m ?k ?s = identifier_loop (m - length w) (walk_input ?k w) s'" "at_text s' cs"
      "ps_buffer s' = ps_buffer ?s @ w" "ps_peek s' = ps_peek ?s" "same_rest ?s s'"
    using Cons.IH [of ?s m ?k] Cons.prems at_text_took [OF a] n by auto
  have "same_rest s s'" using s'(5) by (simp add: same_rest_def took_def)
  then show ?case
    using s' go n by (intro exI [of _ s']) (simp add: walk_Cons)
qed

lemma identifier_loop_stop:
  assumes "at_text s cs" "delimited cs"
  shows "identifier_loop n k s = Inr ((None, k), s)"
proof -
  have "PeekChar 0 s \<in> {EOF, CHR '' '', CHR '')''}" using delimited_PeekChar [OF assms] .
  then have "\<not> at_identifier s"
    by (auto simp: at_identifier_def IsValidIdentifierChar_def isdigit_def isalpha_def code_of_char_def EOF_def)
  then show ?thesis
    by (subst identifier_loop.simps) (simp add: identifier_round_def op_simps)
qed

text \<open>What comes after a word of letters: the end, a blank, a parenthesis or a question mark.\<close>

definition ends_word :: "string \<Rightarrow> bool" where
  "ends_word cs \<longleftrightarrow> cs = [] \<or> hd cs \<in> {CHR '' '', CHR '')'', CHR ''?''}"

lemma not_isalpha: "\<not> isalpha (CHR '' '')" "\<not> isalpha (CHR '')'')" "\<not> isalpha (CHR ''?'')" "\<not> isalpha (CHR '':'')"
    "\<not> isalpha EOF"
  by (simp_all add: isalpha_def code_of_char_def EOF_def)

lemma word_char:
  assumes "at_text s (w @ cs)" "\<forall>c\<in>set w. isalpha c" "ends_word cs"
  shows "PeekChar k s \<noteq> CHR '':'' \<or> length w < k" "k = length w \<Longrightarrow> \<not> isalpha (PeekChar k s)"
proof -
  have k: "PeekChar k s = (if k < length w then w ! k else if k < length (w @ cs) then cs ! (k - length w) else EOF)"
    using at_text_PeekChar [OF assms(1), of k] by (simp add: nth_append)
  have "w ! k \<noteq> CHR '':''" if "k < length w"
    using assms(2) that not_isalpha(4) by (metis nth_mem)
  moreover have "hd cs \<noteq> CHR '':''" "\<not> isalpha (hd cs)" if "cs \<noteq> []"
    using assms(3) that not_isalpha by (auto simp: ends_word_def)
  moreover have "EOF \<noteq> CHR '':''" by (simp add: EOF_def)
  ultimately show "PeekChar k s \<noteq> CHR '':'' \<or> length w < k" "k = length w \<Longrightarrow> \<not> isalpha (PeekChar k s)"
    using k not_isalpha(5) by (auto simp: hd_conv_nth) (cases "k = length w"; auto)
qed

lemma lex_word:
  assumes "at_text s (w @ cs)" "w \<noteq> []" "\<forall>c\<in>set w. isalpha c" "ends_word cs"
  shows "lex n s = lex_identifier s"
proof -
  have c: "isalpha (PeekChar 0 s)"
    using at_text_PeekChar [OF assms(1), of 0] assms(2,3) by (auto simp: nth_append)
  have "length w < 4 \<Longrightarrow> length w = 1 \<or> length w = 2 \<or> length w = 3"
    using assms(2) by (cases "length w") auto
  moreover have "isalpha (CHR ''e'')" "isalpha (CHR ''w'')" by (simp_all add: isalpha_def code_of_char_def)
  ultimately have "PeekChar 1 s \<noteq> CHR ''e'' \<or> PeekChar 2 s \<noteq> CHR ''w'' \<or> PeekChar 3 s \<noteq> CHR '':''"
    using word_char [OF assms(1,3,4), of 1] word_char [OF assms(1,3,4), of 2] word_char [OF assms(1,3,4), of 3]
    by (cases "length w < 4") auto
  moreover have "PeekChar 0 s \<notin> set special_chars" using special_not_alnum c by auto
  ultimately have "lex n s = lex_other s" by (intro lex_plain) simp_all
  moreover have "\<not> isdigit (PeekChar 0 s)" "\<not> IsDoubleQuote (PeekChar 0 s)"
    using c by (auto simp: isalpha_def isdigit_def IsDoubleQuote_def code_of_char_def)
  ultimately show ?thesis
    using isalpha_letter [OF c] by (simp add: lex_other_def op_simps)
qed

lemma yields_lex_identifier:
  assumes "identifier_loop (chars_left s) (Some keyword_trie) (s\<lparr>ps_buffer := []\<rparr>) = Inr ((None, k), s')" "\<not> ps_args s"
    and "at_text s' cs" "ps_peek s' = ps_peek s" "same_rest s s'"
  shows "yields lex_identifier s (ending_kind k) (ps_buffer s') cs"
proof -
  have "yields (buffered_token (ending_kind k)) s' (ending_kind k) (ps_buffer s') cs"
    using yields_new_token [OF assms(3)] by (simp add: buffered_token_def yields_def op_simps GetBufferedText_def)
  moreover have "\<not> ps_args s'" using assms(2,5) by (simp add: same_rest_def)
  moreover have "chars_left (s\<lparr>ps_buffer := []\<rparr>) = chars_left s" by (simp add: chars_left_def)
  ultimately show ?thesis
    using assms(1,4) same_rest_trans [OF assms(5)]
    by (auto simp: lex_identifier_def clear_buffer_def op_simps yields_def IsParsingArgs_def ending_kind_def
        split: option.splits)
qed

lemma identifier_start:
  assumes "at_text s (w @ cs)" "\<forall>c\<in>set w. isalpha c" "length w \<le> 1024"
  shows "\<exists>s'. identifier_loop (chars_left s) (Some keyword_trie) (s\<lparr>ps_buffer := []\<rparr>) =
      identifier_loop (length cs) (walk_input (Some keyword_trie) w) s' \<and>
    at_text s' cs \<and> ps_buffer s' = w \<and> ps_peek s' = ps_peek s \<and> same_rest s s'"
proof -
  let ?s = "s\<lparr>ps_buffer := []\<rparr>"
  obtain s' where s': "identifier_loop (length (w @ cs)) (Some keyword_trie) ?s =
        identifier_loop (length (w @ cs) - length w) (walk_input (Some keyword_trie) w) s'" "at_text s' cs"
      "ps_buffer s' = ps_buffer ?s @ w" "ps_peek s' = ps_peek ?s" "same_rest ?s s'"
    using identifier_loop_letters [of ?s w cs "length (w @ cs)" "Some keyword_trie"] assms by auto
  then show ?thesis
    using at_text_chars_left [OF assms(1)] by (intro exI [of _ s']) (simp add: same_rest_def)
qed

lemma yields_word:
  assumes "at_text s (w @ cs)" "w \<noteq> []" "\<forall>c\<in>set w. isalpha c" "delimited cs" "length w \<le> 1024" "\<not> ps_args s"
  shows "yields (lex n) s (word_kind w) w cs"
proof -
  have e: "ends_word cs" using assms(4) by (auto simp: ends_word_def delimited_def)
  obtain s' where s': "identifier_loop (chars_left s) (Some keyword_trie) (s\<lparr>ps_buffer := []\<rparr>) =
        identifier_loop (length cs) (walk_input (Some keyword_trie) w) s'"
      "at_text s' cs" "ps_buffer s' = w" "ps_peek s' = ps_peek s" "same_rest s s'"
    using identifier_start [OF assms(1,3,5)] by blast
  have "yields lex_identifier s (ending_kind (walk_input (Some keyword_trie) w)) (ps_buffer s') cs"
    using s' identifier_loop_stop [OF s'(2) assms(4)] assms(6) by (intro yields_lex_identifier) simp_all
  then show ?thesis
    using lex_word [OF assms(1-3) e] s'(3) by (simp add: yields_def ending_kind_word)
qed

text \<open>A question mark behind a word: the instance test of a class, or else part of the text, but not
  of the walk_input through the trie.\<close>

lemma question_round:
  assumes "at_text s (CHR ''?'' # cs)" "delimited cs" "\<not> ps_args s"
    and "FindClass (ps_buffer s) (rt_store (ps_rt s)) = Inr cls" "length (ps_buffer s) < 1024"
  shows "identifier_round k s =
    (if cls = 0 then Inr (Again k, (took (CHR ''?'') s)\<lparr>ps_buffer := ps_buffer s @ ''?''\<rparr>)
     else sthen NextChar (sbind (new_token (T_Node N_InstanceOfExpr) (ps_buffer s)) (\<lambda>t. ret (Found t))) s)"
proof -
  have p: "PeekChar 0 s = CHR ''?''" "PeekChar 1 s \<in> {EOF, CHR '' '', CHR '')''}"
    using at_text_PeekChar [OF assms(1), of 0] at_text_PeekChar [OF assms(1), of 1] assms(2)
    by (cases cs; auto simp: delimited_def)+
  have "\<not> IsValidIdentifierChar False (PeekChar 1 s) False"
    using p(2) by (auto simp: IsValidIdentifierChar_def isdigit_def isalpha_def code_of_char_def EOF_def)
  moreover have "IsValidIdentifierChar False (CHR ''?'') i" for i
    by (simp add: IsValidIdentifierChar_def isalpha_def isdigit_def code_of_char_def)
  ultimately show ?thesis
    using p(1) assms(3-5) NextChar_took [OF assms(1)]
    by (simp add: identifier_round_def op_simps at_identifier_def IsParsingArgs_def GetBufferedText_def
        pstored_def take_into_buffer_def buffer_put_def kDefaultBufferSize_def)
qed

lemma yields_question_word:
  assumes "at_text s (w @ CHR ''?'' # cs)" "w \<noteq> []" "\<forall>c\<in>set w. isalpha c" "delimited cs" "length w < 1024"
    and "\<not> ps_args s" "FindClass w (rt_store (ps_rt s)) = Inr 0"
  shows "yields (lex n) s (word_kind w) (w @ ''?'') cs"
proof -
  let ?k = "walk_input (Some keyword_trie) w"
  obtain s' where s': "identifier_loop (chars_left s) (Some keyword_trie) (s\<lparr>ps_buffer := []\<rparr>) =
        identifier_loop (Suc (length cs)) ?k s'"
      "at_text s' (CHR ''?'' # cs)" "ps_buffer s' = w" "ps_peek s' = ps_peek s" "same_rest s s'"
    using identifier_start [OF assms(1,3)] assms(5) by auto
  let ?s = "(took (CHR ''?'') s')\<lparr>ps_buffer := w @ ''?''\<rparr>"
  have r: "identifier_round ?k s' = Inr (Again ?k, ?s)"
    using question_round [OF s'(2) assms(4), of 0] s'(3,5) assms(5-7) by (simp add: same_rest_def)
  have "at_text ?s cs" using at_text_took [OF s'(2)] by simp
  then have "identifier_loop (chars_left s) (Some keyword_trie) (s\<lparr>ps_buffer := []\<rparr>) = Inr ((None, ?k), ?s)"
    using s'(1) r identifier_loop_stop [of ?s cs "length cs" ?k] assms(4)
    by (subst (asm) identifier_loop.simps) (simp add: op_simps)
  then have "yields lex_identifier s (ending_kind ?k) (ps_buffer ?s) cs"
    using s'(4,5) \<open>at_text ?s cs\<close> assms(6)
    by (intro yields_lex_identifier) (simp_all add: same_rest_def took_def)
  moreover have "ends_word (CHR ''?'' # cs)" by (simp add: ends_word_def)
  ultimately show ?thesis
    using lex_word [OF assms(1-3)] by (simp add: yields_def ending_kind_word)
qed

section \<open>The next token\<close>

lemma yields_NextToken:
  "yields (lex (chars_left s)) s kind text cs \<Longrightarrow> tk_IsInvalid (ps_peek s) \<Longrightarrow> yields NextToken s kind text cs"
  by (simp add: NextToken_def yields_def op_simps)

text \<open>C22. A word of letters that ends the text or is followed by a blank or a closing parenthesis is
  read as one token, with the kind the table of keywords has for it, or as an identifier when the
  table has none; what follows it is left to read.\<close>

theorem words_are_keywords:
  assumes "at_text s (w @ cs)" "w \<noteq> []" "\<forall>c\<in>set w. isalpha c" "delimited cs" "length w \<le> 1024"
    and "\<not> ps_args s" "tk_IsInvalid (ps_peek s)"
  shows "yields NextToken s (case map_of keyword_table w of Some k \<Rightarrow> k | None \<Rightarrow> T_Identifier) w cs"
  using yields_NextToken [OF yields_word [OF assms(1-6)] assms(7)] by (simp add: word_kind_def)

theorem words_are_keywords_witness:
  "yields NextToken (fresh_parser ''begin 1)'' 0 example_runtime) (T_Node N_BeginExpr) ''begin'' '' 1)''"
proof -
  let ?s = "fresh_parser ''begin 1)'' 0 example_runtime"
  have "at_text ?s (''begin'' @ '' 1)'')" using fresh_parser_at [of "''begin 1)''"] by simp
  moreover have "\<forall>c\<in>set ''begin''. isalpha c" by (simp add: isalpha_def code_of_char_def)
  moreover have "\<not> ps_args ?s" "tk_IsInvalid (ps_peek ?s)"
    by (simp_all add: fresh_parser_def no_token_def tk_IsInvalid_def)
  moreover have "map_of keyword_table ''begin'' = Some (T_Node N_BeginExpr)" by (simp add: keyword_table_def)
  ultimately show ?thesis
    using words_are_keywords [of ?s "''begin''" "'' 1)''"] by (simp add: delimited_def)
qed

text \<open>C23. A question mark behind a word is taken into the text of the token, but not into the walk_input
  through the keywords. So the keywords \<open>eq?\<close>, \<open>instanceof?\<close>, \<open>nonnull?\<close> and \<open>null?\<close> are read as
  identifiers, and \<open>car?\<close> or \<open>not?\<close> are read as the keywords without the mark.\<close>

theorem question_keywords_missed:
  assumes "at_text s (w @ CHR ''?'' # cs)" "w \<in> {''eq'', ''instanceof'', ''nonnull'', ''null'', ''car'', ''not''}"
    and "delimited cs" "\<not> ps_args s" "tk_IsInvalid (ps_peek s)" "FindClass w (rt_store (ps_rt s)) = Inr 0"
  shows "yields NextToken s
    (if w = ''car'' then T_UnaryOp UCar else if w = ''not'' then T_UnaryOp UNot else T_Identifier) (w @ ''?'') cs"
proof -
  let ?ws = "[''eq'', ''instanceof'', ''nonnull'', ''null'', ''car'', ''not'']"
    and ?k = "\<lambda>w. if w = ''car'' then T_UnaryOp UCar else if w = ''not'' then T_UnaryOp UNot else T_Identifier"
  have m: "w \<in> set ?ws" using assms(2) by simp
  have "list_all (\<lambda>w. w \<noteq> [] \<and> length w < 1024 \<and> list_all isalpha w) ?ws"
    by (simp add: isalpha_def code_of_char_def)
  then have w: "w \<noteq> []" "length w < 1024" "list_all isalpha w"
    using m unfolding list_all_iff by blast+
  have "list_all (\<lambda>w. word_kind w = ?k w) ?ws" by (simp add: word_kind_def keyword_table_def)
  then have "word_kind w = ?k w" using m unfolding list_all_iff by blast
  then show ?thesis
    using yields_NextToken [OF yields_question_word [OF assms(1) w(1) _ assms(3) w(2) assms(4,6)] assms(5)] w(3)
    by (simp add: list_all_iff)
qed

theorem question_keywords_missed_witness:
  "map_of keyword_table ''null?'' = Some (T_UnaryOp UNull) \<and>
    yields NextToken (fresh_parser ''null? 1'' 0 example_runtime) T_Identifier ''null?'' '' 1''"
proof -
  let ?s = "fresh_parser ''null? 1'' 0 example_runtime"
  have "at_text ?s (''null'' @ CHR ''?'' # '' 1'')" using fresh_parser_at [of "''null? 1''"] by simp
  moreover have "\<not> ps_args ?s" "tk_IsInvalid (ps_peek ?s)"
    by (simp_all add: fresh_parser_def no_token_def tk_IsInvalid_def)
  moreover have "FindClass ''null'' (rt_store (ps_rt ?s)) = Inr 0"
    by (simp add: fresh_parser_def example_runtime_def example_store_def example_objects_def FindClass_def)
  ultimately have "yields NextToken ?s T_Identifier ''null?'' '' 1''"
    using question_keywords_missed [of ?s "''null''" "'' 1''"] by (simp add: delimited_def)
  then show ?thesis by (simp add: keyword_table_def)
qed

end
