(* ===== verification/Units.thy ===== *)
theory Units
  imports Runtime
begin

text \<open>
  The units of a program: lambdas (\<open>gel/lambda.h\<close>), macros (\<open>gel/macro.h\<close>), scripts
  (\<open>gel/script.h\<close>, \<open>gel/script.cc\<close>), namespaces (\<open>gel/namespace.h\<close>, \<open>gel/namespace.cc\<close>) and
  modules (\<open>gel/module.h\<close>, \<open>gel/module.cc\<close>), as the parser, the loader and the macro expander
  build and change them. The lists of all namespaces and of all modules are part of the
  runtime's state.
\<close>

section \<open>Bodies\<close>

text \<open>The body of a lambda and of a script is a vector of expressions. The assertions let the
  length itself through, which is past the end for reading, writing and removing.\<close>

definition body_InsertAt :: "nat \<Rightarrow> expr \<Rightarrow> expr list \<Rightarrow> expr list res" where
  "body_InsertAt idx e body =
    asserting (idx \<le> length body) (Inr (take idx body @ e # drop idx body))"

definition body_InsertAllAt :: "nat \<Rightarrow> expr list \<Rightarrow> expr list \<Rightarrow> expr list res" where
  "body_InsertAllAt idx es body =
    asserting (idx \<le> length body) (asserting (es \<noteq> []) (Inr (take idx body @ es @ drop idx body)))"

definition body_GetExpressionAt :: "nat \<Rightarrow> expr list \<Rightarrow> expr res" where
  "body_GetExpressionAt idx body =
    asserting (idx \<le> length body) (guardr UndefinedBehaviour (idx < length body) (Inr (body ! idx)))"

definition body_SetExpressionAt :: "nat \<Rightarrow> expr \<Rightarrow> expr list \<Rightarrow> expr list res" where
  "body_SetExpressionAt idx e body =
    asserting (idx \<le> length body) (guardr UndefinedBehaviour (idx < length body) (Inr (body[idx := e])))"

definition body_RemoveExpressionAt :: "nat \<Rightarrow> expr list \<Rightarrow> expr list res" where
  "body_RemoveExpressionAt idx body =
    asserting (idx \<le> length body)
      (guardr UndefinedBehaviour (idx < length body) (Inr (take idx body @ drop (idx + 1) body)))"

definition body_ReplaceExpressionAt :: "nat \<Rightarrow> expr \<Rightarrow> expr list \<Rightarrow> expr list res" where
  "body_ReplaceExpressionAt idx e body =
    asserting (idx \<le> length body)
      (rbind (body_RemoveExpressionAt idx body) (body_InsertAt idx e))"

definition body_ReplaceAllAt :: "nat \<Rightarrow> expr list \<Rightarrow> expr list \<Rightarrow> expr list res" where
  "body_ReplaceAllAt idx es body =
    asserting (idx \<le> length body) (asserting (es \<noteq> [])
      (rbind (body_RemoveExpressionAt idx body) (body_InsertAllAt idx es)))"

section \<open>Objects of a unit, read and changed\<close>

definition macro_at :: "uword \<Rightarrow> store \<Rightarrow> macro res" where
  "macro_at a st =
    rbind (obj_at a st) (\<lambda>x. case x of OMacro m \<Rightarrow> Inr m | _ \<Rightarrow> Inl UndefinedBehaviour)"

definition namespace_at :: "uword \<Rightarrow> store \<Rightarrow> namespace_obj res" where
  "namespace_at a st =
    rbind (obj_at a st) (\<lambda>x. case x of ONamespace n \<Rightarrow> Inr n | _ \<Rightarrow> Inl UndefinedBehaviour)"

definition module_at :: "uword \<Rightarrow> store \<Rightarrow> module_obj res" where
  "module_at a st =
    rbind (obj_at a st) (\<lambda>x. case x of OModule m \<Rightarrow> Inr m | _ \<Rightarrow> Inl UndefinedBehaviour)"

definition update_lambda :: "uword \<Rightarrow> (lambda \<Rightarrow> lambda) \<Rightarrow> unit sop" where
  "update_lambda a f = sbind (reads (lambda_at a)) (\<lambda>x. modifies (put_obj a (OLambda (f x))))"

definition update_macro :: "uword \<Rightarrow> (macro \<Rightarrow> macro) \<Rightarrow> unit sop" where
  "update_macro a f = sbind (reads (macro_at a)) (\<lambda>x. modifies (put_obj a (OMacro (f x))))"

definition update_script :: "uword \<Rightarrow> (script \<Rightarrow> script) \<Rightarrow> unit sop" where
  "update_script a f = sbind (reads (script_at a)) (\<lambda>x. modifies (put_obj a (OScript (f x))))"

definition update_namespace :: "uword \<Rightarrow> (namespace_obj \<Rightarrow> namespace_obj) \<Rightarrow> unit sop" where
  "update_namespace a f = sbind (reads (namespace_at a)) (\<lambda>x. modifies (put_obj a (ONamespace (f x))))"

definition update_module :: "uword \<Rightarrow> (module_obj \<Rightarrow> module_obj) \<Rightarrow> unit sop" where
  "update_module a f = sbind (reads (module_at a)) (\<lambda>x. modifies (put_obj a (OModule (f x))))"

section \<open>Lambdas\<close>

definition no_region :: region where
  "no_region = \<lparr>r_start = 0, r_size = 0\<rparr>"

definition Lambda_New :: "machine \<Rightarrow> argument list \<Rightarrow> expr list \<Rightarrow> uword sop" where
  "Lambda_New M args body =
    new_obj M (OLambda \<lparr>lm_symbol = 0, lm_owner = 0, lm_docs = 0, lm_scope = None, lm_args = args,
      lm_body = body, lm_code = no_region\<rparr>)"

definition Lambda_SetSymbol :: "uword \<Rightarrow> uword \<Rightarrow> unit sop" where
  "Lambda_SetSymbol a sy = sthen (sassert (sy \<noteq> 0)) (update_lambda a (\<lambda>x. x\<lparr>lm_symbol := sy\<rparr>))"

definition Lambda_SetOwner :: "uword \<Rightarrow> uword \<Rightarrow> unit sop" where
  "Lambda_SetOwner a owner = sthen (sassert (owner \<noteq> 0)) (update_lambda a (\<lambda>x. x\<lparr>lm_owner := owner\<rparr>))"

definition Lambda_SetDocstring :: "uword \<Rightarrow> uword \<Rightarrow> unit sop" where
  "Lambda_SetDocstring a docs = sthen (sassert (docs \<noteq> 0)) (update_lambda a (\<lambda>x. x\<lparr>lm_docs := docs\<rparr>))"

definition Lambda_SetScope :: "uword \<Rightarrow> nat \<Rightarrow> unit sop" where
  "Lambda_SetScope a scope = update_lambda a (\<lambda>x. x\<lparr>lm_scope := Some scope\<rparr>)"

definition Lambda_SetArgs :: "uword \<Rightarrow> argument list \<Rightarrow> unit sop" where
  "Lambda_SetArgs a args = update_lambda a (\<lambda>x. x\<lparr>lm_args := args\<rparr>)"

definition Lambda_SetBody :: "uword \<Rightarrow> expr list \<Rightarrow> unit sop" where
  "Lambda_SetBody a body = update_lambda a (\<lambda>x. x\<lparr>lm_body := body\<rparr>)"

section \<open>Macros\<close>

definition Macro_New :: "machine \<Rightarrow> uword sop" where
  "Macro_New M =
    new_obj M (OMacro \<lparr>mc_owner = 0, mc_symbol = 0, mc_docs = 0, mc_scope = None, mc_args = [], mc_body = []\<rparr>)"

definition Macro_SetSymbol :: "uword \<Rightarrow> uword \<Rightarrow> unit sop" where
  "Macro_SetSymbol a sy = sthen (sassert (sy \<noteq> 0)) (update_macro a (\<lambda>x. x\<lparr>mc_symbol := sy\<rparr>))"

definition Macro_SetOwner :: "uword \<Rightarrow> uword \<Rightarrow> unit sop" where
  "Macro_SetOwner a owner = sthen (sassert (owner \<noteq> 0)) (update_macro a (\<lambda>x. x\<lparr>mc_owner := owner\<rparr>))"

definition Macro_SetDocstring :: "uword \<Rightarrow> uword \<Rightarrow> unit sop" where
  "Macro_SetDocstring a docs = sthen (sassert (docs \<noteq> 0)) (update_macro a (\<lambda>x. x\<lparr>mc_docs := docs\<rparr>))"

definition Macro_SetScope :: "uword \<Rightarrow> nat \<Rightarrow> unit sop" where
  "Macro_SetScope a scope = update_macro a (\<lambda>x. x\<lparr>mc_scope := Some scope\<rparr>)"

definition Macro_SetArgs :: "uword \<Rightarrow> argument list \<Rightarrow> unit sop" where
  "Macro_SetArgs a args = update_macro a (\<lambda>x. x\<lparr>mc_args := args\<rparr>)"

definition Macro_SetBody :: "uword \<Rightarrow> expr list \<Rightarrow> unit sop" where
  "Macro_SetBody a body = update_macro a (\<lambda>x. x\<lparr>mc_body := body\<rparr>)"

section \<open>Scripts\<close>

definition Script_New :: "machine \<Rightarrow> nat \<Rightarrow> uword sop" where
  "Script_New M scope =
    new_obj M (OScript \<lparr>sp_scope = Some scope, sp_name = 0, sp_macros = [], sp_lambdas = [],
      sp_namespaces = [], sp_body = [], sp_code = no_region\<rparr>)"

text \<open>\<open>Append\<close> of an expression; \<open>None\<close> is the null pointer.\<close>

definition Script_Append_expr :: "uword \<Rightarrow> expr option \<Rightarrow> unit sop" where
  "Script_Append_expr a e =
    (case e of
       None \<Rightarrow> fails AssertFailed
     | Some x \<Rightarrow> update_script a (\<lambda>s. s\<lparr>sp_body := sp_body s @ [x]\<rparr>))"

definition Script_Append_macro :: "uword \<Rightarrow> uword \<Rightarrow> unit sop" where
  "Script_Append_macro a m =
    sthen (sassert (m \<noteq> 0))
      (sthen (update_script a (\<lambda>s. s\<lparr>sp_macros := sp_macros s @ [m]\<rparr>)) (Macro_SetOwner m a))"

definition Script_Append_lambda :: "uword \<Rightarrow> uword \<Rightarrow> unit sop" where
  "Script_Append_lambda a l =
    sthen (sassert (l \<noteq> 0))
      (sthen (update_script a (\<lambda>s. s\<lparr>sp_lambdas := sp_lambdas s @ [l]\<rparr>)) (Lambda_SetOwner l a))"

definition on_store_scopes :: "(scopes \<Rightarrow> ('a \<times> scopes) res) \<Rightarrow> 'a sop" where
  "on_store_scopes m = on_part st_scopes (\<lambda>sc st. st\<lparr>st_scopes := sc\<rparr>) m"

text \<open>A namespace is added to the script's scope under its symbol as well.\<close>

definition Script_Append_namespace :: "uword \<Rightarrow> uword \<Rightarrow> unit sop" where
  "Script_Append_namespace a ns =
    sthen (sassert (ns \<noteq> 0))
      (sthen (update_script a (\<lambda>s. s\<lparr>sp_namespaces := sp_namespaces s @ [ns]\<rparr>))
        (sthen (update_namespace ns (\<lambda>n. n\<lparr>ns_owner := a\<rparr>))
          (sbind (reads (script_at a)) (\<lambda>s.
           case sp_scope s of
             None \<Rightarrow> ret ()
           | Some scope \<Rightarrow>
               sbind (reads (namespace_at ns)) (\<lambda>n.
               sbind (reads (symbol_at (ns_symbol n))) (\<lambda>sy.
               sbind (on_store_scopes (Add_name scope (GetFullyQualifiedName sy) ns)) (\<lambda>ok.
               sguard LogFatal ok)))))))"

section \<open>Namespaces\<close>

text \<open>\<open>Namespace::New\<close> registers the namespace.\<close>

definition Namespace_New :: "machine \<Rightarrow> uword \<Rightarrow> nat \<Rightarrow> uword rop" where
  "Namespace_New M sy scope =
    sthen (sassert (sy \<noteq> 0))
      (sbind (on_store (new_obj M
           (ONamespace \<lparr>ns_owner = 0, ns_symbol = sy, ns_scope = scope, ns_docs = 0\<rparr>))) (\<lambda>a.
       sthen (modifies (\<lambda>rt. rt\<lparr>rt_namespaces := rt_namespaces rt @ [a]\<rparr>)) (ret a)))"

definition Namespace_SetDocs :: "uword \<Rightarrow> uword \<Rightarrow> unit sop" where
  "Namespace_SetDocs a docs = sthen (sassert (docs \<noteq> 0)) (update_namespace a (\<lambda>n. n\<lparr>ns_docs := docs\<rparr>))"

definition Namespace_GetName :: "uword \<Rightarrow> store \<Rightarrow> string res" where
  "Namespace_GetName a st =
    rbind (namespace_at a st) (\<lambda>n. rbind (symbol_at (ns_symbol n) st) (\<lambda>s. Inr (sym_name s)))"

definition IsKernelNamespace :: "uword \<Rightarrow> store \<Rightarrow> bool res" where
  "IsKernelNamespace a st = rbind (Namespace_GetName a st) (\<lambda>n. Inr (n = ''_kernel''))"

text \<open>\<open>Symbol::New\<close> of a namespace and a name.\<close>

definition Symbol_New_in :: "machine \<Rightarrow> string \<Rightarrow> string \<Rightarrow> uword sop" where
  "Symbol_New_in M ns name = (\<lambda>st.
    rbind (pool_New (\<lambda>s. new_obj M (OSymbol s)) ns [] name (st_pool st) st) (\<lambda>(a, p, st').
    Inr (a, st'\<lparr>st_pool := p\<rparr>)))"

text \<open>\<open>CreateSymbol\<close>: in the kernel namespace the text as it is; elsewhere the part behind the last
  slash, in the namespace.\<close>

definition CreateSymbol :: "machine \<Rightarrow> uword \<Rightarrow> string \<Rightarrow> uword sop" where
  "CreateSymbol M a rhs =
    sthen (sassert (rhs \<noteq> []))
      (sbind (reads (IsKernelNamespace a)) (\<lambda>kernel.
       if kernel then Symbol_New_text M rhs
       else sbind (reads (Namespace_GetName a)) (\<lambda>ns.
         case find_last_from 0 (CHR ''/'') rhs of
           Some i \<Rightarrow> Symbol_New_in M ns (drop (i + 1) rhs)
         | None \<Rightarrow> Symbol_New_in M ns rhs)))"

definition FindNamespace :: "string \<Rightarrow> runtime \<Rightarrow> uword res" where
  "FindNamespace name rt =
    find_first (\<lambda>a st. asserting (a \<noteq> 0)
        (rbind (namespace_at a st) (\<lambda>n. rbind (symbol_at (ns_symbol n) st) (\<lambda>s.
         Symbol_Equals_string s name))))
      (rt_namespaces rt) (rt_store rt)"

definition FindNamespace_symbol :: "uword \<Rightarrow> runtime \<Rightarrow> uword res" where
  "FindNamespace_symbol sy rt =
    asserting (sy \<noteq> 0) (rbind (symbol_at sy (rt_store rt)) (\<lambda>s. FindNamespace (sym_name s) rt))"

definition Namespace_HasSymbol :: "uword \<Rightarrow> string \<Rightarrow> store \<Rightarrow> bool res" where
  "Namespace_HasSymbol a rhs st =
    asserting (rhs \<noteq> [])
      (rbind (namespace_at a st) (\<lambda>n.
       rbind (Lookup (st_scopes st) (ns_scope n) rhs False) (\<lambda>found. Inr (found \<noteq> None))))"

text \<open>\<open>Get\<close>: null where there is no such variable.\<close>

definition Namespace_Get :: "uword \<Rightarrow> string \<Rightarrow> store \<Rightarrow> uword res" where
  "Namespace_Get a rhs st =
    asserting (rhs \<noteq> [])
      (rbind (namespace_at a st) (\<lambda>n.
       rbind (Lookup (st_scopes st) (ns_scope n) rhs False) (\<lambda>found.
       case found of
         None \<Rightarrow> Inr 0
       | Some l \<Rightarrow> rbind (get_local (st_scopes st) l) (\<lambda>v. Inr (GetValue v)))))"

section \<open>Modules\<close>

text \<open>The field \<open>initialized\<close>, which \<open>CreateClass\<close> adds to the class of modules.\<close>

definition kFieldInitialized :: "store \<Rightarrow> uword res" where
  "kFieldInitialized st =
    rbind (class_at (st_class st KModule) st) (\<lambda>c.
    case cl_fields c of [] \<Rightarrow> Inl UndefinedBehaviour | f # _ \<Rightarrow> Inr f)"

definition SetInitialized :: "uword \<Rightarrow> bool \<Rightarrow> unit sop" where
  "SetInitialized a b =
    sbind (reads kFieldInitialized) (\<lambda>f. sbind (Bool_Box b) (SetField a f))"

definition IsInitialized :: "uword \<Rightarrow> store \<Rightarrow> bool res" where
  "IsInitialized a st =
    rbind (kFieldInitialized st) (\<lambda>f. rbind (GetField a f st) (\<lambda>v.
    rbind (obj_at v st) (\<lambda>x. case x of OBool b \<Rightarrow> Inr b | _ \<Rightarrow> Inl UndefinedBehaviour)))"

definition Module_New :: "machine \<Rightarrow> uword \<Rightarrow> nat \<Rightarrow> uword rop" where
  "Module_New M name scope =
    sthen (sassert (name \<noteq> 0))
      (sbind (on_store (new_obj M (OModule \<lparr>md_name = name, md_scope = scope, md_namespaces = [],
           md_macros = [], md_init = 0\<rparr>))) (\<lambda>a.
       sbind (stored kFieldInitialized) (\<lambda>f.
       sbind (stored (field_at f)) (\<lambda>fd.
       sthen (sassert (case fd_value fd of FOffset n \<Rightarrow> 0 < n | FObject _ \<Rightarrow> False))
         (sthen (on_store (sbind Bool_False (SetField a f)))
           (sthen (modifies (\<lambda>rt. rt\<lparr>rt_modules := rt_modules rt @ [a]\<rparr>)) (ret a)))))))"

definition Module_Append_macro :: "uword \<Rightarrow> uword \<Rightarrow> unit sop" where
  "Module_Append_macro a m =
    sthen (sassert (m \<noteq> 0))
      (sthen (update_module a (\<lambda>x. x\<lparr>md_macros := md_macros x @ [m]\<rparr>)) (Macro_SetOwner m a))"

text \<open>The variables of a namespace are added to the scope of the module; whether all could be is
  not looked at.\<close>

definition Module_Append_namespace :: "uword \<Rightarrow> uword \<Rightarrow> unit sop" where
  "Module_Append_namespace a ns =
    sthen (sassert (ns \<noteq> 0))
      (sthen (update_module a (\<lambda>x. x\<lparr>md_namespaces := md_namespaces x @ [ns]\<rparr>))
        (sbind (reads (module_at a)) (\<lambda>m.
         sbind (reads (namespace_at ns)) (\<lambda>n.
         sbind (asks id) (\<lambda>st.
         sthen (on_store_scopes (Add_scope (is_native_value st) (md_scope m) (ns_scope n))) (ret ()))))))"

definition CreateInitFunc :: "machine \<Rightarrow> uword \<Rightarrow> expr list \<Rightarrow> uword sop" where
  "CreateInitFunc M a body =
    sthen (sassert (body \<noteq> []))
      (sbind (Lambda_New M [\<lparr>arg_index = 0, arg_name = ''this'', arg_optional = False, arg_vararg = False\<rparr>] body)
        (\<lambda>init.
       sbind (on_store_scopes (\<lambda>sc. Inr (LocalScope_New None sc))) (\<lambda>scope.
       sbind (on_store_scopes (LocalVariable_New scope ''this'' a)) (\<lambda>self.
       sbind (on_store_scopes (Add_local scope self)) (\<lambda>ok.
       sthen (sguard LogFatal ok)
         (sthen (Lambda_SetScope init scope)
           (sthen (update_module a (\<lambda>x. x\<lparr>md_init := init\<rparr>)) (ret init))))))))"

definition module_named :: "string \<Rightarrow> uword \<Rightarrow> store \<Rightarrow> bool res" where
  "module_named name a st =
    asserting (a \<noteq> 0) (rbind (module_at a st) (\<lambda>m. rbind (string_at (md_name m) st) (\<lambda>n. Inr (name = n))))"

definition Module_Find :: "string \<Rightarrow> runtime \<Rightarrow> uword res" where
  "Module_Find name rt = find_first (module_named name) (rt_modules rt) (rt_store rt)"

definition Module_IsLoaded :: "string \<Rightarrow> runtime \<Rightarrow> bool res" where
  "Module_IsLoaded name rt = rbind (Module_Find name rt) (\<lambda>a. Inr (a \<noteq> 0))"

definition GetNamespace :: "uword \<Rightarrow> string \<Rightarrow> store \<Rightarrow> uword res" where
  "GetNamespace a name st =
    asserting (name \<noteq> [])
      (rbind (module_at a st) (\<lambda>m.
       find_first (\<lambda>n st. rbind (Namespace_GetName n st) (\<lambda>t. Inr (t = name))) (md_namespaces m) st))"

text \<open>\<open>Init\<close>: the call of the initialiser with the module is an argument.\<close>

definition Module_Init :: "(uword \<Rightarrow> uword list \<Rightarrow> unit rop) \<Rightarrow> uword \<Rightarrow> bool rop" where
  "Module_Init call a =
    sbind (stored (IsInitialized a)) (\<lambda>b.
    sthen (sassert (\<not> b))
      (sbind (stored (module_at a)) (\<lambda>m.
       sthen (call (md_init m) [a]) (stored (IsInitialized a)))))"

end
