(* ===== verification/Constants.thy ===== *)
theory Constants
  imports Runtime
begin

text \<open>
  Expressions that are constants, and their values (\<open>IsConstantExpr\<close> and \<open>EvalToConstant\<close> of
  the classes in \<open>gel/expression.h\<close> and \<open>gel/expression.cc\<close>). The runtime's scope, which
  \<open>NewExpr\<close> consults, is an argument.
\<close>

section \<open>Which expressions are constants\<close>

text \<open>A literal whose value is a symbol, and its name.\<close>

definition literal_symbol :: "expr \<Rightarrow> store \<Rightarrow> string option res" where
  "literal_symbol e st =
    (case e of
       LiteralExpr v \<Rightarrow>
         if v = 0 then Inr None
         else rbind (obj_at v st) (\<lambda>x.
           case x of OSymbol s \<Rightarrow> Inr (Some (GetFullyQualifiedName s)) | _ \<Rightarrow> Inr None)
     | _ \<Rightarrow> Inr None)"

text \<open>The value of the variable with the name, seen from the scope; none when there is no such
  variable or it has no value.\<close>

definition bound_value :: "nat \<Rightarrow> string \<Rightarrow> store \<Rightarrow> uword option res" where
  "bound_value scope name st =
    rbind (Lookup (st_scopes st) scope name True) (\<lambda>found.
    case found of
      None \<Rightarrow> Inr None
    | Some l \<Rightarrow> rbind (get_local (st_scopes st) l) (\<lambda>v.
        Inr (if HasValue v then Some (GetValue v) else None)))"

text \<open>\<open>SequenceExpr\<close> looks for a child that is not constant and answers whether there is one;
  \<open>begin\<close>, \<open>while\<close> and the operators of \<open>rx\<close> inherit that.\<close>

fun IsConstantExpr :: "nat option \<Rightarrow> expr \<Rightarrow> store \<Rightarrow> bool res" and
    exists_non_constant :: "nat option \<Rightarrow> expr list \<Rightarrow> store \<Rightarrow> bool res" and
    all_constant :: "nat option \<Rightarrow> expr list \<Rightarrow> store \<Rightarrow> bool res" and
    constant_args :: "nat option \<Rightarrow> expr list \<Rightarrow> store \<Rightarrow> bool res" where
  "IsConstantExpr rs (LiteralExpr v) st = Inr True"
| "IsConstantExpr rs (BinaryOpExpr op a b) st =
    rbind (IsConstantExpr rs a st) (\<lambda>l. if l then IsConstantExpr rs b st else Inr False)"
| "IsConstantExpr rs (BeginExpr es) st = exists_non_constant rs es st"
| "IsConstantExpr rs (WhileExpr t es) st = exists_non_constant rs es st"
| "IsConstantExpr rs (RxOpExpr s es) st = exists_non_constant rs es st"
| "IsConstantExpr rs (ListExpr es) st = all_constant rs es st"
| "IsConstantExpr rs (InstanceOfExpr c a) st = IsConstantExpr rs a st"
| "IsConstantExpr rs (NewExpr c args) st = asserting (rs \<noteq> None) (constant_args rs args st)"
| "IsConstantExpr rs _ st = Inr False"
| "exists_non_constant rs [] st = Inr False"
| "exists_non_constant rs (e # es) st =
    rbind (IsConstantExpr rs e st) (\<lambda>c. if \<not> c then Inr True else exists_non_constant rs es st)"
| "all_constant rs [] st = Inr True"
| "all_constant rs (e # es) st =
    rbind (IsConstantExpr rs e st) (\<lambda>c. if \<not> c then Inr False else all_constant rs es st)"
| "constant_args rs [] st = Inr True"
| "constant_args rs (a # as) st =
    rbind (IsConstantExpr rs a st) (\<lambda>c.
    if \<not> c then Inr False
    else rbind (literal_symbol a st) (\<lambda>s.
      case s of
        None \<Rightarrow> constant_args rs as st
      | Some name \<Rightarrow>
          (case rs of
             None \<Rightarrow> Inl AssertFailed
           | Some i \<Rightarrow> rbind (bound_value i name st) (\<lambda>v.
               if v = None then Inr False else constant_args rs as st))))"

section \<open>Their values\<close>

text \<open>No class overrides \<open>IsAtom\<close>, so the assertions of \<open>BinaryOpExpr\<close> fail whenever they are
  reached.\<close>

definition IsAtom :: "obj \<Rightarrow> bool" where
  "IsAtom x = False"

definition atom_at :: "uword \<Rightarrow> unit sop" where
  "atom_at a = sthen (sassert (a \<noteq> 0)) (sbind (reads (obj_at a)) (\<lambda>x. sassert (IsAtom x)))"

definition fold_op :: "machine \<Rightarrow> binary_op \<Rightarrow> uword \<Rightarrow> uword \<Rightarrow> uword sop" where
  "fold_op M op a b =
    (case op of
       BAdd \<Rightarrow> Arith M ArAdd a b
     | BSubtract \<Rightarrow> Arith M ArSub a b
     | BMultiply \<Rightarrow> Arith M ArMul a b
     | BDivide \<Rightarrow> Arith M ArDiv a b
     | BModulus \<Rightarrow> Arith M ArMod a b
     | _ \<Rightarrow> fails LogFatal)"

text \<open>The null pointer is the answer of the classes that have no value. The elements of a list
  are evaluated from the last to the first, the arguments of \<open>new\<close> in order and up to the first
  that has none.\<close>

fun EvalToConstant :: "nat \<Rightarrow> world \<Rightarrow> nat option \<Rightarrow> nat \<Rightarrow> expr \<Rightarrow> uword sop" and
    eval_list :: "nat \<Rightarrow> world \<Rightarrow> nat option \<Rightarrow> nat \<Rightarrow> expr list \<Rightarrow> uword \<Rightarrow> uword sop" and
    eval_args :: "nat \<Rightarrow> world \<Rightarrow> nat option \<Rightarrow> nat \<Rightarrow> expr list \<Rightarrow> uword list option sop" where
  "EvalToConstant fuel W rs scope (LiteralExpr v) = ret v"
| "EvalToConstant fuel W rs scope (BinaryOpExpr op a b) =
    sbind (reads (IsConstantExpr rs (BinaryOpExpr op a b))) (\<lambda>c.
    sthen (sassert c)
      (sbind (EvalToConstant fuel W rs scope a) (\<lambda>l.
       sthen (atom_at l)
         (sbind (EvalToConstant fuel W rs scope b) (\<lambda>r.
          sthen (atom_at r) (fold_op (w_machine W) op l r))))))"
| "EvalToConstant fuel W rs scope (InstanceOfExpr cls e) =
    sbind (reads (IsConstantExpr rs e)) (\<lambda>c.
    sthen (sassert c)
      (sbind (EvalToConstant fuel W rs scope e) (\<lambda>v.
       sthen (sassert (v \<noteq> 0))
         (sbind (reads (GetType v)) (\<lambda>t.
          sbind (reads (IsInstanceOf t cls)) Bool_Box)))))"
| "EvalToConstant fuel W rs scope (ListExpr es) =
    sbind (reads (IsConstantExpr rs (ListExpr es))) (\<lambda>c.
    sthen (sassert c)
      (sbind (Null (w_machine W)) (eval_list fuel W rs scope es)))"
| "EvalToConstant fuel W rs scope (NewExpr cls args) =
    sbind (eval_args fuel W rs scope args) (\<lambda>vs.
    case vs of
      None \<Rightarrow> ret 0
    | Some values \<Rightarrow>
        NewInstance fuel (w_machine W) (w_printer W) (w_buffer_text W) (w_new W) cls values)"
| "EvalToConstant fuel W rs scope (LoadInstanceMethodExpr c n) = fails LogFatal"
| "EvalToConstant fuel W rs scope (NewMapExpr kvs) = fails LogFatal"
| "EvalToConstant fuel W rs scope _ = ret 0"
| "eval_list fuel W rs scope [] value = ret value"
| "eval_list fuel W rs scope (e # es) value =
    sbind (eval_list fuel W rs scope es value) (\<lambda>tail.
    sbind (reads (IsConstantExpr rs e)) (\<lambda>c.
    sthen (sassert c)
      (sbind (EvalToConstant fuel W rs scope e) (\<lambda>v. Cons (w_machine W) v tail))))"
| "eval_args fuel W rs scope [] = ret (Some [])"
| "eval_args fuel W rs scope (a # as) =
    sbind (reads (IsConstantExpr rs a)) (\<lambda>c.
    if \<not> c then ret None
    else sbind (reads (literal_symbol a)) (\<lambda>s.
      sbind (case s of
               None \<Rightarrow> sbind (EvalToConstant fuel W rs scope a) (\<lambda>v. ret (Some v))
             | Some name \<Rightarrow> reads (bound_value scope name)) (\<lambda>v.
      case v of
        None \<Rightarrow> ret None
      | Some x \<Rightarrow>
          sbind (eval_args fuel W rs scope as) (\<lambda>xs. ret (map_option ((#) x) xs)))))"

end
