(* ===== verification/Parser.thy ===== *)
theory Parser
  imports Lexer Units Constants
begin

text \<open>
  The parser (\<open>gel/parser.h\<close>, \<open>gel/parser.cc\<close>): one operation per \<open>Parse\<close> function. They take
  \<open>ParseExpression\<close> as an argument, and a bound on the rounds of their loops; the function itself
  closes the recursion at the end. An expression is \<open>None\<close> where the code has a null pointer.
\<close>

text \<open>What the parser calls and is not part of it: \<open>atof\<close> and \<open>Module::FindOrLoad\<close>, which reads
  files, and the world of the runtime, with the fuel for evaluating constants.\<close>

record parser_env =
  pe_world :: world
  pe_fuel :: nat
  pe_to_double :: "string \<Rightarrow> uword"
  pe_find_module :: "string \<Rightarrow> uword rop"

abbreviation pe_machine :: "parser_env \<Rightarrow> machine" where
  "pe_machine E \<equiv> w_machine (pe_world E)"

type_synonym parse = "expr option pop"

text \<open>The message of an unexpected token asks for the next one first.\<close>

definition unexpected_next :: "'a pop" where
  "unexpected_next = sthen NextToken (fails LogFatal)"

text \<open>An expression that must be there: the assertion after \<open>ParseExpression\<close>.\<close>

definition required :: "parse \<Rightarrow> expr pop" where
  "required pe = sbind pe (\<lambda>e. case e of None \<Rightarrow> fails AssertFailed | Some x \<Rightarrow> ret x)"

section \<open>Scopes and variables\<close>

definition parser_PushScope :: "nat pop" where
  "parser_PushScope =
    sbind (asks ps_scope) (\<lambda>old.
    sbind (on_pscopes (\<lambda>sc. Inr (LocalScope_New (Some old) sc))) (\<lambda>i.
    sthen (modifies (\<lambda>s. s\<lparr>ps_scope := i\<rparr>)) (ret i)))"

definition parser_PopScope :: "unit pop" where
  "parser_PopScope =
    sbind (asks ps_scope) (\<lambda>old.
    sbind (pscoped (\<lambda>sc. get_scope sc old)) (\<lambda>s.
    case sc_parent s of
      None \<Rightarrow> fails AssertFailed
    | Some p \<Rightarrow> modifies (\<lambda>s. s\<lparr>ps_scope := p\<rparr>)))"

definition symbol_text_of :: "uword \<Rightarrow> string pop" where
  "symbol_text_of sy = sbind (pstored (symbol_at sy)) (\<lambda>s. ret (GetFullyQualifiedName s))"

text \<open>The exception at a second binding of a name.\<close>

definition redefined :: "parser_env \<Rightarrow> uword \<Rightarrow> unit pop" where
  "redefined E sy =
    sbind (pstored (obj_at sy)) (\<lambda>x.
    fails (GelException (''cannot redefine binding for: `'' @ pr_other (w_printer (pe_world E)) x @ ''`'')))"

text \<open>\<open>LocalVariable::New\<close> under a symbol.\<close>

definition new_variable :: "nat \<Rightarrow> uword \<Rightarrow> uword \<Rightarrow> nat pop" where
  "new_variable scope sy value =
    sbind (symbol_text_of sy) (\<lambda>name. on_pscopes (LocalVariable_New scope name value))"

text \<open>The variable is added to a scope, or else the log is fatal.\<close>

definition add_or_die :: "nat \<Rightarrow> nat \<Rightarrow> unit pop" where
  "add_or_die scope local = sbind (on_pscopes (Add_local scope local)) (\<lambda>ok. sguard LogFatal ok)"

text \<open>The assertion that a variable has a value of a kind.\<close>

definition assert_value :: "(obj \<Rightarrow> bool) \<Rightarrow> nat \<Rightarrow> uword pop" where
  "assert_value p local =
    sbind (pscoped (\<lambda>sc. get_local sc local)) (\<lambda>v.
    sthen (sassert (HasValue v))
      (sbind (pstored (obj_at (GetValue v))) (\<lambda>x. sthen (sassert (p x)) (ret (GetValue v)))))"

definition IsLambda :: "obj \<Rightarrow> bool" where
  "IsLambda x = (case x of OLambda _ \<Rightarrow> True | _ \<Rightarrow> False)"

definition IsMacro :: "obj \<Rightarrow> bool" where
  "IsMacro x = (case x of OMacro _ \<Rightarrow> True | _ \<Rightarrow> False)"

definition IsNamespace :: "obj \<Rightarrow> bool" where
  "IsNamespace x = (case x of ONamespace _ \<Rightarrow> True | _ \<Rightarrow> False)"

definition IsNativeProcedure :: "obj \<Rightarrow> bool" where
  "IsNativeProcedure x = (case x of ONative _ \<Rightarrow> True | _ \<Rightarrow> False)"

section \<open>Symbols and literals\<close>

definition ParseLiteralString :: "parser_env \<Rightarrow> uword pop" where
  "ParseLiteralString E =
    sbind (ExpectNext T_LiteralString) (\<lambda>next.
    sthen (sassert (tk_kind next = T_LiteralString))
      (if tk_text next = [] then on_pstore (String_New_empty (pe_machine E))
       else on_pstore (String_New (pe_machine E) (tk_text next))))"

definition ParseSymbol :: "parser_env \<Rightarrow> uword pop" where
  "ParseSymbol E =
    sbind NextToken (\<lambda>next.
    sthen (sguard LogFatal (tk_kind next = T_Identifier \<or> tk_kind next = T_Node N_NewExpr))
      (sbind (asks ps_namespace) (\<lambda>ns.
       if ns \<noteq> 0 then on_pstore (CreateSymbol (pe_machine E) ns (tk_text next))
       else on_pstore (Symbol_New_text (pe_machine E) (tk_text next)))))"

fun map_loop :: "nat \<Rightarrow> parser_env \<Rightarrow> parse \<Rightarrow> (uword \<times> expr) list \<Rightarrow> (uword \<times> expr) list pop" where
  "map_loop fuel E pe data =
    sbind (PeekEq T_RBrace) (\<lambda>done.
    if done then ret data
    else case fuel of
      0 \<Rightarrow> fails OutOfFuel
    | Suc n \<Rightarrow>
        sbind (ParseSymbol E) (\<lambda>key.
        sbind (required pe) (\<lambda>value.
        sbind (PeekEq T_Comma) (\<lambda>comma.
        sthen (if comma then sthen NextToken (ret ()) else ret ())
          (map_loop n E pe (data @ [(key, value)]))))))"

declare map_loop.simps [simp del]

definition ParseMap :: "nat \<Rightarrow> parser_env \<Rightarrow> parse \<Rightarrow> parse" where
  "ParseMap n E pe =
    sthen (ExpectNext T_LBrace)
      (sbind (map_loop n E pe []) (\<lambda>data.
       sthen (ExpectNext T_RBrace) (ret (Some (NewMapExpr data)))))"

definition ParseLiteralBool :: "uword pop" where
  "ParseLiteralBool =
    sbind NextToken (\<lambda>next.
    case tk_kind next of
      T_LiteralTrue \<Rightarrow> on_pstore Bool_True
    | T_LiteralFalse \<Rightarrow> on_pstore Bool_False
    | _ \<Rightarrow> fails LogFatal)"

definition ParseLiteralNumber :: "parser_env \<Rightarrow> uword pop" where
  "ParseLiteralNumber E =
    sbind NextToken (\<lambda>next.
    case tk_kind next of
      T_LiteralLong \<Rightarrow> sbind (reads (\<lambda>s. atol (tk_text next))) (\<lambda>v. on_pstore (Long_New (pe_machine E) v))
    | T_LiteralDouble \<Rightarrow> on_pstore (new_obj (pe_machine E) (ODouble (pe_to_double E (tk_text next))))
    | _ \<Rightarrow> fails LogFatal)"

definition ParseLiteralValue :: "parser_env \<Rightarrow> uword pop" where
  "ParseLiteralValue E =
    sbind PeekKind (\<lambda>kind.
    if kind = T_LiteralFalse \<or> kind = T_LiteralTrue then ParseLiteralBool
    else if kind = T_LiteralLong \<or> kind = T_LiteralDouble then ParseLiteralNumber E
    else if kind = T_LiteralString then
      sbind NextToken (\<lambda>next. on_pstore (String_New (pe_machine E) (tk_text next)))
    else if kind = T_Identifier then
      sbind NextToken (\<lambda>next. on_pstore (Symbol_New_text (pe_machine E) (tk_text next)))
    else unexpected_next)"

section \<open>Lists of things\<close>

text \<open>Expressions up to the closing parenthesis, each of which must be there.\<close>

fun args_loop :: "nat \<Rightarrow> parse \<Rightarrow> expr list \<Rightarrow> expr list pop" where
  "args_loop fuel pe args =
    sbind (PeekEq T_RParen) (\<lambda>done.
    if done then ret args
    else case fuel of
      0 \<Rightarrow> fails OutOfFuel
    | Suc n \<Rightarrow> sbind (required pe) (\<lambda>arg. args_loop n pe (args @ [arg])))"

text \<open>Expressions up to the closing parenthesis or the end of the stream, without the null ones.\<close>

fun expressions_loop :: "nat \<Rightarrow> parse \<Rightarrow> expr list \<Rightarrow> expr list pop" where
  "expressions_loop fuel pe es =
    sbind PeekToken (\<lambda>peek.
    if tk_kind peek = T_RParen \<or> tk_kind peek = T_EndOfStream then ret es
    else case fuel of
      0 \<Rightarrow> fails OutOfFuel
    | Suc n \<Rightarrow>
        sbind pe (\<lambda>e. expressions_loop n pe (case e of None \<Rightarrow> es | Some x \<Rightarrow> es @ [x])))"

declare args_loop.simps [simp del] expressions_loop.simps [simp del]

definition ParseExpressionList :: "nat \<Rightarrow> parse \<Rightarrow> bool \<Rightarrow> expr list pop" where
  "ParseExpressionList n pe push_scope =
    sthen (if push_scope then sthen parser_PushScope (ret ()) else ret ())
      (sbind (expressions_loop n pe []) (\<lambda>es.
       sthen (if push_scope then parser_PopScope else ret ()) (ret es)))"

fun symbols_loop :: "nat \<Rightarrow> parser_env \<Rightarrow> uword list \<Rightarrow> uword list pop" where
  "symbols_loop fuel E symbols =
    sbind (PeekEq T_Identifier) (\<lambda>more.
    if \<not> more then ret symbols
    else case fuel of
      0 \<Rightarrow> fails OutOfFuel
    | Suc n \<Rightarrow> sbind (ParseSymbol E) (\<lambda>next. symbols_loop n E (symbols @ [next])))"

definition ParseSymbolList :: "nat \<Rightarrow> parser_env \<Rightarrow> uword list pop" where
  "ParseSymbolList n E = symbols_loop n E []"

definition ParseIdentifier :: "(bool \<times> string) pop" where
  "ParseIdentifier =
    sbind NextToken (\<lambda>next.
    ret (if tk_kind next = T_Identifier then (True, tk_text next) else (False, [])))"

section \<open>Arguments\<close>

text \<open>The mark after a name: optional, variable, or none.\<close>

definition argument_mark :: "(bool \<times> bool) pop" where
  "argument_mark =
    sbind PeekKind (\<lambda>kind.
    if kind = T_Question then sthen NextToken (ret (True, False))
    else if kind = T_DotDotDot then sthen NextToken (ret (False, True))
    else if kind = T_Identifier \<or> kind = T_RBracket then ret (False, False)
    else unexpected_next)"

text \<open>\<open>std::set::insert\<close>, or else the log is fatal.\<close>

definition insert_argument :: "argument \<Rightarrow> argument list \<Rightarrow> argument list pop" where
  "insert_argument arg args =
    sthen (sguard LogFatal (\<forall>a\<in>set args. arg_index a \<noteq> arg_index arg))
      (ret (ArgumentSet_insert arg args))"

definition bind_argument :: "parser_env \<Rightarrow> nat \<Rightarrow> string \<Rightarrow> unit pop" where
  "bind_argument E scope name =
    sbind (on_pstore (Symbol_New_text (pe_machine E) name)) (\<lambda>sy.
    sbind (new_variable scope sy 0) (add_or_die scope))"

fun arguments_loop :: "nat \<Rightarrow> parser_env \<Rightarrow> bool \<Rightarrow> nat \<Rightarrow> uword \<Rightarrow> argument list \<Rightarrow> argument list pop" where
  "arguments_loop fuel E bnd scope num_args args =
    sbind (PeekEq T_RBracket) (\<lambda>done.
    if done then ret args
    else case fuel of
      0 \<Rightarrow> fails OutOfFuel
    | Suc n \<Rightarrow>
        sbind (ExpectNext T_Identifier) (\<lambda>next.
        sbind argument_mark (\<lambda>(optional, vararg).
        sbind (insert_argument \<lparr>arg_index = num_args, arg_name = tk_text next, arg_optional = optional,
            arg_vararg = vararg\<rparr> args) (\<lambda>args'.
        sthen (if bnd then bind_argument E scope (tk_text next) else ret ())
          (arguments_loop n E bnd scope (num_args + 1) args')))))"

declare arguments_loop.simps [simp del] symbols_loop.simps [simp del]

definition SetParsingArgs :: "bool \<Rightarrow> unit pop" where
  "SetParsingArgs rhs = modifies (\<lambda>s. s\<lparr>ps_args := rhs\<rparr>)"

definition ParseArguments :: "nat \<Rightarrow> parser_env \<Rightarrow> bool \<Rightarrow> argument list pop" where
  "ParseArguments n E bnd =
    sthen (ExpectNext T_LBracket)
      (sbind (asks ps_scope) (\<lambda>scope.
       sthen (SetParsingArgs True)
         (sbind (arguments_loop n E bnd scope 0 []) (\<lambda>args.
          sthen (SetParsingArgs False) (sthen (ExpectNext T_RBracket) (ret args))))))"

section \<open>Lambdas and macros\<close>

text \<open>The arguments a dispatch has used, as its parameters.\<close>

fun dispatch_args :: "parser_env \<Rightarrow> nat \<Rightarrow> nat \<Rightarrow> nat \<Rightarrow> argument list \<Rightarrow> argument list pop" where
  "dispatch_args E scope idx 0 args = ret args"
| "dispatch_args E scope idx (Suc k) args =
    (let name = CHR ''$'' # show_nat idx in
     sbind (insert_argument \<lparr>arg_index = of_nat idx, arg_name = name, arg_optional = False,
         arg_vararg = False\<rparr> args) (\<lambda>args'.
     sthen (bind_argument E scope name) (dispatch_args E scope (idx + 1) k args')))"

definition ParseDispatch :: "nat \<Rightarrow> parser_env \<Rightarrow> parse \<Rightarrow> uword \<Rightarrow> nat \<Rightarrow> uword pop" where
  "ParseDispatch n E pe lambda scope =
    sthen (ExpectNext T_Dispatch)
      (sthen (modifies (\<lambda>s. s\<lparr>ps_dispatched := 0\<rparr>))
        (sbind (on_pstore (Symbol_New_text (pe_machine E) ''this'')) (\<lambda>this.
         sbind (new_variable scope this lambda) (\<lambda>local.
         sbind (asks ps_scope) (\<lambda>here.
         sthen (add_or_die here local)
           (sbind (ParseExpressionList n pe True) (\<lambda>body.
            sthen (on_pstore (Lambda_SetBody lambda body))
              (sbind (asks ps_dispatched) (\<lambda>k.
               sbind (dispatch_args E scope 0 (nat k) []) (\<lambda>args.
               sthen (on_pstore (Lambda_SetArgs lambda args))
                 (sthen (on_pstore (Lambda_SetScope lambda scope))
                   (sthen parser_PopScope
                     (sthen (modifies (\<lambda>s. s\<lparr>ps_dispatched := -1\<rparr>))
                       (sthen (ExpectNext T_RParen) (ret lambda)))))))))))))))"

text \<open>An optional name and docstring; 0 where there is none.\<close>

definition parse_name :: "parser_env \<Rightarrow> uword pop" where
  "parse_name E = sbind (PeekEq T_Identifier) (\<lambda>b. if b then ParseSymbol E else ret 0)"

definition parse_docs :: "parser_env \<Rightarrow> uword pop" where
  "parse_docs E = sbind (PeekEq T_LiteralString) (\<lambda>b. if b then ParseLiteralString E else ret 0)"

text \<open>A lambda or macro is a variable of its own scope, under its name or under \<open>$\<close>.\<close>

definition bind_self :: "parser_env \<Rightarrow> nat \<Rightarrow> uword \<Rightarrow> uword \<Rightarrow> unit pop" where
  "bind_self E scope name self =
    sbind (if name \<noteq> 0 then ret name else on_pstore (Symbol_New_text (pe_machine E) ''$'')) (\<lambda>sy.
    sbind (new_variable scope sy self) (\<lambda>local.
    sbind (asks ps_scope) (\<lambda>here. add_or_die here local)))"

text \<open>A docstring without a body is the body.\<close>

definition body_with_docs :: "uword \<Rightarrow> expr list \<Rightarrow> (uword \<Rightarrow> unit pop) \<Rightarrow> expr list pop" where
  "body_with_docs docs body set_docs =
    (if docs = 0 then ret body
     else if body = [] then sbind (reads (\<lambda>s. new_LiteralExpr docs)) (\<lambda>e. ret [e])
     else sthen (set_docs docs) (ret body))"

definition ParseLambda :: "nat \<Rightarrow> parser_env \<Rightarrow> parse \<Rightarrow> token_kind \<Rightarrow> uword pop" where
  "ParseLambda n E pe kind =
    sbind (on_pstore (Lambda_New (pe_machine E) [] [])) (\<lambda>lambda.
    sbind parser_PushScope (\<lambda>scope.
    if kind = T_Dispatch then ParseDispatch n E pe lambda scope
    else
      sthen (ExpectNext kind)
        (sthen (on_pstore (Lambda_SetScope lambda scope))
          (sbind (parse_name E) (\<lambda>name.
           sthen (if name \<noteq> 0 then on_pstore (Lambda_SetSymbol lambda name) else ret ())
             (sthen (bind_self E scope name lambda)
               (sbind (ParseArguments n E True) (\<lambda>args.
                sthen (on_pstore (Lambda_SetArgs lambda args))
                  (sbind (parse_docs E) (\<lambda>docs.
                   sbind (ParseExpressionList n pe False) (\<lambda>body.
                   sbind (body_with_docs docs body (\<lambda>d. on_pstore (Lambda_SetDocstring lambda d))) (\<lambda>body'.
                   sthen (on_pstore (Lambda_SetBody lambda body'))
                     (sthen parser_PopScope (ret lambda))))))))))))))"

definition ParseMacro :: "nat \<Rightarrow> parser_env \<Rightarrow> parse \<Rightarrow> uword pop" where
  "ParseMacro n E pe =
    sthen (ExpectNext T_DefMacro)
      (sbind (on_pstore (Macro_New (pe_machine E))) (\<lambda>macro.
       sbind parser_PushScope (\<lambda>scope.
       sbind (parse_name E) (\<lambda>name.
       sthen (if name \<noteq> 0 then on_pstore (Macro_SetSymbol macro name) else ret ())
         (sthen (bind_self E scope name macro)
           (sbind (ParseArguments n E False) (\<lambda>args.
            sthen (on_pstore (Macro_SetArgs macro args))
              (sbind (parse_docs E) (\<lambda>docs.
               sbind (ParseExpressionList n pe False) (\<lambda>body.
               sbind (body_with_docs docs body (\<lambda>d. on_pstore (Macro_SetDocstring macro d))) (\<lambda>body'.
               sthen (on_pstore (Macro_SetBody macro body'))
                 (sthen parser_PopScope
                   (sthen (on_pstore (Macro_SetScope macro scope)) (ret macro))))))))))))))"

definition ParseLiteralLambda :: "nat \<Rightarrow> parser_env \<Rightarrow> parse \<Rightarrow> token_kind \<Rightarrow> parse" where
  "ParseLiteralLambda n E pe kind =
    sbind (ParseLambda n E pe kind) (\<lambda>v. sbind (reads (\<lambda>s. new_LiteralExpr v)) (\<lambda>e. ret (Some e)))"

definition ParseLiteralExpr :: "nat \<Rightarrow> parser_env \<Rightarrow> parse \<Rightarrow> parse" where
  "ParseLiteralExpr n E pe =
    sbind PeekKind (\<lambda>kind.
    if kind = T_Fn \<or> kind = T_Dispatch then ParseLiteralLambda n E pe kind
    else if kind = T_LBrace then ParseMap n E pe
    else sbind (ParseLiteralValue E) (\<lambda>v. sbind (reads (\<lambda>s. new_LiteralExpr v)) (\<lambda>e. ret (Some e))))"

end
