(* ===== verification/ParserForms.thy ===== *)
theory ParserForms
  imports Parser
begin

text \<open>
  The expression forms of the parser, the definitions of a unit, \<open>ParseExpression\<close>,
  \<open>ParseScript\<close> and \<open>ParseModule\<close> (\<open>gel/parser.cc\<close>).
\<close>

section \<open>Sequences, calls and operators\<close>

text \<open>Expressions up to the closing parenthesis, without the null ones.\<close>

fun begin_loop :: "nat \<Rightarrow> parse \<Rightarrow> expr list \<Rightarrow> expr list pop" where
  "begin_loop fuel pe es =
    sbind (PeekEq T_RParen) (\<lambda>done.
    if done then ret es
    else case fuel of
      0 \<Rightarrow> fails OutOfFuel
    | Suc n \<Rightarrow> sbind pe (\<lambda>e. begin_loop n pe (case e of None \<Rightarrow> es | Some x \<Rightarrow> es @ [x])))"

declare begin_loop.simps [simp del]

definition ParseBeginExpr :: "nat \<Rightarrow> parse \<Rightarrow> parse" where
  "ParseBeginExpr n pe =
    sthen (ExpectNext (T_Node N_BeginExpr))
      (sthen parser_PushScope
        (sbind (begin_loop n pe []) (\<lambda>es.
         sbind (PeekEq T_RParen) (\<lambda>b.
         sthen (sassert b) (sthen parser_PopScope (ret (Some (BeginExpr es))))))))"

text \<open>A function or a field of the class that is the symbol's type; 0 where there is none.\<close>

definition symbol_type_class :: "uword \<Rightarrow> store \<Rightarrow> uword res" where
  "symbol_type_class sy st =
    rbind (symbol_at sy st) (\<lambda>s. if HasSymbolType s then FindClass (sym_type s) st else Inr 0)"

definition member_function :: "uword \<Rightarrow> uword \<Rightarrow> store \<Rightarrow> uword res" where
  "member_function cls sy st = (if cls = 0 then Inr 0 else GetFunction cls sy True st)"

definition member_field :: "uword \<Rightarrow> uword \<Rightarrow> store \<Rightarrow> uword res" where
  "member_field cls sy st = (if cls = 0 then Inr 0 else Class_GetField cls sy True st)"

text \<open>The assertion that the class's name equals the symbol.\<close>

definition class_is_named :: "uword \<Rightarrow> uword \<Rightarrow> store \<Rightarrow> bool res" where
  "class_is_named cls sy st =
    rbind (class_at cls st) (\<lambda>c. rbind (string_at (cl_name c) st) (\<lambda>n.
    rbind (obj_at sy st) (\<lambda>x. Inr (String_Equals n x))))"

definition literal_of :: "uword \<Rightarrow> expr pop" where
  "literal_of v = reads (\<lambda>s. new_LiteralExpr v)"

text \<open>A call whose target is a symbol: a member function, a field, a constructor, or a call by
  name.\<close>

definition ParseSymbolCall :: "nat \<Rightarrow> parser_env \<Rightarrow> parse \<Rightarrow> parse" where
  "ParseSymbolCall n E pe =
    sbind (ParseSymbol E) (\<lambda>sy.
    sbind (pstored (symbol_type_class sy)) (\<lambda>tc.
    sbind (pstored (member_function tc sy)) (\<lambda>func.
    if func \<noteq> 0 then
      sbind (args_loop n pe []) (\<lambda>args. sbind (literal_of func) (\<lambda>t. ret (Some (CallProcExpr t args))))
    else sbind (pstored (member_field tc sy)) (\<lambda>field.
    if field \<noteq> 0 then sbind (required pe) (\<lambda>inst. ret (Some (LoadFieldExpr inst field)))
    else sbind (pstored (FindClass_symbol sy)) (\<lambda>cls.
    if cls \<noteq> 0 then
      sbind (pstored (class_is_named cls sy)) (\<lambda>named.
      sthen (sassert named) (sbind (args_loop n pe []) (\<lambda>args. ret (Some (NewExpr cls args)))))
    else sbind (literal_of sy) (\<lambda>t. sbind (args_loop n pe []) (\<lambda>args. ret (Some (CallProcExpr t args)))))))))"

definition ParseCallExpr :: "nat \<Rightarrow> parser_env \<Rightarrow> parse \<Rightarrow> parse" where
  "ParseCallExpr n E pe =
    sbind (PeekEq T_Identifier) (\<lambda>b.
    if b then ParseSymbolCall n E pe
    else sbind (required pe) (\<lambda>t. sbind (args_loop n pe []) (\<lambda>args. ret (Some (CallProcExpr t args)))))"

definition ParseUnaryExpr :: "parse \<Rightarrow> parse" where
  "ParseUnaryExpr pe =
    sbind NextToken (\<lambda>t. sbind (reads (\<lambda>s. ToUnaryOp t)) (\<lambda>op.
    sbind (required pe) (\<lambda>value. ret (Some (UnaryExpr op value)))))"

text \<open>Further operands nest to the left; \<open>BinaryOpExpr::New\<close> asserts both.\<close>

definition new_BinaryOpExpr :: "binary_op \<Rightarrow> expr option \<Rightarrow> expr option \<Rightarrow> expr res" where
  "new_BinaryOpExpr op left right =
    (case (left, right) of (Some a, Some b) \<Rightarrow> Inr (BinaryOpExpr op a b) | _ \<Rightarrow> Inl AssertFailed)"

fun binary_loop :: "nat \<Rightarrow> parse \<Rightarrow> binary_op \<Rightarrow> expr option \<Rightarrow> expr option \<Rightarrow> expr pop" where
  "binary_loop fuel pe op left right =
    sbind (reads (\<lambda>s. new_BinaryOpExpr op left right)) (\<lambda>e.
    sbind (PeekEq T_RParen) (\<lambda>done.
    if done then ret e
    else case fuel of
      0 \<Rightarrow> fails OutOfFuel
    | Suc n \<Rightarrow> sbind pe (\<lambda>right'. binary_loop n pe op (Some e) right')))"

declare binary_loop.simps [simp del]

definition ParseBinaryExpr :: "nat \<Rightarrow> parse \<Rightarrow> parse" where
  "ParseBinaryExpr n pe =
    sbind NextToken (\<lambda>t. sbind (reads (\<lambda>s. ToBinaryOp t)) (\<lambda>op.
    sbind pe (\<lambda>left. sbind pe (\<lambda>right.
    sbind (binary_loop n pe op left right) (\<lambda>e. ret (Some e))))))"

section \<open>Control\<close>

text \<open>Pairs of a test and an action; a single last expression is the alternative.\<close>

fun cond_loop :: "nat \<Rightarrow> parse \<Rightarrow> expr list \<Rightarrow> (expr list \<times> expr option) pop" where
  "cond_loop fuel pe clauses =
    sbind (required pe) (\<lambda>a.
    sbind (PeekEq T_RParen) (\<lambda>done.
    if done then ret (clauses, Some a)
    else
      sbind (required pe) (\<lambda>b.
      sbind (reads (\<lambda>s. new_ClauseExpr a [b])) (\<lambda>c.
      sbind (PeekEq T_RParen) (\<lambda>done.
      if done then ret (clauses @ [c], None)
      else case fuel of 0 \<Rightarrow> fails OutOfFuel | Suc n \<Rightarrow> cond_loop n pe (clauses @ [c]))))))"

declare cond_loop.simps [simp del]

definition ParseCondExpr :: "nat \<Rightarrow> parse \<Rightarrow> parse" where
  "ParseCondExpr n pe =
    sthen (ExpectNext T_Cond)
      (sbind (cond_loop n pe []) (\<lambda>(clauses, alt).
       sbind (reads (\<lambda>s. new_CondExpr clauses alt)) (\<lambda>e. ret (Some e))))"

definition ParseWhenExpr :: "nat \<Rightarrow> parse \<Rightarrow> parse" where
  "ParseWhenExpr n pe =
    sthen (ExpectNext (T_Node N_WhenExpr))
      (sbind (required pe) (\<lambda>test.
       sbind (ParseExpressionList n pe True) (\<lambda>actions.
       sbind (reads (\<lambda>s. new_WhenExpr test actions)) (\<lambda>e. ret (Some e)))))"

fun clauses_loop :: "nat \<Rightarrow> nat \<Rightarrow> parser_env \<Rightarrow> parse \<Rightarrow> expr list \<Rightarrow> expr list pop" where
  "clauses_loop fuel k E pe clauses =
    sbind PeekToken (\<lambda>peek.
    if tk_kind peek = T_RParen \<or> tk_kind peek = T_EndOfStream then ret clauses
    else case fuel of
      0 \<Rightarrow> fails OutOfFuel
    | Suc n \<Rightarrow>
        sthen (ExpectNext T_LParen)
          (sbind (required (ParseLiteralExpr k E pe)) (\<lambda>key.
           sbind (ParseExpressionList k pe True) (\<lambda>actions.
           sbind (reads (\<lambda>s. new_ClauseExpr key actions)) (\<lambda>c.
           sthen (ExpectNext T_RParen) (clauses_loop n k E pe (clauses @ [c])))))))"

declare clauses_loop.simps [simp del]

definition ParseClauseList :: "nat \<Rightarrow> parser_env \<Rightarrow> parse \<Rightarrow> expr list pop" where
  "ParseClauseList n E pe = clauses_loop n n E pe []"

definition ParseCaseExpr :: "nat \<Rightarrow> parser_env \<Rightarrow> parse \<Rightarrow> parse" where
  "ParseCaseExpr n E pe =
    sthen (ExpectNext (T_Node N_CaseExpr))
      (sbind (required pe) (\<lambda>key.
       sbind (ParseClauseList n E pe) (\<lambda>clauses. ret (Some (CaseExpr key clauses)))))"

definition ParseWhileExpr :: "nat \<Rightarrow> parse \<Rightarrow> parse" where
  "ParseWhileExpr n pe =
    sthen (ExpectNext (T_Node N_WhileExpr))
      (sbind (required pe) (\<lambda>test.
       sbind (ParseExpressionList n pe True) (\<lambda>body. ret (Some (WhileExpr test body)))))"

definition ParseThrowExpr :: "parse \<Rightarrow> parse" where
  "ParseThrowExpr pe =
    sthen (ExpectNext (T_Node N_ThrowExpr)) (sbind (required pe) (\<lambda>value. ret (Some (ThrowExpr value))))"

section \<open>Bindings and assignments\<close>

text \<open>A binding is in the scope of the ones before it, and of its own value only after it.\<close>

fun bindings_loop :: "nat \<Rightarrow> parser_env \<Rightarrow> parse \<Rightarrow> nat \<Rightarrow> expr list \<Rightarrow> expr list pop" where
  "bindings_loop fuel E pe scope bindings =
    sbind (PeekEq T_RParen) (\<lambda>done.
    if done then ret bindings
    else case fuel of
      0 \<Rightarrow> fails OutOfFuel
    | Suc n \<Rightarrow>
        sthen (ExpectNext T_LParen)
          (sbind (ParseSymbol E) (\<lambda>sy.
           sbind (symbol_text_of sy) (\<lambda>name.
           sbind (pscoped (\<lambda>sc. Has sc scope name False)) (\<lambda>has.
           sthen (if has then redefined E sy else ret ())
             (sbind (required pe) (\<lambda>value.
              sbind (new_variable scope sy 0) (\<lambda>local.
              sthen (add_or_die scope local)
                (sthen (ExpectNext T_RParen)
                  (bindings_loop n E pe scope (bindings @ [Binding local value])))))))))))"

declare bindings_loop.simps [simp del]

definition ParseLetExpr :: "nat \<Rightarrow> parser_env \<Rightarrow> parse \<Rightarrow> parse" where
  "ParseLetExpr n E pe =
    sthen (ExpectNext (T_Node N_LetExpr))
      (sbind parser_PushScope (\<lambda>scope.
       sthen (ExpectNext T_LParen)
         (sbind (bindings_loop n E pe scope []) (\<lambda>bindings.
          sthen (ExpectNext T_RParen)
            (sbind (ParseExpressionList n pe True) (\<lambda>body.
             sthen parser_PopScope (ret (Some (LetExpr scope bindings body)))))))))"

definition ParseRxOpExpr :: "nat \<Rightarrow> parser_env \<Rightarrow> parse \<Rightarrow> expr pop" where
  "ParseRxOpExpr n E pe =
    sthen (ExpectNext T_LParen)
      (sbind (ParseSymbol E) (\<lambda>sy.
       sbind (ParseExpressionList n pe True) (\<lambda>args.
       sthen (ExpectNext T_RParen) (reads (\<lambda>s. new_RxOpExpr sy args)))))"

fun rx_loop :: "nat \<Rightarrow> nat \<Rightarrow> parser_env \<Rightarrow> parse \<Rightarrow> expr list \<Rightarrow> expr list pop" where
  "rx_loop fuel k E pe operators =
    sbind PeekToken (\<lambda>peek.
    if tk_kind peek = T_RParen \<or> tk_kind peek = T_EndOfStream then ret operators
    else case fuel of
      0 \<Rightarrow> fails OutOfFuel
    | Suc n \<Rightarrow> sbind (ParseRxOpExpr k E pe) (\<lambda>oper. rx_loop n k E pe (operators @ [oper])))"

declare rx_loop.simps [simp del]

definition ParseRxOpList :: "nat \<Rightarrow> parser_env \<Rightarrow> parse \<Rightarrow> expr list pop" where
  "ParseRxOpList n E pe = rx_loop n n E pe []"

definition ParseLetRxExpr :: "nat \<Rightarrow> parser_env \<Rightarrow> parse \<Rightarrow> parse" where
  "ParseLetRxExpr n E pe =
    sthen (ExpectNext (T_Node N_LetRxExpr))
      (sbind parser_PushScope (\<lambda>scope.
       sbind (required pe) (\<lambda>observable.
       sbind (PeekEq T_RParen) (\<lambda>done.
       if done then sthen parser_PopScope (ret (Some (LetRxExpr scope observable [])))
       else sbind (ParseRxOpList n E pe) (\<lambda>operators.
         sthen parser_PopScope (ret (Some (LetRxExpr scope observable operators))))))))"

text \<open>Assignment to a variable that is not known ends in a fatal log, after it has been added.\<close>

definition ParseSetLocal :: "parse \<Rightarrow> uword \<Rightarrow> parse" where
  "ParseSetLocal pe sy =
    sbind (asks ps_scope) (\<lambda>scope.
    sbind (symbol_text_of sy) (\<lambda>name.
    sbind (pscoped (\<lambda>sc. Lookup sc scope name True)) (\<lambda>found.
    case found of
      None \<Rightarrow>
        sbind (new_variable scope sy 0) (\<lambda>local.
        sthen (on_pscopes (Add_local scope local)) (fails LogFatal))
    | Some local \<Rightarrow>
        sbind (required pe) (\<lambda>value. ret (Some (SetLocalExpr local (Some value)))))))"

definition ParseSetExpr :: "parser_env \<Rightarrow> parse \<Rightarrow> parse" where
  "ParseSetExpr E pe =
    sthen (ExpectNext T_Set)
      (sbind (ParseSymbol E) (\<lambda>sy.
       sbind (pstored (symbol_type_class sy)) (\<lambda>tc.
       sbind (pstored (member_field tc sy)) (\<lambda>field.
       if field \<noteq> 0 then
         sbind (required pe) (\<lambda>inst.
         sbind (required pe) (\<lambda>value.
         sbind (reads (\<lambda>s. new_SetFieldExpr field inst value)) (\<lambda>e. ret (Some e))))
       else ParseSetLocal pe sy))))"

section \<open>Quotes, lists, casts and constructors\<close>

text \<open>The loop over the characters of a quoted text: up to the closing parenthesis or a blank at
  the depth where it began. The last two rounds are those that find the end of the stream.\<close>

fun quote_loop :: "nat \<Rightarrow> uword \<Rightarrow> unit pop" where
  "quote_loop fuel depth =
    sthen take_into_buffer
      (sbind (asks (\<lambda>s. (PeekChar 0 s, ps_depth s))) (\<lambda>(c, d).
       let again = (case fuel of 0 \<Rightarrow> fails OutOfFuel | Suc n \<Rightarrow> quote_loop n depth) in
       if c = CHR '')'' then if depth < d then again else ret ()
       else if IsWhitespaceChar c \<and> d \<le> depth then ret ()
       else again))"

declare quote_loop.simps [simp del]

definition new_quoted :: "parser_env \<Rightarrow> string \<Rightarrow> parse" where
  "new_quoted E text =
    (if text = ''()'' then
       sbind (on_pstore (Null (pe_machine E))) (\<lambda>v. sbind (literal_of v) (\<lambda>e. ret (Some e)))
     else sthen (sassert (text \<noteq> []))
       (sbind (on_pstore (Symbol_New_text (pe_machine E) text)) (\<lambda>sy.
        sbind (reads (\<lambda>s. new_QuotedExpr sy)) (\<lambda>e. ret (Some e)))))"

definition ParseQuotedExpr :: "parser_env \<Rightarrow> parse" where
  "ParseQuotedExpr E =
    sbind (asks ps_depth) (\<lambda>depth.
    sthen (ExpectNext T_Quote)
      (sthen SkipWhitespace
        (sthen clear_buffer
          (sbind (asks chars_left) (\<lambda>n.
           sthen (quote_loop (n + 2) depth)
             (sbind (asks (\<lambda>s. (ps_depth s, GetBufferedText s))) (\<lambda>(d, text).
              sthen (sassert (depth = d)) (new_quoted E text))))))))"

definition long_literal :: "expr option \<Rightarrow> store \<Rightarrow> uword option res" where
  "long_literal e st =
    (case e of
       Some (LiteralExpr v) \<Rightarrow>
         if v = 0 then Inr None
         else rbind (obj_at v st) (\<lambda>x. Inr (case x of OLong w \<Rightarrow> Some w | _ \<Rightarrow> None))
     | _ \<Rightarrow> Inr None)"

definition range_bound :: "expr option \<Rightarrow> uword pop" where
  "range_bound e =
    sbind (pstored (long_literal e)) (\<lambda>v. case v of None \<Rightarrow> fails LogFatal | Some w \<Rightarrow> ret w)"

definition ParseListExpr :: "nat \<Rightarrow> parser_env \<Rightarrow> parse \<Rightarrow> parse" where
  "ParseListExpr n E pe =
    sbind pe (\<lambda>first.
    sbind (PeekEq T_Range) (\<lambda>range.
    if range then
      sthen NextToken
        (sbind (range_bound first) (\<lambda>from.
         sbind pe (\<lambda>last_expr.
         sbind (range_bound last_expr) (\<lambda>till.
         sbind (on_pstore (ListFromRange (pe_machine E) from till)) (\<lambda>v.
         sbind (literal_of v) (\<lambda>e. ret (Some e)))))))
    else case first of
      None \<Rightarrow> fails AssertFailed
    | Some e \<Rightarrow> sbind (args_loop n pe [e]) (\<lambda>es. ret (Some (ListExpr es)))))"

text \<open>The class the text of a token names.\<close>

definition named_class :: "parser_env \<Rightarrow> string \<Rightarrow> uword pop" where
  "named_class E text =
    sbind (on_pstore (Symbol_New_text (pe_machine E) text)) (\<lambda>sy.
    sbind (pstored (FindClass_symbol sy)) (\<lambda>cls.
    sthen (sguard LogFatal (cls \<noteq> 0)) (ret cls)))"

definition ParseCastExpr :: "parser_env \<Rightarrow> parse \<Rightarrow> parse" where
  "ParseCastExpr E pe =
    sbind (ExpectNext (T_Node N_CastExpr)) (\<lambda>token.
    sthen (sassert (tk_text token \<noteq> []))
      (sbind (named_class E (tk_text token)) (\<lambda>cls.
       sbind (required pe) (\<lambda>value.
       sbind (reads (\<lambda>s. new_CastExpr cls value)) (\<lambda>e. ret (Some e))))))"

definition ParseInstanceOfExpr :: "parser_env \<Rightarrow> parse \<Rightarrow> parse" where
  "ParseInstanceOfExpr E pe =
    sbind (ExpectNext (T_Node N_InstanceOfExpr)) (\<lambda>token.
    sthen (sassert (tk_text token \<noteq> []))
      (sbind (named_class E (tk_text token)) (\<lambda>cls.
       sbind (required pe) (\<lambda>value.
       sbind (reads (\<lambda>s. new_InstanceOfExpr cls value)) (\<lambda>e. ret (Some e))))))"

definition ParseNewExpr :: "nat \<Rightarrow> parser_env \<Rightarrow> parse \<Rightarrow> parse" where
  "ParseNewExpr n E pe =
    sbind (ExpectNext (T_Node N_NewExpr)) (\<lambda>token.
    sbind (named_class E (tk_text token)) (\<lambda>cls.
    sbind (ParseExpressionList n pe True) (\<lambda>args.
    sbind (PeekEq T_RParen) (\<lambda>b.
    sthen (sguard LogFatal b) (ret (Some (NewExpr cls args)))))))"

section \<open>Definitions\<close>

definition set_local_value :: "nat \<Rightarrow> uword \<Rightarrow> scopes \<Rightarrow> (unit \<times> scopes) res" where
  "set_local_value local v sc =
    rbind (get_local sc local) (\<lambda>x. rbind (SetValue v x) (\<lambda>x'. Inr ((), upd_local local x' sc)))"

definition ParseDef :: "parser_env \<Rightarrow> parse \<Rightarrow> parse" where
  "ParseDef E pe =
    sthen (ExpectNext T_Def)
      (sbind (ParseSymbol E) (\<lambda>sy.
       sbind (asks ps_scope) (\<lambda>scope.
       sbind (new_variable scope sy 0) (\<lambda>local.
       sthen (add_or_die scope local)
         (sbind (required pe) (\<lambda>value.
          sbind (asks (\<lambda>s. rt_scope (ps_rt s))) (\<lambda>rs.
          sbind (pstored (IsConstantExpr rs value)) (\<lambda>constant.
          if constant then
            sbind (on_pstore (EvalToConstant (pe_fuel E) (pe_world E) rs scope value)) (\<lambda>v.
            sthen (on_pscopes (set_local_value local v)) (ret None))
          else ret (Some (SetLocalExpr local (Some value)))))))))))"

definition ParseDefn :: "nat \<Rightarrow> parser_env \<Rightarrow> parse \<Rightarrow> nat pop" where
  "ParseDefn n E pe =
    sbind (asks ps_scope) (\<lambda>scope.
    sbind (ParseLambda n E pe T_Defn) (\<lambda>a.
    sbind (pstored (lambda_at a)) (\<lambda>lm.
    sthen (sassert (lm_symbol lm \<noteq> 0))
      (sbind (new_variable scope (lm_symbol lm) a) (\<lambda>local.
       sthen (add_or_die scope local) (ret local))))))"

text \<open>A failure to add the variable is fatal in every caller.\<close>

definition ParseMacroDef :: "nat \<Rightarrow> parser_env \<Rightarrow> parse \<Rightarrow> nat pop" where
  "ParseMacroDef n E pe =
    sbind (asks ps_scope) (\<lambda>scope.
    sbind (ParseMacro n E pe) (\<lambda>a.
    sbind (pstored (macro_at a)) (\<lambda>mc.
    sthen (sassert (mc_symbol mc \<noteq> 0))
      (sbind (new_variable scope (mc_symbol mc) a) (\<lambda>local.
       sthen (add_or_die scope local)
         (sbind (asks (\<lambda>s. (ps_script s, ps_module s))) (\<lambda>(script, module).
          sthen (if script \<noteq> 0 then on_pstore (Script_Append_macro script a) else ret ())
            (sthen (if module \<noteq> 0 then on_pstore (Module_Append_macro module a) else ret ())
              (ret local)))))))))"

definition set_native_args :: "uword \<Rightarrow> argument list \<Rightarrow> unit sop" where
  "set_native_args a args =
    sbind (reads (native_at a)) (\<lambda>nv. modifies (put_obj a (ONative (nv\<lparr>nv_args := args\<rparr>))))"

definition set_native_docs :: "uword \<Rightarrow> uword \<Rightarrow> unit sop" where
  "set_native_docs a docs =
    sbind (reads (native_at a)) (\<lambda>nv. modifies (put_obj a (ONative (nv\<lparr>nv_docs := docs\<rparr>))))"

definition ParseDefNative :: "nat \<Rightarrow> parser_env \<Rightarrow> nat pop" where
  "ParseDefNative n E =
    sthen (ExpectNext T_DefNative)
      (sbind (ParseSymbol E) (\<lambda>sy.
       sbind (on_runtime (FindOrCreate (pe_world E) sy)) (\<lambda>native.
       sthen (sguard LogFatal (native \<noteq> 0))
         (sbind (ParseArguments n E False) (\<lambda>args.
          sthen (on_pstore (set_native_args native args))
            (sbind (parse_docs E) (\<lambda>docs.
             sthen (if docs \<noteq> 0 then on_pstore (set_native_docs native docs) else ret ())
               (sbind (asks ps_scope) (\<lambda>scope.
                sbind (new_variable scope sy native) (\<lambda>local.
                sthen (add_or_die scope local) (ret local)))))))))))"

section \<open>Namespaces\<close>

definition namespace_member :: "nat \<Rightarrow> parser_env \<Rightarrow> parse \<Rightarrow> unit pop" where
  "namespace_member n E pe =
    sbind PeekKind (\<lambda>kind.
    if kind = T_Defn then sbind (ParseDefn n E pe) (\<lambda>l. sthen (assert_value IsLambda l) (ret ()))
    else if kind = T_DefMacro then sbind (ParseMacroDef n E pe) (\<lambda>l. sthen (assert_value IsMacro l) (ret ()))
    else if kind = T_DefNative then
      sbind (ParseDefNative n E) (\<lambda>l. sthen (assert_value IsNativeProcedure l) (ret ()))
    else unexpected_next)"

fun namespace_loop :: "nat \<Rightarrow> nat \<Rightarrow> parser_env \<Rightarrow> parse \<Rightarrow> unit pop" where
  "namespace_loop fuel k E pe =
    sbind (PeekEq T_RParen) (\<lambda>done.
    if done then ret ()
    else case fuel of
      0 \<Rightarrow> fails OutOfFuel
    | Suc n \<Rightarrow>
        sthen (ExpectNext T_LParen)
          (sthen (namespace_member k E pe)
            (sthen (ExpectNext T_RParen) (namespace_loop n k E pe))))"

declare namespace_loop.simps [simp del]

definition ParseNamespace :: "nat \<Rightarrow> parser_env \<Rightarrow> parse \<Rightarrow> uword pop" where
  "ParseNamespace n E pe =
    sthen (ExpectNext T_DefNamespace)
      (sbind (ParseSymbol E) (\<lambda>name.
       sbind parser_PushScope (\<lambda>scope.
       sbind (on_runtime (Namespace_New (pe_machine E) name scope)) (\<lambda>ns.
       sthen (modifies (\<lambda>s. s\<lparr>ps_namespace := ns\<rparr>))
         (sbind (parse_docs E) (\<lambda>docs.
          sthen (if docs \<noteq> 0 then on_pstore (Namespace_SetDocs ns docs) else ret ())
            (sthen (namespace_loop n n E pe)
              (sthen (modifies (\<lambda>s. s\<lparr>ps_namespace := 0\<rparr>))
                (sthen parser_PopScope (ret ns))))))))))"

definition ParseDefNamespace :: "nat \<Rightarrow> parser_env \<Rightarrow> parse \<Rightarrow> nat pop" where
  "ParseDefNamespace n E pe =
    sbind (asks ps_depth) (\<lambda>depth.
    if depth \<noteq> 1 then unexpected_next
    else sbind (ParseNamespace n E pe) (\<lambda>ns.
      sbind (asks ps_scope) (\<lambda>scope.
      sbind (pstored (namespace_at ns)) (\<lambda>x.
      sbind (new_variable scope (ns_symbol x) ns) (\<lambda>local.
      sthen (add_or_die scope local)
        (sbind (asks (\<lambda>s. (ps_script s, ps_module s))) (\<lambda>(script, module).
         sthen (if script \<noteq> 0 then on_pstore (Script_Append_namespace script ns) else ret ())
           (sthen (if module \<noteq> 0 then on_pstore (Module_Append_namespace module ns) else ret ())
             (ret local)))))))))"

section \<open>Expressions\<close>

definition ParseImportExpr :: "parser_env \<Rightarrow> parse" where
  "ParseImportExpr E =
    sthen (ExpectNext (T_Node N_ImportExpr))
      (sbind (ExpectNext T_LiteralString) (\<lambda>next.
       sbind (on_runtime (pe_find_module E (tk_text next))) (\<lambda>m.
       sthen (sguard LogFatal (m \<noteq> 0))
         (sbind (asks ps_scope) (\<lambda>scope.
          sbind (pstored (module_at m)) (\<lambda>x.
          sbind (asks (\<lambda>s. rt_store (ps_rt s))) (\<lambda>st.
          sbind (on_pscopes (Add_scope (is_native_value st) scope (md_scope x))) (\<lambda>ok.
          sthen (sguard LogFatal ok)
            (sbind (reads (\<lambda>s. new_ImportExpr m)) (\<lambda>e. ret (Some e)))))))))))"

text \<open>The forms that \<open>ParseExpression\<close> and \<open>ParseScript\<close> both know; \<open>other\<close> is what the one that
  asks does with the rest.\<close>

definition common_form :: "nat \<Rightarrow> parser_env \<Rightarrow> parse \<Rightarrow> token \<Rightarrow> parse \<Rightarrow> parse" where
  "common_form n E pe next other =
    (if tk_IsUnaryOp next then ParseUnaryExpr pe
     else if tk_IsBinaryOp next then ParseBinaryExpr n pe
     else if tk_IsLiteral next then ParseListExpr n E pe
     else case tk_kind next of
       T_DefNamespace \<Rightarrow>
         sbind (ParseDefNamespace n E pe) (\<lambda>l. sthen (assert_value IsNamespace l) (ret None))
     | T_DefMacro \<Rightarrow> sbind (ParseMacroDef n E pe) (\<lambda>l. sthen (assert_value IsMacro l) (ret None))
     | T_Def \<Rightarrow> ParseDef E pe
     | T_Node N_BeginExpr \<Rightarrow> ParseBeginExpr n pe
     | T_Set \<Rightarrow> ParseSetExpr E pe
     | T_Cond \<Rightarrow> ParseCondExpr n pe
     | T_Node N_ThrowExpr \<Rightarrow> ParseThrowExpr pe
     | T_Fn \<Rightarrow> ParseLiteralLambda n E pe T_Fn
     | T_LParen \<Rightarrow> ParseCallExpr n E pe
     | T_Dispatch \<Rightarrow> ParseCallExpr n E pe
     | T_Identifier \<Rightarrow> ParseCallExpr n E pe
     | T_Quote \<Rightarrow> ParseQuotedExpr E
     | T_Node N_WhenExpr \<Rightarrow> ParseWhenExpr n pe
     | T_Node N_CaseExpr \<Rightarrow> ParseCaseExpr n E pe
     | T_Node N_WhileExpr \<Rightarrow> ParseWhileExpr n pe
     | T_Node N_LetRxExpr \<Rightarrow> ParseLetRxExpr n E pe
     | T_Node N_CastExpr \<Rightarrow> ParseCastExpr E pe
     | T_Node N_InstanceOfExpr \<Rightarrow> ParseInstanceOfExpr E pe
     | T_Node N_LetExpr \<Rightarrow> ParseLetExpr n E pe
     | _ \<Rightarrow> other)"

definition expression_form :: "nat \<Rightarrow> parser_env \<Rightarrow> parse \<Rightarrow> token \<Rightarrow> parse" where
  "expression_form n E pe next =
    common_form n E pe next
      (case tk_kind next of
         T_DefNative \<Rightarrow> sthen (ParseDefNative n E) (ret None)
       | T_Defn \<Rightarrow> sthen (ParseDefn n E pe) (ret None)
       | T_Node N_NewExpr \<Rightarrow> ParseNewExpr n E pe
       | _ \<Rightarrow> fails LogFatal)"

definition ParseExpression_body :: "nat \<Rightarrow> parser_env \<Rightarrow> parse \<Rightarrow> parse" where
  "ParseExpression_body n E pe =
    sbind PeekToken (\<lambda>first.
    if tk_IsLiteral first \<or> tk_kind first \<in> {T_Identifier, T_Dispatch, T_Fn} then ParseLiteralExpr n E pe
    else if tk_kind first = T_Quote then ParseQuotedExpr E
    else
      sthen (ExpectNext T_LParen)
        (sbind PeekToken (\<lambda>next.
         sbind (expression_form n E pe next) (\<lambda>e.
         sthen (ExpectNext T_RParen) (ret e)))))"

fun ParseExpression :: "nat \<Rightarrow> parser_env \<Rightarrow> parse" where
  "ParseExpression 0 E = fails OutOfFuel"
| "ParseExpression (Suc n) E = ParseExpression_body n E (ParseExpression n E)"

section \<open>Scripts and modules\<close>

text \<open>A literal at the top level is appended, and the loop then expects a parenthesis all the
  same.\<close>

definition script_literal :: "nat \<Rightarrow> parser_env \<Rightarrow> parse \<Rightarrow> uword \<Rightarrow> unit pop" where
  "script_literal n E pe script =
    sbind PeekToken (\<lambda>peek.
    if tk_IsLiteral peek \<or> tk_IsIdentifier peek \<or> tk_kind peek \<in> {T_Fn, T_Dispatch} then
      sbind (ParseLiteralExpr n E pe) (\<lambda>e. on_pstore (Script_Append_expr script e))
    else if tk_IsQuote peek then sbind (ParseQuotedExpr E) (\<lambda>e. on_pstore (Script_Append_expr script e))
    else ret ())"

definition script_form :: "nat \<Rightarrow> parser_env \<Rightarrow> parse \<Rightarrow> uword \<Rightarrow> token \<Rightarrow> parse" where
  "script_form n E pe script next =
    common_form n E pe next
      (case tk_kind next of
         T_Defn \<Rightarrow>
           sbind (ParseDefn n E pe) (\<lambda>l. sbind (assert_value IsLambda l) (\<lambda>a.
           sthen (on_pstore (Script_Append_lambda script a)) (ret None)))
       | T_Node N_ImportExpr \<Rightarrow> ParseImportExpr E
       | _ \<Rightarrow> fails LogFatal)"

definition script_round :: "nat \<Rightarrow> parser_env \<Rightarrow> parse \<Rightarrow> uword \<Rightarrow> unit pop" where
  "script_round n E pe script =
    sthen (script_literal n E pe script)
      (sthen (ExpectNext T_LParen)
        (sbind PeekToken (\<lambda>next.
         sbind (script_form n E pe script next) (\<lambda>e.
         sthen (ExpectNext T_RParen)
           (if e = None then ret () else on_pstore (Script_Append_expr script e))))))"

fun script_loop :: "nat \<Rightarrow> nat \<Rightarrow> parser_env \<Rightarrow> parse \<Rightarrow> uword \<Rightarrow> unit pop" where
  "script_loop fuel k E pe script =
    sbind (PeekEq T_EndOfStream) (\<lambda>done.
    if done then ret ()
    else case fuel of
      0 \<Rightarrow> fails OutOfFuel
    | Suc n \<Rightarrow> sthen (script_round k E pe script) (script_loop n k E pe script))"

declare script_loop.simps [simp del]

definition ParseScript :: "nat \<Rightarrow> parser_env \<Rightarrow> uword pop" where
  "ParseScript n E =
    sbind parser_PushScope (\<lambda>scope.
    sbind (on_pstore (Script_New (pe_machine E) scope)) (\<lambda>script.
    sthen (modifies (\<lambda>s. s\<lparr>ps_script := script\<rparr>))
      (sthen (script_loop n n E (ParseExpression n E) script)
        (sthen parser_PopScope (ret script)))))"

fun module_loop :: "nat \<Rightarrow> parse \<Rightarrow> expr list \<Rightarrow> expr list pop" where
  "module_loop fuel pe es =
    sbind (PeekEq T_EndOfStream) (\<lambda>done.
    if done then ret es
    else case fuel of
      0 \<Rightarrow> fails OutOfFuel
    | Suc n \<Rightarrow> sbind pe (\<lambda>e. module_loop n pe (case e of None \<Rightarrow> es | Some x \<Rightarrow> es @ [x])))"

declare module_loop.simps [simp del]

definition ParseModule :: "nat \<Rightarrow> parser_env \<Rightarrow> string \<Rightarrow> uword pop" where
  "ParseModule n E name =
    sbind parser_PushScope (\<lambda>scope.
    sbind (on_pstore (String_New (pe_machine E) name)) (\<lambda>text.
    sbind (on_runtime (Module_New (pe_machine E) text scope)) (\<lambda>m.
    sthen (modifies (\<lambda>s. s\<lparr>ps_module := m\<rparr>))
      (sbind (module_loop n (ParseExpression n E) []) (\<lambda>body.
       sthen (if body = [] then ret () else sthen (on_pstore (CreateInitFunc (pe_machine E) m body)) (ret ()))
         (sthen parser_PopScope
           (sthen (modifies (\<lambda>s. s\<lparr>ps_module := 0\<rparr>)) (ret m))))))))"

text \<open>Running a parser of its own on a text, in a scope: \<open>ParseExpr\<close>, \<open>ParseScript\<close> and the end of
  \<open>ParseModuleFrom\<close>.\<close>

definition with_parser :: "'a pop \<Rightarrow> string \<Rightarrow> nat \<Rightarrow> 'a rop" where
  "with_parser m text scope = (\<lambda>rt.
    rbind (new_Parser text scope rt) (\<lambda>(_, s).
    rbind (m s) (\<lambda>(x, s'). Inr (x, ps_rt s'))))"

definition ParseExpr :: "nat \<Rightarrow> parser_env \<Rightarrow> string \<Rightarrow> nat \<Rightarrow> expr option rop" where
  "ParseExpr n E text scope =
    sthen (sassert (text \<noteq> [])) (with_parser (ParseExpression n E) text scope)"

text \<open>The name of a module is its file's, without directory and from the first dot on.\<close>

definition module_of_file :: "string \<Rightarrow> string" where
  "module_of_file filename =
    (let base = (case find_last_of (CHR ''/'') filename of None \<Rightarrow> filename | Some i \<Rightarrow> drop (i + 1) filename)
     in takeWhile (\<lambda>c. c \<noteq> CHR ''.'') base)"

definition ParseModuleFrom :: "nat \<Rightarrow> parser_env \<Rightarrow> string \<Rightarrow> string \<Rightarrow> nat \<Rightarrow> uword rop" where
  "ParseModuleFrom n E filename text scope =
    with_parser (ParseModule n E (module_of_file filename)) text scope"

end
