(* ===== verification/ParserTexts.thy ===== *)
theory ParserTexts
  imports LexerTexts ParserForms ClassesCorrect
begin

text \<open>
  What the parser makes of given texts. A grammar of sources with a printer, and the parser's run on
  what is printed: the token that is peeked at belongs to the text still to be read, objects and
  scopes are only added to the store.
\<close>

section \<open>Runs that succeed\<close>

definition runs :: "('s, 'a) op_on \<Rightarrow> 's \<Rightarrow> ('a \<Rightarrow> 's \<Rightarrow> bool) \<Rightarrow> bool" where
  "runs m s Q \<longleftrightarrow> (\<exists>x t. m s = Inr (x, t) \<and> Q x t)"

lemma runs_ret: "Q x s \<Longrightarrow> runs (ret x) s Q"
  by (simp add: runs_def op_simps)

lemma runs_asks: "Q (f s) s \<Longrightarrow> runs (asks f) s Q"
  by (simp add: runs_def op_simps)

lemma runs_modifies: "Q () (f s) \<Longrightarrow> runs (modifies f) s Q"
  by (simp add: runs_def op_simps)

lemma runs_sguard: "p \<Longrightarrow> Q () s \<Longrightarrow> runs (sguard e p) s Q"
  by (simp add: runs_def op_simps)

lemma runs_reads: "f s = Inr x \<Longrightarrow> Q x s \<Longrightarrow> runs (reads f) s Q"
  by (simp add: runs_def op_simps)

lemma runs_sbind: "runs m s P \<Longrightarrow> (\<And>x t. P x t \<Longrightarrow> runs (f x) t Q) \<Longrightarrow> runs (sbind m f) s Q"
  by (fastforce simp: runs_def op_simps)

lemma runs_sthen: "runs m s P \<Longrightarrow> (\<And>x t. P x t \<Longrightarrow> runs k t Q) \<Longrightarrow> runs (sthen m k) s Q"
  unfolding sthen_def by (rule runs_sbind)

lemma runs_conseq: "runs m s P \<Longrightarrow> (\<And>x t. P x t \<Longrightarrow> Q x t) \<Longrightarrow> runs m s Q"
  by (auto simp: runs_def)

lemma runs_asks_bind: "runs (f (g s)) s Q \<Longrightarrow> runs (sbind (asks g) f) s Q"
  by (simp add: runs_def op_simps)

lemma runs_reads_bind: "f s = Inr x \<Longrightarrow> runs (g x) s Q \<Longrightarrow> runs (sbind (reads f) g) s Q"
  by (simp add: runs_def op_simps)

section \<open>Tokens of a text\<close>

definition calm :: "parser \<Rightarrow> bool" where
  "calm s \<longleftrightarrow> \<not> ps_args s \<and> ps_dispatched s < 0"

definition lexes :: "string \<Rightarrow> token_kind \<Rightarrow> string \<Rightarrow> string \<Rightarrow> bool" where
  "lexes cs kind text ds \<longleftrightarrow>
    (\<forall>s n. at_text s cs \<longrightarrow> calm s \<longrightarrow> length cs \<le> n \<longrightarrow> yields (lex n) s kind text ds)"

lemma lexesI:
  "(\<And>s n. at_text s cs \<Longrightarrow> calm s \<Longrightarrow> yields (lex n) s kind text ds) \<Longrightarrow> lexes cs kind text ds"
  by (simp add: lexes_def)

lemma calm_rest: "calm s \<Longrightarrow> same_rest s t \<Longrightarrow> calm t"
  by (simp add: calm_def same_rest_def)

lemma lexes_unique:
  assumes "lexes cs k x ds" "lexes cs k' x' ds'"
  shows "k = k' \<and> x = x' \<and> ds = ds'"
proof -
  let ?s = "fresh_parser cs 0 example_runtime"
  have "at_text ?s cs" "calm ?s" by (rule fresh_parser_at) (simp add: calm_def fresh_parser_def)
  then have "yields (lex (length cs)) ?s k x ds" "yields (lex (length cs)) ?s k' x' ds'"
    using assms by (simp_all add: lexes_def)
  then show ?thesis by (auto simp: yields_def at_text_def)
qed

lemma lexes_blanks:
  assumes "lexes cs k x ds"
  shows "lexes (replicate j (CHR '' '') @ cs) k x ds"
proof (induction j)
  case (Suc j)
  show ?case
    unfolding lexes_def
  proof (intro allI impI)
    fix s n
    assume s: "at_text s (replicate (Suc j) (CHR '' '') @ cs)" "calm s" "length (replicate (Suc j) (CHR '' '') @ cs) \<le> n"
    then obtain m where n: "n = Suc m" by (cases n) auto
    have "yields (lex m) t k x ds" if "at_text t (replicate j (CHR '' '') @ cs)" "same_rest s t" for t
      using Suc that s(2,3) calm_rest n by (simp add: lexes_def)
    then show "yields (lex n) s k x ds"
      using s(1) n by (auto intro: yields_blank)
  qed
qed (simp add: assms)

lemma lexes_char: "map_of operator_chars c = Some kind \<Longrightarrow> lexes (c # cs) kind [] cs"
  by (intro lexesI yields_operator_char)

lemma lexes_paren: "lexes (CHR ''('' # cs) T_LParen [] cs" "lexes (CHR '')'' # cs) T_RParen [] cs"
  by (intro lexes_char; simp add: operator_chars_def)+

lemma lexes_number:
  "ds \<noteq> [] \<Longrightarrow> \<forall>c\<in>set ds. isdigit c \<Longrightarrow> delimited cs \<Longrightarrow> length ds \<le> 1024 \<Longrightarrow>
    lexes (ds @ cs) T_LiteralLong ds cs"
  by (intro lexesI yields_number)

lemma lexes_word:
  "w \<noteq> [] \<Longrightarrow> list_all isalpha w \<Longrightarrow> delimited cs \<Longrightarrow> length w \<le> 1024 \<Longrightarrow> lexes (w @ cs) (word_kind w) w cs"
  by (intro lexesI yields_word) (simp_all add: calm_def list_all_iff)

lemma lexes_bool: "lexes (''#t'' @ cs) T_LiteralTrue [] cs" "lexes (''#f'' @ cs) T_LiteralFalse [] cs"
proof -
  have "yields (lex n) s (if b then T_LiteralTrue else T_LiteralFalse) [] cs"
    if s: "at_text s ((if b then ''#t'' else ''#f'') @ cs)" for s n b
  proof -
    have "PeekChar 0 s = CHR ''#''" "PeekChar 1 s = (if b then CHR ''t'' else CHR ''f'')"
      using at_text_PeekChar [OF s, of 0] at_text_PeekChar [OF s, of 1] by auto
    moreover have "tolower (CHR ''t'') = CHR ''t''" "tolower (CHR ''f'') = CHR ''f''"
      by (simp_all add: tolower_def code_of_char_def)
    ultimately show ?thesis
      using yields_short_token [OF s, of "if b then T_LiteralTrue else T_LiteralFalse"]
      by (subst lex.simps)
        (auto simp: yields_def Let_def sbind_apply asks_apply operator_chars_def lex_hash_def eval_nat_numeral split: if_splits)
  qed
  from this [of _ True] this [of _ False]
  show "lexes (''#t'' @ cs) T_LiteralTrue [] cs" "lexes (''#f'' @ cs) T_LiteralFalse [] cs"
    by (intro lexesI; simp)+
qed

text \<open>The text still to be read, without or with its first token peeked at. Blanks before it do not
  count.\<close>

definition bare :: "parser \<Rightarrow> string \<Rightarrow> bool" where
  "bare s cs \<longleftrightarrow> calm s \<and> tk_IsInvalid (ps_peek s) \<and> (\<exists>j. at_text s (replicate j (CHR '' '') @ cs))"

definition ready :: "parser \<Rightarrow> string \<Rightarrow> bool" where
  "ready s cs \<longleftrightarrow> bare s cs \<or>
    calm s \<and> \<not> tk_IsInvalid (ps_peek s) \<and>
    (\<exists>ds. lexes cs (tk_kind (ps_peek s)) (tk_text (ps_peek s)) ds \<and> at_text s ds)"

lemma bare_ready: "bare s cs \<Longrightarrow> ready s cs"
  by (simp add: ready_def)

lemma bare_blank: "bare s (CHR '' '' # cs) \<Longrightarrow> bare s cs"
proof -
  assume "bare s (CHR '' '' # cs)"
  then obtain j where "calm s" "tk_IsInvalid (ps_peek s)" "at_text s (replicate j (CHR '' '') @ CHR '' '' # cs)"
    by (auto simp: bare_def)
  moreover have "replicate j (CHR '' '') @ CHR '' '' # cs = replicate (Suc j) (CHR '' '') @ cs"
    by (simp add: replicate_app_Cons_same)
  ultimately show ?thesis unfolding bare_def by metis
qed

lemma yields_at:
  assumes "bare s cs" "lexes cs k x ds"
  shows "yields (lex (chars_left s)) s k x ds"
proof -
  obtain j where j: "at_text s (replicate j (CHR '' '') @ cs)" using assms(1) by (auto simp: bare_def)
  show ?thesis
    using lexes_blanks [OF assms(2), of j] j assms(1) at_text_chars_left [OF j]
    by (simp add: lexes_def bare_def)
qed

text \<open>Taking the next token, and looking at it.\<close>

lemma NextToken_runs:
  assumes "ready s cs" "lexes cs k x ds"
  shows "runs NextToken s (\<lambda>t s'. tk_kind t = k \<and> tk_text t = x \<and> bare s' ds \<and> same_rest s s')"
  using assms(1) unfolding ready_def
proof (elim disjE conjE exE)
  assume b: "bare s cs"
  then have "yields NextToken s k x ds"
    using yields_NextToken [OF yields_at [OF b assms(2)]] by (simp add: bare_def)
  then obtain t s' where t: "NextToken s = Inr (t, s')" "tk_kind t = k" "tk_text t = x" "at_text s' ds"
      "ps_peek s' = ps_peek s" "same_rest s s'"
    by (auto simp: yields_def)
  then have "at_text s' (replicate 0 (CHR '' '') @ ds)" by simp
  then have "bare s' ds" using t(5,6) b calm_rest unfolding bare_def by metis
  then show ?thesis using t by (auto simp: runs_def)
next
  fix es assume s: "calm s" "\<not> tk_IsInvalid (ps_peek s)" "lexes cs (tk_kind (ps_peek s)) (tk_text (ps_peek s)) es"
    "at_text s es"
  let ?s = "s\<lparr>ps_next := ps_peek s, ps_peek := no_token\<rparr>"
  have "NextToken s = Inr (ps_peek s, ?s)" using s(2) by (simp add: NextToken_def op_simps)
  moreover have "tk_kind (ps_peek s) = k \<and> tk_text (ps_peek s) = x \<and> es = ds"
    using lexes_unique [OF s(3) assms(2)] by simp
  moreover have "at_text ?s (replicate 0 (CHR '' '') @ es)" using s(4) by simp
  then have "bare ?s es"
    using s(1) unfolding bare_def by (auto simp: calm_def no_token_def tk_IsInvalid_def intro: exI [of _ 0])
  ultimately show ?thesis by (auto simp: runs_def same_rest_def)
qed

lemma PeekToken_runs:
  assumes "ready s cs" "lexes cs k x ds" "k \<noteq> T_Invalid"
  shows "runs PeekToken s (\<lambda>t s'. tk_kind t = k \<and> tk_text t = x \<and> ready s' cs \<and> same_rest s s')"
proof (cases "tk_IsInvalid (ps_peek s)")
  case False
  then have p: "PeekToken s = Inr (ps_peek s, s)" by (simp add: PeekToken_def op_simps)
  have "tk_kind (ps_peek s) = k \<and> tk_text (ps_peek s) = x"
    using assms(1) False lexes_unique [OF assms(2)] unfolding ready_def bare_def by blast
  then show ?thesis using p assms(1) by (auto simp: runs_def)
next
  case True
  obtain t s' where t: "NextToken s = Inr (t, s')" "tk_kind t = k" "tk_text t = x" "bare s' ds" "same_rest s s'"
    using NextToken_runs [OF assms(1,2)] by (auto simp: runs_def)
  have y: "yields (lex (chars_left s)) s k x ds"
    using assms(1) True yields_at [OF _ assms(2)] unfolding ready_def by blast
  then have "at_text s' ds" using t(1) yields_NextToken [OF y True] by (auto simp: yields_def)
  then have "ready (s'\<lparr>ps_peek := t\<rparr>) cs"
    using t(2-4) assms(2,3) by (auto simp: ready_def bare_def calm_def tk_IsInvalid_def)
  then show ?thesis
    using t True by (auto simp: runs_def PeekToken_def op_simps same_rest_def)
qed

lemma PeekEq_runs:
  assumes "ready s cs" "lexes cs k x ds" "k \<noteq> T_Invalid"
  shows "runs (PeekEq kind) s (\<lambda>b s'. b = (k = kind) \<and> ready s' cs \<and> same_rest s s')"
  unfolding PeekEq_def PeekKind_def
  by (rule runs_sbind [OF runs_sbind [OF PeekToken_runs [OF assms]]]) (auto intro: runs_ret)

lemma PeekKind_runs:
  assumes "ready s cs" "lexes cs k x ds" "k \<noteq> T_Invalid"
  shows "runs PeekKind s (\<lambda>kind s'. kind = k \<and> ready s' cs \<and> same_rest s s')"
  unfolding PeekKind_def
  by (rule runs_sbind [OF PeekToken_runs [OF assms]]) (auto intro: runs_ret)

lemma ExpectNext_runs:
  assumes "ready s cs" "lexes cs k x ds"
  shows "runs (ExpectNext kind) s (\<lambda>t s'. tk_kind t = k \<and> tk_text t = x \<and> bare s' ds \<and> same_rest s s')"
  unfolding ExpectNext_def by (rule NextToken_runs [OF assms])

section \<open>Decimal numbers\<close>

lemma digit_code: "d < 10 \<Longrightarrow> code_of_char (digit d) = 48 + d"
  by (simp add: digit_def code_of_char_def)

lemma digit_isdigit: "d < 10 \<Longrightarrow> isdigit (digit d)"
  by (simp add: isdigit_def digit_code)

lemma digits_value_snoc:
  "list_all isdigit cs \<Longrightarrow> isdigit c \<Longrightarrow>
    digits_value acc (cs @ [c]) = 10 * digits_value acc cs + (code_of_char c - 48)"
  by (induction cs arbitrary: acc) auto

lemma show_nat_digits: "list_all isdigit (show_nat n) \<and> digits_value 0 (show_nat n) = n \<and> show_nat n \<noteq> []"
proof (induction n rule: show_nat.induct)
  case (1 n)
  show ?case
  proof (cases "n < 10")
    case True
    then show ?thesis by (subst (1 2 3) show_nat.simps) (simp add: digit_isdigit digit_code)
  next
    case False
    let ?c = "digit (n mod 10)"
    have c: "isdigit ?c" "code_of_char ?c = 48 + n mod 10" by (simp_all add: digit_isdigit digit_code)
    have n: "show_nat n = show_nat (n div 10) @ [?c]" using False by (subst show_nat.simps) simp
    show ?thesis
      unfolding n using 1 [OF False] c by (simp add: digits_value_snoc)
  qed
qed

lemma show_nat_length: "n < 10 ^ Suc k \<Longrightarrow> length (show_nat n) \<le> Suc k"
proof (induction k arbitrary: n)
  case 0
  then show ?case by (subst show_nat.simps) simp
next
  case (Suc k)
  have "n div 10 < 10 ^ Suc k" using Suc.prems by (simp add: less_mult_imp_div_less)
  then show ?case using Suc.IH [of "n div 10"] by (subst show_nat.simps) simp
qed

lemma lexes_show_nat:
  assumes "n < 2 ^ 63" "delimited cs"
  shows "lexes (show_nat n @ cs) T_LiteralLong (show_nat n) cs"
proof -
  have "(2 :: nat) ^ 63 < 10 ^ Suc 18" by simp
  then have "length (show_nat n) \<le> Suc 18" using assms(1) by (intro show_nat_length) linarith
  then show ?thesis
    using assms show_nat_digits [of n] by (intro lexes_number) (simp_all add: list_all_iff)
qed

lemma atol_show_nat: "n < 2 ^ 63 \<Longrightarrow> atol (show_nat n) = Inr (of_nat n)"
  using show_nat_digits [of n] by (simp add: atol_def)

section \<open>Sources\<close>

text \<open>What can be written with numbers, truth values, operators, lists and the forms that take
  expressions only. The expressions of a \<open>cond\<close> are tests and actions in turn, with an alternative
  at the end when their number is odd.\<close>

datatype source =
    SNum nat | SBool bool
  | SUnary unary_op source | SBinary binary_op source source "source list"
  | SList nat "source list" | SBegin "source list" | SWhen source "source list"
  | SWhile source "source list" | SCond "source list" | SThrow source

fun unary_text :: "unary_op \<Rightarrow> string" where
  "unary_text UNot = ''!''"
| "unary_text UCar = ''car''"
| "unary_text UCdr = ''cdr''"
| "unary_text UNonnull = ''nonnull?''"
| "unary_text UNull = ''null?''"

fun binary_text :: "binary_op \<Rightarrow> string" where
  "binary_text BAdd = ''+''"
| "binary_text BSubtract = ''-''"
| "binary_text BMultiply = ''*''"
| "binary_text BDivide = ''/''"
| "binary_text BModulus = ''%''"
| "binary_text BEquals = ''=''"
| "binary_text BBinaryAnd = ''&''"
| "binary_text BBinaryOr = ''|''"
| "binary_text BGreaterThan = ''>''"
| "binary_text BGreaterThanEqual = ''>=''"
| "binary_text BLessThan = ''<''"
| "binary_text BLessThanEqual = ''<=''"
| "binary_text BCons = ''cons''"
| "binary_text BInstanceOf = ''instanceof?''"

fun show_source :: "source \<Rightarrow> string" where
  "show_source (SNum n) = show_nat n"
| "show_source (SBool b) = show_bool b"
| "show_source (SUnary op a) = CHR ''('' # unary_text op @ CHR '' '' # show_source a @ '')''"
| "show_source (SBinary op a b es) =
    CHR ''('' # binary_text op @ CHR '' '' # show_source a @ CHR '' '' # show_source b @
      concat (map (\<lambda>e. CHR '' '' # show_source e) es) @ '')''"
| "show_source (SList n es) = CHR ''('' # show_nat n @ concat (map (\<lambda>e. CHR '' '' # show_source e) es) @ '')''"
| "show_source (SBegin es) = ''(begin'' @ concat (map (\<lambda>e. CHR '' '' # show_source e) es) @ '')''"
| "show_source (SWhen a es) =
    ''(when '' @ show_source a @ concat (map (\<lambda>e. CHR '' '' # show_source e) es) @ '')''"
| "show_source (SWhile a es) =
    ''(while '' @ show_source a @ concat (map (\<lambda>e. CHR '' '' # show_source e) es) @ '')''"
| "show_source (SCond es) = ''(cond'' @ concat (map (\<lambda>e. CHR '' '' # show_source e) es) @ '')''"
| "show_source (SThrow a) = ''(throw '' @ show_source a @ '')''"

abbreviation show_sources :: "source list \<Rightarrow> string" where
  "show_sources es \<equiv> concat (map (\<lambda>e. CHR '' '' # show_source e) es)"

text \<open>Numbers are those of 63 bits; the operators whose names end in a question mark cannot be
  written; \<open>when\<close> needs an action, \<open>cond\<close> a clause.\<close>

fun writable :: "source \<Rightarrow> bool" where
  "writable (SNum n) = (n < 2 ^ 63)"
| "writable (SBool b) = True"
| "writable (SUnary op a) = (op \<notin> {UNonnull, UNull} \<and> writable a)"
| "writable (SBinary op a b es) = (op \<noteq> BInstanceOf \<and> writable a \<and> writable b \<and> list_all writable es)"
| "writable (SList n es) = (n < 2 ^ 63 \<and> list_all writable es)"
| "writable (SBegin es) = list_all writable es"
| "writable (SWhen a es) = (writable a \<and> es \<noteq> [] \<and> list_all writable es)"
| "writable (SWhile a es) = (writable a \<and> list_all writable es)"
| "writable (SCond es) = (2 \<le> length es \<and> list_all writable es)"
| "writable (SThrow a) = writable a"

fun nodes :: "source \<Rightarrow> nat" where
  "nodes (SUnary op a) = nodes a + 1"
| "nodes (SBinary op a b es) = nodes a + nodes b + sum_list (map nodes es) + 1"
| "nodes (SList n es) = sum_list (map nodes es) + 2"
| "nodes (SBegin es) = sum_list (map nodes es) + 1"
| "nodes (SWhen a es) = nodes a + sum_list (map nodes es) + 1"
| "nodes (SWhile a es) = nodes a + sum_list (map nodes es) + 1"
| "nodes (SCond es) = sum_list (map nodes es) + 1"
| "nodes (SThrow a) = nodes a + 1"
| "nodes _ = 1"

text \<open>The expression a source stands for, with literals in the store.\<close>

fun cond_parts :: "expr list \<Rightarrow> expr list \<times> expr option" where
  "cond_parts (a # b # es) = (let (cs, alt) = cond_parts es in (ClauseExpr a [b] # cs, alt))"
| "cond_parts [a] = ([], Some a)"
| "cond_parts [] = ([], None)"

inductive means :: "store \<Rightarrow> source \<Rightarrow> expr \<Rightarrow> bool" for st where
  "v \<noteq> 0 \<Longrightarrow> st_objs st v = Some (OLong (of_nat n)) \<Longrightarrow> means st (SNum n) (LiteralExpr v)"
| "v = (if b then st_true st else st_false st) \<Longrightarrow> means st (SBool b) (LiteralExpr v)"
| "means st a x \<Longrightarrow> means st (SUnary op a) (UnaryExpr op x)"
| "means st a x \<Longrightarrow> means st b y \<Longrightarrow> list_all2 (means st) es zs \<Longrightarrow>
    means st (SBinary op a b es) (foldl (BinaryOpExpr op) (BinaryOpExpr op x y) zs)"
| "means st (SNum n) x \<Longrightarrow> list_all2 (means st) es ys \<Longrightarrow> means st (SList n es) (ListExpr (x # ys))"
| "list_all2 (means st) es ys \<Longrightarrow> means st (SBegin es) (BeginExpr ys)"
| "means st a x \<Longrightarrow> list_all2 (means st) es ys \<Longrightarrow> means st (SWhen a es) (WhenExpr x ys)"
| "means st a x \<Longrightarrow> list_all2 (means st) es ys \<Longrightarrow> means st (SWhile a es) (WhileExpr x ys)"
| "list_all2 (means st) es ys \<Longrightarrow> cond_parts ys = (cs, alt) \<Longrightarrow> means st (SCond es) (CondExpr cs alt)"
| "means st a x \<Longrightarrow> means st (SThrow a) (ThrowExpr x)"

section \<open>What parsing adds\<close>

text \<open>Objects and scopes are added; at most \<open>k\<close> objects are.\<close>

definition untouched :: "store \<Rightarrow> _" where
  "untouched st = (st_slots st, st_pool st, st_class st, st_classes st, st_num_classes st, st_true st, st_false st,
    st_empty_pair st, st_empty_string st)"

definition grown :: "nat \<Rightarrow> store \<Rightarrow> store \<Rightarrow> bool" where
  "grown k st st' \<longleftrightarrow>
    untouched st' = untouched st \<and>
    st_objs st \<subseteq>\<^sub>m st_objs st' \<and> sc_map (st_scopes st) \<subseteq>\<^sub>m sc_map (st_scopes st') \<and>
    (store_ok st \<longrightarrow> store_ok st') \<and> (fresh_scopes (st_scopes st) \<longrightarrow> fresh_scopes (st_scopes st')) \<and>
    store_free st \<le> store_free st' + k * max_cost"

lemma grown_refl: "grown 0 st st"
  by (simp add: grown_def)

lemma grown_trans: "grown j st st1 \<Longrightarrow> grown k st1 st2 \<Longrightarrow> grown (j + k) st st2"
  unfolding grown_def by (auto simp: algebra_simps intro: map_le_trans)

lemma grown_weaken:
  assumes "grown j st st'" "j \<le> k"
  shows "grown k st st'"
proof -
  have "j * max_cost \<le> k * max_cost" using assms(2) by simp
  then show ?thesis using assms(1) unfolding grown_def by linarith
qed

lemma means_grown:
  assumes "means st e y" "grown k st st'"
  shows "means st' e y"
proof -
  have t: "st_true st' = st_true st" "st_false st' = st_false st" and m: "st_objs st \<subseteq>\<^sub>m st_objs st'"
    using assms(2) by (simp_all add: grown_def untouched_def)
  show ?thesis
    using assms(1)
  proof induction
    case (1 v n)
    then have "st_objs st' v = Some (OLong (of_nat n))" using m by (auto simp: map_le_def dom_def)
    then show ?case using 1 by (intro means.intros)
  next
    case (2 v b)
    then show ?case using t by (intro means.intros) simp
  next
    case (9 es ys cs alt)
    then show ?case by (intro means.intros) (auto elim: list_all2_mono)
  qed (auto intro: means.intros elim: list_all2_mono)
qed

lemma means_all_grown: "list_all2 (means st) es ys \<Longrightarrow> grown k st st' \<Longrightarrow> list_all2 (means st') es ys"
  using means_grown by (auto elim: list_all2_mono)

end
