(* ===== verification/ParserCorrect.thy ===== *)
theory ParserCorrect
  imports ParserTexts
begin

text \<open>
  The parser reads back what is printed: the loops of the parser as instances of one loop over
  expressions, the forms, and the round trip.
\<close>

section \<open>The state of the parser\<close>

abbreviation store_of :: "parser \<Rightarrow> store" where
  "store_of s \<equiv> rt_store (ps_rt s)"

text \<open>What the runtime has beside its store.\<close>

definition beside :: "runtime \<Rightarrow> _" where
  "beside rt = (rt_code rt, rt_current rt, rt_init_scope rt, rt_scope rt, rt_frames rt, rt_result rt, rt_natives rt,
    rt_modules rt, rt_namespaces rt, rt_event_loop rt, rt_output rt)"

lemma beside_store: "beside rt' = beside rt \<longleftrightarrow> rt' = rt\<lparr>rt_store := rt_store rt'\<rparr>"
  by (cases rt; cases rt') (auto simp: beside_def)

definition parsed :: "nat \<Rightarrow> parser \<Rightarrow> parser \<Rightarrow> bool" where
  "parsed k s t \<longleftrightarrow>
    beside (ps_rt t) = beside (ps_rt s) \<and> grown k (store_of s) (store_of t) \<and>
    ps_script t = ps_script s \<and> ps_module t = ps_module s \<and> ps_namespace t = ps_namespace s"

definition room :: "machine \<Rightarrow> nat \<Rightarrow> parser \<Rightarrow> bool" where
  "room M k s \<longleftrightarrow> sane_machine M \<and> store_ok (store_of s) \<and> fresh_scopes (st_scopes (store_of s)) \<and>
    st_true (store_of s) \<noteq> 0 \<and> st_false (store_of s) \<noteq> 0 \<and> k * max_cost < store_free (store_of s)"

lemma parsed_rest: "same_rest s t \<Longrightarrow> parsed 0 s t \<and> ps_scope t = ps_scope s"
  by (simp add: parsed_def same_rest_def grown_refl)

lemma parsed_trans: "parsed j s t \<Longrightarrow> parsed k t u \<Longrightarrow> parsed (j + k) s u"
  unfolding parsed_def using grown_trans by auto

lemma parsed_first: "same_rest s t \<Longrightarrow> parsed k t u \<Longrightarrow> parsed k s u"
  using parsed_trans [of 0 s t k u] parsed_rest by simp

lemma parsed_last: "parsed k s t \<Longrightarrow> same_rest t u \<Longrightarrow> parsed k s u"
  using parsed_trans [of k s t 0 u] parsed_rest by simp

lemma room_parsed:
  assumes "room M (j + k) s" "parsed j s t"
  shows "room M k t"
  using assms by (auto simp: room_def parsed_def grown_def untouched_def algebra_simps)

lemma room_less: "room M k s \<Longrightarrow> j \<le> k \<Longrightarrow> room M j s"
proof -
  assume "room M k s" "j \<le> k"
  moreover have "j * max_cost \<le> k * max_cost" using \<open>j \<le> k\<close> by simp
  ultimately show "room M j s" unfolding room_def by linarith
qed

lemma room_rest: "room M k s \<Longrightarrow> same_rest s t \<Longrightarrow> room M k t"
  using room_parsed [of M 0 k s t] parsed_rest by simp

lemma means_parsed: "means (store_of s) e y \<Longrightarrow> parsed k s t \<Longrightarrow> means (store_of t) e y"
  using means_grown by (auto simp: parsed_def)

lemma means_all_parsed:
  "list_all2 (means (store_of s)) es ys \<Longrightarrow> parsed k s t \<Longrightarrow> list_all2 (means (store_of t)) es ys"
  using means_all_grown by (auto simp: parsed_def)

section \<open>Parsing an expression\<close>

text \<open>What \<open>pe\<close> does with a printed source.\<close>

definition parses :: "machine \<Rightarrow> parse \<Rightarrow> source \<Rightarrow> bool" where
  "parses M pe e \<longleftrightarrow>
    (\<forall>s cs. ready s (show_source e @ cs) \<longrightarrow> delimited cs \<longrightarrow> room M (nodes e) s \<longrightarrow>
      runs pe s (\<lambda>r t. \<exists>y. r = Some y \<and> bare t cs \<and> parsed (nodes e) s t \<and> ps_scope t = ps_scope s \<and>
        means (store_of t) e y))"

lemma parsesD:
  assumes "parses M pe e" "ready s (show_source e @ cs)" "delimited cs" "room M (nodes e) s"
    and "\<And>y t. bare t cs \<Longrightarrow> parsed (nodes e) s t \<Longrightarrow> ps_scope t = ps_scope s \<Longrightarrow> means (store_of t) e y \<Longrightarrow>
      Q (Some y) t"
  shows "runs pe s Q"
proof -
  have "runs pe s (\<lambda>r t. \<exists>y. r = Some y \<and> bare t cs \<and> parsed (nodes e) s t \<and> ps_scope t = ps_scope s \<and>
        means (store_of t) e y)"
    using assms(1-4) unfolding parses_def by blast
  then show ?thesis by (rule runs_conseq) (use assms(5) in blast)
qed

lemma required_runs: "runs pe s (\<lambda>r t. \<exists>y. r = Some y \<and> Q y t) \<Longrightarrow> runs (required pe) s Q"
  unfolding required_def by (erule runs_sbind) (auto intro: runs_ret)

lemma runs_some: "runs pe s (\<lambda>r u. \<exists>y. r = Some y \<and> runs (f (Some y)) u Q) \<Longrightarrow> runs (sbind pe f) s Q"
  by (erule runs_sbind) auto

lemma source_starts:
  assumes "writable e" "delimited cs"
  shows "\<exists>k x ds. lexes (show_source e @ cs) k x ds \<and> k \<notin> {T_RParen, T_EndOfStream, T_Invalid, T_Range}"
proof -
  have "lexes (CHR ''('' # ds) T_LParen [] ds" for ds by (rule lexes_paren)
  then show ?thesis
    using assms lexes_show_nat lexes_bool
    by (cases e) (fastforce simp: show_bool_def)+
qed

section \<open>Loops over expressions\<close>

text \<open>Before the sources of a form, or its closing parenthesis; the blank is behind.\<close>

definition at_sources :: "parser \<Rightarrow> source list \<Rightarrow> string \<Rightarrow> bool" where
  "at_sources s es cs \<longleftrightarrow>
    ready s (case es of [] \<Rightarrow> cs | e # fs \<Rightarrow> show_source e @ show_sources fs @ cs)"

lemma at_sources_bare: "bare s (show_sources es @ cs) \<Longrightarrow> at_sources s es cs"
  using bare_ready bare_blank by (cases es) (auto simp: at_sources_def)

text \<open>The loops read expressions up to the closing parenthesis, which is left to be read.\<close>

locale expression_loop =
  fixes loop :: "parse \<Rightarrow> nat \<Rightarrow> 'b \<Rightarrow> 'c pop" and add :: "'b \<Rightarrow> expr \<Rightarrow> 'b" and final :: "'b \<Rightarrow> 'c"
  assumes at_end: "ready s (CHR '')'' # cs) \<Longrightarrow>
      runs (loop pe n acc) s (\<lambda>r t. r = final acc \<and> ready t (CHR '')'' # cs) \<and> same_rest s t)"
    and at_more: "ready s cs \<Longrightarrow> lexes cs k x ds \<Longrightarrow> k \<notin> {T_RParen, T_EndOfStream, T_Invalid, T_Range} \<Longrightarrow>
      (\<And>t. ready t cs \<Longrightarrow> same_rest s t \<Longrightarrow> runs pe t (\<lambda>r u. \<exists>y. r = Some y \<and> runs (loop pe n (add acc y)) u Q)) \<Longrightarrow>
      runs (loop pe (Suc n) acc) s Q"
begin

lemma loop_runs:
  assumes "\<forall>e\<in>set es. writable e \<and> parses M pe e" "at_sources s es (CHR '')'' # cs)"
    and "room M (sum_list (map nodes es)) s" "length es \<le> n"
  shows "runs (loop pe n acc) s (\<lambda>r t. \<exists>ys. r = final (foldl add acc ys) \<and>
    list_all2 (means (store_of t)) es ys \<and> ready t (CHR '')'' # cs) \<and>
    parsed (sum_list (map nodes es)) s t \<and> ps_scope t = ps_scope s)"
  using assms
proof (induction es arbitrary: s n acc)
  case Nil
  then show ?case
    by (intro runs_conseq [OF at_end [of s cs pe n acc]]) (auto simp: at_sources_def dest: parsed_rest)
next
  case (Cons e es)
  let ?rest = "show_sources es @ CHR '')'' # cs"
  obtain m where n: "n = Suc m" using Cons.prems(4) by (cases n) auto
  have r: "ready s (show_source e @ ?rest)" using Cons.prems(2) by (simp add: at_sources_def)
  have d: "delimited ?rest" by (cases es) (simp_all add: delimited_def)
  obtain k x ds where k: "lexes (show_source e @ ?rest) k x ds" "k \<notin> {T_RParen, T_EndOfStream, T_Invalid, T_Range}"
    using source_starts [OF _ d] Cons.prems(1) by fastforce
  show ?case
    unfolding n
  proof (rule at_more [OF r k])
    fix t assume t: "ready t (show_source e @ ?rest)" "same_rest s t"
    have rm: "room M (nodes e + sum_list (map nodes es)) t"
      using room_rest [OF Cons.prems(3) t(2)] by simp
    have "parses M pe e" using Cons.prems(1) by simp
    then show "runs pe t (\<lambda>r u. \<exists>y. r = Some y \<and> runs (loop pe m (add acc y)) u (\<lambda>r t. \<exists>ys.
        r = final (foldl add acc ys) \<and> list_all2 (means (store_of t)) (e # es) ys \<and> ready t (CHR '')'' # cs) \<and>
        parsed (sum_list (map nodes (e # es))) s t \<and> ps_scope t = ps_scope s))"
    proof (rule parsesD [OF _ t(1) d room_less [OF rm]])
      fix y u assume u: "bare u ?rest" "parsed (nodes e) t u" "ps_scope u = ps_scope t" "means (store_of u) e y"
      have "runs (loop pe m (add acc y)) u (\<lambda>r v. \<exists>ys. r = final (foldl add (add acc y) ys) \<and>
          list_all2 (means (store_of v)) es ys \<and> ready v (CHR '')'' # cs) \<and>
          parsed (sum_list (map nodes es)) u v \<and> ps_scope v = ps_scope u)"
        using Cons.prems(1,4) n by (intro Cons.IH at_sources_bare u(1) room_parsed [OF rm u(2)]) simp_all
      then have "runs (loop pe m (add acc y)) u (\<lambda>r v. \<exists>ys. r = final (foldl add acc ys) \<and>
          list_all2 (means (store_of v)) (e # es) ys \<and> ready v (CHR '')'' # cs) \<and>
          parsed (sum_list (map nodes (e # es))) s v \<and> ps_scope v = ps_scope s)"
      proof (rule runs_conseq, elim exE conjE)
        fix r v ys
        assume v: "r = final (foldl add (add acc y) ys)" "list_all2 (means (store_of v)) es ys"
          "ready v (CHR '')'' # cs)" "parsed (sum_list (map nodes es)) u v" "ps_scope v = ps_scope u"
        have "parsed (sum_list (map nodes (e # es))) s v"
          using parsed_first [OF t(2) parsed_trans [OF u(2) v(4)]] by simp
        moreover have "ps_scope v = ps_scope s" using v(5) u(3) parsed_rest [OF t(2)] by simp
        ultimately show "\<exists>ys. r = final (foldl add acc ys) \<and>
          list_all2 (means (store_of v)) (e # es) ys \<and> ready v (CHR '')'' # cs) \<and>
          parsed (sum_list (map nodes (e # es))) s v \<and> ps_scope v = ps_scope s"
          using v means_parsed [OF u(4) v(4)] by (intro exI [of _ "y # ys"]) simp
      qed
      then show "\<exists>y'. Some y = Some y' \<and> runs (loop pe m (add acc y')) u (\<lambda>r t. \<exists>ys.
        r = final (foldl add acc ys) \<and> list_all2 (means (store_of t)) (e # es) ys \<and> ready t (CHR '')'' # cs) \<and>
        parsed (sum_list (map nodes (e # es))) s t \<and> ps_scope t = ps_scope s)"
        by blast
    qed simp
  qed
qed

end

lemma foldl_snoc: "foldl (\<lambda>acc y. acc @ [y]) acc ys = acc @ ys"
  by (induction ys arbitrary: acc) simp_all

lemma PeekEq_end:
  assumes "ready s (CHR '')'' # cs)"
  shows "runs (PeekEq T_RParen) s (\<lambda>b t. b \<and> ready t (CHR '')'' # cs) \<and> same_rest s t)"
  by (rule runs_conseq [OF PeekEq_runs [OF assms lexes_paren(2)]]) simp_all

lemma PeekEq_more:
  assumes "ready s cs" "lexes cs k x ds" "k \<notin> {T_RParen, T_EndOfStream, T_Invalid, T_Range}"
  shows "runs (PeekEq T_RParen) s (\<lambda>b t. \<not> b \<and> ready t cs \<and> same_rest s t)"
  by (rule runs_conseq [OF PeekEq_runs [OF assms(1,2)]]) (use assms(3) in auto)

interpretation args: expression_loop "\<lambda>pe n acc. args_loop n pe acc" "\<lambda>acc y. acc @ [y]" "\<lambda>acc. acc"
proof
  fix s cs pe n acc assume "ready s (CHR '')'' # cs)"
  then show "runs (args_loop n pe acc) s (\<lambda>r t. r = acc \<and> ready t (CHR '')'' # cs) \<and> same_rest s t)"
    by (subst args_loop.simps) (rule runs_sbind [OF PeekEq_end], auto intro: runs_ret)
next
  fix s cs k x ds pe n acc Q
  assume "ready s cs" "lexes cs k x ds" "k \<notin> {T_RParen, T_EndOfStream, T_Invalid, T_Range}"
    and "\<And>t. ready t cs \<Longrightarrow> same_rest s t \<Longrightarrow>
      runs pe t (\<lambda>r u. \<exists>y. r = Some y \<and> runs (args_loop n pe (acc @ [y])) u Q)"
  then show "runs (args_loop (Suc n) pe acc) s Q"
    by (subst args_loop.simps) (rule runs_sbind [OF PeekEq_more], auto intro!: runs_sbind required_runs)
qed

interpretation sequence: expression_loop "\<lambda>pe n acc. begin_loop n pe acc" "\<lambda>acc y. acc @ [y]" "\<lambda>acc. acc"
proof
  fix s cs pe n acc assume "ready s (CHR '')'' # cs)"
  then show "runs (begin_loop n pe acc) s (\<lambda>r t. r = acc \<and> ready t (CHR '')'' # cs) \<and> same_rest s t)"
    by (subst begin_loop.simps) (rule runs_sbind [OF PeekEq_end], auto intro: runs_ret)
next
  fix s cs k x ds pe n acc Q
  assume "ready s cs" "lexes cs k x ds" "k \<notin> {T_RParen, T_EndOfStream, T_Invalid, T_Range}"
    and "\<And>t. ready t cs \<Longrightarrow> same_rest s t \<Longrightarrow>
      runs pe t (\<lambda>r u. \<exists>y. r = Some y \<and> runs (begin_loop n pe (acc @ [y])) u Q)"
  then show "runs (begin_loop (Suc n) pe acc) s Q"
    by (subst begin_loop.simps) (rule runs_sbind [OF PeekEq_more], auto intro!: runs_sbind)
qed

interpretation listed: expression_loop "\<lambda>pe n acc. expressions_loop n pe acc" "\<lambda>acc y. acc @ [y]" "\<lambda>acc. acc"
proof
  fix s cs pe n acc assume r: "ready s (CHR '')'' # cs)"
  show "runs (expressions_loop n pe acc) s (\<lambda>r t. r = acc \<and> ready t (CHR '')'' # cs) \<and> same_rest s t)"
    by (subst expressions_loop.simps)
      (rule runs_sbind [OF PeekToken_runs [OF r lexes_paren(2)]], auto intro: runs_ret)
next
  fix s cs k x ds pe n acc Q
  assume r: "ready s cs" "lexes cs k x ds" and k: "k \<notin> {T_RParen, T_EndOfStream, T_Invalid, T_Range}"
    and "\<And>t. ready t cs \<Longrightarrow> same_rest s t \<Longrightarrow>
      runs pe t (\<lambda>r u. \<exists>y. r = Some y \<and> runs (expressions_loop n pe (acc @ [y])) u Q)"
  moreover have "k \<noteq> T_Invalid" using k by simp
  ultimately show "runs (expressions_loop (Suc n) pe acc) s Q"
    by (subst expressions_loop.simps) (rule runs_sbind [OF PeekToken_runs [OF r]], auto intro!: runs_sbind)
qed

text \<open>The operands of an operator: the state of the loop is the left and the right operand.\<close>

interpretation operands: expression_loop "\<lambda>pe n (x, y). binary_loop n pe op (Some x) (Some y)"
    "\<lambda>(x, y) z. (BinaryOpExpr op x y, z)" "\<lambda>(x, y). BinaryOpExpr op x y" for op
proof
  fix s cs pe n and acc :: "expr \<times> expr" assume "ready s (CHR '')'' # cs)"
  then show "runs (case acc of (x, y) \<Rightarrow> binary_loop n pe op (Some x) (Some y)) s
      (\<lambda>r t. r = (case acc of (x, y) \<Rightarrow> BinaryOpExpr op x y) \<and> ready t (CHR '')'' # cs) \<and> same_rest s t)"
    by (cases acc) (simp, subst binary_loop.simps, rule runs_sbind [OF runs_reads],
      auto simp: new_BinaryOpExpr_def intro!: runs_sbind [OF PeekEq_end] runs_ret)
next
  fix s cs k x ds pe n Q and acc :: "expr \<times> expr"
  assume a: "ready s cs" "lexes cs k x ds" "k \<notin> {T_RParen, T_EndOfStream, T_Invalid, T_Range}"
    and q: "\<And>t. ready t cs \<Longrightarrow> same_rest s t \<Longrightarrow>
      runs pe t (\<lambda>r u. \<exists>y. r = Some y \<and> runs (case (case acc of (x, y) \<Rightarrow> \<lambda>z. (BinaryOpExpr op x y, z)) y of
        (x, y) \<Rightarrow> binary_loop n pe op (Some x) (Some y)) u Q)"
  obtain l r where acc: "acc = (l, r)" by (cases acc)
  have "runs (binary_loop (Suc n) pe op (Some l) (Some r)) s Q"
    using q unfolding acc
    by (subst binary_loop.simps) (rule runs_sbind [OF runs_reads],
      auto simp: new_BinaryOpExpr_def intro!: runs_sbind [OF PeekEq_more [OF a]] runs_some)
  then show "runs (case acc of (x, y) \<Rightarrow> binary_loop (Suc n) pe op (Some x) (Some y)) s Q"
    by (simp add: acc)
qed

lemma foldl_operands:
  "(case foldl (\<lambda>(x, y) z. (BinaryOpExpr op x y, z)) (x, y) zs of (x, y) \<Rightarrow> BinaryOpExpr op x y) =
    foldl (BinaryOpExpr op) (BinaryOpExpr op x y) zs"
  by (induction zs arbitrary: x y) simp_all

section \<open>Single expressions and pairs of them\<close>

lemma element_runs:
  assumes "parses M pe e" "ready s (show_source e @ cs)" "delimited cs" "room M (nodes e) s"
  shows "runs (required pe) s (\<lambda>y t. bare t cs \<and> parsed (nodes e) s t \<and> ps_scope t = ps_scope s \<and>
    means (store_of t) e y)"
  by (rule required_runs, rule parsesD [OF assms]) auto

lemma next_element_runs:
  assumes "parses M pe e" "bare s (CHR '' '' # show_source e @ cs)" "delimited cs" "room M (nodes e) s"
  shows "runs (required pe) s (\<lambda>y t. bare t cs \<and> parsed (nodes e) s t \<and> ps_scope t = ps_scope s \<and>
    means (store_of t) e y)"
  using element_runs [OF assms(1) bare_ready [OF bare_blank [OF assms(2)]] assms(3,4)] .

text \<open>Reading an expression, and going on with it.\<close>

lemma parses_bind:
  assumes "parses M pe e" "ready s (show_source e @ cs)" "delimited cs" "room M (nodes e + k) s"
    and "\<And>y t. bare t cs \<Longrightarrow> parsed (nodes e) s t \<Longrightarrow> ps_scope t = ps_scope s \<Longrightarrow> means (store_of t) e y \<Longrightarrow>
      room M k t \<Longrightarrow> runs (f (Some y)) t Q"
  shows "runs (sbind pe f) s Q"
proof (rule runs_some, rule parsesD [OF assms(1-3) room_less [OF assms(4)]])
  fix y t assume "bare t cs" "parsed (nodes e) s t" "ps_scope t = ps_scope s" "means (store_of t) e y"
  then show "\<exists>z. Some y = Some z \<and> runs (f (Some z)) t Q"
    using assms(5) room_parsed [OF assms(4)] by blast
qed simp

lemma required_bind:
  assumes "parses M pe e" "ready s (show_source e @ cs)" "delimited cs" "room M (nodes e + k) s"
    and "\<And>y t. bare t cs \<Longrightarrow> parsed (nodes e) s t \<Longrightarrow> ps_scope t = ps_scope s \<Longrightarrow> means (store_of t) e y \<Longrightarrow>
      room M k t \<Longrightarrow> runs (f y) t Q"
  shows "runs (sbind (required pe) f) s Q"
  unfolding required_def sbind_assoc
  by (rule parses_bind [OF assms(1-4)]) (simp add: assms(5))

lemma delimited_sources: "delimited (show_sources es @ CHR '')'' # cs)"
  by (cases es) (simp_all add: delimited_def)

lemma PeekEq_sources:
  assumes "at_sources s es (CHR '')'' # cs)" "list_all writable es" "kind \<in> {T_RParen, T_Range}"
  shows "runs (PeekEq kind) s (\<lambda>b t. b = (kind = T_RParen \<and> es = []) \<and> same_rest s t \<and> at_sources t es (CHR '')'' # cs))"
proof (cases es)
  case Nil
  then have "ready s (CHR '')'' # cs)" using assms(1) by (simp add: at_sources_def)
  then show ?thesis
    by (rule runs_conseq [OF PeekEq_runs [OF _ lexes_paren(2)]]) (use assms(3) Nil in \<open>auto simp: at_sources_def\<close>)
next
  case (Cons e fs)
  let ?rest = "show_source e @ show_sources fs @ CHR '')'' # cs"
  have r: "ready s ?rest" using assms(1) Cons by (simp add: at_sources_def)
  obtain k x ds where k: "lexes ?rest k x ds" "k \<notin> {T_RParen, T_EndOfStream, T_Invalid, T_Range}"
    using source_starts [OF _ delimited_sources] assms(2) Cons by fastforce
  show ?thesis
    by (rule runs_conseq [OF PeekEq_runs [OF r k(1)]]) (use k(2) assms(3) Cons in \<open>auto simp: at_sources_def\<close>)
qed

lemma PeekEq_close:
  assumes "at_sources s es (CHR '')'' # cs)" "list_all writable es"
  shows "runs (PeekEq T_RParen) s (\<lambda>b t. b = (es = []) \<and> same_rest s t \<and> at_sources t es (CHR '')'' # cs))"
  using PeekEq_sources [OF assms, of T_RParen] by simp

lemma PeekEq_no_range:
  assumes "at_sources s es (CHR '')'' # cs)" "list_all writable es"
  shows "runs (PeekEq T_Range) s (\<lambda>b t. \<not> b \<and> same_rest s t \<and> at_sources t es (CHR '')'' # cs))"
  using PeekEq_sources [OF assms, of T_Range] by simp

text \<open>Clauses of a \<open>cond\<close>.\<close>

definition cond_second :: "nat \<Rightarrow> parse \<Rightarrow> expr list \<Rightarrow> expr \<Rightarrow> (expr list \<times> expr option) pop" where
  "cond_second n pe clauses a =
    sbind (required pe) (\<lambda>b.
    sbind (reads (\<lambda>s. new_ClauseExpr a [b])) (\<lambda>c.
    sbind (PeekEq T_RParen) (\<lambda>done.
    if done then ret (clauses @ [c], None)
    else case n of 0 \<Rightarrow> fails OutOfFuel | Suc n \<Rightarrow> cond_loop n pe (clauses @ [c]))))"

lemma cond_loop_second:
  "cond_loop n pe clauses = sbind (required pe) (\<lambda>a. sbind (PeekEq T_RParen) (\<lambda>done.
    if done then ret (clauses, Some a) else cond_second n pe clauses a))"
  by (subst cond_loop.simps) (simp add: cond_second_def cong: if_cong)

definition cond_result :: "string \<Rightarrow> source list \<Rightarrow> parser \<Rightarrow> expr list \<Rightarrow> expr list \<times> expr option \<Rightarrow> parser \<Rightarrow> bool" where
  "cond_result cs es s acc r t \<longleftrightarrow>
    (\<exists>ys. r = (acc @ fst (cond_parts ys), snd (cond_parts ys)) \<and> list_all2 (means (store_of t)) es ys) \<and>
    ready t (CHR '')'' # cs) \<and> parsed (sum_list (map nodes es)) s t \<and> ps_scope t = ps_scope s"

lemma cond_result_pair:
  assumes "cond_result cs es t (acc @ [ClauseExpr x [y]]) r u" "parsed (nodes a + nodes b) s t" "ps_scope t = ps_scope s"
    and "means (store_of t) a x" "means (store_of t) b y"
  shows "cond_result cs (a # b # es) s acc r u"
proof -
  obtain ys where u: "r = ((acc @ [ClauseExpr x [y]]) @ fst (cond_parts ys), snd (cond_parts ys))"
      "list_all2 (means (store_of u)) es ys" "ready u (CHR '')'' # cs)" "parsed (sum_list (map nodes es)) t u"
      "ps_scope u = ps_scope t"
    using assms(1) by (auto simp: cond_result_def)
  have "r = (acc @ fst (cond_parts (x # y # ys)), snd (cond_parts (x # y # ys)))"
    using u(1) by (simp add: split_def Let_def)
  moreover have "list_all2 (means (store_of u)) (a # b # es) (x # y # ys)"
    using u(2) means_parsed [OF assms(4) u(4)] means_parsed [OF assms(5) u(4)] by simp
  moreover have "parsed (sum_list (map nodes (a # b # es))) s u"
    using parsed_trans [OF assms(2) u(4)] by (simp add: algebra_simps)
  ultimately show ?thesis
    unfolding cond_result_def using u(3,5) assms(3) by metis
qed

lemma cond_second_runs:
  assumes "parses M pe b" "ready s (show_source b @ show_sources es @ CHR '')'' # cs)" "list_all writable es"
    and "room M (nodes b + sum_list (map nodes es)) s"
    and more: "\<And>y t. es \<noteq> [] \<Longrightarrow> at_sources t es (CHR '')'' # cs) \<Longrightarrow> room M (sum_list (map nodes es)) t \<Longrightarrow>
      \<exists>m. n = Suc m \<and> runs (cond_loop m pe (acc @ [ClauseExpr x [y]])) t (cond_result cs es t (acc @ [ClauseExpr x [y]]))"
  shows "runs (cond_second n pe acc x) s (\<lambda>r u. \<exists>y t. cond_result cs es t (acc @ [ClauseExpr x [y]]) r u \<and>
    parsed (nodes b) s t \<and> ps_scope t = ps_scope s \<and> means (store_of t) b y)"
    (is "runs _ _ ?Q")
  unfolding cond_second_def
proof (rule required_bind [OF assms(1,2) delimited_sources assms(4)])
  fix y t assume t: "bare t (show_sources es @ CHR '')'' # cs)" "parsed (nodes b) s t" "ps_scope t = ps_scope s"
    "means (store_of t) b y" "room M (sum_list (map nodes es)) t"
  let ?acc = "acc @ [ClauseExpr x [y]]"
  have "runs (sbind (PeekEq T_RParen) (\<lambda>done. if done then ret (?acc, None)
      else case n of 0 \<Rightarrow> fails OutOfFuel | Suc n \<Rightarrow> cond_loop n pe ?acc)) t ?Q"
  proof (rule runs_sbind [OF PeekEq_close [OF at_sources_bare [OF t(1)] assms(3)]], elim conjE)
    fix d u assume u: "d = (es = [])" "same_rest t u" "at_sources u es (CHR '')'' # cs)"
    have su: "parsed (nodes b) s u" "ps_scope u = ps_scope s" "means (store_of u) b y"
      using parsed_last [OF t(2) u(2)] parsed_rest [OF u(2)] t(3,4) means_parsed by auto
    have ru: "room M (sum_list (map nodes es)) u" by (rule room_rest [OF t(5) u(2)])
    show "runs (if d then ret (?acc, None)
      else case n of 0 \<Rightarrow> fails OutOfFuel | Suc n \<Rightarrow> cond_loop n pe ?acc) u ?Q"
    proof (cases "es = []")
      case True
      then have "cond_result cs es u ?acc (?acc, None) u"
        using u(2,3) parsed_rest [of u u] by (simp add: cond_result_def at_sources_def)
      then show ?thesis using True u(1) su by (auto intro!: runs_ret)
    next
      case False
      then obtain m where "n = Suc m" "runs (cond_loop m pe ?acc) u (cond_result cs es u ?acc)"
        using more [OF False u(3) ru] by blast
      then show ?thesis
        using False u(1) su by (auto elim!: runs_conseq)
    qed
  qed
  then show "runs (sbind (reads (\<lambda>s. new_ClauseExpr x [y])) (\<lambda>c. sbind (PeekEq T_RParen) (\<lambda>done.
      if done then ret (acc @ [c], None) else case n of 0 \<Rightarrow> fails OutOfFuel | Suc n \<Rightarrow> cond_loop n pe (acc @ [c])))) t ?Q"
    by (intro runs_reads_bind [where x = "ClauseExpr x [y]"]) (simp_all add: new_ClauseExpr_def)
qed

lemma cond_loop_runs:
  assumes "\<forall>e\<in>set es. parses M pe e" "list_all writable es" "es \<noteq> []" "at_sources s es (CHR '')'' # cs)"
    and "room M (sum_list (map nodes es)) s" "length es \<le> n + 2"
  shows "runs (cond_loop n pe acc) s (cond_result cs es s acc)"
  using assms
proof (induction "length es" arbitrary: es s n acc rule: less_induct)
  case less
  let ?ending = "CHR '')'' # cs"
  obtain a fs where es: "es = a # fs" using less.prems(3) by (cases es) simp_all
  have rs: "room M (nodes a + sum_list (map nodes fs)) s" using less.prems(5) es by simp
  have a: "parses M pe a" "ready s (show_source a @ show_sources fs @ ?ending)" and w: "list_all writable fs"
    using less.prems(1,2,4) es by (simp_all add: at_sources_def)
  show ?case
  proof (subst cond_loop_second, rule required_bind [OF a delimited_sources rs])
    fix x t
    assume t: "bare t (show_sources fs @ ?ending)" "parsed (nodes a) s t" "ps_scope t = ps_scope s"
      "means (store_of t) a x" "room M (sum_list (map nodes fs)) t"
    show "runs (sbind (PeekEq T_RParen) (\<lambda>done. if done then ret (acc, Some x) else cond_second n pe acc x)) t
      (cond_result cs es s acc)"
    proof (rule runs_sbind [OF PeekEq_close [OF at_sources_bare [OF t(1)] w]], elim conjE)
      fix d u assume u: "d = (fs = [])" "same_rest t u" "at_sources u fs ?ending"
      have su: "parsed (nodes a) s u" "ps_scope u = ps_scope s" "means (store_of u) a x"
        using parsed_last [OF t(2) u(2)] parsed_rest [OF u(2)] t(3,4) means_parsed by auto
      show "runs (if d then ret (acc, Some x) else cond_second n pe acc x) u (cond_result cs es s acc)"
      proof (cases fs)
        case Nil
        then have "cond_result cs es s acc (acc, Some x) u"
          using u(3) su es by (simp add: cond_result_def at_sources_def) (intro exI [of _ "[x]"], simp)
        then show ?thesis using u(1) Nil by (auto intro: runs_ret)
      next
        case (Cons b gs)
        have b: "parses M pe b" "ready u (show_source b @ show_sources gs @ ?ending)" "list_all writable gs"
            "room M (nodes b + sum_list (map nodes gs)) u"
          using less.prems(1) u(3) w es Cons room_rest [OF t(5) u(2)] by (simp_all add: at_sources_def)
        have "runs (cond_second n pe acc x) u (\<lambda>r v. \<exists>y z. cond_result cs gs z (acc @ [ClauseExpr x [y]]) r v \<and>
            parsed (nodes b) u z \<and> ps_scope z = ps_scope u \<and> means (store_of z) b y)"
        proof (rule cond_second_runs [OF b])
          fix y z assume z: "gs \<noteq> []" "at_sources z gs ?ending" "room M (sum_list (map nodes gs)) z"
          obtain m where "n = Suc m" "length gs \<le> m + 2"
            using less.prems(6) es Cons z(1) by (cases n) (auto simp: Suc_le_eq)
          then show "\<exists>m. n = Suc m \<and> runs (cond_loop m pe (acc @ [ClauseExpr x [y]])) z
              (cond_result cs gs z (acc @ [ClauseExpr x [y]]))"
            using less.prems(1) es Cons z b(3) by (intro exI [of _ m] conjI less.hyps) simp_all
        qed
        then have "runs (cond_second n pe acc x) u (cond_result cs es s acc)"
        proof (rule runs_conseq, elim exE conjE)
          fix r v y z
          assume z: "cond_result cs gs z (acc @ [ClauseExpr x [y]]) r v" "parsed (nodes b) u z" "ps_scope z = ps_scope u"
            "means (store_of z) b y"
          show "cond_result cs es s acc r v"
            unfolding es Cons using su z parsed_trans [OF su(1) z(2)] means_parsed [OF su(3) z(2)]
            by (intro cond_result_pair [OF z(1)]) simp_all
        qed
        then show ?thesis using u(1) Cons by simp
      qed
    qed
  qed
qed

section \<open>Scopes\<close>

lemma bare_update [simp]:
  "bare (s\<lparr>ps_rt := r\<rparr>) cs = bare s cs" "bare (s\<lparr>ps_scope := i\<rparr>) cs = bare s cs"
  by (simp_all add: bare_def calm_def)

lemma ready_update [simp]:
  "ready (s\<lparr>ps_rt := r\<rparr>) cs = ready s cs" "ready (s\<lparr>ps_scope := i\<rparr>) cs = ready s cs"
  by (simp_all add: ready_def calm_def)

lemma store_ok_scopes [simp]: "store_ok (st\<lparr>st_scopes := sc\<rparr>) = store_ok st"
  by (simp add: store_ok_def class_named_def)

lemma store_free_scopes [simp]: "store_free (st\<lparr>st_scopes := sc\<rparr>) = store_free st"
  by (simp add: store_free_def)

definition scope_under :: "nat \<Rightarrow> nat \<Rightarrow> parser \<Rightarrow> bool" where
  "scope_under i p s \<longleftrightarrow> (\<exists>sc. sc_map (st_scopes (store_of s)) i = Some sc \<and> sc_parent sc = Some p)"

lemma scope_under_parsed: "scope_under i p s \<Longrightarrow> parsed k s t \<Longrightarrow> scope_under i p t"
  by (force simp: scope_under_def parsed_def grown_def map_le_def dom_def)

lemma PushScope_runs:
  assumes "fresh_scopes (st_scopes (store_of s))" "ready s cs"
  shows "runs parser_PushScope s (\<lambda>i t. ready t cs \<and> (bare s cs \<longrightarrow> bare t cs) \<and> parsed 0 s t \<and> ps_scope t = i \<and>
    scope_under i (ps_scope s) t)"
proof -
  let ?sc = "st_scopes (store_of s)"
  obtain i sc' where n: "LocalScope_New (Some (ps_scope s)) ?sc = (i, sc')" by (cases "LocalScope_New (Some (ps_scope s)) ?sc")
  let ?t = "s\<lparr>ps_rt := (ps_rt s)\<lparr>rt_store := (store_of s)\<lparr>st_scopes := sc'\<rparr>\<rparr>, ps_scope := i\<rparr>"
  have p: "parser_PushScope s = Inr (i, ?t)"
    by (simp add: parser_PushScope_def op_simps on_pscopes_def on_runtime_def on_scopes_def on_store_def n)
  have "sc' = ?sc\<lparr>sc_map := (sc_map ?sc)(i \<mapsto> \<lparr>sc_parent = Some (ps_scope s), sc_locals = []\<rparr>), sc_next := sc_next ?sc + 1\<rparr>"
      "i = sc_next ?sc"
    using n by (auto simp: LocalScope_New_def new_LocalScope_def)
  then have "grown 0 (store_of s) (store_of ?t)" "scope_under i (ps_scope s) ?t"
    using assms(1) by (auto simp: grown_def untouched_def fresh_scopes_def map_le_def scope_under_def)
  then show ?thesis
    using p assms(2) by (simp add: runs_def parsed_def beside_def)
qed

lemma PopScope_runs:
  assumes "scope_under (ps_scope s) p s" "ready s cs"
  shows "runs parser_PopScope s (\<lambda>_ t. ready t cs \<and> parsed 0 s t \<and> ps_scope t = p)"
proof -
  obtain sc where sc: "sc_map (st_scopes (store_of s)) (ps_scope s) = Some sc" "sc_parent sc = Some p"
    using assms(1) by (auto simp: scope_under_def)
  then have "parser_PopScope s = Inr ((), s\<lparr>ps_scope := p\<rparr>)"
    by (simp add: parser_PopScope_def op_simps pscoped_def pstored_def get_scope_def)
  then show ?thesis using assms(2) by (simp add: runs_def parsed_def grown_refl)
qed

text \<open>Expressions in a scope of their own.\<close>

lemma ParseExpressionList_runs:
  assumes "\<forall>e\<in>set es. writable e \<and> parses M pe e" "bare s (show_sources es @ CHR '')'' # cs)"
    and "room M (sum_list (map nodes es)) s" "length es \<le> n"
  shows "runs (ParseExpressionList n pe True) s (\<lambda>ys t. list_all2 (means (store_of t)) es ys \<and>
    ready t (CHR '')'' # cs) \<and> parsed (sum_list (map nodes es)) s t \<and> ps_scope t = ps_scope s)"
proof -
  let ?text = "show_sources es @ CHR '')'' # cs" and ?k = "sum_list (map nodes es)"
  have push: "runs (sthen parser_PushScope (ret ())) s (\<lambda>_ t. bare t ?text \<and> parsed 0 s t \<and>
      scope_under (ps_scope t) (ps_scope s) t)"
    using assms(2,3)
    by (intro runs_sthen [OF PushScope_runs]) (auto simp: room_def intro: bare_ready runs_ret)
  show ?thesis
    unfolding ParseExpressionList_def if_True
  proof (rule runs_sthen [OF push], elim conjE)
    fix t assume t: "bare t ?text" "parsed 0 s t" "scope_under (ps_scope t) (ps_scope s) t"
    show "runs (sbind (expressions_loop n pe []) (\<lambda>es. sthen parser_PopScope (ret es))) t
      (\<lambda>ys t. list_all2 (means (store_of t)) es ys \<and> ready t (CHR '')'' # cs) \<and> parsed ?k s t \<and>
        ps_scope t = ps_scope s)"
    proof (rule runs_sbind [OF listed.loop_runs [OF assms(1) at_sources_bare [OF t(1)] _ assms(4)]])
      show "room M ?k t" using room_parsed [of M 0] assms(3) t(2) by simp
      fix r u
      assume "\<exists>ys. r = foldl (\<lambda>acc y. acc @ [y]) [] ys \<and> list_all2 (means (store_of u)) es ys \<and>
        ready u (CHR '')'' # cs) \<and> parsed ?k t u \<and> ps_scope u = ps_scope t"
      then have u: "list_all2 (means (store_of u)) es r" "ready u (CHR '')'' # cs)" "parsed ?k t u"
          "ps_scope u = ps_scope t"
        by (auto simp: foldl_snoc)
      have "scope_under (ps_scope u) (ps_scope s) u" using t(3) u(3,4) scope_under_parsed by simp
      then show "runs (sthen parser_PopScope (ret r)) u (\<lambda>ys t. list_all2 (means (store_of t)) es ys \<and>
          ready t (CHR '')'' # cs) \<and> parsed ?k s t \<and> ps_scope t = ps_scope s)"
        using u(1,2) parsed_trans [OF t(2) u(3)] parsed_trans [of ?k s u 0] means_all_parsed
        by (intro runs_sthen [OF PopScope_runs] runs_ret) auto
    qed
  qed
qed

section \<open>Forms\<close>

definition stands_for :: "nat \<Rightarrow> parser \<Rightarrow> source \<Rightarrow> expr option \<Rightarrow> parser \<Rightarrow> bool" where
  "stands_for k s e r t \<longleftrightarrow>
    (\<exists>y. r = Some y \<and> parsed k s t \<and> ps_scope t = ps_scope s \<and> means (store_of t) e y)"

lemma stands_forI:
  "parsed k s t \<Longrightarrow> ps_scope t = ps_scope s \<Longrightarrow> means (store_of t) e y \<Longrightarrow> stands_for k s e (Some y) t"
  by (simp add: stands_for_def)

lemma stands_for_rest: "stands_for k s e r t \<Longrightarrow> same_rest t u \<Longrightarrow> stands_for k s e r u"
  using parsed_last parsed_rest means_parsed by (fastforce simp: stands_for_def)

lemma stands_for_first: "same_rest s t \<Longrightarrow> stands_for k t e r u \<Longrightarrow> stands_for k s e r u"
  using parsed_first parsed_rest by (fastforce simp: stands_for_def)

lemma form_runs:
  assumes "ready s (CHR ''('' # head)" "lexes head k x ds" "k \<noteq> T_Invalid"
    and form: "\<And>t tok. ready t head \<Longrightarrow> same_rest s t \<Longrightarrow> tk_kind tok = k \<Longrightarrow>
      runs (expression_form n E pe tok) t (\<lambda>r u. stands_for c t e r u \<and> ready u (CHR '')'' # cs))"
  shows "runs (ParseExpression_body n E pe) s (\<lambda>r u. stands_for c s e r u \<and> bare u cs)"
  unfolding ParseExpression_body_def
proof (rule runs_sbind [OF PeekToken_runs [OF assms(1) lexes_paren(1)]], simp, elim conjE)
  fix tok :: token and t assume t: "tk_kind tok = T_LParen" "ready t (CHR ''('' # head)" "same_rest s t"
  have "runs (sthen (ExpectNext T_LParen) (sbind PeekToken (\<lambda>next. sbind (expression_form n E pe next)
      (\<lambda>e. sthen (ExpectNext T_RParen) (ret e))))) t (\<lambda>r u. stands_for c s e r u \<and> bare u cs)"
  proof (rule runs_sthen [OF ExpectNext_runs [OF t(2) lexes_paren(1)]], elim conjE)
    fix w u assume u: "bare u head" "same_rest t u"
    show "runs (sbind PeekToken (\<lambda>next. sbind (expression_form n E pe next)
      (\<lambda>e. sthen (ExpectNext T_RParen) (ret e)))) u (\<lambda>r u. stands_for c s e r u \<and> bare u cs)"
    proof (rule runs_sbind [OF PeekToken_runs [OF bare_ready [OF u(1)] assms(2,3)]], elim conjE)
      fix tok' :: token and v assume v: "tk_kind tok' = k" "ready v head" "same_rest u v"
      have sv: "same_rest s v" using t(3) u(2) v(3) same_rest_trans by blast
      show "runs (sbind (expression_form n E pe tok') (\<lambda>e. sthen (ExpectNext T_RParen) (ret e))) v
        (\<lambda>r u. stands_for c s e r u \<and> bare u cs)"
        using stands_for_first [OF sv] stands_for_rest
        by (rule_tac runs_sbind [OF form [OF v(2) sv v(1)]])
          (auto intro!: runs_sthen [OF ExpectNext_runs [OF _ lexes_paren(2)]] runs_ret)
    qed
  qed
  then show "runs (if tk_IsLiteral tok \<or> tk_kind tok \<in> {T_Identifier, T_Dispatch, T_Fn} then ParseLiteralExpr n E pe
      else if tk_kind tok = T_Quote then ParseQuotedExpr E
      else sthen (ExpectNext T_LParen) (sbind PeekToken (\<lambda>next. sbind (expression_form n E pe next)
        (\<lambda>e. sthen (ExpectNext T_RParen) (ret e))))) t (\<lambda>r u. stands_for c s e r u \<and> bare u cs)"
    using t(1) by (simp add: tk_IsLiteral_def)
qed

subsection \<open>Their heads\<close>

lemma lexes_unary:
  assumes "op \<notin> {UNonnull, UNull}"
  shows "\<exists>x. lexes (unary_text op @ CHR '' '' # cs) (T_UnaryOp op) x (CHR '' '' # cs)"
proof -
  have "lexes (w @ CHR '' '' # cs) (word_kind w) w (CHR '' '' # cs)" if "w \<in> {''car'', ''cdr''}" for w
    using that by (intro lexes_word) (auto simp: delimited_def isalpha_def code_of_char_def)
  from this [of "''car''"] this [of "''cdr''"]
  have w: "lexes (''car'' @ CHR '' '' # cs) (T_UnaryOp UCar) ''car'' (CHR '' '' # cs)"
      "lexes (''cdr'' @ CHR '' '' # cs) (T_UnaryOp UCdr) ''cdr'' (CHR '' '' # cs)"
    by (simp_all add: word_kind_def keyword_table_def)
  have "lexes (CHR ''!'' # CHR '' '' # cs) (T_UnaryOp UNot) [] (CHR '' '' # cs)"
    by (rule lexes_char) (simp add: operator_chars_def)
  then show ?thesis
    using assms w by (cases op) auto
qed

lemma lexes_binary:
  assumes "op \<noteq> BInstanceOf"
  shows "\<exists>x. lexes (binary_text op @ CHR '' '' # cs) (T_BinaryOp op) x (CHR '' '' # cs)"
proof -
  have "lexes (''cons'' @ CHR '' '' # cs) (word_kind ''cons'') ''cons'' (CHR '' '' # cs)"
    by (intro lexes_word) (auto simp: delimited_def isalpha_def code_of_char_def)
  then have w: "lexes (''cons'' @ CHR '' '' # cs) (T_BinaryOp BCons) ''cons'' (CHR '' '' # cs)"
    by (simp add: word_kind_def keyword_table_def)
  have c: "map_of operator_chars (hd (binary_text op)) = Some (T_BinaryOp op) \<Longrightarrow> length (binary_text op) = 1 \<Longrightarrow>
      lexes (binary_text op @ CHR '' '' # cs) (T_BinaryOp op) [] (CHR '' '' # cs)"
    using lexes_char [of "hd (binary_text op)"] by (cases "binary_text op") auto
  have l: "lexes (ds @ CHR '' '' # cs) (T_BinaryOp op) [] (CHR '' '' # cs)"
    if "(ds, op) \<in> {(''<'', BLessThan), (''<='', BLessThanEqual), (''>'', BGreaterThan), (''>='', BGreaterThanEqual)}"
    for ds using that by (intro lexesI yields_comparison)
  show ?thesis
    using assms c w l by (cases op) (auto simp: operator_chars_def)
qed

lemma lexes_form_word:
  assumes "(w, k) \<in> {(''begin'', T_Node N_BeginExpr), (''when'', T_Node N_WhenExpr), (''while'', T_Node N_WhileExpr),
      (''cond'', T_Cond), (''throw'', T_Node N_ThrowExpr)}" "delimited cs"
  shows "lexes (w @ cs) k w cs"
proof -
  let ?ws = "[(''begin'', T_Node N_BeginExpr), (''when'', T_Node N_WhenExpr), (''while'', T_Node N_WhileExpr),
      (''cond'', T_Cond), (''throw'', T_Node N_ThrowExpr)]"
  let ?p = "\<lambda>(w, k). w \<noteq> [] \<and> length w \<le> 1024 \<and> list_all isalpha w \<and> word_kind w = k"
  have "list_all ?p ?ws"
    by (simp add: isalpha_def code_of_char_def word_kind_def keyword_table_def)
  then have "\<forall>x\<in>set ?ws. ?p x" unfolding list_all_iff .
  moreover have "(w, k) \<in> set ?ws" using assms(1) by simp
  ultimately have "?p (w, k)" by (rule bspec)
  then have w: "w \<noteq> []" "length w \<le> 1024" "list_all isalpha w" "word_kind w = k" by simp_all
  show ?thesis using lexes_word [OF w(1,3) assms(2) w(2)] w(4) by simp
qed

section \<open>The forms are read back\<close>

lemma parsesI:
  assumes "\<And>s cs. ready s (show_source e @ cs) \<Longrightarrow> delimited cs \<Longrightarrow> room M (nodes e) s \<Longrightarrow>
      runs pe s (\<lambda>r t. stands_for (nodes e) s e r t \<and> bare t cs)"
  shows "parses M pe e"
  unfolding parses_def
proof (intro allI impI)
  fix s cs assume "ready s (show_source e @ cs)" "delimited cs" "room M (nodes e) s"
  then show "runs pe s (\<lambda>r t. \<exists>y. r = Some y \<and> bare t cs \<and> parsed (nodes e) s t \<and> ps_scope t = ps_scope s \<and>
      means (store_of t) e y)"
    by (rule runs_conseq [OF assms]) (auto simp: stands_for_def)
qed

lemma runs_on_pstore:
  "m (store_of s) = Inr (v, st) \<Longrightarrow> Q v (s\<lparr>ps_rt := (ps_rt s)\<lparr>rt_store := st\<rparr>\<rparr>) \<Longrightarrow> runs (on_pstore m) s Q"
  by (simp add: runs_def on_pstore_def on_runtime_def on_store_def op_simps)

subsection \<open>Literals\<close>

definition long_made :: "uword \<Rightarrow> string \<Rightarrow> parser \<Rightarrow> uword \<Rightarrow> parser \<Rightarrow> bool" where
  "long_made w cs s v t \<longleftrightarrow> v \<noteq> 0 \<and> bare t cs \<and> parsed 1 s t \<and> ps_scope t = ps_scope s \<and>
    st_objs (store_of t) v = Some (OLong w)"

lemma long_made_first: "same_rest s t \<Longrightarrow> long_made w cs t v u \<Longrightarrow> long_made w cs s v u"
  using parsed_first parsed_rest by (fastforce simp: long_made_def)

lemma Long_New_runs:
  assumes "room M 1 s" "bare s cs"
  shows "runs (on_pstore (Long_New M w)) s (long_made w cs s)"
proof -
  let ?st = "store_of s"
  have r: "store_ok ?st" "sane_machine M" "max_cost < store_free ?st" using assms(1) by (simp_all add: room_def)
  obtain a h where a: "new_obj M (OLong w) ?st = Inr (a, ?st\<lparr>st_heap := h, st_objs := (st_objs ?st)(a \<mapsto> OLong w)\<rparr>)"
      "store_ok (?st\<lparr>st_heap := h, st_objs := (st_objs ?st)(a \<mapsto> OLong w)\<rparr>)" "a \<noteq> 0" "st_objs ?st a = None"
      "store_free ?st \<le> store_free (?st\<lparr>st_heap := h\<rparr>) + max_cost"
    using new_obj_step [OF r(1,2) _ r(3), of "OLong w"] by auto
  let ?st' = "?st\<lparr>st_heap := h, st_objs := (st_objs ?st)(a \<mapsto> OLong w)\<rparr>"
  have g: "grown 1 ?st ?st'"
    using a by (auto simp: grown_def untouched_def map_le_def)
  have "st_objs ?st' a = Some (OLong w)" by simp
  then show ?thesis
    using a(1,3) assms(2) g
    by (intro runs_on_pstore [where v = a and st = ?st']) (simp_all add: Long_New_def parsed_def beside_def long_made_def)
qed

lemma ParseLiteralNumber_runs:
  assumes "ready s (show_nat n @ cs)" "delimited cs" "n < 2 ^ 63" "room (pe_machine E) 1 s"
  shows "runs (ParseLiteralNumber E) s (long_made (of_nat n) cs s)"
  unfolding ParseLiteralNumber_def
proof (rule runs_sbind [OF NextToken_runs [OF assms(1) lexes_show_nat [OF assms(3,2)]]], elim conjE)
  fix tok :: token and u
  assume u: "tk_kind tok = T_LiteralLong" "tk_text tok = show_nat n" "bare u cs" "same_rest s u"
  have r: "room (pe_machine E) 1 u" by (rule room_rest [OF assms(4) u(4)])
  show "runs (case tk_kind tok of
      T_LiteralLong \<Rightarrow> sbind (reads (\<lambda>s. atol (tk_text tok))) (\<lambda>v. on_pstore (Long_New (pe_machine E) v))
    | T_LiteralDouble \<Rightarrow> on_pstore (new_obj (pe_machine E) (ODouble (pe_to_double E (tk_text tok))))
    | _ \<Rightarrow> fails LogFatal) u (long_made (of_nat n) cs s)"
    using u(1,2) long_made_first [OF u(4)]
    by (auto simp: atol_show_nat [OF assms(3)] intro!: runs_reads_bind runs_conseq [OF Long_New_runs [OF r u(3)]])
qed

lemma ParseLiteralValue_number:
  assumes "ready s (show_nat n @ cs)" "delimited cs" "n < 2 ^ 63" "room (pe_machine E) 1 s"
  shows "runs (ParseLiteralValue E) s (long_made (of_nat n) cs s)"
  unfolding ParseLiteralValue_def
proof (rule runs_sbind [OF PeekKind_runs [OF assms(1) lexes_show_nat [OF assms(3,2)]]], simp, elim conjE)
  fix k t assume t: "k = T_LiteralLong" "ready t (show_nat n @ cs)" "same_rest s t"
  have "runs (ParseLiteralNumber E) t (long_made (of_nat n) cs s)"
    by (rule runs_conseq [OF ParseLiteralNumber_runs [OF t(2) assms(2,3) room_rest [OF assms(4) t(3)]]])
      (rule long_made_first [OF t(3)])
  then show "runs (if k = T_LiteralFalse \<or> k = T_LiteralTrue then ParseLiteralBool
      else if k = T_LiteralLong \<or> k = T_LiteralDouble then ParseLiteralNumber E
      else if k = T_LiteralString then sbind NextToken (\<lambda>next. on_pstore (String_New (pe_machine E) (tk_text next)))
      else if k = T_Identifier then sbind NextToken (\<lambda>next. on_pstore (Symbol_New_text (pe_machine E) (tk_text next)))
      else unexpected_next) t (long_made (of_nat n) cs s)"
    by (simp add: t(1))
qed

lemma number_runs:
  assumes "ready s (show_nat n @ cs)" "delimited cs" "n < 2 ^ 63" "room (pe_machine E) 1 s"
  shows "runs (ParseLiteralExpr k E pe) s (\<lambda>r t. stands_for 1 s (SNum n) r t \<and> bare t cs)"
  unfolding ParseLiteralExpr_def
proof (rule runs_sbind [OF PeekKind_runs [OF assms(1) lexes_show_nat [OF assms(3,2)]]], simp, elim conjE)
  fix kind t assume t: "kind = T_LiteralLong" "ready t (show_nat n @ cs)" "same_rest s t"
  have "runs (sbind (ParseLiteralValue E) (\<lambda>v. sbind (reads (\<lambda>s. new_LiteralExpr v)) (\<lambda>e. ret (Some e)))) t
      (\<lambda>r t. stands_for 1 s (SNum n) r t \<and> bare t cs)"
  proof (rule runs_sbind [OF ParseLiteralValue_number [OF t(2) assms(2,3) room_rest [OF assms(4) t(3)]]])
    fix v u assume u: "long_made (of_nat n) cs t v u"
    have "long_made (of_nat n) cs s v u" using long_made_first [OF t(3) u] .
    then show "runs (sbind (reads (\<lambda>s. new_LiteralExpr v)) (\<lambda>e. ret (Some e))) u
        (\<lambda>r t. stands_for 1 s (SNum n) r t \<and> bare t cs)"
      by (intro runs_reads_bind runs_ret conjI stands_forI)
        (auto simp: new_LiteralExpr_def long_made_def intro: means.intros(1))
  qed
  then show "runs (if kind = T_Fn \<or> kind = T_Dispatch then ParseLiteralLambda k E pe kind
      else if kind = T_LBrace then ParseMap k E pe
      else sbind (ParseLiteralValue E) (\<lambda>v. sbind (reads (\<lambda>s. new_LiteralExpr v)) (\<lambda>e. ret (Some e)))) t
      (\<lambda>r t. stands_for 1 s (SNum n) r t \<and> bare t cs)"
    by (simp add: t(1))
qed

lemma bool_runs:
  assumes "ready s (show_bool b @ cs)" "room M 1 s"
  shows "runs (ParseLiteralExpr k E pe) s (\<lambda>r t. stands_for 1 s (SBool b) r t \<and> bare t cs)"
proof -
  let ?k = "if b then T_LiteralTrue else T_LiteralFalse"
    and ?v = "\<lambda>s. if b then st_true (store_of s) else st_false (store_of s)"
  have lx: "lexes (show_bool b @ cs) ?k [] cs" using lexes_bool by (simp add: show_bool_def)
  have k: "?k \<noteq> T_Invalid" by simp
  have bool: "runs ParseLiteralBool t (\<lambda>v u. v = ?v s \<and> v \<noteq> 0 \<and> bare u cs \<and> same_rest s u)"
    if t: "ready t (show_bool b @ cs)" "same_rest s t" for t
    unfolding ParseLiteralBool_def
  proof (rule runs_sbind [OF NextToken_runs [OF t(1) lx]], elim conjE)
    fix tok :: token and u assume u: "tk_kind tok = ?k" "bare u cs" "same_rest t u"
    have su: "same_rest s u" by (rule same_rest_trans [OF t(2) u(3)])
    then have "ps_rt u = ps_rt s" "?v u \<noteq> 0" using assms(2) by (auto simp: same_rest_def room_def)
    moreover have "(ps_rt s)\<lparr>rt_store := store_of s\<rparr> = ps_rt s" by simp
    moreover have "same_rest s (u\<lparr>ps_rt := ps_rt s\<rparr>)" using su by (simp add: same_rest_def)
    ultimately show "runs (case tk_kind tok of T_LiteralTrue \<Rightarrow> on_pstore Bool_True | T_LiteralFalse \<Rightarrow> on_pstore Bool_False
        | _ \<Rightarrow> fails LogFatal) u (\<lambda>v u. v = ?v s \<and> v \<noteq> 0 \<and> bare u cs \<and> same_rest s u)"
      using u(1,2)
      by (cases b) (auto simp: runs_def on_pstore_def on_runtime_def on_store_def op_simps Bool_True_def Bool_False_def)
  qed
  have val: "runs (ParseLiteralValue E) t (\<lambda>v u. v = ?v s \<and> v \<noteq> 0 \<and> bare u cs \<and> same_rest s u)"
    if t: "ready t (show_bool b @ cs)" "same_rest s t" for t
    unfolding ParseLiteralValue_def
  proof (rule runs_sbind [OF PeekKind_runs [OF t(1) lx k]], elim conjE)
    fix kind u assume u: "kind = ?k" "ready u (show_bool b @ cs)" "same_rest t u"
    show "runs (if kind = T_LiteralFalse \<or> kind = T_LiteralTrue then ParseLiteralBool
      else if kind = T_LiteralLong \<or> kind = T_LiteralDouble then ParseLiteralNumber E
      else if kind = T_LiteralString then sbind NextToken (\<lambda>next. on_pstore (String_New (pe_machine E) (tk_text next)))
      else if kind = T_Identifier then sbind NextToken (\<lambda>next. on_pstore (Symbol_New_text (pe_machine E) (tk_text next)))
      else unexpected_next) u (\<lambda>v u. v = ?v s \<and> v \<noteq> 0 \<and> bare u cs \<and> same_rest s u)"
      using bool [OF u(2) same_rest_trans [OF t(2) u(3)]] u(1) by simp
  qed
  show ?thesis
    unfolding ParseLiteralExpr_def
  proof (rule runs_sbind [OF PeekKind_runs [OF assms(1) lx k]], elim conjE)
    fix kind t assume t: "kind = ?k" "ready t (show_bool b @ cs)" "same_rest s t"
    have "runs (sbind (ParseLiteralValue E) (\<lambda>v. sbind (reads (\<lambda>s. new_LiteralExpr v)) (\<lambda>e. ret (Some e)))) t
        (\<lambda>r t. stands_for 1 s (SBool b) r t \<and> bare t cs)"
    proof (rule runs_sbind [OF val [OF t(2,3)]], elim conjE)
      fix v u assume u: "v = ?v s" "v \<noteq> 0" "bare u cs" "same_rest s u"
      have "store_of u = store_of s" using u(4) by (simp add: same_rest_def)
      then have "means (store_of u) (SBool b) (LiteralExpr v)" using u(1) by (intro means.intros) simp
      moreover have "parsed 1 s u" using parsed_rest [OF u(4)] grown_weaken [of 0 _ _ 1] by (simp add: parsed_def)
      ultimately show "runs (sbind (reads (\<lambda>s. new_LiteralExpr v)) (\<lambda>e. ret (Some e))) u
          (\<lambda>r t. stands_for 1 s (SBool b) r t \<and> bare t cs)"
        using u parsed_rest [OF u(4)]
        by (intro runs_reads_bind [where x = "LiteralExpr v"] runs_ret conjI stands_forI) (auto simp: new_LiteralExpr_def)
    qed
    then show "runs (if kind = T_Fn \<or> kind = T_Dispatch then ParseLiteralLambda k E pe kind
      else if kind = T_LBrace then ParseMap k E pe
      else sbind (ParseLiteralValue E) (\<lambda>v. sbind (reads (\<lambda>s. new_LiteralExpr v)) (\<lambda>e. ret (Some e)))) t
      (\<lambda>r t. stands_for 1 s (SBool b) r t \<and> bare t cs)"
      by (cases b) (simp_all add: t(1))
  qed
qed

lemma parsed_weaken: "parsed j s t \<Longrightarrow> j \<le> k \<Longrightarrow> parsed k s t"
  using grown_weaken by (auto simp: parsed_def)

text \<open>A literal is parsed as such.\<close>

lemma literal_body_runs:
  assumes "ready s cs" "lexes cs k x ds" "k \<in> {T_LiteralLong, T_LiteralTrue, T_LiteralFalse}"
    and "\<And>t. ready t cs \<Longrightarrow> same_rest s t \<Longrightarrow> runs (ParseLiteralExpr n E pe) t (\<lambda>r u. stands_for c t e r u \<and> bare u es)"
  shows "runs (ParseExpression_body n E pe) s (\<lambda>r u. stands_for c s e r u \<and> bare u es)"
  unfolding ParseExpression_body_def
proof (rule runs_sbind [OF PeekToken_runs [OF assms(1,2)]])
  show "k \<noteq> T_Invalid" using assms(3) by auto
  fix tok :: token and t assume t: "tk_kind tok = k \<and> tk_text tok = x \<and> ready t cs \<and> same_rest s t"
  then have "runs (ParseLiteralExpr n E pe) t (\<lambda>r u. stands_for c s e r u \<and> bare u es)"
    using stands_for_first by (intro runs_conseq [OF assms(4)]) auto
  then show "runs (if tk_IsLiteral tok \<or> tk_kind tok \<in> {T_Identifier, T_Dispatch, T_Fn} then ParseLiteralExpr n E pe
      else if tk_kind tok = T_Quote then ParseQuotedExpr E
      else sthen (ExpectNext T_LParen) (sbind PeekToken (\<lambda>next. sbind (expression_form n E pe next)
        (\<lambda>e. sthen (ExpectNext T_RParen) (ret e))))) t (\<lambda>r u. stands_for c s e r u \<and> bare u es)"
    using t assms(3) by (auto simp: tk_IsLiteral_def)
qed

subsection \<open>Compound forms\<close>

text \<open>The expressions of a form, read from its head on.\<close>

lemma ParseUnaryExpr_runs:
  assumes "parses M pe a" "ready s (unary_text op @ CHR '' '' # show_source a @ CHR '')'' # cs)" "op \<notin> {UNonnull, UNull}"
    and "room M (nodes a) s"
  shows "runs (ParseUnaryExpr pe) s (\<lambda>r u. stands_for (nodes (SUnary op a)) s (SUnary op a) r u \<and> ready u (CHR '')'' # cs))"
proof -
  obtain x where lx: "lexes (unary_text op @ CHR '' '' # show_source a @ CHR '')'' # cs) (T_UnaryOp op) x
      (CHR '' '' # show_source a @ CHR '')'' # cs)"
    using lexes_unary [OF assms(3)] by blast
  show ?thesis
    unfolding ParseUnaryExpr_def
  proof (rule runs_sbind [OF NextToken_runs [OF assms(2) lx]], elim conjE)
    fix tok :: token and t
    assume t: "tk_kind tok = T_UnaryOp op" "bare t (CHR '' '' # show_source a @ CHR '')'' # cs)" "same_rest s t"
    have "delimited (CHR '')'' # cs)" by (simp add: delimited_def)
    note el = next_element_runs [OF assms(1) t(2) this room_rest [OF assms(4) t(3)]]
    have "ToUnaryOp tok = Inr op" by (simp add: ToUnaryOp_def t(1))
    then show "runs (sbind (reads (\<lambda>s. ToUnaryOp tok)) (\<lambda>op. sbind (required pe) (\<lambda>value. ret (Some (UnaryExpr op value)))))
        t (\<lambda>r u. stands_for (nodes (SUnary op a)) s (SUnary op a) r u \<and> ready u (CHR '')'' # cs))"
    proof (rule runs_reads_bind, intro runs_sbind [OF el] runs_ret, elim conjE, intro conjI)
      fix y u assume u: "bare u (CHR '')'' # cs)" "parsed (nodes a) t u" "ps_scope u = ps_scope t" "means (store_of u) a y"
      have "parsed (nodes a + 1) s u" using parsed_first [OF t(3) u(2)] by (rule parsed_weaken) simp
      then show "stands_for (nodes (SUnary op a)) s (SUnary op a) (Some (UnaryExpr op y)) u"
        using u(3,4) parsed_rest [OF t(3)] by (intro stands_forI means.intros) simp_all
      show "ready u (CHR '')'' # cs)" by (rule bare_ready [OF u(1)])
    qed
  qed
qed

lemma ParseBinaryExpr_runs:
  assumes "parses M pe a" "parses M pe b" "\<forall>e\<in>set es. writable e \<and> parses M pe e" "op \<noteq> BInstanceOf"
    and "ready s (binary_text op @ CHR '' '' # show_source a @ CHR '' '' # show_source b @ show_sources es @ CHR '')'' # cs)"
    and "room M (nodes a + (nodes b + sum_list (map nodes es))) s" "length es \<le> n"
  shows "runs (ParseBinaryExpr n pe) s (\<lambda>r u. stands_for (nodes (SBinary op a b es)) s (SBinary op a b es) r u \<and>
    ready u (CHR '')'' # cs))"
    (is "runs _ _ ?Q")
proof -
  let ?k = "sum_list (map nodes es)" and ?rest = "show_sources es @ CHR '')'' # cs"
  obtain x where lx: "lexes (binary_text op @ CHR '' '' # show_source a @ CHR '' '' # show_source b @ ?rest)
      (T_BinaryOp op) x (CHR '' '' # show_source a @ CHR '' '' # show_source b @ ?rest)"
    using lexes_binary [OF assms(4)] by blast
  show ?thesis
    unfolding ParseBinaryExpr_def
  proof (rule runs_sbind [OF NextToken_runs [OF assms(5) lx]], elim conjE)
    fix tok :: token and t
    assume t: "tk_kind tok = T_BinaryOp op" "bare t (CHR '' '' # show_source a @ CHR '' '' # show_source b @ ?rest)"
      "same_rest s t"
    have "runs (sbind pe (\<lambda>left. sbind pe (\<lambda>right.
        sbind (binary_loop n pe op left right) (\<lambda>e. ret (Some e))))) t ?Q"
    proof (rule parses_bind [OF assms(1) bare_ready [OF bare_blank [OF t(2)]] _ room_rest [OF assms(6) t(3)]])
      fix y u assume u: "bare u (CHR '' '' # show_source b @ ?rest)" "parsed (nodes a) t u" "ps_scope u = ps_scope t"
        "means (store_of u) a y" "room M (nodes b + ?k) u"
      show "runs (sbind pe (\<lambda>right. sbind (binary_loop n pe op (Some y) right) (\<lambda>e. ret (Some e)))) u ?Q"
      proof (rule parses_bind [OF assms(2) bare_ready [OF bare_blank [OF u(1)]] delimited_sources u(5)])
        fix z v assume v: "bare v ?rest" "parsed (nodes b) u v" "ps_scope v = ps_scope u" "means (store_of v) b z"
          "room M ?k v"
        have tv: "parsed (nodes a + nodes b) s v" "ps_scope v = ps_scope s" "means (store_of v) a y"
          using parsed_first [OF t(3) parsed_trans [OF u(2) v(2)]] parsed_rest [OF t(3)] u(3) v(3)
            means_parsed [OF u(4) v(2)] by simp_all
        have "runs (binary_loop n pe op (Some y) (Some z)) v (\<lambda>r w. \<exists>ys.
            r = foldl (BinaryOpExpr op) (BinaryOpExpr op y z) ys \<and> list_all2 (means (store_of w)) es ys \<and>
            ready w (CHR '')'' # cs) \<and> parsed ?k v w \<and> ps_scope w = ps_scope v)"
          using operands.loop_runs [OF assms(3) at_sources_bare [OF v(1)] v(5) assms(7), of op "(y, z)"] by (simp add: foldl_operands)
        then show "runs (sbind (binary_loop n pe op (Some y) (Some z)) (\<lambda>e. ret (Some e))) v ?Q"
        proof (rule runs_sbind, elim exE conjE, intro runs_ret conjI)
          fix r w ys assume w: "r = foldl (BinaryOpExpr op) (BinaryOpExpr op y z) ys"
            "list_all2 (means (store_of w)) es ys" "ready w (CHR '')'' # cs)" "parsed ?k v w" "ps_scope w = ps_scope v"
          have "parsed (nodes (SBinary op a b es)) s w"
            using parsed_trans [OF tv(1) w(4)] by (rule parsed_weaken) simp
          moreover have "means (store_of w) (SBinary op a b es) r"
            unfolding w(1) using means_parsed [OF tv(3) w(4)] means_parsed [OF v(4) w(4)] w(2) by (rule means.intros)
          ultimately show "stands_for (nodes (SBinary op a b es)) s (SBinary op a b es) (Some r) w"
            using w(5) tv(2) by (intro stands_forI) simp_all
          show "ready w (CHR '')'' # cs)" by (rule w(3))
        qed
      qed
    qed (simp add: delimited_def)
    then show "runs (sbind (reads (\<lambda>s. ToBinaryOp tok)) (\<lambda>op. sbind pe (\<lambda>left. sbind pe (\<lambda>right.
        sbind (binary_loop n pe op left right) (\<lambda>e. ret (Some e)))))) t ?Q"
      by (intro runs_reads_bind [where x = op]) (simp_all add: ToBinaryOp_def t(1))
  qed
qed

lemma ParseListExpr_runs:
  assumes "parses (pe_machine E) pe (SNum m)" "\<forall>e\<in>set es. writable e \<and> parses (pe_machine E) pe e" "list_all writable es"
    and "ready s (show_nat m @ show_sources es @ CHR '')'' # cs)" "room (pe_machine E) (1 + sum_list (map nodes es)) s"
    and "length es \<le> n"
  shows "runs (ParseListExpr n E pe) s (\<lambda>r u. stands_for (nodes (SList m es)) s (SList m es) r u \<and> ready u (CHR '')'' # cs))"
    (is "runs _ _ ?Q")
proof -
  let ?k = "sum_list (map nodes es)" and ?ending = "CHR '')'' # cs"
  have s: "ready s (show_source (SNum m) @ show_sources es @ ?ending)" "room (pe_machine E) (nodes (SNum m) + ?k) s"
    using assms(4,5) by simp_all
  show ?thesis
    unfolding ParseListExpr_def
  proof (rule parses_bind [OF assms(1) s(1) delimited_sources s(2)],
      rule runs_sbind [OF PeekEq_no_range [OF at_sources_bare assms(3)]], assumption, elim conjE)
    fix y t d u
    assume t: "parsed (nodes (SNum m)) s t" "ps_scope t = ps_scope s" "means (store_of t) (SNum m) y"
        "room (pe_machine E) ?k t"
      and u: "\<not> d" "same_rest t u" "at_sources u es ?ending"
    have su: "parsed 1 s u" "ps_scope u = ps_scope s" "means (store_of u) (SNum m) y" "room (pe_machine E) ?k u"
      using parsed_last [OF t(1) u(2)] parsed_rest [OF u(2)] t(2,3) means_parsed room_rest [OF t(4) u(2)] by auto
    have "runs (sbind (args_loop n pe [y]) (\<lambda>es. ret (Some (ListExpr es)))) u ?Q"
    proof (rule runs_sbind [OF args.loop_runs [OF assms(2) u(3) su(4) assms(6)]], elim exE conjE, intro runs_ret conjI)
      fix r v ys
      assume v: "r = foldl (\<lambda>acc y. acc @ [y]) [y] ys" "list_all2 (means (store_of v)) es ys" "ready v ?ending"
        "parsed ?k u v" "ps_scope v = ps_scope u"
      have "means (store_of v) (SList m es) (ListExpr r)"
        unfolding v(1) foldl_snoc append.simps using means_parsed [OF su(3) v(4)] v(2) by (rule means.intros)
      moreover have "parsed (nodes (SList m es)) s v"
        using parsed_trans [OF su(1) v(4)] by (rule parsed_weaken) simp
      ultimately show "stands_for (nodes (SList m es)) s (SList m es) (Some (ListExpr r)) v"
        using v(5) su(2) by (intro stands_forI) simp_all
      show "ready v ?ending" by (rule v(3))
    qed
    then show "runs (if d then sthen NextToken (sbind (range_bound (Some y)) (\<lambda>from. sbind pe (\<lambda>last_expr.
          sbind (range_bound last_expr) (\<lambda>till. sbind (on_pstore (ListFromRange (pe_machine E) from till)) (\<lambda>v.
          sbind (literal_of v) (\<lambda>e. ret (Some e)))))))
        else case Some y of None \<Rightarrow> fails AssertFailed
          | Some e \<Rightarrow> sbind (args_loop n pe [e]) (\<lambda>es. ret (Some (ListExpr es)))) u ?Q"
      using u(1) by simp
  qed
qed

lemma ParseBeginExpr_runs:
  assumes "\<forall>e\<in>set es. writable e \<and> parses M pe e" "ready s (''begin'' @ show_sources es @ CHR '')'' # cs)"
    and "room M (sum_list (map nodes es)) s" "length es \<le> n"
  shows "runs (ParseBeginExpr n pe) s (\<lambda>r u. stands_for (nodes (SBegin es)) s (SBegin es) r u \<and> ready u (CHR '')'' # cs))"
    (is "runs _ _ ?Q")
  unfolding ParseBeginExpr_def
proof (rule runs_sthen [OF ExpectNext_runs [OF assms(2) lexes_form_word]], simp, rule delimited_sources, elim conjE)
  let ?k = "sum_list (map nodes es)" and ?ending = "CHR '')'' # cs"
  fix t assume t: "bare t (show_sources es @ ?ending)" "same_rest s t"
  have f: "fresh_scopes (st_scopes (store_of t))" using room_rest [OF assms(3) t(2)] by (simp add: room_def)
  show "runs (sthen parser_PushScope (sbind (begin_loop n pe []) (\<lambda>es. sbind (PeekEq T_RParen) (\<lambda>b.
      sthen (sassert b) (sthen parser_PopScope (ret (Some (BeginExpr es)))))))) t ?Q"
  proof (rule runs_sthen [OF PushScope_runs [OF f bare_ready [OF t(1)]]], elim conjE)
    fix i u assume u: "bare t (show_sources es @ ?ending) \<longrightarrow> bare u (show_sources es @ ?ending)" "parsed 0 t u" "ps_scope u = i"
      "scope_under i (ps_scope t) u"
    have b: "at_sources u es ?ending" using t(1) u(1) at_sources_bare by simp
    have ru: "room M ?k u" using room_parsed [of M 0 ?k t u] room_rest [OF assms(3) t(2)] u(2) by simp
    have su: "parsed 0 s u" using parsed_first [OF t(2) u(2)] .
    show "runs (sbind (begin_loop n pe []) (\<lambda>es. sbind (PeekEq T_RParen) (\<lambda>b.
      sthen (sassert b) (sthen parser_PopScope (ret (Some (BeginExpr es))))))) u ?Q"
    proof (rule runs_sbind [OF sequence.loop_runs [OF assms(1) b ru assms(4)]], elim exE conjE,
        rule runs_sbind [OF PeekEq_end], assumption, elim conjE)
      fix r v ys b w
      assume v: "r = foldl (\<lambda>acc y. acc @ [y]) [] ys" "list_all2 (means (store_of v)) es ys" "parsed ?k u v"
          "ps_scope v = ps_scope u" and w: b "ready w ?ending" "same_rest v w"
      have uw: "parsed ?k u w" "ps_scope w = i" using parsed_last [OF v(3) w(3)] parsed_rest [OF w(3)] v(4) u(3) by simp_all
      have "scope_under (ps_scope w) (ps_scope s) w"
        using scope_under_parsed [OF u(4) uw(1)] uw(2) parsed_rest [OF t(2)] by simp
      note pop = PopScope_runs [OF this w(2)]
      have "runs (sthen parser_PopScope (ret (Some (BeginExpr r)))) w ?Q"
      proof (rule runs_sthen [OF pop], elim conjE, intro runs_ret conjI)
        fix z assume z: "ready z ?ending" "parsed 0 w z" "ps_scope z = ps_scope s"
        have sz: "parsed (0 + ?k + 0) s z" using parsed_trans [OF parsed_trans [OF su uw(1)] z(2)] .
        have "parsed 0 v z" using parsed_first [OF w(3) z(2)] .
        then have "means (store_of z) (SBegin es) (BeginExpr r)"
          unfolding v(1) foldl_snoc append.simps using means_all_parsed [OF v(2)] by (intro means.intros) blast
        then show "stands_for (nodes (SBegin es)) s (SBegin es) (Some (BeginExpr r)) z"
          using z(3) parsed_weaken [OF sz] by (intro stands_forI) simp_all
        show "ready z ?ending" by (rule z(1))
      qed
      then show "runs (sthen (sassert b) (sthen parser_PopScope (ret (Some (BeginExpr r))))) w ?Q"
        using w(1) by (simp add: runs_def op_simps)
    qed
  qed
qed

lemma ParseThrowExpr_runs:
  assumes "parses M pe a" "ready s (''throw '' @ show_source a @ CHR '')'' # cs)" "room M (nodes a) s"
  shows "runs (ParseThrowExpr pe) s (\<lambda>r u. stands_for (nodes (SThrow a)) s (SThrow a) r u \<and> ready u (CHR '')'' # cs))"
    (is "runs _ _ ?Q")
proof -
  have "ready s (''throw'' @ CHR '' '' # show_source a @ CHR '')'' # cs)" using assms(2) by simp
  note lx = ExpectNext_runs [OF this lexes_form_word [of _ "T_Node N_ThrowExpr"]]
  show ?thesis
    unfolding ParseThrowExpr_def
  proof (rule runs_sthen [OF lx], simp, simp add: delimited_def, elim conjE)
    fix t assume t: "bare t (CHR '' '' # show_source a @ CHR '')'' # cs)" "same_rest s t"
    have d: "delimited (CHR '')'' # cs)" by (simp add: delimited_def)
    have rt: "room M (nodes a + 0) t" using room_rest [OF assms(3) t(2)] by simp
    show "runs (sbind (required pe) (\<lambda>value. ret (Some (ThrowExpr value)))) t ?Q"
    proof (rule required_bind [OF assms(1) bare_ready [OF bare_blank [OF t(1)]] d rt], intro runs_ret conjI)
      fix y u assume u: "bare u (CHR '')'' # cs)" "parsed (nodes a) t u" "ps_scope u = ps_scope t" "means (store_of u) a y"
      have "parsed (nodes (SThrow a)) s u" using parsed_first [OF t(2) u(2)] by (rule parsed_weaken) simp
      then show "stands_for (nodes (SThrow a)) s (SThrow a) (Some (ThrowExpr y)) u"
        using u(3,4) parsed_rest [OF t(2)] by (intro stands_forI means.intros) simp_all
      show "ready u (CHR '')'' # cs)" by (rule bare_ready [OF u(1)])
    qed
  qed
qed

text \<open>A test and expressions after it: \<open>when\<close> and \<open>while\<close>.\<close>

lemma tested_runs:
  assumes "parses M pe a" "\<forall>e\<in>set es. writable e \<and> parses M pe e"
    and "(w, k) \<in> {(''when'', T_Node N_WhenExpr), (''while'', T_Node N_WhileExpr)}"
    and "ready s (w @ CHR '' '' # show_source a @ show_sources es @ CHR '')'' # cs)"
    and "room M (nodes a + sum_list (map nodes es)) s" "length es \<le> n"
  shows "runs (sthen (ExpectNext k) (sbind (required pe) (\<lambda>x. sbind (ParseExpressionList n pe True) (\<lambda>ys. ret (x, ys)))))
    s (\<lambda>(x, ys) u. means (store_of u) a x \<and> list_all2 (means (store_of u)) es ys \<and> ready u (CHR '')'' # cs) \<and>
      parsed (nodes a + sum_list (map nodes es)) s u \<and> ps_scope u = ps_scope s)"
    (is "runs _ _ ?Q")
proof (rule runs_sthen [OF ExpectNext_runs [OF assms(4) lexes_form_word]])
  let ?k = "sum_list (map nodes es)" and ?rest = "show_sources es @ CHR '')'' # cs"
  show "(w, k) \<in> {(''begin'', T_Node N_BeginExpr), (''when'', T_Node N_WhenExpr), (''while'', T_Node N_WhileExpr),
      (''cond'', T_Cond), (''throw'', T_Node N_ThrowExpr)}" "delimited (CHR '' '' # show_source a @ ?rest)"
    using assms(3) by (auto simp: delimited_def)
  fix tok :: token and t
  assume "tk_kind tok = k \<and> tk_text tok = w \<and> bare t (CHR '' '' # show_source a @ ?rest) \<and> same_rest s t"
  then have t: "bare t (CHR '' '' # show_source a @ ?rest)" "same_rest s t" by simp_all
  show "runs (sbind (required pe) (\<lambda>x. sbind (ParseExpressionList n pe True) (\<lambda>ys. ret (x, ys)))) t ?Q"
  proof (rule required_bind [OF assms(1) bare_ready [OF bare_blank [OF t(1)]] delimited_sources room_rest [OF assms(5) t(2)]])
    fix x u assume u: "bare u ?rest" "parsed (nodes a) t u" "ps_scope u = ps_scope t" "means (store_of u) a x" "room M ?k u"
    show "runs (sbind (ParseExpressionList n pe True) (\<lambda>ys. ret (x, ys))) u ?Q"
    proof (rule runs_sbind [OF ParseExpressionList_runs [OF assms(2) u(1,5) assms(6)]], elim conjE, intro runs_ret, simp)
      fix ys v assume v: "list_all2 (means (store_of v)) es ys" "parsed ?k u v" "ps_scope v = ps_scope u"
      show "means (store_of v) a x \<and> parsed (nodes a + ?k) s v \<and> ps_scope u = ps_scope s"
        using means_parsed [OF u(4) v(2)] parsed_first [OF t(2) parsed_trans [OF u(2) v(2)]] u(3) parsed_rest [OF t(2)]
        by simp
    qed
  qed
qed

lemma paired: "sthen m (sbind a (\<lambda>x. sbind b (\<lambda>y. f x y))) =
    sbind (sthen m (sbind a (\<lambda>x. sbind b (\<lambda>y. ret (x, y))))) (\<lambda>(x, y). f x y)"
  by (simp add: sthen_def sbind_assoc)

lemma ParseWhenExpr_runs:
  assumes "parses M pe a" "\<forall>e\<in>set es. writable e \<and> parses M pe e" "es \<noteq> []"
    and "ready s (''when '' @ show_source a @ show_sources es @ CHR '')'' # cs)"
    and "room M (nodes a + sum_list (map nodes es)) s" "length es \<le> n"
  shows "runs (ParseWhenExpr n pe) s (\<lambda>r u. stands_for (nodes (SWhen a es)) s (SWhen a es) r u \<and> ready u (CHR '')'' # cs))"
    (is "runs _ _ ?Q")
  unfolding ParseWhenExpr_def
proof (subst paired, rule runs_sbind [OF tested_runs [OF assms(1,2) _ _ assms(5,6)]])
  show "(''when'', T_Node N_WhenExpr) \<in> {(''when'', T_Node N_WhenExpr), (''while'', T_Node N_WhileExpr)}" by simp
  show "ready s (''when'' @ CHR '' '' # show_source a @ show_sources es @ CHR '')'' # cs)" using assms(4) by simp
  fix p u
  assume p: "(case p of (x, ys) \<Rightarrow> \<lambda>u. means (store_of u) a x \<and> list_all2 (means (store_of u)) es ys \<and>
    ready u (CHR '')'' # cs) \<and> parsed (nodes a + sum_list (map nodes es)) s u \<and> ps_scope u = ps_scope s) u"
  then show "runs (case p of (test, actions) \<Rightarrow> sbind (reads (\<lambda>s. new_WhenExpr test actions)) (\<lambda>e. ret (Some e))) u ?Q"
    using assms(3)
    by (auto simp: new_WhenExpr_def split: prod.splits
      intro!: runs_reads_bind runs_ret stands_forI means.intros elim: parsed_weaken)
      (fastforce simp: guardr_def)
qed

lemma ParseWhileExpr_runs:
  assumes "parses M pe a" "\<forall>e\<in>set es. writable e \<and> parses M pe e"
    and "ready s (''while '' @ show_source a @ show_sources es @ CHR '')'' # cs)"
    and "room M (nodes a + sum_list (map nodes es)) s" "length es \<le> n"
  shows "runs (ParseWhileExpr n pe) s (\<lambda>r u. stands_for (nodes (SWhile a es)) s (SWhile a es) r u \<and> ready u (CHR '')'' # cs))"
    (is "runs _ _ ?Q")
  unfolding ParseWhileExpr_def
proof (subst paired, rule runs_sbind [OF tested_runs [OF assms(1,2) _ _ assms(4,5)]])
  show "(''while'', T_Node N_WhileExpr) \<in> {(''when'', T_Node N_WhenExpr), (''while'', T_Node N_WhileExpr)}" by simp
  show "ready s (''while'' @ CHR '' '' # show_source a @ show_sources es @ CHR '')'' # cs)" using assms(3) by simp
  fix p u
  assume p: "(case p of (x, ys) \<Rightarrow> \<lambda>u. means (store_of u) a x \<and> list_all2 (means (store_of u)) es ys \<and>
    ready u (CHR '')'' # cs) \<and> parsed (nodes a + sum_list (map nodes es)) s u \<and> ps_scope u = ps_scope s) u"
  then show "runs (case p of (test, body) \<Rightarrow> ret (Some (WhileExpr test body))) u ?Q"
    by (auto split: prod.splits intro!: runs_ret stands_forI means.intros elim: parsed_weaken)
qed

lemma ParseCondExpr_runs:
  assumes "\<forall>e\<in>set es. parses M pe e" "list_all writable es" "2 \<le> length es"
    and "ready s (''cond'' @ show_sources es @ CHR '')'' # cs)"
    and "room M (sum_list (map nodes es)) s" "length es \<le> n + 2"
  shows "runs (ParseCondExpr n pe) s (\<lambda>r u. stands_for (nodes (SCond es)) s (SCond es) r u \<and> ready u (CHR '')'' # cs))"
    (is "runs _ _ ?Q")
  unfolding ParseCondExpr_def
proof (rule runs_sthen [OF ExpectNext_runs [OF assms(4) lexes_form_word]], simp, rule delimited_sources, elim conjE)
  fix t assume t: "bare t (show_sources es @ CHR '')'' # cs)" "same_rest s t"
  have e: "es \<noteq> []" using assms(3) by auto
  show "runs (sbind (cond_loop n pe []) (\<lambda>(clauses, alt). sbind (reads (\<lambda>s. new_CondExpr clauses alt)) (\<lambda>e. ret (Some e)))) t ?Q"
  proof (rule runs_sbind [OF cond_loop_runs [OF assms(1,2) e at_sources_bare [OF t(1)] room_rest [OF assms(5) t(2)] assms(6)]])
    fix r u assume r: "cond_result cs es t [] r u"
    then obtain ys where ys: "r = cond_parts ys" "list_all2 (means (store_of u)) es ys"
      by (auto simp: cond_result_def)
    have "fst r \<noteq> []"
      using ys assms(3) list_all2_lengthD [OF ys(2)] by (cases ys rule: cond_parts.cases) (auto simp: split_def Let_def)
    then have "new_CondExpr (fst r) (snd r) = Inr (CondExpr (fst r) (snd r))" by (simp add: new_CondExpr_def)
    moreover have "means (store_of u) (SCond es) (CondExpr (fst r) (snd r))"
      using ys(2) by (rule means.intros) (simp add: ys(1))
    ultimately show "runs (case r of (clauses, alt) \<Rightarrow> sbind (reads (\<lambda>s. new_CondExpr clauses alt)) (\<lambda>e. ret (Some e))) u ?Q"
      using r parsed_rest [OF t(2)] parsed_weaken [OF parsed_first [OF t(2)]]
      by (auto simp: cond_result_def split_def intro!: runs_reads_bind runs_ret stands_forI)
  qed
qed

section \<open>Every source is read back\<close>

lemma nodes_pos: "0 < nodes e"
  by (cases e) simp_all

lemma length_nodes: "length es \<le> sum_list (map nodes es)"
proof (induction es)
  case (Cons e es)
  then show ?case using nodes_pos [of e] by simp
qed simp

lemma nodes_member: "e \<in> set es \<Longrightarrow> nodes e \<le> sum_list (map nodes es)"
  by (induction es) auto

lemma expression_form_kinds:
  "tk_kind t = T_UnaryOp uop \<Longrightarrow> expression_form n E pe t = ParseUnaryExpr pe"
  "tk_kind t = T_BinaryOp bop \<Longrightarrow> expression_form n E pe t = ParseBinaryExpr n pe"
  "tk_kind t = T_LiteralLong \<Longrightarrow> expression_form n E pe t = ParseListExpr n E pe"
  "tk_kind t = T_Node N_BeginExpr \<Longrightarrow> expression_form n E pe t = ParseBeginExpr n pe"
  "tk_kind t = T_Node N_WhenExpr \<Longrightarrow> expression_form n E pe t = ParseWhenExpr n pe"
  "tk_kind t = T_Node N_WhileExpr \<Longrightarrow> expression_form n E pe t = ParseWhileExpr n pe"
  "tk_kind t = T_Node N_ThrowExpr \<Longrightarrow> expression_form n E pe t = ParseThrowExpr pe"
  "tk_kind t = T_Cond \<Longrightarrow> expression_form n E pe t = ParseCondExpr n pe"
  by (simp_all add: expression_form_def common_form_def tk_IsUnaryOp_def tk_IsBinaryOp_def tk_IsLiteral_def)

lemma parse_source: "writable e \<Longrightarrow> nodes e \<le> n \<Longrightarrow> parses (pe_machine E) (ParseExpression n E) e"
proof (induction "nodes e" arbitrary: e n rule: less_induct)
  case less
  obtain m where n: "n = Suc m" using less.prems(2) nodes_pos [of e] by (cases n) auto
  let ?M = "pe_machine E" and ?pe = "ParseExpression m E"
  have one: "parses ?M ?pe a" if "nodes a < nodes e" "writable a" for a
    using less.hyps [OF that] that(1) less.prems(2) n by simp
  have all: "\<forall>a\<in>set es. writable a \<and> parses ?M ?pe a"
    if "sum_list (map nodes es) < nodes e" "list_all writable es" for es
    using that one nodes_member by (fastforce simp: list_all_iff)
  have len: "length es \<le> m" if "sum_list (map nodes es) < nodes e" for es
    using that length_nodes [of es] less.prems(2) n by simp
  show ?case
  proof (rule parsesI, unfold n ParseExpression.simps)
    fix s cs
    assume r: "ready s (show_source e @ cs)" "delimited cs" "room ?M (nodes e) s"
    let ?Q = "\<lambda>r t. stands_for (nodes e) s e r t \<and> bare t cs"
    have room: "room ?M k t" if "k \<le> nodes e" "same_rest s t" for k t
      using room_rest [OF room_less [OF r(3) that(1)] that(2)] .
    show "runs (ParseExpression_body m E ?pe) s ?Q"
    proof (cases e)
      case (SNum k)
      show ?thesis
        using r less.prems(1) room SNum
        by (intro literal_body_runs [OF r(1), where k = T_LiteralLong])
          (auto intro: lexes_show_nat number_runs [unfolded One_nat_def])
    next
      case (SUnary op a)
      obtain x where lx: "lexes (unary_text op @ CHR '' '' # show_source a @ CHR '')'' # cs) (T_UnaryOp op) x
          (CHR '' '' # show_source a @ CHR '')'' # cs)"
        using lexes_unary [of op] less.prems(1) SUnary by auto
      show ?thesis
        using r(1) less.prems(1) SUnary room
        by (intro form_runs [OF _ lx]) (auto simp: expression_form_kinds intro!: ParseUnaryExpr_runs [simplified] one)
    next
      case (SBool b)
      have lx: "lexes (show_source e @ cs) (if b then T_LiteralTrue else T_LiteralFalse) [] cs"
        using lexes_bool SBool by (simp add: show_bool_def)
      show ?thesis
        using r(1) room SBool by (intro literal_body_runs [OF r(1) lx]) (auto intro: bool_runs [where M = "pe_machine E", unfolded One_nat_def])
    next
      case (SBinary op a b es)
      obtain x where lx: "lexes (binary_text op @ CHR '' '' # show_source a @ CHR '' '' # show_source b @ show_sources es @ CHR '')'' # cs)
          (T_BinaryOp op) x (CHR '' '' # show_source a @ CHR '' '' # show_source b @ show_sources es @ CHR '')'' # cs)"
        using lexes_binary [of op] less.prems(1) SBinary by auto
      show ?thesis
        using r(1) less.prems(1) SBinary room len all [of es] one [of a] one [of b]
        by (intro form_runs [OF _ lx]) (auto simp: expression_form_kinds intro!: ParseBinaryExpr_runs [simplified])
    next
      case (SList k es)
      have lx: "lexes (show_nat k @ show_sources es @ CHR '')'' # cs) T_LiteralLong (show_nat k) (show_sources es @ CHR '')'' # cs)"
        using less.prems(1) SList by (intro lexes_show_nat delimited_sources) simp
      have k: "parses ?M ?pe (SNum k)" using less.prems(1) SList by (intro one) auto
      show ?thesis
        using r(1) less.prems(1) SList room len all [of es] k
        by (intro form_runs [OF _ lx]) (auto simp: expression_form_kinds intro!: ParseListExpr_runs [simplified])
    next
      case (SBegin es)
      have lx: "lexes (''begin'' @ show_sources es @ CHR '')'' # cs) (T_Node N_BeginExpr) ''begin'' (show_sources es @ CHR '')'' # cs)"
        by (intro lexes_form_word delimited_sources) simp
      show ?thesis
        using r(1) less.prems(1) SBegin room len all [of es]
        by (intro form_runs [OF _ lx]) (auto simp: expression_form_kinds intro!: ParseBeginExpr_runs [simplified])
    next
      case (SWhen a es)
      have lx: "lexes (''when'' @ CHR '' '' # show_source a @ show_sources es @ CHR '')'' # cs) (T_Node N_WhenExpr) ''when''
          (CHR '' '' # show_source a @ show_sources es @ CHR '')'' # cs)"
        by (intro lexes_form_word) (simp_all add: delimited_def)
      show ?thesis
        using r(1) less.prems(1) SWhen room len all [of es] one [of a]
        by (intro form_runs [OF _ lx]) (auto simp: expression_form_kinds intro!: ParseWhenExpr_runs [simplified])
    next
      case (SWhile a es)
      have lx: "lexes (''while'' @ CHR '' '' # show_source a @ show_sources es @ CHR '')'' # cs) (T_Node N_WhileExpr) ''while''
          (CHR '' '' # show_source a @ show_sources es @ CHR '')'' # cs)"
        by (intro lexes_form_word) (simp_all add: delimited_def)
      show ?thesis
        using r(1) less.prems(1) SWhile room len all [of es] one [of a]
        by (intro form_runs [OF _ lx]) (auto simp: expression_form_kinds intro!: ParseWhileExpr_runs [simplified])
    next
      case (SCond es)
      have lx: "lexes (''cond'' @ show_sources es @ CHR '')'' # cs) T_Cond ''cond'' (show_sources es @ CHR '')'' # cs)"
        by (intro lexes_form_word delimited_sources) simp
      show ?thesis
        using r(1) less.prems(1) SCond room len [of es] all [of es]
        by (intro form_runs [OF _ lx]) (auto simp: expression_form_kinds intro!: ParseCondExpr_runs [simplified])
    next
      case (SThrow a)
      have lx: "lexes (''throw'' @ CHR '' '' # show_source a @ CHR '')'' # cs) (T_Node N_ThrowExpr) ''throw''
          (CHR '' '' # show_source a @ CHR '')'' # cs)"
        by (intro lexes_form_word) (simp_all add: delimited_def)
      show ?thesis
        using r(1) less.prems(1) SThrow room one [of a]
        by (intro form_runs [OF _ lx]) (auto simp: expression_form_kinds intro!: ParseThrowExpr_runs [simplified])
    qed
  qed
qed

lemma ParseExpr_source:
  assumes "writable e" "nodes e \<le> n" "sane_machine (pe_machine E)" "store_ok (rt_store rt)"
    and "fresh_scopes (scopes_of rt)" "st_true (rt_store rt) \<noteq> 0" "st_false (rt_store rt) \<noteq> 0"
    and "nodes e * max_cost < store_free (rt_store rt)"
  shows "\<exists>x st. ParseExpr n E (show_source e) scope rt = Inr (Some x, rt\<lparr>rt_store := st\<rparr>) \<and> means st e x \<and>
    grown (nodes e) (rt_store rt) st"
proof -
  let ?s = "fresh_parser (show_source e) scope rt"
  have shown: "show_source e \<noteq> []"
    using show_nat_digits by (cases e) (simp_all add: show_bool_def)
  have "at_text ?s (replicate 0 (CHR '' '') @ show_source e)" using fresh_parser_at by simp
  then have "ready ?s (show_source e @ [])"
    unfolding ready_def bare_def by (auto simp: fresh_parser_def calm_def no_token_def tk_IsInvalid_def intro: exI [of _ 0])
  moreover have "room (pe_machine E) (nodes e) ?s"
    using assms(3-8) by (simp add: room_def fresh_parser_def)
  moreover have "delimited []" by (simp add: delimited_def)
  ultimately obtain x t where t: "ParseExpression n E ?s = Inr (Some x, t)" "parsed (nodes e) ?s t" "means (store_of t) e x"
    using parse_source [OF assms(1,2)] unfolding parses_def runs_def by blast
  then have "ps_rt t = rt\<lparr>rt_store := store_of t\<rparr>" "grown (nodes e) (rt_store rt) (store_of t)"
    by (simp_all add: parsed_def beside_store fresh_parser_def)
  then show ?thesis
    using t(1,3) shown
    by (intro exI [of _ x] exI [of _ "store_of t"])
      (simp add: ParseExpr_def with_parser_def new_Parser_fresh op_simps)
qed

text \<open>C4. What is printed is read back. \<open>ParseExpr\<close>, given the text of a source of numbers, truth
  values, operators, lists, \<open>begin\<close>, \<open>when\<close>, \<open>while\<close>, \<open>cond\<close> and \<open>throw\<close>, returns the expression
  the source stands for and does nothing but add objects and scopes to the store. It needs fuel for
  the nodes of the source, room in the heap for one object of each, and the two truth values.\<close>

theorem sources_read_back:
  assumes "writable e" "nodes e \<le> n" "sane_machine (pe_machine E)" "store_ok (rt_store rt)"
    and "fresh_scopes (scopes_of rt)" "st_true (rt_store rt) \<noteq> 0" "st_false (rt_store rt) \<noteq> 0"
    and "nodes e * max_cost < store_free (rt_store rt)"
  shows "\<exists>x st. ParseExpr n E (show_source e) scope rt = Inr (Some x, rt\<lparr>rt_store := st\<rparr>) \<and> means st e x \<and>
    grown (nodes e) (rt_store rt) st"
  by (rule ParseExpr_source [OF assms])

definition example_parser_env :: parser_env where
  "example_parser_env = \<lparr>pe_world = example_world, pe_fuel = 3, pe_to_double = \<lambda>_. 0, pe_find_module = \<lambda>_. ret 0\<rparr>"

text \<open>An empty store with room for objects.\<close>

definition roomy_store :: store where
  "roomy_store = (initial_store large_heap)\<lparr>st_true := 8, st_false := 16\<rparr>"

theorem sources_read_back_witness:
  "\<exists>x st. ParseExpr 9 example_parser_env ''(cond (< 1 2) (- 9 4 5) #f)'' 0 (example_runtime\<lparr>rt_store := roomy_store\<rparr>) =
      Inr (Some x, example_runtime\<lparr>rt_store := st\<rparr>) \<and>
    means st (SCond [SBinary BLessThan (SNum 1) (SNum 2) [], SBinary BSubtract (SNum 9) (SNum 4) [SNum 5], SBool False]) x"
proof -
  let ?e = "SCond [SBinary BLessThan (SNum 1) (SNum 2) [], SBinary BSubtract (SNum 9) (SNum 4) [SNum 5], SBool False]"
  have shown: "show_source ?e = ''(cond (< 1 2) (- 9 4 5) #f)''"
    by (simp add: show_nat.simps digit_def char_of_def show_bool_def bit_0)
  have "store_ok roomy_store" "fresh_scopes (st_scopes roomy_store)" "9 * max_cost < store_free roomy_store"
      "st_true roomy_store \<noteq> 0" "st_false roomy_store \<noteq> 0"
    using booted_initial [OF large_heap_facts(1)] large_heap_facts(2)
    by (simp_all add: roomy_store_def booted_def store_free_def fresh_scopes_def empty_scopes_def boot_room_def)
  then show ?thesis
    using sources_read_back [where e = ?e and n = 9 and E = example_parser_env and rt = "example_runtime\<lparr>rt_store := roomy_store\<rparr>"
        and scope = 0, unfolded shown]
    by (auto simp: example_parser_env_def example_world_def example_machine_sane)
qed

end
