(* ===== verification/MacroExpander.thy ===== *)
theory MacroExpander
  imports Units
begin

text \<open>
  The macro expander (\<open>gel/macro_expander.h\<close>, \<open>gel/macro_expander.cc\<close>): macro calls in the body of
  a lambda or a script are replaced by the macro's body with the arguments put in. A parameter's
  value is an expression, which is not an object of the store here: the scopes of macro calls are
  lists of names and expressions, innermost first, above a scope of the store. Expressions are
  trees: where the code changes a node in place the changed tree is returned beside the result, and
  two trees that share the node are not told of it.
\<close>

record expander =
  mx_store :: store
  mx_scope :: nat
  mx_frames :: "(string \<times> expr) list list"

type_synonym 'a xop = "(expander, 'a) op_on"

text \<open>A visit: whether \<open>Accept\<close> answers true, the results, and the node after the visit.\<close>

type_synonym macro_visitor = "expr \<Rightarrow> (bool \<times> expr list \<times> expr) xop"

definition on_xstore :: "'a sop \<Rightarrow> 'a xop" where
  "on_xstore m = on_part mx_store (\<lambda>st s. s\<lparr>mx_store := st\<rparr>) m"

definition xstored :: "(store \<Rightarrow> 'a res) \<Rightarrow> 'a xop" where
  "xstored f = reads (\<lambda>s. f (mx_store s))"

definition on_xscopes :: "(scopes \<Rightarrow> ('a \<times> scopes) res) \<Rightarrow> 'a xop" where
  "on_xscopes m = on_xstore (on_store_scopes m)"

section \<open>Scopes\<close>

definition expander_PushScope :: "nat list \<Rightarrow> unit xop" where
  "expander_PushScope is =
    sbind (asks mx_scope) (\<lambda>cur.
    sbind (on_xscopes (scope_Union is (Some cur))) (\<lambda>i. modifies (\<lambda>s. s\<lparr>mx_scope := i\<rparr>)))"

definition expander_PopScope :: "unit xop" where
  "expander_PopScope =
    sbind (asks mx_scope) (\<lambda>cur.
    sbind (xstored (\<lambda>st. get_scope (st_scopes st) cur)) (\<lambda>s.
    case sc_parent s of
      None \<Rightarrow> fails AssertFailed
    | Some p \<Rightarrow> modifies (\<lambda>s. s\<lparr>mx_scope := p\<rparr>)))"

text \<open>What a name is bound to: a variable of the store or an argument of a macro call.\<close>

datatype bound = Variable local_var | Argument expr

fun frames_Lookup :: "(string \<times> expr) list list \<Rightarrow> string \<Rightarrow> expr option" where
  "frames_Lookup [] name = None"
| "frames_Lookup (f # fs) name =
    (case map_of f name of Some e \<Rightarrow> Some e | None \<Rightarrow> frames_Lookup fs name)"

definition scope_value :: "string \<Rightarrow> bool \<Rightarrow> expander \<Rightarrow> bound option res" where
  "scope_value name recursive s =
    rbind (Lookup (st_scopes (mx_store s)) (mx_scope s) name recursive) (\<lambda>found.
    case found of
      None \<Rightarrow> Inr None
    | Some l \<Rightarrow> rbind (get_local (st_scopes (mx_store s)) l) (\<lambda>v. Inr (Some (Variable v))))"

definition expander_Lookup :: "string \<Rightarrow> bool \<Rightarrow> expander \<Rightarrow> bound option res" where
  "expander_Lookup name recursive s =
    asserting (name \<noteq> [])
      (case mx_frames s of
         [] \<Rightarrow> scope_value name recursive s
       | f # fs \<Rightarrow>
           (case (if recursive then frames_Lookup (f # fs) name else map_of f name) of
              Some e \<Rightarrow> Inr (Some (Argument e))
            | None \<Rightarrow> if recursive then scope_value name recursive s else Inr None))"

text \<open>The name of a literal symbol.\<close>

definition literal_name :: "expr \<Rightarrow> store \<Rightarrow> string option res" where
  "literal_name e st =
    (case e of
       LiteralExpr v \<Rightarrow>
         if v = 0 then Inr None
         else rbind (obj_at v st) (\<lambda>x.
           case x of OSymbol sy \<Rightarrow> Inr (Some (GetFullyQualifiedName sy)) | _ \<Rightarrow> Inr None)
     | _ \<Rightarrow> Inr None)"

section \<open>Expressions that are looked into\<close>

definition VisitBinaryOpExpr_macro :: "macro_visitor \<Rightarrow> binary_op \<Rightarrow> expr \<Rightarrow> expr \<Rightarrow> (bool \<times> expr list \<times> expr) xop" where
  "VisitBinaryOpExpr_macro visit op left right =
    sbind (visit left) (\<lambda>(_, lhs, left').
    sbind (visit right) (\<lambda>(_, rhs, right').
    if lhs \<noteq> [] \<or> rhs \<noteq> [] then
      ret (True,
        [BinaryOpExpr op (if lhs \<noteq> [] then hd lhs else left') (if rhs \<noteq> [] then hd rhs else right')],
        BinaryOpExpr op left' right')
    else ret (False, [], BinaryOpExpr op left' right')))"

text \<open>The arguments of a call: whether one has changed, the new arguments, and the nodes.\<close>

fun visit_call_args :: "macro_visitor \<Rightarrow> expr list \<Rightarrow> (bool \<times> expr list \<times> expr list) xop" where
  "visit_call_args visit [] = ret (False, [], [])"
| "visit_call_args visit (a # as) =
    sbind (visit a) (\<lambda>(ok, res, a').
    sbind (visit_call_args visit as) (\<lambda>(changed, new, nodes).
    if \<not> ok \<or> res = [] then ret (changed, a' # new, a' # nodes)
    else ret (True, hd res # new, a' # nodes)))"

definition visit_plain_call :: "macro_visitor \<Rightarrow> expr \<Rightarrow> expr list \<Rightarrow> (bool \<times> expr list \<times> expr) xop" where
  "visit_plain_call visit target args =
    sbind (visit_call_args visit args) (\<lambda>(changed, new, nodes).
    ret (True, if changed then [CallProcExpr target new] else [], CallProcExpr target nodes))"

definition IsMacroCall :: "expr \<Rightarrow> expander \<Rightarrow> uword option res" where
  "IsMacroCall target s =
    rbind (literal_name target (mx_store s)) (\<lambda>name.
    case name of
      None \<Rightarrow> Inr None
    | Some n \<Rightarrow>
        rbind (expander_Lookup n True s) (\<lambda>found.
        case found of
          Some (Variable v) \<Rightarrow>
            if \<not> HasValue v then Inr None
            else rbind (obj_at (GetValue v) (mx_store s)) (\<lambda>x.
              case x of OMacro _ \<Rightarrow> Inr (Some (GetValue v)) | _ \<Rightarrow> Inr None)
        | _ \<Rightarrow> Inr None))"

text \<open>The parameters are bound to the arguments in a scope of their own.\<close>

fun bind_macro_args :: "argument list \<Rightarrow> expr \<Rightarrow> expr list \<Rightarrow> (string \<times> expr) list \<Rightarrow> (string \<times> expr) list res" where
  "bind_macro_args [] target args f = Inr f"
| "bind_macro_args (p # ps) target args f =
    rbind (GetArgAt args target (unat (arg_index p))) (\<lambda>v.
    asserting (arg_name p \<noteq> [])
      (guardr LogFatal (map_of f (arg_name p) = None)
        (bind_macro_args ps target args (f @ [(arg_name p, v)]))))"

text \<open>The body with the results in the place of the expressions that have some, and its nodes.\<close>

fun visit_macro_body :: "macro_visitor \<Rightarrow> expr list \<Rightarrow> (expr list \<times> expr list) xop" where
  "visit_macro_body visit [] = ret ([], [])"
| "visit_macro_body visit (e # es) =
    sbind (visit e) (\<lambda>(_, res, e').
    sbind (visit_macro_body visit es) (\<lambda>(body, nodes).
    ret ((if res = [] then [e'] else res) @ body, e' # nodes)))"

definition visit_macro_call :: "macro_visitor \<Rightarrow> uword \<Rightarrow> expr \<Rightarrow> expr list \<Rightarrow> (bool \<times> expr list \<times> expr) xop" where
  "visit_macro_call visit m target args =
    sbind (xstored (macro_at m)) (\<lambda>mc.
    sthen (sassert (length (mc_args mc) = length args))
      (sbind (reads (\<lambda>_. bind_macro_args (mc_args mc) target args [])) (\<lambda>f.
       sthen (modifies (\<lambda>s. s\<lparr>mx_frames := f # mx_frames s\<rparr>))
         (sbind (visit_macro_body visit (mc_body mc)) (\<lambda>(body, nodes).
          sthen (on_xstore (update_macro m (\<lambda>mc. mc\<lparr>mc_body := nodes\<rparr>)))
            (sthen (modifies (\<lambda>s. s\<lparr>mx_frames := tl (mx_frames s)\<rparr>))
              (ret (True, body, CallProcExpr target args))))))))"

definition VisitCallProcExpr_macro :: "macro_visitor \<Rightarrow> expr \<Rightarrow> expr list \<Rightarrow> (bool \<times> expr list \<times> expr) xop" where
  "VisitCallProcExpr_macro visit target args =
    sbind (reads (IsMacroCall target)) (\<lambda>m.
    case m of
      None \<Rightarrow> visit_plain_call visit target args
    | Some a \<Rightarrow> visit_macro_call visit a target args)"

text \<open>A literal symbol is looked up in the innermost scope only. No value in the store is an
  expression.\<close>

definition VisitLiteralExpr_macro :: "uword \<Rightarrow> (bool \<times> expr list \<times> expr) xop" where
  "VisitLiteralExpr_macro value =
    sbind (xstored (literal_name (LiteralExpr value))) (\<lambda>name.
    case name of
      None \<Rightarrow> ret (True, [], LiteralExpr value)
    | Some n \<Rightarrow>
        sbind (reads (expander_Lookup n False)) (\<lambda>found.
        ret (True, case found of Some (Argument e) \<Rightarrow> [e] | _ \<Rightarrow> [], LiteralExpr value)))"

definition VisitSetLocalExpr_macro :: "macro_visitor \<Rightarrow> nat \<Rightarrow> expr option \<Rightarrow> (bool \<times> expr list \<times> expr) xop" where
  "VisitSetLocalExpr_macro visit l value =
    (case value of
       None \<Rightarrow> fails AssertFailed
     | Some v \<Rightarrow>
         sbind (visit v) (\<lambda>(ok, res, v').
         if \<not> ok \<or> res = [] then ret (False, [], SetLocalExpr l (Some v'))
         else ret (True, [], SetLocalExpr l (Some (hd res)))))"

text \<open>The actions of a \<open>when\<close>: whether one has changed, the new ones, and the nodes.\<close>

fun visit_actions :: "macro_visitor \<Rightarrow> expr list \<Rightarrow> (bool \<times> expr list \<times> expr list) xop" where
  "visit_actions visit [] = ret (False, [], [])"
| "visit_actions visit (a # as) =
    sbind (visit a) (\<lambda>(_, res, a').
    sbind (visit_actions visit as) (\<lambda>(changed, new, nodes).
    ret (res \<noteq> [] \<or> changed, (if res = [] then [a'] else res) @ new, a' # nodes)))"

definition VisitWhenExpr_macro :: "macro_visitor \<Rightarrow> expr \<Rightarrow> expr list \<Rightarrow> (bool \<times> expr list \<times> expr) xop" where
  "VisitWhenExpr_macro visit test actions =
    sbind (visit test) (\<lambda>(_, res, test').
    sbind (visit_actions visit actions) (\<lambda>(changed, new, nodes).
    if res \<noteq> [] \<or> changed then
      sbind (reads (\<lambda>_. new_WhenExpr (if res \<noteq> [] then hd res else test') (if changed then new else nodes)))
        (\<lambda>e. ret (True, [e], WhenExpr test' nodes))
    else ret (True, [], WhenExpr test' nodes)))"

section \<open>The visitor\<close>

text \<open>The other expressions are not looked into: that is logged as not implemented.\<close>

definition visit_nothing :: macro_visitor where
  "visit_nothing e = ret (False, [], e)"

definition visit_nothing_true :: macro_visitor where
  "visit_nothing_true e = ret (True, [], e)"

definition macro_visit_body :: "macro_visitor \<Rightarrow> macro_visitor" where
  "macro_visit_body visit e =
    (case e of
       BinaryOpExpr op l r \<Rightarrow> VisitBinaryOpExpr_macro visit op l r
     | CallProcExpr t args \<Rightarrow> VisitCallProcExpr_macro visit t args
     | LiteralExpr v \<Rightarrow> VisitLiteralExpr_macro v
     | SetLocalExpr l v \<Rightarrow> VisitSetLocalExpr_macro visit l v
     | WhenExpr t as \<Rightarrow> VisitWhenExpr_macro visit t as
     | BeginExpr _ \<Rightarrow> visit_nothing_true e
     | Binding _ _ \<Rightarrow> visit_nothing_true e
     | _ \<Rightarrow> visit_nothing e)"

fun macro_visit :: "nat \<Rightarrow> macro_visitor" where
  "macro_visit 0 e = fails OutOfFuel"
| "macro_visit (Suc n) e = macro_visit_body (macro_visit n) e"

section \<open>Lambdas and scripts\<close>

text \<open>One position of a body is expanded until its visit has no results.\<close>

fun expand_at :: "nat \<Rightarrow> macro_visitor \<Rightarrow> (store \<Rightarrow> expr list res) \<Rightarrow> (expr list \<Rightarrow> unit sop) \<Rightarrow> nat \<Rightarrow> unit xop" where
  "expand_at fuel visit body put idx =
    sbind (xstored body) (\<lambda>es.
    sbind (reads (\<lambda>_. body_GetExpressionAt idx es)) (\<lambda>e.
    sbind (visit e) (\<lambda>(_, res, e').
    if res = [] then on_xstore (put (es[idx := e']))
    else case fuel of
      0 \<Rightarrow> fails OutOfFuel
    | Suc n \<Rightarrow>
        sbind (reads (\<lambda>_. body_ReplaceAllAt idx res es)) (\<lambda>es'.
        sthen (on_xstore (put es')) (expand_at n visit body put idx)))))"

declare expand_at.simps [simp del]

fun expand_from :: "nat \<Rightarrow> nat \<Rightarrow> macro_visitor \<Rightarrow> (store \<Rightarrow> expr list res) \<Rightarrow> (expr list \<Rightarrow> unit sop) \<Rightarrow> nat \<Rightarrow> unit xop" where
  "expand_from fuel k visit body put idx =
    sbind (xstored body) (\<lambda>es.
    if length es \<le> idx then ret ()
    else case fuel of
      0 \<Rightarrow> fails OutOfFuel
    | Suc n \<Rightarrow>
        sthen (expand_at k visit body put idx) (expand_from n k visit body put (idx + 1)))"

declare expand_from.simps [simp del]

definition lambda_body_of :: "uword \<Rightarrow> store \<Rightarrow> expr list res" where
  "lambda_body_of a st = rbind (lambda_at a st) (\<lambda>x. Inr (lm_body x))"

definition script_body_of :: "uword \<Rightarrow> store \<Rightarrow> expr list res" where
  "script_body_of a st = rbind (script_at a st) (\<lambda>x. Inr (sp_body x))"

definition Script_SetBody :: "uword \<Rightarrow> expr list \<Rightarrow> unit sop" where
  "Script_SetBody a body = update_script a (\<lambda>x. x\<lparr>sp_body := body\<rparr>)"

definition ExpandAllInLambda :: "nat \<Rightarrow> uword \<Rightarrow> unit xop" where
  "ExpandAllInLambda n a =
    sbind (xstored (lambda_at a)) (\<lambda>lm.
    sthen (expander_PushScope (case lm_scope lm of None \<Rightarrow> [] | Some i \<Rightarrow> [i]))
      (sthen (expand_from n n (macro_visit n) (lambda_body_of a) (Lambda_SetBody a) 0) expander_PopScope))"

definition ExpandAllInScript :: "nat \<Rightarrow> uword \<Rightarrow> unit xop" where
  "ExpandAllInScript n a =
    sbind (xstored (script_at a)) (\<lambda>sp.
    case sp_scope sp of
      None \<Rightarrow> fails UndefinedBehaviour
    | Some i \<Rightarrow>
        sthen (expander_PushScope [i])
          (sthen (expand_from n n (macro_visit n) (script_body_of a) (Script_SetBody a) 0) expander_PopScope))"

text \<open>\<open>ExpandAll\<close>: an expander of its own in a scope.\<close>

definition with_expander :: "'a xop \<Rightarrow> nat \<Rightarrow> 'a rop" where
  "with_expander m scope = (\<lambda>rt.
    rbind (m \<lparr>mx_store = rt_store rt, mx_scope = scope, mx_frames = []\<rparr>) (\<lambda>(x, s).
    Inr (x, rt\<lparr>rt_store := mx_store s\<rparr>)))"

definition ExpandAll_lambda :: "nat \<Rightarrow> uword \<Rightarrow> nat \<Rightarrow> unit rop" where
  "ExpandAll_lambda n a scope = sthen (sassert (a \<noteq> 0)) (with_expander (ExpandAllInLambda n a) scope)"

definition ExpandAll_script :: "nat \<Rightarrow> uword \<Rightarrow> nat \<Rightarrow> unit rop" where
  "ExpandAll_script n a scope = sthen (sassert (a \<noteq> 0)) (with_expander (ExpandAllInScript n a) scope)"

end
