(* ===== verification/MacroExpanderCorrect.thy ===== *)
theory MacroExpanderCorrect
  imports MacroExpander InterpreterCorrect
begin

text \<open>
  What the macro expander does: a macro call becomes the body of the macro with the arguments put
  in the place of the parameters, at once, as far as the expander looks; what it does not look into keeps
  its parameters; a macro that calls itself is expanded without end; a body without macro calls is
  left alone.
\<close>

section \<open>Templates\<close>

text \<open>The argument a literal stands for in the innermost scope.\<close>

definition argument_for :: "expander \<Rightarrow> uword \<Rightarrow> expr option" where
  "argument_for s v =
    (case literal_name (LiteralExpr v) (mx_store s) of
       Inr (Some n) \<Rightarrow> (case expander_Lookup n False s of Inr (Some (Argument e)) \<Rightarrow> Some e | _ \<Rightarrow> None)
     | _ \<Rightarrow> None)"

text \<open>The reference: the argument in every place of the expression where its literal stands.\<close>

fun substituted :: "(uword \<Rightarrow> expr option) \<Rightarrow> expr \<Rightarrow> expr" where
  "substituted f (LiteralExpr v) = (case f v of Some e \<Rightarrow> e | None \<Rightarrow> LiteralExpr v)"
| "substituted f (UnaryExpr op x) = UnaryExpr op (substituted f x)"
| "substituted f (BinaryOpExpr op l r) = BinaryOpExpr op (substituted f l) (substituted f r)"
| "substituted f (BeginExpr es) = BeginExpr (map (substituted f) es)"
| "substituted f (WhileExpr t es) = WhileExpr (substituted f t) (map (substituted f) es)"
| "substituted f (CondExpr cs None) = CondExpr (map (substituted f) cs) None"
| "substituted f (CondExpr cs (Some e)) = CondExpr (map (substituted f) cs) (Some (substituted f e))"
| "substituted f (ClauseExpr k es) = ClauseExpr (substituted f k) (map (substituted f) es)"
| "substituted f (WhenExpr t as) = WhenExpr (substituted f t) (map (substituted f) as)"
| "substituted f (CaseExpr k cs) = CaseExpr (substituted f k) (map (substituted f) cs)"
| "substituted f (LocalDef l x) = LocalDef l (substituted f x)"
| "substituted f (CallProcExpr t args) = CallProcExpr (substituted f t) (map (substituted f) args)"
| "substituted f (SetFieldExpr fd i x) = SetFieldExpr fd (substituted f i) (substituted f x)"
| "substituted f (SetLocalExpr l None) = SetLocalExpr l None"
| "substituted f (SetLocalExpr l (Some x)) = SetLocalExpr l (Some (substituted f x))"
| "substituted f (Binding l x) = Binding l (substituted f x)"
| "substituted f (LetExpr l bs es) = LetExpr l (map (substituted f) bs) (map (substituted f) es)"
| "substituted f (RxOpExpr sy args) = RxOpExpr sy (map (substituted f) args)"
| "substituted f (LetRxExpr l src es) = LetRxExpr l (substituted f src) (map (substituted f) es)"
| "substituted f (ListExpr es) = ListExpr (map (substituted f) es)"
| "substituted f (ThrowExpr x) = ThrowExpr (substituted f x)"
| "substituted f (InstanceOfExpr c x) = InstanceOfExpr c (substituted f x)"
| "substituted f (CastExpr c x) = CastExpr c (substituted f x)"
| "substituted f (NewExpr c args) = NewExpr c (map (substituted f) args)"
| "substituted f (NewMapExpr kvs) = NewMapExpr (map (\<lambda>(k, x). (k, substituted f x)) kvs)"
| "substituted f (LoadFieldExpr i fd) = LoadFieldExpr (substituted f i) fd"
| "substituted f e = e"

fun mentions :: "(uword \<Rightarrow> expr option) \<Rightarrow> expr \<Rightarrow> bool" where
  "mentions f (LiteralExpr v) = (f v \<noteq> None)"
| "mentions f (UnaryExpr op x) = mentions f x"
| "mentions f (BinaryOpExpr op l r) = (mentions f l \<or> mentions f r)"
| "mentions f (BeginExpr es) = list_ex (mentions f) es"
| "mentions f (WhileExpr t es) = (mentions f t \<or> list_ex (mentions f) es)"
| "mentions f (CondExpr cs None) = list_ex (mentions f) cs"
| "mentions f (CondExpr cs (Some e)) = (list_ex (mentions f) cs \<or> mentions f e)"
| "mentions f (ClauseExpr k es) = (mentions f k \<or> list_ex (mentions f) es)"
| "mentions f (WhenExpr t as) = (mentions f t \<or> list_ex (mentions f) as)"
| "mentions f (CaseExpr k cs) = (mentions f k \<or> list_ex (mentions f) cs)"
| "mentions f (LocalDef l x) = mentions f x"
| "mentions f (CallProcExpr t args) = (mentions f t \<or> list_ex (mentions f) args)"
| "mentions f (SetFieldExpr fd i x) = (mentions f i \<or> mentions f x)"
| "mentions f (SetLocalExpr l None) = False"
| "mentions f (SetLocalExpr l (Some x)) = mentions f x"
| "mentions f (Binding l x) = mentions f x"
| "mentions f (LetExpr l bs es) = (list_ex (mentions f) bs \<or> list_ex (mentions f) es)"
| "mentions f (RxOpExpr sy args) = list_ex (mentions f) args"
| "mentions f (LetRxExpr l src es) = (mentions f src \<or> list_ex (mentions f) es)"
| "mentions f (ListExpr es) = list_ex (mentions f) es"
| "mentions f (ThrowExpr x) = mentions f x"
| "mentions f (InstanceOfExpr c x) = mentions f x"
| "mentions f (CastExpr c x) = mentions f x"
| "mentions f (NewExpr c args) = list_ex (mentions f) args"
| "mentions f (NewMapExpr kvs) = list_ex (\<lambda>(k, x). mentions f x) kvs"
| "mentions f (LoadFieldExpr i fd) = mentions f i"
| "mentions f e = False"

lemma substituted_same: "\<not> mentions f e \<Longrightarrow> substituted f e = e"
  by (induction f e rule: mentions.induct) (auto simp: list_ex_iff intro!: map_idI)

lemma not_mentioned: "(\<And>v. f v = None) \<Longrightarrow> \<not> mentions f e"
  by (induction f e rule: mentions.induct) (auto simp: list_ex_iff)

text \<open>The expressions the expander does not look into.\<close>

fun blind :: "expr \<Rightarrow> bool" where
  "blind (LiteralExpr v) = False"
| "blind (BinaryOpExpr op l r) = False"
| "blind (CallProcExpr t args) = False"
| "blind (SetLocalExpr l v) = False"
| "blind (WhenExpr t as) = False"
| "blind e = True"

text \<open>Expressions whose visit only reads and finds every parameter: no macro calls and no \<open>set!\<close> in the
  places that are looked into, no parameter in the others - the target of a call and the expressions
  that are not looked into.\<close>

fun template :: "expander \<Rightarrow> expr \<Rightarrow> bool" where
  "template s (LiteralExpr v) =
    (case literal_name (LiteralExpr v) (mx_store s) of
       Inl _ \<Rightarrow> False
     | Inr None \<Rightarrow> True
     | Inr (Some n) \<Rightarrow> (case expander_Lookup n False s of Inl _ \<Rightarrow> False | Inr _ \<Rightarrow> True))"
| "template s (BinaryOpExpr op l r) = (template s l \<and> template s r)"
| "template s (CallProcExpr t args) =
    (IsMacroCall t s = Inr None \<and> \<not> mentions (argument_for s) t \<and> list_all (template s) args)"
| "template s (WhenExpr t as) = (template s t \<and> as \<noteq> [] \<and> list_all (template s) as)"
| "template s (SetLocalExpr l v) = False"
| "template s e = (\<not> mentions (argument_for s) e)"

definition visited :: "expander \<Rightarrow> expr \<Rightarrow> (bool \<times> expr list \<times> expr) \<Rightarrow> bool" where
  "visited s e r \<longleftrightarrow>
    snd r = (if mentions (argument_for s) e then [substituted (argument_for s) e] else [], e) \<and>
    (mentions (argument_for s) e \<longrightarrow> fst r)"

definition visits :: "macro_visitor \<Rightarrow> expander \<Rightarrow> expr \<Rightarrow> bool" where
  "visits visit s e \<longleftrightarrow> (\<exists>r. visit e s = Inr (r, s) \<and> visited s e r)"

lemma visitsE:
  assumes "visits visit s e"
  obtains ok where "visit e s = Inr ((ok, if mentions (argument_for s) e then [substituted (argument_for s) e] else [], e), s)"
    "mentions (argument_for s) e \<longrightarrow> ok"
  using assms by (auto simp: visits_def visited_def)

lemma args_visited:
  "\<forall>e\<in>set es. visits visit s e \<Longrightarrow>
    visit_call_args visit es s =
      Inr ((list_ex (mentions (argument_for s)) es, map (substituted (argument_for s)) es, es), s)"
proof (induction es)
  case (Cons e es)
  obtain ok where "visit e s = Inr ((ok, if mentions (argument_for s) e then [substituted (argument_for s) e] else [], e), s)"
      "mentions (argument_for s) e \<longrightarrow> ok"
    using Cons.prems visitsE [of visit s e] by auto
  then show ?case using Cons by (auto simp: op_simps substituted_same)
qed (simp add: op_simps)

lemma actions_visited:
  "\<forall>e\<in>set es. visits visit s e \<Longrightarrow>
    visit_actions visit es s =
      Inr ((list_ex (mentions (argument_for s)) es, map (substituted (argument_for s)) es, es), s)"
proof (induction es)
  case (Cons e es)
  obtain ok where "visit e s = Inr ((ok, if mentions (argument_for s) e then [substituted (argument_for s) e] else [], e), s)"
    using Cons.prems visitsE [of visit s e] by auto
  then show ?case using Cons by (auto simp: op_simps substituted_same)
qed (simp add: op_simps)

lemma size_element: "a \<in> set as \<Longrightarrow> size a < Suc (size_list size as + k)"
  using size_list_estimation' [of a as "size a" size] by simp

lemma template_visits: "template s e \<Longrightarrow> size e < n \<Longrightarrow> visits (macro_visit n) s e"
proof (induction e arbitrary: n rule: measure_induct_rule [of size])
  case (less e)
  obtain m where n: "n = Suc m" using less.prems(2) by (cases n) auto
  have sub: "visits (macro_visit m) s a" if "size a < size e" "template s a" for a
    using less.IH [OF that] that(1) less.prems(2) n by simp
  show ?case
  proof (cases e)
    case (LiteralExpr v)
    then show ?thesis
      using less.prems(1)
      by (auto simp: n visits_def visited_def macro_visit_body_def VisitLiteralExpr_macro_def op_simps xstored_def
          argument_for_def split: sum.splits option.splits bound.splits)
  next
    case (BinaryOpExpr op l r)
    have "visits (macro_visit m) s l" "visits (macro_visit m) s r"
      using less.prems(1) BinaryOpExpr by (auto intro!: sub)
    then obtain ok1 ok2 where
        "macro_visit m l s = Inr ((ok1, if mentions (argument_for s) l then [substituted (argument_for s) l] else [], l), s)"
        "macro_visit m r s = Inr ((ok2, if mentions (argument_for s) r then [substituted (argument_for s) r] else [], r), s)"
      by (auto elim!: visitsE)
    then show ?thesis
      using BinaryOpExpr
      by (auto simp: n visits_def visited_def macro_visit_body_def VisitBinaryOpExpr_macro_def op_simps substituted_same)
  next
    case (CallProcExpr t args)
    have "\<forall>a\<in>set args. visits (macro_visit m) s a"
      using less.prems(1) CallProcExpr by (auto simp: list_all_iff intro!: sub size_element)
    then show ?thesis
      using CallProcExpr less.prems(1)
      by (simp add: n visits_def visited_def macro_visit_body_def VisitCallProcExpr_macro_def visit_plain_call_def op_simps
          args_visited substituted_same)
  next
    case (WhenExpr t as)
    have a: "\<forall>a\<in>set as. visits (macro_visit m) s a"
      using less.prems(1) WhenExpr by (auto simp: list_all_iff intro!: sub size_element)
    have "visits (macro_visit m) s t" using less.prems(1) WhenExpr by (auto intro!: sub)
    then obtain ok where
        "macro_visit m t s = Inr ((ok, if mentions (argument_for s) t then [substituted (argument_for s) t] else [], t), s)"
      by (auto elim!: visitsE)
    moreover have "as \<noteq> []" using less.prems(1) WhenExpr by simp
    moreover have "map (substituted (argument_for s)) as = as" if "\<not> list_ex (mentions (argument_for s)) as"
      using that by (auto simp: list_ex_iff substituted_same intro: map_idI)
    ultimately show ?thesis
      using WhenExpr actions_visited [OF a]
      by (auto simp: n visits_def visited_def macro_visit_body_def VisitWhenExpr_macro_def op_simps new_WhenExpr_def
          guardr_def substituted_same)
  qed (use less.prems(1) in \<open>auto simp: n visits_def visited_def macro_visit_body_def visit_nothing_def visit_nothing_true_def op_simps\<close>)
qed

text \<open>The body of a macro: templates with their parameters replaced, the expressions that are not looked into
  as they are.\<close>

definition expanded :: "(uword \<Rightarrow> expr option) \<Rightarrow> expr \<Rightarrow> expr" where
  "expanded f e = (if blind e then e else substituted f e)"

lemma blind_kept: "blind e \<Longrightarrow> 0 < n \<Longrightarrow> \<exists>ok. macro_visit n e s = Inr ((ok, [], e), s)"
  by (cases n; cases e)
    (auto simp: macro_visit_body_def visit_nothing_def visit_nothing_true_def op_simps)

lemma body_expanded:
  "\<forall>e\<in>set es. (blind e \<or> template s e) \<and> size e < n \<Longrightarrow>
    visit_macro_body (macro_visit n) es s = Inr ((map (expanded (argument_for s)) es, es), s)"
proof (induction es)
  case (Cons e es)
  have "\<exists>ok res. macro_visit n e s = Inr ((ok, res, e), s) \<and>
    (if res = [] then [e] else res) = [expanded (argument_for s) e]"
  proof (cases "blind e")
    case True
    then show ?thesis using blind_kept [of e n s] Cons.prems by (auto simp: expanded_def)
  next
    case False
    then have "visits (macro_visit n) s e" using Cons.prems template_visits by auto
    then obtain ok where "macro_visit n e s =
        Inr ((ok, if mentions (argument_for s) e then [substituted (argument_for s) e] else [], e), s)"
      by (elim visitsE)
    then show ?thesis using False by (cases "mentions (argument_for s) e") (simp_all add: expanded_def substituted_same)
  qed
  then show ?case using Cons by (auto simp: op_simps)
qed (simp add: op_simps)

section \<open>Macro calls\<close>

text \<open>The argument a literal symbol of the macro's body stands for.\<close>

definition argument_of :: "argument list \<Rightarrow> expr list \<Rightarrow> store \<Rightarrow> uword \<Rightarrow> expr option" where
  "argument_of ps args st v =
    (case literal_name (LiteralExpr v) st of
       Inr (Some n) \<Rightarrow> if n = [] then None else map_of (zip (map arg_name ps) args) n
     | _ \<Rightarrow> None)"

lemma argument_for_frame:
  "argument_for (s\<lparr>mx_frames := zip (map arg_name ps) args # fs\<rparr>) = argument_of ps args (mx_store s)"
  by (auto simp: argument_for_def argument_of_def expander_Lookup_def guardr_def fun_eq_iff split: sum.split option.split)

lemma bind_macro_args_zip:
  assumes "distinct (map arg_name ps)" "\<forall>p\<in>set ps. arg_name p \<noteq> []" "length ps = length vs"
    and "map (\<lambda>p. unat (arg_index p)) ps = [length us..<length us + length vs]"
    and "\<forall>p\<in>set ps. map_of f (arg_name p) = None"
  shows "bind_macro_args ps t (us @ vs) f = Inr (f @ zip (map arg_name ps) vs)"
  using assms
proof (induction ps arbitrary: us vs f)
  case (Cons p ps)
  obtain v ws where vs: "vs = v # ws" using Cons.prems(3) by (cases vs) auto
  have "[length us..<length us + length vs] = length us # [length (us @ [v])..<length (us @ [v]) + length ws]"
    by (subst upt_conv_Cons) (simp_all add: vs)
  then have i: "unat (arg_index p) = length us"
    and ixs: "map (\<lambda>p. unat (arg_index p)) ps = [length (us @ [v])..<length (us @ [v]) + length ws]"
    using Cons.prems(4) by (simp_all del: upt_Suc length_append)
  have "GetArgAt (us @ vs) t (length us) = Inr v"
    by (simp add: GetArgAt_def CallProcExpr_at_def vec_at_def vs)
  moreover have "bind_macro_args ps t ((us @ [v]) @ ws) (f @ [(arg_name p, v)]) =
      Inr ((f @ [(arg_name p, v)]) @ zip (map arg_name ps) ws)"
    using Cons.prems ixs vs by (intro Cons.IH) (auto simp: image_iff)
  ultimately show ?case
    using Cons.prems i by (simp add: vs guardr_def)
qed simp

lemma put_same: "st_objs st a = Some x \<Longrightarrow> put_obj a x st = st"
  by (simp add: put_obj_def fun_upd_idem)

lemma macro_at_Inr: "macro_at m st = Inr mc \<longleftrightarrow> m \<noteq> 0 \<and> st_objs st m = Some (OMacro mc)"
proof -
  have "(case x of OMacro m \<Rightarrow> Inr m | _ \<Rightarrow> Inl UndefinedBehaviour) = Inr mc \<longleftrightarrow> x = OMacro mc" for x
    by (cases x) auto
  then show ?thesis by (simp add: macro_at_def rbind_eq_Inr obj_at_Inr)
qed

lemma update_macro_same:
  assumes "macro_at m st = Inr mc"
  shows "update_macro m (\<lambda>mc. mc\<lparr>mc_body := mc_body mc0\<rparr>) st = Inr ((), put_obj m (OMacro (mc\<lparr>mc_body := mc_body mc0\<rparr>)) st)"
  using assms by (simp add: update_macro_def op_simps)

text \<open>C24. A call of a macro with as many arguments as parameters is expanded to the body of the
  macro. In a template - an expression whose parameters stand alone, or in operands of operators of two operands,
  arguments of calls or parts of a \<open>when\<close>, with no macro call and no \<open>set!\<close> in these places - every
  parameter is replaced by the argument at its place. An expression that the expander does not look into - an
  operator of one operand, an instance test, \<open>cond\<close>, \<open>let\<close>, a list and so on - stays as it
  stands in the macro, parameters and all. Nothing but the result changes.\<close>

theorem macro_call_substitutes:
  assumes "IsMacroCall t s = Inr (Some m)" "macro_at m (mx_store s) = Inr mc"
    and "map (\<lambda>p. unat (arg_index p)) (mc_args mc) = [0..<length args]"
    and "distinct (map arg_name (mc_args mc))" "\<forall>p\<in>set (mc_args mc). arg_name p \<noteq> []"
    and "\<forall>e\<in>set (mc_body mc).
      (blind e \<or> template (s\<lparr>mx_frames := zip (map arg_name (mc_args mc)) args # mx_frames s\<rparr>) e) \<and> size e < n"
  shows "macro_visit (Suc n) (CallProcExpr t args) s =
    Inr ((True, map (\<lambda>e. if blind e then e else substituted (argument_of (mc_args mc) args (mx_store s)) e) (mc_body mc),
      CallProcExpr t args), s)"
proof -
  let ?f = "zip (map arg_name (mc_args mc)) args"
  let ?s = "s\<lparr>mx_frames := ?f # mx_frames s\<rparr>"
  have len: "length (mc_args mc) = length args" using assms(3) by (metis length_map length_upt minus_nat.diff_0)
  have f: "bind_macro_args (mc_args mc) t args [] = Inr ?f"
    using bind_macro_args_zip [OF assms(4,5) len, of "[]" "[]"] assms(3) by simp
  note body = body_expanded [OF assms(6)]
  have "update_macro m (\<lambda>x. x\<lparr>mc_body := mc_body mc\<rparr>) (mx_store s) = Inr ((), mx_store s)"
    using update_macro_same [OF assms(2), of mc] assms(2) by (simp add: macro_at_Inr put_same)
  then show ?thesis
    using assms(1,2) len f body
    by (simp add: macro_visit_body_def VisitCallProcExpr_macro_def visit_macro_call_def op_simps xstored_def on_xstore_def
        argument_for_frame guardr_def expanded_def [abs_def])
qed

section \<open>Macros that call themselves\<close>

lemma scope_value_frames: "scope_value n r (s\<lparr>mx_frames := f\<rparr>) = scope_value n r s"
  by (simp add: scope_value_def cong: option.case_cong)

lemma IsMacroCall_frame:
  assumes "literal_name t (mx_store s) = Inr (Some name)" "map_of f name = None"
  shows "IsMacroCall t (s\<lparr>mx_frames := f # mx_frames s\<rparr>) = IsMacroCall t s"
proof -
  have "expander_Lookup name True (s\<lparr>mx_frames := f # mx_frames s\<rparr>) = expander_Lookup name True s"
    using assms(2) by (cases "mx_frames s") (simp_all add: expander_Lookup_def scope_value_frames cong: option.case_cong)
  then show ?thesis
    using assms(1) by (auto simp: IsMacroCall_def intro!: rbind_cong split: option.split bound.split)
qed

text \<open>A macro that can be called with \<open>k\<close> arguments, none of its parameters named \<open>name\<close>.\<close>

definition takes_args :: "macro \<Rightarrow> nat \<Rightarrow> string \<Rightarrow> bool" where
  "takes_args mc k name \<longleftrightarrow> map (\<lambda>p. unat (arg_index p)) (mc_args mc) = [0..<k] \<and>
     distinct (map arg_name (mc_args mc)) \<and> (\<forall>p\<in>set (mc_args mc). arg_name p \<noteq> [] \<and> arg_name p \<noteq> name)"

lemma recursive_call_visits:
  assumes "IsMacroCall t s = Inr (Some m)" "macro_at m (mx_store s) = Inr mc"
    and "literal_name t (mx_store s) = Inr (Some name)" "takes_args mc (length as) name"
    and "mc_body mc = CallProcExpr t bs # es" "length bs = length as"
  shows "macro_visit n (CallProcExpr t as) s = Inl OutOfFuel"
  using assms
proof (induction n arbitrary: s as bs)
  case (Suc n)
  let ?f = "zip (map arg_name (mc_args mc)) as"
  let ?s = "s\<lparr>mx_frames := ?f # mx_frames s\<rparr>"
  have len: "length (mc_args mc) = length as"
    using Suc.prems(4) unfolding takes_args_def by (metis length_map length_upt minus_nat.diff_0)
  have f: "bind_macro_args (mc_args mc) t as [] = Inr ?f"
    using bind_macro_args_zip [OF _ _ len, of "[]" "[]"] Suc.prems(4) by (simp add: takes_args_def)
  have "map_of ?f name = None"
    using Suc.prems(4) len by (auto simp: takes_args_def map_of_zip_is_None)
  then have "IsMacroCall t ?s = Inr (Some m)" using IsMacroCall_frame [OF Suc.prems(3)] Suc.prems(1) by simp
  then have "macro_visit n (CallProcExpr t bs) ?s = Inl OutOfFuel"
    using Suc.prems(2-6) by (intro Suc.IH [of ?s bs bs]) simp_all
  then show ?case
    using Suc.prems(1,2,5) len f
    by (simp add: macro_visit_body_def VisitCallProcExpr_macro_def visit_macro_call_def op_simps xstored_def guardr_def)
qed (simp add: op_simps)

section \<open>Bodies\<close>

lemma lambda_at_Inr: "lambda_at a st = Inr lm \<longleftrightarrow> a \<noteq> 0 \<and> st_objs st a = Some (OLambda lm)"
proof -
  have "(case x of OLambda l \<Rightarrow> Inr l | _ \<Rightarrow> Inl UndefinedBehaviour) = Inr lm \<longleftrightarrow> x = OLambda lm" for x
    by (cases x) auto
  then show ?thesis by (simp add: lambda_at_def rbind_eq_Inr obj_at_Inr)
qed

lemma lambda_at_scopes: "lambda_at a (st\<lparr>st_scopes := sc\<rparr>) = lambda_at a st"
  by (simp add: lambda_at_def obj_at_def)

lemma Lambda_SetBody_same:
  assumes "lambda_at a st = Inr lm"
  shows "Lambda_SetBody a (lm_body lm) st = Inr ((), st)"
  using assms by (simp add: Lambda_SetBody_def update_lambda_def op_simps) (simp add: lambda_at_Inr put_same)

lemma lambda_body_at: "lambda_at a st = Inr lm \<Longrightarrow> lambda_body_of a st = Inr (lm_body lm)"
  by (simp add: lambda_body_of_def)

lemma expand_at_inert:
  assumes "lambda_at a (mx_store s) = Inr lm" "i < length (lm_body lm)" "visits visit s (lm_body lm ! i)"
    and "\<And>v. argument_for s v = None"
  shows "expand_at k visit (lambda_body_of a) (Lambda_SetBody a) i s = Inr ((), s)"
proof -
  obtain ok where "visit (lm_body lm ! i) s = Inr ((ok, [], lm_body lm ! i), s)"
    using assms(3) not_mentioned [of "argument_for s"] assms(4) by (auto elim!: visitsE)
  then show ?thesis
    using assms(1,2) Lambda_SetBody_same [OF assms(1)]
    by (subst expand_at.simps)
      (simp add: op_simps xstored_def lambda_body_at body_GetExpressionAt_def guardr_def on_xstore_def)
qed

lemma expand_from_inert:
  assumes "lambda_at a (mx_store s) = Inr lm" "\<forall>e\<in>set (lm_body lm). visits visit s e"
    and "\<And>v. argument_for s v = None"
  shows "length (lm_body lm) \<le> i + n \<Longrightarrow> expand_from n k visit (lambda_body_of a) (Lambda_SetBody a) i s = Inr ((), s)"
proof (induction n arbitrary: i)
  case 0
  then show ?case
    using assms(1) by (subst expand_from.simps) (simp add: op_simps xstored_def lambda_body_at)
next
  case (Suc n)
  have "expand_at k visit (lambda_body_of a) (Lambda_SetBody a) i s = Inr ((), s)" if "i < length (lm_body lm)"
    using expand_at_inert [OF assms(1) that] assms(2,3) that by simp
  then show ?case
    using assms(1) Suc by (subst expand_from.simps) (simp add: op_simps xstored_def lambda_body_at)
qed

text \<open>The expander in the scope it makes for a lambda without variables.\<close>

definition expander_in :: "store \<Rightarrow> nat \<Rightarrow> expander" where
  "expander_in st scope =
    \<lparr>mx_store = st\<lparr>st_scopes := snd (LocalScope_New (Some scope) (st_scopes st))\<rparr>,
      mx_scope = sc_next (st_scopes st), mx_frames = []\<rparr>"

lemma PushScope_expander_in:
  "expander_PushScope [] \<lparr>mx_store = st, mx_scope = scope, mx_frames = []\<rparr> = Inr ((), expander_in st scope)"
  by (simp add: expander_PushScope_def op_simps on_xscopes_def on_xstore_def on_store_scopes_def scope_Union_def
      LocalScope_New_def new_LocalScope_def expander_in_def)

lemma no_arguments: "mx_frames s = [] \<Longrightarrow> argument_for s v = None"
  by (auto simp: argument_for_def expander_Lookup_def scope_value_def guardr_def rbind_def split: sum.split option.split)

lemma ExpandAll_lambda_inert:
  assumes "lambda_at a (rt_store rt) = Inr lm" "lm_scope lm = None"
    and "\<forall>e\<in>set (lm_body lm). template (expander_in (rt_store rt) scope) e \<and> size e < n" "length (lm_body lm) \<le> n"
  shows "ExpandAll_lambda n a scope rt =
    Inr ((), rt\<lparr>rt_store := mx_store (expander_in (rt_store rt) scope)\<rparr>)"
proof -
  let ?s = "expander_in (rt_store rt) scope"
  have l: "lambda_at a (mx_store ?s) = Inr lm" "a \<noteq> 0"
    using assms(1) by (simp_all add: expander_in_def lambda_at_scopes lambda_at_Inr)
  have "\<forall>e\<in>set (lm_body lm). visits (macro_visit n) ?s e" using assms(3) template_visits by blast
  moreover have "argument_for ?s v = None" for v by (simp add: no_arguments expander_in_def)
  ultimately have "expand_from n n (macro_visit n) (lambda_body_of a) (Lambda_SetBody a) 0 ?s = Inr ((), ?s)"
    using expand_from_inert [OF l(1)] assms(4) by simp
  moreover have "expander_PopScope ?s = Inr ((), ?s\<lparr>mx_scope := scope\<rparr>)"
    by (simp add: expander_PopScope_def op_simps xstored_def expander_in_def LocalScope_New_def new_LocalScope_def get_scope_def)
  ultimately show ?thesis
    using assms(1,2) l(2) PushScope_expander_in [of "rt_store rt" scope]
    by (simp add: ExpandAll_lambda_def with_expander_def ExpandAllInLambda_def op_simps xstored_def guardr_def)
qed

text \<open>Entering a scope changes no object.\<close>

lemma PushScope_objects:
  assumes "expander_PushScope is s = Inr ((), t)"
  shows "st_objs (mx_store t) = st_objs (mx_store s)"
  using assms by (auto simp: expander_PushScope_def op_simps on_xscopes_def on_xstore_def on_store_scopes_def rbind_eq_Inr)

lemma literal_name_objects: "st_objs st' = st_objs st \<Longrightarrow> literal_name t st' = literal_name t st"
  by (cases t) (simp_all add: literal_name_def obj_at_def)

text \<open>C25. A macro whose body begins with a call of itself - with as many arguments as it has parameters, none of
  which is named like the macro - is expanded without end: no fuel is enough for compiling a
  lambda whose body begins with a call of the macro.\<close>

theorem recursive_macro_never_ends:
  assumes "lambda_at a (rt_store rt) = Inr lm" "lm_body lm = CallProcExpr t as # es"
    and "expander_PushScope (case lm_scope lm of None \<Rightarrow> [] | Some i \<Rightarrow> [i])
      \<lparr>mx_store = rt_store rt, mx_scope = scope, mx_frames = []\<rparr> = Inr ((), s)"
    and "IsMacroCall t s = Inr (Some m)" "literal_name t (rt_store rt) = Inr (Some name)"
    and "macro_at m (rt_store rt) = Inr mc" "takes_args mc (length as) name"
    and "mc_body mc = CallProcExpr t bs # fs" "length bs = length as"
  shows "ExpandAll_lambda n a scope rt = Inl OutOfFuel"
proof -
  have objs: "st_objs (mx_store s) = st_objs (rt_store rt)" using PushScope_objects [OF assms(3)] by simp
  have l: "lambda_at a (mx_store s) = Inr lm" "a \<noteq> 0" and m: "macro_at m (mx_store s) = Inr mc"
    using assms(1,6) objs by (simp_all add: lambda_at_Inr macro_at_Inr)
  have "literal_name t (mx_store s) = Inr (Some name)" using assms(5) literal_name_objects [OF objs] by simp
  note recursive_call_visits [OF assms(4) m this assms(7-9), of n]
  then have "expand_at n (macro_visit n) (lambda_body_of a) (Lambda_SetBody a) 0 s = Inl OutOfFuel"
    using l(1) assms(2)
    by (subst expand_at.simps) (simp add: op_simps xstored_def lambda_body_at body_GetExpressionAt_def guardr_def)
  then have "expand_from n n (macro_visit n) (lambda_body_of a) (Lambda_SetBody a) 0 s = Inl OutOfFuel"
    using l(1) assms(2)
    by (subst expand_from.simps) (cases n; simp add: op_simps xstored_def lambda_body_at)
  then show ?thesis
    using assms(1,3) l(2)
    by (simp add: ExpandAll_lambda_def with_expander_def ExpandAllInLambda_def op_simps xstored_def guardr_def)
qed

section \<open>Concrete macros\<close>

text \<open>\<open>(defmacro f (x) (f x))\<close> and \<open>(defmacro g (x) (+ x x) (not x))\<close>, a lambda with the body \<open>(f t)\<close>, and
  a scope with the two names.\<close>

definition example_macro :: "argument list \<Rightarrow> expr list \<Rightarrow> macro" where
  "example_macro ps es =
    \<lparr>mc_owner = 0, mc_symbol = 8192, mc_docs = 0, mc_scope = None, mc_args = ps, mc_body = es\<rparr>"

definition example_param :: argument where
  "example_param = \<lparr>arg_index = 0, arg_name = ''x'', arg_optional = False, arg_vararg = False\<rparr>"

definition macro_store :: store where
  "macro_store = example_store\<lparr>
    st_objs := (st_objs example_store)(
      8448 \<mapsto> OMacro (example_macro [example_param] [CallProcExpr (LiteralExpr 8192) [LiteralExpr 8640]]),
      8512 \<mapsto> OLambda (empty_lambda\<lparr>lm_body := [CallProcExpr (LiteralExpr 8192) [LiteralExpr 4176]]\<rparr>),
      8576 \<mapsto> OSymbol \<lparr>sym_ns = [], sym_type = [], sym_name = ''g''\<rparr>,
      8640 \<mapsto> OSymbol \<lparr>sym_ns = [], sym_type = [], sym_name = ''x''\<rparr>,
      8704 \<mapsto> OMacro (example_macro [example_param]
        [BinaryOpExpr BAdd (LiteralExpr 8640) (LiteralExpr 8640), UnaryExpr UNot (LiteralExpr 8640)])),
    st_scopes :=
      \<lparr>sc_map = [0 \<mapsto> \<lparr>sc_parent = None, sc_locals = [0, 1]\<rparr>], sc_next = 1,
       lv_map = [0 \<mapsto> \<lparr>lv_owner = Some 0, lv_index = 0, lv_name = ''f'', lv_ptr = 8432\<rparr>,
         1 \<mapsto> \<lparr>lv_owner = Some 0, lv_index = 1, lv_name = ''g'', lv_ptr = 8688\<rparr>],
       lv_next = 2\<rparr>\<rparr>"

lemmas macro_simps = macro_store_def example_store_def example_objects_def obj_at_def literal_name_def
  GetFullyQualifiedName_def HasNamespace_def HasSymbolType_def IsMacroCall_def expander_Lookup_def scope_value_def
  Lookup_def Lookup_from.simps get_scope_def get_local_def HasValue_def GetValue_def header_size_def macro_at_def
  example_macro_def example_param_def

theorem macro_call_substitutes_witness:
  "macro_visit 4 (CallProcExpr (LiteralExpr 8576) [LiteralExpr 4176]) \<lparr>mx_store = macro_store, mx_scope = 0, mx_frames = []\<rparr> =
    Inr ((True, [BinaryOpExpr BAdd (LiteralExpr 4176) (LiteralExpr 4176), UnaryExpr UNot (LiteralExpr 8640)],
        CallProcExpr (LiteralExpr 8576) [LiteralExpr 4176]),
      \<lparr>mx_store = macro_store, mx_scope = 0, mx_frames = []\<rparr>)"
proof -
  let ?s = "\<lparr>mx_store = macro_store, mx_scope = 0, mx_frames = []\<rparr>"
    and ?mc = "example_macro [example_param]
      [BinaryOpExpr BAdd (LiteralExpr 8640) (LiteralExpr 8640), UnaryExpr UNot (LiteralExpr 8640)]"
  have "IsMacroCall (LiteralExpr 8576) ?s = Inr (Some 8704)" "macro_at 8704 macro_store = Inr ?mc"
    by (simp_all add: macro_simps)
  moreover have "\<forall>e\<in>set (mc_body ?mc). (blind e \<or>
      template (?s\<lparr>mx_frames := zip (map arg_name (mc_args ?mc)) [LiteralExpr 4176] # mx_frames ?s\<rparr>) e) \<and> size e < 3"
    by (simp add: macro_simps)
  moreover have "substituted (argument_of (mc_args ?mc) [LiteralExpr 4176] macro_store)
      (BinaryOpExpr BAdd (LiteralExpr 8640) (LiteralExpr 8640)) = BinaryOpExpr BAdd (LiteralExpr 4176) (LiteralExpr 4176)"
    by (simp add: argument_of_def macro_simps)
  ultimately show ?thesis
    using macro_call_substitutes [of "LiteralExpr 8576" ?s 8704 ?mc "[LiteralExpr 4176]" 3]
    by (simp add: example_macro_def example_param_def eval_nat_numeral)
qed

theorem recursive_macro_never_ends_witness:
  "\<forall>n. ExpandAll_lambda n 8512 0 (example_runtime\<lparr>rt_store := macro_store\<rparr>) = Inl OutOfFuel"
proof
  fix n
  let ?mc = "example_macro [example_param] [CallProcExpr (LiteralExpr 8192) [LiteralExpr 8640]]"
    and ?lm = "empty_lambda\<lparr>lm_body := [CallProcExpr (LiteralExpr 8192) [LiteralExpr 4176]]\<rparr>"
    and ?rt = "example_runtime\<lparr>rt_store := macro_store\<rparr>"
  have at: "lambda_at 8512 (rt_store ?rt) = Inr ?lm" "macro_at 8448 (rt_store ?rt) = Inr ?mc"
    and name: "literal_name (LiteralExpr 8192) (rt_store ?rt) = Inr (Some ''f'')"
    by (simp_all add: lambda_at_def macro_simps)
  have call: "IsMacroCall (LiteralExpr 8192) (expander_in macro_store 0) = Inr (Some 8448)"
    by (simp add: expander_in_def LocalScope_New_def new_LocalScope_def macro_simps)
  have push: "expander_PushScope (case lm_scope ?lm of None \<Rightarrow> [] | Some i \<Rightarrow> [i])
      \<lparr>mx_store = rt_store ?rt, mx_scope = 0, mx_frames = []\<rparr> = Inr ((), expander_in macro_store 0)"
    using PushScope_expander_in by (simp add: empty_lambda_def)
  show "ExpandAll_lambda n 8512 0 ?rt = Inl OutOfFuel"
    by (rule recursive_macro_never_ends [where as = "[LiteralExpr 4176]" and bs = "[LiteralExpr 8640]" and es = "[]"
          and fs = "[]", OF at(1) _ push call name at(2)])
      (simp_all add: example_macro_def example_param_def takes_args_def)
qed

end
