(* ===== verification/FlowGraph.thy ===== *)
theory FlowGraph
  imports Constants
begin

text \<open>
  The instructions of the flow graph (\<open>gel/instruction.h\<close>, \<open>gel/instruction.cc\<close>), the state of
  the flow graph builder and the operations of its visitors on it
  (\<open>gel/flow_graph_builder.h\<close>). Instructions are numbered in the order they are made and refer to
  each other by number; \<open>None\<close> is the null pointer.
\<close>

section \<open>Instructions\<close>

datatype condition = IfTrue | IfNotTrue | IfEqual | IfNotEqual

text \<open>Entries carry the number of their block. A store names the local variable by its number.\<close>

datatype (plugins only: code size) ir_instr =
    ConstantInstr uword
  | UnaryOpInstr unary_op nat
  | BinaryOpInstr binary_op nat nat
  | StoreLocalInstr nat nat
  | LoadLocalInstr nat
  | GraphEntryInstr nat
  | TargetEntryInstr nat
  | JoinEntryInstr nat
  | LoadFieldInstr nat uword
  | StoreFieldInstr uword nat nat
  | LookupInstr nat
  | InvokeInstr nat uword
  | InvokeDynamicInstr nat uword
  | InvokeNativeInstr nat uword
  | ReturnInstr "nat option"
  | BranchInstr condition nat "nat option" nat
  | GotoInstr nat
  | ThrowInstr nat
  | InstanceOfInstr nat uword bool
  | CastInstr nat uword
  | NewInstr uword uword

definition IsConstantInstr :: "ir_instr \<Rightarrow> bool" where
  "IsConstantInstr x = (case x of ConstantInstr _ \<Rightarrow> True | _ \<Rightarrow> False)"

definition IsEntryInstr :: "ir_instr \<Rightarrow> bool" where
  "IsEntryInstr x =
    (case x of GraphEntryInstr _ \<Rightarrow> True | TargetEntryInstr _ \<Rightarrow> True | JoinEntryInstr _ \<Rightarrow> True | _ \<Rightarrow> False)"

definition IsJoinEntryInstr :: "ir_instr \<Rightarrow> bool" where
  "IsJoinEntryInstr x = (case x of JoinEntryInstr _ \<Rightarrow> True | _ \<Rightarrow> False)"

definition IsReturnInstr :: "ir_instr \<Rightarrow> bool" where
  "IsReturnInstr x = (case x of ReturnInstr _ \<Rightarrow> True | _ \<Rightarrow> False)"

text \<open>The subclasses of \<open>ir::Definition\<close>.\<close>

definition IsDefinition :: "ir_instr \<Rightarrow> bool" where
  "IsDefinition x =
    (case x of
       StoreLocalInstr _ _ \<Rightarrow> False | ThrowInstr _ \<Rightarrow> False | BranchInstr _ _ _ _ \<Rightarrow> False
     | _ \<Rightarrow> \<not> IsEntryInstr x)"

section \<open>The state of a builder\<close>

text \<open>A visitor collects a fragment, the instructions from its entry to its exit; the visitor for
  values also has the definition of the value. The \<open>rx\<close> visitor has the variable of the source.\<close>

datatype visitor_kind = ForEffect | ForValue | ForRx nat

record visitor =
  vs_kind :: visitor_kind
  vs_entry :: "nat option"
  vs_exit :: "nat option"
  vs_value :: "nat option"

definition new_visitor :: "visitor_kind \<Rightarrow> visitor" where
  "new_visitor k = \<lparr>vs_kind = k, vs_entry = None, vs_exit = None, vs_value = None\<rparr>"

record build =
  bd_store :: store
  bd_scope :: "nat option"
  bd_block :: "nat option"
  bd_num_blocks :: nat
  bd_instrs :: "ir_instr list"
  bd_next :: "nat \<Rightarrow> nat option"
  bd_previous :: "nat \<Rightarrow> nat option"
  bd_dominator :: "nat \<Rightarrow> nat option"
  bd_dominated :: "nat \<Rightarrow> nat list"
  bd_visitor :: visitor

type_synonym 'a bop = "(build, 'a) op_on"

definition new_FlowGraphBuilder :: "nat \<Rightarrow> store \<Rightarrow> build" where
  "new_FlowGraphBuilder scope st =
    \<lparr>bd_store = st, bd_scope = Some scope, bd_block = None, bd_num_blocks = 0, bd_instrs = [],
     bd_next = (\<lambda>_. None), bd_previous = (\<lambda>_. None), bd_dominator = (\<lambda>_. None),
     bd_dominated = (\<lambda>_. []), bd_visitor = new_visitor ForValue\<rparr>"

definition on_bstore :: "'a sop \<Rightarrow> 'a bop" where
  "on_bstore m = on_part bd_store (\<lambda>st b. b\<lparr>bd_store := st\<rparr>) m"

definition on_bscopes :: "(scopes \<Rightarrow> ('a \<times> scopes) res) \<Rightarrow> 'a bop" where
  "on_bscopes m = on_bstore (on_part st_scopes (\<lambda>sc st. st\<lparr>st_scopes := sc\<rparr>) m)"

definition bstored :: "(store \<Rightarrow> 'a res) \<Rightarrow> 'a bop" where
  "bstored f = reads (\<lambda>b. f (bd_store b))"

definition new_instr :: "ir_instr \<Rightarrow> nat bop" where
  "new_instr x = (\<lambda>b. Inr (length (bd_instrs b), b\<lparr>bd_instrs := bd_instrs b @ [x]\<rparr>))"

definition instr_at :: "nat \<Rightarrow> build \<Rightarrow> ir_instr res" where
  "instr_at i b = guardr UndefinedBehaviour (i < length (bd_instrs b)) (Inr (bd_instrs b ! i))"

text \<open>A definition that must be there: the assertions of the \<open>New\<close> functions.\<close>

definition given :: "nat option \<Rightarrow> nat bop" where
  "given d = (case d of None \<Rightarrow> fails AssertFailed | Some i \<Rightarrow> ret i)"

section \<open>Chains\<close>

definition Link :: "nat option \<Rightarrow> nat \<Rightarrow> unit bop" where
  "Link lhs rhs =
    (case lhs of
       None \<Rightarrow> fails AssertFailed
     | Some l \<Rightarrow> modifies (\<lambda>b. b\<lparr>bd_next := (bd_next b)(l := Some rhs),
                             bd_previous := (bd_previous b)(rhs := Some l)\<rparr>))"

text \<open>\<open>Instruction::Append\<close>: at the end of the chain; on a cycle it never comes back. A chain
  without a cycle has fewer links than there are instructions.\<close>

fun append_from :: "nat \<Rightarrow> nat \<Rightarrow> nat \<Rightarrow> unit bop" where
  "append_from 0 i instr = fails OutOfFuel"
| "append_from (Suc n) i instr =
    sbind (asks (\<lambda>b. bd_next b i)) (\<lambda>next.
    case next of Some j \<Rightarrow> append_from n j instr | None \<Rightarrow> Link (Some i) instr)"

definition instr_Append :: "nat \<Rightarrow> nat \<Rightarrow> unit bop" where
  "instr_Append i instr = sbind (asks (\<lambda>b. length (bd_instrs b))) (\<lambda>n. append_from n i instr)"

definition AddDominated :: "nat \<Rightarrow> nat \<Rightarrow> unit bop" where
  "AddDominated block instr =
    modifies (\<lambda>b. b\<lparr>bd_dominator := (bd_dominator b)(instr := Some block),
                   bd_dominated := (bd_dominated b)(block := bd_dominated b block @ [instr])\<rparr>)"

text \<open>\<open>GetOwner()->GetCurrentBlock()->AddDominated\<close>.\<close>

definition dominate :: "nat \<Rightarrow> unit bop" where
  "dominate instr =
    sbind (asks bd_block) (\<lambda>blk.
    case blk of None \<Rightarrow> fails UndefinedBehaviour | Some i \<Rightarrow> AddDominated i instr)"

definition GetNextBlockId :: "nat bop" where
  "GetNextBlockId =
    sbind (asks bd_num_blocks) (\<lambda>n. sthen (modifies (\<lambda>b. b\<lparr>bd_num_blocks := n + 1\<rparr>)) (ret n))"

definition new_target :: "nat bop" where
  "new_target = sbind GetNextBlockId (\<lambda>n. new_instr (TargetEntryInstr n))"

definition new_join :: "nat bop" where
  "new_join = sbind GetNextBlockId (\<lambda>n. new_instr (JoinEntryInstr n))"

section \<open>Visitors\<close>

definition vis_IsEmpty :: "visitor \<Rightarrow> bool" where
  "vis_IsEmpty v = (vs_entry v = None)"

definition vis_IsOpen :: "visitor \<Rightarrow> bool" where
  "vis_IsOpen v = (vis_IsEmpty v \<or> vs_exit v \<noteq> None)"

definition set_entry :: "nat option \<Rightarrow> unit bop" where
  "set_entry i = modifies (\<lambda>b. b\<lparr>bd_visitor := (bd_visitor b)\<lparr>vs_entry := i\<rparr>\<rparr>)"

definition set_exit :: "nat option \<Rightarrow> unit bop" where
  "set_exit i = modifies (\<lambda>b. b\<lparr>bd_visitor := (bd_visitor b)\<lparr>vs_exit := i\<rparr>\<rparr>)"

definition set_value :: "nat option \<Rightarrow> unit bop" where
  "set_value i = modifies (\<lambda>b. b\<lparr>bd_visitor := (bd_visitor b)\<lparr>vs_value := i\<rparr>\<rparr>)"

definition Add :: "nat \<Rightarrow> unit bop" where
  "Add instr =
    sbind (asks bd_visitor) (\<lambda>v.
    if vis_IsEmpty v then sthen (set_entry (Some instr)) (set_exit (Some instr))
    else sthen (Link (vs_exit v) instr) (set_exit (Some instr)))"

definition Do :: "nat \<Rightarrow> unit bop" where
  "Do defn =
    sbind (asks bd_visitor) (\<lambda>v.
    sthen (if vis_IsEmpty v then set_entry (Some defn) else Link (vs_exit v) defn) (set_exit (Some defn)))"

definition Bind_defn :: "nat \<Rightarrow> nat bop" where
  "Bind_defn defn =
    sbind (asks bd_visitor) (\<lambda>v.
    sthen (if vis_IsEmpty v then set_entry (Some defn) else Link (vs_exit v) defn)
      (sthen (set_exit (Some defn)) (ret defn)))"

definition Append :: "visitor \<Rightarrow> unit bop" where
  "Append rhs =
    (case vs_entry rhs of
       None \<Rightarrow> ret ()
     | Some entry \<Rightarrow>
         sbind (asks bd_visitor) (\<lambda>v.
         sthen (if vis_IsEmpty v then set_entry (Some entry) else Link (vs_exit v) entry)
           (set_exit (vs_exit rhs))))"

text \<open>A constant is dropped by a visitor that is not for values.\<close>

definition ReturnDefinition :: "nat \<Rightarrow> unit bop" where
  "ReturnDefinition defn =
    sbind (asks (\<lambda>b. vs_kind (bd_visitor b))) (\<lambda>k.
    if k = ForValue then sbind (Bind_defn defn) (\<lambda>i. set_value (Some i))
    else sbind (reads (instr_at defn)) (\<lambda>x. if IsConstantInstr x then ret () else Do defn))"

definition AppendFragment :: "nat \<Rightarrow> visitor \<Rightarrow> unit bop" where
  "AppendFragment entry vis =
    (case vs_entry vis of None \<Rightarrow> ret () | Some i \<Rightarrow> instr_Append entry i)"

definition CreateReturnForExit :: "nat \<Rightarrow> nat bop" where
  "CreateReturnForExit exit =
    sbind (reads (instr_at exit)) (\<lambda>x.
    new_instr (ReturnInstr (if IsDefinition x then Some exit else None)))"

definition AddImplicitReturn :: "unit bop" where
  "AddImplicitReturn =
    sbind (asks (\<lambda>b. vs_exit (bd_visitor b))) (\<lambda>exit.
    case exit of
      None \<Rightarrow> ret ()
    | Some i \<Rightarrow>
        sbind (reads (instr_at i)) (\<lambda>x.
        if IsReturnInstr x then ret () else sbind (CreateReturnForExit i) Add))"

text \<open>Running a visitor of its own inside a visit: its answer and the visitor afterwards.\<close>

definition visiting :: "visitor_kind \<Rightarrow> bool bop \<Rightarrow> (bool \<times> visitor) bop" where
  "visiting k m = (\<lambda>b.
    rbind (m (b\<lparr>bd_visitor := new_visitor k\<rparr>)) (\<lambda>(ok, b').
    Inr ((ok, bd_visitor b'), b'\<lparr>bd_visitor := bd_visitor b\<rparr>)))"

definition visitor_open :: "bool bop" where
  "visitor_open = asks (\<lambda>b. vis_IsOpen (bd_visitor b))"

section \<open>Scopes of a builder\<close>

definition builder_scope :: "nat bop" where
  "builder_scope =
    sbind (asks bd_scope) (\<lambda>s. case s of None \<Rightarrow> fails UndefinedBehaviour | Some i \<Rightarrow> ret i)"

definition builder_PushScope :: "nat bop" where
  "builder_PushScope =
    sbind (asks bd_scope) (\<lambda>p.
    sbind (on_bscopes (\<lambda>sc. Inr (LocalScope_New p sc))) (\<lambda>i.
    sthen (modifies (\<lambda>b. b\<lparr>bd_scope := Some i\<rparr>)) (ret i)))"

definition builder_PushScope_union :: "nat list \<Rightarrow> nat bop" where
  "builder_PushScope_union scopes =
    sbind (asks bd_scope) (\<lambda>p.
    sbind (on_bscopes (scope_Union scopes p)) (\<lambda>i.
    sthen (modifies (\<lambda>b. b\<lparr>bd_scope := Some i\<rparr>)) (ret i)))"

text \<open>\<open>SetScope\<close> refuses the null pointer: the outermost scope cannot be popped.\<close>

definition builder_PopScope :: "unit bop" where
  "builder_PopScope =
    sbind (asks bd_scope) (\<lambda>s.
    case s of
      None \<Rightarrow> fails AssertFailed
    | Some i \<Rightarrow>
        sbind (bstored (\<lambda>st. get_scope (st_scopes st) i)) (\<lambda>sc.
        sthen (sassert (sc_parent sc \<noteq> None)) (modifies (\<lambda>b. b\<lparr>bd_scope := sc_parent sc\<rparr>))))"

definition builder_Lookup :: "nat \<Rightarrow> string \<Rightarrow> nat option bop" where
  "builder_Lookup scope name = bstored (\<lambda>st. Lookup (st_scopes st) scope name True)"

end
