(* ===== verification/FlowGraphBuilder.thy ===== *)
theory FlowGraphBuilder
  imports FlowGraph
begin

text \<open>
  The flow graph builder (\<open>gel/flow_graph_builder.cc\<close>): one operation per visit of an expression
  class, on the state of theory \<open>FlowGraph\<close>. \<open>accept\<close>, the virtual call on a child, is an
  argument of the visits; \<open>Accept\<close> closes the knot, with the depth of the expression as fuel.
  Log messages are left out; where the code logs and answers false, so does the operation.
\<close>

section \<open>What the builder reads from the rest of the program\<close>

text \<open>The flag \<open>pedantic\<close>, the runtime's scope, the native procedure \<open>list\<close>, the scope of the
  \<open>rx\<close> procedures and the symbols of the native procedures the builder knows.\<close>

record builder_env =
  be_world :: world
  be_fuel :: nat
  be_pedantic :: bool
  be_runtime_scope :: "nat option"
  be_list :: uword
  be_rx_scope :: nat
  be_publish_subject :: uword
  be_replay_subject :: uword
  be_subscribe :: uword
  be_complete :: uword

abbreviation be_machine :: "builder_env \<Rightarrow> machine" where
  "be_machine E \<equiv> w_machine (be_world E)"

type_synonym accept = "expr \<Rightarrow> bool bop"

definition is_constant :: "builder_env \<Rightarrow> expr \<Rightarrow> bool bop" where
  "is_constant E e = bstored (IsConstantExpr (be_runtime_scope E) e)"

definition constant_value :: "builder_env \<Rightarrow> expr \<Rightarrow> uword bop" where
  "constant_value E e =
    sbind builder_scope (\<lambda>scope.
    on_bstore (EvalToConstant (be_fuel E) (be_world E) (be_runtime_scope E) scope e))"

definition new_constant :: "uword \<Rightarrow> nat bop" where
  "new_constant v = sthen (sassert (v \<noteq> 0)) (new_instr (ConstantInstr v))"

definition value_of :: "accept \<Rightarrow> expr \<Rightarrow> (bool \<times> visitor) bop" where
  "value_of accept e = visiting ForValue (accept e)"

definition effect_of :: "accept \<Rightarrow> expr \<Rightarrow> (bool \<times> visitor) bop" where
  "effect_of accept e = visiting ForEffect (accept e)"

text \<open>A value that is visited and appended; without it the program ends.\<close>

definition fatal_value :: "accept \<Rightarrow> expr \<Rightarrow> visitor bop" where
  "fatal_value accept e =
    sbind (value_of accept e) (\<lambda>(ok, v).
    if ok then sthen (Append v) (ret v) else fails LogFatal)"

section \<open>Calls\<close>

definition AddInstanceOf :: "nat option \<Rightarrow> uword \<Rightarrow> unit bop" where
  "AddInstanceOf defn cls =
    sbind (given defn) (\<lambda>d.
    sthen (sassert (cls \<noteq> 0)) (sbind (new_instr (InstanceOfInstr d cls True)) Add))"

text \<open>The object of a constant instruction.\<close>

definition constant_object :: "nat \<Rightarrow> obj option bop" where
  "constant_object defn =
    sbind (reads (instr_at defn)) (\<lambda>x.
    case x of
      ConstantInstr v \<Rightarrow> sthen (sassert (v \<noteq> 0)) (sbind (bstored (obj_at v)) (\<lambda>y. ret (Some y)))
    | _ \<Rightarrow> ret None)"

definition IsNativeCall :: "nat \<Rightarrow> bool bop" where
  "IsNativeCall defn =
    sbind (constant_object defn) (\<lambda>x. ret (case x of Some (ONative _) \<Rightarrow> True | _ \<Rightarrow> False))"

definition IsLambdaCall :: "nat \<Rightarrow> bool bop" where
  "IsLambdaCall defn =
    sbind (constant_object defn) (\<lambda>x. ret (case x of Some (OLambda _) \<Rightarrow> True | _ \<Rightarrow> False))"

definition class_of :: "builder_env \<Rightarrow> kind \<Rightarrow> uword bop" where
  "class_of E k = on_bstore (GetClass k)"

definition CreateCallFor :: "builder_env \<Rightarrow> nat \<Rightarrow> uword \<Rightarrow> nat bop" where
  "CreateCallFor E defn num_args =
    sbind (IsNativeCall defn) (\<lambda>native.
    if native then new_instr (InvokeNativeInstr defn num_args)
    else sbind (IsLambdaCall defn) (\<lambda>lambda.
      if lambda then new_instr (InvokeInstr defn num_args)
      else
        sthen (Do defn)
          (sthen (if be_pedantic E then sbind (class_of E KSymbol) (AddInstanceOf (Some defn)) else ret ())
            (sbind (new_instr (LookupInstr defn)) (\<lambda>i.
             sbind (Bind_defn i) (\<lambda>lookup.
             new_instr (InvokeDynamicInstr lookup num_args)))))))"

definition is_invoke :: "ir_instr \<Rightarrow> bool" where
  "is_invoke x = (case x of InvokeNativeInstr _ _ \<Rightarrow> True | InvokeInstr _ _ \<Rightarrow> True | _ \<Rightarrow> False)"

definition ReturnCallTo :: "builder_env \<Rightarrow> nat \<Rightarrow> uword \<Rightarrow> bool bop" where
  "ReturnCallTo E defn num_args =
    sbind (CreateCallFor E defn num_args) (\<lambda>invoke.
    sbind (reads (instr_at invoke)) (\<lambda>x.
    sthen (if be_pedantic E \<and> \<not> is_invoke x
           then sbind (class_of E KProcedure) (AddInstanceOf (Some defn)) else ret ())
      (sthen (ReturnDefinition invoke) (ret True))))"

definition ReturnCallTo_procedure :: "builder_env \<Rightarrow> uword \<Rightarrow> uword \<Rightarrow> bool bop" where
  "ReturnCallTo_procedure E target num_args =
    sthen (sassert (target \<noteq> 0))
      (sbind (new_constant target) (\<lambda>defn. ReturnCallTo E defn num_args))"

text \<open>The arguments of a call, in order; one that cannot be visited is appended as far as it got.\<close>

fun append_args :: "accept \<Rightarrow> expr list \<Rightarrow> unit bop" where
  "append_args accept [] = ret ()"
| "append_args accept (a # as) =
    sbind (value_of accept a) (\<lambda>(ok, v). sthen (Append v) (append_args accept as))"

definition VisitCallProcExpr :: "builder_env \<Rightarrow> accept \<Rightarrow> expr \<Rightarrow> expr list \<Rightarrow> bool bop" where
  "VisitCallProcExpr E accept target args =
    sthen (append_args accept args)
      (sbind (value_of accept target) (\<lambda>(ok, v).
       if \<not> ok then ret False
       else sbind (given (vs_value v)) (\<lambda>d. ReturnCallTo E d (of_nat (length args)))))"

section \<open>Branches\<close>

text \<open>The key and the actions of a clause.\<close>

definition clause_parts :: "expr \<Rightarrow> (expr \<times> expr list) bop" where
  "clause_parts c = (case c of ClauseExpr k as \<Rightarrow> ret (k, as) | _ \<Rightarrow> fails UndefinedBehaviour)"

definition case_test :: "accept \<Rightarrow> expr \<Rightarrow> expr \<Rightarrow> visitor \<Rightarrow> nat \<Rightarrow> bool bop" where
  "case_test accept key clause_key for_clause join =
    sbind (accept key) (\<lambda>ok.
    if \<not> ok then ret False
    else sbind (accept clause_key) (\<lambda>ok'.
      if \<not> ok' then ret False
      else sbind (given (vs_entry for_clause)) (\<lambda>target.
        sbind (reads (instr_at target)) (\<lambda>x.
        sthen (sassert (IsEntryInstr x))
          (sbind (asks (\<lambda>b. vs_value (bd_visitor b))) (\<lambda>value.
           sbind (given value) (\<lambda>d.
           sbind (new_instr (BinaryOpInstr BEquals d d)) (\<lambda>cmp.
           sthen (Add cmp)
             (sbind (new_instr (BranchInstr IfTrue target None join)) (\<lambda>branch.
              sthen (Add branch) (ret True)))))))))))"

fun case_clauses :: "accept \<Rightarrow> expr \<Rightarrow> expr list \<Rightarrow> nat \<Rightarrow> bool bop" where
  "case_clauses accept key [] join = ret True"
| "case_clauses accept key (c # cs) join =
    sbind (visiting ForEffect
      (sbind (accept c) (\<lambda>ok.
       if \<not> ok then ret False
       else sbind (new_instr (GotoInstr join)) (\<lambda>g. sthen (Add g) (ret True))))) (\<lambda>(ok, for_clause).
    if \<not> ok then ret False
    else sbind (clause_parts c) (\<lambda>(clause_key, actions).
      sbind (visiting ForValue (case_test accept key clause_key for_clause join)) (\<lambda>(ok', for_test).
      if \<not> ok' then ret False
      else
        sthen (Append for_test)
          (sbind (given (vs_entry for_clause)) (\<lambda>target.
           sthen (dominate target) (case_clauses accept key cs join))))))"

definition VisitCaseExpr :: "accept \<Rightarrow> expr \<Rightarrow> expr list \<Rightarrow> bool bop" where
  "VisitCaseExpr accept key clauses =
    sbind new_join (\<lambda>join.
    sbind (case_clauses accept key clauses join) (\<lambda>ok.
    if \<not> ok then ret False
    else sthen (set_exit (Some join)) (sthen (dominate join) (ret True))))"

fun clause_actions :: "accept \<Rightarrow> nat \<Rightarrow> expr list \<Rightarrow> bool bop" where
  "clause_actions accept target [] = ret True"
| "clause_actions accept target (a # as) =
    sbind (visiting ForEffect
      (sbind (accept a) (\<lambda>ok.
       if \<not> ok then ret False
       else sthen (if as = [] then AddImplicitReturn else ret ()) (ret True)))) (\<lambda>(ok, for_action).
    if \<not> ok then ret False
    else
      sthen (AppendFragment target for_action)
        (sthen (set_exit (vs_exit for_action)) (clause_actions accept target as)))"

definition VisitClauseExpr :: "accept \<Rightarrow> expr list \<Rightarrow> bool bop" where
  "VisitClauseExpr accept actions =
    sbind new_target (\<lambda>target.
    sthen (Add target)
      (sbind (clause_actions accept target actions) (\<lambda>ok.
       if \<not> ok then ret False else sthen (dominate target) (ret True))))"

fun append_actions :: "visitor_kind \<Rightarrow> accept \<Rightarrow> nat \<Rightarrow> expr list \<Rightarrow> bool bop" where
  "append_actions k accept target [] = ret True"
| "append_actions k accept target (a # as) =
    sbind (visiting k (accept a)) (\<lambda>(ok, v).
    if \<not> ok then ret False
    else sthen (AppendFragment target v) (append_actions k accept target as))"

definition goto_join :: "nat \<Rightarrow> nat \<Rightarrow> unit bop" where
  "goto_join target join = sbind (new_instr (GotoInstr join)) (instr_Append target)"

definition VisitWhenExpr :: "accept \<Rightarrow> expr \<Rightarrow> expr list \<Rightarrow> bool bop" where
  "VisitWhenExpr accept test actions =
    sbind new_join (\<lambda>join.
    sbind new_target (\<lambda>conseq.
    sbind (append_actions ForEffect accept conseq actions) (\<lambda>ok.
    if \<not> ok then ret False
    else
      sthen (goto_join conseq join)
        (sthen (dominate conseq)
          (sbind (value_of accept test) (\<lambda>(ok', for_test).
           if \<not> ok' then ret False
           else
             sthen (Append for_test)
               (sbind (new_instr (BranchInstr IfTrue conseq None join)) (\<lambda>branch.
                sthen (Add branch)
                  (sthen (set_exit (Some join)) (sthen (dominate join) (ret True)))))))))))"

fun accept_all :: "accept \<Rightarrow> expr list \<Rightarrow> bool bop" where
  "accept_all accept [] = ret True"
| "accept_all accept (e # es) =
    sbind (accept e) (\<lambda>ok. if \<not> ok then ret False else accept_all accept es)"

definition VisitWhileExpr :: "accept \<Rightarrow> expr \<Rightarrow> expr list \<Rightarrow> bool bop" where
  "VisitWhileExpr accept test body =
    sbind new_target (\<lambda>target.
    sthen (Add target)
      (sbind new_target (\<lambda>body_target.
       sbind new_join (\<lambda>join.
       sbind (value_of accept test) (\<lambda>(ok, for_test).
       if \<not> ok then ret False
       else
         sthen (AppendFragment target for_test)
           (sbind (new_instr (BranchInstr IfTrue body_target None join)) (\<lambda>branch.
            sthen (instr_Append target branch)
              (sbind (visiting ForEffect (accept_all accept body)) (\<lambda>(ok', for_body).
               if \<not> ok' then ret False
               else
                 sthen (AppendFragment body_target for_body)
                   (sthen (goto_join body_target target)
                     (sthen (set_exit (Some join))
                       (sthen (dominate target) (sthen (dominate join) (ret True))))))))))))))"

text \<open>The branch of a clause of \<open>cond\<close>: on equality when the key compares with \<open>=\<close>.\<close>

definition cond_branch :: "accept \<Rightarrow> expr \<Rightarrow> nat \<Rightarrow> nat \<Rightarrow> nat \<Rightarrow> bool bop" where
  "cond_branch accept key target alt join =
    (case key of
       BinaryOpExpr BEquals a b \<Rightarrow>
         sbind (fatal_value accept a) (\<lambda>_.
         sbind (fatal_value accept b) (\<lambda>_.
         sbind (new_instr (BranchInstr IfEqual target (Some alt) join)) (\<lambda>branch.
         sthen (Add branch) (ret True))))
     | _ \<Rightarrow>
         sbind (value_of accept key) (\<lambda>(ok, for_test).
         if \<not> ok then ret False
         else
           sthen (Append for_test)
             (sbind (new_instr (BranchInstr IfTrue target (Some alt) join)) (\<lambda>branch.
              sthen (Add branch) (ret True)))))"

fun cond_clauses :: "accept \<Rightarrow> expr list \<Rightarrow> nat \<Rightarrow> nat \<Rightarrow> bool bop" where
  "cond_clauses accept [] alt join = ret True"
| "cond_clauses accept (c # cs) alt join =
    sbind new_target (\<lambda>target.
    sbind (clause_parts c) (\<lambda>(key, actions).
    sbind (append_actions ForValue accept target actions) (\<lambda>ok.
    if \<not> ok then ret False
    else
      sthen (goto_join target join)
        (sthen (dominate target)
          (sbind (cond_branch accept key target alt join) (\<lambda>ok'.
           if \<not> ok' then ret False else cond_clauses accept cs alt join))))))"

definition VisitCondExpr :: "accept \<Rightarrow> expr list \<Rightarrow> expr option \<Rightarrow> bool bop" where
  "VisitCondExpr accept clauses alternate =
    sbind new_target (\<lambda>alt.
    sbind new_join (\<lambda>join.
    sbind (cond_clauses accept clauses alt join) (\<lambda>ok.
    if \<not> ok then ret False
    else
      sbind
        (case alternate of
           None \<Rightarrow> ret True
         | Some e \<Rightarrow>
             sbind (value_of accept e) (\<lambda>(ok', for_alt).
             if \<not> ok' then ret False
             else sthen (AppendFragment alt for_alt)
               (sthen (goto_join alt join) (sthen (dominate alt) (ret True))))) (\<lambda>ok''.
      if \<not> ok'' then ret False
      else sthen (set_exit (Some join)) (sthen (dominate join) (ret True))))))"

section \<open>Maps, instances, literals\<close>

fun map_entries :: "accept \<Rightarrow> (uword \<times> expr) list \<Rightarrow> unit bop" where
  "map_entries accept [] = ret ()"
| "map_entries accept ((key, e) # kvs) =
    sthen (sassert (key \<noteq> 0))
      (sbind (new_constant key) (\<lambda>k.
       sthen (Do k) (sbind (fatal_value accept e) (\<lambda>_. map_entries accept kvs))))"

text \<open>The new map is bound and then returned, which binds it again: the instruction is linked to
  itself.\<close>

definition VisitNewMapExpr :: "builder_env \<Rightarrow> accept \<Rightarrow> (uword \<times> expr) list \<Rightarrow> bool bop" where
  "VisitNewMapExpr E accept kvs =
    sthen (map_entries accept kvs)
      (sbind (class_of E KMap) (\<lambda>cls.
       sthen (sassert (cls \<noteq> 0))
         (sbind (new_instr (NewInstr cls (of_nat (length kvs) * 2))) (\<lambda>i.
          sbind (Bind_defn i) (\<lambda>defn. sthen (ReturnDefinition defn) (ret True))))))"

fun new_args :: "accept \<Rightarrow> expr list \<Rightarrow> unit bop" where
  "new_args accept [] = ret ()"
| "new_args accept (a # as) =
    sbind visitor_open (\<lambda>open.
    if open then sbind (fatal_value accept a) (\<lambda>_. new_args accept as) else ret ())"

definition return_new :: "uword \<Rightarrow> nat \<Rightarrow> bool bop" where
  "return_new cls num_args =
    sthen (sassert (cls \<noteq> 0))
      (sbind (new_instr (NewInstr cls (of_nat num_args))) (\<lambda>i. sthen (ReturnDefinition i) (ret True)))"

definition return_constant :: "uword \<Rightarrow> bool bop" where
  "return_constant v = sbind (new_constant v) (\<lambda>i. sthen (ReturnDefinition i) (ret True))"

definition VisitNewExpr :: "builder_env \<Rightarrow> accept \<Rightarrow> uword \<Rightarrow> expr list \<Rightarrow> bool bop" where
  "VisitNewExpr E accept cls args =
    sbind (is_constant E (NewExpr cls args)) (\<lambda>c.
    if c then
      sbind (constant_value E (NewExpr cls args)) (\<lambda>v.
      if v = 0 then return_new cls (length args) else return_constant v)
    else sthen (new_args accept args) (return_new cls (length args)))"

definition VisitQuotedExpr :: "uword \<Rightarrow> bool bop" where
  "VisitQuotedExpr v = return_constant v"

definition VisitLiteralExpr :: "uword \<Rightarrow> bool bop" where
  "VisitLiteralExpr value =
    sthen (sassert (value \<noteq> 0))
      (sbind (bstored (obj_at value)) (\<lambda>x.
       case x of
         OSymbol s \<Rightarrow>
           sbind builder_scope (\<lambda>scope.
           sbind (builder_Lookup scope (GetFullyQualifiedName s)) (\<lambda>found.
           case found of
             None \<Rightarrow> return_constant value
           | Some l \<Rightarrow>
               sbind (bstored (\<lambda>st. get_local (st_scopes st) l)) (\<lambda>v.
               if HasValue v then return_constant (GetValue v)
               else sbind (new_instr (LoadLocalInstr l)) (\<lambda>i. sthen (ReturnDefinition i) (ret True)))))
       | _ \<Rightarrow> return_constant value))"

fun list_values :: "accept \<Rightarrow> expr list \<Rightarrow> bool bop" where
  "list_values accept [] = ret True"
| "list_values accept (e # es) =
    sbind visitor_open (\<lambda>open.
    if \<not> open then ret True
    else sbind (value_of accept e) (\<lambda>(ok, v).
      if \<not> ok then ret False
      else sthen (Append v) (sbind (given (vs_value v)) (\<lambda>_. list_values accept es))))"

definition VisitListExpr :: "builder_env \<Rightarrow> accept \<Rightarrow> expr list \<Rightarrow> bool bop" where
  "VisitListExpr E accept es =
    sbind (is_constant E (ListExpr es)) (\<lambda>c.
    if c then sbind (constant_value E (ListExpr es)) return_constant
    else sbind (list_values accept es) (\<lambda>ok.
      if \<not> ok then ret False
      else ReturnCallTo_procedure E (be_list E) (of_nat (length es))))"

section \<open>Operators and fields\<close>

definition VisitUnaryExpr :: "builder_env \<Rightarrow> accept \<Rightarrow> unary_op \<Rightarrow> expr \<Rightarrow> bool bop" where
  "VisitUnaryExpr E accept op e =
    sbind (fatal_value accept e) (\<lambda>v.
    sthen (if op \<in> {UCar, UCdr} \<and> be_pedantic E
           then sbind (class_of E KPair) (AddInstanceOf (vs_value v)) else ret ())
      (sbind (given (vs_value v)) (\<lambda>d.
       sbind (new_instr (UnaryOpInstr op d)) (\<lambda>i. sthen (ReturnDefinition i) (ret True)))))"

definition VisitBinaryOpExpr :: "accept \<Rightarrow> binary_op \<Rightarrow> expr \<Rightarrow> expr \<Rightarrow> bool bop" where
  "VisitBinaryOpExpr accept op a b =
    sbind (value_of accept a) (\<lambda>(ok, left).
    if \<not> ok then ret False
    else
      sthen (Append left)
        (sbind (value_of accept b) (\<lambda>(ok', right).
         if \<not> ok' then ret False
         else
           sthen (Append right)
             (sbind (given (vs_value left)) (\<lambda>l.
              sbind (given (vs_value right)) (\<lambda>r.
              sbind (new_instr (BinaryOpInstr op l r)) (\<lambda>i.
              sthen (ReturnDefinition i) (ret True))))))))"

definition VisitInstanceOfExpr :: "builder_env \<Rightarrow> accept \<Rightarrow> uword \<Rightarrow> expr \<Rightarrow> bool bop" where
  "VisitInstanceOfExpr E accept cls e =
    sbind (is_constant E (InstanceOfExpr cls e)) (\<lambda>c.
    if c then sbind (constant_value E (InstanceOfExpr cls e)) return_constant
    else
      sbind (fatal_value accept e) (\<lambda>v.
      sbind (new_constant cls) (\<lambda>k.
      sbind (Bind_defn k) (\<lambda>type.
      sbind (given (vs_value v)) (\<lambda>d.
      sbind (new_instr (BinaryOpInstr BInstanceOf d type)) (\<lambda>i.
      sthen (ReturnDefinition i) (ret True)))))))"

definition CreateCastTo :: "nat option \<Rightarrow> uword \<Rightarrow> nat bop" where
  "CreateCastTo value target =
    sbind (given value) (\<lambda>d. sthen (sassert (target \<noteq> 0)) (new_instr (CastInstr d target)))"

definition DoCastTo :: "nat option \<Rightarrow> uword \<Rightarrow> nat bop" where
  "DoCastTo defn expected =
    sbind (CreateCastTo defn expected) (\<lambda>i. sthen (Do i) (ret i))"

definition VisitCastExpr :: "accept \<Rightarrow> uword \<Rightarrow> expr \<Rightarrow> bool bop" where
  "VisitCastExpr accept cls e =
    sbind (fatal_value accept e) (\<lambda>v.
    sbind (CreateCastTo (vs_value v) cls) (\<lambda>i. sthen (ReturnDefinition i) (ret True)))"

definition VisitLoadFieldExpr :: "accept \<Rightarrow> expr \<Rightarrow> uword \<Rightarrow> bool bop" where
  "VisitLoadFieldExpr accept e field =
    sthen (sassert (field \<noteq> 0))
      (sbind (fatal_value accept e) (\<lambda>v.
       sbind (given (vs_value v)) (\<lambda>d.
       sbind (new_instr (LoadFieldInstr d field)) (\<lambda>i. sthen (ReturnDefinition i) (ret True)))))"

definition VisitThrowExpr :: "builder_env \<Rightarrow> accept \<Rightarrow> expr \<Rightarrow> bool bop" where
  "VisitThrowExpr E accept e =
    sbind (fatal_value accept e) (\<lambda>v.
    sthen (if be_pedantic E then sbind (class_of E KError) (AddInstanceOf (vs_value v)) else ret ())
      (sbind (given (vs_value v)) (\<lambda>d.
       sbind (new_instr (ThrowInstr d)) (\<lambda>i. sthen (Add i) (ret True)))))"

definition VisitSetFieldExpr :: "accept \<Rightarrow> uword \<Rightarrow> expr \<Rightarrow> expr \<Rightarrow> bool bop" where
  "VisitSetFieldExpr accept field inst value =
    sthen (sassert (field \<noteq> 0))
      (sbind (value_of accept value) (\<lambda>(ok, v).
       sthen (sguard LogFatal ok)
         (sbind (given (vs_value v)) (\<lambda>d.
          sthen (Append v)
            (sbind (value_of accept inst) (\<lambda>(ok', w).
             sthen (sguard LogFatal ok')
               (sbind (given (vs_value w)) (\<lambda>c.
                sthen (Append w)
                  (sbind (new_instr (StoreFieldInstr field c d)) (\<lambda>i.
                   sthen (Add i) (ret True)))))))))))"

section \<open>Variables\<close>

definition store_local :: "nat \<Rightarrow> nat \<Rightarrow> unit bop" where
  "store_local l d = sbind (new_instr (StoreLocalInstr l d)) Add"

definition VisitSetLocalExpr :: "accept \<Rightarrow> nat \<Rightarrow> expr option \<Rightarrow> bool bop" where
  "VisitSetLocalExpr accept l value =
    (case value of
       None \<Rightarrow> fails AssertFailed
     | Some e \<Rightarrow>
         sbind (fatal_value accept e) (\<lambda>v.
         sbind (given (vs_value v)) (\<lambda>d. sthen (store_local l d) (ret True))))"

definition VisitLocalDef :: "accept \<Rightarrow> nat \<Rightarrow> expr \<Rightarrow> bool bop" where
  "VisitLocalDef accept l e =
    sbind (fatal_value accept e) (\<lambda>v.
    sbind (given (vs_value v)) (\<lambda>d. sthen (store_local l d) (ret True)))"

text \<open>A call whose target is a literal equal to the symbol.\<close>

definition IsCallSymbol :: "expr \<Rightarrow> uword \<Rightarrow> store \<Rightarrow> bool res" where
  "IsCallSymbol e symbol st =
    (case e of
       CallProcExpr (LiteralExpr v) args \<Rightarrow>
         if v = 0 then Inr False
         else rbind (obj_at v st) (\<lambda>x.
           case x of OSymbol _ \<Rightarrow> symbols_equal v symbol st | _ \<Rightarrow> Inr False)
     | _ \<Rightarrow> Inr False)"

definition bind_subject :: "builder_env \<Rightarrow> kind \<Rightarrow> nat bop" where
  "bind_subject E k =
    sbind (on_bstore (w_new (be_world E) k [])) (\<lambda>v.
    sbind (new_constant v) (\<lambda>i. sthen (Add i) (ret i)))"

definition VisitBinding :: "builder_env \<Rightarrow> accept \<Rightarrow> nat \<Rightarrow> expr \<Rightarrow> bool bop" where
  "VisitBinding E accept l e =
    sbind builder_scope (\<lambda>scope.
    sbind (on_bscopes (Add_local scope l)) (\<lambda>added.
    sthen (sguard LogFatal added)
      (sbind (bstored (IsCallSymbol e (be_publish_subject E))) (\<lambda>publish.
       sbind (bstored (IsCallSymbol e (be_replay_subject E))) (\<lambda>replay.
       sbind
         (if publish then bind_subject E KPublishSubject
          else if replay then bind_subject E KReplaySubject
          else sbind (fatal_value accept e) (\<lambda>v. given (vs_value v))) (\<lambda>d.
       sthen (store_local l d) (ret True)))))))"

section \<open>Sequences\<close>

text \<open>The bindings of a \<open>let\<close> and then its body, as its children are numbered; the value of the
  last one that could be visited. Its fragment goes to the block of the \<open>let\<close>.\<close>

fun let_children :: "accept \<Rightarrow> nat \<Rightarrow> expr list \<Rightarrow> nat option \<Rightarrow> nat option bop" where
  "let_children accept target [] value = ret value"
| "let_children accept target (e # es) value =
    sbind visitor_open (\<lambda>open.
    if \<not> open then ret value
    else sbind (value_of accept e) (\<lambda>(ok, v).
      if \<not> ok then ret value
      else sthen (AppendFragment target v) (let_children accept target es (vs_value v))))"

definition VisitLetExpr :: "builder_env \<Rightarrow> accept \<Rightarrow> expr list \<Rightarrow> expr list \<Rightarrow> bool bop" where
  "VisitLetExpr E accept bindings body =
    sbind new_target (\<lambda>target.
    sbind (new_instr (GotoInstr target)) (\<lambda>g.
    sthen (Add g)
      (sbind new_join (\<lambda>join.
       sbind builder_PushScope (\<lambda>_.
       sbind (let_children accept target (bindings @ body) None) (\<lambda>value.
       sbind
         (case value of
            Some d \<Rightarrow> ret d
          | None \<Rightarrow>
              sbind (on_bstore (Null (be_machine E))) (\<lambda>z.
              sbind (new_constant z) (\<lambda>d. sthen (instr_Append target d) (ret d)))) (\<lambda>d.
       sthen (ReturnDefinition d)
         (sthen (goto_join target join)
           (sthen builder_PopScope (sthen (set_exit (Some join)) (ret True)))))))))))"

fun begin_children :: "accept \<Rightarrow> expr list \<Rightarrow> unit bop" where
  "begin_children accept [] = ret ()"
| "begin_children accept (e # es) =
    sbind visitor_open (\<lambda>open.
    if \<not> open then ret ()
    else sbind (effect_of accept e) (\<lambda>(ok, v).
      if \<not> ok then ret () else sthen (Append v) (begin_children accept es)))"

definition VisitBeginExpr :: "accept \<Rightarrow> expr list \<Rightarrow> bool bop" where
  "VisitBeginExpr accept es = sthen (begin_children accept es) (ret True)"

section \<open>Reactive expressions\<close>

text \<open>Only the visitor of a source knows the operators. The procedure is the value of the
  variable with the operator's name.\<close>

definition VisitRxOpExpr :: "builder_env \<Rightarrow> accept \<Rightarrow> uword \<Rightarrow> expr list \<Rightarrow> bool bop" where
  "VisitRxOpExpr E accept sy args =
    sbind (asks (\<lambda>b. vs_kind (bd_visitor b))) (\<lambda>k.
    case k of
      ForRx source \<Rightarrow>
        sbind (new_instr (LoadLocalInstr source)) (\<lambda>i.
        sbind (Bind_defn i) (\<lambda>_.
        sthen (new_args accept args)
          (sbind builder_scope (\<lambda>scope.
           sbind (bstored (symbol_at sy)) (\<lambda>s.
           sbind (builder_Lookup scope (GetFullyQualifiedName s)) (\<lambda>found.
           case found of
             None \<Rightarrow> fails LogFatal
           | Some l \<Rightarrow>
               sbind (bstored (\<lambda>st. get_local (st_scopes st) l)) (\<lambda>v.
               sthen (sassert (HasValue v))
                 (sbind (bstored (obj_at (GetValue v))) (\<lambda>x.
                  sthen (sassert (IsProcedure x))
                    (sbind (new_constant (GetValue v)) (\<lambda>target.
                     sbind (IsNativeCall target) (\<lambda>native.
                     sbind (IsLambdaCall target) (\<lambda>lambda.
                     if native then
                       sbind (new_instr (InvokeNativeInstr target (of_nat (length args)))) (\<lambda>c.
                       sthen (Add c) (ret True))
                     else if lambda then
                       sbind (new_instr (InvokeInstr target (of_nat (length args)))) (\<lambda>c.
                       sthen (Add c) (ret True))
                     else fails UndefinedBehaviour)))))))))))))
    | _ \<Rightarrow> fails LogFatal)"

text \<open>Whether the source is an observable by itself: a symbol of a variable, an object of the
  kind, or a cast to a class that passes the test.\<close>

definition is_source :: "(kind \<Rightarrow> bool) \<Rightarrow> (uword \<Rightarrow> store \<Rightarrow> bool res) \<Rightarrow> nat \<Rightarrow> expr \<Rightarrow> store \<Rightarrow> bool res" where
  "is_source is_kind is_class scope e st =
    (case e of
       LiteralExpr v \<Rightarrow>
         if v = 0 then Inr False
         else rbind (obj_at v st) (\<lambda>x.
           case x of
             OSymbol s \<Rightarrow>
               rbind (Lookup (st_scopes st) scope (GetFullyQualifiedName s) True) (\<lambda>found.
               Inr (found \<noteq> None))
           | _ \<Rightarrow> Inr (is_kind (kind_of x)))
     | CastExpr cls _ \<Rightarrow> is_class cls st
     | _ \<Rightarrow> Inr False)"

definition IsObservableSource :: "nat \<Rightarrow> expr \<Rightarrow> store \<Rightarrow> bool res" where
  "IsObservableSource scope e st =
    is_source (\<lambda>k. k = KObservable)
      (\<lambda>cls st. rbind (GetClass KObservable st) (\<lambda>(c, _). Class_Equals cls c st)) scope e st"

definition IsSubjectSource :: "nat \<Rightarrow> expr \<Rightarrow> store \<Rightarrow> bool res" where
  "IsSubjectSource scope e st =
    is_source (\<lambda>k. k \<in> {KSubject, KPublishSubject, KReplaySubject})
      (\<lambda>cls st. rbind (GetClass KSubject st) (\<lambda>(c, _). IsInstanceOf cls c st)) scope e st"

definition rx_ends :: "builder_env \<Rightarrow> expr \<Rightarrow> bool bop" where
  "rx_ends E e =
    (case e of
       RxOpExpr sy _ \<Rightarrow>
         sbind (bstored (symbols_equal (be_subscribe E) sy)) (\<lambda>s.
         if s then ret True else bstored (symbols_equal (be_complete E) sy))
     | _ \<Rightarrow> fails UndefinedBehaviour)"

fun rx_operators :: "builder_env \<Rightarrow> accept \<Rightarrow> nat \<Rightarrow> expr list \<Rightarrow> unit bop" where
  "rx_operators E accept source [] = ret ()"
| "rx_operators E accept source (e # es) =
    sbind visitor_open (\<lambda>open.
    if \<not> open then ret ()
    else sbind (visiting (ForRx source) (accept e)) (\<lambda>(ok, v).
      sthen (sguard LogFatal ok)
        (sthen (Append v)
          (sthen
            (if es = [] then
               sbind (rx_ends E e) (\<lambda>ends.
               sbind (if \<not> ends then new_instr (LoadLocalInstr source)
                      else sbind (on_bstore (Null (be_machine E))) new_constant) ReturnDefinition)
             else ret ())
            (rx_operators E accept source es)))))"

definition VisitLetRxExpr :: "builder_env \<Rightarrow> accept \<Rightarrow> expr \<Rightarrow> expr list \<Rightarrow> bool bop" where
  "VisitLetRxExpr E accept source ops =
    sbind (builder_PushScope_union [be_rx_scope E]) (\<lambda>scope.
    sbind (on_bstore (Symbol_New_text (be_machine E) ''.'')) (\<lambda>sy.
    sbind (bstored (symbol_at sy)) (\<lambda>s.
    sbind (on_bscopes (LocalVariable_New scope (GetFullyQualifiedName s) 0)) (\<lambda>local.
    sbind (on_bscopes (Add_local scope local)) (\<lambda>added.
    sthen (sguard LogFatal added)
      (sbind (fatal_value accept source) (\<lambda>v.
       sbind (bstored (IsObservableSource scope source)) (\<lambda>o1.
       sbind (if o1 then ret True else bstored (IsSubjectSource scope source)) (\<lambda>o2.
       sthen
         (if o2 then sbind (given (vs_value v)) (store_local local)
          else sbind (class_of E KObservable) (\<lambda>cls.
               sbind (DoCastTo (vs_value v) cls) (store_local local)))
         (sthen (rx_operators E accept local ops)
           (sthen builder_PopScope (ret True))))))))))))"

section \<open>Dispatch\<close>

definition visit :: "builder_env \<Rightarrow> accept \<Rightarrow> expr \<Rightarrow> bool bop" where
  "visit E accept e =
    (case e of
       LiteralExpr v \<Rightarrow> VisitLiteralExpr v
     | UnaryExpr op a \<Rightarrow> VisitUnaryExpr E accept op a
     | BinaryOpExpr op a b \<Rightarrow> VisitBinaryOpExpr accept op a b
     | BeginExpr es \<Rightarrow> VisitBeginExpr accept es
     | WhileExpr t es \<Rightarrow> VisitWhileExpr accept t es
     | CondExpr cs alt \<Rightarrow> VisitCondExpr accept cs alt
     | ClauseExpr k as \<Rightarrow> VisitClauseExpr accept as
     | WhenExpr t as \<Rightarrow> VisitWhenExpr accept t as
     | CaseExpr k cs \<Rightarrow> VisitCaseExpr accept k cs
     | LocalDef l a \<Rightarrow> VisitLocalDef accept l a
     | ImportExpr m \<Rightarrow> ret True
     | CallProcExpr t as \<Rightarrow> VisitCallProcExpr E accept t as
     | LoadInstanceMethodExpr c n \<Rightarrow> fails LogFatal
     | SetFieldExpr f i v \<Rightarrow> VisitSetFieldExpr accept f i v
     | SetLocalExpr l v \<Rightarrow> VisitSetLocalExpr accept l v
     | Binding l v \<Rightarrow> VisitBinding E accept l v
     | LetExpr sc bs es \<Rightarrow> VisitLetExpr E accept bs es
     | RxOpExpr sy as \<Rightarrow> VisitRxOpExpr E accept sy as
     | LetRxExpr sc src ops \<Rightarrow> VisitLetRxExpr E accept src ops
     | ListExpr es \<Rightarrow> VisitListExpr E accept es
     | ThrowExpr a \<Rightarrow> VisitThrowExpr E accept a
     | QuotedExpr v \<Rightarrow> VisitQuotedExpr v
     | InstanceOfExpr c a \<Rightarrow> VisitInstanceOfExpr E accept c a
     | CastExpr c a \<Rightarrow> VisitCastExpr accept c a
     | NewExpr c as \<Rightarrow> VisitNewExpr E accept c as
     | NewMapExpr kvs \<Rightarrow> VisitNewMapExpr E accept kvs
     | LoadFieldExpr a f \<Rightarrow> VisitLoadFieldExpr accept a f)"

text \<open>The fuel is the depth of the expression, which a visit never exceeds.\<close>

fun Accept :: "nat \<Rightarrow> builder_env \<Rightarrow> accept" where
  "Accept 0 E e = fails OutOfFuel"
| "Accept (Suc n) E e = visit E (Accept n E) e"

section \<open>Lambdas and scripts\<close>

text \<open>The value of the last expression is returned; when it has none and does not end in a join,
  null is.\<close>

fun lambda_body :: "builder_env \<Rightarrow> accept \<Rightarrow> expr list \<Rightarrow> bool bop" where
  "lambda_body E accept [] = ret True"
| "lambda_body E accept (e # es) =
    sbind visitor_open (\<lambda>open.
    if \<not> open then ret True
    else sbind (value_of accept e) (\<lambda>(ok, v).
      if \<not> ok then ret False
      else
        sthen (Append v)
          (sthen
            (if es = [] then
               sbind
                 (if vs_value v \<noteq> None then ret (vs_value v)
                  else case vs_exit v of
                    None \<Rightarrow> fails UndefinedBehaviour
                  | Some exit \<Rightarrow>
                      sbind (reads (instr_at exit)) (\<lambda>x.
                      if IsJoinEntryInstr x then ret None
                      else sbind (on_bstore (Null (be_machine E))) (\<lambda>z.
                        sbind (new_constant z) (\<lambda>c. sbind (Bind_defn c) (\<lambda>d. ret (Some d)))))) (\<lambda>value.
               sbind (new_instr (ReturnInstr value)) Add)
             else ret ())
            (lambda_body E accept es))))"

definition import_into :: "nat \<Rightarrow> nat \<Rightarrow> bool bop" where
  "import_into scope other =
    sbind (asks bd_store) (\<lambda>st. on_bscopes (Add_scope (is_native_value st) scope other))"

definition VisitLambda :: "builder_env \<Rightarrow> accept \<Rightarrow> lambda \<Rightarrow> bool bop" where
  "VisitLambda E accept lm =
    sbind builder_PushScope (\<lambda>scope.
    sthen
      (case lm_scope lm of
         None \<Rightarrow> ret ()
       | Some sc \<Rightarrow> sbind (import_into scope sc) (\<lambda>added. sguard LogFatal added))
      (sbind (lambda_body E accept (lm_body lm)) (\<lambda>ok.
       if \<not> ok then ret False else sthen builder_PopScope (ret True))))"

fun script_body :: "accept \<Rightarrow> expr list \<Rightarrow> nat option \<Rightarrow> nat option bop" where
  "script_body accept [] value = ret value"
| "script_body accept (e # es) value =
    sbind visitor_open (\<lambda>open.
    if \<not> open then ret value
    else sbind (fatal_value accept e) (\<lambda>v. script_body accept es (vs_value v)))"

definition VisitScript :: "builder_env \<Rightarrow> accept \<Rightarrow> script \<Rightarrow> bool bop" where
  "VisitScript E accept sp =
    sbind (script_body accept (sp_body sp) None) (\<lambda>value.
    sbind
      (case value of
         Some d \<Rightarrow> ret d
       | None \<Rightarrow> sbind (on_bstore (Null (be_machine E))) (\<lambda>z. sbind (new_constant z) Bind_defn)) (\<lambda>d.
    sbind (new_instr (ReturnInstr (Some d))) (\<lambda>i. sthen (Add i) (ret True))))"

text \<open>\<open>FlowGraphBuilder::Build\<close>: the entry of the graph, or null.\<close>

definition build_graph :: "bool bop \<Rightarrow> nat option bop" where
  "build_graph visit_target =
    sbind (sbind GetNextBlockId (\<lambda>n. new_instr (GraphEntryInstr n))) (\<lambda>graph_entry.
    sthen (modifies (\<lambda>b. b\<lparr>bd_block := Some graph_entry\<rparr>))
      (sbind new_target (\<lambda>target.
       sthen (modifies (\<lambda>b. b\<lparr>bd_block := Some target\<rparr>))
         (sbind (visiting ForValue visit_target) (\<lambda>(ok, v).
          if \<not> ok then ret None
          else
            sthen (AppendFragment target v)
              (sthen (instr_Append graph_entry target)
                (sthen (AddDominated graph_entry target) (ret (Some graph_entry)))))))))"

definition Build_lambda :: "nat \<Rightarrow> builder_env \<Rightarrow> lambda \<Rightarrow> nat option bop" where
  "Build_lambda fuel E lm = build_graph (VisitLambda E (Accept fuel E) lm)"

definition Build_script :: "nat \<Rightarrow> builder_env \<Rightarrow> script \<Rightarrow> nat option bop" where
  "Build_script fuel E sp = build_graph (VisitScript E (Accept fuel E) sp)"

text \<open>Running a build: the graph's entry, the instructions with their links, and the store.\<close>

definition run_build :: "nat option bop \<Rightarrow> nat \<Rightarrow> store \<Rightarrow> (nat option \<times> build) res" where
  "run_build m scope st = m (new_FlowGraphBuilder scope st)"

end
