(* ===== verification/Compiler.thy ===== *)
theory Compiler
  imports FlowGraphBuilder
begin

text \<open>
  The flow graph compiler (\<open>gel/flow_graph_compiler.h\<close>, \<open>gel/flow_graph_compiler.cc\<close>) and the
  code it emits for every instruction (\<open>gel/instruction_vm.cc\<close>, with \<open>Push\<close> of
  \<open>gel/assembler_vm.h\<close>).
\<close>

section \<open>The state of a compiler\<close>

record block_info =
  bi_id :: nat
  bi_label :: label

record compiler =
  cp_buffer :: assembler_buffer
  cp_info :: "block_info list"

type_synonym 'a cop = "(compiler, 'a) op_on"

definition new_block_info :: "nat \<Rightarrow> block_info" where
  "new_block_info i = \<lparr>bi_id = i, bi_label = new_label\<rparr>"

text \<open>The assembler's buffer is mapped at the address given.\<close>

definition new_FlowGraphCompiler :: "uword \<Rightarrow> compiler" where
  "new_FlowGraphCompiler mapped =
    \<lparr>cp_buffer = new_AssemblerBuffer mapped kDefaultInitSize, cp_info = [new_block_info 0]\<rparr>"

definition asm :: "(assembler_buffer \<Rightarrow> assembler_buffer res) \<Rightarrow> unit cop" where
  "asm f = (\<lambda>c. rbind (f (cp_buffer c)) (\<lambda>b. Inr ((), c\<lparr>cp_buffer := b\<rparr>)))"

subsection \<open>Labels of blocks\<close>

text \<open>\<open>GetBlockInfo\<close>: the vector grows when the index is greater than its size, so that the index
  equal to the size reads past its end.\<close>

definition GetBlockInfo :: "nat \<Rightarrow> unit cop" where
  "GetBlockInfo idx =
    sthen (modifies (\<lambda>c. if length (cp_info c) < idx
        then c\<lparr>cp_info := cp_info c @ replicate (idx + 1 - length (cp_info c)) (new_block_info 0)\<rparr> else c))
      (sbind (asks cp_info) (\<lambda>info.
       sthen (sguard UndefinedBehaviour (idx < length info))
         (if bi_id (info ! idx) \<noteq> idx
          then modifies (\<lambda>c. c\<lparr>cp_info := (cp_info c)[idx := new_block_info idx]\<rparr>) else ret ())))"

text \<open>A pointer to the label of a block points into the vector, which moves when it grows: the
  size at which the pointer was taken is kept with it, and a use at another size has no meaning.\<close>

type_synonym label_ptr = "nat \<times> nat"

definition GetBlockLabel :: "nat \<Rightarrow> label_ptr cop" where
  "GetBlockLabel idx =
    sthen (GetBlockInfo idx) (sbind (asks (\<lambda>c. length (cp_info c))) (\<lambda>n. ret (idx, n)))"

definition with_label :: "label_ptr \<Rightarrow> (label \<Rightarrow> assembler_buffer \<Rightarrow> (label \<times> assembler_buffer) res) \<Rightarrow> unit cop" where
  "with_label p f =
    sbind (asks cp_info) (\<lambda>info.
    sthen (sguard UndefinedBehaviour (snd p = length info \<and> fst p < length info))
      (\<lambda>c. rbind (f (bi_label (info ! fst p)) (cp_buffer c)) (\<lambda>(l, b).
         Inr ((), c\<lparr>cp_buffer := b, cp_info := info[fst p := (info ! fst p)\<lparr>bi_label := l\<rparr>]\<rparr>))))"

section \<open>The graph that is compiled\<close>

definition graph_instr :: "build \<Rightarrow> nat \<Rightarrow> ir_instr cop" where
  "graph_instr G i = (\<lambda>c. rbind (instr_at i G) (\<lambda>x. Inr (x, c)))"

definition graph_stored :: "build \<Rightarrow> (store \<Rightarrow> 'a res) \<Rightarrow> 'a cop" where
  "graph_stored G f = (\<lambda>c. rbind (f (bd_store G)) (\<lambda>x. Inr (x, c)))"

text \<open>The number of the block of an entry.\<close>

definition block_id :: "build \<Rightarrow> nat \<Rightarrow> nat cop" where
  "block_id G i =
    sbind (graph_instr G i) (\<lambda>x.
    case x of
      GraphEntryInstr n \<Rightarrow> ret n | TargetEntryInstr n \<Rightarrow> ret n | JoinEntryInstr n \<Rightarrow> ret n
    | _ \<Rightarrow> fails UndefinedBehaviour)"

definition entry_label :: "build \<Rightarrow> nat \<Rightarrow> label_ptr cop" where
  "entry_label G i = sbind (block_id G i) GetBlockLabel"

section \<open>Code of the instructions\<close>

definition asm_Push :: "build \<Rightarrow> uword \<Rightarrow> unit cop" where
  "asm_Push G v =
    sthen (sassert (v \<noteq> 0))
      (sbind (graph_stored G (IsNull v)) (\<lambda>n.
       if n then asm asm_pushn
       else sbind (graph_stored G (obj_at v)) (\<lambda>x.
         case x of
           OLong w \<Rightarrow> asm (asm_pushl w)
         | OBool b \<Rightarrow> asm (if b then asm_pusht else asm_pushf)
         | _ \<Rightarrow> asm (asm_pushq v))))"

definition local_index :: "build \<Rightarrow> nat \<Rightarrow> uword cop" where
  "local_index G l = graph_stored G (\<lambda>st. rbind (get_local (st_scopes st) l) (\<lambda>v. Inr (lv_index v)))"

definition binary_code :: "binary_op \<Rightarrow> assembler_buffer \<Rightarrow> assembler_buffer res" where
  "binary_code op =
    (case op of
       BAdd \<Rightarrow> asm_add | BSubtract \<Rightarrow> asm_sub | BMultiply \<Rightarrow> asm_mul | BDivide \<Rightarrow> asm_div
     | BModulus \<Rightarrow> asm_mod | BEquals \<Rightarrow> asm_eq | BBinaryAnd \<Rightarrow> asm_band | BBinaryOr \<Rightarrow> asm_bor
     | BGreaterThan \<Rightarrow> asm_gt | BGreaterThanEqual \<Rightarrow> asm_gte | BLessThan \<Rightarrow> asm_lt
     | BLessThanEqual \<Rightarrow> asm_lte | BCons \<Rightarrow> asm_cons | BInstanceOf \<Rightarrow> asm_instanceof)"

definition unary_code :: "unary_op \<Rightarrow> assembler_buffer \<Rightarrow> assembler_buffer res" where
  "unary_code op =
    (case op of
       UNot \<Rightarrow> asm_negate | UCar \<Rightarrow> asm_car | UCdr \<Rightarrow> asm_cdr | UNonnull \<Rightarrow> asm_isnonnull
     | UNull \<Rightarrow> asm_isnull)"

text \<open>\<open>GetProcedure\<close>: the target of a call is a constant procedure.\<close>

definition call_target :: "build \<Rightarrow> nat \<Rightarrow> (uword \<times> obj) cop" where
  "call_target G i =
    sbind (graph_instr G i) (\<lambda>x.
    case x of
      ConstantInstr v \<Rightarrow>
        sbind (graph_stored G (obj_at v)) (\<lambda>y. sthen (sassert (IsProcedure y)) (ret (v, y)))
    | _ \<Rightarrow> fails AssertFailed)"

text \<open>A branch: the blocks follow one another, each after its label is bound. \<open>chain\<close> compiles
  the instructions from one on.\<close>

definition compile_branch ::
    "build \<Rightarrow> (nat option \<Rightarrow> unit cop) \<Rightarrow> condition \<Rightarrow> nat \<Rightarrow> nat option \<Rightarrow> nat \<Rightarrow> unit cop" where
  "compile_branch G chain cond t f j =
    sbind (entry_label G t) (\<lambda>tbranch.
    sbind (case f of None \<Rightarrow> ret None | Some i \<Rightarrow> sbind (entry_label G i) (\<lambda>p. ret (Some p))) (\<lambda>fbranch.
    sbind (entry_label G j) (\<lambda>join.
    sthen
      (case cond of
         IfTrue \<Rightarrow> with_label (case fbranch of Some p \<Rightarrow> p | None \<Rightarrow> join) asm_jnz
       | IfEqual \<Rightarrow> with_label (case fbranch of Some p \<Rightarrow> p | None \<Rightarrow> join) asm_jne
       | _ \<Rightarrow> fails LogFatal)
      (sthen (with_label tbranch Bind)
        (sthen (chain (Some t))
          (sthen
            (case (fbranch, f) of
               (Some p, Some i) \<Rightarrow> sthen (with_label p Bind) (chain (Some i))
             | _ \<Rightarrow> ret ())
            (sthen (with_label join Bind) (chain (Some j)))))))))"

definition compile_instr :: "build \<Rightarrow> (nat option \<Rightarrow> unit cop) \<Rightarrow> ir_instr \<Rightarrow> unit cop" where
  "compile_instr G chain x =
    (case x of
       GraphEntryInstr _ \<Rightarrow> ret ()
     | TargetEntryInstr _ \<Rightarrow> ret ()
     | JoinEntryInstr _ \<Rightarrow> ret ()
     | ConstantInstr v \<Rightarrow> asm_Push G v
     | StoreLocalInstr l _ \<Rightarrow> sbind (local_index G l) (\<lambda>i. asm (asm_StoreLocal i))
     | LoadLocalInstr l \<Rightarrow> sbind (local_index G l) (\<lambda>i. asm (asm_LoadLocal i))
     | BinaryOpInstr op _ _ \<Rightarrow> asm (binary_code op)
     | UnaryOpInstr op _ \<Rightarrow> asm (unary_code op)
     | InvokeInstr t n \<Rightarrow>
         sbind (call_target G t) (\<lambda>(v, y).
         sthen (sassert (case y of OLambda _ \<Rightarrow> True | _ \<Rightarrow> False)) (asm (asm_invoke v n)))
     | InvokeNativeInstr t n \<Rightarrow>
         sbind (call_target G t) (\<lambda>(v, y).
         sthen (sassert (case y of ONative _ \<Rightarrow> True | _ \<Rightarrow> False)) (asm (asm_invokenative v n)))
     | InvokeDynamicInstr _ n \<Rightarrow> asm (asm_invokedynamic n)
     | LookupInstr _ \<Rightarrow> asm asm_lookup
     | ReturnInstr _ \<Rightarrow> asm asm_ret
     | LoadFieldInstr _ f \<Rightarrow> asm (asm_ldfield f)
     | StoreFieldInstr f _ _ \<Rightarrow> asm (asm_stfield f)
     | BranchInstr cond t f j \<Rightarrow> compile_branch G chain cond t f j
     | GotoInstr t \<Rightarrow> sbind (entry_label G t) (\<lambda>p. with_label p asm_jmp)
     | ThrowInstr _ \<Rightarrow> asm asm_th
     | CastInstr _ cls \<Rightarrow> asm (asm_CastTo cls)
     | NewInstr cls n \<Rightarrow> asm (asm_New cls n)
     | InstanceOfInstr _ cls _ \<Rightarrow> asm (asm_CheckInstance cls))"

text \<open>A chain of instructions; on a cycle the compiler never comes back. The fuel bounds the
  length of a chain together with the branches inside one another.\<close>

fun compile_chain :: "nat \<Rightarrow> build \<Rightarrow> nat option \<Rightarrow> unit cop" where
  "compile_chain 0 G i = fails OutOfFuel"
| "compile_chain (Suc n) G None = ret ()"
| "compile_chain (Suc n) G (Some i) =
    sbind (graph_instr G i) (\<lambda>x.
    sthen (compile_instr G (compile_chain n G) x) (compile_chain n G (bd_next G i)))"

definition AssembleFlowGraph :: "nat \<Rightarrow> build \<Rightarrow> nat option \<Rightarrow> unit cop" where
  "AssembleFlowGraph fuel G entry =
    sthen (sassert (entry \<noteq> None)) (compile_chain fuel G entry)"

section \<open>Compiling a lambda or a script\<close>

text \<open>The macro expander is an argument; so are the addresses at which the system maps the
  assembler's buffer and the code.\<close>

definition BuildFlowGraph :: "(nat \<Rightarrow> nat option bop) \<Rightarrow> nat option \<Rightarrow> nat \<Rightarrow> (nat option \<times> build) rop" where
  "BuildFlowGraph build exec_scope parent =
    sbind (on_scopes (\<lambda>sc. Inr (LocalScope_New (Some parent) sc))) (\<lambda>scope.
    sthen
      (case exec_scope of None \<Rightarrow> ret () | Some sc \<Rightarrow> sbind (import_scope scope sc) (\<lambda>_. ret ()))
      (sbind (asks rt_store) (\<lambda>st.
       sbind (reads (\<lambda>_. run_build (build scope) scope st)) (\<lambda>(entry, G).
       sthen (on_store (modifies (\<lambda>_. bd_store G)))
         (sthen (sguard LogFatal (entry \<noteq> None)) (ret (entry, G)))))))"

definition assemble_code :: "nat \<Rightarrow> uword \<Rightarrow> uword \<Rightarrow> nat option \<times> build \<Rightarrow> region rop" where
  "assemble_code fuel buffer_at code_at = (\<lambda>(entry, G) rt.
    rbind (AssembleFlowGraph fuel G entry (new_FlowGraphCompiler buffer_at)) (\<lambda>(_, c).
    rbind (Assemble code_at (cp_buffer c) (rt_code rt)) (\<lambda>(start, size, m).
    Inr (\<lparr>r_start = start, r_size = size\<rparr>, rt\<lparr>rt_code := m\<rparr>))))"

definition CompileTarget_lambda ::
    "nat \<Rightarrow> builder_env \<Rightarrow> (uword \<Rightarrow> nat \<Rightarrow> unit rop) \<Rightarrow> uword \<Rightarrow> uword \<Rightarrow> uword \<Rightarrow> nat \<Rightarrow> bool rop" where
  "CompileTarget_lambda fuel E expand buffer_at code_at a scope =
    sbind (stored (lambda_at a)) (\<lambda>lm0.
    if lm_body lm0 = [] then ret False
    else
      sthen (expand a scope)
        (sbind (stored (lambda_at a)) (\<lambda>lm.
         sbind (asks rt_scope) (\<lambda>rs.
         sbind (BuildFlowGraph (\<lambda>_. Build_lambda fuel (E\<lparr>be_runtime_scope := rs\<rparr>) lm) (lm_scope lm) scope) (\<lambda>g.
         sbind (assemble_code fuel buffer_at code_at g) (\<lambda>code.
         sthen (on_store (modifies (put_obj a (OLambda (lm\<lparr>lm_code := code\<rparr>)))))
           (ret (IsAllocated code))))))))"

definition CompileTarget_script ::
    "nat \<Rightarrow> builder_env \<Rightarrow> (uword \<Rightarrow> nat \<Rightarrow> unit rop) \<Rightarrow> uword \<Rightarrow> uword \<Rightarrow> uword \<Rightarrow> nat \<Rightarrow> bool rop" where
  "CompileTarget_script fuel E expand buffer_at code_at a scope =
    sbind (stored (script_at a)) (\<lambda>sp0.
    if sp_body sp0 = [] then ret False
    else
      sthen (expand a scope)
        (sbind (stored (script_at a)) (\<lambda>sp.
         sbind (asks rt_scope) (\<lambda>rs.
         sbind (BuildFlowGraph (\<lambda>_. Build_script fuel (E\<lparr>be_runtime_scope := rs\<rparr>) sp) (sp_scope sp) scope) (\<lambda>g.
         sbind (assemble_code fuel buffer_at code_at g) (\<lambda>code.
         sthen (on_store (modifies (put_obj a (OScript (sp\<lparr>sp_code := code\<rparr>)))))
           (ret (IsAllocated code))))))))"

text \<open>\<open>FlowGraphCompiler::Compile\<close>.\<close>

definition Compile_lambda ::
    "nat \<Rightarrow> builder_env \<Rightarrow> (uword \<Rightarrow> nat \<Rightarrow> unit rop) \<Rightarrow> uword \<Rightarrow> uword \<Rightarrow> uword \<Rightarrow> nat \<Rightarrow> bool rop" where
  "Compile_lambda fuel E expand buffer_at code_at a scope =
    (if a = 0 then ret False
     else sbind (stored (lambda_at a)) (\<lambda>lm.
       if IsAllocated (lm_code lm) then ret True
       else CompileTarget_lambda fuel E expand buffer_at code_at a scope))"

definition Compile_script ::
    "nat \<Rightarrow> builder_env \<Rightarrow> (uword \<Rightarrow> nat \<Rightarrow> unit rop) \<Rightarrow> uword \<Rightarrow> uword \<Rightarrow> uword \<Rightarrow> nat \<Rightarrow> bool rop" where
  "Compile_script fuel E expand buffer_at code_at a scope =
    (if a = 0 then ret False
     else sbind (stored (script_at a)) (\<lambda>sp.
       if IsAllocated (sp_code sp) then ret True
       else CompileTarget_script fuel E expand buffer_at code_at a scope))"

end
