(* ===== verification/ConstantsCorrect.thy ===== *)
theory ConstantsCorrect
  imports Constants InterpreterCorrect
begin

text \<open>What \<open>IsConstantExpr\<close> and \<open>EvalToConstant\<close> answer on lists, operators and sequences.\<close>

section \<open>Constant lists\<close>

lemma operator_new_not_null: "operator_new M k st = Inr (a, st') \<Longrightarrow> a \<noteq> 0"
  by (auto simp: operator_new_def op_simps res_elims split: if_splits prod.splits)

lemma new_obj_not_null: "new_obj M x st = Inr (a, st') \<Longrightarrow> a \<noteq> 0"
  by (auto simp: new_obj_def op_simps res_elims dest: operator_new_not_null)

lemma Null_not_null: "Null M st = Inr (a, st') \<Longrightarrow> a \<noteq> 0"
  by (auto simp: Null_def op_simps res_elims dest: new_obj_not_null split: if_splits)

lemma Cons_Pair_New: "a \<noteq> 0 \<Longrightarrow> b \<noteq> 0 \<Longrightarrow> Cons M a b = Pair_New M a b"
  by (rule ext) (simp add: Cons_def op_simps)

lemma sbind_ret_right: "sbind m ret = m"
  by (rule ext) (auto simp: sbind_def ret_def rbind_def split: sum.split)

lemma push_all_append: "push_all M (xs @ ys) r = sbind (push_all M xs r) (push_all M ys)"
proof (induction xs arbitrary: r)
  case (Cons x xs)
  then have "push_all M (xs @ ys) = (\<lambda>r. sbind (push_all M xs r) (push_all M ys))"
    by (rule ext)
  then show ?case by (simp add: sbind_assoc)
qed simp

lemma push_all_single: "push_all M [v] r = Pair_New M v r"
  using sbind_ret_right [of "Pair_New M v r"] by (simp add: sbind_def)

lemma push_all_not_null: "r \<noteq> 0 \<Longrightarrow> push_all M xs r st = Inr (a, st') \<Longrightarrow> a \<noteq> 0"
  by (induction xs arbitrary: r st)
    (auto simp: ret_apply sbind_apply res_elims Pair_New_def dest: new_obj_not_null)

lemma all_constant_literals [simp]: "all_constant rs (map LiteralExpr vs) st = Inr True"
  by (induction vs) simp_all

lemma eval_list_literals:
  assumes "0 \<notin> set vs" "r \<noteq> 0"
  shows "eval_list fuel W rs scope (map LiteralExpr vs) r st = push_all (w_machine W) (rev vs) r st"
  using assms(1)
proof (induction vs)
  case (Cons v vs)
  have "Cons (w_machine W) v t st' = Pair_New (w_machine W) v t st'"
    if "push_all (w_machine W) (rev vs) r st = Inr (t, st')" for t st'
    using push_all_not_null [OF assms(2) that] Cons.prems by (simp add: Cons_Pair_New)
  then show ?case
    using Cons
    by (cases "push_all (w_machine W) (rev vs) r st")
      (auto simp: push_all_append push_all_single sbind_apply reads_apply sthen_apply sguard_apply
        simp del: push_all.simps)
qed simp

text \<open>C19. A list expression of literals is constant, and its value is the list that the runtime
  itself would make of these values, in their order.\<close>

theorem constant_list_is_ToList:
  assumes "0 \<notin> set vs"
  shows "IsConstantExpr rs (ListExpr (map LiteralExpr vs)) st = Inr True \<and>
    EvalToConstant fuel W rs scope (ListExpr (map LiteralExpr vs)) st = ToList (w_machine W) vs True st"
proof -
  have "push_all M xs r st = rbind (push_all M xs r st) (\<lambda>(a, st'). sthen (sassert (a \<noteq> 0)) (ret a) st')"
    if "r \<noteq> 0" for M xs r st
    using push_all_not_null [OF that] by (cases "push_all M xs r st") (auto simp: op_simps)
  then show ?thesis
    using eval_list_literals [OF assms] Null_not_null
    by (cases "Null (w_machine W) st") (auto simp: ToList_def sbind_apply reads_apply sthen_apply sguard_apply)
qed

text \<open>No operator is ever evaluated before it is compiled: the assertion that the operands
  are atoms, which no object is, fails whenever the operands could be evaluated. And a sequence
  is taken for a constant exactly when one of its expressions is not constant.\<close>

theorem operators_never_folded:
  "EvalToConstant fuel W rs scope (BinaryOpExpr op a b) st \<noteq> Inr r \<and>
   ((\<forall>e\<in>set es. \<exists>c. IsConstantExpr rs e st = Inr c) \<longrightarrow>
     IsConstantExpr rs (BeginExpr es) st = Inr (\<exists>e\<in>set es. IsConstantExpr rs e st = Inr False))"
proof
  have "atom_at l st' \<noteq> Inr (u, st'')" for l u st' st''
    by (auto simp: atom_at_def op_simps res_elims IsAtom_def)
  then show "EvalToConstant fuel W rs scope (BinaryOpExpr op a b) st \<noteq> Inr r"
    by (cases r) (auto simp: op_elims)
  show "(\<forall>e\<in>set es. \<exists>c. IsConstantExpr rs e st = Inr c) \<longrightarrow>
     IsConstantExpr rs (BeginExpr es) st = Inr (\<exists>e\<in>set es. IsConstantExpr rs e st = Inr False)"
    by (induction es) auto
qed

theorem constant_list_is_ToList_witness:
  "EvalToConstant 9 example_world None 0 (ListExpr [LiteralExpr 4176, LiteralExpr 4208]) example_store =
    ToList example_machine [4176, 4208] True example_store"
  using constant_list_is_ToList [of "[4176, 4208]" None example_store 9 example_world 0]
  by (simp add: example_world_def)

theorem operators_never_folded_witness:
  "IsConstantExpr None (BeginExpr [LiteralExpr 4176, LiteralExpr 4208]) example_store = Inr False"
  using operators_never_folded [of 9 example_world None 0 BAdd "LiteralExpr 4176" "LiteralExpr 4208" example_store "(0, example_store)"
      "[LiteralExpr 4176, LiteralExpr 4208]"] by simp

end
