(* ===== verification/CompilerCorrect.thy ===== *)
theory CompilerCorrect
  imports Compiler ConstantsCorrect AssemblerCorrect
begin

text \<open>
  Correctness of the compiler. For expressions of operators and literals: the flow graph is their
  instructions in postfix order, the code is the encoding of these, and the interpreter, run on
  the code, pushes the value the expression has by a definition that knows neither stack nor code.
\<close>

section \<open>Operators and literals\<close>

text \<open>Literals that are not symbols, and the operators on such expressions.\<close>

fun computes :: "store \<Rightarrow> expr \<Rightarrow> bool" where
  "computes st (LiteralExpr v) =
    (case obj_at v st of Inr (OSymbol _) \<Rightarrow> False | Inr _ \<Rightarrow> True | Inl _ \<Rightarrow> False)"
| "computes st (UnaryExpr op a) = computes st a"
| "computes st (BinaryOpExpr op a b) = (computes st a \<and> computes st b)"
| "computes st _ = False"

fun ops :: "expr \<Rightarrow> nat" where
  "ops (UnaryExpr op a) = ops a + 1"
| "ops (BinaryOpExpr op a b) = ops a + ops b + 1"
| "ops _ = 1"

lemma ops_pos [simp]: "0 < ops e"
  by (cases e) simp_all

text \<open>The instructions of the flow graph, numbered from \<open>k\<close> on.\<close>

fun postfix :: "nat \<Rightarrow> expr \<Rightarrow> ir_instr list" where
  "postfix k (LiteralExpr v) = [ConstantInstr v]"
| "postfix k (UnaryExpr op a) = postfix k a @ [UnaryOpInstr op (k + ops a - 1)]"
| "postfix k (BinaryOpExpr op a b) =
    postfix k a @ postfix (k + ops a) b @ [BinaryOpInstr op (k + ops a - 1) (k + ops a + ops b - 1)]"
| "postfix k _ = []"

lemma length_postfix: "computes st e \<Longrightarrow> length (postfix k e) = ops e"
  by (induction st e arbitrary: k rule: computes.induct) auto

section \<open>The flow graph\<close>

definition fresh_links :: "build \<Rightarrow> bool" where
  "fresh_links b \<longleftrightarrow> (\<forall>i\<ge>length (bd_instrs b). bd_next b i = None)"

text \<open>A build that is another one and the instructions \<open>xs\<close>, linked one after the other.\<close>

definition extends_by :: "build \<Rightarrow> ir_instr list \<Rightarrow> build \<Rightarrow> bool" where
  "extends_by b xs b' \<longleftrightarrow>
    bd_store b' = bd_store b \<and> bd_scope b' = bd_scope b \<and> bd_block b' = bd_block b \<and>
    bd_num_blocks b' = bd_num_blocks b \<and> bd_instrs b' = bd_instrs b @ xs \<and>
    (\<forall>i. bd_next b' i =
      (if length (bd_instrs b) \<le> i \<and> i + 1 < length (bd_instrs b) + length xs then Some (i + 1)
       else bd_next b i))"

definition fragment :: "visitor_kind \<Rightarrow> nat \<Rightarrow> nat \<Rightarrow> visitor" where
  "fragment k i n = \<lparr>vs_kind = k, vs_entry = Some i, vs_exit = Some (i + n - 1), vs_value = Some (i + n - 1)\<rparr>"

lemma extends_by_refl: "extends_by b [] b"
  by (auto simp: extends_by_def)

lemma extends_by_fresh: "extends_by b xs b' \<Longrightarrow> fresh_links b \<Longrightarrow> fresh_links b'"
  by (auto simp: extends_by_def fresh_links_def)

text \<open>A visitor that has collected the instructions \<open>xs\<close> since the build \<open>b0\<close>.\<close>

definition collected :: "build \<Rightarrow> ir_instr list \<Rightarrow> build \<Rightarrow> bool" where
  "collected b0 xs b \<longleftrightarrow> xs \<noteq> [] \<and> extends_by b0 xs b \<and> fresh_links b0 \<and>
    bd_visitor b = \<lparr>vs_kind = ForValue, vs_entry = Some (length (bd_instrs b0)),
      vs_exit = Some (length (bd_instrs b0) + length xs - 1), vs_value = None\<rparr>"

lemma collected_first:
  assumes "bd_visitor b0 = new_visitor ForValue" "fresh_links b0" "extends_by b0 xs b"
    and "bd_visitor b = bd_visitor b0" "xs \<noteq> []"
  shows "\<exists>b'. Append (fragment k (length (bd_instrs b0)) (length xs)) b = Inr ((), b') \<and> collected b0 xs b'"
  using assms
  by (auto simp: Append_def fragment_def op_simps new_visitor_def vis_IsEmpty_def set_entry_def
      set_exit_def collected_def extends_by_def)

lemma collected_next:
  assumes "collected b0 xs b" "extends_by b ys b'" "bd_visitor b' = bd_visitor b" "ys \<noteq> []"
  shows "\<exists>b''. Append (fragment k (length (bd_instrs b)) (length ys)) b' = Inr ((), b'') \<and>
    collected b0 (xs @ ys) b''"
proof -
  let ?k = "length (bd_instrs b0)"
  have n: "length (bd_instrs b) = ?k + length xs" "0 < length xs" "0 < length ys"
    using assms by (auto simp: collected_def extends_by_def)
  have l: "\<exists>b''. Append (fragment k (length (bd_instrs b)) (length ys)) b' = Inr ((), b'') \<and>
    b'' = b'\<lparr>bd_next := (bd_next b')(?k + length xs - 1 := Some (?k + length xs)),
      bd_previous := (bd_previous b')(?k + length xs := Some (?k + length xs - 1)),
      bd_visitor := (bd_visitor b')\<lparr>vs_exit := Some (?k + length xs + length ys - 1)\<rparr>\<rparr>"
    using assms(1,3) n
    by (auto simp: Append_def fragment_def op_simps collected_def vis_IsEmpty_def Link_def set_exit_def)
  obtain m where "length xs = Suc m" using n(2) by (cases "length xs") simp_all
  with l show ?thesis
    using assms n by (auto simp: collected_def extends_by_def)
qed

lemma collected_return:
  assumes "collected b0 xs b"
  shows "\<exists>b'. sbind (new_instr x) (\<lambda>i. sthen (ReturnDefinition i) (ret True)) b = Inr (True, b') \<and>
    extends_by b0 (xs @ [x]) b' \<and> bd_visitor b' = fragment ForValue (length (bd_instrs b0)) (length xs + 1)"
proof -
  obtain m where "length xs = Suc m" using assms by (cases "length xs") (auto simp: collected_def)
  then show ?thesis
    using assms
    by (auto simp: collected_def op_simps new_instr_def ReturnDefinition_def Bind_defn_def vis_IsEmpty_def
        Link_def set_exit_def set_value_def extends_by_def fresh_links_def fragment_def)
qed

lemma return_constant_run:
  assumes "v \<noteq> 0" "bd_visitor b = new_visitor ForValue" "fresh_links b"
  shows "\<exists>b'. return_constant v b = Inr (True, b') \<and> extends_by b [ConstantInstr v] b' \<and>
    bd_visitor b' = fragment ForValue (length (bd_instrs b)) 1"
  using assms
  by (auto simp: return_constant_def new_constant_def new_instr_def ReturnDefinition_def Bind_defn_def
      set_entry_def set_exit_def set_value_def op_simps new_visitor_def vis_IsEmpty_def extends_by_def
      fragment_def fresh_links_def)

lemma value_of_run:
  assumes "\<And>b. bd_visitor b = new_visitor ForValue \<Longrightarrow> bd_store b = st \<Longrightarrow> fresh_links b \<Longrightarrow>
      \<exists>b'. accept e b = Inr (True, b') \<and> extends_by b (postfix (length (bd_instrs b)) e) b' \<and>
        bd_visitor b' = fragment ForValue (length (bd_instrs b)) (ops e)"
    and "bd_store b = st" "fresh_links b"
  shows "\<exists>b'. value_of accept e b = Inr ((True, fragment ForValue (length (bd_instrs b)) (ops e)), b') \<and>
    extends_by b (postfix (length (bd_instrs b)) e) b' \<and> bd_visitor b' = bd_visitor b"
proof -
  obtain b' where "accept e (b\<lparr>bd_visitor := new_visitor ForValue\<rparr>) = Inr (True, b')"
    "extends_by b (postfix (length (bd_instrs b)) e) b'"
    "bd_visitor b' = fragment ForValue (length (bd_instrs b)) (ops e)"
    using assms(1) [of "b\<lparr>bd_visitor := new_visitor ForValue\<rparr>"] assms(2,3)
    by (auto simp: extends_by_def fresh_links_def)
  then show ?thesis
    by (auto simp: value_of_def visiting_def extends_by_def)
qed

lemma visit_postfix:
  assumes "computes (bd_store b) e" "ops e \<le> n" "\<not> be_pedantic E"
    and "bd_visitor b = new_visitor ForValue" "fresh_links b"
  shows "\<exists>b'. Accept n E e b = Inr (True, b') \<and> extends_by b (postfix (length (bd_instrs b)) e) b' \<and>
    bd_visitor b' = fragment ForValue (length (bd_instrs b)) (ops e)"
  using assms
proof (induction e arbitrary: b n)
  case (LiteralExpr v)
  obtain m where n: "n = Suc m" using LiteralExpr.prems(2) by (cases n) simp_all
  obtain x where x: "obj_at v (bd_store b) = Inr x" "\<And>s. x \<noteq> OSymbol s"
    using LiteralExpr.prems(1) by (auto split: sum.splits obj.splits)
  have "v \<noteq> 0" using x(1) by (auto simp: obj_at_def)
  moreover from this x have "VisitLiteralExpr v b = return_constant v b"
    by (auto simp: VisitLiteralExpr_def op_simps bstored_def split: obj.split)
  ultimately show ?case
    using return_constant_run LiteralExpr.prems(4,5) by (simp add: n visit_def)
next
  case (UnaryExpr op a)
  obtain m where n: "n = Suc m" "ops a \<le> m" using UnaryExpr.prems(2) by (cases n) simp_all
  let ?st = "bd_store b" and ?k = "length (bd_instrs b)"
  have st: "computes ?st a" using UnaryExpr.prems(1) by simp
  have len: "length (postfix k a) = ops a" for k using length_postfix [OF st] .
  then have ne: "postfix k a \<noteq> []" for k using ops_pos [of a] by (metis list.size(3) less_irrefl)
  obtain b1 where v: "value_of (Accept m E) a b = Inr ((True, fragment ForValue ?k (ops a)), b1)"
    and b1: "extends_by b (postfix ?k a) b1" "bd_visitor b1 = bd_visitor b"
    using value_of_run [of ?st "Accept m E" a b] UnaryExpr.IH UnaryExpr.prems(3,5) st n(2) by auto
  obtain b2 where a: "Append (fragment ForValue ?k (ops a)) b1 = Inr ((), b2)" and c: "collected b (postfix ?k a) b2"
    using collected_first [OF UnaryExpr.prems(4,5) b1] len ne by metis
  have "visit E (Accept m E) (UnaryExpr op a) b =
    sbind (new_instr (UnaryOpInstr op (?k + ops a - 1))) (\<lambda>i. sthen (ReturnDefinition i) (ret True)) b2"
    using v a UnaryExpr.prems(3)
    by (simp add: visit_def VisitUnaryExpr_def fatal_value_def op_simps given_def fragment_def)
  then show ?case
    using collected_return [OF c] len by (auto simp: n(1))
next
  case (BinaryOpExpr op a e)
  obtain m where n: "n = Suc m" "ops a \<le> m" "ops e \<le> m" using BinaryOpExpr.prems(2) by (cases n) simp_all
  let ?st = "bd_store b" and ?k = "length (bd_instrs b)"
  have st: "computes ?st a" "computes ?st e" using BinaryOpExpr.prems(1) by simp_all
  have len: "length (postfix k a) = ops a" "length (postfix k e) = ops e" for k
    using length_postfix [OF st(1)] length_postfix [OF st(2)] by simp_all
  then have ne: "postfix k a \<noteq> []" "postfix k e \<noteq> []" for k
    using ops_pos [of a] ops_pos [of e] by (metis list.size(3) less_irrefl)+
  obtain b1 where v: "value_of (Accept m E) a b = Inr ((True, fragment ForValue ?k (ops a)), b1)"
    and b1: "extends_by b (postfix ?k a) b1" "bd_visitor b1 = bd_visitor b"
    using value_of_run [of ?st "Accept m E" a b] BinaryOpExpr.IH(1) BinaryOpExpr.prems(3,5) st(1) n(2) by auto
  obtain b2 where a: "Append (fragment ForValue ?k (ops a)) b1 = Inr ((), b2)" and c: "collected b (postfix ?k a) b2"
    using collected_first [OF BinaryOpExpr.prems(4,5) b1] len ne(1) by metis
  have b2: "bd_store b2 = ?st" "fresh_links b2" "length (bd_instrs b2) = ?k + ops a"
    using c len by (auto simp: collected_def extends_by_def fresh_links_def)
  obtain b3 where w: "value_of (Accept m E) e b2 = Inr ((True, fragment ForValue (?k + ops a) (ops e)), b3)"
    and b3: "extends_by b2 (postfix (?k + ops a) e) b3" "bd_visitor b3 = bd_visitor b2"
    using value_of_run [of ?st "Accept m E" e b2] BinaryOpExpr.IH(2) BinaryOpExpr.prems(3) st(2) n(3) b2 by auto
  obtain b4 where d: "Append (fragment ForValue (?k + ops a) (ops e)) b3 = Inr ((), b4)"
    and c': "collected b (postfix ?k a @ postfix (?k + ops a) e) b4"
    using collected_next [OF c b3] len ne(2) b2(3) by metis
  have "visit E (Accept m E) (BinaryOpExpr op a e) b =
    sbind (new_instr (BinaryOpInstr op (?k + ops a - 1) (?k + ops a + ops e - 1)))
      (\<lambda>i. sthen (ReturnDefinition i) (ret True)) b4"
    using v a w d
    by (simp add: visit_def VisitBinaryOpExpr_def op_simps given_def fragment_def)
  then show ?case
    using collected_return [OF c'] len by (auto simp: n(1) add.assoc)
qed simp_all

section \<open>The graph of a lambda\<close>

definition no_locals :: "scopes \<Rightarrow> nat option \<Rightarrow> bool" where
  "no_locals sc s = (case s of None \<Rightarrow> True | Some i \<Rightarrow> (\<exists>p. sc_map sc i = Some \<lparr>sc_parent = p, sc_locals = []\<rparr>))"

abbreviation with_scopes :: "store \<Rightarrow> scopes \<Rightarrow> store" where
  "with_scopes st sc \<equiv> st\<lparr>st_scopes := sc\<rparr>"

lemma obj_at_scopes [simp]: "obj_at v (with_scopes st sc) = obj_at v st"
  by (simp add: obj_at_def)

lemma computes_scopes [simp]: "computes (with_scopes st sc) e = computes st e"
  by (induction st e rule: computes.induct) simp_all

lemma add_return:
  assumes "collected b0 xs b"
  shows "\<exists>b'. sbind (new_instr x) Add b = Inr ((), b') \<and> extends_by b0 (xs @ [x]) b' \<and>
    vs_entry (bd_visitor b') = Some (length (bd_instrs b0))"
proof -
  obtain m where "length xs = Suc m" using assms by (cases "length xs") (auto simp: collected_def)
  then show ?thesis
    using assms
    by (auto simp: collected_def op_simps new_instr_def Add_def vis_IsEmpty_def Link_def set_exit_def
        extends_by_def fresh_links_def)
qed

lemma lambda_body_single:
  assumes "computes (bd_store b) e" "ops e \<le> n" "\<not> be_pedantic E"
    and "bd_visitor b = new_visitor ForValue" "fresh_links b"
  shows "\<exists>b'. lambda_body E (Accept n E) [e] b = Inr (True, b') \<and>
    extends_by b (postfix (length (bd_instrs b)) e @ [ReturnInstr (Some (length (bd_instrs b) + ops e - 1))]) b' \<and>
    vs_entry (bd_visitor b') = Some (length (bd_instrs b))"
proof -
  let ?k = "length (bd_instrs b)"
  have len: "length (postfix ?k e) = ops e" using length_postfix [OF assms(1)] .
  then have ne: "postfix ?k e \<noteq> []" using ops_pos [of e] by (metis list.size(3) less_irrefl)
  obtain b1 where v: "value_of (Accept n E) e b = Inr ((True, fragment ForValue ?k (ops e)), b1)"
    and b1: "extends_by b (postfix ?k e) b1" "bd_visitor b1 = bd_visitor b"
    using value_of_run [of "bd_store b" "Accept n E" e b] visit_postfix [of _ e n E] assms by auto
  obtain b2 where a: "Append (fragment ForValue ?k (ops e)) b1 = Inr ((), b2)" and c: "collected b (postfix ?k e) b2"
    using collected_first [OF assms(4,5) b1] len ne by metis
  obtain b3 where "sbind (new_instr (ReturnInstr (Some (?k + ops e - 1)))) Add b2 = Inr ((), b3)"
    "extends_by b (postfix ?k e @ [ReturnInstr (Some (?k + ops e - 1))]) b3"
    "vs_entry (bd_visitor b3) = Some ?k"
    using add_return [OF c] by blast
  then show ?thesis
    using v a assms(4)
    by (auto simp: op_simps visitor_open_def vis_IsOpen_def vis_IsEmpty_def new_visitor_def fragment_def)
qed

text \<open>Scopes are added.\<close>

definition more_scopes :: "scopes \<Rightarrow> scopes \<Rightarrow> bool" where
  "more_scopes sc sc' \<longleftrightarrow> sc_map sc \<subseteq>\<^sub>m sc_map sc' \<and> fresh_scopes sc'"

lemma more_scopes_trans: "more_scopes sc sc1 \<Longrightarrow> more_scopes sc1 sc2 \<Longrightarrow> more_scopes sc sc2"
  by (auto simp: more_scopes_def intro: map_le_trans)

lemma more_scopes_New: "fresh_scopes sc \<Longrightarrow> more_scopes sc (snd (LocalScope_New p sc))"
  by (auto simp: more_scopes_def fresh_scopes_def LocalScope_New_def new_LocalScope_def map_le_def)

lemma push_then_import:
  assumes "bd_scope b = Some p" "fresh_scopes (st_scopes (bd_store b))" "no_locals (st_scopes (bd_store b)) s"
  shows "\<exists>i b'. builder_PushScope b = Inr (i, b') \<and>
    (case s of None \<Rightarrow> ret () | Some sc \<Rightarrow> sbind (import_into i sc) (\<lambda>added. sguard LogFatal added)) b' = Inr ((), b') \<and>
    (\<exists>sc. b' = b\<lparr>bd_store := with_scopes (bd_store b) sc, bd_scope := Some i\<rparr> \<and>
      sc_map sc i = Some \<lparr>sc_parent = Some p, sc_locals = []\<rparr> \<and> more_scopes (st_scopes (bd_store b)) sc)"
  using assms more_scopes_New [OF assms(2), of "Some p"]
  by (cases s)
    (auto simp: builder_PushScope_def op_simps on_bscopes_def on_bstore_def LocalScope_New_def new_LocalScope_def
      import_into_def Add_scope_def no_locals_def get_scope_def fresh_scopes_def)

lemma Build_lambda_single:
  assumes "computes st e" "ops e \<le> n" "\<not> be_pedantic E" "lm_body lm = [e]"
    and "fresh_scopes (st_scopes st)" "no_locals (st_scopes st) (lm_scope lm)"
  shows "\<exists>G sc. Build_lambda n E lm (new_FlowGraphBuilder p st) = Inr (Some 0, G) \<and>
    bd_instrs G = [GraphEntryInstr 0, TargetEntryInstr 1] @ postfix 2 e @ [ReturnInstr (Some (ops e + 1))] \<and>
    (\<forall>i. bd_next G i = (if i + 1 < length (bd_instrs G) then Some (i + 1) else None)) \<and>
    bd_store G = with_scopes st sc \<and> more_scopes (st_scopes st) sc"
proof -
  define b0 where "b0 = (new_FlowGraphBuilder p st)\<lparr>bd_block := Some 1, bd_num_blocks := Suc (Suc 0),
    bd_instrs := [GraphEntryInstr 0, TargetEntryInstr 1]\<rparr>"
  have b0: "bd_scope b0 = Some p" "bd_store b0 = st" "fresh_links b0" "bd_visitor b0 = new_visitor ForValue"
    "length (bd_instrs b0) = 2"
    by (simp_all add: b0_def new_FlowGraphBuilder_def fresh_links_def)
  obtain i b1 sc where push: "builder_PushScope b0 = Inr (i, b1)"
    and imp: "(case lm_scope lm of None \<Rightarrow> ret () | Some sc \<Rightarrow> sbind (import_into i sc) (\<lambda>added. sguard LogFatal added)) b1 = Inr ((), b1)"
    and b1: "b1 = b0\<lparr>bd_store := with_scopes st sc, bd_scope := Some i\<rparr>"
    and sc: "sc_map sc i = Some \<lparr>sc_parent = Some p, sc_locals = []\<rparr>" "more_scopes (st_scopes st) sc"
    using push_then_import [OF b0(1), of "lm_scope lm"] b0(2) assms(5,6) by auto
  let ?xs = "postfix 2 e @ [ReturnInstr (Some (ops e + 1))]"
  have len: "length ?xs = ops e + 1" using length_postfix [OF assms(1)] by simp
  obtain b2 where body: "lambda_body E (Accept n E) [e] b1 = Inr (True, b2)"
    and b2: "extends_by b1 ?xs b2" and entry: "vs_entry (bd_visitor b2) = Some 2"
    using lambda_body_single [of b1 e n E] assms(1-3) b0 by (auto simp: b1 fresh_links_def)
  define b3 where "b3 = b2\<lparr>bd_scope := Some p\<rparr>"
  have lam: "VisitLambda E (Accept n E) lm b0 = Inr (True, b3)"
    using push imp body b2 sc assms(4)
    by (simp add: VisitLambda_def op_simps builder_PopScope_def bstored_def get_scope_def extends_by_def b1 b3_def)
  have b3: "bd_instrs b3 = [GraphEntryInstr 0, TargetEntryInstr 1] @ ?xs"
    "bd_next b3 0 = None" "bd_next b3 1 = None" "bd_store b3 = with_scopes st sc" "vs_entry (bd_visitor b3) = Some 2"
    "\<And>j. bd_next b3 j = (if 2 \<le> j \<and> j < ops e + 2 then Some (j + 1) else None)"
    using b2 entry len by (auto simp: extends_by_def b1 b3_def b0_def new_FlowGraphBuilder_def)
  define G where "G = b3\<lparr>bd_visitor := new_visitor ForValue,
    bd_next := (bd_next b3)(1 := Some 2, 0 := Some 1),
    bd_previous := (bd_previous b3)(2 := Some 1, 1 := Some 0),
    bd_dominator := (bd_dominator b3)(1 := Some 0), bd_dominated := (bd_dominated b3)(0 := bd_dominated b3 0 @ [1])\<rparr>"
  have "Build_lambda n E lm (new_FlowGraphBuilder p st) = Inr (Some 0, G)"
    using lam b3
    by (simp add: Build_lambda_def build_graph_def op_simps GetNextBlockId_def new_instr_def new_target_def
        new_FlowGraphBuilder_def visiting_def b0_def AppendFragment_def instr_Append_def Link_def
        AddDominated_def G_def)
  moreover have "bd_next G j = (if j + 1 < length (bd_instrs G) then Some (j + 1) else None)" for j
    using b3 len by (auto simp: G_def)
  ultimately show ?thesis
    using b3 sc(2) by (intro exI [of _ G] exI [of _ sc]) (auto simp: G_def)
qed

section \<open>The code\<close>

text \<open>The instruction a literal is compiled to: numbers by value, the shared objects by name,
  others by address.\<close>

definition literal_code :: "store \<Rightarrow> uword \<Rightarrow> instr" where
  "literal_code st v =
    (case obj_at v st of
       Inr (OPair p q) \<Rightarrow> if p = 0 \<and> q = 0 then Plain kPushN else OneWord kPushQ v
     | Inr (OLong w) \<Rightarrow> OneWord kPushI w
     | Inr (OBool b) \<Rightarrow> Plain (if b then kPushT else kPushF)
     | _ \<Rightarrow> OneWord kPushQ v)"

definition unary_opcode :: "unary_op \<Rightarrow> op" where
  "unary_opcode x =
    (case x of UNot \<Rightarrow> kNot | UCar \<Rightarrow> kCar | UCdr \<Rightarrow> kCdr | UNonnull \<Rightarrow> kNonnull | UNull \<Rightarrow> kNull)"

definition binary_opcode :: "binary_op \<Rightarrow> op" where
  "binary_opcode x =
    (case x of
       BAdd \<Rightarrow> kAdd | BSubtract \<Rightarrow> kSubtract | BMultiply \<Rightarrow> kMultiply | BDivide \<Rightarrow> kDivide
     | BModulus \<Rightarrow> kModulus | BEquals \<Rightarrow> kEquals | BBinaryAnd \<Rightarrow> kBinaryAnd | BBinaryOr \<Rightarrow> kBinaryOr
     | BGreaterThan \<Rightarrow> kGreaterThan | BGreaterThanEqual \<Rightarrow> kGreaterThanEqual | BLessThan \<Rightarrow> kLessThan
     | BLessThanEqual \<Rightarrow> kLessThanEqual | BCons \<Rightarrow> kCons | BInstanceOf \<Rightarrow> kInstanceOf)"

text \<open>The code of an expression, operands first.\<close>

fun code :: "store \<Rightarrow> expr \<Rightarrow> instr list" where
  "code st (LiteralExpr v) = [literal_code st v]"
| "code st (UnaryExpr op a) = code st a @ [Plain (unary_opcode op)]"
| "code st (BinaryOpExpr op a b) = code st a @ code st b @ [Plain (binary_opcode op)]"
| "code st _ = []"

definition bytes :: "instr list \<Rightarrow> byte list" where
  "bytes is = concat (map encode is)"

lemma bytes_simps [simp]: "bytes [] = []" "bytes (i # is) = encode i @ bytes is" "bytes (is @ js) = bytes is @ bytes js"
  by (simp_all add: bytes_def)

text \<open>What the instructions of the graph are compiled to.\<close>

definition ir_code :: "store \<Rightarrow> ir_instr \<Rightarrow> instr list" where
  "ir_code st x =
    (case x of
       ConstantInstr v \<Rightarrow> [literal_code st v]
     | UnaryOpInstr op _ \<Rightarrow> [Plain (unary_opcode op)]
     | BinaryOpInstr op _ _ \<Rightarrow> [Plain (binary_opcode op)]
     | ReturnInstr _ \<Rightarrow> [Plain kRet]
     | _ \<Rightarrow> [])"

definition straight :: "store \<Rightarrow> ir_instr \<Rightarrow> bool" where
  "straight st x =
    (case x of
       ConstantInstr v \<Rightarrow> (\<exists>y. obj_at v st = Inr y)
     | UnaryOpInstr _ _ \<Rightarrow> True | BinaryOpInstr _ _ _ \<Rightarrow> True | ReturnInstr _ \<Rightarrow> True
     | GraphEntryInstr _ \<Rightarrow> True | TargetEntryInstr _ \<Rightarrow> True | JoinEntryInstr _ \<Rightarrow> True
     | _ \<Rightarrow> False)"

lemma code_postfix:
  "computes st e \<Longrightarrow> concat (map (ir_code st) (postfix k e)) = code st e \<and> (\<forall>x\<in>set (postfix k e). straight st x)"
proof (induction st e arbitrary: k rule: computes.induct)
  case (1 st v)
  then show ?case by (auto simp: ir_code_def straight_def split: sum.splits)
qed (auto simp: ir_code_def straight_def)

lemma code_scopes [simp]: "code (with_scopes st sc) e = code st e"
  by (induction st e rule: code.induct) (simp_all add: literal_code_def)

lemma appends_opcodes:
  "appends (unary_code x) (encode (Plain (unary_opcode x)))"
  "appends (binary_code y) (encode (Plain (binary_opcode y)))"
  "appends asm_ret (encode (Plain kRet))"
proof -
  show "appends (unary_code x) (encode (Plain (unary_opcode x)))"
    by (cases x) (simp_all add: unary_code_def unary_opcode_def asm_plain_defs appends_EmitOp)
  show "appends (binary_code y) (encode (Plain (binary_opcode y)))"
    by (cases y) (simp_all add: binary_code_def binary_opcode_def asm_plain_defs appends_EmitOp)
qed (simp add: asm_plain_defs appends_EmitOp)

text \<open>An emission of the compiler: the bytes go to the buffer when it has room.\<close>

definition emits :: "unit cop \<Rightarrow> byte list \<Rightarrow> bool" where
  "emits m bs \<longleftrightarrow> (\<forall>c cs. holds (cp_buffer c) cs \<longrightarrow> length bs \<le> room (cp_buffer c) cs \<longrightarrow>
    (\<exists>c'. m c = Inr ((), c') \<and> holds (cp_buffer c') (cs @ bs) \<and> ab_asize (cp_buffer c') = ab_asize (cp_buffer c)))"

lemma emits_ret: "emits (ret ()) []"
  by (simp add: emits_def op_simps)

lemma emits_asm: "appends f bs \<Longrightarrow> emits (asm f) bs"
  by (fastforce simp: appends_def emits_def asm_def)

lemma emits_sthen: "emits m bs \<Longrightarrow> emits k cs \<Longrightarrow> emits (sthen m k) (bs @ cs)"
  unfolding emits_def
proof (intro allI impI)
  fix c :: compiler and xs
  assume m: "\<forall>c cs. holds (cp_buffer c) cs \<longrightarrow> length bs \<le> room (cp_buffer c) cs \<longrightarrow>
      (\<exists>c'. m c = Inr ((), c') \<and> holds (cp_buffer c') (cs @ bs) \<and> ab_asize (cp_buffer c') = ab_asize (cp_buffer c))"
    and k: "\<forall>c xs. holds (cp_buffer c) xs \<longrightarrow> length cs \<le> room (cp_buffer c) xs \<longrightarrow>
      (\<exists>c'. k c = Inr ((), c') \<and> holds (cp_buffer c') (xs @ cs) \<and> ab_asize (cp_buffer c') = ab_asize (cp_buffer c))"
    and h: "holds (cp_buffer c) xs" "length (bs @ cs) \<le> room (cp_buffer c) xs"
  obtain c1 where c1: "m c = Inr ((), c1)" "holds (cp_buffer c1) (xs @ bs)" "ab_asize (cp_buffer c1) = ab_asize (cp_buffer c)"
    using m h by fastforce
  moreover have "length cs \<le> room (cp_buffer c1) (xs @ bs)"
    using h(2) c1(3) by (simp add: room_def)
  ultimately obtain c2 where "k c1 = Inr ((), c2)" "holds (cp_buffer c2) (xs @ bs @ cs)"
    "ab_asize (cp_buffer c2) = ab_asize (cp_buffer c)"
    using k by fastforce
  then show "\<exists>c'. sthen m k c = Inr ((), c') \<and> holds (cp_buffer c') (xs @ bs @ cs) \<and>
      ab_asize (cp_buffer c') = ab_asize (cp_buffer c)"
    using c1 by (simp add: op_simps)
qed

text \<open>The method of the assembler that \<open>Push\<close> calls for an object.\<close>

definition push_method :: "uword \<Rightarrow> obj \<Rightarrow> assembler_buffer \<Rightarrow> assembler_buffer res" where
  "push_method v y =
    (case y of
       OPair p q \<Rightarrow> if p = 0 \<and> q = 0 then asm_pushn else asm_pushq v
     | OLong w \<Rightarrow> asm_pushl w
     | OBool b \<Rightarrow> if b then asm_pusht else asm_pushf
     | _ \<Rightarrow> asm_pushq v)"

lemma emits_push:
  assumes "obj_at v (bd_store G) = Inr y"
  shows "emits (asm_Push G v) (encode (literal_code (bd_store G) v))"
proof -
  have "v \<noteq> 0" using assms by (auto simp: obj_at_def)
  then have "asm_Push G v = asm (push_method v y)"
    using assms
    by (cases y) (auto simp: asm_Push_def graph_stored_def op_simps IsNull_def push_method_def fun_eq_iff)
  moreover have "appends (push_method v y) (encode (literal_code (bd_store G) v))"
    using assms asm_word_methods(1,2)
    by (cases y) (auto simp: literal_code_def push_method_def asm_plain_defs appends_EmitOp simp del: encode.simps(2))
  ultimately show ?thesis by (simp add: emits_asm)
qed

lemma emits_straight:
  assumes "straight (bd_store G) x"
  shows "emits (compile_instr G rec x) (bytes (ir_code (bd_store G) x))"
proof (cases x)
  case (ConstantInstr v)
  then show ?thesis
    using assms by (auto simp: straight_def compile_instr_def ir_code_def emits_push)
next
  case (UnaryOpInstr op a)
  then show ?thesis
    using emits_asm [OF appends_opcodes(1)] by (simp add: compile_instr_def ir_code_def)
next
  case (BinaryOpInstr op a b)
  then show ?thesis
    using emits_asm [OF appends_opcodes(2)] by (simp add: compile_instr_def ir_code_def)
next
  case (ReturnInstr a)
  then show ?thesis
    using emits_asm [OF appends_opcodes(3)] by (simp add: compile_instr_def ir_code_def)
qed (use assms in \<open>simp_all add: straight_def compile_instr_def ir_code_def emits_ret\<close>)

lemma emits_chain:
  assumes "\<And>i. bd_next G i = (if i + 1 < length (bd_instrs G) then Some (i + 1) else None)"
    and "\<forall>x\<in>set (bd_instrs G). straight (bd_store G) x"
  shows "s < length (bd_instrs G) \<Longrightarrow> length (bd_instrs G) - s < fuel \<Longrightarrow>
    emits (compile_chain fuel G (Some s)) (bytes (concat (map (ir_code (bd_store G)) (drop s (bd_instrs G)))))"
proof (induction fuel arbitrary: s)
  case (Suc n)
  let ?x = "bd_instrs G ! s"
  have x: "straight (bd_store G) ?x" using assms(2) Suc.prems(1) by simp
  have d: "drop s (bd_instrs G) = ?x # drop (Suc s) (bd_instrs G)"
    using Suc.prems(1) by (simp add: Cons_nth_drop_Suc)
  have "emits (compile_chain n G (bd_next G s))
      (bytes (concat (map (ir_code (bd_store G)) (drop (Suc s) (bd_instrs G)))))"
  proof (cases "Suc s < length (bd_instrs G)")
    case True
    then show ?thesis using Suc.IH [of "Suc s"] Suc.prems assms(1) by simp
  next
    case False
    obtain k where "n = Suc k" using Suc.prems by (cases n) simp_all
    then show ?thesis using False assms(1) by (simp add: emits_ret)
  qed
  then have "emits (sthen (compile_instr G (compile_chain n G) ?x) (compile_chain n G (bd_next G s)))
      (bytes (concat (map (ir_code (bd_store G)) (drop s (bd_instrs G)))))"
    using emits_sthen [OF emits_straight [OF x]] by (simp add: d)
  moreover have "compile_chain (Suc n) G (Some s) =
      sthen (compile_instr G (compile_chain n G) ?x) (compile_chain n G (bd_next G s))"
    using Suc.prems(1) by (rule_tac ext) (simp add: graph_instr_def instr_at_def op_simps)
  ultimately show ?case by simp
qed simp

definition code_of :: "store \<Rightarrow> expr \<Rightarrow> byte list" where
  "code_of st e = bytes (code st e @ [Plain kRet])"

text \<open>The assembler's buffer is mapped with 4096 bytes and does not grow.\<close>

lemma assemble_graph:
  assumes "computes st e" "length (code_of st e) \<le> 4096" "ops e + 3 < fuel"
    and "bd_instrs G = [GraphEntryInstr 0, TargetEntryInstr 1] @ postfix 2 e @ [ReturnInstr (Some (ops e + 1))]"
    and "\<forall>i. bd_next G i = (if i + 1 < length (bd_instrs G) then Some (i + 1) else None)"
    and "bd_store G = with_scopes st sc"
  shows "assemble_code fuel buffer_at code_at (Some 0, G) rt =
    Inr (\<lparr>r_start = code_at, r_size = of_nat (length (code_of st e))\<rparr>,
      rt\<lparr>rt_code := load_region code_at (code_of st e) (rt_code rt)\<rparr>)"
proof -
  let ?c = "new_FlowGraphCompiler buffer_at"
  have len: "length (bd_instrs G) = ops e + 3"
    using assms(4) length_postfix [OF assms(1)] by simp
  have cp: "computes (with_scopes st sc) e" using assms(1) by simp
  have s: "\<forall>x\<in>set (bd_instrs G). straight (bd_store G) x"
    and bs: "bytes (concat (map (ir_code (bd_store G)) (bd_instrs G))) = code_of st e"
    using code_postfix [OF cp, of 2] unfolding assms(4,6)
    by (auto simp: straight_def ir_code_def code_of_def)
  have "emits (compile_chain fuel G (Some 0)) (code_of st e)"
    using emits_chain [of G 0 fuel] assms(3,5) s bs len by simp
  moreover have "holds (cp_buffer ?c) []" "room (cp_buffer ?c) [] = 4096"
    using holds_new by (simp_all add: new_FlowGraphCompiler_def room_def new_AssemblerBuffer_def kDefaultInitSize_def)
  ultimately obtain c where c: "compile_chain fuel G (Some 0) ?c = Inr ((), c)" "holds (cp_buffer c) (code_of st e)"
    using assms(2) unfolding emits_def by fastforce
  note H = holdsD [OF c(2)]
  have "code_of st e \<noteq> []" by (simp add: code_of_def)
  then have "buffer_GetSize (cp_buffer c) \<noteq> 0" using H(4) by auto
  then have "Assemble code_at (cp_buffer c) (rt_code rt) =
      Inr (code_at, of_nat (length (code_of st e)), load_region code_at (code_of st e) (rt_code rt))"
    using H by (simp add: Assemble_def)
  then show ?thesis
    using c(1) by (simp add: assemble_code_def AssembleFlowGraph_def op_simps)
qed

lemma Compile_lambda_single:
  assumes "lambda_at a (rt_store rt) = Inr lm" "\<not> IsAllocated (lm_code lm)" "lm_body lm = [e]"
    and "computes (rt_store rt) e" "length (code_of (rt_store rt) e) \<le> 4096" "ops e + 3 < fuel"
    and "\<not> be_pedantic E" "expand a scope rt = Inr ((), rt)" "code_at \<noteq> 0"
    and "fresh_scopes (scopes_of rt)" "no_locals (scopes_of rt) (lm_scope lm)"
  shows "\<exists>sc. Compile_lambda fuel E expand buffer_at code_at a scope rt =
    Inr (True, rt\<lparr>
      rt_store := put_obj a (OLambda (lm\<lparr>lm_code := \<lparr>r_start = code_at, r_size = of_nat (length (code_of (rt_store rt) e))\<rparr>\<rparr>))
        (with_scopes (rt_store rt) sc),
      rt_code := load_region code_at (code_of (rt_store rt) e) (rt_code rt)\<rparr>) \<and> more_scopes (scopes_of rt) sc"
proof -
  let ?st = "rt_store rt" and ?E = "E\<lparr>be_runtime_scope := rt_scope rt\<rparr>"
  define sc1 where "sc1 = snd (LocalScope_New (Some scope) (scopes_of rt))"
  define i where "i = sc_next (scopes_of rt)"
  define rt1 where "rt1 = rt\<lparr>rt_store := with_scopes ?st sc1\<rparr>"
  have i: "LocalScope_New (Some scope) (scopes_of rt) = (i, sc1)"
    by (simp add: sc1_def i_def LocalScope_New_def new_LocalScope_def)
  have sc1: "fresh_scopes sc1" "no_locals sc1 (lm_scope lm)"
    using assms(10,11) by (auto simp: sc1_def LocalScope_New_def new_LocalScope_def fresh_scopes_def no_locals_def
        split: option.splits)
  have push: "on_scopes (\<lambda>sc. Inr (LocalScope_New (Some scope) sc)) rt = Inr (i, rt1)"
    using i by (simp add: on_scopes_def on_store_def op_simps rt1_def)
  have imp: "(case lm_scope lm of None \<Rightarrow> ret () | Some sc \<Rightarrow> sbind (import_scope i sc) (\<lambda>_. ret ())) rt1 = Inr ((), rt1)"
    using sc1(2)
    by (auto simp: op_simps import_scope_def on_scopes_def on_store_def Add_scope_def no_locals_def get_scope_def
        rt1_def split: option.split)
  have st1: "computes (rt_store rt1) e" "\<not> be_pedantic ?E" "fresh_scopes (st_scopes (rt_store rt1))"
    "no_locals (st_scopes (rt_store rt1)) (lm_scope lm)" "ops e \<le> fuel"
    using assms(4,6,7) sc1 by (simp_all add: rt1_def)
  obtain G sc where build: "Build_lambda fuel ?E lm (new_FlowGraphBuilder i (rt_store rt1)) = Inr (Some 0, G)"
    and G: "bd_instrs G = [GraphEntryInstr 0, TargetEntryInstr 1] @ postfix 2 e @ [ReturnInstr (Some (ops e + 1))]"
      "\<forall>i. bd_next G i = (if i + 1 < length (bd_instrs G) then Some (i + 1) else None)"
      "bd_store G = with_scopes ?st sc" and more: "more_scopes sc1 sc"
    using Build_lambda_single [OF st1(1,5,2) assms(3) st1(3,4), of i] by (auto simp: rt1_def)
  have more: "more_scopes (scopes_of rt) sc"
    using more_scopes_trans [OF more_scopes_New [OF assms(10)]] more by (simp add: sc1_def)
  have "BuildFlowGraph (\<lambda>_. Build_lambda fuel ?E lm) (lm_scope lm) scope rt =
      Inr ((Some 0, G), rt\<lparr>rt_store := with_scopes ?st sc\<rparr>)"
    using push imp build G(3)
    by (simp add: BuildFlowGraph_def op_simps run_build_def on_store_def rt1_def)
  moreover have "assemble_code fuel buffer_at code_at (Some 0, G) (rt\<lparr>rt_store := with_scopes ?st sc\<rparr>) =
      Inr (\<lparr>r_start = code_at, r_size = of_nat (length (code_of ?st e))\<rparr>,
        rt\<lparr>rt_store := with_scopes ?st sc, rt_code := load_region code_at (code_of ?st e) (rt_code rt)\<rparr>)"
    using assemble_graph [OF assms(4-6) G] by simp
  moreover have "a \<noteq> 0" using assms(1) by (auto simp: lambda_at_def obj_at_def)
  moreover have "IsAllocated \<lparr>r_start = code_at, r_size = of_nat (length (code_of ?st e))\<rparr>"
  proof -
    have n: "1 \<le> length (code_of ?st e)" by (simp add: code_of_def)
    then have "unat (of_nat (length (code_of ?st e)) :: uword) = length (code_of ?st e)"
      using assms(5) by (intro unat_of_nat_uword) simp
    then show ?thesis using n assms(9) by (simp add: IsAllocated_def word_le_nat_alt)
  qed
  ultimately show ?thesis
    using assms(1-3,8) more
    by (intro exI [of _ sc]) (simp add: Compile_lambda_def CompileTarget_lambda_def op_simps stored_def on_store_def)
qed

section \<open>Reading the code\<close>

definition code_at :: "memory \<Rightarrow> uword \<Rightarrow> byte list \<Rightarrow> bool" where
  "code_at m a bs \<longleftrightarrow> (\<exists>start pre post mem. m = load_region start (pre @ bs @ post) mem \<and>
    length (pre @ bs @ post) \<le> 2 ^ 33 \<and> a = start + of_nat (length pre))"

lemma code_at_append:
  assumes "code_at m a (bs @ cs)"
  shows "code_at m a bs" "code_at m (a + of_nat (length bs)) cs"
proof -
  obtain start pre post mem where m: "m = load_region start (pre @ (bs @ cs) @ post) mem"
    "length (pre @ (bs @ cs) @ post) \<le> 2 ^ 33" "a = start + of_nat (length pre)"
    using assms unfolding code_at_def by blast
  show "code_at m a bs"
    unfolding code_at_def using m by (intro exI [of _ start] exI [of _ pre] exI [of _ "cs @ post"]) auto
  show "code_at m (a + of_nat (length bs)) cs"
    unfolding code_at_def using m by (intro exI [of _ start] exI [of _ "pre @ bs"] exI [of _ post]) auto
qed

lemma code_at_byte: "code_at m a (b # bs) \<Longrightarrow> read_byte m a = Inr b"
  unfolding code_at_def
  using read_byte_load_region [of "pre @ (b # bs) @ post" "length pre" for pre post] by auto

lemma code_at_word:
  assumes "code_at m a (bytes_of 8 w @ bs)"
  shows "read_word m a = Inr w"
proof -
  have "code_at m a (bytes_of 8 w)" using code_at_append(1) [OF assms] .
  then obtain start pre post mem where "m = load_region start (pre @ bytes_of 8 w @ post) mem"
    "length (pre @ bytes_of 8 w @ post) \<le> 2 ^ 33" "a = start + of_nat (length pre)"
    unfolding code_at_def by blast
  then show ?thesis
    using read_word_load_region [of "pre @ bytes_of 8 w @ post" "length pre" start mem]
      slice_here [of pre "bytes_of 8 w" post] by simp
qed

section \<open>The value of an expression\<close>

text \<open>A value as it is pushed: null in every form is the shared empty list.\<close>

definition settled :: "world \<Rightarrow> uword \<Rightarrow> uword sop" where
  "settled W v =
    sthen (sassert (v \<noteq> 0))
      (sbind (reads (IsNull v)) (\<lambda>n. if n then Null (w_machine W) else ret v))"

definition literal_value :: "world \<Rightarrow> store \<Rightarrow> uword \<Rightarrow> uword sop" where
  "literal_value W st0 v =
    (case obj_at v st0 of
       Inr (OPair p q) \<Rightarrow> if p = 0 \<and> q = 0 then Null (w_machine W) else ret v
     | Inr (OLong w) \<Rightarrow> Long_New (w_machine W) w
     | Inr (OBool b) \<Rightarrow> if b then Bool_True else Bool_False
     | _ \<Rightarrow> ret v)"

definition apply_unary :: "world \<Rightarrow> unary_op \<Rightarrow> uword \<Rightarrow> uword sop" where
  "apply_unary W op v =
    (case op of
       UNot \<Rightarrow> sbind (reads (Truth v)) (\<lambda>b. Bool_Box (\<not> b))
     | UCar \<Rightarrow> Car (w_machine W) v
     | UCdr \<Rightarrow> Cdr (w_machine W) v
     | UNonnull \<Rightarrow> sbind (reads (IsNull v)) (\<lambda>b. Bool_Box (\<not> b))
     | UNull \<Rightarrow> sbind (reads (IsNull v)) Bool_Box)"

definition compared :: "uword \<Rightarrow> uword \<Rightarrow> (int \<Rightarrow> bool) \<Rightarrow> uword sop" where
  "compared x y p = sbind (reads (Compare x y)) (\<lambda>c. Bool_Box (p c))"

definition apply_binary :: "nat \<Rightarrow> world \<Rightarrow> binary_op \<Rightarrow> uword \<Rightarrow> uword \<Rightarrow> uword sop" where
  "apply_binary fuel W op x y =
    (case op of
       BAdd \<Rightarrow> Arith (w_machine W) ArAdd x y
     | BSubtract \<Rightarrow> Arith (w_machine W) ArSub x y
     | BMultiply \<Rightarrow> Arith (w_machine W) ArMul x y
     | BDivide \<Rightarrow> Arith (w_machine W) ArDiv x y
     | BModulus \<Rightarrow> Arith (w_machine W) ArMod x y
     | BEquals \<Rightarrow> sbind (reads (Equals fuel (w_machine W) x y)) Bool_Box
     | BBinaryAnd \<Rightarrow> And (w_machine W) x y
     | BBinaryOr \<Rightarrow> Or (w_machine W) x y
     | BGreaterThan \<Rightarrow> compared x y (\<lambda>c. 0 < c)
     | BGreaterThanEqual \<Rightarrow> compared x y (\<lambda>c. 0 \<le> c)
     | BLessThan \<Rightarrow> compared x y (\<lambda>c. c < 0)
     | BLessThanEqual \<Rightarrow> compared x y (\<lambda>c. c \<le> 0)
     | BCons \<Rightarrow> Cons (w_machine W) x y
     | BInstanceOf \<Rightarrow>
         sthen (sassert (y \<noteq> 0))
           (sbind (reads (obj_at y)) (\<lambda>z.
            sthen (sassert (IsClassObj z))
              (sbind (reads (GetType x)) (\<lambda>cls. sbind (reads (IsInstanceOf cls y)) Bool_Box)))))"

text \<open>Literals are those of the store the expression was compiled in. The fuel is what the
  comparison of cyclic lists is given: one less for every operation before it.\<close>

fun evaluate :: "nat \<Rightarrow> world \<Rightarrow> store \<Rightarrow> expr \<Rightarrow> uword sop" where
  "evaluate n W st0 (LiteralExpr v) = sbind (literal_value W st0 v) (settled W)"
| "evaluate n W st0 (UnaryExpr op a) =
    sbind (evaluate n W st0 a) (\<lambda>v. sbind (apply_unary W op v) (settled W))"
| "evaluate n W st0 (BinaryOpExpr op a b) =
    sbind (evaluate n W st0 a) (\<lambda>x.
    sbind (evaluate (n - ops a) W st0 b) (\<lambda>y.
    sbind (apply_binary (n - ops a - ops b) W op x y) (settled W)))"
| "evaluate n W st0 _ = fails LogFatal"

lemma settled_not_null: "settled W v st = Inr (x, st') \<Longrightarrow> x \<noteq> 0"
  by (auto simp: settled_def op_simps res_elims dest: Null_not_null split: if_splits)

lemma evaluate_not_null: "evaluate n W st0 e st = Inr (x, st') \<Longrightarrow> x \<noteq> 0"
  by (cases e) (auto simp: sbind_Inr fails_apply dest: settled_not_null)

section \<open>Running the code\<close>

text \<open>The state with another store, address and stack of values.\<close>

definition moved :: "store \<Rightarrow> uword \<Rightarrow> uword list \<Rightarrow> runtime \<Rightarrow> runtime" where
  "moved st a vs s = set_stack vs (s\<lparr>rt_store := st, rt_current := a\<rparr>)"

lemma set_stack_fields [simp]:
  "rt_code (set_stack vs s) = rt_code s" "rt_current (set_stack vs s) = rt_current s"
  "rt_frames (set_stack vs s) = [] \<longleftrightarrow> rt_frames s = []"
  by (simp_all add: set_stack_def split: list.split)

lemma set_stack_update:
  "(set_stack vs s)\<lparr>rt_store := st\<rparr> = set_stack vs (s\<lparr>rt_store := st\<rparr>)"
  "(set_stack vs s)\<lparr>rt_current := a\<rparr> = set_stack vs (s\<lparr>rt_current := a\<rparr>)"
  by (simp_all add: set_stack_def split: list.split)

lemma moved_simps [simp]:
  "rt_store (moved st a vs s) = st" "rt_current (moved st a vs s) = a" "rt_code (moved st a vs s) = rt_code s"
  by (simp_all add: moved_def)

lemma GetOperationStack_update [simp]:
  "GetOperationStack (s\<lparr>rt_store := st\<rparr>) = GetOperationStack s"
  "GetOperationStack (s\<lparr>rt_current := a\<rparr>) = GetOperationStack s"
  by (simp_all add: GetOperationStack_def)

lemma moved_stack [simp]: "GetOperationStack s = Inr ws \<Longrightarrow> GetOperationStack (moved st a vs s) = Inr vs"
  by (simp add: moved_def)

lemma moved_moved [simp]: "moved st a vs (moved st' b ws s) = moved st a vs s"
  by (simp add: moved_def set_stack_update)

lemma push_run:
  assumes "GetOperationStack s = Inr vs"
  shows "sthen (sassert (v \<noteq> 0)) (push W v) s =
    rbind (settled W v (rt_store s)) (\<lambda>(x, st). Inr ((), moved st (rt_current s) (x # vs) s))"
proof (cases "v = 0")
  case False
  have p: "stack_Push x (s\<lparr>rt_store := st\<rparr>) = Inr ((), moved st (rt_current s) (x # vs) s)" if "x \<noteq> 0" for x st
    using that assms by (simp add: stack_Push_def op_simps moved_def)
  show ?thesis
  proof (cases "IsNull v (rt_store s)")
    case (Inr n)
    show ?thesis
    proof (cases n)
      case True
      show ?thesis
      proof (cases "Null (w_machine W) (rt_store s)")
        case (Inr r)
        obtain x st where r: "r = (x, st)" by (cases r)
        then show ?thesis
          using p [of x st] Null_not_null Inr True \<open>IsNull v (rt_store s) = Inr n\<close> False
          by (simp add: push_def settled_def op_simps stored_def on_store_def)
      qed (use True Inr False in \<open>simp add: push_def settled_def op_simps stored_def on_store_def\<close>)
    next
      case n: False
      then show ?thesis
        using p [of v "rt_store s"] Inr False
        by (simp add: push_def settled_def op_simps stored_def)
    qed
  qed (use False in \<open>simp add: push_def settled_def op_simps stored_def\<close>)
qed (simp add: op_simps settled_def)

lemma step_fetch:
  assumes "code_at (rt_code s) (rt_current s) (raw_of_op x # bs)"
  shows "step n W run call base s =
    exec_op n W run call base (rt_current s - base) x (s\<lparr>rt_current := rt_current s + 1\<rparr>)"
  using code_at_byte [OF assms] by (simp add: step_def rt_NextBytecode_def op_simps)

lemma moved_after_fetch [simp]: "moved st a vs (s\<lparr>rt_current := b\<rparr>) = moved st a vs s"
  by (simp add: moved_def)

text \<open>The operation of an instruction, its result settled and pushed; the rest of the stack is
  \<open>vs\<close>.\<close>

definition pushes :: "world \<Rightarrow> uword sop \<Rightarrow> uword list \<Rightarrow> uword \<Rightarrow> runtime \<Rightarrow> (bool \<times> runtime) res" where
  "pushes W m vs pc s =
    rbind (sbind m (settled W) (rt_store s)) (\<lambda>(x, st). Inr (True, moved st pc (x # vs) s))"

lemma push_result:
  assumes "GetOperationStack s = Inr vs"
  shows "goes_on (sbind (on_store m) (\<lambda>v. sthen (sassert (v \<noteq> 0)) (push W v))) s =
    pushes W m vs (rt_current s) s"
proof (cases "m (rt_store s)")
  case (Inr r)
  obtain v st where r: "r = (v, st)" by (cases r)
  have "sthen (sassert (v \<noteq> 0)) (push W v) (s\<lparr>rt_store := st\<rparr>) =
      rbind (settled W v st) (\<lambda>(x, st'). Inr ((), moved st' (rt_current s) (x # vs) (s\<lparr>rt_store := st\<rparr>)))"
    using push_run [of "s\<lparr>rt_store := st\<rparr>" vs v W] assms by simp
  moreover have "moved st' a ws (s\<lparr>rt_store := st\<rparr>) = moved st' a ws s" for st' a ws
    by (simp add: moved_def)
  ultimately show ?thesis
    using Inr r by (simp add: goes_on_def pushes_def op_simps on_store_def rbind_assoc case_prod_unfold)
qed (simp add: goes_on_def pushes_def op_simps on_store_def)

lemma step_literal:
  assumes "code_at (rt_code s) (rt_current s) (encode (literal_code st0 v))"
    and "GetOperationStack s = Inr vs" "obj_at v st0 = Inr y"
  shows "step n W run call base s =
    pushes W (literal_value W st0 v) vs (rt_current s + of_nat (length (encode (literal_code st0 v)))) s"
proof -
  have v: "v \<noteq> 0" using assms(3) by (auto simp: obj_at_def)
  let ?s = "s\<lparr>rt_current := rt_current s + 1\<rparr>"
  have push: "goes_on (exec_Push W x) ?s = pushes W m vs pc s"
    if "exec_Push W x ?s = sbind (on_store m) (\<lambda>v. sthen (sassert (v \<noteq> 0)) (push W v)) (s\<lparr>rt_current := pc\<rparr>)"
    for x m pc
  proof -
    have "goes_on (exec_Push W x) ?s = goes_on (sbind (on_store m) (\<lambda>v. sthen (sassert (v \<noteq> 0)) (push W v))) (s\<lparr>rt_current := pc\<rparr>)"
      using that by (simp add: goes_on_def sthen_apply)
    then show ?thesis
      using push_result [of "s\<lparr>rt_current := pc\<rparr>" vs m W] assms(2) by (simp add: pushes_def)
  qed
  show ?thesis
  proof (cases "literal_code st0 v")
    case (Plain x)
    then have x: "exec_Push W x = sbind (on_store (literal_value W st0 v)) (\<lambda>v. sthen (sassert (v \<noteq> 0)) (push W v))"
      and "x \<in> {kPushN, kPushT, kPushF}"
      using assms(3) by (auto simp: literal_code_def literal_value_def exec_Push_def split: obj.splits if_splits)
    then have "step n W run call base s = goes_on (exec_Push W x) ?s"
      using step_fetch [of s x "[]"] assms(1) Plain by (auto simp: exec_op_def)
    then show ?thesis
      using push [of x "literal_value W st0 v" "rt_current s + 1"] x Plain by simp
  next
    case (OneWord x w)
    have w: "read_word (rt_code s) (rt_current s + 1) = Inr w"
      using code_at_append(2) [of "rt_code s" "rt_current s" "[raw_of_op x]" "bytes_of 8 w"] assms(1)
        code_at_word [of _ _ w "[]"] OneWord by simp
    have "x = kPushI \<and> literal_value W st0 v = Long_New (w_machine W) w \<or>
        x = kPushQ \<and> w = v \<and> literal_value W st0 v = ret v"
      using OneWord assms(3) by (auto simp: literal_code_def literal_value_def split: obj.splits if_splits)
    then have x: "exec_Push W x ?s =
        sbind (on_store (literal_value W st0 v)) (\<lambda>v. sthen (sassert (v \<noteq> 0)) (push W v)) (s\<lparr>rt_current := rt_current s + 9\<rparr>)"
      and m: "x \<in> {kPushI, kPushQ}"
      using w by (auto simp: exec_Push_def NextLong_def rt_NextUWord_def op_simps on_store_def add.assoc)
    have "step n W run call base s = goes_on (exec_Push W x) ?s"
      using step_fetch [of s x "bytes_of 8 w"] assms(1) OneWord m by (auto simp: exec_op_def)
    then show ?thesis
      using push [OF x] OneWord by simp
  qed (use assms(3) in \<open>auto simp: literal_code_def split: obj.splits if_splits\<close>)
qed

lemma pop_deref_run:
  "GetOperationStack s = Inr (v # vs) \<Longrightarrow> v \<noteq> 0 \<Longrightarrow> pop_deref s = Inr (v, set_stack vs s)"
  by (simp add: pop_deref_def stack_Pop_def op_simps)

lemma on_store_apply [simp]:
  "on_store (sbind m f) = sbind (on_store m) (\<lambda>x. on_store (f x))"
  "on_store (reads g) = stored g" "on_store (sthen m k) = sthen (on_store m) (on_store k)"
  "on_store (sguard e p) = sguard e p"
  by (auto simp: on_store_def stored_def op_simps rbind_assoc fun_eq_iff guardr_def split: prod.split
      intro!: rbind_cong)

lemma pushes_set_stack [simp]:
  "pushes W m vs pc (set_stack ws s) = pushes W m vs pc s"
  "pushes W m vs pc (s\<lparr>rt_current := a\<rparr>) = pushes W m vs pc s"
  by (simp_all add: pushes_def moved_def set_stack_update)

lemma exec_op_unary: "exec_op n W run call base pos (unary_opcode op) = goes_on (ExecUnaryOp W (unary_opcode op))"
  by (cases op) (simp_all add: exec_op_def unary_opcode_def)

lemma exec_op_binary: "exec_op n W run call base pos (binary_opcode op) = goes_on (ExecBinaryOp n W (binary_opcode op))"
  by (cases op) (simp_all add: exec_op_def binary_opcode_def)

lemma goes_on_sbind: "m s = Inr (x, t) \<Longrightarrow> goes_on (sbind m f) s = goes_on (f x) t"
  by (simp add: goes_on_def op_simps)

lemma goes_on_sthen: "m s = Inr (x, t) \<Longrightarrow> goes_on (sthen m k) s = goes_on k t"
  by (simp add: goes_on_def op_simps)

lemma step_unary:
  assumes "code_at (rt_code s) (rt_current s) (encode (Plain (unary_opcode op)))"
    and "GetOperationStack s = Inr (v # vs)" "v \<noteq> 0"
  shows "step n W run call base s = pushes W (apply_unary W op v) vs (rt_current s + 1) s"
proof -
  let ?s = "s\<lparr>rt_current := rt_current s + 1\<rparr>"
  have "step n W run call base s = goes_on (ExecUnaryOp W (unary_opcode op)) ?s"
    using step_fetch [of s "unary_opcode op" "[]"] assms(1) by (simp add: exec_op_unary)
  also have "\<dots> = goes_on (sbind (on_store (apply_unary W op v)) (\<lambda>x. sthen (sassert (x \<noteq> 0)) (push W x))) (set_stack vs ?s)"
    using pop_deref_run [of ?s v vs] assms(2,3)
    by (cases op) (simp_all add: ExecUnaryOp_def unary_opcode_def apply_unary_def goes_on_def op_simps)
  also have "\<dots> = pushes W (apply_unary W op v) vs (rt_current s + 1) s"
    using push_result [of "set_stack vs ?s" vs "apply_unary W op v" W] assms(2) by simp
  finally show ?thesis .
qed

lemma step_binary:
  assumes "code_at (rt_code s) (rt_current s) (encode (Plain (binary_opcode op)))"
    and "GetOperationStack s = Inr (y # x # vs)" "y \<noteq> 0" "x \<noteq> 0"
  shows "step n W run call base s = pushes W (apply_binary n W op x y) vs (rt_current s + 1) s"
proof -
  let ?s = "s\<lparr>rt_current := rt_current s + 1\<rparr>"
  have p: "pop_deref ?s = Inr (y, set_stack (x # vs) ?s)"
    "pop_deref (set_stack (x # vs) ?s) = Inr (x, set_stack vs ?s)"
    using pop_deref_run [of ?s y "x # vs"] pop_deref_run [of "set_stack (x # vs) ?s" x vs] assms(2-4) by simp_all
  have "step n W run call base s = goes_on (ExecBinaryOp n W (binary_opcode op)) ?s"
    using step_fetch [of s "binary_opcode op" "[]"] assms(1) by (simp add: exec_op_binary)
  also have "\<dots> = goes_on (sbind (on_store (apply_binary n W op x y)) (\<lambda>v. sthen (sassert (v \<noteq> 0)) (push W v))) (set_stack vs ?s)"
    using p assms(3,4)
    by (cases op) (simp_all add: ExecBinaryOp_def binary_opcode_def apply_binary_def compared_def compare_with_def
        assert_object_def goes_on_def sthen_assoc op_simps)
  also have "\<dots> = pushes W (apply_binary n W op x y) vs (rt_current s + 1) s"
    using push_result [of "set_stack vs ?s" vs "apply_binary n W op x y" W] assms(2) by simp
  finally show ?thesis .
qed

text \<open>The loop on the code of an expression.\<close>

lemma run_loop_pushes:
  assumes "step (Suc n) W (\<lambda>a. sthen (set_current a) (run_loop n W a)) (call_procedure n W) base s =
      pushes W m vs pc s"
  shows "run_loop (Suc n) W base s =
    rbind (sbind m (settled W) (rt_store s)) (\<lambda>(x, st). run_loop n W base (moved st pc (x # vs) s))"
  using assms by (simp add: sbind_apply pushes_def rbind_assoc case_prod_unfold)

lemma run_loop_code:
  assumes "computes st0 e" "code_at (rt_code s) (rt_current s) (bytes (code st0 e))"
    and "GetOperationStack s = Inr vs" "ops e \<le> n"
  shows "run_loop n W base s =
    rbind (evaluate n W st0 e (rt_store s)) (\<lambda>(x, st).
      run_loop (n - ops e) W base (moved st (rt_current s + of_nat (length (bytes (code st0 e)))) (x # vs) s))"
  using assms
proof (induction st0 e arbitrary: s vs n rule: computes.induct)
  case (1 st0 v)
  obtain m where n: "n = Suc m" using 1 by (cases n) simp_all
  obtain y where y: "obj_at v st0 = Inr y" using 1(1) by (auto split: sum.splits)
  show ?case
    using run_loop_pushes [OF step_literal [OF _ 1(3) y]] 1(2) by (simp add: n)
next
  case (2 st0 op a)
  then obtain m where n: "n = Suc m" "ops a \<le> m" by (cases n) simp_all
  let ?len = "of_nat (length (bytes (code st0 a))) :: uword"
  have c: "code_at (rt_code s) (rt_current s) (bytes (code st0 a))"
    "code_at (rt_code s) (rt_current s + ?len) (encode (Plain (unary_opcode op)))"
    using code_at_append 2(3) by (simp_all del: encode.simps)
  have a: "run_loop n W base s = rbind (evaluate n W st0 a (rt_store s)) (\<lambda>(x, st).
      run_loop (n - ops a) W base (moved st (rt_current s + ?len) (x # vs) s))"
    using 2(1) [of s vs n] 2(2) c(1) 2(4) n by simp
  have k: "n - ops a = Suc (m - ops a)" using n by simp
  have "run_loop (n - ops a) W base (moved st (rt_current s + ?len) (x # vs) s) =
      rbind (sbind (apply_unary W op x) (settled W) st) (\<lambda>(z, st').
        run_loop (m - ops a) W base (moved st' (rt_current s + ?len + 1) (z # vs) s))"
    if "evaluate n W st0 a (rt_store s) = Inr (x, st)" for x st
    using run_loop_pushes [OF step_unary [of "moved st (rt_current s + ?len) (x # vs) s" op x vs]] c(2) 2(4)
      evaluate_not_null [OF that]
    by (simp add: k)
  then show ?case
    unfolding a
    by (cases "evaluate n W st0 a (rt_store s)") (auto simp: sbind_apply n(1) ac_simps)
next
  case (3 st0 op a b)
  then obtain m where n: "n = Suc m" "ops a + ops b \<le> m" by (cases n) simp_all
  let ?la = "of_nat (length (bytes (code st0 a))) :: uword" and ?lb = "of_nat (length (bytes (code st0 b))) :: uword"
  have c: "code_at (rt_code s) (rt_current s) (bytes (code st0 a))"
    "code_at (rt_code s) (rt_current s + ?la) (bytes (code st0 b) @ encode (Plain (binary_opcode op)))"
    using code_at_append 3(4) by (simp_all del: encode.simps)
  have d: "code_at (rt_code s) (rt_current s + ?la) (bytes (code st0 b))"
    "code_at (rt_code s) (rt_current s + ?la + ?lb) (encode (Plain (binary_opcode op)))"
    using code_at_append [OF c(2)] by simp_all
  have a: "run_loop n W base s = rbind (evaluate n W st0 a (rt_store s)) (\<lambda>(x, st).
      run_loop (n - ops a) W base (moved st (rt_current s + ?la) (x # vs) s))"
    using 3(1) [of s vs n] 3(3,5) c(1) n by simp
  have b: "run_loop (n - ops a) W base (moved st (rt_current s + ?la) (x # vs) s) =
      rbind (evaluate (n - ops a) W st0 b st) (\<lambda>(y, st').
        run_loop (n - ops a - ops b) W base (moved st' (rt_current s + ?la + ?lb) (y # x # vs) s))" for x st
    using 3(2) [of "moved st (rt_current s + ?la) (x # vs) s" "x # vs" "n - ops a"] 3(3,5) d(1) n by simp
  have k: "n - ops a - ops b = Suc (m - (ops a + ops b))" using n by simp
  have r: "run_loop (n - ops a - ops b) W base (moved st' (rt_current s + ?la + ?lb) (y # x # vs) s) =
      rbind (sbind (apply_binary (n - ops a - ops b) W op x y) (settled W) st') (\<lambda>(z, st'').
        run_loop (m - (ops a + ops b)) W base (moved st'' (rt_current s + ?la + ?lb + 1) (z # vs) s))"
    if "evaluate n W st0 a (rt_store s) = Inr (x, st)" "evaluate (n - ops a) W st0 b st = Inr (y, st')" for x y st st'
    using run_loop_pushes [OF step_binary [of "moved st' (rt_current s + ?la + ?lb) (y # x # vs) s" op y x vs]] d(2) 3(5)
      evaluate_not_null [OF that(1)] evaluate_not_null [OF that(2)]
    unfolding k by simp
  show ?case
  proof (cases "evaluate n W st0 a (rt_store s)")
    case (Inr p)
    obtain x st where x: "evaluate n W st0 a (rt_store s) = Inr (x, st)" using Inr by (cases p) simp
    show ?thesis
    proof (cases "evaluate (n - ops a) W st0 b st")
      case (Inr q)
      then obtain y st' where y: "evaluate (n - ops a) W st0 b st = Inr (y, st')" by (cases q) simp
      show ?thesis
        using a b [of st x] r [OF x y] x y by (simp add: sbind_apply n(1) ac_simps)
    qed (use a b [of st x] x in \<open>simp add: sbind_apply\<close>)
  qed (use a in \<open>simp add: sbind_apply\<close>)
qed simp_all

lemma run_loop_ret:
  assumes "code_at (rt_code s) (rt_current s) (encode (Plain kRet))"
  shows "run_loop (Suc n) W base s = w_events W (s\<lparr>rt_current := rt_current s + 1\<rparr>)"
proof -
  have "run_loop (Suc n) W base s =
      rbind (w_events W (s\<lparr>rt_current := rt_current s + 1\<rparr>)) (\<lambda>(_, t). Inr ((), t))"
    using step_fetch [of s kRet "[]"] assms by (simp add: exec_op_def op_simps rbind_assoc case_prod_unfold)
  then show ?thesis
    by (cases "w_events W (s\<lparr>rt_current := rt_current s + 1\<rparr>)") auto
qed

lemma code_at_loaded:
  assumes "length bs \<le> 2 ^ 33"
  shows "code_at (load_region a bs m) a bs"
  unfolding code_at_def using assms
  by (intro exI [of _ a] exI [of _ "[]"] exI [of _ "[]"] exI [of _ m]) simp

lemma run_code_of:
  assumes "computes st0 e" "rt_code s = load_region at (code_of st0 e) m" "length (code_of st0 e) \<le> 4096"
    and "GetOperationStack s = Inr vs" "ops e < n"
  shows "Run n W at s =
    rbind (evaluate n W st0 e (rt_store s)) (\<lambda>(v, st).
      w_events W (moved st (at + of_nat (length (code_of st0 e))) (v # vs) s))"
proof -
  let ?s = "s\<lparr>rt_current := at\<rparr>" and ?len = "of_nat (length (bytes (code st0 e))) :: uword"
  have "code_at (rt_code s) at (bytes (code st0 e) @ encode (Plain kRet))"
    using code_at_loaded [of "code_of st0 e" at m] assms(2,3) by (simp add: code_of_def)
  note c = code_at_append [OF this]
  obtain k where k: "n - ops e = Suc k" using assms(5) by (cases "n - ops e") simp_all
  have "Run n W at s = run_loop n W at ?s"
    by (simp add: Run_def set_current_def op_simps)
  also have "\<dots> = rbind (evaluate n W st0 e (rt_store s)) (\<lambda>(v, st).
      run_loop (Suc k) W at (moved st (at + ?len) (v # vs) s))"
    using run_loop_code [of st0 e ?s vs n W at] assms(1,4,5) c(1) k by simp
  also have "\<dots> = rbind (evaluate n W st0 e (rt_store s)) (\<lambda>(v, st).
      w_events W (moved st (at + of_nat (length (code_of st0 e))) (v # vs) s))"
  proof -
    have "run_loop (Suc k) W at (moved st (at + ?len) (v # vs) s) =
        w_events W (moved st (at + of_nat (length (code_of st0 e))) (v # vs) s)" for v st
      using run_loop_ret [of "moved st (at + ?len) (v # vs) s" k W at] c(2)
      by (simp add: moved_def set_stack_update code_of_def ac_simps del: run_loop.simps)
    then show ?thesis by simp
  qed
  finally show ?thesis .
qed

text \<open>C3. Compiling and running. A lambda whose body is one expression of operators and literals
  compiles, and the interpreter, run on the code, pushes the value that the expression has when it
  is evaluated from left to right, and nothing else, then runs the pending events; where the
  evaluation fails, so does the run, in the same way. This asks for room in the assembler's buffer
  (4096 bytes), for fuel for one step of every operation and the return, for a macro expander that
  leaves the lambda alone and for a lambda without variables; the pedantic checks are off.\<close>

theorem compiled_code_computes_value:
  assumes "lambda_at a (rt_store rt) = Inr lm" "\<not> IsAllocated (lm_code lm)" "lm_body lm = [e]"
    and "computes (rt_store rt) e" "length (code_of (rt_store rt) e) \<le> 4096" "ops e + 3 < fuel"
    and "\<not> be_pedantic E" "expand a scope rt = Inr ((), rt)" "code_start \<noteq> 0"
    and "fresh_scopes (scopes_of rt)" "no_locals (scopes_of rt) (lm_scope lm)"
    and "GetOperationStack rt = Inr vs" "ops e < n"
  shows "\<exists>rt'. Compile_lambda fuel E expand buffer_start code_start a scope rt = Inr (True, rt') \<and>
    rt_frames rt' = rt_frames rt \<and>
    Run n W code_start rt' =
      rbind (evaluate n W (rt_store rt) e (rt_store rt')) (\<lambda>(v, st).
        w_events W (set_stack (v # vs)
          (rt'\<lparr>rt_store := st, rt_current := code_start + of_nat (length (code_of (rt_store rt) e))\<rparr>)))"
proof -
  obtain sc where c: "Compile_lambda fuel E expand buffer_start code_start a scope rt =
    Inr (True, rt\<lparr>
      rt_store := put_obj a (OLambda (lm\<lparr>lm_code := \<lparr>r_start = code_start, r_size = of_nat (length (code_of (rt_store rt) e))\<rparr>\<rparr>))
        (with_scopes (rt_store rt) sc),
      rt_code := load_region code_start (code_of (rt_store rt) e) (rt_code rt)\<rparr>)"
    (is "_ = Inr (True, ?rt)")
    using Compile_lambda_single [where expand = expand and scope = scope and a = a and rt = rt and lm = lm and e = e
        and fuel = fuel and E = E and code_at = code_start and buffer_at = buffer_start, OF assms(1-11)] by blast
  have "GetOperationStack ?rt = Inr vs" using assms(12) by (simp add: GetOperationStack_def)
  then have "Run n W code_start ?rt =
      rbind (evaluate n W (rt_store rt) e (rt_store ?rt)) (\<lambda>(v, st).
        w_events W (moved st (code_start + of_nat (length (code_of (rt_store rt) e))) (v # vs) ?rt))"
    using assms(4,5,13) by (intro run_code_of) simp_all
  then show ?thesis
    using c by (intro exI [of _ ?rt]) (simp add: moved_def)
qed

definition example_expr :: expr where
  "example_expr = BinaryOpExpr BAdd (LiteralExpr 4176) (UnaryExpr UCar (LiteralExpr 4128))"

definition example_lambda :: lambda where
  "example_lambda = empty_lambda\<lparr>lm_body := [example_expr]\<rparr>"

definition example_frame :: frame where
  "example_frame = \<lparr>fr_id = 1, fr_target = TLambda 8384, fr_locals = 0, fr_return = 0, fr_stack = [4096]\<rparr>"

definition example_source :: runtime where
  "example_source = example_runtime\<lparr>
    rt_store := put_obj 8384 (OLambda example_lambda) example_store, rt_frames := [example_frame]\<rparr>"

definition example_env :: builder_env where
  "example_env = \<lparr>be_world = example_world, be_fuel = 3, be_pedantic = False, be_runtime_scope = None, be_list = 0,
    be_rx_scope = 0, be_publish_subject = 0, be_replay_subject = 0, be_subscribe = 0, be_complete = 0\<rparr>"

theorem compiled_code_computes_value_witness:
  "\<exists>rt'. Compile_lambda 8 example_env (\<lambda>a scope. ret ()) 16384 20480 8384 0 example_source = Inr (True, rt') \<and>
    rt_frames rt' = [example_frame] \<and>
    Run 5 example_world 20480 rt' =
      rbind (evaluate 5 example_world (rt_store example_source) example_expr (rt_store rt')) (\<lambda>(v, st).
        w_events example_world (set_stack [v, 4096]
          (rt'\<lparr>rt_store := st,
            rt_current := 20480 + of_nat (length (code_of (rt_store example_source) example_expr))\<rparr>)))"
proof -
  let ?st = "rt_store example_source"
  note ex = example_source_def example_runtime_def example_store_def example_objects_def put_obj_def
  have "lambda_at 8384 ?st = Inr example_lambda"
    by (simp add: ex lambda_at_def obj_at_def)
  moreover have c: "computes ?st example_expr"
    by (simp add: ex example_expr_def obj_at_def)
  moreover have "length (code_of ?st example_expr) \<le> 4096"
    by (simp add: ex example_expr_def code_of_def obj_at_def literal_code_def bytes_def binary_code_def)
  moreover have "fresh_scopes (scopes_of example_source)"
    by (simp add: ex fresh_scopes_def empty_scopes_def)
  ultimately show ?thesis
    using compiled_code_computes_value [where a = 8384 and rt = example_source and lm = example_lambda and e = example_expr
        and fuel = 8 and E = example_env and expand = "\<lambda>a scope. ret ()" and code_start = 20480 and buffer_start = 16384
        and scope = 0 and vs = "[4096]" and n = 5 and W = example_world]
    by (simp add: example_lambda_def empty_lambda_def IsAllocated_def example_expr_def example_env_def op_simps
        no_locals_def GetOperationStack_def example_frame_def example_source_def)
qed

end
