(* ===== verification/EvalCorrect.thy ===== *)
theory EvalCorrect
  imports ParserCorrect MacroExpanderCorrect CompilerCorrect
begin

text \<open>
  From a text to its value: \<open>Runtime::Eval\<close> with the parser, the macro expander, the compiler and
  the interpreter of the other theories in the places of its arguments, against an evaluator of
  sources.
\<close>

section \<open>The value of a source\<close>

datatype val = Whole uword | Flag bool

fun truth_of :: "val \<Rightarrow> bool" where
  "truth_of (Whole _) = True"
| "truth_of (Flag b) = b"

fun applied :: "binary_op \<Rightarrow> val \<Rightarrow> val \<Rightarrow> val option" where
  "applied BAdd (Whole v) (Whole w) = Some (Whole (v + w))"
| "applied BSubtract (Whole v) (Whole w) = Some (Whole (v - w))"
| "applied BMultiply (Whole v) (Whole w) = Some (Whole (v * w))"
| "applied BDivide (Whole v) (Whole w) = (if w = 0 then None else Some (Whole (v div w)))"
| "applied BModulus (Whole v) (Whole w) = (if w = 0 then None else Some (Whole (v mod w)))"
| "applied BGreaterThan (Whole v) (Whole w) = Some (Flag (w < v))"
| "applied BGreaterThanEqual (Whole v) (Whole w) = Some (Flag (w \<le> v))"
| "applied BLessThan (Whole v) (Whole w) = Some (Flag (v < w))"
| "applied BLessThanEqual (Whole v) (Whole w) = Some (Flag (v \<le> w))"
| "applied BEquals x y = Some (Flag (x = y))"
| "applied BBinaryAnd (Flag a) y = Some (Flag (a \<and> truth_of y))"
| "applied BBinaryOr (Flag a) y = Some (Flag (a \<or> truth_of y))"
| "applied _ _ _ = None"

definition applied_opt :: "binary_op \<Rightarrow> val option \<Rightarrow> val option \<Rightarrow> val option" where
  "applied_opt op x y = (case (x, y) of (Some v, Some w) \<Rightarrow> applied op v w | _ \<Rightarrow> None)"

text \<open>Operators with more than two operands group to the left; what has no value here is not said
  to have none.\<close>

fun worth :: "source \<Rightarrow> val option" where
  "worth (SNum n) = Some (Whole (of_nat n))"
| "worth (SBool b) = Some (Flag b)"
| "worth (SUnary op a) =
    (if op = UNot then map_option (\<lambda>v. Flag (\<not> truth_of v)) (worth a) else None)"
| "worth (SBinary op a b es) = foldl (applied_opt op) (worth a) (worth b # map worth es)"
| "worth _ = None"

fun obj_of :: "val \<Rightarrow> obj" where
  "obj_of (Whole w) = OLong w"
| "obj_of (Flag b) = OBool b"

section \<open>The value of an expression\<close>

fun value_in :: "store \<Rightarrow> expr \<Rightarrow> val option" where
  "value_in st (LiteralExpr v) =
    (case obj_at v st of Inr (OLong w) \<Rightarrow> Some (Whole w) | Inr (OBool b) \<Rightarrow> Some (Flag b) | _ \<Rightarrow> None)"
| "value_in st (UnaryExpr op a) =
    (if op = UNot then map_option (\<lambda>v. Flag (\<not> truth_of v)) (value_in st a) else None)"
| "value_in st (BinaryOpExpr op a b) = applied_opt op (value_in st a) (value_in st b)"
| "value_in st _ = None"

lemma applied_opt_None [simp]: "applied_opt op None y = None" "applied_opt op x None = None"
  by (auto simp: applied_opt_def split: option.split)

lemma foldl_applied_None: "foldl (applied_opt op) None ys = None"
  by (induction ys) simp_all

lemma value_computes: "value_in st e = Some v \<Longrightarrow> computes st e"
proof (induction st e arbitrary: v rule: value_in.induct)
  case (1 st w)
  then show ?case by (auto split: sum.splits obj.splits)
next
  case (3 st op a b)
  then show ?case by (cases "value_in st a"; cases "value_in st b") auto
qed (auto split: if_splits)

lemma value_operands:
  "list_all2 (\<lambda>e y. worth e = value_in st y) es ys \<Longrightarrow>
    value_in st (foldl (BinaryOpExpr op) x ys) = foldl (applied_opt op) (value_in st x) (map worth es)"
  by (induction es ys arbitrary: x rule: list_all2_induct) simp_all

lemma ops_operands: "ops (foldl (BinaryOpExpr op) x ys) = ops x + sum_list (map (\<lambda>y. ops y + 1) ys)"
  by (induction ys arbitrary: x) simp_all

definition truths_at :: "store \<Rightarrow> bool" where
  "truths_at st \<longleftrightarrow> st_true st \<noteq> 0 \<and> st_false st \<noteq> 0 \<and>
    st_objs st (st_true st) = Some (OBool True) \<and> st_objs st (st_false st) = Some (OBool False)"

lemma foldl_applied_Some:
  "foldl (applied_opt op) x ys = Some v \<Longrightarrow> x \<noteq> None \<and> None \<notin> set ys"
proof (induction ys arbitrary: x)
  case (Cons y ys)
  then have "applied_opt op x y \<noteq> None" using foldl_applied_None by auto
  then show ?case using Cons by (auto simp: applied_opt_def split: option.splits)
qed simp

definition agrees :: "store \<Rightarrow> source \<Rightarrow> expr \<Rightarrow> bool" where
  "agrees st e x \<longleftrightarrow> (\<forall>v. worth e = Some v \<longrightarrow> value_in st x = Some v \<and> ops x + 1 \<le> 2 * nodes e)"

lemma agrees_operands:
  "list_all2 (agrees st) es ys \<Longrightarrow> None \<notin> worth ` set es \<Longrightarrow>
    list_all2 (\<lambda>e y. worth e = value_in st y) es ys \<and>
    sum_list (map (\<lambda>y. ops y + 1) ys) \<le> 2 * sum_list (map nodes es)"
proof (induction es ys rule: list_all2_induct)
  case (Cons e es y ys)
  then show ?case by (cases "worth e") (fastforce simp: agrees_def)+
qed simp

lemma means_agrees:
  assumes "means st e x" "truths_at st"
  shows "agrees st e x"
  using assms(1)
proof induction
  case (1 v n)
  then show ?case by (simp add: agrees_def obj_at_def)
next
  case (2 v b)
  then show ?case using assms(2) by (auto simp: agrees_def obj_at_def truths_at_def)
next
  case (3 a x op)
  then show ?case by (auto simp: agrees_def)
next
  case (4 a x b y es zs op)
  have ag: "agrees st a x" "agrees st b y" "list_all2 (agrees st) es zs"
    using 4 by (auto elim: list_all2_mono)
  show ?case
    unfolding agrees_def
  proof (intro allI impI)
    fix v assume "worth (SBinary op a b es) = Some v"
    then have w: "foldl (applied_opt op) (applied_opt op (worth a) (worth b)) (map worth es) = Some v" by simp
    then have n: "applied_opt op (worth a) (worth b) \<noteq> None" "None \<notin> worth ` set es"
      using foldl_applied_Some [OF w] by auto
    then have ab: "value_in st x = worth a" "value_in st y = worth b" "ops x + 1 \<le> 2 * nodes a" "ops y + 1 \<le> 2 * nodes b"
      using ag(1,2) by (auto simp: agrees_def applied_opt_def split: option.splits)
    note es = agrees_operands [OF ag(3) n(2)]
    show "value_in st (foldl (BinaryOpExpr op) (BinaryOpExpr op x y) zs) = Some v \<and>
        ops (foldl (BinaryOpExpr op) (BinaryOpExpr op x y) zs) + 1 \<le> 2 * nodes (SBinary op a b es)"
      using value_operands [of st es zs] es w ab by (simp add: ops_operands)
  qed
qed (simp_all add: agrees_def)

section \<open>Evaluating in a store with room\<close>

definition able :: "machine \<Rightarrow> nat \<Rightarrow> store \<Rightarrow> bool" where
  "able M k st \<longleftrightarrow> sane_machine M \<and> store_ok st \<and> fresh_scopes (st_scopes st) \<and> truths_at st \<and>
    k * max_cost < store_free st"

definition adds :: "machine \<Rightarrow> nat \<Rightarrow> store \<Rightarrow> store \<Rightarrow> bool" where
  "adds M k st st' \<longleftrightarrow> able M k st' \<and> st_objs st \<subseteq>\<^sub>m st_objs st' \<and> st_scopes st' = st_scopes st \<and> st_pool st' = st_pool st"

lemma adds_trans: "adds M j st st1 \<Longrightarrow> adds M k st1 st2 \<Longrightarrow> adds M k st st2"
  unfolding adds_def using map_le_trans by metis

lemma able_less: "able M k st \<Longrightarrow> j \<le> k \<Longrightarrow> able M j st"
proof -
  assume "able M k st" "j \<le> k"
  moreover have "j * max_cost \<le> k * max_cost" using \<open>j \<le> k\<close> by simp
  ultimately show "able M j st" unfolding able_def by linarith
qed

lemma adds_refl: "able M k st \<Longrightarrow> j \<le> k \<Longrightarrow> adds M j st st"
  by (simp add: adds_def able_less)

lemma truths_kept: "truths_at st \<Longrightarrow> st_objs st \<subseteq>\<^sub>m st_objs st' \<Longrightarrow> st_true st' = st_true st \<Longrightarrow>
    st_false st' = st_false st \<Longrightarrow> truths_at st'"
  by (auto simp: truths_at_def map_le_def dom_def)

lemma new_obj_adds:
  assumes "able M (Suc k) st" "kind_of x \<noteq> KModule"
  shows "\<exists>a st'. new_obj M x st = Inr (a, st') \<and> a \<noteq> 0 \<and> st_objs st a = None \<and> st_objs st' a = Some x \<and> adds M k st st'"
proof -
  have r: "store_ok st" "sane_machine M" "max_cost < store_free st" "truths_at st" "fresh_scopes (st_scopes st)"
    "Suc k * max_cost < store_free st"
    using assms(1) by (simp_all add: able_def)
  obtain a h where a: "new_obj M x st = Inr (a, st\<lparr>st_heap := h, st_objs := (st_objs st)(a \<mapsto> x)\<rparr>)"
      "store_ok (st\<lparr>st_heap := h, st_objs := (st_objs st)(a \<mapsto> x)\<rparr>)" "a \<noteq> 0" "st_objs st a = None"
      "store_free st \<le> store_free (st\<lparr>st_heap := h\<rparr>) + max_cost"
    using new_obj_step [OF r(1,2) assms(2) r(3)] by auto
  let ?st' = "st\<lparr>st_heap := h, st_objs := (st_objs st)(a \<mapsto> x)\<rparr>"
  have "k * max_cost < store_free ?st'" using a(5) r(6) by simp
  moreover have m: "st_objs st \<subseteq>\<^sub>m st_objs ?st'" using a(4) by (auto simp: map_le_def)
  moreover have "truths_at ?st'" using truths_kept [OF r(4) m] by simp
  ultimately have "adds M k st ?st'" using r(2,5) a(2) by (simp add: adds_def able_def)
  then show ?thesis using a(1,3,4) by (intro exI [of _ a] exI [of _ ?st']) simp
qed

text \<open>A result with the object of a value.\<close>

definition gives :: "machine \<Rightarrow> nat \<Rightarrow> store \<Rightarrow> val \<Rightarrow> (uword \<times> store) res \<Rightarrow> bool" where
  "gives M k st v r \<longleftrightarrow> (\<exists>a st'. r = Inr (a, st') \<and> a \<noteq> 0 \<and> st_objs st' a = Some (obj_of v) \<and> adds M k st st')"

lemma Long_gives: "able M (Suc k) st \<Longrightarrow> gives M k st (Whole w) (Long_New M w st)"
  using new_obj_adds [of M k st "OLong w"] by (auto simp: gives_def Long_New_def)

lemma Box_gives: "able M k st \<Longrightarrow> gives M k st (Flag b) (Bool_Box b st)"
  using adds_refl [of M k st k]
  by (auto simp: gives_def Bool_Box_def Bool_True_def Bool_False_def op_simps able_def truths_at_def guardr_def)

lemma gives_weaken: "gives M k st v r \<Longrightarrow> j \<le> k \<Longrightarrow> gives M j st v r"
  unfolding gives_def adds_def using able_less by blast

lemma settled_gives:
  assumes "gives M k st v (m st)" "M = w_machine W"
  shows "gives M k st v (sbind m (settled W) st)"
proof -
  obtain a st' where a: "m st = Inr (a, st')" "a \<noteq> 0" "st_objs st' a = Some (obj_of v)" "adds M k st st'"
    using assms(1) by (auto simp: gives_def)
  have "IsNull a st' = Inr False" using a(2,3) by (cases v) (simp_all add: IsNull_def obj_at_def)
  then show ?thesis using a by (simp add: gives_def settled_def op_simps)
qed

lemma holds_obj_at: "a \<noteq> 0 \<Longrightarrow> st_objs st a = Some x \<Longrightarrow> obj_at a st = Inr x"
  by (simp add: obj_at_def)

lemma Truth_of: "a \<noteq> 0 \<Longrightarrow> st_objs st a = Some (obj_of v) \<Longrightarrow> Truth a st = Inr (truth_of v)"
  by (cases v) (simp_all add: Truth_def holds_obj_at IsNull_def)

lemma Arith_gives:
  assumes "able M (Suc k) st" "obj_at a st = Inr (OLong v)" "obj_at b st = Inr (OLong w)" "long_arith op v w = Inr u"
  shows "gives M k st (Whole u) (Arith M op a b st)"
  using Long_gives [OF assms(1), of u] assms(2-4)
  by (simp add: Arith_def Long_arith_def op_simps IsNumber_def long_value_def)

lemma compared_gives:
  assumes "able M k st" "obj_at a st = Inr (OLong v)" "obj_at b st = Inr (OLong w)" "b \<noteq> 0"
  shows "gives M k st (Flag (p (if v < w then -1 else if w < v then 1 else 0))) (compared a b p st)"
  using Box_gives [OF assms(1), of "p (if v < w then -1 else if w < v then 1 else 0)"] assms(2-4)
  by (simp add: compared_def op_simps Compare_def guardr_def)

abbreviation sign :: "uword \<Rightarrow> uword \<Rightarrow> int" where
  "sign x y \<equiv> if x < y then -1 else if y < x then 1 else 0"

lemma signs:
  "(0 < sign x y) = (y < x)" "(0 \<le> sign x y) = (y \<le> x)" "(sign x y < 0) = (x < y)" "(sign x y \<le> 0) = (x \<le> y)"
  using less_linear [of x y] by (elim disjE; simp add: not_less less_imp_le order.strict_implies_not_eq)+

lemma apply_compare_gives:
  assumes "able M k st" "applied op (Whole x) (Whole y) = Some u"
    and "op \<in> {BGreaterThan, BGreaterThanEqual, BLessThan, BLessThanEqual}"
    and "obj_at a st = Inr (OLong x)" "obj_at b st = Inr (OLong y)" "b \<noteq> 0"
  shows "gives M k st u (apply_binary n W op a b st)"
proof -
  note c = compared_gives [OF assms(1,4-6)]
  note cs = c [of "\<lambda>c. 0 < c", unfolded signs] c [of "\<lambda>c. 0 \<le> c", unfolded signs]
    c [of "\<lambda>c. c < 0", unfolded signs] c [of "\<lambda>c. c \<le> 0", unfolded signs]
  show ?thesis
    using cs assms(2,3) unfolding apply_binary_def
    by (elim insertE emptyE) (simp_all only: binary_op.case applied.simps option.inject)
qed

lemma apply_arith_gives:
  assumes "able M (Suc k) st" "M = w_machine W" "applied op (Whole x) (Whole y) = Some u"
    and "op \<in> {BAdd, BSubtract, BMultiply, BDivide, BModulus}"
    and "obj_at a st = Inr (OLong x)" "obj_at b st = Inr (OLong y)"
  shows "gives M k st u (apply_binary n W op a b st)"
  using Arith_gives [OF assms(1,5,6)] assms(2-4)
  by (auto simp: apply_binary_def long_arith_def guardr_def split: if_splits)

lemma apply_equals_gives:
  assumes "able M k st" "a \<noteq> 0" "st_objs st a = Some (obj_of v)" "b \<noteq> 0" "st_objs st b = Some (obj_of w)"
  shows "gives M k st (Flag (v = w)) (apply_binary n W BEquals a b st)"
proof -
  have "Equals n (w_machine W) a b st = Inr (v = w)"
    using holds_obj_at [OF assms(2,3)] holds_obj_at [OF assms(4,5)] assms(4)
    by (subst Equals.simps) (cases v; cases w; simp)
  then show ?thesis using Box_gives [OF assms(1)] by (simp add: apply_binary_def op_simps)
qed

lemma apply_logic_gives:
  assumes "able M k st" "applied op (Flag x) w = Some u" "op \<in> {BBinaryAnd, BBinaryOr}"
    and "obj_at a st = Inr (OBool x)" "Truth b st = Inr (truth_of w)"
  shows "gives M k st u (apply_binary n W op a b st)"
  using Box_gives [OF assms(1)] assms(2-5)
  by (auto simp: apply_binary_def And_def Or_def op_simps split: if_splits)

lemma apply_binary_gives:
  assumes "able M (Suc k) st" "M = w_machine W" "applied op v w = Some u"
    and "a \<noteq> 0" "st_objs st a = Some (obj_of v)" "b \<noteq> 0" "st_objs st b = Some (obj_of w)"
  shows "gives M k st u (apply_binary n W op a b st)"
proof -
  have k: "able M k st" using able_less [OF assms(1)] by simp
  note at = holds_obj_at [OF assms(4,5)] holds_obj_at [OF assms(6,7)]
  consider "op = BEquals" | x where "op \<in> {BBinaryAnd, BBinaryOr}" "v = Flag x"
    | x y where "op \<in> {BGreaterThan, BGreaterThanEqual, BLessThan, BLessThanEqual}" "v = Whole x" "w = Whole y"
    | x y where "op \<in> {BAdd, BSubtract, BMultiply, BDivide, BModulus}" "v = Whole x" "w = Whole y"
    using assms(3) by (cases "(op, v, w)" rule: applied.cases) auto
  then show ?thesis
  proof cases
    case 1
    then have "u = Flag (v = w)" using assms(3) by (cases v; cases w) auto
    then show ?thesis using 1 apply_equals_gives [OF k assms(4-7)] by simp
  next
    case 2
    then show ?thesis using apply_logic_gives [OF k _ _ _ Truth_of [OF assms(6,7)]] at assms(3) by simp
  next
    case 3
    then show ?thesis using apply_compare_gives [OF k _ _ _ _ assms(6)] at assms(3) by simp
  next
    case 4
    then show ?thesis using apply_arith_gives [OF assms(1,2)] at assms(3) by simp
  qed
qed

lemma gives_bind:
  assumes "gives M (j + k) st v (m st)"
    and "\<And>a t. a \<noteq> 0 \<Longrightarrow> st_objs t a = Some (obj_of v) \<Longrightarrow> adds M (j + k) st t \<Longrightarrow> gives M k t u (f a t)"
  shows "gives M k st u (sbind m f st)"
proof -
  obtain a t where a: "m st = Inr (a, t)" "a \<noteq> 0" "st_objs t a = Some (obj_of v)" "adds M (j + k) st t"
    using assms(1) by (auto simp: gives_def)
  obtain b t' where b: "f a t = Inr (b, t')" "b \<noteq> 0" "st_objs t' b = Some (obj_of u)" "adds M k t t'"
    using assms(2) [OF a(2-4)] by (auto simp: gives_def)
  then show ?thesis using a adds_trans [OF a(4) b(4)] by (simp add: gives_def op_simps)
qed

lemma evaluate_gives:
  "value_in st0 e = Some v \<Longrightarrow> M = w_machine W \<Longrightarrow> able M (ops e + k) st \<Longrightarrow> gives M k st v (evaluate n W st0 e st)"
proof (induction e arbitrary: v k st n)
  case (LiteralExpr x)
  have a: "able M (Suc k) st" "able M k st" using LiteralExpr.prems(3) able_less by auto
  have "gives M k st v (literal_value W st0 x st)"
    using LiteralExpr.prems(1,2) Long_gives [OF a(1)] Box_gives [OF a(2), of True] Box_gives [OF a(2), of False]
    by (auto simp: literal_value_def Bool_Box_def split: sum.splits obj.splits if_splits)
  then show ?case using settled_gives LiteralExpr.prems(2) by simp
next
  case (UnaryExpr op e)
  obtain w where w: "op = UNot" "value_in st0 e = Some w" "v = Flag (\<not> truth_of w)"
    using UnaryExpr.prems(1) by (auto split: if_splits)
  have "gives M (1 + k) st w (evaluate n W st0 e st)"
    using UnaryExpr.prems w by (intro UnaryExpr.IH) simp_all
  then show ?case
    unfolding evaluate.simps
  proof (rule gives_bind)
    fix a t assume t: "a \<noteq> 0" "st_objs t a = Some (obj_of w)" "adds M (1 + k) st t"
    then have "able M k t" using able_less [of M "1 + k" t k] by (simp add: adds_def)
    then have "gives M k t v (apply_unary W op a t)"
      using Box_gives [of M k t "\<not> truth_of w"] Truth_of [OF t(1,2)] w by (simp add: apply_unary_def op_simps)
    then show "gives M k t v (sbind (apply_unary W op a) (settled W) t)"
      using settled_gives UnaryExpr.prems(2) by simp
  qed
next
  case (BinaryOpExpr op e f)
  obtain x y where xy: "value_in st0 e = Some x" "value_in st0 f = Some y" "applied op x y = Some v"
    using BinaryOpExpr.prems(1) by (auto simp: applied_opt_def split: option.splits)
  have "gives M ((ops f + 1) + k) st x (evaluate n W st0 e st)"
    using BinaryOpExpr.prems xy by (intro BinaryOpExpr.IH) (simp_all add: ac_simps)
  then show ?case
    unfolding evaluate.simps
  proof (rule gives_bind)
    fix a t assume t: "a \<noteq> 0" "st_objs t a = Some (obj_of x)" "adds M ((ops f + 1) + k) st t"
    have "gives M (1 + k) t y (evaluate (n - ops e) W st0 f t)"
      using BinaryOpExpr.prems(2) xy t(3) by (intro BinaryOpExpr.IH) (simp_all add: adds_def ac_simps)
    then show "gives M k t v (sbind (evaluate (n - ops e) W st0 f) (\<lambda>y. sbind (apply_binary (n - ops e - ops f) W op a y) (settled W)) t)"
    proof (rule gives_bind)
      fix b u assume u: "b \<noteq> 0" "st_objs u b = Some (obj_of y)" "adds M (1 + k) t u"
      have "st_objs u a = Some (obj_of x)" using t(2) u(3) by (auto simp: adds_def map_le_def dom_def)
      then have "gives M k u v (apply_binary (n - ops e - ops f) W op a b u)"
        using apply_binary_gives [OF _ BinaryOpExpr.prems(2) xy(3) t(1) _ u(1,2)] u(3) by (simp add: adds_def)
      then show "gives M k u v (sbind (apply_binary (n - ops e - ops f) W op a b) (settled W) u)"
        using settled_gives BinaryOpExpr.prems(2) by simp
    qed
  qed
qed simp_all

section \<open>The symbol of a call without a name\<close>

definition dollar :: string where
  "dollar = ''$''"

definition dollar_ready :: "store \<Rightarrow> bool" where
  "dollar_ready st \<longleftrightarrow> (case contents (pool_trie (st_pool st)) dollar of
     None \<Rightarrow> True
   | Some y \<Rightarrow> y \<noteq> 0 \<and> (\<exists>s. st_objs st y = Some (OSymbol s) \<and> GetFullyQualifiedName s \<noteq> []))"

lemma dollar_scopes [simp]: "dollar_ready (st\<lparr>st_scopes := sc\<rparr>) = dollar_ready st"
  by (simp add: dollar_ready_def cong: option.case_cong)

lemma adds_dollar: "adds M k st st' \<Longrightarrow> dollar_ready st \<Longrightarrow> dollar_ready st'"
  by (auto simp: dollar_ready_def adds_def map_le_def dom_def split: option.splits)

lemma Symbol_New_dollar:
  assumes "able M (Suc k) st" "dollar_ready st"
  shows "\<exists>y st' s. Symbol_New_text M dollar st = Inr (y, st') \<and> y \<noteq> 0 \<and> st_objs st' y = Some (OSymbol s) \<and>
    GetFullyQualifiedName s \<noteq> [] \<and> able M k st' \<and> st_objs st \<subseteq>\<^sub>m st_objs st' \<and> st_scopes st' = st_scopes st"
proof -
  let ?y = "\<lparr>sym_ns = [], sym_type = [], sym_name = dollar\<rparr>"
  have p: "symbol_parts dollar = Inr ([], [], dollar)" "symbol_text [] [] dollar = dollar" "dollar \<noteq> []"
    by (code_simp, simp_all add: symbol_text_def dollar_def)
  have n: "NewInternal dollar = Inr ?y" by (simp add: NewInternal_def p new_Symbol_def)
  have al: "\<forall>c\<in>set dollar. in_alphabet c" by (simp add: dollar_def in_alphabet_def kAlphabetSize_def)
  have kd: "kind_of (OSymbol ?y) \<noteq> KModule" by (simp add: kind_of_def)
  have gy: "GetFullyQualifiedName ?y \<noteq> []" by (simp add: GetFullyQualifiedName_def HasNamespace_def HasSymbolType_def p(3))
  obtain a st' where a: "new_obj M (OSymbol ?y) st = Inr (a, st')" "a \<noteq> 0" "st_objs st' a = Some (OSymbol ?y)"
      "adds M k st st'"
    using new_obj_adds [OF assms(1) kd] by blast
  let ?pool = "st_pool st" and ?f = "\<lambda>(_ :: unit) st. rbind (NewInternal dollar) (\<lambda>s. new_obj M (OSymbol s) st)"
  have f: "?f () st = Inr (a, st')" using n a(1) by simp
  have pool_able: "able M k (st\<lparr>st_pool := q\<rparr>)" if "able M k st" for q and st :: store
    using that by (simp add: able_def store_ok_def class_named_def truths_at_def store_free_def)
  show ?thesis
  proof (cases "pool_size ?pool + 1 \<le> kSymbolPoolMaxSize")
    case False
    then have "Symbol_New_text M dollar st = Inr (a, st'\<lparr>st_pool := ?pool\<rparr>)"
      using p f by (simp add: Symbol_New_text_def pool_New_text_def pool_New_def Let_def)
    then show ?thesis
      using a gy pool_able by (intro exI [of _ a] exI [of _ "st'\<lparr>st_pool := ?pool\<rparr>"] exI [of _ ?y]) (simp add: adds_def)
  next
    case room: True
    show ?thesis
    proof (cases "contents (pool_trie ?pool) dollar")
      case None
      obtain t where "trie_SearchOrCreate 0 dollar ?f (pool_trie ?pool) st = Inr (a, t, st')"
        using trie_SearchOrCreate_miss [of dollar _ ?f st a st', OF al None f] by blast
      then obtain q where "Symbol_New_text M dollar st = Inr (a, st'\<lparr>st_pool := q\<rparr>)"
        using p room a(2) by (simp add: Symbol_New_text_def pool_New_text_def pool_New_def Let_def)
      then show ?thesis
        using a gy pool_able by (intro exI [of _ a] exI [of _ "st'\<lparr>st_pool := q\<rparr>"] exI [of _ ?y]) (simp add: adds_def)
    next
      case (Some y)
      then obtain s where s: "y \<noteq> 0" "st_objs st y = Some (OSymbol s)" "GetFullyQualifiedName s \<noteq> []"
        using assms(2) by (auto simp: dollar_ready_def)
      obtain t where "trie_SearchOrCreate 0 dollar ?f (pool_trie ?pool) st = Inr (y, t, st)"
        using trie_SearchOrCreate_hit [of dollar _ _ _ ?f, OF al Some] by blast
      then obtain q where "Symbol_New_text M dollar st = Inr (y, st\<lparr>st_pool := q\<rparr>)"
        using p room s(1) by (simp add: Symbol_New_text_def pool_New_text_def pool_New_def Let_def)
      then show ?thesis
        using s pool_able [OF able_less [OF assms(1), of k]]
        by (intro exI [of _ y] exI [of _ "st\<lparr>st_pool := q\<rparr>"] exI [of _ s]) simp
    qed
  qed
qed

section \<open>Compiling the lambda of an evaluation\<close>

text \<open>The runtime between calls from outside, in a scope.\<close>

definition between :: "machine \<Rightarrow> nat \<Rightarrow> nat \<Rightarrow> nat option \<Rightarrow> runtime \<Rightarrow> bool" where
  "between M k i p rt \<longleftrightarrow> able M k (rt_store rt) \<and> dollar_ready (rt_store rt) \<and> rt_frames rt = [] \<and>
    rt_scope rt = Some i \<and> (\<exists>ls. sc_map (scopes_of rt) i = Some \<lparr>sc_parent = p, sc_locals = ls\<rparr>)"

lemma value_template: "value_in st x = Some v \<Longrightarrow> template (expander_in st scope) x"
proof (induction x arbitrary: v)
  case (LiteralExpr w)
  then have "w \<noteq> 0" by (auto simp: obj_at_def)
  then show ?case
    using LiteralExpr by (auto simp: literal_name_def expander_in_def split: sum.splits obj.splits)
next
  case (BinaryOpExpr op e f)
  then show ?case by (auto simp: applied_opt_def split: option.splits)
next
  case (UnaryExpr op e)
  have "mx_frames (expander_in st scope) = []" by (simp add: expander_in_def)
  then show ?case by (simp add: not_mentioned no_arguments)
qed simp_all

lemma size_ops: "computes st x \<Longrightarrow> size x < ops x"
  by (induction st x rule: computes.induct) auto

lemma code_length: "computes st x \<Longrightarrow> length (bytes (code st x)) \<le> 9 * ops x"
proof (induction st x rule: computes.induct)
  case (1 st v)
  then show ?case by (auto simp: literal_code_def split: sum.splits obj.splits)
qed auto

lemma code_of_length: "computes st x \<Longrightarrow> length (code_of st x) \<le> 9 * ops x + 1"
  using code_length [of st x] by (simp add: code_of_def)

lemma Compile_lambda_expand:
  assumes "expand a scope rt = Inr ((), rt1)" "lambda_at a (rt_store rt1) = lambda_at a (rt_store rt)"
    and "lambda_at a (rt_store rt) = Inr lm" "\<not> IsAllocated (lm_code lm)" "lm_body lm \<noteq> []"
  shows "Compile_lambda fuel E expand buffer_at code_start a scope rt =
    Compile_lambda fuel E (\<lambda>a scope. ret ()) buffer_at code_start a scope rt1"
proof -
  have "a \<noteq> 0" using assms(3) by (simp add: lambda_at_Inr)
  then show ?thesis
    using assms by (simp add: Compile_lambda_def CompileTarget_lambda_def op_simps stored_def)
qed

lemma able_scopes: "able M k st \<Longrightarrow> fresh_scopes sc \<Longrightarrow> able M k (with_scopes st sc)"
  by (simp add: able_def store_ok_scopes truths_at_def store_free_scopes)

lemma store_ok_put_lambda:
  assumes "store_ok st" "st_objs st a = Some (OLambda l)"
  shows "store_ok (put_obj a (OLambda l') st)"
proof -
  define st' where "st' = put_obj a (OLambda l') st"
  have f: "st_heap st' = st_heap st" "st_class st' = st_class st" "st_empty_pair st' = st_empty_pair st"
      "dom (st_objs st') = dom (st_objs st)"
    using assms(2) by (auto simp: st'_def put_obj_def)
  have at: "st_objs st' b = Some x" if "st_objs st b = Some x" "\<not> (\<exists>l. x = OLambda l)" for b x
    using that assms(2) by (auto simp: st'_def put_obj_def)
  have "class_named st' b n" if cn: "class_named st b n" for b n
  proof -
    obtain d where "b \<noteq> 0" "st_objs st b = Some (OClass d)" "cl_name d \<noteq> 0" "st_objs st (cl_name d) = Some (OString n)"
      using cn by (auto simp: class_named_def)
    then show ?thesis using at [of b "OClass d"] at [of "cl_name d" "OString n"] by (simp add: class_named_def)
  qed
  then have "store_ok st'" using assms(1) at [of "st_empty_pair st" "OPair 0 0"] f by (simp add: store_ok_def)
  then show ?thesis by (simp add: st'_def)
qed

lemma able_put:
  assumes "able M k st" "st_objs st a = Some (OLambda l)"
  shows "able M k (put_obj a (OLambda l') st)"
proof -
  have "a \<noteq> st_true st" "a \<noteq> st_false st" using assms by (auto simp: able_def truths_at_def)
  then show ?thesis
    using assms(1) store_ok_put_lambda [of st a l l'] assms(2)
    by (simp add: able_def truths_at_def) (simp add: put_obj_def store_free_def)
qed

lemma value_put:
  "value_in st x = Some v \<Longrightarrow> st_objs st a = Some (OLambda l) \<Longrightarrow> value_in (put_obj a (OLambda l') st) x = Some v"
proof (induction x arbitrary: v)
  case (LiteralExpr w)
  then show ?case by (cases "w = a") (auto simp: obj_at_def put_obj_def split: if_splits)
next
  case (BinaryOpExpr op e f)
  then show ?case by (auto simp: applied_opt_def split: option.splits)
qed (auto split: if_splits)

lemma value_scopes [simp]: "value_in (with_scopes st sc) x = value_in st x"
  by (induction x) simp_all

text \<open>The compiler with the macro expander.\<close>

definition compiles_with :: "nat \<Rightarrow> builder_env \<Rightarrow> uword \<Rightarrow> uword \<Rightarrow> world \<Rightarrow> bool" where
  "compiles_with n B buffer_start code_start W \<longleftrightarrow>
    w_compile W = Compile_lambda n B (ExpandAll_lambda n) buffer_start code_start \<and> \<not> be_pedantic B \<and> code_start \<noteq> 0"

definition has_code :: "uword \<Rightarrow> uword \<Rightarrow> expr \<Rightarrow> val \<Rightarrow> runtime \<Rightarrow> bool" where
  "has_code code_start a x v rt \<longleftrightarrow> (\<exists>st0 m lm. value_in st0 x = Some v \<and> lambda_at a (rt_store rt) = Inr lm \<and>
    lm_symbol lm = 0 \<and> lm_args lm = [] \<and> IsAllocated (lm_code lm) \<and> r_start (lm_code lm) = code_start \<and>
    rt_code rt = load_region code_start (code_of st0 x) m)"

lemma compile_runs:
  assumes "compiles_with n B buffer_start code_start W" "between M k i p rt"
    and "lambda_at a (rt_store rt) = Inr (empty_lambda\<lparr>lm_body := [x]\<rparr>)"
    and "value_in (rt_store rt) x = Some v" "ops x \<le> 450" "ops x + 3 < n"
  shows "runs (w_compile W a i) rt (\<lambda>ok t. ok \<and> between M k i p t \<and> has_code code_start a x v t)"
proof -
  let ?lm = "empty_lambda\<lparr>lm_body := [x]\<rparr>" and ?st = "rt_store rt"
  have W: "w_compile W = Compile_lambda n B (ExpandAll_lambda n) buffer_start code_start" "\<not> be_pedantic B" "code_start \<noteq> 0"
    using assms(1) by (simp_all add: compiles_with_def)
  have cp: "computes ?st x" using value_computes [OF assms(4)] .
  define rt1 where "rt1 = rt\<lparr>rt_store := mx_store (expander_in ?st i)\<rparr>"
  have fresh: "fresh_scopes (scopes_of rt)" using assms(2) by (simp add: between_def able_def)
  have more1: "more_scopes (scopes_of rt) (scopes_of rt1)"
    using more_scopes_New [OF fresh] by (simp add: rt1_def expander_in_def)
  have l1: "lambda_at a (rt_store rt1) = Inr ?lm"
    using assms(3) by (simp add: rt1_def expander_in_def lambda_at_scopes)
  have ex: "ExpandAll_lambda n a i rt = Inr ((), rt1)"
    unfolding rt1_def
  proof (rule ExpandAll_lambda_inert [OF assms(3)])
    have "size x < n" using size_ops [OF cp] assms(6) by simp
    then show "\<forall>e\<in>set (lm_body ?lm). template (expander_in ?st i) e \<and> size e < n"
      using value_template [OF assms(4)] by simp
    show "length (lm_body ?lm) \<le> n" using assms(6) by simp
  qed (simp add: empty_lambda_def)
  have un: "\<not> IsAllocated (lm_code ?lm)" by (simp add: empty_lambda_def IsAllocated_def)
  have st1: "computes (rt_store rt1) x" "code_of (rt_store rt1) x = code_of ?st x" "fresh_scopes (scopes_of rt1)"
    "no_locals (scopes_of rt1) (lm_scope ?lm)"
    using cp more1 by (simp_all add: rt1_def expander_in_def more_scopes_def no_locals_def empty_lambda_def code_of_def)
  have len: "length (code_of ?st x) \<le> 4096" using code_of_length [OF cp] assms(5) by simp
  obtain sc where c: "Compile_lambda n B (\<lambda>a scope. ret ()) buffer_start code_start a i rt1 =
      Inr (True, rt1\<lparr>
        rt_store := put_obj a (OLambda (?lm\<lparr>lm_code := \<lparr>r_start = code_start, r_size = of_nat (length (code_of ?st x))\<rparr>\<rparr>))
          (with_scopes (rt_store rt1) sc),
        rt_code := load_region code_start (code_of ?st x) (rt_code rt1)\<rparr>)" (is "_ = Inr (True, ?t)")
    and more: "more_scopes (scopes_of rt1) sc"
    using Compile_lambda_single [of a rt1 ?lm x n B "\<lambda>a scope. ret ()" i code_start buffer_start, OF l1 un _ st1(1) _ assms(6) W(2) _ W(3) st1(3,4)]
      len st1(2) by (auto simp: op_simps)
  have run: "w_compile W a i rt = Inr (True, ?t)"
    using Compile_lambda_expand [of "ExpandAll_lambda n" a i rt rt1 ?lm n B buffer_start code_start] ex un l1 assms(3) c by (simp add: W(1))
  have ob: "st_objs (with_scopes (rt_store rt1) sc) a = Some (OLambda ?lm)"
    using l1 by (simp add: lambda_at_Inr)
  have m: "more_scopes (scopes_of rt) sc" using more_scopes_trans [OF more1 more] .
  have "able M k (rt_store rt)" using assms(2) by (simp add: between_def)
  then have "able M k (with_scopes (rt_store rt1) sc)"
    using able_scopes [of M k "rt_store rt" sc] m by (simp add: rt1_def expander_in_def more_scopes_def)
  then have "able M k (rt_store ?t)" using able_put [OF _ ob] by simp
  moreover have "dollar_ready (rt_store ?t)"
    using assms(2,3) unfolding between_def dollar_ready_def
    by (auto simp: rt1_def expander_in_def put_obj_def lambda_at_Inr split: option.splits)
  moreover have "\<exists>ls. sc_map sc i = Some \<lparr>sc_parent = p, sc_locals = ls\<rparr>"
    using assms(2) m by (auto simp: between_def more_scopes_def map_le_def dom_def)
  ultimately have "between M k i p ?t"
    using assms(2) by (simp add: between_def rt1_def)
  moreover have "has_code code_start a x v ?t"
  proof -
    have "code_of ?st x \<noteq> []" by (simp add: code_of_def)
    then have "unat (of_nat (length (code_of ?st x)) :: uword) \<noteq> 0"
      using len unat_of_nat_uword [of "length (code_of ?st x)"] by simp
    then have "IsAllocated \<lparr>r_start = code_start, r_size = of_nat (length (code_of ?st x))\<rparr>"
      using W(3) by (simp add: IsAllocated_def word_le_nat_alt)
    then show ?thesis
      unfolding has_code_def using assms(3,4) ob
      by (intro exI [of _ ?st] exI [of _ "rt_code rt1"]) (simp add: lambda_at_Inr put_obj_def empty_lambda_def)
  qed
  ultimately show ?thesis using run by (auto simp: runs_def)
qed

section \<open>Running it\<close>

lemma finish_run:
  assumes "able M (ops x + k) (rt_store s)" "M = w_machine W" "w_events W = ret ()" "rt_frames s = []"
    and "value_in st0 x = Some v" "lambda_at a (rt_store s) = Inr lm" "r_start (lm_code lm) = code_start"
    and "rt_code s = load_region code_start (code_of st0 x) m" "ops x \<le> 450" "ops x < n"
  shows "runs (guarded (PushStackFrame (TLambda a) j)
      (sbind (stored (lambda_at a)) (\<lambda>c. sthen (Run n W (r_start (lm_code c))) (finish_call W)))) s
    (\<lambda>_ t. rt_result t \<noteq> 0 \<and> st_objs (rt_store t) (rt_result t) = Some (obj_of v) \<and> rt_frames t = [] \<and>
      rt_scope t = rt_scope s \<and> scopes_of t = scopes_of s)"
proof -
  have cp: "computes st0 x" using value_computes [OF assms(5)] .
  let ?f = "\<lparr>fr_id = next_frame_id s, fr_target = TLambda a, fr_locals = j, fr_return = rt_current s, fr_stack = []\<rparr>"
  define s1 where "s1 = s\<lparr>rt_frames := [?f]\<rparr>"
  obtain r st' where r: "evaluate n W st0 x (rt_store s1) = Inr (r, st')" "r \<noteq> 0" "st_objs st' r = Some (obj_of v)"
      "adds M k (rt_store s) st'"
    using evaluate_gives [OF assms(5,2,1), of n] by (auto simp: gives_def s1_def)
  let ?end_at = "code_start + of_nat (length (code_of st0 x))"
  have "length (code_of st0 x) \<le> 4096" using code_of_length [OF cp] assms(9) by simp
  then have "Run n W code_start s1 = Inr ((), moved st' ?end_at [r] s1)"
    using run_code_of [of st0 x s1 code_start m "[]" n W] cp assms(3,8,10) r(1)
    by (simp add: s1_def GetOperationStack_def op_simps)
  then show ?thesis
    using assms(4,6,7) r(2-4)
    by (simp add: runs_def guarded_def unwinding_def op_simps PushStackFrame_def stored_def s1_def frame_key_def finish_call_def
        PopStackFrame_def moved_def set_stack_def guardr_def adds_def)
qed

lemma between_less: "between M k i p rt \<Longrightarrow> j \<le> k \<Longrightarrow> between M j i p rt"
  using able_less by (auto simp: between_def)

lemma PushScope_runs_rt:
  assumes "able M k (rt_store rt)" "dollar_ready (rt_store rt)" "rt_frames rt = []"
  shows "\<exists>i sc. PushScope rt = Inr (i, rt\<lparr>rt_store := with_scopes (rt_store rt) sc, rt_scope := Some i\<rparr>) \<and>
    sc_map sc i = Some \<lparr>sc_parent = rt_scope rt, sc_locals = []\<rparr> \<and> more_scopes (scopes_of rt) sc \<and>
    i \<notin> dom (sc_map (scopes_of rt)) \<and>
    between M k i (rt_scope rt) (rt\<lparr>rt_store := with_scopes (rt_store rt) sc, rt_scope := Some i\<rparr>)"
proof -
  let ?sc = "snd (LocalScope_New (rt_scope rt) (scopes_of rt))" and ?i = "sc_next (scopes_of rt)"
  have f: "fresh_scopes (scopes_of rt)" using assms(1) by (simp add: able_def)
  have m: "more_scopes (scopes_of rt) ?sc" using more_scopes_New [OF f] .
  have "?i \<notin> dom (sc_map (scopes_of rt))" using f by (auto simp: fresh_scopes_def)
  moreover have "sc_map ?sc ?i = Some \<lparr>sc_parent = rt_scope rt, sc_locals = []\<rparr>"
    by (simp add: LocalScope_New_def new_LocalScope_def)
  moreover have "PushScope rt = Inr (?i, rt\<lparr>rt_store := with_scopes (rt_store rt) ?sc, rt_scope := Some ?i\<rparr>)"
    by (simp add: PushScope_def op_simps on_scopes_def on_store_def LocalScope_New_def new_LocalScope_def)
  moreover have "able M k (with_scopes (rt_store rt) ?sc)"
    using able_scopes [OF assms(1)] m by (simp add: more_scopes_def)
  moreover have "dollar_ready (with_scopes (rt_store rt) ?sc)" using assms(2) by simp
  ultimately show ?thesis
    using m assms(3) by (intro exI [of _ ?i] exI [of _ ?sc]) (simp add: between_def)
qed

text \<open>A variable in the empty innermost scope.\<close>

lemma add_variable:
  assumes "sc_map sc i = Some \<lparr>sc_parent = p, sc_locals = []\<rparr>" "name \<noteq> []" "v \<noteq> 0"
  shows "\<exists>l sc1 sc2. LocalVariable_New i name v sc = Inr (l, sc1) \<and> Add_local i l sc1 = Inr (True, sc2) \<and>
    sc_map sc2 = (sc_map sc)(i \<mapsto> \<lparr>sc_parent = p, sc_locals = [l]\<rparr>) \<and> (fresh_scopes sc \<longrightarrow> fresh_scopes sc2)"
  using assms
  by (auto simp: LocalVariable_New_def get_scope_def new_LocalVariable_def SetValue_def Let_def guardr_def Add_local_def
      get_local_def Has_def Lookup_from.simps fresh_scopes_def)

text \<open>A call of the compiled lambda.\<close>

lemma Call_Lambda_runs:
  assumes "between M (Suc (ops x + k)) i p rt" "M = w_machine W" "w_events W = ret ()" "has_code code_start a x v rt"
    and "ops x \<le> 450" "ops x < n"
  shows "runs (Call_Lambda W (Run n W) a []) rt
    (\<lambda>_ t. rt_result t \<noteq> 0 \<and> st_objs (rt_store t) (rt_result t) = Some (obj_of v) \<and> rt_frames t = [] \<and>
      rt_scope t = Some i \<and> (\<exists>ls. sc_map (scopes_of t) i = Some \<lparr>sc_parent = p, sc_locals = ls\<rparr>))"
proof -
  obtain st0 m lm where c: "value_in st0 x = Some v" "lambda_at a (rt_store rt) = Inr lm" "lm_symbol lm = 0" "lm_args lm = []"
      "IsAllocated (lm_code lm)" "r_start (lm_code lm) = code_start" "rt_code rt = load_region code_start (code_of st0 x) m"
    using assms(4) unfolding has_code_def by blast
  obtain ls where b: "able M (Suc (ops x + k)) (rt_store rt)" "dollar_ready (rt_store rt)" "rt_frames rt = []"
      "rt_scope rt = Some i" "sc_map (scopes_of rt) i = Some \<lparr>sc_parent = p, sc_locals = ls\<rparr>"
    using assms(1) unfolding between_def by blast
  obtain j sc where j: "PushScope rt = Inr (j, rt\<lparr>rt_store := with_scopes (rt_store rt) sc, rt_scope := Some j\<rparr>)"
      "sc_map sc j = Some \<lparr>sc_parent = Some i, sc_locals = []\<rparr>" "more_scopes (scopes_of rt) sc"
      "j \<notin> dom (sc_map (scopes_of rt))" "able M (Suc (ops x + k)) (with_scopes (rt_store rt) sc)"
    using PushScope_runs_rt [OF b(1-3)] b(4) by (auto simp: between_def)
  define st1 where "st1 = with_scopes (rt_store rt) sc"
  have st1: "able M (Suc (ops x + k)) st1" "dollar_ready st1" "lambda_at a st1 = Inr lm"
    using j(5) b(2) c(2) by (simp_all add: st1_def lambda_at_scopes)
  obtain y st2 s where y: "Symbol_New_text M dollar st1 = Inr (y, st2)" "y \<noteq> 0" "st_objs st2 y = Some (OSymbol s)"
      "GetFullyQualifiedName s \<noteq> []" "able M (ops x + k) st2" "st_objs st1 \<subseteq>\<^sub>m st_objs st2" "st_scopes st2 = sc"
    using Symbol_New_dollar [OF st1(1,2)] by (auto simp: st1_def)
  have l2: "lambda_at a st2 = Inr lm" "a \<noteq> 0"
    using st1(3) y(6) by (auto simp: lambda_at_Inr map_le_def dom_def)
  obtain l sc1 sc2 where v: "LocalVariable_New j (GetFullyQualifiedName s) a sc = Inr (l, sc1)"
      "Add_local j l sc1 = Inr (True, sc2)" "sc_map sc2 = (sc_map sc)(j \<mapsto> \<lparr>sc_parent = Some i, sc_locals = [l]\<rparr>)"
      "fresh_scopes sc \<longrightarrow> fresh_scopes sc2"
    using add_variable [OF j(2) y(4) l2(2)] by blast
  let ?s = "rt\<lparr>rt_scope := Some j, rt_store := with_scopes st2 sc2\<rparr>"
  have "able M (ops x + k) (rt_store ?s)"
    using able_scopes [OF y(5)] v(4) j(3) by (simp add: more_scopes_def)
  then have r: "runs (guarded (PushStackFrame (TLambda a) j)
      (sbind (stored (lambda_at a)) (\<lambda>c. sthen (Run n W (r_start (lm_code c))) (finish_call W)))) ?s
    (\<lambda>_ t. rt_result t \<noteq> 0 \<and> st_objs (rt_store t) (rt_result t) = Some (obj_of v) \<and> rt_frames t = [] \<and>
      rt_scope t = rt_scope ?s \<and> scopes_of t = scopes_of ?s)"
    using b(3) c l2(1) by (intro finish_run [OF _ assms(2,3) _ c(1) _ c(6) _ assms(5,6)]) (simp_all add: lambda_at_scopes)
  have i: "sc_map sc2 i = Some \<lparr>sc_parent = p, sc_locals = ls\<rparr>" and ij: "i \<noteq> j"
    using v(3) j(3,4) b(5) by (auto simp: more_scopes_def map_le_def dom_def)
  obtain t where t: "guarded (PushStackFrame (TLambda a) j)
      (sbind (stored (lambda_at a)) (\<lambda>c. sthen (Run n W (r_start (lm_code c))) (finish_call W))) ?s = Inr ((), t)"
      "rt_result t \<noteq> 0" "st_objs (rt_store t) (rt_result t) = Some (obj_of v)" "rt_frames t = []"
      "rt_scope t = Some j" "scopes_of t = sc2"
    using r by (auto simp: runs_def)
  have "PopScope t = Inr ((), t\<lparr>rt_scope := Some i\<rparr>)"
    using t(5,6) v(3) by (simp add: PopScope_def op_simps scoped_def stored_def get_scope_def)
  then show ?thesis
    using j(1) c y v l2 t i assms(2)
    by (simp add: runs_def Call_Lambda_def op_simps stored_def on_store_def add_local_def on_scopes_def symbol_at_def
        obj_at_def guardr_def st1_def dollar_def lambda_at_scopes)
qed

section \<open>Evaluating a text\<close>

lemma means_untouched: "grown k st st' \<Longrightarrow> st_true st' = st_true st \<and> st_false st' = st_false st \<and> st_pool st' = st_pool st"
  by (simp add: grown_def untouched_def)

lemma able_grown:
  assumes "able M (j + k) st" "grown j st st'"
  shows "able M k st'"
proof -
  have "truths_at st'"
    using assms truths_kept [of st st'] means_untouched [OF assms(2)] by (simp add: able_def grown_def)
  moreover have "k * max_cost < store_free st'"
    using assms by (simp add: able_def grown_def algebra_simps)
  ultimately show ?thesis using assms by (simp add: able_def grown_def)
qed

lemma dollar_grown: "grown k st st' \<Longrightarrow> dollar_ready st \<Longrightarrow> dollar_ready st'"
  by (auto simp: dollar_ready_def grown_def untouched_def map_le_def dom_def split: option.splits)

lemma able_room: "able (pe_machine P) k st \<Longrightarrow> j \<le> k \<Longrightarrow> j * max_cost < store_free st"
  using able_less by (auto simp: able_def)

lemma Eval_runs:
  assumes "worth e = Some v" "writable e" "nodes e \<le> 225" "2 * nodes e + 3 < n"
    and "w_machine W = pe_machine P" "compiles_with n B buffer_start code_start W" "w_events W = ret ()"
    and "able (pe_machine P) (3 * nodes e + 2) (rt_store rt)" "dollar_ready (rt_store rt)" "rt_frames rt = []"
  shows "runs (Eval W (Run n W) (ParseExpr n P) (show_source e)) rt
    (\<lambda>r t. r \<noteq> 0 \<and> st_objs (rt_store t) r = Some (obj_of v) \<and> rt_frames t = [] \<and> rt_scope t = rt_scope rt)"
proof -
  let ?M = "pe_machine P" and ?k = "2 * nodes e"
  have fuel: "nodes e \<le> n" using assms(4) by simp
  obtain i sc where i: "PushScope rt = Inr (i, rt\<lparr>rt_store := with_scopes (rt_store rt) sc, rt_scope := Some i\<rparr>)"
      "sc_map sc i = Some \<lparr>sc_parent = rt_scope rt, sc_locals = []\<rparr>"
      "between ?M (3 * nodes e + 2) i (rt_scope rt) (rt\<lparr>rt_store := with_scopes (rt_store rt) sc, rt_scope := Some i\<rparr>)"
    using PushScope_runs_rt [OF assms(8-10)] by blast
  define st1 where "st1 = with_scopes (rt_store rt) sc"
  have st1: "able ?M (Suc (3 * nodes e + 1)) st1" "dollar_ready st1" using i(3) by (simp_all add: between_def st1_def)
  obtain a st2 where a: "new_obj ?M (OLambda empty_lambda) st1 = Inr (a, st2)" "a \<noteq> 0"
      "st_objs st2 a = Some (OLambda empty_lambda)" "adds ?M (3 * nodes e + 1) st1 st2"
    using new_obj_adds [OF st1(1), of "OLambda empty_lambda"] by (auto simp: kind_of_def)
  have sc2: "st_scopes st2 = sc" "dollar_ready st2"
    using a(4) adds_dollar [OF a(4) st1(2)] by (simp_all add: adds_def st1_def)
  obtain l sc3 sc4 where l: "LocalVariable_New i ''this'' a sc = Inr (l, sc3)" "Add_local i l sc3 = Inr (True, sc4)"
      "sc_map sc4 = (sc_map sc)(i \<mapsto> \<lparr>sc_parent = rt_scope rt, sc_locals = [l]\<rparr>)"
      "fresh_scopes sc \<longrightarrow> fresh_scopes sc4"
    using add_variable [OF i(2), of "''this''" a] a(2) by auto
  define rt5 where "rt5 = rt\<lparr>rt_scope := Some i, rt_store := with_scopes st2 sc4\<rparr>"
  have ab2: "able ?M (nodes e + (?k + 1)) st2" using a(4) by (simp add: adds_def)
  then have "fresh_scopes sc4" using l(4) sc2(1) by (simp add: able_def)
  then have ab5: "able ?M (nodes e + (?k + 1)) (rt_store rt5)"
    using able_scopes [OF ab2] by (simp add: rt5_def)
  then obtain x st6 where x: "ParseExpr n P (show_source e) i rt5 = Inr (Some x, rt5\<lparr>rt_store := st6\<rparr>)"
      "means st6 e x" "grown (nodes e) (rt_store rt5) st6"
    using ParseExpr_source [OF assms(2) fuel, of P rt5 i] able_room [OF ab5] by (auto simp: able_def truths_at_def)
  have ab6: "able ?M (?k + 1) st6" using able_grown [OF ab5 x(3)] .
  have l6: "st_objs st6 a = Some (OLambda empty_lambda)"
    using x(3) a(3) by (auto simp: grown_def rt5_def map_le_def dom_def)
  have ag: "value_in st6 x = Some v" "ops x + 1 \<le> 2 * nodes e"
    using means_agrees [OF x(2)] ab6 assms(1) by (simp_all add: able_def agrees_def)
  define rt7 where "rt7 = rt5\<lparr>rt_store := put_obj a (OLambda (empty_lambda\<lparr>lm_body := [x]\<rparr>)) st6\<rparr>"
  have set: "set_body a (Some x) (rt5\<lparr>rt_store := st6\<rparr>) = Inr ((), rt7)"
    using l6 a(2) by (simp add: set_body_def op_simps stored_def on_store_def lambda_at_def obj_at_def rt7_def)
  have "dollar_ready st6" using dollar_grown [OF x(3)] sc2(2) by (simp add: rt5_def)
  then have "dollar_ready (rt_store rt7)"
    using l6 by (auto simp: dollar_ready_def rt7_def put_obj_def split: option.splits)
  moreover have "sc_map (scopes_of rt7) i = Some \<lparr>sc_parent = rt_scope rt, sc_locals = [l]\<rparr>"
    using x(3) l(3) by (auto simp: grown_def rt7_def rt5_def put_obj_def map_le_def dom_def)
  ultimately have bt: "between ?M (?k + 1) i (rt_scope rt) rt7"
    using able_put [OF ab6 l6] assms(10) by (simp add: between_def rt7_def rt5_def)
  have vx: "value_in (rt_store rt7) x = Some v" using value_put [OF ag(1) l6] by (simp add: rt7_def)
  have lx: "lambda_at a (rt_store rt7) = Inr (empty_lambda\<lparr>lm_body := [x]\<rparr>)"
    using a(2) by (simp add: lambda_at_def obj_at_def rt7_def put_obj_def)
  obtain t where t: "w_compile W a i rt7 = Inr (True, t)" "between ?M (?k + 1) i (rt_scope rt) t" "has_code code_start a x v t"
    using compile_runs [OF assms(6) bt lx vx] ag(2) assms(3,4) by (auto simp: runs_def)
  have "between ?M (Suc (ops x + 0)) i (rt_scope rt) t" using between_less [OF t(2)] ag(2) by simp
  note call = Call_Lambda_runs [OF this assms(5) [symmetric] assms(7) t(3), of n]
  have "ops x \<le> 450" "ops x < n" using ag(2) assms(3,4) by simp_all
  then obtain u where u: "Call_Lambda W (Run n W) a [] t = Inr ((), u)" "rt_result u \<noteq> 0"
      "st_objs (rt_store u) (rt_result u) = Some (obj_of v)" "rt_frames u = []" "rt_scope u = Some i"
      "\<exists>ls. sc_map (scopes_of u) i = Some \<lparr>sc_parent = rt_scope rt, sc_locals = ls\<rparr>"
    using call unfolding runs_def by (metis (full_types) old.unit.exhaust)
  let ?u = "u\<lparr>rt_result := 0\<rparr>"
  have cp: "CallPop W (Call_Lambda W (Run n W) a []) t = Inr (rt_result u, ?u)"
    using u by (simp add: CallPop_def op_simps guardr_def)
  have ps: "PopScope ?u = Inr ((), ?u\<lparr>rt_scope := rt_scope rt\<rparr>)"
    using u(5,6) by (auto simp: PopScope_def op_simps scoped_def stored_def get_scope_def)
  have shown: "show_source e \<noteq> []"
    using show_nat_digits by (cases e) (simp_all add: show_bool_def)
  have "Eval W (Run n W) (ParseExpr n P) (show_source e) rt = Inr (rt_result u, ?u\<lparr>rt_scope := rt_scope rt\<rparr>)"
    using i(1) a(1) l(1,2) sc2(1) x(1) set t(1) cp ps shown assms(5)
    by (simp add: Eval_def op_simps on_store_def on_scopes_def st1_def rt5_def guardr_def)
  then show ?thesis using u(2-4) by (simp add: runs_def)
qed

text \<open>C1. Evaluating a text. \<open>Runtime::Eval\<close>, given the text of a source of numbers, truth values and
  operators, parses, expands, compiles and runs it, and returns an object with the value that the
  source has under the reference evaluator: arithmetic modulo \<open>2^64\<close> grouped to the left, the
  comparisons, equality and the logical operators. The stack of frames and the current scope are
  as before. It is called from outside, with room in the heap for the objects of the parse and of
  the run, at most 225 nodes (the buffer of the assembler holds 4096 bytes), fuel for every
  operation, no pending events and the pedantic checks off.\<close>

theorem Eval_computes:
  assumes "worth e = Some v" "writable e" "nodes e \<le> 225" "2 * nodes e + 3 < n"
    and "w_machine W = pe_machine P" "compiles_with n B buffer_start code_start W" "w_events W = ret ()"
    and "able (pe_machine P) (3 * nodes e + 2) (rt_store rt)" "dollar_ready (rt_store rt)" "rt_frames rt = []"
  shows "\<exists>r rt'. Eval W (Run n W) (ParseExpr n P) (show_source e) rt = Inr (r, rt') \<and> r \<noteq> 0 \<and>
    obj_at r (rt_store rt') = Inr (obj_of v) \<and> rt_frames rt' = [] \<and> rt_scope rt' = rt_scope rt"
  using Eval_runs [OF assms] by (auto simp: runs_def obj_at_def)

text \<open>A runtime with the two truth values in a heap with room.\<close>

definition eval_world :: world where
  "eval_world = example_world\<lparr>w_compile := Compile_lambda 30 example_env (ExpandAll_lambda 30) 16384 20480\<rparr>"

lemma store_with_truths: "\<exists>st. able example_machine 100 st \<and> dollar_ready st"
proof -
  let ?z = "initial_store large_heap" and ?M = example_machine
  have z: "store_ok ?z" "126 * max_cost < store_free ?z"
    using booted_initial [OF large_heap_facts(1)] large_heap_facts(2)
    by (simp_all add: booted_def store_free_def boot_room_def)
  have r: "max_cost < store_free ?z" using z(2) by linarith
  obtain a h where a: "store_ok (?z\<lparr>st_heap := h, st_objs := (st_objs ?z)(a \<mapsto> OBool True)\<rparr>)" "a \<noteq> 0"
      "store_free ?z \<le> store_free (?z\<lparr>st_heap := h\<rparr>) + max_cost"
    using new_obj_step [OF z(1) example_machine_sane _ r, of "OBool True"] by (auto simp: kind_of_def)
  let ?y = "?z\<lparr>st_heap := h, st_objs := (st_objs ?z)(a \<mapsto> OBool True)\<rparr>"
  have y: "125 * max_cost < store_free ?y" using z(2) a(3) by simp
  have r: "max_cost < store_free ?y" using y by linarith
  obtain b g where b: "store_ok (?y\<lparr>st_heap := g, st_objs := (st_objs ?y)(b \<mapsto> OBool False)\<rparr>)" "b \<noteq> 0"
      "st_objs ?y b = None" "store_free ?y \<le> store_free (?y\<lparr>st_heap := g\<rparr>) + max_cost"
    using new_obj_step [OF a(1) example_machine_sane _ r, of "OBool False"] by (auto simp: kind_of_def)
  let ?x = "?y\<lparr>st_heap := g, st_objs := (st_objs ?y)(b \<mapsto> OBool False)\<rparr>"
  let ?w = "?x\<lparr>st_true := a, st_false := b\<rparr>"
  have "store_ok ?w" using b(1) by (simp only: store_ok_fields)
  moreover have "124 * max_cost < store_free ?w" using y b(4) by (simp add: store_free_def)
  then have "100 * max_cost < store_free ?w" by linarith
  moreover have "truths_at ?w" using a(2) b(2,3) by (auto simp: truths_at_def)
  moreover have "fresh_scopes (st_scopes ?w)" by (simp add: fresh_scopes_def empty_scopes_def)
  ultimately have "able ?M 100 ?w" using example_machine_sane by (simp add: able_def)
  moreover have "dollar_ready ?w"
    by (simp add: dollar_ready_def initial_store_def empty_pool_def)
  ultimately show ?thesis by blast
qed

theorem Eval_computes_witness:
  "\<exists>st r rt'. Eval eval_world (Run 30 eval_world) (ParseExpr 30 example_parser_env) ''(! (< (+ 20 3 19) 42))''
      (example_runtime\<lparr>rt_store := st\<rparr>) = Inr (r, rt') \<and>
    obj_at r (rt_store rt') = Inr (OBool True) \<and> rt_frames rt' = []"
proof -
  let ?e = "SUnary UNot (SBinary BLessThan (SBinary BAdd (SNum 20) (SNum 3) [SNum 19]) (SNum 42) [])"
  obtain st where st: "able example_machine 100 st" "dollar_ready st" using store_with_truths by blast
  have shown: "show_source ?e = ''(! (< (+ 20 3 19) 42))''"
    by (simp add: show_nat.simps digit_def char_of_def bit_0)
  have "compiles_with 30 example_env 16384 20480 eval_world"
    by (simp add: compiles_with_def eval_world_def example_env_def)
  moreover have "able example_machine (3 * nodes ?e + 2) st" using able_less [OF st(1)] by simp
  ultimately show ?thesis
    using Eval_computes [of ?e "Flag True" 30 eval_world example_parser_env example_env 16384 20480
        "example_runtime\<lparr>rt_store := st\<rparr>", unfolded shown] st(2)
    by (force simp: applied_opt_def eval_world_def example_world_def example_parser_env_def example_runtime_def)
qed

end
