(* ===== verification/Containers.thy ===== *)
theory Containers
  imports Classes
begin

text \<open>
  The containers: hash codes (\<open>HashCode\<close> of every class), sets and maps (\<open>gel/object.h\<close>,
  \<open>gel/object.cc\<close>), arrays (\<open>gel/array.h\<close>, \<open>gel/array.cc\<close>) and buffers (\<open>gel/buffer.h\<close>,
  \<open>gel/buffer.cc\<close>). The hash functions of the standard library are parameters. Its hash tables
  keep the hash of an element from its insertion on and compare keys only where the hashes are
  equal; the order of buckets is not modelled, and nothing here depends on it.
\<close>

section \<open>Hash codes\<close>

record hashes =
  h_string :: "string \<Rightarrow> uword"
  h_word :: "uword \<Rightarrow> uword"
  h_double :: "uword \<Rightarrow> uword"
  h_bool :: "bool \<Rightarrow> uword"
  h_pointer :: "uword \<Rightarrow> uword"

text \<open>\<open>CombineHash\<close>, on the value's own hash.\<close>

definition CombineHash :: "uword \<Rightarrow> uword \<Rightarrow> uword" where
  "CombineHash seed hashed =
    seed XOR (hashed + 0x9e3779b9 + push_bit 6 seed + drop_bit 2 seed)"

definition StringObject_HashCode :: "hashes \<Rightarrow> string \<Rightarrow> uword" where
  "StringObject_HashCode H s = CombineHash 0 (h_string H s)"

definition Symbol_HashCode :: "hashes \<Rightarrow> symbol \<Rightarrow> uword" where
  "Symbol_HashCode H s =
    CombineHash (if HasNamespace s then CombineHash 0 (h_string H (sym_ns s)) else 0)
      (h_string H (sym_name s))"

definition Pair_HashCode :: "hashes \<Rightarrow> uword \<Rightarrow> uword \<Rightarrow> uword" where
  "Pair_HashCode H p q =
    (let hash = if p \<noteq> 0 then CombineHash 0 (h_pointer H p) else 0 in
     if q \<noteq> 0 then CombineHash hash (h_pointer H q) else hash)"

text \<open>\<open>Procedure::HashCode\<close>: of the symbol, where there is one.\<close>

definition Procedure_HashCode :: "hashes \<Rightarrow> uword \<Rightarrow> store \<Rightarrow> uword res" where
  "Procedure_HashCode H sy st =
    (if sy = 0 then Inr 0
     else rbind (symbol_at sy st) (\<lambda>s. Inr (CombineHash 0 (h_word H (Symbol_HashCode H s)))))"

definition Class_HashCode :: "hashes \<Rightarrow> class_obj \<Rightarrow> store \<Rightarrow> uword res" where
  "Class_HashCode H c st = rbind (string_at (cl_name c) st) (\<lambda>n. Inr (StringObject_HashCode H n))"

definition Field_HashCode :: "hashes \<Rightarrow> field_obj \<Rightarrow> store \<Rightarrow> uword res" where
  "Field_HashCode H f st =
    rbind (string_at (fd_name f) st) (\<lambda>n.
    rbind (class_at (fd_owner f) st) (\<lambda>c.
    rbind (Class_HashCode H c st) (\<lambda>h.
    Inr (CombineHash (CombineHash 0 (h_word H (StringObject_HashCode H n))) (h_word H h)))))"

definition HashCode :: "hashes \<Rightarrow> uword \<Rightarrow> store \<Rightarrow> uword res" where
  "HashCode H a st =
    rbind (obj_at a st) (\<lambda>x.
    case x of
      OClass c \<Rightarrow> Class_HashCode H c st
    | OField f \<Rightarrow> Field_HashCode H f st
    | OBool b \<Rightarrow> Inr (CombineHash 0 (h_bool H b))
    | OLong v \<Rightarrow> Inr (CombineHash 0 (h_word H v))
    | ODouble d \<Rightarrow> Inr (CombineHash 0 (h_double H d))
    | OPair p q \<Rightarrow> Inr (Pair_HashCode H p q)
    | OString s \<Rightarrow> Inr (StringObject_HashCode H s)
    | OSymbol s \<Rightarrow> Inr (Symbol_HashCode H s)
    | OLambda l \<Rightarrow> Procedure_HashCode H (lm_symbol l) st
    | ONative n \<Rightarrow> Procedure_HashCode H (nv_symbol n) st
    | OError m \<Rightarrow> rbind (string_at m st) (\<lambda>s. Inr (StringObject_HashCode H s))
    | ONamespace n \<Rightarrow>
        rbind (symbol_at (ns_symbol n) st) (\<lambda>s. Inr (CombineHash 0 (h_word H (Symbol_HashCode H s))))
    | OModule m \<Rightarrow> rbind (string_at (md_name m) st) (\<lambda>s. Inr (StringObject_HashCode H s))
    | _ \<Rightarrow> Inl LogFatal)"

section \<open>Hash tables\<close>

text \<open>\<open>ObjectHasher\<close> and \<open>ObjectComparator\<close>: the key that is looked for is the left side of the
  comparison. A node is the hash it was inserted under and its contents.\<close>

definition ObjectHasher :: "hashes \<Rightarrow> uword \<Rightarrow> store \<Rightarrow> uword res" where
  "ObjectHasher H a st = asserting (a \<noteq> 0) (HashCode H a st)"

fun find_node :: "nat \<Rightarrow> machine \<Rightarrow> ('n \<Rightarrow> uword) \<Rightarrow> uword \<Rightarrow> uword \<Rightarrow> (uword \<times> 'n) list \<Rightarrow> store \<Rightarrow> 'n option res" where
  "find_node fuel M key hash a [] st = Inr None"
| "find_node fuel M key hash a ((h, n) # ns) st =
    (if h = hash then
       rbind (Equals fuel M a (key n) st) (\<lambda>e. if e then Inr (Some n) else find_node fuel M key hash a ns st)
     else find_node fuel M key hash a ns st)"

definition table_find :: "nat \<Rightarrow> machine \<Rightarrow> hashes \<Rightarrow> ('n \<Rightarrow> uword) \<Rightarrow> uword \<Rightarrow> (uword \<times> 'n) list \<Rightarrow> store \<Rightarrow> 'n option res" where
  "table_find fuel M H key a ns st =
    rbind (ObjectHasher H a st) (\<lambda>hash. find_node fuel M key hash a ns st)"

text \<open>\<open>insert\<close> leaves a key that is there as it is.\<close>

definition table_insert :: "nat \<Rightarrow> machine \<Rightarrow> hashes \<Rightarrow> ('n \<Rightarrow> uword) \<Rightarrow> 'n \<Rightarrow> (uword \<times> 'n) list \<Rightarrow> store \<Rightarrow> (uword \<times> 'n) list res" where
  "table_insert fuel M H key n ns st =
    rbind (ObjectHasher H (key n) st) (\<lambda>hash.
    rbind (find_node fuel M key hash (key n) ns st) (\<lambda>found.
    Inr (case found of None \<Rightarrow> ns @ [(hash, n)] | Some _ \<Rightarrow> ns)))"

fun table_insert_all :: "nat \<Rightarrow> machine \<Rightarrow> hashes \<Rightarrow> ('n \<Rightarrow> uword) \<Rightarrow> 'n list \<Rightarrow> (uword \<times> 'n) list \<Rightarrow> store \<Rightarrow> (uword \<times> 'n) list res" where
  "table_insert_all fuel M H key [] ns st = Inr ns"
| "table_insert_all fuel M H key (x # xs) ns st =
    rbind (table_insert fuel M H key x ns st) (\<lambda>ns'. table_insert_all fuel M H key xs ns' st)"

section \<open>Sets\<close>

definition set_at :: "uword \<Rightarrow> store \<Rightarrow> (uword \<times> uword) list res" where
  "set_at a st = rbind (obj_at a st) (\<lambda>x. case x of OSet ns \<Rightarrow> Inr ns | _ \<Rightarrow> Inl UndefinedBehaviour)"

definition Set_GetSize :: "uword \<Rightarrow> store \<Rightarrow> uword res" where
  "Set_GetSize a st = rbind (set_at a st) (\<lambda>ns. Inr (of_nat (length ns)))"

definition Set_IsEmpty :: "uword \<Rightarrow> store \<Rightarrow> bool res" where
  "Set_IsEmpty a st = rbind (set_at a st) (\<lambda>ns. Inr (ns = []))"

definition Set_Contains :: "nat \<Rightarrow> machine \<Rightarrow> hashes \<Rightarrow> uword \<Rightarrow> uword \<Rightarrow> store \<Rightarrow> bool res" where
  "Set_Contains fuel M H a v st =
    rbind (set_at a st) (\<lambda>ns. rbind (table_find fuel M H id v ns st) (\<lambda>found. Inr (found \<noteq> None)))"

definition Set_Of_storage :: "nat \<Rightarrow> machine \<Rightarrow> hashes \<Rightarrow> uword list \<Rightarrow> uword sop" where
  "Set_Of_storage fuel M H values =
    sbind (reads (table_insert_all fuel M H id values [])) (\<lambda>ns. new_obj M (OSet ns))"

text \<open>The elements of a list: a loop with \<open>Car\<close> and \<open>Cdr\<close>, without end on a cyclic list.\<close>

fun list_elements :: "nat \<Rightarrow> machine \<Rightarrow> uword \<Rightarrow> uword list sop" where
  "list_elements fuel M v =
    sbind (reads (IsNull v)) (\<lambda>n.
    if n then ret []
    else case fuel of
      0 \<Rightarrow> fails OutOfFuel
    | Suc k \<Rightarrow>
        sbind (Car M v) (\<lambda>x. sbind (Cdr M v) (\<lambda>r. sbind (list_elements k M r) (\<lambda>xs. ret (x # xs)))))"

declare list_elements.simps [simp del]

definition Set_Of :: "nat \<Rightarrow> machine \<Rightarrow> hashes \<Rightarrow> uword \<Rightarrow> uword sop" where
  "Set_Of fuel M H v =
    sbind (reads (IsNull v)) (\<lambda>n.
    if n then Set_Of_storage fuel M H []
    else sbind (reads (obj_at v)) (\<lambda>x.
      case x of
        OSet _ \<Rightarrow> ret v
      | OPair p q \<Rightarrow>
          sbind (reads (IsTuple v)) (\<lambda>t.
          if t then Set_Of_storage fuel M H [p, q]
          else sbind (list_elements fuel M v) (Set_Of_storage fuel M H))
      | _ \<Rightarrow> Set_Of_storage fuel M H [v]))"

definition Set_New :: "nat \<Rightarrow> machine \<Rightarrow> hashes \<Rightarrow> uword list \<Rightarrow> uword sop" where
  "Set_New fuel M H args =
    (case args of
       [] \<Rightarrow> Set_Of_storage fuel M H []
     | [a] \<Rightarrow> Set_Of fuel M H a
     | _ \<Rightarrow> Set_Of_storage fuel M H args)"

section \<open>Maps\<close>

definition map_at :: "uword \<Rightarrow> store \<Rightarrow> (uword \<times> uword \<times> uword) list res" where
  "map_at a st = rbind (obj_at a st) (\<lambda>x. case x of OMap ns \<Rightarrow> Inr ns | _ \<Rightarrow> Inl UndefinedBehaviour)"

definition Map_GetSize :: "uword \<Rightarrow> store \<Rightarrow> uword res" where
  "Map_GetSize a st = rbind (map_at a st) (\<lambda>ns. Inr (of_nat (length ns)))"

definition Map_IsEmpty :: "uword \<Rightarrow> store \<Rightarrow> bool res" where
  "Map_IsEmpty a st = rbind (map_at a st) (\<lambda>ns. Inr (ns = []))"

definition Map_Contains :: "nat \<Rightarrow> machine \<Rightarrow> hashes \<Rightarrow> uword \<Rightarrow> uword \<Rightarrow> store \<Rightarrow> bool res" where
  "Map_Contains fuel M H a k st =
    rbind (map_at a st) (\<lambda>ns. rbind (table_find fuel M H fst k ns st) (\<lambda>found. Inr (found \<noteq> None)))"

definition Map_Get :: "nat \<Rightarrow> machine \<Rightarrow> hashes \<Rightarrow> uword \<Rightarrow> uword \<Rightarrow> uword sop" where
  "Map_Get fuel M H a k =
    sthen (sassert (k \<noteq> 0))
      (sbind (reads (\<lambda>st. rbind (map_at a st) (\<lambda>ns. table_find fuel M H fst k ns st))) (\<lambda>found.
       case found of None \<Rightarrow> Null M | Some (_, v) \<Rightarrow> ret v))"

text \<open>The loop over the arguments, a key and a value at a time; \<open>New\<close> asserts before that their
  number is even.\<close>

fun map_insert_args :: "nat \<Rightarrow> machine \<Rightarrow> hashes \<Rightarrow> uword list \<Rightarrow> (uword \<times> uword \<times> uword) list \<Rightarrow> store \<Rightarrow>
    (uword \<times> uword \<times> uword) list res" where
  "map_insert_args fuel M H (k # v # args) ns st =
    asserting (k \<noteq> 0) (asserting (v \<noteq> 0)
      (rbind (table_insert fuel M H fst (k, v) ns st) (\<lambda>ns'. map_insert_args fuel M H args ns' st)))"
| "map_insert_args fuel M H _ ns st = Inr ns"

definition Map_New :: "nat \<Rightarrow> machine \<Rightarrow> hashes \<Rightarrow> uword list \<Rightarrow> uword sop" where
  "Map_New fuel M H args =
    sthen (sassert (even (length args)))
      (sbind (reads (map_insert_args fuel M H args [])) (\<lambda>ns. new_obj M (OMap ns)))"

section \<open>Arrays\<close>

definition array_obj_at :: "uword \<Rightarrow> store \<Rightarrow> uword list res" where
  "array_obj_at a st = rbind (obj_at a st) (\<lambda>x. case x of OArray vs \<Rightarrow> Inr vs | _ \<Rightarrow> Inl UndefinedBehaviour)"

text \<open>\<open>operator new\<close> of the classes whose instances end in their data: the size of the class and
  that of the data.\<close>

definition operator_new_sized :: "machine \<Rightarrow> kind \<Rightarrow> uword \<Rightarrow> uword sop" where
  "operator_new_sized M k extra =
    sbind (heap_op (TryAllocate (m_sizeof M k + extra))) (\<lambda>address.
    sthen (sassert (address \<noteq> 0)) (ret address))"

definition Array_New :: "machine \<Rightarrow> uword \<Rightarrow> uword sop" where
  "Array_New M init_cap =
    sbind (operator_new_sized M KArray (8 * init_cap)) (\<lambda>a.
    sthen (modifies (put_obj a (OArray (replicate (unat init_cap) 0)))) (ret a))"

definition Array_GetCapacity :: "uword \<Rightarrow> store \<Rightarrow> uword res" where
  "Array_GetCapacity a st = rbind (array_obj_at a st) (\<lambda>vs. Inr (of_nat (length vs)))"

text \<open>\<open>Get\<close> and \<open>Set\<close> assert that the index is at most the capacity; the element at the capacity
  is the word behind the array.\<close>

definition Array_Get :: "uword \<Rightarrow> uword \<Rightarrow> store \<Rightarrow> uword res" where
  "Array_Get a idx st =
    rbind (array_obj_at a st) (\<lambda>vs.
    asserting (idx \<le> of_nat (length vs))
      (guardr UndefinedBehaviour (unat idx < length vs) (Inr (vs ! unat idx))))"

definition Array_Set :: "uword \<Rightarrow> uword \<Rightarrow> uword \<Rightarrow> unit sop" where
  "Array_Set a idx v =
    sthen (sassert (v \<noteq> 0))
      (sbind (reads (array_obj_at a)) (\<lambda>vs.
       sthen (sassert (idx \<le> of_nat (length vs)))
         (sthen (sguard UndefinedBehaviour (unat idx < length vs))
           (modifies (put_obj a (OArray (vs[unat idx := v])))))))"

fun Array_fill :: "uword \<Rightarrow> uword \<Rightarrow> uword list \<Rightarrow> unit sop" where
  "Array_fill a idx [] = ret ()"
| "Array_fill a idx (v # vs) =
    sthen (sassert (v \<noteq> 0)) (sthen (Array_Set a idx v) (Array_fill a (idx + 1) vs))"

section \<open>Buffers\<close>

definition Buffer_kDefaultBufferSize :: uword where
  "Buffer_kDefaultBufferSize = 4096"

definition kMaxBufferSize :: uword where
  "kMaxBufferSize = 4 * 1024 * 1024"

definition buffer_at :: "uword \<Rightarrow> store \<Rightarrow> (uword \<times> byte list) res" where
  "buffer_at a st =
    rbind (obj_at a st) (\<lambda>x. case x of OBuffer c bs \<Rightarrow> Inr (c, bs) | _ \<Rightarrow> Inl UndefinedBehaviour)"

definition Buffer_GetLength :: "uword \<Rightarrow> store \<Rightarrow> uword res" where
  "Buffer_GetLength a st = rbind (buffer_at a st) (\<lambda>(c, bs). Inr (of_nat (length bs)))"

definition Buffer_GetCapacity :: "uword \<Rightarrow> store \<Rightarrow> uword res" where
  "Buffer_GetCapacity a st = rbind (buffer_at a st) (\<lambda>(c, bs). Inr c)"

definition Buffer_New :: "machine \<Rightarrow> uword \<Rightarrow> uword sop" where
  "Buffer_New M init_cap =
    sthen (sassert (1 \<le> init_cap \<and> init_cap \<le> kMaxBufferSize))
      (let capacity = RoundUpPow2 init_cap in
       sthen (sassert (capacity \<le> kMaxBufferSize))
         (sbind (operator_new_sized M KBuffer capacity) (\<lambda>a.
          sthen (sassert (IsPow2 capacity))
            (sthen (modifies (put_obj a (OBuffer capacity []))) (ret a)))))"

definition CopyFrom :: "uword \<Rightarrow> byte list \<Rightarrow> unit sop" where
  "CopyFrom a src =
    sbind (reads (buffer_at a)) (\<lambda>(c, bs).
    sthen (sassert (of_nat (length bs) + of_nat (length src) \<le> c))
      (modifies (put_obj a (OBuffer c (bs @ src)))))"

definition Buffer_Copy :: "machine \<Rightarrow> byte list \<Rightarrow> uword sop" where
  "Buffer_Copy M src =
    sthen (sassert (1 \<le> length src))
      (sbind (Buffer_New M (of_nat (length src))) (\<lambda>a. sthen (CopyFrom a src) (ret a)))"

definition text_bytes :: "string \<Rightarrow> byte list" where
  "text_bytes s = map (\<lambda>c. of_nat (of_char c)) s"

definition bytes_text :: "byte list \<Rightarrow> string" where
  "bytes_text bs = map (\<lambda>b. char_of (unat b)) bs"

definition Buffer_Copy_text :: "machine \<Rightarrow> string \<Rightarrow> uword sop" where
  "Buffer_Copy_text M src =
    (if src = [] then Buffer_New M Buffer_kDefaultBufferSize else Buffer_Copy M (text_bytes src))"

definition Buffer_New_args :: "machine \<Rightarrow> uword list \<Rightarrow> uword sop" where
  "Buffer_New_args M args =
    (case args of
       [] \<Rightarrow> Buffer_New M Buffer_kDefaultBufferSize
     | a # _ \<Rightarrow>
         sbind (reads (IsNull a)) (\<lambda>n.
         if n then Buffer_New M Buffer_kDefaultBufferSize
         else sbind (reads (obj_at a)) (\<lambda>x.
           case x of
             OLong v \<Rightarrow> Buffer_New M v
           | OString s \<Rightarrow> Buffer_Copy_text M s
           | _ \<Rightarrow> Buffer_New M Buffer_kDefaultBufferSize)))"

text \<open>The text \<open>String::New\<close> takes out of a buffer.\<close>

definition buffer_text :: "uword \<Rightarrow> store \<Rightarrow> string res" where
  "buffer_text a st = rbind (buffer_at a st) (\<lambda>(c, bs). Inr (bytes_text bs))"

text \<open>New instances of the containers, for \<open>New_of_kind\<close>; the reactive classes remain a parameter.\<close>

definition Container_New :: "nat \<Rightarrow> machine \<Rightarrow> hashes \<Rightarrow> (kind \<Rightarrow> uword list \<Rightarrow> uword sop) \<Rightarrow> kind \<Rightarrow> uword list \<Rightarrow> uword sop" where
  "Container_New fuel M H rx k args =
    (if k = KSet then Set_New fuel M H args
     else if k = KMap then Map_New fuel M H args
     else if k = KBuffer then Buffer_New_args M args
     else rx k args)"

end
