(* ===== verification/EventLoop.thy ===== *)
theory EventLoop
  imports Units
begin

text \<open>
  The event loop of a thread, its timers and its file system requests (\<open>gel/event_loop.h\<close>,
  \<open>gel/event_loop.cc\<close>). The event library (libuv) is a parameter: the status each of its calls
  returns and what it does to the runtime, and the message of an error number. A request lives
  from its start until the library calls it back with a result; the callbacks are modelled here,
  when the library calls them is not.
\<close>

section \<open>The event library\<close>

datatype fs_call =
    UvRename string string
  | UvRmdir string
  | UvMkdir string uword
  | UvStat string
  | UvOpen string uword uword

text \<open>Timers are known by the address of their object. The status of a call is an \<open>int\<close>.\<close>

record uv =
  uv_timer_init :: "uword \<Rightarrow> int rop"
  uv_timer_start :: "uword \<Rightarrow> uword \<Rightarrow> uword \<Rightarrow> int rop"
  uv_timer_stop :: "uword \<Rightarrow> int rop"
  uv_timer_again :: "uword \<Rightarrow> int rop"
  uv_timer_set_repeat :: "uword \<Rightarrow> uword \<Rightarrow> unit rop"
  uv_timer_get_repeat :: "uword \<Rightarrow> runtime \<Rightarrow> uword"
  uv_timer_get_due_in :: "uword \<Rightarrow> runtime \<Rightarrow> uword"
  uv_fs :: "fs_call \<Rightarrow> int rop"
  uv_strerror :: "int \<Rightarrow> string"

section \<open>The loop\<close>

definition loop_at :: "uword \<Rightarrow> store \<Rightarrow> uword list res" where
  "loop_at a st =
    rbind (obj_at a st) (\<lambda>x. case x of OEventLoop ts \<Rightarrow> Inr ts | _ \<Rightarrow> Inl UndefinedBehaviour)"

definition timer_at :: "uword \<Rightarrow> store \<Rightarrow> (uword \<times> uword) res" where
  "timer_at a st =
    rbind (obj_at a st) (\<lambda>x. case x of OTimer n f \<Rightarrow> Inr (n, f) | _ \<Rightarrow> Inl UndefinedBehaviour)"

text \<open>\<open>GetThreadEventLoop\<close>: made on the first use.\<close>

definition GetThreadEventLoop :: "machine \<Rightarrow> uword rop" where
  "GetThreadEventLoop M =
    sbind (asks rt_event_loop) (\<lambda>l.
    if l \<noteq> 0 then ret l
    else sbind (on_store (new_obj M (OEventLoop []))) (\<lambda>a.
         sthen (modifies (\<lambda>rt. rt\<lparr>rt_event_loop := a\<rparr>)) (ret a)))"

section \<open>Timers\<close>

definition Timer_New :: "machine \<Rightarrow> uv \<Rightarrow> uword \<Rightarrow> uword \<Rightarrow> uword rop" where
  "Timer_New M U n on_tick =
    sthen (sassert (on_tick \<noteq> 0))
      (sbind (on_store (new_obj M (OTimer n on_tick))) (\<lambda>a.
       sthen (sbind (GetThreadEventLoop M) (\<lambda>_. ret ()))
         (sbind (uv_timer_init U a) (\<lambda>status. sthen (sguard LogFatal (status = 0)) (ret a)))))"

definition CreateTimer :: "machine \<Rightarrow> uv \<Rightarrow> uword \<Rightarrow> uword \<Rightarrow> uword rop" where
  "CreateTimer M U loop on_tick =
    sbind (stored (loop_at loop)) (\<lambda>ts.
    sbind (Timer_New M U (of_nat (length ts) + 1) on_tick) (\<lambda>timer.
    sbind (stored (loop_at loop)) (\<lambda>ts'.
    sthen (on_store (modifies (put_obj loop (OEventLoop (ts' @ [timer]))))) (ret timer))))"

text \<open>\<open>std::find_if\<close> on the positions of a vector from \<open>lo\<close> on and below \<open>hi\<close>: the first
  position whose element passes the test, or \<open>hi\<close>.\<close>

fun find_if :: "(uword \<Rightarrow> store \<Rightarrow> bool res) \<Rightarrow> uword list \<Rightarrow> nat \<Rightarrow> nat \<Rightarrow> store \<Rightarrow> nat res" where
  "find_if p xs i 0 st = Inr i"
| "find_if p xs i (Suc k) st =
    guardr UndefinedBehaviour (i < length xs)
      (rbind (p (xs ! i) st) (\<lambda>found. if found then Inr i else find_if p xs (Suc i) k st))"

definition find_between :: "(uword \<Rightarrow> store \<Rightarrow> bool res) \<Rightarrow> uword list \<Rightarrow> nat \<Rightarrow> nat \<Rightarrow> store \<Rightarrow> nat res" where
  "find_between p xs lo hi st = find_if p xs lo (hi - lo) st"

definition timer_has_id :: "uword \<Rightarrow> uword \<Rightarrow> store \<Rightarrow> bool res" where
  "timer_has_id idx t st = rbind (timer_at t st) (\<lambda>(n, on_tick). Inr (n = idx))"

text \<open>\<open>GetTimer\<close> searches from the beginning of the timers to their beginning, and compares the
  position it is given with the end.\<close>

definition GetTimer :: "uword \<Rightarrow> uword \<Rightarrow> store \<Rightarrow> uword res" where
  "GetTimer loop idx st =
    rbind (loop_at loop st) (\<lambda>timers.
    let begin_pos = 0; end_pos = length timers in
    rbind (find_between (timer_has_id idx) timers begin_pos begin_pos st) (\<lambda>pos.
    Inr (if pos \<noteq> end_pos then timers ! pos else 0)))"

definition Timer_Start :: "uv \<Rightarrow> uword \<Rightarrow> uword \<Rightarrow> uword \<Rightarrow> unit rop" where
  "Timer_Start U a timeout repeat =
    sbind (uv_timer_start U a timeout repeat) (\<lambda>status. sguard LogFatal (status = 0))"

definition Timer_Stop :: "uv \<Rightarrow> uword \<Rightarrow> unit rop" where
  "Timer_Stop U a = sbind (uv_timer_stop U a) (\<lambda>status. sguard LogFatal (status = 0))"

definition Timer_Again :: "uv \<Rightarrow> uword \<Rightarrow> unit rop" where
  "Timer_Again U a = sbind (uv_timer_again U a) (\<lambda>status. sguard LogFatal (status = 0))"

text \<open>\<open>OnTick\<close>, which the library calls.\<close>

definition OnTick :: "(uword \<Rightarrow> uword list \<Rightarrow> unit rop) \<Rightarrow> uword \<Rightarrow> unit rop" where
  "OnTick call a =
    sbind (stored (timer_at a)) (\<lambda>(n, on_tick). sthen (sassert (on_tick \<noteq> 0)) (call on_tick []))"

section \<open>Requests\<close>

text \<open>The callbacks of a request are procedures of the program, 0 for none. \<open>rq_checked\<close> tells
  whether the last callback is wrapped by \<open>WrapOnFinished\<close>, which asserts that it is there, or
  by \<open>WrapOnSuccess\<close>.\<close>

record request =
  rq_call :: fs_call
  rq_on_success :: uword
  rq_on_error :: uword
  rq_on_finished :: uword
  rq_checked :: bool

definition request_path :: "fs_call \<Rightarrow> string" where
  "request_path c =
    (case c of UvRename p q \<Rightarrow> p | UvRmdir p \<Rightarrow> p | UvMkdir p m \<Rightarrow> p | UvStat p \<Rightarrow> p | UvOpen p f m \<Rightarrow> p)"

definition GetRequestName :: "fs_call \<Rightarrow> string" where
  "GetRequestName c =
    (case c of
       UvRename p q \<Rightarrow> ''uv_fs_rename'' | UvRmdir p \<Rightarrow> ''uv_fs_rmdir''
     | UvMkdir p m \<Rightarrow> ''uv_fs_mkdir'' | UvStat p \<Rightarrow> ''uv_fs_stat'' | UvOpen p f m \<Rightarrow> ''uv_fs_open'')"

definition WrapOnError :: "(uword \<Rightarrow> uword list \<Rightarrow> unit rop) \<Rightarrow> uword \<Rightarrow> uword \<Rightarrow> unit rop" where
  "WrapOnError call on_error error =
    sthen (sassert (error \<noteq> 0)) (if on_error \<noteq> 0 then call on_error [error] else ret ())"

definition WrapOnSuccess :: "(uword \<Rightarrow> uword list \<Rightarrow> unit rop) \<Rightarrow> uword \<Rightarrow> unit rop" where
  "WrapOnSuccess call on_success = (if on_success \<noteq> 0 then call on_success [] else ret ())"

definition WrapOnFinished :: "(uword \<Rightarrow> uword list \<Rightarrow> unit rop) \<Rightarrow> uword \<Rightarrow> unit rop" where
  "WrapOnFinished call on_finished =
    sthen (sassert (on_finished \<noteq> 0)) (if on_finished \<noteq> 0 then call on_finished [] else ret ())"

definition OnFinished :: "(uword \<Rightarrow> uword list \<Rightarrow> unit rop) \<Rightarrow> request \<Rightarrow> unit rop" where
  "OnFinished call r =
    (if rq_checked r then WrapOnFinished call (rq_on_finished r) else WrapOnSuccess call (rq_on_finished r))"

text \<open>The operations of the loop: the request and whether it could be started.\<close>

definition start_request :: "uv \<Rightarrow> request \<Rightarrow> (bool \<times> request) rop" where
  "start_request U r = sbind (uv_fs U (rq_call r)) (\<lambda>status. ret (status = 0, r))"

definition EventLoop_Stat :: "uv \<Rightarrow> string \<Rightarrow> uword \<Rightarrow> uword \<Rightarrow> uword \<Rightarrow> (bool \<times> request) rop" where
  "EventLoop_Stat U path on_next on_error on_finished =
    sthen (sassert (path \<noteq> []))
      (sthen (sassert (on_next \<noteq> 0))
        (start_request U \<lparr>rq_call = UvStat path, rq_on_success = on_next, rq_on_error = on_error,
           rq_on_finished = on_finished, rq_checked = True\<rparr>))"

definition EventLoop_Rename :: "uv \<Rightarrow> string \<Rightarrow> string \<Rightarrow> uword \<Rightarrow> uword \<Rightarrow> uword \<Rightarrow> (bool \<times> request) rop" where
  "EventLoop_Rename U old_path new_path on_success on_error on_finished =
    sthen (sassert (old_path \<noteq> []))
      (sthen (sassert (new_path \<noteq> []))
        (start_request U \<lparr>rq_call = UvRename old_path new_path, rq_on_success = on_success,
           rq_on_error = on_error, rq_on_finished = on_finished, rq_checked = True\<rparr>))"

definition EventLoop_Mkdir :: "uv \<Rightarrow> string \<Rightarrow> uword \<Rightarrow> uword \<Rightarrow> uword \<Rightarrow> uword \<Rightarrow> (bool \<times> request) rop" where
  "EventLoop_Mkdir U path mode on_success on_error on_finished =
    sthen (sassert (path \<noteq> []))
      (start_request U \<lparr>rq_call = UvMkdir path mode, rq_on_success = on_success,
         rq_on_error = on_error, rq_on_finished = on_finished, rq_checked = True\<rparr>)"

definition EventLoop_Rmdir :: "uv \<Rightarrow> string \<Rightarrow> uword \<Rightarrow> uword \<Rightarrow> uword \<Rightarrow> (bool \<times> request) rop" where
  "EventLoop_Rmdir U path on_success on_error on_finished =
    sthen (sassert (path \<noteq> []))
      (start_request U \<lparr>rq_call = UvRmdir path, rq_on_success = on_success,
         rq_on_error = on_error, rq_on_finished = on_finished, rq_checked = True\<rparr>)"

definition EventLoop_Open :: "uv \<Rightarrow> string \<Rightarrow> uword \<Rightarrow> uword \<Rightarrow> uword \<Rightarrow> uword \<Rightarrow> uword \<Rightarrow> (bool \<times> request) rop" where
  "EventLoop_Open U path flags mode on_success on_error on_finished =
    sthen (sassert (path \<noteq> []))
      (start_request U \<lparr>rq_call = UvOpen path flags mode, rq_on_success = on_success,
         rq_on_error = on_error, rq_on_finished = on_finished, rq_checked = False\<rparr>)"

section \<open>What the library calls back\<close>

definition error_text :: "uv \<Rightarrow> fs_call \<Rightarrow> int \<Rightarrow> string" where
  "error_text U c result =
    GetRequestName c @ '' error for file '' @ request_path c @ '': '' @ uv_strerror U result"

text \<open>\<open>FS_REQUEST_SIMPLE_CALLBACK_F\<close>. The result is a signed word; the message takes it as an
  \<open>int\<close>.\<close>

definition as_int :: "uword \<Rightarrow> int" where
  "as_int w = sint (ucast w :: 32 word)"

definition OnSimpleRequest ::
    "machine \<Rightarrow> uv \<Rightarrow> (uword \<Rightarrow> uword list \<Rightarrow> unit rop) \<Rightarrow> request \<Rightarrow> uword \<Rightarrow> unit rop" where
  "OnSimpleRequest M U call r result =
    sthen
      (if sint result < 0 then
         sbind (on_store (Error_New_text M (error_text U (rq_call r) (as_int result)))) (\<lambda>error.
         WrapOnError call (rq_on_error r) error)
       else WrapOnSuccess call (rq_on_success r))
      (OnFinished call r)"

text \<open>The callback of \<open>StatRequest\<close>: only the result -1 is an error, and an error is the end. The
  size of the file goes through an \<open>int\<close>.\<close>

definition stat_error_text :: "uv \<Rightarrow> string \<Rightarrow> int \<Rightarrow> string" where
  "stat_error_text U path result =
    ''error reading stats of file '' @ path @ '': '' @ uv_strerror U result"

definition OnStatRequest ::
    "machine \<Rightarrow> uv \<Rightarrow> (uword \<Rightarrow> uword list \<Rightarrow> unit rop) \<Rightarrow> request \<Rightarrow> uword \<Rightarrow> uword \<Rightarrow> unit rop" where
  "OnStatRequest M U call r result st_size =
    (if sint result = -1 then
       sbind (on_store (Error_New_text M (stat_error_text U (request_path (rq_call r)) (as_int result)))) (\<lambda>error.
       WrapOnError call (rq_on_error r) error)
     else
       sthen
         (sbind (on_store (Long_New M (scast (ucast st_size :: 32 word)))) (\<lambda>l. call (rq_on_success r) [l]))
         (OnFinished call r))"

end
