(* ===== verification/Natives.thy ===== *)
theory Natives
  imports Containers EventLoop
begin

text \<open>
  The native procedures (\<open>gel/natives.h\<close>, \<open>gel/natives.cc\<close>, \<open>gel/natives_fs.cc\<close>,
  \<open>gel/natives_debug.cc\<close> and those of \<open>class.cc\<close>, \<open>symbol.cc\<close>, \<open>array.cc\<close>, \<open>buffer.cc\<close> and
  \<open>object.cc\<close>), their arguments and results (\<open>gel/native_procedure.h\<close>) and their registration.
  Applying a native procedure pushes at most one value and returns whether all is well. What the
  procedures use of the system is a record of parameters: the event library, random numbers, the
  formatting library, the loading of shared libraries and a few constants of the build. So are
  the procedures that are not modelled; their names are listed below.
\<close>

section \<open>What the procedures use of the system\<close>

record outside =
  o_hashes :: hashes
  o_uv :: uv
  o_version :: string
  o_home :: "string option"
  o_random :: "runtime \<Rightarrow> uword"
  o_random_in :: "uword \<Rightarrow> uword \<Rightarrow> runtime \<Rightarrow> uword"
  o_format :: "string \<Rightarrow> string list \<Rightarrow> string option"
  o_bindings :: "string \<Rightarrow> unit rop"
  o_cwd :: string
  o_triple :: string
  o_other :: "(uword \<Rightarrow> uword list \<Rightarrow> unit rop) \<Rightarrow> string \<Rightarrow> uword list \<Rightarrow> bool rop"

text \<open>What a procedure is applied in: the world of the runtime, the system, the bound for walks over
  values that may be cyclic, and how to call a procedure, for those that do: of all native
  procedures only the reactive ones, which are not modelled.\<close>

record native_env =
  ne_world :: world
  ne_outside :: outside
  ne_fuel :: nat
  ne_call :: "uword \<Rightarrow> uword list \<Rightarrow> unit rop"

abbreviation ne_machine :: "native_env \<Rightarrow> machine" where
  "ne_machine N \<equiv> w_machine (ne_world N)"

abbreviation ne_printer :: "native_env \<Rightarrow> printer" where
  "ne_printer N \<equiv> w_printer (ne_world N)"

abbreviation ne_uv :: "native_env \<Rightarrow> uv" where
  "ne_uv N \<equiv> o_uv (ne_outside N)"

abbreviation ne_hashes :: "native_env \<Rightarrow> hashes" where
  "ne_hashes N \<equiv> o_hashes (ne_outside N)"

type_synonym native_body = "native_env \<Rightarrow> uword list \<Rightarrow> bool rop"

section \<open>Results\<close>

definition DoNothing :: "bool rop" where
  "DoNothing = ret True"

definition Return :: "uword \<Rightarrow> bool rop" where
  "Return rhs = sthen (sassert (rhs \<noteq> 0)) (sthen (stack_Push rhs) DoNothing)"

definition ReturnNull :: "native_env \<Rightarrow> bool rop" where
  "ReturnNull N = sbind (on_store (Null (ne_machine N))) Return"

definition ReturnBool :: "bool \<Rightarrow> bool rop" where
  "ReturnBool b = sbind (on_store (Bool_Box b)) Return"

definition ReturnLong :: "native_env \<Rightarrow> uword \<Rightarrow> bool rop" where
  "ReturnLong N v = sbind (on_store (Long_New (ne_machine N) v)) Return"

definition ReturnString :: "native_env \<Rightarrow> string \<Rightarrow> bool rop" where
  "ReturnString N s = sbind (on_store (String_New (ne_machine N) s)) Return"

text \<open>\<open>Throw\<close> logs the error and returns it as the value of the call.\<close>

definition Throw :: "uword \<Rightarrow> bool rop" where
  "Throw error = sthen (sassert (error \<noteq> 0)) (Return error)"

definition ThrowError :: "native_env \<Rightarrow> string \<Rightarrow> bool rop" where
  "ThrowError N message = sbind (on_store (Error_New_text (ne_machine N) message)) Throw"

definition ThrowNotImplementedError :: "native_env \<Rightarrow> bool rop" where
  "ThrowNotImplementedError N = ThrowError N ''not implemented''"

section \<open>Arguments\<close>

text \<open>The constructor of \<open>NativeArgument<Index, T, Required>\<close>: the argument, an error, or null for
  an optional argument that is null. The assertion lets the index be the number of arguments, and
  the element is read in any case.\<close>

definition class_name :: "kind \<Rightarrow> store \<Rightarrow> string res" where
  "class_name k st =
    rbind (class_at (st_class st k) st) (\<lambda>c. string_at (cl_name c) st)"

definition not_null_text :: "nat \<Rightarrow> string" where
  "not_null_text idx = ''arg #'' @ show_nat idx @ '' to not be '' @ [CHR 39] @ ''()''"

definition not_instance_text :: "nat \<Rightarrow> string \<Rightarrow> string \<Rightarrow> string" where
  "not_instance_text idx shown name =
    ''arg #'' @ show_nat idx @ '' `'' @ shown @ ''` is expected to be an instance of: `'' @ name @ ''`''"

definition NativeArgument :: "native_env \<Rightarrow> nat \<Rightarrow> kind \<Rightarrow> bool \<Rightarrow> uword list \<Rightarrow> uword rop" where
  "NativeArgument N idx k required args =
    sthen (sassert (idx \<le> length args \<or> \<not> required))
      (sthen (sguard UndefinedBehaviour (idx < length args))
        (let value = args ! idx in
         if value = 0 then
           (if required then on_store (Error_New_text (ne_machine N) (not_null_text idx)) else ret 0)
         else
           sbind (stored (GetType value)) (\<lambda>type.
           sbind (on_store (GetClass k)) (\<lambda>cls.
           sbind (stored (IsInstanceOf type cls)) (\<lambda>ok.
           if \<not> ok then
             sbind (stored (obj_at value)) (\<lambda>x.
             sbind (stored (class_name k)) (\<lambda>name.
             on_store (Error_New_text (ne_machine N) (not_instance_text idx (pr_other (ne_printer N) x) name))))
           else ret value)))))"

definition HasError :: "bool \<Rightarrow> uword \<Rightarrow> store \<Rightarrow> bool res" where
  "HasError required v st =
    (if v = 0 then Inr required
     else rbind (obj_at v st) (\<lambda>x. Inr (case x of OError _ \<Rightarrow> True | _ \<Rightarrow> False)))"

definition GetError :: "native_env \<Rightarrow> uword \<Rightarrow> uword rop" where
  "GetError N v =
    sbind (if v = 0 then ret False
           else sbind (stored (obj_at v)) (\<lambda>x. ret (case x of OError _ \<Rightarrow> True | _ \<Rightarrow> False))) (\<lambda>e.
    if e then ret v else on_store (Error_New_text (ne_machine N) ''value is null''))"

text \<open>The first lines of most procedures: take an argument and return its error if it has one.\<close>

definition with_arg :: "native_env \<Rightarrow> nat \<Rightarrow> kind \<Rightarrow> bool \<Rightarrow> uword list \<Rightarrow> (uword \<Rightarrow> bool rop) \<Rightarrow> bool rop" where
  "with_arg N idx k required args f =
    sbind (NativeArgument N idx k required args) (\<lambda>v.
    sbind (stored (HasError required v)) (\<lambda>bad.
    if bad then sbind (GetError N v) Throw else f v))"

definition with_long :: "native_env \<Rightarrow> nat \<Rightarrow> uword list \<Rightarrow> (uword \<Rightarrow> bool rop) \<Rightarrow> bool rop" where
  "with_long N idx args f =
    with_arg N idx KLong True args (\<lambda>a.
      sbind (stored (obj_at a)) (\<lambda>x. case x of OLong v \<Rightarrow> f v | _ \<Rightarrow> fails UndefinedBehaviour))"

definition with_string :: "native_env \<Rightarrow> nat \<Rightarrow> uword list \<Rightarrow> (string \<Rightarrow> bool rop) \<Rightarrow> bool rop" where
  "with_string N idx args f =
    with_arg N idx KString True args (\<lambda>a. sbind (stored (string_at a)) f)"

section \<open>General procedures\<close>

definition proc_gel_get_version :: native_body where
  "proc_gel_get_version N args = ReturnString N (o_version (ne_outside N))"

definition proc_hashcode :: native_body where
  "proc_hashcode N args =
    sthen (sassert (length args = 1))
      (with_arg N 0 KObject True args (\<lambda>v.
         sbind (stored (HashCode (ne_hashes N) v)) (ReturnLong N)))"

definition proc_gel_sizeof :: native_body where
  "proc_gel_sizeof N args =
    sthen (sassert (length args = 1))
      (with_arg N 0 KObject True args (\<lambda>v.
         sbind (stored (obj_at v)) (\<lambda>x.
         sbind (if IsClassObj x then ret v else stored (GetType v)) (\<lambda>cls.
         sbind (on_store (GetAllocationSize (ne_machine N) cls)) (ReturnLong N)))))"

text \<open>The documentation of a procedure: its name, the names of its parameters, its docstring.\<close>

fun comma_separated :: "string list \<Rightarrow> string" where
  "comma_separated [] = []"
| "comma_separated [s] = s"
| "comma_separated (s # ss) = s @ '', '' @ comma_separated ss"

definition newline :: string where
  "newline = [CHR 10]"

definition docs_text :: "string \<Rightarrow> argument list \<Rightarrow> string \<Rightarrow> string" where
  "docs_text name params docs =
    name @ newline @ ''(['' @ comma_separated (map arg_name params) @ ''])'' @ newline @ ''  '' @ docs"

definition docstring :: "uword \<Rightarrow> store \<Rightarrow> string res" where
  "docstring d st = (if d \<noteq> 0 then string_at d st else Inr [])"

definition proc_gel_docs :: native_body where
  "proc_gel_docs N args =
    (if args = [] then DoNothing
     else with_arg N 0 KProcedure False args (\<lambda>func.
       sbind (stored (obj_at func)) (\<lambda>x.
       case x of
         OLambda l \<Rightarrow>
           sbind (if lm_symbol l \<noteq> 0 then stored (symbol_text_at (lm_symbol l)) else ret []) (\<lambda>name.
           sbind (stored (docstring (lm_docs l))) (\<lambda>docs.
           ReturnString N (docs_text name (lm_args l) docs)))
       | ONative n \<Rightarrow>
           sbind (stored (symbol_text_at (nv_symbol n))) (\<lambda>name.
           sbind (stored (docstring (nv_docs n))) (\<lambda>docs.
           ReturnString N (docs_text name (nv_args n) docs)))
       | _ \<Rightarrow> ThrowError N (''`'' @ pr_other (ne_printer N) x @ ''` is not a Procedure''))))"

text \<open>\<open>Runtime::Import(Symbol*, LocalScope*)\<close> imports the null module.\<close>

definition Runtime_Import :: "native_env \<Rightarrow> uword \<Rightarrow> bool rop" where
  "Runtime_Import N symbol =
    sthen (sassert (symbol \<noteq> 0))
      (sthen (sguard LogFatal (o_home (ne_outside N) \<noteq> None)) (fails AssertFailed))"

definition proc_import :: native_body where
  "proc_import N args =
    (case args of
       [] \<Rightarrow> fails AssertFailed
     | arg # _ \<Rightarrow>
         sthen (sassert (arg \<noteq> 0))
           (sbind (stored (obj_at arg)) (\<lambda>x.
            case x of
              OSymbol _ \<Rightarrow>
                sbind (Runtime_Import N arg) (\<lambda>ok. sthen (sguard LogFatal ok) (ret True))
            | _ \<Rightarrow> fails LogFatal)))"

definition proc_print :: native_body where
  "proc_print N args =
    (case args of
       [] \<Rightarrow> fails AssertFailed
     | arg # _ \<Rightarrow>
         sbind (stored (PrintValue (ne_fuel N) (ne_printer N) arg)) (\<lambda>text.
         sthen (modifies (\<lambda>rt. rt\<lparr>rt_output := rt_output rt @ text @ newline\<rparr>)) (ReturnNull N)))"

definition proc_gel_load_bindings :: native_body where
  "proc_gel_load_bindings N args =
    with_string N 0 args (\<lambda>filename. sthen (o_bindings (ne_outside N) filename) (ReturnNull N))"

definition proc_random :: native_body where
  "proc_random N args =
    sthen (sassert (args = [])) (sbind (asks (o_random (ne_outside N))) (ReturnLong N))"

definition Long_Unbox :: "native_env \<Rightarrow> uword \<Rightarrow> store \<Rightarrow> uword res" where
  "Long_Unbox N a st =
    rbind (obj_at a st) (\<lambda>x.
    case x of
      OLong v \<Rightarrow> Inr v
    | _ \<Rightarrow> Inl (GelException (''expected `'' @ pr_other (ne_printer N) x @ ''` to be a Long.'')))"

text \<open>The arguments are not looked at before they are unboxed; the distribution asks for a range.\<close>

definition proc_rand_range :: native_body where
  "proc_rand_range N args =
    sbind (NativeArgument N 0 KLong True args) (\<lambda>a.
    sbind (NativeArgument N 1 KLong True args) (\<lambda>b.
    sbind (stored (Long_Unbox N a)) (\<lambda>v.
    sbind (stored (Long_Unbox N b)) (\<lambda>w.
    sthen (sguard UndefinedBehaviour (v \<le> w))
      (sbind (asks (o_random_in (ne_outside N) v w)) (ReturnLong N))))))"

definition proc_type :: native_body where
  "proc_type N args =
    sthen (sassert (args \<noteq> []))
      (sbind (NativeArgument N 0 KObject True args) (\<lambda>v.
       sbind (stored (IsNull v)) (\<lambda>n.
       if n then ReturnString N ''Null''
       else sbind (stored (GetType v)) (\<lambda>type.
            sbind (stored (class_at type)) (\<lambda>c. Return (cl_name c))))))"

definition proc_exit :: native_body where
  "proc_exit N args = ret True"

text \<open>Without arguments the empty list is returned from the C++ function, as a truth value, and not
  pushed.\<close>

definition proc_list :: native_body where
  "proc_list N args =
    sbind (on_store (Null (ne_machine N))) (\<lambda>empty.
    if args = [] then ret (empty \<noteq> 0)
    else sbind (on_store (push_all (ne_machine N) (rev args) empty)) Return)"

fun values_of :: "native_env \<Rightarrow> uword list \<Rightarrow> string list rop" where
  "values_of N [] = ret []"
| "values_of N (a # as) =
    sbind (on_store (String_ValueOf (ne_fuel N) (ne_machine N) (ne_printer N) a)) (\<lambda>s.
    sbind (stored (string_at s)) (\<lambda>t. sbind (values_of N as) (\<lambda>ts. ret (t # ts))))"

definition proc_format :: native_body where
  "proc_format N args =
    sthen (sassert (1 \<le> length args))
      (sbind (NativeArgument N 0 KString True args) (\<lambda>f.
       sbind (stored (string_at f)) (\<lambda>fmt_val.
       sthen (sassert (fmt_val \<noteq> []))
         (sbind (values_of N (tl args)) (\<lambda>texts.
          case o_format (ne_outside N) fmt_val texts of
            None \<Rightarrow> fails (CppException ''format_error'')
          | Some result \<Rightarrow> sthen (sassert (result \<noteq> [])) (ReturnString N result))))))"

definition proc_set_car :: native_body where
  "proc_set_car N args =
    with_arg N 0 KPair True args (\<lambda>sq.
    with_arg N 1 KObject True args (\<lambda>v. sthen (on_store (SetCar sq v)) DoNothing))"

definition proc_set_cdr :: native_body where
  "proc_set_cdr N args =
    with_arg N 0 KPair True args (\<lambda>sq.
    with_arg N 1 KObject True args (\<lambda>v. sthen (on_store (SetCdr sq v)) DoNothing))"

section \<open>Namespaces and classes\<close>

definition proc_get_namespace :: native_body where
  "proc_get_namespace N args =
    with_arg N 0 KSymbol True args (\<lambda>sy. sbind (reads (FindNamespace_symbol sy)) Return)"

definition proc_ns_get :: native_body where
  "proc_ns_get N args =
    with_arg N 0 KObject True args (\<lambda>a.
      sbind (stored (obj_at a)) (\<lambda>x.
      sbind (case x of
               OSymbol _ \<Rightarrow> reads (FindNamespace_symbol a)
             | ONamespace _ \<Rightarrow> ret a
             | _ \<Rightarrow> ret 0) (\<lambda>ns.
      sthen (sassert (ns \<noteq> 0))
        (with_arg N 1 KSymbol True args (\<lambda>sy.
          sbind (stored (symbol_text_at sy)) (\<lambda>name.
          sbind (stored (Namespace_Get ns name)) Return))))))"

definition proc_get_classes :: native_body where
  "proc_get_classes N args =
    sthen (sassert (args = []))
      (sbind (asks (\<lambda>rt. st_classes (rt_store rt))) (\<lambda>cs.
       sbind (on_store (ToList (ne_machine N) cs True)) Return))"

definition proc_get_class :: native_body where
  "proc_get_class N args =
    with_arg N 0 KSymbol True args (\<lambda>sy. sbind (stored (FindClass_symbol sy)) Return)"

text \<open>For a value that is neither a class nor a symbol the number is that of \<open>Object\<close>: \<open>GetClass\<close>
  is static, and the argument is an \<open>Object*\<close>.\<close>

definition proc_get_class_id :: native_body where
  "proc_get_class_id N args =
    with_arg N 0 KObject True args (\<lambda>a.
      sbind (stored (obj_at a)) (\<lambda>x.
      case x of
        OClass c \<Rightarrow> ReturnLong N (cl_id c)
      | OSymbol _ \<Rightarrow>
          sbind (stored (FindClass_symbol a)) (\<lambda>cls.
          if cls = 0 then ReturnNull N
          else sbind (stored (class_at cls)) (\<lambda>c. ReturnLong N (cl_id c)))
      | _ \<Rightarrow>
          sbind (on_store (GetClass KObject)) (\<lambda>cls.
          sbind (stored (class_at cls)) (\<lambda>c. ReturnLong N (cl_id c)))))"

definition proc_is_primitive_class :: native_body where
  "proc_is_primitive_class N args =
    with_arg N 0 KObject True args (\<lambda>a.
      sbind (stored (obj_at a)) (\<lambda>x.
      case x of
        OClass c \<Rightarrow> ReturnBool (IsPrimitive c)
      | OSymbol _ \<Rightarrow>
          sbind (stored (FindClass_symbol a)) (\<lambda>cls.
          if cls = 0 then ReturnBool False
          else sbind (stored (class_at cls)) (\<lambda>c. ReturnBool (IsPrimitive c)))
      | _ \<Rightarrow> ReturnBool False))"

definition proc_gel_get_symbol_pool_size :: native_body where
  "proc_gel_get_symbol_pool_size N args =
    sbind (asks (\<lambda>rt. pool_size (st_pool (rt_store rt)))) (ReturnLong N)"

definition proc_gel_get_symbol_pool_max_size :: native_body where
  "proc_gel_get_symbol_pool_max_size N args = ReturnLong N kSymbolPoolMaxSize"

section \<open>Event loop and timers\<close>

definition proc_get_event_loop :: native_body where
  "proc_get_event_loop N args = sbind (GetThreadEventLoop (ne_machine N)) Return"

definition with_timer :: "native_env \<Rightarrow> uword \<Rightarrow> (uword \<Rightarrow> bool rop) \<Rightarrow> bool rop" where
  "with_timer N n f =
    sbind (GetThreadEventLoop (ne_machine N)) (\<lambda>loop.
    sthen (sassert (loop \<noteq> 0))
      (sbind (stored (GetTimer loop n)) (\<lambda>timer.
       if timer = 0 then ThrowError N (''failed to find Timer w/ id '' @ show_nat (unat n))
       else f timer)))"

definition proc_timer_start :: native_body where
  "proc_timer_start N args =
    with_long N 0 args (\<lambda>n. with_long N 1 args (\<lambda>timeout. with_long N 2 args (\<lambda>repeat.
      with_timer N n (\<lambda>timer.
        sthen (Timer_Start (ne_uv N) timer timeout repeat) (ReturnNull N)))))"

definition proc_timer_stop :: native_body where
  "proc_timer_stop N args =
    with_long N 0 args (\<lambda>n.
      with_timer N n (\<lambda>timer. sthen (Timer_Stop (ne_uv N) timer) (ReturnNull N)))"

definition proc_timer_again :: native_body where
  "proc_timer_again N args =
    with_long N 0 args (\<lambda>n.
      with_timer N n (\<lambda>timer. sthen (Timer_Again (ne_uv N) timer) (ReturnNull N)))"

definition proc_timer_get_repeat :: native_body where
  "proc_timer_get_repeat N args =
    with_long N 0 args (\<lambda>n.
      with_timer N n (\<lambda>timer. sbind (asks (uv_timer_get_repeat (ne_uv N) timer)) (ReturnLong N)))"

definition proc_timer_set_repeat :: native_body where
  "proc_timer_set_repeat N args =
    with_long N 0 args (\<lambda>n. with_long N 1 args (\<lambda>repeat.
      with_timer N n (\<lambda>timer. sthen (uv_timer_set_repeat (ne_uv N) timer repeat) (ReturnNull N))))"

definition proc_timer_get_due_in :: native_body where
  "proc_timer_get_due_in N args =
    with_long N 0 args (\<lambda>n.
      with_timer N n (\<lambda>timer. sbind (asks (uv_timer_get_due_in (ne_uv N) timer)) (ReturnLong N)))"

definition proc_create_timer :: native_body where
  "proc_create_timer N args =
    with_arg N 0 KProcedure True args (\<lambda>on_tick.
    with_long N 1 args (\<lambda>timeout. with_long N 2 args (\<lambda>repeat.
      sbind (GetThreadEventLoop (ne_machine N)) (\<lambda>loop.
      sthen (sassert (loop \<noteq> 0))
        (sbind (CreateTimer (ne_machine N) (ne_uv N) loop on_tick) (\<lambda>timer.
         sthen (sassert (timer \<noteq> 0))
           (sthen (Timer_Start (ne_uv N) timer timeout repeat)
             (sbind (stored (timer_at timer)) (\<lambda>(n, f). ReturnLong N n)))))))))"

section \<open>Sets, maps, arrays and buffers\<close>

definition proc_set_contains :: native_body where
  "proc_set_contains N args =
    with_arg N 0 KSet True args (\<lambda>s.
    with_arg N 1 KObject True args (\<lambda>v.
      sbind (stored (Set_Contains (ne_fuel N) (ne_machine N) (ne_hashes N) s v)) ReturnBool))"

definition proc_set_count :: native_body where
  "proc_set_count N args =
    with_arg N 0 KSet True args (\<lambda>s. sbind (stored (Set_GetSize s)) (ReturnLong N))"

definition proc_set_empty :: native_body where
  "proc_set_empty N args =
    with_arg N 0 KSet True args (\<lambda>s. sbind (stored (Set_IsEmpty s)) ReturnBool)"

definition proc_map_contains :: native_body where
  "proc_map_contains N args =
    with_arg N 0 KMap True args (\<lambda>m.
    with_arg N 1 KObject True args (\<lambda>key.
      sbind (stored (Map_Contains (ne_fuel N) (ne_machine N) (ne_hashes N) m key)) ReturnBool))"

definition proc_map_get :: native_body where
  "proc_map_get N args =
    with_arg N 0 KMap True args (\<lambda>m.
    with_arg N 1 KObject True args (\<lambda>key.
      sbind (on_store (Map_Get (ne_fuel N) (ne_machine N) (ne_hashes N) m key)) Return))"

definition proc_map_size :: native_body where
  "proc_map_size N args =
    with_arg N 0 KMap True args (\<lambda>m. sbind (stored (Map_GetSize m)) (ReturnLong N))"

definition proc_map_empty :: native_body where
  "proc_map_empty N args =
    with_arg N 0 KMap True args (\<lambda>m. sbind (stored (Map_IsEmpty m)) ReturnBool)"

definition proc_array_new :: native_body where
  "proc_array_new N args =
    (if args = [] then ThrowError N ''expected args to not be empty''
     else sbind (on_store (Array_New (ne_machine N) (of_nat (length args)))) (\<lambda>result.
       sthen (on_store (Array_fill result 0 args)) (Return result)))"

definition bounds_text :: "native_env \<Rightarrow> uword \<Rightarrow> obj \<Rightarrow> string" where
  "bounds_text N index x =
    ''index `'' @ show_nat (unat index) @ ''` is out of bounds for `'' @ pr_other (ne_printer N) x @ ''`''"

text \<open>The errors of the two arguments are not looked at.\<close>

definition proc_array_get :: native_body where
  "proc_array_get N args =
    (if length args \<noteq> 2 then ThrowError N ''expected args to be: `<array> <index>`''
     else sbind (NativeArgument N 0 KArray True args) (\<lambda>a.
       sbind (NativeArgument N 1 KLong True args) (\<lambda>i.
       sbind (stored (obj_at i)) (\<lambda>ix.
       sbind (case ix of OLong v \<Rightarrow> ret v | _ \<Rightarrow> fails UndefinedBehaviour) (\<lambda>index.
       sbind (stored (Array_GetCapacity a)) (\<lambda>capacity.
       if capacity < index then
         sbind (stored (obj_at a)) (\<lambda>x. ThrowError N (bounds_text N index x))
       else sbind (stored (Array_Get a index)) (\<lambda>result.
         if result \<noteq> 0 then Return result else ReturnNull N)))))))"

definition proc_array_set :: native_body where
  "proc_array_set N args =
    (if length args \<noteq> 3 then ThrowError N ''expected args to be: `<array> <index>`''
     else sbind (if args ! 0 = 0 then fails UndefinedBehaviour else stored (obj_at (args ! 0))) (\<lambda>x.
       case x of
         OArray vs \<Rightarrow>
           sbind (if args ! 1 = 0 then fails UndefinedBehaviour else stored (obj_at (args ! 1))) (\<lambda>y.
           case y of
             OLong index \<Rightarrow>
               if of_nat (length vs) < index then ThrowError N (bounds_text N index x)
               else sthen (on_store (Array_Set (args ! 0) index (args ! 2))) DoNothing
           | _ \<Rightarrow> ThrowError N (''expected `'' @ pr_other (ne_printer N) y @ ''` to be a Long.''))
       | _ \<Rightarrow> ThrowError N (''expected `'' @ pr_other (ne_printer N) x @ ''` to be an Array'')))"

definition proc_array_length :: native_body where
  "proc_array_length N args =
    sbind (NativeArgument N 0 KArray True args) (\<lambda>a.
    sbind (stored (Array_GetCapacity a)) (ReturnLong N))"

definition proc_buffer_get_length :: native_body where
  "proc_buffer_get_length N args =
    with_arg N 0 KBuffer True args (\<lambda>b. sbind (stored (Buffer_GetLength b)) (ReturnLong N))"

definition proc_buffer_get_capacity :: native_body where
  "proc_buffer_get_capacity N args =
    with_arg N 0 KBuffer True args (\<lambda>b. sbind (stored (Buffer_GetCapacity b)) (ReturnLong N))"

section \<open>The file system\<close>

definition to_int :: "uword \<Rightarrow> uword" where
  "to_int v = scast (ucast v :: 32 word)"

definition proc_fs_get_cwd :: native_body where
  "proc_fs_get_cwd N args =
    sthen (sassert (args = [])) (ReturnString N (o_cwd (ne_outside N)))"

text \<open>The three callbacks, the last two or all three of them optional.\<close>

definition proc_fs_stat :: native_body where
  "proc_fs_stat N args =
    with_string N 0 args (\<lambda>path.
    with_arg N 1 KProcedure True args (\<lambda>on_next.
    with_arg N 2 KProcedure False args (\<lambda>on_error.
    with_arg N 3 KProcedure False args (\<lambda>on_finished.
      sthen (sbind (GetThreadEventLoop (ne_machine N)) (\<lambda>loop. sassert (loop \<noteq> 0)))
        (sbind (EventLoop_Stat (ne_uv N) path on_next on_error on_finished) (\<lambda>(ok, r). ReturnBool ok))))))"

definition proc_fs_rename :: native_body where
  "proc_fs_rename N args =
    with_string N 0 args (\<lambda>old_path.
    with_string N 1 args (\<lambda>new_path.
    with_arg N 2 KProcedure False args (\<lambda>on_success.
    with_arg N 3 KProcedure False args (\<lambda>on_error.
    with_arg N 4 KProcedure False args (\<lambda>on_finished.
      sthen (sbind (GetThreadEventLoop (ne_machine N)) (\<lambda>loop. sassert (loop \<noteq> 0)))
        (sbind (EventLoop_Rename (ne_uv N) old_path new_path on_success on_error on_finished)
          (\<lambda>(ok, r). ReturnBool ok)))))))"

definition proc_fs_mkdir :: native_body where
  "proc_fs_mkdir N args =
    with_string N 0 args (\<lambda>path.
    with_long N 1 args (\<lambda>mode.
    with_arg N 2 KProcedure False args (\<lambda>on_success.
    with_arg N 3 KProcedure False args (\<lambda>on_error.
    with_arg N 4 KProcedure False args (\<lambda>on_finished.
      sthen (sbind (GetThreadEventLoop (ne_machine N)) (\<lambda>loop. sassert (loop \<noteq> 0)))
        (sbind (EventLoop_Mkdir (ne_uv N) path (to_int mode) on_success on_error on_finished)
          (\<lambda>(ok, r). ReturnBool ok)))))))"

definition proc_fs_rmdir :: native_body where
  "proc_fs_rmdir N args =
    with_string N 0 args (\<lambda>path.
    with_arg N 1 KProcedure False args (\<lambda>on_success.
    with_arg N 2 KProcedure False args (\<lambda>on_error.
    with_arg N 3 KProcedure False args (\<lambda>on_finished.
      sthen (sbind (GetThreadEventLoop (ne_machine N)) (\<lambda>loop. sassert (loop \<noteq> 0)))
        (sbind (EventLoop_Rmdir (ne_uv N) path on_success on_error on_finished) (\<lambda>(ok, r). ReturnBool ok))))))"

text \<open>\<open>open\<close> returns whether the request was started instead of pushing it.\<close>

definition proc_fs_open :: native_body where
  "proc_fs_open N args =
    with_string N 0 args (\<lambda>path.
    with_long N 1 args (\<lambda>flags.
    with_long N 2 args (\<lambda>mode.
    with_arg N 3 KProcedure False args (\<lambda>on_success.
    with_arg N 4 KProcedure False args (\<lambda>on_error.
    with_arg N 5 KProcedure False args (\<lambda>on_finished.
      sthen (sbind (GetThreadEventLoop (ne_machine N)) (\<lambda>loop. sassert (loop \<noteq> 0)))
        (sbind (EventLoop_Open (ne_uv N) path (to_int flags) (to_int mode) on_success on_error on_finished)
          (\<lambda>(ok, r). ret ok))))))))"

definition proc_fs_not_implemented :: native_body where
  "proc_fs_not_implemented N args = ThrowNotImplementedError N"

section \<open>Debugging\<close>

definition Field_GetOffset :: "field_obj \<Rightarrow> uword res" where
  "Field_GetOffset f =
    (case fd_value f of FOffset off \<Rightarrow> Inr off | FObject _ \<Rightarrow> Inl (CppException ''bad_variant_access''))"

fun fields_list :: "machine \<Rightarrow> uword list \<Rightarrow> uword \<Rightarrow> uword sop" where
  "fields_list M [] result = ret result"
| "fields_list M (f # fs) result =
    sbind (reads (field_at f)) (\<lambda>fd.
    sbind (reads (\<lambda>_. Field_GetOffset fd)) (\<lambda>off.
    sbind (Long_New M off) (\<lambda>l.
    sbind (Cons M (fd_name fd) l) (\<lambda>p.
    sbind (Cons M p result) (\<lambda>r. fields_list M fs r)))))"

definition proc_gel_get_fields :: native_body where
  "proc_gel_get_fields N args =
    with_arg N 0 KClass True args (\<lambda>cls.
      sbind (on_store (Null (ne_machine N))) (\<lambda>empty.
      sbind (stored (class_at cls)) (\<lambda>c.
      sbind (on_store (fields_list (ne_machine N) (cl_fields c) empty)) Return)))"

text \<open>The arguments are only logged.\<close>

definition proc_gel_print_args :: native_body where
  "proc_gel_print_args N args =
    with_arg N 0 KProcedure True args (\<lambda>func. ReturnNull N)"

definition proc_gel_print_heap :: native_body where
  "proc_gel_print_heap N args = ReturnNull N"

definition proc_gel_get_modules :: native_body where
  "proc_gel_get_modules N args =
    sbind (asks rt_modules) (\<lambda>ms. sbind (on_store (ToList (ne_machine N) ms False)) Return)"

definition proc_gel_major_gc :: native_body where
  "proc_gel_major_gc N args = sthen (fails LogFatal :: unit rop) DoNothing"

definition proc_gel_get_debug :: native_body where
  "proc_gel_get_debug N args = ReturnBool True"

text \<open>The frames are only logged, by \<open>get-frame\<close> and by \<open>print-st\<close>.\<close>

definition proc_gel_get_frame :: native_body where
  "proc_gel_get_frame N args = DoNothing"

text \<open>The variables of the scope, each as a list of its value and its name. \<open>ToList\<close> reverses.\<close>

fun locals_list :: "machine \<Rightarrow> nat list \<Rightarrow> uword \<Rightarrow> uword sop" where
  "locals_list M [] result = ret result"
| "locals_list M (l # ls) result =
    sbind (reads (\<lambda>st. get_local (st_scopes st) l)) (\<lambda>v.
    sbind (if HasValue v then ret (GetValue v) else Null M) (\<lambda>value.
    sbind (String_New M (lv_name v)) (\<lambda>name.
    sbind (ToList M [value, name] False) (\<lambda>entry.
    sbind (Pair_New M entry result) (\<lambda>r. locals_list M ls r)))))"

definition proc_gel_get_locals :: native_body where
  "proc_gel_get_locals N args =
    sthen (sassert (args = []))
      (sbind (asks rt_scope) (\<lambda>scope.
       case scope of
         None \<Rightarrow> fails UndefinedBehaviour
       | Some i \<Rightarrow>
           sbind (scoped (\<lambda>sc. get_scope sc i)) (\<lambda>s.
           sbind (on_store (Null (ne_machine N))) (\<lambda>empty.
           sbind (on_store (locals_list (ne_machine N) (sc_locals s) empty)) Return))))"

definition proc_gel_get_target_triple :: native_body where
  "proc_gel_get_target_triple N args = ReturnString N (o_triple (ne_outside N))"

fun natives_list :: "native_env \<Rightarrow> uword list \<Rightarrow> uword \<Rightarrow> uword sop" where
  "natives_list N [] result = ret result"
| "natives_list N (a # as) result =
    sbind (reads (native_at a)) (\<lambda>nv.
    sbind (String_ValueOf (ne_fuel N) (ne_machine N) (ne_printer N) (nv_symbol nv)) (\<lambda>s.
    sbind (Pair_New (ne_machine N) s result) (\<lambda>r. natives_list N as r)))"

definition proc_gel_get_natives :: native_body where
  "proc_gel_get_natives N args =
    sthen (sassert (args = []))
      (sbind (asks rt_natives) (\<lambda>all.
       sbind (on_store (Null (ne_machine N))) (\<lambda>empty.
       sbind (on_store (natives_list N all empty)) Return)))"

section \<open>The table of native procedures\<close>

text \<open>The procedures \<open>Class::Init\<close>, \<open>Symbol::Init\<close>, \<open>NativeProcedure::InitNatives\<close> and
  \<open>Buffer::Init\<close> register, in this order, under their symbols. The bodies of the reactive
  procedures and of those that print the zones, list the roots, collect garbage or tell the time
  of a compilation are parameters.\<close>

definition left_out :: "string \<Rightarrow> string \<times> native_body" where
  "left_out name = (name, \<lambda>N. o_other (ne_outside N) (ne_call N) name)"

definition rx_names :: "string list" where
  "rx_names =
    [''observer'', ''observable'', ''subscribe'', ''first'', ''last'', ''map'', ''take'', ''take_last'',
     ''skip'', ''buffer'', ''filter'', ''take-while'', ''replay-subject'', ''publish-subject'',
     ''publish'', ''complete'', ''publish-error'']"

definition class_natives :: "(string \<times> native_body) list" where
  "class_natives =
    [(''gel/get-classes'', proc_get_classes), (''gel/get-class'', proc_get_class),
     (''gel/get-class-id'', proc_get_class_id), (''gel/is-primitive?'', proc_is_primitive_class)]"

definition symbol_natives :: "(string \<times> native_body) list" where
  "symbol_natives =
    [(''gel/get-symbol-pool-size'', proc_gel_get_symbol_pool_size),
     (''gel/get-symbol-pool-max-size'', proc_gel_get_symbol_pool_max_size)]"

definition timer_natives :: "(string \<times> native_body) list" where
  "timer_natives =
    [(''create-timer'', proc_create_timer), (''Timer/start'', proc_timer_start),
     (''Timer/stop'', proc_timer_stop), (''Timer/again'', proc_timer_again),
     (''Timer/get-due-in'', proc_timer_get_due_in), (''Timer/get-repeat'', proc_timer_get_repeat),
     (''Timer/set-repeat!'', proc_timer_set_repeat)]"

definition container_natives :: "(string \<times> native_body) list" where
  "container_natives =
    [(''Set/contains'', proc_set_contains), (''Set/empty?'', proc_set_empty),
     (''Set/count'', proc_set_count), (''Map/contains'', proc_map_contains),
     (''Map/empty?'', proc_map_empty), (''Map/size'', proc_map_size), (''Map/get'', proc_map_get)]"

definition fs_natives :: "(string \<times> native_body) list" where
  "fs_natives =
    [(''fs/get-cwd'', proc_fs_get_cwd), (''fs/stat'', proc_fs_stat), (''fs/rename'', proc_fs_rename),
     (''fs/mkdir'', proc_fs_mkdir), (''fs/rmdir'', proc_fs_rmdir),
     (''fs/fsync'', proc_fs_not_implemented), (''fs/ftruncate'', proc_fs_not_implemented),
     (''fs/access'', proc_fs_not_implemented), (''fs/chmod'', proc_fs_not_implemented),
     (''fs/link'', proc_fs_not_implemented), (''fs/symlink'', proc_fs_not_implemented),
     (''fs/readlink'', proc_fs_not_implemented), (''fs/chown'', proc_fs_not_implemented),
     (''fs/copy-file'', proc_fs_not_implemented), (''fs/open'', proc_fs_open),
     (''fs/close'', proc_fs_not_implemented), (''fs/unlink'', proc_fs_not_implemented)]"

definition rx_natives :: "(string \<times> native_body) list" where
  "rx_natives =
    map (\<lambda>name. left_out (''rx/'' @ name)) rx_names"

definition debug_natives :: "(string \<times> native_body) list" where
  "debug_natives =
    [(''gel/print-args'', proc_gel_print_args), (''gel/print-heap'', proc_gel_print_heap),
     left_out ''gel/print-new-zone'', left_out ''gel/print-old-zone'', left_out ''gel/get-roots'',
     left_out ''gel/minor-gc!'', (''gel/major-gc!'', proc_gel_major_gc),
     (''gel/get-frame'', proc_gel_get_frame), (''gel/debug?'', proc_gel_get_debug),
     (''gel/get-target-triple'', proc_gel_get_target_triple), (''gel/get-locals'', proc_gel_get_locals),
     (''gel/get-natives'', proc_gel_get_natives), left_out ''gel/compile-time?'',
     (''gel/print-st'', proc_gel_get_frame), (''gel/get-fields'', proc_gel_get_fields),
     (''gel/get-modules'', proc_gel_get_modules)]"

definition InitNatives_table :: "(string \<times> native_body) list" where
  "InitNatives_table =
    [(''gel/get-version'', proc_gel_get_version), (''hashcode'', proc_hashcode),
     (''sizeof'', proc_gel_sizeof), (''print'', proc_print), (''type?'', proc_type),
     (''import'', proc_import), (''exit'', proc_exit), (''format'', proc_format), (''list'', proc_list),
     (''set-car!'', proc_set_car), (''set-cdr!'', proc_set_cdr), (''random'', proc_random),
     (''random:range'', proc_rand_range), (''gel/docs?'', proc_gel_docs),
     (''gel/load-bindings'', proc_gel_load_bindings), (''get-event-loop'', proc_get_event_loop),
     (''gel/get-namespace'', proc_get_namespace), (''ns:get'', proc_ns_get)]
    @ timer_natives @ container_natives @ fs_natives @ rx_natives @ debug_natives"

definition buffer_natives :: "(string \<times> native_body) list" where
  "buffer_natives =
    [(''Buffer:get-capacity'', proc_buffer_get_capacity), (''Buffer:get-length'', proc_buffer_get_length)]"

text \<open>\<open>ArrayBase::Init\<close> would register these; \<open>Object::Init\<close> calls \<open>ArrayBase::InitClass\<close> only.\<close>

definition array_natives :: "(string \<times> native_body) list" where
  "array_natives =
    [(''Array/new'', proc_array_new), (''Array/get'', proc_array_get), (''Array/set!'', proc_array_set),
     (''Array/count'', proc_array_length)]"

definition all_natives :: "(string \<times> native_body) list" where
  "all_natives = class_natives @ symbol_natives @ InitNatives_table @ buffer_natives"

text \<open>The procedures whose effect is not modelled: the reactive ones, five that are for debugging, and
  the loader of bindings, which runs the code of a library.\<close>

definition unmodelled_names :: "string list" where
  "unmodelled_names =
    map (\<lambda>name. ''rx/'' @ name) rx_names @
    [''gel/print-new-zone'', ''gel/print-old-zone'', ''gel/get-roots'', ''gel/minor-gc!'',
     ''gel/compile-time?'', ''gel/load-bindings'']"

text \<open>\<open>Init\<close> of a procedure, and of a list of them with the numbers of their entries.\<close>

definition InitNative :: "world \<Rightarrow> string \<Rightarrow> nat \<Rightarrow> unit rop" where
  "InitNative W name entry =
    sbind (on_store (Symbol_New_text (w_machine W) name)) (\<lambda>sy.
    sthen (sassert (sy \<noteq> 0)) (NativeProcedure_Link W sy entry))"

fun InitNatives_from :: "world \<Rightarrow> nat \<Rightarrow> string list \<Rightarrow> unit rop" where
  "InitNatives_from W entry [] = ret ()"
| "InitNatives_from W entry (name # names) =
    sthen (InitNative W name entry) (InitNatives_from W (entry + 1) names)"

definition InitNatives :: "world \<Rightarrow> unit rop" where
  "InitNatives W = InitNatives_from W 0 (map fst all_natives)"

text \<open>\<open>Apply\<close> of an entry, and the world whose native procedures and containers are those of the
  program.\<close>

definition apply_native :: "native_env \<Rightarrow> nat \<Rightarrow> uword list \<Rightarrow> bool rop" where
  "apply_native N entry args =
    (if entry < length all_natives then snd (all_natives ! entry) N args else fails UndefinedBehaviour)"

definition gel_world :: "world \<Rightarrow> outside \<Rightarrow> nat \<Rightarrow> world" where
  "gel_world W S fuel =
    W\<lparr>w_native := \<lambda>call. apply_native \<lparr>ne_world = W, ne_outside = S, ne_fuel = fuel, ne_call = call\<rparr>,
      w_buffer_text := buffer_text,
      w_new := Container_New fuel (w_machine W) (o_hashes S) (w_new W)\<rparr>"

end
