(* ===== verification/ContainersCorrect.thy ===== *)
theory ContainersCorrect
  imports Containers ObjectsCorrect
begin

text \<open>
  Correctness of the containers. The locale \<open>keyed\<close> states what a hash table asks of its keys, and
  its lemmas that the table is then a finite map from their values; it is interpreted on the keys
  whose comparison and hash go by value: integers, strings and truth values. Then arrays and
  buffers.
\<close>

section \<open>Hash tables as finite maps\<close>

locale keyed =
  fixes fuel :: nat
    and M :: machine
    and H :: hashes
    and st :: store
    and keys :: "uword set"
    and val :: "uword \<Rightarrow> 'v"
    and hash :: "'v \<Rightarrow> uword"
  assumes key_nonzero: "a \<in> keys \<Longrightarrow> a \<noteq> 0"
    and key_hash: "a \<in> keys \<Longrightarrow> HashCode H a st = Inr (hash (val a))"
    and key_equals: "a \<in> keys \<Longrightarrow> b \<in> keys \<Longrightarrow> Equals fuel M a b st = Inr (val a = val b)"
begin

text \<open>A table whose nodes have keys of this kind and sit under their hashes, and what it maps the
  value of a key to.\<close>

definition good_table :: "('n \<Rightarrow> uword) \<Rightarrow> (uword \<times> 'n) list \<Rightarrow> bool" where
  "good_table key ns \<longleftrightarrow> (\<forall>(h, n)\<in>set ns. key n \<in> keys \<and> h = hash (val (key n)))"

definition table_map :: "('n \<Rightarrow> uword) \<Rightarrow> (uword \<times> 'n) list \<Rightarrow> 'v \<rightharpoonup> 'n" where
  "table_map key ns = map_of (map (\<lambda>(h, n). (val (key n), n)) ns)"

lemma hasher: "a \<in> keys \<Longrightarrow> ObjectHasher H a st = Inr (hash (val a))"
  by (simp add: ObjectHasher_def key_nonzero key_hash)

lemma find_node_map:
  assumes "good_table key ns" "a \<in> keys"
  shows "find_node fuel M key (hash (val a)) a ns st = Inr (table_map key ns (val a))"
  using assms
proof (induction ns)
  case (Cons p ns)
  obtain h n where p: "p = (h, n)" by (cases p)
  have "key n \<in> keys" "h = hash (val (key n))" "good_table key ns"
    using Cons.prems(1) by (auto simp: good_table_def p)
  then show ?case
    using Cons key_equals [OF Cons.prems(2), of "key n"] by (auto simp: p table_map_def)
qed (simp add: table_map_def)

lemma table_find_map:
  "good_table key ns \<Longrightarrow> a \<in> keys \<Longrightarrow> table_find fuel M H key a ns st = Inr (table_map key ns (val a))"
  by (simp add: table_find_def hasher find_node_map)

lemma table_map_append: "table_map key (ns @ [(h, n)]) = [val (key n) \<mapsto> n] ++ table_map key ns"
  by (simp add: table_map_def)

lemma table_insert_map:
  assumes "good_table key ns" "key n \<in> keys"
  shows "\<exists>ns'. table_insert fuel M H key n ns st = Inr ns' \<and> good_table key ns' \<and>
    table_map key ns' = [val (key n) \<mapsto> n] ++ table_map key ns \<and>
    length ns' = (if table_map key ns (val (key n)) = None then length ns + 1 else length ns)"
proof (cases "table_map key ns (val (key n))")
  case None
  then show ?thesis
    using assms by (auto simp: table_insert_def hasher find_node_map good_table_def table_map_append)
next
  case (Some m)
  moreover have "[val (key n) \<mapsto> n] ++ table_map key ns = table_map key ns"
    using Some by (auto simp: map_add_def split: option.split)
  ultimately show ?thesis
    using assms by (simp add: table_insert_def hasher find_node_map)
qed

lemma table_insert_all_map:
  assumes "good_table key ns" "key ` set xs \<subseteq> keys" "length ns = card (dom (table_map key ns))"
  shows "\<exists>ns'. table_insert_all fuel M H key xs ns st = Inr ns' \<and> good_table key ns' \<and>
    table_map key ns' = map_of (map (\<lambda>n. (val (key n), n)) xs) ++ table_map key ns \<and>
    length ns' = card (dom (table_map key ns'))"
  using assms
proof (induction xs arbitrary: ns)
  case (Cons x xs)
  obtain ns1 where a: "table_insert fuel M H key x ns st = Inr ns1" "good_table key ns1"
      "table_map key ns1 = [val (key x) \<mapsto> x] ++ table_map key ns"
      "length ns1 = (if table_map key ns (val (key x)) = None then length ns + 1 else length ns)"
    using table_insert_map [OF Cons.prems(1), of x] Cons.prems(2) by auto
  have "finite (dom (table_map key ns))" by (simp add: table_map_def finite_dom_map_of)
  moreover have "dom (table_map key ns1) = insert (val (key x)) (dom (table_map key ns))"
    unfolding a(3) dom_map_add by auto
  ultimately have len: "length ns1 = card (dom (table_map key ns1))"
    using a(4) Cons.prems(3) by (simp add: card_insert_if domIff)
  have "key ` set xs \<subseteq> keys" using Cons.prems(2) by simp
  from Cons.IH [OF a(2) this len]
  obtain ns' where b: "table_insert_all fuel M H key xs ns1 st = Inr ns'" "good_table key ns'"
      "table_map key ns' = map_of (map (\<lambda>n. (val (key n), n)) xs) ++ table_map key ns1"
      "length ns' = card (dom (table_map key ns'))"
    by blast
  have eq: "map_of (map (\<lambda>n. (val (key n), n)) xs) ++ table_map key ns1 =
      map_of (map (\<lambda>n. (val (key n), n)) (x # xs)) ++ table_map key ns"
    unfolding a(3) by (simp add: fun_eq_iff map_add_def split: option.split)
  show ?case
    by (intro exI [of _ ns'] conjI) (simp_all only: table_insert_all.simps a(1) rbind_Inr b eq)
qed simp

end

text \<open>Keys that go by value, and the value of a key.\<close>

datatype key_value = VLong uword | VString string | VBool bool

definition key_value :: "obj \<Rightarrow> key_value option" where
  "key_value x =
    (case x of OLong v \<Rightarrow> Some (VLong v) | OString s \<Rightarrow> Some (VString s) | OBool b \<Rightarrow> Some (VBool b) | _ \<Rightarrow> None)"

definition value_at :: "store \<Rightarrow> uword \<Rightarrow> key_value option" where
  "value_at st a = (if a = 0 then None else Option.bind (st_objs st a) key_value)"

definition value_hash :: "hashes \<Rightarrow> key_value \<Rightarrow> uword" where
  "value_hash H v =
    CombineHash 0 (case v of VLong n \<Rightarrow> h_word H n | VString s \<Rightarrow> h_string H s | VBool b \<Rightarrow> h_bool H b)"

lemma key_value_Some:
  "key_value x = Some v \<longleftrightarrow> (\<exists>n. x = OLong n \<and> v = VLong n) \<or> (\<exists>s. x = OString s \<and> v = VString s) \<or>
    (\<exists>b. x = OBool b \<and> v = VBool b)"
  by (cases x) (auto simp: key_value_def)

lemma value_at_cases:
  assumes "value_at st a = Some v"
  obtains n where "a \<noteq> 0" "st_objs st a = Some (OLong n)" "v = VLong n"
  | s where "a \<noteq> 0" "st_objs st a = Some (OString s)" "v = VString s"
  | b where "a \<noteq> 0" "st_objs st a = Some (OBool b)" "v = VBool b"
  using assms
  by (auto simp: value_at_def key_value_Some bind_eq_Some_conv split: if_splits)

interpretation by_value: keyed fuel M H st "dom (value_at st)" "the \<circ> value_at st" "value_hash H" for fuel M H st
proof
  fix a assume "a \<in> dom (value_at st)"
  then obtain v where v: "value_at st a = Some v" by auto
  show "a \<noteq> 0" using v by (auto simp: value_at_def split: if_splits)
  show "HashCode H a st = Inr (value_hash H ((the \<circ> value_at st) a))"
    using v by (cases rule: value_at_cases)
      (auto simp: HashCode_def obj_at_def value_hash_def StringObject_HashCode_def v)
next
  fix a b assume "a \<in> dom (value_at st)" "b \<in> dom (value_at st)"
  then obtain v w where v: "value_at st a = Some v" and w: "value_at st b = Some w" by auto
  show "Equals fuel M a b st = Inr ((the \<circ> value_at st) a = (the \<circ> value_at st) b)"
    using v
    by (cases rule: value_at_cases; use w in \<open>cases rule: value_at_cases\<close>)
      (simp_all add: Equals.simps obj_at_def String_Equals_def v w)
qed

section \<open>Maps\<close>

text \<open>The arguments of the constructor, of a list of bindings.\<close>

fun flat :: "(uword \<times> uword) list \<Rightarrow> uword list" where
  "flat [] = []"
| "flat ((k, v) # kvs) = k # v # flat kvs"

lemma even_flat: "even (length (flat kvs))"
  by (induction kvs rule: flat.induct) simp_all

lemma map_insert_args_flat:
  "\<forall>(k, v)\<in>set kvs. k \<noteq> 0 \<and> v \<noteq> 0 \<Longrightarrow>
    map_insert_args fuel M H (flat kvs) ns st = table_insert_all fuel M H fst kvs ns st"
  by (induction kvs arbitrary: ns rule: flat.induct) (auto intro!: rbind_cong)

lemma value_at_mono: "st_objs st \<subseteq>\<^sub>m st_objs st' \<Longrightarrow> value_at st a = Some v \<Longrightarrow> value_at st' a = Some v"
  by (auto simp: value_at_def bind_eq_Some_conv map_le_def dom_def split: if_splits)

lemma good_table_mono:
  assumes "st_objs st \<subseteq>\<^sub>m st_objs st'" "by_value.good_table st H key ns"
  shows "by_value.good_table st' H key ns \<and> by_value.table_map st' key ns = by_value.table_map st key ns"
proof -
  have v: "value_at st' (key n) = value_at st (key n)" if "(h, n) \<in> set ns" for h n
    using assms(2) that value_at_mono [OF assms(1)] by (force simp: by_value.good_table_def)
  have "map (\<lambda>(h, n). ((the \<circ> value_at st') (key n), n)) ns = map (\<lambda>(h, n). ((the \<circ> value_at st) (key n), n)) ns"
    using v by auto
  moreover have "by_value.good_table st' H key ns"
    unfolding by_value.good_table_def
  proof
    fix p assume p: "p \<in> set ns"
    obtain h n where hn: "p = (h, n)" by (cases p)
    have "key n \<in> dom (value_at st) \<and> h = value_hash H (the (value_at st (key n)))"
      using assms(2) p by (auto simp: by_value.good_table_def hn)
    then show "case p of (h, n) \<Rightarrow> key n \<in> dom (value_at st') \<and> h = value_hash H ((the \<circ> value_at st') (key n))"
      using v [of h n] p by (simp add: hn dom_def)
  qed
  ultimately show ?thesis by (simp only: by_value.table_map_def)
qed

text \<open>C9. A map made of bindings whose keys are integers, strings or truth values is the finite
  map of the keys' values: looking up any key of that kind, by the same object or another of equal
  value, gives the value of the first binding with it, and null if there is none; \<open>contains\<close> and
  \<open>size\<close> agree with it.\<close>

theorem Map_is_finite_map:
  assumes "store_ok st" "sane_machine M" "16 + unat (m_sizeof M KMap) < store_free st"
    and "\<forall>(k, v)\<in>set kvs. value_at st k \<noteq> None \<and> v \<noteq> 0"
  defines "content \<equiv> map_of (map (\<lambda>(k, v). (the (value_at st k), v)) kvs)"
  shows "\<exists>m st'. Map_New fuel M H (flat kvs) st = Inr (m, st') \<and> st_objs st \<subseteq>\<^sub>m st_objs st' \<and>
    Map_GetSize m st' = Inr (of_nat (card (dom content))) \<and>
    (\<forall>k c. value_at st' k = Some c \<longrightarrow>
      Map_Contains fuel M H m k st' = Inr (content c \<noteq> None) \<and>
      Map_Get fuel M H m k st' = (case content c of None \<Rightarrow> Null M st' | Some v \<Rightarrow> Inr (v, st')))"
proof -
  have nz: "\<forall>(k, v)\<in>set kvs. k \<noteq> 0 \<and> v \<noteq> 0"
    using assms(4) by (auto simp: value_at_def)
  have "fst ` set kvs \<subseteq> dom (value_at st)" using assms(4) by auto
  moreover have "by_value.good_table st H fst []" "length [] = card (dom (by_value.table_map st fst []))"
    by (simp_all add: by_value.good_table_def by_value.table_map_def)
  ultimately obtain ns where ns: "table_insert_all fuel M H fst kvs [] st = Inr ns"
      "by_value.good_table st H fst ns"
      "by_value.table_map st fst ns = map_of (map (\<lambda>n. ((the \<circ> value_at st) (fst n), n)) kvs) ++ by_value.table_map st fst []"
      "length ns = card (dom (by_value.table_map st fst ns))"
    using by_value.table_insert_all_map [where st = st and H = H and fuel = fuel and M = M and key = fst and ns = "[]" and xs = kvs]
    by blast
  have table: "map_option snd (by_value.table_map st fst ns c) = content c" for c
  proof -
    have "map_option snd (map_of (map (\<lambda>n. ((the \<circ> value_at st) (fst n), n)) kvs) c) = content c"
      unfolding content_def by (induction kvs) auto
    moreover have "by_value.table_map st fst ([] :: (uword \<times> uword \<times> uword) list) = Map.empty" by (simp add: by_value.table_map_def)
    ultimately show ?thesis unfolding ns(3) by simp
  qed
  have "kind_of (OMap ns) = KMap" by (simp add: kind_of_def)
  then obtain m st' where new: "new_obj M (OMap ns) st = Inr (m, st')" "m \<noteq> 0"
      "st_objs st' m = Some (OMap ns)" "st_objs st \<subseteq>\<^sub>m st_objs st'"
    using gel_store.alloc_grows [OF assms(1) sane_plain [OF assms(2)], of "OMap ns"] assms(3)
    by (auto simp: obj_cost_def)
  note table' = good_table_mono [OF new(4) ns(2)]
  have at: "map_at m st' = Inr ns" using new(2,3) by (simp add: map_at_def obj_at_def)
  have dom: "dom (by_value.table_map st fst ns) = dom content"
    by (simp add: dom_def table [symmetric])
  have "Map_Contains fuel M H m k st' = Inr (content c \<noteq> None) \<and>
      Map_Get fuel M H m k st' = (case content c of None \<Rightarrow> Null M st' | Some v \<Rightarrow> Inr (v, st'))"
    if k: "value_at st' k = Some c" for k c
  proof -
    have "table_find fuel M H fst k ns st' = Inr (by_value.table_map st fst ns c)"
      using by_value.table_find_map [where st = st' and H = H and fuel = fuel and M = M and key = fst and ns = ns and a = k]
        table' k by (auto simp: dom_def)
    moreover have "k \<noteq> 0" using k by (auto simp: value_at_def)
    ultimately show ?thesis
      using table [of c, symmetric] at
      by (cases "by_value.table_map st fst ns c") (auto simp: Map_Contains_def Map_Get_def op_simps)
  qed
  moreover have "Map_New fuel M H (flat kvs) st = Inr (m, st')"
    using ns(1) new(1) by (simp add: Map_New_def op_simps even_flat map_insert_args_flat [OF nz])
  moreover have "Map_GetSize m st' = Inr (of_nat (card (dom content)))"
    using at ns(4) dom by (simp add: Map_GetSize_def)
  ultimately show ?thesis using new(4) by blast
qed

section \<open>Arrays\<close>

lemma array_obj_at_Inr: "array_obj_at a st = Inr vs \<longleftrightarrow> a \<noteq> 0 \<and> st_objs st a = Some (OArray vs)"
  by (auto simp: array_obj_at_def obj_at_def rbind_eq_Inr split: option.splits obj.splits)

text \<open>C26. An array of fewer than \<open>2^64\<close> elements holds what was stored last at each index below
  its capacity; at the index that equals the capacity, which the assertions let through, reading
  and writing leave the array; above it the assertions fail.\<close>

theorem Array_Set_Get:
  assumes "array_obj_at a st = Inr vs" "v \<noteq> 0" "length vs < 2 ^ 64"
  shows "if unat i < length vs then
      \<exists>st'. Array_Set a i v st = Inr ((), st') \<and>
        (\<forall>j. Array_Get a j st' = (if j = i then Inr v else Array_Get a j st)) \<and>
        (\<forall>b. b \<noteq> a \<longrightarrow> st_objs st' b = st_objs st b)
    else if unat i = length vs then
      Array_Set a i v st = Inl UndefinedBehaviour \<and> Array_Get a i st = Inl UndefinedBehaviour
    else Array_Set a i v st = Inl AssertFailed \<and> Array_Get a i st = Inl AssertFailed"
proof -
  have le: "j \<le> of_nat (length vs) \<longleftrightarrow> unat j \<le> length vs" for j :: uword
    using assms(3) by (simp add: word_le_nat_alt unat_of_nat)
  have a: "a \<noteq> 0" "st_objs st a = Some (OArray vs)" using assms(1) by (simp_all add: array_obj_at_Inr)
  have eq: "unat j = unat i \<longleftrightarrow> j = i" for j by (metis word_unat_eq_iff)
  have upd: "array_obj_at a (put_obj a (OArray ws) st) = Inr ws" for ws
    using a(1) by (simp add: array_obj_at_Inr put_obj_def)
  have get: "Array_Get a j (put_obj a (OArray (vs[unat i := v])) st) = (if j = i then Inr v else Array_Get a j st)"
    if "unat i < length vs" for j
    using that le [of j] eq [of j]
    by (auto simp: Array_Get_def upd assms(1) guardr_def nth_list_update)
  show ?thesis
  proof (cases "unat i < length vs")
    case True
    then have "Array_Set a i v st = Inr ((), put_obj a (OArray (vs[unat i := v])) st)"
      using le [of i] assms(1,2) by (simp add: Array_Set_def op_simps guardr_def)
    then show ?thesis using True get by (auto simp: put_obj_def)
  next
    case False
    then show ?thesis
      using le [of i] assms(1,2) by (auto simp: Array_Set_def Array_Get_def op_simps guardr_def)
  qed
qed

section \<open>Buffers\<close>

lemma text_bytes_text [simp]: "bytes_text (text_bytes s) = s"
proof (induction s)
  case (Cons c s)
  have "unat (of_nat (of_char c) :: byte) = of_char c"
    unfolding unat_of_nat by simp
  then show ?case using Cons by (simp add: bytes_text_def text_bytes_def)
qed (simp add: bytes_text_def text_bytes_def)

lemma length_text_bytes [simp]: "length (text_bytes s) = length s"
  by (simp add: text_bytes_def)

text \<open>The heap puts data of 4096 bytes and more, header of the class included, into the old zone,
  where no allocation succeeds.\<close>

lemma operator_new_sized_large:
  assumes "kLargeObjectSize \<le> m_sizeof M k + extra"
  shows "operator_new_sized M k extra st = Inl LogFatal"
proof -
  have "m_sizeof M k + extra \<noteq> 0" using assms by (auto simp: kLargeObjectSize_def)
  then show ?thesis
    using assms
    by (simp add: operator_new_sized_def op_simps heap_op_def TryAllocate_def TryAllocateOld_def
        OldZone_TryAllocate_def FreeList_TryAllocate_def MajorCollection_def guardr_def word_gt_0)
qed

lemma operator_new_sized_fresh:
  assumes "store_ok st" "m_sizeof M k + extra \<noteq> 0" "m_sizeof M k + extra < kLargeObjectSize"
    and "16 + unat (m_sizeof M k + extra) < store_free st"
  shows "\<exists>a h. operator_new_sized M k extra st = Inr (a, st\<lparr>st_heap := h\<rparr>) \<and> a \<noteq> 0 \<and> st_objs st a = None"
proof -
  let ?h = "st_heap st" and ?n = "m_sizeof M k + extra"
  have g: "good_heap ?h" using assms(1) by (simp add: store_ok_def)
  have n: "?n \<noteq> 0" "\<not> kLargeObjectSize \<le> ?n" using assms(2,3) by auto
  have room: "heap_cursor ?h + 16 + unat ?n < heap_limit ?h"
    using assms(4) by (simp add: store_free_def)
  obtain a h where T: "TryAllocate ?n ?h = Inr (a, h)"
    using TryAllocate_eq [OF g, of ?n] n room by auto
  note B = TryAllocate_Inr [OF g T]
  have a: "a \<noteq> 0" using B(6) by auto
  have "st_objs st a = None"
  proof (rule ccontr)
    assume "st_objs st a \<noteq> None"
    then have "unat a < heap_cursor ?h" using assms(1) by (auto simp: store_ok_def)
    then show False using B(6) by simp
  qed
  then show ?thesis
    using T a by (auto simp: operator_new_sized_def op_simps heap_op_def)
qed

text \<open>The capacity for a number of bytes.\<close>

lemma RoundUpPow2_capacity:
  assumes "0 < k" "k \<le> 2 ^ 22" "k \<le> 2 ^ n" "\<forall>m<n. 2 ^ m < k"
  shows "RoundUpPow2 (of_nat k) = 2 ^ n \<and> unat (2 ^ n :: uword) = 2 ^ n \<and> n \<le> 22"
proof -
  have u: "unat (of_nat k :: uword) = k" using assms(2) by (simp add: unat_of_nat)
  then have "(of_nat k :: uword) \<noteq> 0" using assms(1) by auto
  then obtain j where j: "unat (RoundUpPow2 (of_nat k)) = 2 ^ j" "k \<le> 2 ^ j" "\<forall>m. k \<le> 2 ^ m \<longrightarrow> j \<le> m"
    using RoundUpPow2_least [of "of_nat k"] assms(2) u by auto
  have "j = n"
    using j(2,3) assms(3,4) by (metis linorder_neqE_nat not_less)
  moreover have n: "n \<le> 22"
    using j(3) assms(2) \<open>j = n\<close> by auto
  moreover have p: "unat (2 ^ n :: uword) = 2 ^ n" using n by (simp add: unat_pow2_uword)
  ultimately show ?thesis using j(1) by (simp add: word_unat_eq_iff)
qed

lemma IsPow2_small: "n \<le> 11 \<Longrightarrow> IsPow2 (2 ^ n)"
proof -
  assume "n \<le> 11"
  then have "n \<in> {0, 1, 2, 3, 4, 5, 6, 7, 8, 9, 10, 11}" by (simp, presburger)
  then show ?thesis by (auto simp: IsPow2_def)
qed

text \<open>C27. Copying a text of up to 4 MB into a buffer. Its capacity is the least power of two with room
  for the text. Where the object with that capacity is below the limit of large objects and the
  heap has room, the buffer is made, has that capacity and the length of the text, and gives the
  text back as a string, and no other object is changed. From the limit on, at 2049 characters at
  the latest, the allocation is fatal; so is that of the default size, which a buffer made without
  arguments asks for.\<close>

theorem Buffer_text_roundtrip:
  assumes "store_ok st" "0 < length s" "length s \<le> 2 ^ 22" "unat (m_sizeof M KBuffer) < 2 ^ 32"
    and "length s \<le> 2 ^ n" "\<forall>m<n. 2 ^ m < length s"
  shows "(unat (m_sizeof M KBuffer) + 2 ^ n < 4096 \<longrightarrow>
      16 + unat (m_sizeof M KBuffer) + 2 ^ n < store_free st \<longrightarrow>
      (\<exists>a st'. Buffer_Copy_text M s st = Inr (a, st') \<and> st_objs st \<subseteq>\<^sub>m st_objs st' \<and>
        Buffer_GetCapacity a st' = Inr (2 ^ n) \<and> Buffer_GetLength a st' = Inr (of_nat (length s)) \<and>
        String_New_args fuel M P buffer_text [a] st' = String_New M s st')) \<and>
    (4096 \<le> unat (m_sizeof M KBuffer) + 2 ^ n \<longrightarrow> Buffer_Copy_text M s st = Inl LogFatal) \<and>
    Buffer_New_args M [] st = Inl LogFatal"
proof -
  define x :: uword where "x = of_nat (length s)"
  have ux: "unat x = length s" using assms(3) by (simp add: x_def unat_of_nat)
  have C: "RoundUpPow2 x = 2 ^ n" "unat (2 ^ n :: uword) = 2 ^ n" "n \<le> 22"
    using RoundUpPow2_capacity [OF assms(2,3,5,6)] by (simp_all add: x_def)
  let ?c = "2 ^ n :: uword" and ?z = "m_sizeof M KBuffer"
  have le: "(2 :: nat) ^ n \<le> 2 ^ 22" using C(3) by (rule power_increasing) simp
  have sum: "unat (?z + ?c) = unat ?z + 2 ^ n"
    using assms(4) le C(2) by (subst unat_add_lem [THEN iffD1]) simp_all
  have sizes: "1 \<le> x \<and> x \<le> kMaxBufferSize" "?c \<le> kMaxBufferSize"
    using assms(2,3) le C(2) by (simp_all add: word_le_nat_alt kMaxBufferSize_def ux Suc_le_eq)
  have made: "\<exists>a st'. Buffer_Copy_text M s st = Inr (a, st') \<and> st_objs st \<subseteq>\<^sub>m st_objs st' \<and>
      Buffer_GetCapacity a st' = Inr ?c \<and> Buffer_GetLength a st' = Inr (of_nat (length s)) \<and>
      String_New_args fuel M P buffer_text [a] st' = String_New M s st'"
    if fits: "unat ?z + 2 ^ n < 4096" "16 + unat ?z + 2 ^ n < store_free st"
  proof -
    have "?z + ?c \<noteq> 0" using sum by (metis add_is_0 power_not_zero unat_0 zero_neq_numeral)
    moreover have "?z + ?c < kLargeObjectSize" using sum fits(1) by (simp add: word_less_nat_alt kLargeObjectSize_def)
    moreover have "16 + unat (?z + ?c) < store_free st" using sum fits(2) by simp
    ultimately obtain a h where new: "operator_new_sized M KBuffer ?c st = Inr (a, st\<lparr>st_heap := h\<rparr>)"
        "a \<noteq> 0" "st_objs st a = None"
      using operator_new_sized_fresh [OF assms(1)] by blast
    define st' where "st' = put_obj a (OBuffer ?c (text_bytes s)) (put_obj a (OBuffer ?c []) (st\<lparr>st_heap := h\<rparr>))"
    have "(2 :: nat) ^ n < 2 ^ 12" using fits(1) by simp
    then have "n < 12" by (rule power_less_imp_less_exp [rotated]) simp
    then have "IsPow2 ?c" by (simp add: IsPow2_small)
    moreover have "x \<le> ?c" using assms(5) C(2) ux by (simp add: word_le_nat_alt)
    ultimately have "Buffer_Copy_text M s st = Inr (a, st')"
      using assms(2) new sizes C(1)
      by (auto simp: Buffer_Copy_text_def Buffer_Copy_def Buffer_New_def Let_def op_simps CopyFrom_def buffer_at_def
          obj_at_def put_obj_def st'_def guardr_def x_def [symmetric] Suc_le_eq)
    moreover have at: "obj_at a st' = Inr (OBuffer ?c (text_bytes s))"
      using new(2) by (simp add: st'_def obj_at_def put_obj_def)
    moreover have "st_objs st \<subseteq>\<^sub>m st_objs st'" using new(3) by (auto simp: st'_def put_obj_def map_le_def)
    ultimately show ?thesis
      using new(2)
      by (intro exI [of _ a] exI [of _ st'])
        (simp add: Buffer_GetLength_def Buffer_GetCapacity_def buffer_at_def String_New_args_def IsNull_def
          buffer_text_def op_simps)
  qed
  have large: "Buffer_Copy_text M s st = Inl LogFatal" if "4096 \<le> unat ?z + 2 ^ n"
  proof -
    have "kLargeObjectSize \<le> ?z + ?c" using that sum by (simp add: word_le_nat_alt kLargeObjectSize_def)
    then have "operator_new_sized M KBuffer ?c st = Inl LogFatal" by (rule operator_new_sized_large)
    then show ?thesis
      using assms(2) sizes C(1)
      by (auto simp: Buffer_Copy_text_def Buffer_Copy_def Buffer_New_def Let_def op_simps x_def [symmetric] Suc_le_eq)
  qed
  have "RoundUpPow2 Buffer_kDefaultBufferSize = 4096"
    by (simp add: RoundUpPow2_def smear_def Buffer_kDefaultBufferSize_def)
  moreover have "kLargeObjectSize \<le> ?z + 4096"
    using assms(4) by (simp add: word_le_nat_alt kLargeObjectSize_def unat_add_lem [THEN iffD1])
  ultimately have "Buffer_New_args M [] st = Inl LogFatal"
    using operator_new_sized_large [of M KBuffer 4096 st]
    by (simp add: Buffer_New_args_def Buffer_New_def op_simps Buffer_kDefaultBufferSize_def kMaxBufferSize_def)
  then show ?thesis using made large by blast
qed

section \<open>Concrete containers\<close>

definition example_hashes :: hashes where
  "example_hashes =
    \<lparr>h_string = \<lambda>s. of_nat (length s), h_word = id, h_double = id, h_bool = \<lambda>b. if b then 1 else 0,
     h_pointer = id\<rparr>"

lemma example_values:
  "value_at example_objects 4176 = Some (VLong 42)" "value_at example_objects 4208 = Some (VLong 6)"
  by (simp_all add: value_at_def example_objects_def key_value_def)

theorem Map_is_finite_map_witness:
  "\<exists>m st'. Map_New 0 example_machine example_hashes [4176, 4208, 4208, 4096, 4176, 4096] example_objects = Inr (m, st') \<and>
    Map_Get 0 example_machine example_hashes m 4176 st' = Inr (4208, st') \<and>
    Map_GetSize m st' = Inr 2"
proof -
  let ?kvs = "[(4176, 4208), (4208, 4096), (4176, 4096)] :: (uword \<times> uword) list"
  let ?content = "map_of (map (\<lambda>(k, v). (the (value_at example_objects k), v)) ?kvs)"
  have c: "?content (VLong 42) = Some 4208" and d: "dom ?content = {VLong 42, VLong 6}"
    by (auto simp: example_values)
  obtain m st' where m: "Map_New 0 example_machine example_hashes (flat ?kvs) example_objects = Inr (m, st')"
      "st_objs example_objects \<subseteq>\<^sub>m st_objs st'" "Map_GetSize m st' = Inr (of_nat (card (dom ?content)))"
      "\<And>k c. value_at st' k = Some c \<Longrightarrow> Map_Get 0 example_machine example_hashes m k st' =
        (case ?content c of None \<Rightarrow> Null example_machine st' | Some v \<Rightarrow> Inr (v, st'))"
    using Map_is_finite_map [OF example_objects_ok(1) example_machine_sane, of ?kvs 0 example_hashes]
    by (auto simp: example_machine_def example_objects_ok(2) example_values)
  have "value_at st' 4176 = Some (VLong 42)" using value_at_mono [OF m(2) example_values(1)] .
  then show ?thesis using m(1,3) m(4) c d by (intro exI [of _ m] exI [of _ st']) simp
qed

theorem Array_Set_Get_witness:
  "(\<exists>st'. Array_Set 4096 1 4208 (put_obj 4096 (OArray [4176, 0]) example_objects) = Inr ((), st') \<and>
      Array_Get 4096 1 st' = Inr 4208 \<and> Array_Get 4096 0 st' = Inr 4176) \<and>
    Array_Get 4096 2 (put_obj 4096 (OArray [4176, 0]) example_objects) = Inl UndefinedBehaviour"
proof -
  let ?st = "put_obj 4096 (OArray [4176, 0]) example_objects"
  have a: "array_obj_at 4096 ?st = Inr [4176, 0]" by (simp add: array_obj_at_Inr put_obj_def)
  have z: "Array_Get 4096 0 ?st = Inr 4176" by (simp add: Array_Get_def a)
  have "\<exists>st'. Array_Set 4096 1 4208 ?st = Inr ((), st') \<and> Array_Get 4096 1 st' = Inr 4208 \<and> Array_Get 4096 0 st' = Inr 4176"
    using Array_Set_Get [OF a, of 4208 1] z by auto
  moreover have "Array_Get 4096 2 ?st = Inl UndefinedBehaviour"
    using Array_Set_Get [OF a, of 4208 2] by simp
  ultimately show ?thesis ..
qed

theorem Buffer_text_roundtrip_witness:
  "\<exists>a st'. Buffer_Copy_text example_machine ''gel'' example_objects = Inr (a, st') \<and>
    Buffer_GetLength a st' = Inr 3 \<and> Buffer_GetCapacity a st' = Inr 4"
proof -
  have "\<forall>m<2. (2 :: nat) ^ m < length ''gel''" by (auto simp: less_2_cases_iff)
  then show ?thesis
    using Buffer_text_roundtrip [OF example_objects_ok(1), of "''gel''" example_machine 2 0
        "\<lparr>pr_double = \<lambda>_. [], pr_set = map snd, pr_other = \<lambda>_. []\<rparr>"]
    by (auto simp: example_machine_def example_objects_ok(2))
qed

end
