(* ===== verification/NativesCorrect.thy ===== *)
theory NativesCorrect
  imports Natives ContainersCorrect ClassesCorrect ConstantsCorrect InterpreterCorrect
begin

text \<open>
  Correctness of the native procedures: each of those that are modelled leaves the runtime as the
  interpreter asks of the code outside it, and with the same asked of the others the theorems about
  calls hold for the runtime with its own procedures; what the procedures on pairs, on timers and
  on the file system do.
\<close>

section \<open>Containers leave the scopes alone\<close>

lemma operator_new_sized_scopes: "keeps same_scopes (operator_new_sized M k n)"
  unfolding operator_new_sized_def by (intro scopes_kept.keeps_intros heap_op_scopes)

lemma list_elements_scopes: "keeps same_scopes (list_elements fuel M v)"
  by (induction fuel arbitrary: v)
    (subst list_elements.simps, auto intro!: scopes_kept.keeps_intros Pair_scopes)+

lemma Set_scopes: "keeps same_scopes (Set_New fuel M H args)"
proof -
  have s: "keeps same_scopes (Set_Of_storage fuel M H vs)" for vs
    unfolding Set_Of_storage_def by (intro scopes_kept.keeps_intros new_obj_scopes)
  have "keeps same_scopes (Set_Of fuel M H v)" for v
    unfolding Set_Of_def
    by (intro scopes_kept.keeps_intros s)
      (auto split: obj.split intro!: scopes_kept.keeps_intros s list_elements_scopes)
  then show ?thesis
    unfolding Set_New_def by (intro scopes_kept.keeps_intros s)
qed

lemma Map_scopes: "keeps same_scopes (Map_New fuel M H args)" "keeps same_scopes (Map_Get fuel M H m k)"
  unfolding Map_New_def Map_Get_def
  by (intro scopes_kept.keeps_intros new_obj_scopes Null_scopes)+

lemma Array_scopes:
  "keeps same_scopes (Array_New M n)" "keeps same_scopes (Array_Set a i v)" "keeps same_scopes (Array_fill a i vs)"
proof -
  show "keeps same_scopes (Array_New M n)"
    unfolding Array_New_def by (intro scopes_kept.keeps_intros operator_new_sized_scopes modifies_scopes) simp
  show s: "keeps same_scopes (Array_Set a i v)" for i v
    unfolding Array_Set_def by (intro scopes_kept.keeps_intros modifies_scopes) simp
  show "keeps same_scopes (Array_fill a i vs)"
    by (induction vs arbitrary: i) (auto intro!: scopes_kept.keeps_intros s)
qed

lemma Buffer_scopes: "keeps same_scopes (Buffer_New_args M args)"
proof -
  have n: "keeps same_scopes (Buffer_New M n)" for n
    unfolding Buffer_New_def Let_def
    by (intro scopes_kept.keeps_intros operator_new_sized_scopes modifies_scopes) simp
  have "keeps same_scopes (CopyFrom a src)" for a src
    unfolding CopyFrom_def by (intro scopes_kept.keeps_intros modifies_scopes) simp
  then have "keeps same_scopes (Buffer_Copy_text M s)" for s
    unfolding Buffer_Copy_text_def Buffer_Copy_def by (intro scopes_kept.keeps_intros n)
  then show ?thesis
    unfolding Buffer_New_args_def
    by (intro scopes_kept.keeps_intros n)
      (auto split: obj.split intro!: n)
qed

lemma Container_New_scopes:
  "(\<And>k as. keeps same_scopes (rx k as)) \<Longrightarrow> keeps same_scopes (Container_New fuel M H rx k args)"
  unfolding Container_New_def
  by (intro scopes_kept.keeps_intros Set_scopes Map_scopes Buffer_scopes)

section \<open>What a native procedure does to its frame\<close>

text \<open>It leaves the frames below, the scope and everything of its own frame but the values, and
  pushes at most one value, which is not null.\<close>

definition answers :: "runtime \<Rightarrow> runtime \<Rightarrow> bool" where
  "answers s t \<longleftrightarrow>
    (fresh_scopes (scopes_of s) \<longrightarrow> parents_kept (scopes_of s) (scopes_of t) \<and> rt_scope t = rt_scope s) \<and>
    (\<exists>vs. length vs \<le> 1 \<and> 0 \<notin> set vs \<and>
      rt_frames t = (case rt_frames s of [] \<Rightarrow> [] | f # fs \<Rightarrow> f\<lparr>fr_stack := vs @ fr_stack f\<rparr> # fs))"

lemma quiet_answers: "same_frames s t \<Longrightarrow> answers s t"
  by (auto simp: answers_def same_caller_def intro!: exI [of _ "[]"] split: list.split)

lemma answers_caller: "answers s t \<Longrightarrow> same_caller s t"
  by (auto simp: answers_def same_caller_def callers_def split: list.split)

lemma quiet_then_answers:
  assumes "same_frames s t" "answers t u"
  shows "answers s u"
proof -
  have "parents_kept (scopes_of s) (scopes_of u) \<and> rt_scope u = rt_scope s" if f: "fresh_scopes (scopes_of s)"
  proof -
    have st: "parents_kept (scopes_of s) (scopes_of t)" "rt_scope t = rt_scope s"
      using assms(1) f by (simp_all add: same_caller_def)
    then have "fresh_scopes (scopes_of t)" using f by (simp add: parents_kept_def)
    then have "parents_kept (scopes_of t) (scopes_of u)" "rt_scope u = rt_scope t"
      using assms(2) by (simp_all add: answers_def)
    then show ?thesis using st parents.kept_trans by metis
  qed
  then show ?thesis using assms by (simp add: answers_def)
qed

lemma answers_quiet: "keeps same_frames m \<Longrightarrow> keeps answers m"
  using quiet_answers unfolding keeps_def by blast

lemma answers_sbind: "keeps same_frames m \<Longrightarrow> (\<And>x. keeps answers (f x)) \<Longrightarrow> keeps answers (sbind m f)"
  unfolding keeps_def sbind_Inr using quiet_then_answers by blast

lemma answers_sthen: "keeps same_frames m \<Longrightarrow> keeps answers k \<Longrightarrow> keeps answers (sthen m k)"
  unfolding sthen_def by (rule answers_sbind)

lemma answers_cases:
  "(b \<Longrightarrow> keeps answers m) \<Longrightarrow> (\<not> b \<Longrightarrow> keeps answers k) \<Longrightarrow> keeps answers (if b then m else k)"
  "keeps answers m \<Longrightarrow> (\<And>x. keeps answers (f x)) \<Longrightarrow> keeps answers (case r of None \<Rightarrow> m | Some x \<Rightarrow> f x)"
  "keeps answers m \<Longrightarrow> (\<And>x xs. keeps answers (g x xs)) \<Longrightarrow> keeps answers (case l of [] \<Rightarrow> m | x # xs \<Rightarrow> g x xs)"
  "(\<And>x y. keeps answers (h x y)) \<Longrightarrow> keeps answers (case q of (x, y) \<Rightarrow> h x y)"
  by (simp_all split: option.split list.split prod.split)

lemma answers_ends: "keeps answers (ret x)" "keeps answers (fails e)"
  by (rule answers_quiet, rule quiet.keeps_ret, rule answers_quiet, rule quiet.keeps_fails)

lemmas answers_intros = quiet_intros answers_sbind answers_sthen answers_cases answers_ends
  part_quiet(2) [OF GetClass_scopes] part_quiet(2) [OF Long_New_scopes] part_quiet(2) [OF Bool_Box_scopes]

lemma modifies_quiet:
  "(\<And>rt. rt_store (f rt) = rt_store rt \<and> rt_scope (f rt) = rt_scope rt \<and> rt_frames (f rt) = rt_frames rt)
    \<Longrightarrow> keeps same_frames (modifies f)"
  by (simp add: keeps_def op_simps same_caller_def parents.kept_refl callers_def)

lemma answers_Push: "keeps answers (stack_Push v)"
proof (rule keepsI)
  fix s x t assume "stack_Push v s = Inr (x, t)"
  then obtain f fs where f: "rt_frames s = f # fs" "v \<noteq> 0" "t = s\<lparr>rt_frames := f\<lparr>fr_stack := v # fr_stack f\<rparr> # fs\<rparr>"
    by (auto simp: stack_Push_def op_simps GetOperationStack_def set_stack_def rbind_eq_Inr guardr_eq_Inr
        split: list.splits)
  then show "answers s t"
    by (auto simp: answers_def parents.kept_refl intro!: exI [of _ "[v]"])
qed

section \<open>Every native procedure answers\<close>

text \<open>What is asked of the system: the event library, whose calls only start or stop something and
  call back later, does not touch the frames.\<close>

definition outside_ok :: "outside \<Rightarrow> bool" where
  "outside_ok S \<longleftrightarrow>
    (\<forall>a. keeps same_frames (uv_timer_init (o_uv S) a)) \<and>
    (\<forall>a t r. keeps same_frames (uv_timer_start (o_uv S) a t r)) \<and>
    (\<forall>a. keeps same_frames (uv_timer_stop (o_uv S) a)) \<and>
    (\<forall>a. keeps same_frames (uv_timer_again (o_uv S) a)) \<and>
    (\<forall>a r. keeps same_frames (uv_timer_set_repeat (o_uv S) a r)) \<and>
    (\<forall>c. keeps same_frames (uv_fs (o_uv S) c))"

lemma Error_text_scopes: "keeps same_scopes (Error_New_text M s)"
  unfolding Error_New_text_def Error_New_def
  by (intro scopes_kept.keeps_intros String_scopes new_obj_scopes)

lemma push_all_scopes: "keeps same_scopes (push_all M as l)"
  by (induction as arbitrary: l) (auto intro!: scopes_kept.keeps_intros Pair_scopes)

lemma Return_answers:
  "keeps answers DoNothing" "keeps answers (Return v)" "keeps answers (ReturnNull N)"
  "keeps answers (ReturnBool b)" "keeps answers (ReturnLong N n)" "keeps answers (ReturnString N s)"
  "keeps answers (Throw v)" "keeps answers (ThrowError N s)"
proof -
  show d: "keeps answers DoNothing" unfolding DoNothing_def by (intro answers_intros)
  show r: "keeps answers (Return v)" for v
  proof -
    have "keeps answers (sthen (stack_Push v) DoNothing)"
      using answers_Push [of v] by (auto simp: keeps_def sthen_Inr DoNothing_def ret_apply)
    then show ?thesis unfolding Return_def by (rule answers_sthen [OF quiet.keeps_sguard])
  qed
  show "keeps answers (ReturnNull N)" "keeps answers (ReturnBool b)"
    "keeps answers (ReturnLong N n)" "keeps answers (ReturnString N s)"
    unfolding ReturnNull_def ReturnBool_def ReturnLong_def ReturnString_def
    by (intro answers_intros r part_quiet(2) String_scopes)+
  show t: "keeps answers (Throw v)" for v unfolding Throw_def by (intro answers_intros r)
  show "keeps answers (ThrowError N s)"
    unfolding ThrowError_def by (intro answers_intros t part_quiet(2) Error_text_scopes)
qed

lemma NativeArgument_quiet: "keeps same_frames (NativeArgument N idx k required args)"
  unfolding NativeArgument_def Let_def
  by (intro answers_intros part_quiet(2) Error_text_scopes)

lemma GetError_quiet: "keeps same_frames (GetError N v)"
  unfolding GetError_def by (intro answers_intros part_quiet(2) Error_text_scopes)

lemma with_answers:
  "(\<And>v. keeps answers (f v)) \<Longrightarrow> keeps answers (with_arg N idx k required args f)"
  "(\<And>n. keeps answers (g n)) \<Longrightarrow> keeps answers (with_long N idx args g)"
  "(\<And>s. keeps answers (h s)) \<Longrightarrow> keeps answers (with_string N idx args h)"
proof -
  show a: "(\<And>v. keeps answers (f v)) \<Longrightarrow> keeps answers (with_arg N idx k required args f)" for f k required
    unfolding with_arg_def by (intro answers_intros NativeArgument_quiet GetError_quiet Return_answers)
  show "(\<And>n. keeps answers (g n)) \<Longrightarrow> keeps answers (with_long N idx args g)"
    unfolding with_long_def by (intro a answers_intros; auto split: obj.split intro: answers_intros)
  show "(\<And>s. keeps answers (h s)) \<Longrightarrow> keeps answers (with_string N idx args h)"
    unfolding with_string_def by (intro a answers_intros)
qed

lemma GetThreadEventLoop_quiet: "keeps same_frames (GetThreadEventLoop M)"
  unfolding GetThreadEventLoop_def
  by (intro answers_intros part_quiet(2) new_obj_scopes modifies_quiet) simp

lemma with_timer_answers:
  "(\<And>t. keeps answers (f t)) \<Longrightarrow> keeps answers (with_timer N n f)"
  unfolding with_timer_def by (intro answers_intros GetThreadEventLoop_quiet Return_answers)

lemmas proc_intros = answers_intros Return_answers NativeArgument_quiet with_answers with_timer_answers
  GetThreadEventLoop_quiet part_quiet(2) Error_text_scopes String_scopes push_all_scopes ToList_scopes
  Map_scopes Array_scopes

lemma SetCar_scopes: "keeps same_scopes (SetCar a v)" "keeps same_scopes (SetCdr a v)"
  unfolding SetCar_def SetCdr_def by (intro scopes_kept.keeps_intros modifies_scopes, simp)+

lemma walks_scopes:
  "keeps same_scopes (fields_list M fs r)" "keeps same_scopes (locals_list M ls r)"
  "keeps same_scopes (natives_list N ns r)"
proof -
  show "keeps same_scopes (fields_list M fs r)"
    by (induction fs arbitrary: r) (auto intro!: scopes_kept.keeps_intros Long_New_scopes Pair_scopes)
  show "keeps same_scopes (locals_list M ls r)"
    by (induction ls arbitrary: r)
      (auto intro!: scopes_kept.keeps_intros Null_scopes String_scopes ToList_scopes Pair_scopes)
  show "keeps same_scopes (natives_list N ns r)"
    by (induction ns arbitrary: r) (auto intro!: scopes_kept.keeps_intros String_ValueOf_scopes Pair_scopes)
qed

lemma values_of_quiet: "keeps same_frames (values_of N as)"
  by (induction as) (auto intro!: answers_intros part_quiet(2) String_ValueOf_scopes)

lemma general_answers:
  "keeps answers (proc_gel_get_version N args)" "keeps answers (proc_hashcode N args)"
  "keeps answers (proc_gel_sizeof N args)" "keeps answers (proc_gel_docs N args)"
  "keeps answers (proc_import N args)" "keeps answers (proc_print N args)"
  "keeps answers (proc_random N args)" "keeps answers (proc_rand_range N args)"
  "keeps answers (proc_type N args)" "keeps answers (proc_exit N args)"
  "keeps answers (proc_list N args)" "keeps answers (proc_format N args)"
  "keeps answers (proc_set_car N args)" "keeps answers (proc_set_cdr N args)"
proof -
  show "keeps answers (proc_gel_get_version N args)" "keeps answers (proc_hashcode N args)"
    "keeps answers (proc_random N args)" "keeps answers (proc_rand_range N args)"
    "keeps answers (proc_type N args)" "keeps answers (proc_exit N args)"
    "keeps answers (proc_list N args)"
    unfolding proc_gel_get_version_def proc_hashcode_def proc_random_def proc_rand_range_def
      proc_type_def proc_exit_def proc_list_def
    by (intro proc_intros)+
  show "keeps answers (proc_gel_sizeof N args)"
    unfolding proc_gel_sizeof_def by (intro proc_intros GetAllocationSize_scopes)
  show "keeps answers (proc_gel_docs N args)"
    unfolding proc_gel_docs_def by (intro proc_intros) (auto split: obj.split intro!: proc_intros)
  show "keeps answers (proc_import N args)"
    unfolding proc_import_def Runtime_Import_def
    by (intro proc_intros; auto split: obj.split intro!: proc_intros)
  show "keeps answers (proc_print N args)"
    unfolding proc_print_def by (intro proc_intros modifies_quiet) simp
  show "keeps answers (proc_format N args)"
    unfolding proc_format_def by (intro proc_intros values_of_quiet)
  show "keeps answers (proc_set_car N args)" "keeps answers (proc_set_cdr N args)"
    unfolding proc_set_car_def proc_set_cdr_def by (intro proc_intros SetCar_scopes)+
qed

lemma class_answers:
  "keeps answers (proc_get_namespace N args)" "keeps answers (proc_ns_get N args)"
  "keeps answers (proc_get_classes N args)" "keeps answers (proc_get_class N args)"
  "keeps answers (proc_get_class_id N args)" "keeps answers (proc_is_primitive_class N args)"
  "keeps answers (proc_gel_get_symbol_pool_size N args)"
  "keeps answers (proc_gel_get_symbol_pool_max_size N args)"
  "keeps answers (proc_get_event_loop N args)"
proof -
  show "keeps answers (proc_get_namespace N args)" "keeps answers (proc_get_classes N args)"
    "keeps answers (proc_get_class N args)" "keeps answers (proc_gel_get_symbol_pool_size N args)"
    "keeps answers (proc_gel_get_symbol_pool_max_size N args)" "keeps answers (proc_get_event_loop N args)"
    unfolding proc_get_namespace_def proc_get_classes_def proc_get_class_def proc_gel_get_symbol_pool_size_def
      proc_gel_get_symbol_pool_max_size_def proc_get_event_loop_def
    by (intro proc_intros)+
  show "keeps answers (proc_ns_get N args)" "keeps answers (proc_get_class_id N args)"
    "keeps answers (proc_is_primitive_class N args)"
    unfolding proc_ns_get_def proc_get_class_id_def proc_is_primitive_class_def
    by (intro proc_intros; auto split: obj.split intro!: proc_intros)+
qed

lemma container_answers:
  "keeps answers (proc_set_contains N args)" "keeps answers (proc_set_count N args)"
  "keeps answers (proc_set_empty N args)" "keeps answers (proc_map_contains N args)"
  "keeps answers (proc_map_get N args)" "keeps answers (proc_map_size N args)"
  "keeps answers (proc_map_empty N args)" "keeps answers (proc_buffer_get_length N args)"
  "keeps answers (proc_buffer_get_capacity N args)"
  unfolding proc_set_contains_def proc_set_count_def proc_set_empty_def proc_map_contains_def
    proc_map_get_def proc_map_size_def proc_map_empty_def proc_buffer_get_length_def proc_buffer_get_capacity_def
  by (intro proc_intros)+

lemma timer_operations_quiet:
  assumes "outside_ok S"
  shows "keeps same_frames (Timer_Start (o_uv S) a t r)" "keeps same_frames (Timer_Stop (o_uv S) a)"
    "keeps same_frames (Timer_Again (o_uv S) a)" "keeps same_frames (CreateTimer M (o_uv S) l f)"
proof -
  show "keeps same_frames (Timer_Start (o_uv S) a t r)" "keeps same_frames (Timer_Stop (o_uv S) a)"
    "keeps same_frames (Timer_Again (o_uv S) a)"
    unfolding Timer_Start_def Timer_Stop_def Timer_Again_def
    using assms by (intro answers_intros, simp add: outside_ok_def)+
  have "keeps same_frames (Timer_New M (o_uv S) n f)" for n
    unfolding Timer_New_def
    using assms by (intro answers_intros part_quiet(2) new_obj_scopes GetThreadEventLoop_quiet)
      (simp add: outside_ok_def)
  moreover have "keeps same_scopes (modifies (put_obj l x))" for x
    by (rule modifies_scopes) simp
  ultimately show "keeps same_frames (CreateTimer M (o_uv S) l f)"
    unfolding CreateTimer_def by (intro answers_intros part_quiet(2))
qed

lemma timer_answers:
  assumes "outside_ok (ne_outside N)"
  shows "keeps answers (proc_timer_start N args)" "keeps answers (proc_timer_stop N args)"
    "keeps answers (proc_timer_again N args)" "keeps answers (proc_timer_get_repeat N args)"
    "keeps answers (proc_timer_set_repeat N args)" "keeps answers (proc_timer_get_due_in N args)"
    "keeps answers (proc_create_timer N args)"
proof -
  have u: "keeps same_frames (uv_timer_set_repeat (ne_uv N) a r)" for a r
    using assms by (simp add: outside_ok_def)
  show "keeps answers (proc_timer_start N args)" "keeps answers (proc_timer_stop N args)"
    "keeps answers (proc_timer_again N args)" "keeps answers (proc_timer_get_repeat N args)"
    "keeps answers (proc_timer_set_repeat N args)" "keeps answers (proc_timer_get_due_in N args)"
    "keeps answers (proc_create_timer N args)"
    unfolding proc_timer_start_def proc_timer_stop_def proc_timer_again_def proc_timer_get_repeat_def
      proc_timer_set_repeat_def proc_timer_get_due_in_def proc_create_timer_def
    by (intro proc_intros timer_operations_quiet [OF assms] u)+
qed

lemma request_quiet:
  assumes "outside_ok S"
  shows "keeps same_frames (EventLoop_Stat (o_uv S) p a b c)" "keeps same_frames (EventLoop_Rename (o_uv S) p q a b c)"
    "keeps same_frames (EventLoop_Mkdir (o_uv S) p m a b c)" "keeps same_frames (EventLoop_Rmdir (o_uv S) p a b c)"
    "keeps same_frames (EventLoop_Open (o_uv S) p m n a b c)"
proof -
  have r: "keeps same_frames (start_request (o_uv S) r)" for r
    unfolding start_request_def using assms by (intro answers_intros) (simp add: outside_ok_def)
  show "keeps same_frames (EventLoop_Stat (o_uv S) p a b c)" "keeps same_frames (EventLoop_Rename (o_uv S) p q a b c)"
    "keeps same_frames (EventLoop_Mkdir (o_uv S) p m a b c)" "keeps same_frames (EventLoop_Rmdir (o_uv S) p a b c)"
    "keeps same_frames (EventLoop_Open (o_uv S) p m n a b c)"
    unfolding EventLoop_Stat_def EventLoop_Rename_def EventLoop_Mkdir_def EventLoop_Rmdir_def EventLoop_Open_def
    by (intro answers_intros r)+
qed

lemma fs_answers:
  assumes "outside_ok (ne_outside N)"
  shows "keeps answers (proc_fs_get_cwd N args)" "keeps answers (proc_fs_stat N args)"
    "keeps answers (proc_fs_rename N args)" "keeps answers (proc_fs_mkdir N args)"
    "keeps answers (proc_fs_rmdir N args)" "keeps answers (proc_fs_open N args)"
    "keeps answers (proc_fs_not_implemented N args)"
  unfolding proc_fs_get_cwd_def proc_fs_stat_def proc_fs_rename_def proc_fs_mkdir_def proc_fs_rmdir_def
    proc_fs_open_def proc_fs_not_implemented_def ThrowNotImplementedError_def
  by (intro proc_intros request_quiet [OF assms])+

lemma debug_answers:
  shows "keeps answers (proc_gel_get_fields N args)" "keeps answers (proc_gel_print_args N args)"
    "keeps answers (proc_gel_print_heap N args)" "keeps answers (proc_gel_get_modules N args)"
    "keeps answers (proc_gel_major_gc N args)" "keeps answers (proc_gel_get_debug N args)"
    "keeps answers (proc_gel_get_frame N args)" "keeps answers (proc_gel_get_locals N args)"
    "keeps answers (proc_gel_get_target_triple N args)" "keeps answers (proc_gel_get_natives N args)"
proof -
  show "keeps answers (proc_gel_get_fields N args)" "keeps answers (proc_gel_print_args N args)"
    "keeps answers (proc_gel_print_heap N args)" "keeps answers (proc_gel_get_modules N args)"
    "keeps answers (proc_gel_major_gc N args)" "keeps answers (proc_gel_get_debug N args)"
    "keeps answers (proc_gel_get_frame N args)" "keeps answers (proc_gel_get_locals N args)"
    "keeps answers (proc_gel_get_target_triple N args)" "keeps answers (proc_gel_get_natives N args)"
    unfolding proc_gel_get_fields_def proc_gel_print_args_def proc_gel_print_heap_def proc_gel_get_modules_def
      proc_gel_major_gc_def proc_gel_get_debug_def proc_gel_get_frame_def proc_gel_get_locals_def
      proc_gel_get_target_triple_def proc_gel_get_natives_def
    by (intro proc_intros walks_scopes)+
qed

lemma all_natives_answers:
  assumes "outside_ok (ne_outside N)" "(name, body) \<in> set all_natives" "name \<notin> set unmodelled_names"
  shows "keeps answers (body N args)"
proof -
  have "list_all (\<lambda>(name, body). name \<in> set unmodelled_names \<or> keeps answers (body N args)) all_natives"
    unfolding all_natives_def class_natives_def symbol_natives_def InitNatives_table_def timer_natives_def
      container_natives_def fs_natives_def rx_natives_def debug_natives_def buffer_natives_def left_out_def
      unmodelled_names_def rx_names_def
    by (simp add: general_answers class_answers container_answers timer_answers [OF assms(1)] fs_answers [OF assms(1)]
        debug_answers)
  then show ?thesis using assms(2,3) by (auto simp: list_all_iff)
qed

lemma apply_native_answers:
  assumes "outside_ok (ne_outside N)" "fst (all_natives ! entry) \<notin> set unmodelled_names"
  shows "keeps answers (apply_native N entry args)"
proof -
  have "keeps answers (snd (all_natives ! entry) N args)" if "entry < length all_natives"
    using all_natives_answers [OF assms(1) _ assms(2)] nth_mem [OF that] by (cases "all_natives ! entry") auto
  then show ?thesis unfolding apply_native_def by (intro answers_intros)
qed

text \<open>The runtime with its own procedures, when those that are not modelled keep the callers of the
  calls they make, as a procedure that calls another does.\<close>

definition unmodelled_ok :: "outside \<Rightarrow> bool" where
  "unmodelled_ok S \<longleftrightarrow>
    (\<forall>call. (\<forall>a as. keeps same_caller (call a as)) \<longrightarrow> (\<forall>n as. keeps same_caller (o_other S call n as))) \<and>
    (\<forall>f. keeps same_caller (o_bindings S f))"

lemma with_string_caller:
  assumes "\<And>s. keeps same_caller (h s)"
  shows "keeps same_caller (with_string N idx args h)"
proof -
  have q: "keeps same_caller m" if "keeps answers m" for m :: "'a rop"
    using that answers_caller unfolding keeps_def by blast
  have "keeps same_caller (Throw v)" for v using q Return_answers by blast
  moreover have "keeps same_caller (NativeArgument N idx KString True args)" "keeps same_caller (GetError N v)" for v
    by (intro q answers_quiet NativeArgument_quiet GetError_quiet)+
  ultimately show ?thesis
    using assms unfolding with_string_def with_arg_def by (intro caller_intros)
qed

lemma unmodelled_natives:
  assumes "(name, body) \<in> set all_natives" "name \<in> set unmodelled_names"
  shows "body = (\<lambda>N. o_other (ne_outside N) (ne_call N) name) \<or> body = proc_gel_load_bindings"
proof -
  have "list_all (\<lambda>(name, body). name \<in> set unmodelled_names \<longrightarrow>
      body = (\<lambda>N. o_other (ne_outside N) (ne_call N) name) \<or> body = proc_gel_load_bindings) all_natives"
    unfolding all_natives_def class_natives_def symbol_natives_def InitNatives_table_def timer_natives_def
      container_natives_def fs_natives_def rx_natives_def debug_natives_def buffer_natives_def left_out_def
      unmodelled_names_def rx_names_def
    by simp
  then show ?thesis using assms by (auto simp: list_all_iff)
qed

lemma apply_native_caller:
  assumes "outside_ok (ne_outside N)" "unmodelled_ok (ne_outside N)" "\<And>a as. keeps same_caller (ne_call N a as)"
  shows "keeps same_caller (apply_native N entry args)"
proof (cases "fst (all_natives ! entry) \<in> set unmodelled_names \<and> entry < length all_natives")
  case True
  obtain name body where nb: "all_natives ! entry = (name, body)" by (cases "all_natives ! entry")
  then have "(name, body) \<in> set all_natives" using True nth_mem by metis
  then have "body = (\<lambda>N. o_other (ne_outside N) (ne_call N) name) \<or> body = proc_gel_load_bindings"
    using unmodelled_natives True nb by simp
  moreover have "keeps same_caller (proc_gel_load_bindings N args)"
    unfolding proc_gel_load_bindings_def
    using assms(2) answers_caller Return_answers(3) [of N]
    by (intro caller_intros with_string_caller) (auto simp: unmodelled_ok_def keeps_def)
  ultimately have "keeps same_caller (body N args)"
    using assms(2,3) by (auto simp: unmodelled_ok_def)
  then show ?thesis using nb True by (simp add: apply_native_def)
next
  case False
  then show ?thesis
    using apply_native_answers [OF assms(1), of entry args] answers_caller
    by (auto simp: keeps_def apply_native_def fails_apply)
qed

lemma gel_world_ok:
  assumes "world_ok W" "outside_ok S" "unmodelled_ok S"
  shows "world_ok (gel_world W S fuel)"
proof -
  have "keeps same_scopes (Container_New fuel (w_machine W) (o_hashes S) (w_new W) k args)" for k args
    using assms(1) by (intro Container_New_scopes) (simp add: world_ok_def)
  moreover have "keeps same_caller
      (apply_native \<lparr>ne_world = W, ne_outside = S, ne_fuel = fuel, ne_call = call\<rparr> n args)"
    if "\<forall>a as. keeps same_caller (call a as)" for call n args
    using assms(2,3) that by (intro apply_native_caller) simp_all
  ultimately show ?thesis using assms(1) by (simp add: world_ok_def gel_world_def)
qed

text \<open>C10. Whatever its arguments, a native procedure that is modelled, and that is all of them but the
  reactive ones, five for debugging and the loader of bindings, has left the frames below its own,
  the scope and its frame's bookkeeping alone when it comes back, and has pushed at most one value,
  never null. Nothing is asked but that the event library leaves the frames alone.\<close>

theorem natives_answer:
  assumes "outside_ok (ne_outside N)" "fresh_scopes (scopes_of s)"
    and "fst (all_natives ! entry) \<notin> set unmodelled_names" "apply_native N entry args s = Inr (ok, t)"
  shows "rt_scope t = rt_scope s \<and> fresh_scopes (scopes_of t) \<and>
    (\<exists>vs. length vs \<le> 1 \<and> 0 \<notin> set vs \<and>
      rt_frames t = (case rt_frames s of [] \<Rightarrow> [] | f # fs \<Rightarrow> f\<lparr>fr_stack := vs @ fr_stack f\<rparr> # fs))"
proof -
  have "answers s t"
    using apply_native_answers [OF assms(1,3), THEN keepsD, OF assms(4)] .
  then show ?thesis
    using assms(2) by (auto simp: answers_def parents_kept_def)
qed

section \<open>Arguments of a started runtime\<close>

text \<open>A runtime whose classes are made, and a value of it.\<close>

definition holds :: "runtime \<Rightarrow> uword \<Rightarrow> obj \<Rightarrow> bool" where
  "holds rt v x \<longleftrightarrow> v \<noteq> 0 \<and> st_objs (rt_store rt) v = Some x"

definition instance_kind :: "obj \<Rightarrow> kind \<Rightarrow> bool" where
  "instance_kind x k \<longleftrightarrow> kind_name k \<in> kind_name ` set (ancestors (kind_of x))"

lemma instance_kind_Object [simp]: "instance_kind x KObject"
  by (simp add: instance_kind_def ancestors_def)

lemma NativeArgument_value:
  assumes "booted init_order (rt_store rt)" "idx < length args" "holds rt (args ! idx) x" "instance_kind x k"
  shows "NativeArgument N idx k required args rt = Inr (args ! idx, rt)"
proof -
  let ?st = "rt_store rt"
  have c: "st_class ?st j \<noteq> 0" for j by (rule booted_row [OF assms(1), of j])
  have "GetType (args ! idx) ?st = Inr (st_class ?st (kind_of x))"
    using assms(3) c by (simp add: GetType_def obj_at_def holds_def Let_def)
  moreover have "IsInstanceOf (st_class ?st (kind_of x)) (st_class ?st k) ?st = Inr True"
    using instance_of_ancestors [OF assms(1), of "kind_of x" k] assms(4) by (simp add: instance_kind_def)
  ultimately show ?thesis
    using assms(2,3) c
    by (simp add: NativeArgument_def Let_def op_simps stored_def on_store_def GetClass_def holds_def)
qed

definition is_error :: "obj \<Rightarrow> bool" where
  "is_error x = (case x of OError _ \<Rightarrow> True | _ \<Rightarrow> False)"

lemma with_arg_value:
  assumes "booted init_order (rt_store rt)" "idx < length args" "holds rt (args ! idx) x" "instance_kind x k"
    and "\<not> is_error x"
  shows "with_arg N idx k required args f rt = f (args ! idx) rt"
  using NativeArgument_value [OF assms(1-4), of N required] assms(3,5)
  by (simp add: with_arg_def op_simps stored_def HasError_def obj_at_def holds_def is_error_def)

lemma with_long_value:
  assumes "booted init_order (rt_store rt)" "idx < length args" "holds rt (args ! idx) (OLong v)"
  shows "with_long N idx args f rt = f v rt"
  using with_arg_value [OF assms, of KLong N True] assms(3)
  by (simp add: with_long_def instance_kind_def ancestors_def is_error_def op_simps stored_def obj_at_def holds_def)

section \<open>The empty list can be changed\<close>

text \<open>C29. The empty list is one shared object, and \<open>set-car!\<close> takes it for a pair like any other:
  afterwards null is a list of one element and true, for the whole program.\<close>

theorem set_car_of_null:
  assumes "booted init_order (rt_store rt)" "st_empty_pair (rt_store rt) = e" "holds rt e (OPair 0 0)"
    and "holds rt v x" "\<not> is_error x"
  shows "IsNull e (rt_store rt) = Inr True \<and> Truth e (rt_store rt) = Inr False \<and>
    (\<exists>rt'. proc_set_car N [e, v] rt = Inr (True, rt') \<and>
      Null M (rt_store rt') = Inr (e, rt_store rt') \<and>
      IsNull e (rt_store rt') = Inr False \<and> Truth e (rt_store rt') = Inr True \<and>
      (v \<noteq> e \<longrightarrow> obj_at v (rt_store rt') = Inr x))"
proof -
  have p: "instance_kind (OPair 0 0) KPair" "\<not> is_error (OPair 0 0)"
    by (simp_all add: instance_kind_def ancestors_def is_error_def)
  have 0: "with_arg N 0 KPair True [e, v] f rt = f e rt" for f
    using with_arg_value [OF assms(1) _ _ p, of 0 "[e, v]"] assms(3) by simp
  have 1: "with_arg N 1 KObject True [e, v] f rt = f v rt" for f
    using with_arg_value [OF assms(1) _ _ instance_kind_Object assms(5), of 1 "[e, v]"] assms(4) by simp
  have e: "e \<noteq> 0" "st_objs (rt_store rt) e = Some (OPair 0 0)" and v: "v \<noteq> 0" "st_objs (rt_store rt) v = Some x"
    using assms(3,4) by (simp_all add: holds_def)
  let ?st = "put_obj e (OPair v 0) (rt_store rt)"
  have "proc_set_car N [e, v] rt = Inr (True, rt\<lparr>rt_store := ?st\<rparr>)"
    using e v by (simp add: proc_set_car_def 0 1 [unfolded One_nat_def] op_simps on_store_def SetCar_def pair_of_def obj_at_def DoNothing_def)
  moreover have "Null M ?st = Inr (e, ?st)"
    using e(1) assms(2) by (simp add: Null_def op_simps put_obj_def)
  ultimately show ?thesis
    using e v by (auto simp: IsNull_def Truth_def obj_at_def put_obj_def)
qed

section \<open>Timers\<close>

text \<open>What is done with the first of the timers, or the error that there is none.\<close>

definition on_first_timer :: "native_env \<Rightarrow> uword \<Rightarrow> uword list \<Rightarrow> (uword \<Rightarrow> bool rop) \<Rightarrow> bool rop" where
  "on_first_timer N n ts f =
    (case ts of [] \<Rightarrow> ThrowError N (''failed to find Timer w/ id '' @ show_nat (unat n)) | t # _ \<Rightarrow> f t)"

lemma with_timer_first:
  assumes "rt_event_loop rt = l" "holds rt l (OEventLoop ts)" "0 \<notin> set ts"
  shows "with_timer N n f rt = on_first_timer N n ts f rt"
proof -
  have "GetTimer l n (rt_store rt) = Inr (case ts of [] \<Rightarrow> 0 | t # _ \<Rightarrow> t)"
    using assms(2) by (simp add: GetTimer_def find_between_def loop_at_def obj_at_def holds_def split: list.split)
  then show ?thesis
    using assms by (auto simp: with_timer_def on_first_timer_def GetThreadEventLoop_def op_simps stored_def holds_def split: list.split)
qed

text \<open>C30. The number a timer procedure is given does not matter: the search of the loop's timers for
  it looks at none of them, and each of the six procedures that take the number of a timer acts on
  the first timer of the loop, whatever the numbers of the timers are, and finds none only where
  the loop has none.\<close>

theorem timers_are_the_first:
  assumes "booted init_order (rt_store rt)" "holds rt a (OLong n)" "holds rt b (OLong u)" "holds rt c (OLong r)"
    and "rt_event_loop rt = l" "holds rt l (OEventLoop ts)" "0 \<notin> set ts"
  shows "proc_timer_start N [a, b, c] rt = on_first_timer N n ts (\<lambda>t. sthen (Timer_Start (ne_uv N) t u r) (ReturnNull N)) rt \<and>
    proc_timer_stop N [a] rt = on_first_timer N n ts (\<lambda>t. sthen (Timer_Stop (ne_uv N) t) (ReturnNull N)) rt \<and>
    proc_timer_again N [a] rt = on_first_timer N n ts (\<lambda>t. sthen (Timer_Again (ne_uv N) t) (ReturnNull N)) rt \<and>
    proc_timer_set_repeat N [a, b] rt =
      on_first_timer N n ts (\<lambda>t. sthen (uv_timer_set_repeat (ne_uv N) t u) (ReturnNull N)) rt \<and>
    proc_timer_get_repeat N [a] rt =
      on_first_timer N n ts (\<lambda>t. sbind (asks (uv_timer_get_repeat (ne_uv N) t)) (ReturnLong N)) rt \<and>
    proc_timer_get_due_in N [a] rt =
      on_first_timer N n ts (\<lambda>t. sbind (asks (uv_timer_get_due_in (ne_uv N) t)) (ReturnLong N)) rt"
proof -
  have long: "with_long N 0 (a # vs) f rt = f n rt" "with_long N 1 (a # b # vs) f rt = f u rt"
      "with_long N 2 [a, b, c] f rt = f r rt" for vs f
    using with_long_value [OF assms(1), of 0 "a # vs"] with_long_value [OF assms(1), of 1 "a # b # vs"]
      with_long_value [OF assms(1), of 2 "[a, b, c]"] assms(2-4) by simp_all
  show ?thesis
    by (simp add: proc_timer_start_def proc_timer_stop_def proc_timer_again_def proc_timer_set_repeat_def
        proc_timer_get_repeat_def proc_timer_get_due_in_def long [unfolded One_nat_def]
        with_timer_first [OF assms(5-7)])
qed

section \<open>The file system procedures as they are declared\<close>

lemma with_string_value:
  assumes "booted init_order (rt_store rt)" "idx < length args" "holds rt (args ! idx) (OString t)"
  shows "with_string N idx args f rt = f t rt"
  using with_arg_value [OF assms, of KString N True] assms(3)
  by (simp add: with_string_def instance_kind_def ancestors_def is_error_def op_simps stored_def string_at_def
      obj_at_def holds_def)

lemma with_arg_behind:
  "idx = length args \<Longrightarrow> with_arg N idx k required args f rt = Inl UndefinedBehaviour"
  by (simp add: with_arg_def NativeArgument_def op_simps)

definition procedure_in :: "runtime \<Rightarrow> uword \<Rightarrow> bool" where
  "procedure_in rt v \<longleftrightarrow> (\<exists>x. holds rt v x \<and> kind_of x \<in> {KLambda, KNativeProcedure})"

lemma with_procedure_value:
  assumes "booted init_order (rt_store rt)" "idx < length args" "procedure_in rt (args ! idx)"
  shows "with_arg N idx KProcedure required args f rt = f (args ! idx) rt"
proof -
  obtain x where "holds rt (args ! idx) x" "kind_of x \<in> {KLambda, KNativeProcedure}"
    using assms(3) by (auto simp: procedure_in_def)
  moreover from this have "instance_kind x KProcedure" "\<not> is_error x"
    by (auto simp: instance_kind_def ancestors_def parent_kind_def is_error_def kind_of_def split: obj.splits)
  ultimately show ?thesis using with_arg_value [OF assms(1,2)] by blast
qed

text \<open>An argument of the wrong class: the procedure returns the error.\<close>

lemma Error_text_value:
  assumes "Error_New_text M s st = Inr (v, st')"
  shows "\<exists>m. obj_at v st' = Inr (OError m)"
proof -
  obtain m st1 where "new_obj M (OError m) st1 = Inr (v, st')"
    using assms by (auto simp: Error_New_text_def Error_New_def op_simps rbind_eq_Inr guardr_eq_Inr)
  moreover from this have "v \<noteq> 0" by (rule new_obj_not_null)
  ultimately show ?thesis
    by (auto simp: new_obj_def op_simps rbind_eq_Inr put_obj_def obj_at_def)
qed

lemma with_arg_wrong:
  assumes "booted init_order (rt_store rt)" "idx < length args" "holds rt (args ! idx) x" "\<not> instance_kind x k"
  shows "with_arg N idx k True args f rt =
    ThrowError N (not_instance_text idx (pr_other (ne_printer N) x) (kind_name k)) rt"
proof -
  let ?st = "rt_store rt" and ?t = "not_instance_text idx (pr_other (ne_printer N) x) (kind_name k)"
  have c: "st_class ?st j \<noteq> 0" for j by (rule booted_row [OF assms(1), of j])
  have g: "GetType (args ! idx) ?st = Inr (st_class ?st (kind_of x))"
    using assms(3) c by (simp add: GetType_def obj_at_def holds_def Let_def)
  have i: "IsInstanceOf (st_class ?st (kind_of x)) (st_class ?st k) ?st = Inr False"
    using instance_of_ancestors [OF assms(1), of "kind_of x" k] assms(4) by (simp add: instance_kind_def)
  obtain cl where "st_objs ?st (st_class ?st k) = Some (OClass cl)" "class_named ?st (st_class ?st k) (kind_name k)"
    by (rule booted_row [OF assms(1), of k])
  then have "class_name k ?st = Inr (kind_name k)"
    using c by (simp add: class_name_def class_at_def obj_at_def class_named_def string_at_def)
  then have "NativeArgument N idx k True args rt = on_store (Error_New_text (ne_machine N) ?t) rt"
    using assms(2,3) c g i
    by (simp add: NativeArgument_def Let_def op_simps stored_def on_store_def GetClass_def holds_def obj_at_def)
  then show ?thesis
    using Error_text_value [of "ne_machine N" ?t ?st]
    by (cases "Error_New_text (ne_machine N) ?t ?st")
      (auto simp: with_arg_def ThrowError_def op_simps on_store_def stored_def HasError_def GetError_def obj_at_def)
qed

text \<open>C28. \<open>fs.cl\<close> declares \<open>rename\<close> with two paths and two callbacks and \<open>rmdir\<close> with two callbacks and no
  path. Applied to arguments as declared, \<open>rename\<close> reads behind their end, and \<open>rmdir\<close> finds a
  procedure in the place of its path and returns an error; no request is ever made.\<close>

theorem fs_declared_short:
  assumes "booted init_order (rt_store rt)" "holds rt p (OString t)" "holds rt q (OString u)"
    and "holds rt f (OLambda lf)" "holds rt g (OLambda lg)"
  shows "proc_fs_rename N [p, q, f, g] rt = Inl UndefinedBehaviour \<and>
    proc_fs_rmdir N [f, g] rt = ThrowError N (not_instance_text 0 (pr_other (ne_printer N) (OLambda lf)) ''String'') rt"
proof -
  let ?as = "[p, q, f, g]"
  have fg: "procedure_in rt f" "procedure_in rt g"
    using assms(4,5) by (auto simp: procedure_in_def kind_of_def)
  have "with_string N 0 ?as h rt = h t rt" "with_string N 1 ?as h rt = h u rt" for h
    using with_string_value [OF assms(1), of 0 ?as] with_string_value [OF assms(1), of 1 ?as] assms(2,3) by simp_all
  moreover have "with_arg N 2 KProcedure False ?as h rt = h f rt" "with_arg N 3 KProcedure False ?as h rt = h g rt" for h
    using with_procedure_value [OF assms(1), of 2 ?as] with_procedure_value [OF assms(1), of 3 ?as] fg by simp_all
  moreover have "with_arg N 4 KProcedure False ?as h rt = Inl UndefinedBehaviour" for h
    by (simp add: with_arg_behind)
  moreover have "\<not> instance_kind (OLambda lf) KString"
    by (simp add: instance_kind_def ancestors_def parent_kind_def kind_of_def kind_name_def)
  then have "with_arg N 0 KString True [f, g] h rt =
      ThrowError N (not_instance_text 0 (pr_other (ne_printer N) (OLambda lf)) ''String'') rt" for h
    using with_arg_wrong [OF assms(1), of 0 "[f, g]" "OLambda lf" KString N h] assms(4) by (simp add: kind_name_def)
  ultimately show ?thesis by (simp add: proc_fs_rename_def proc_fs_rmdir_def with_string_def [of N 0 "[f, g]"])
qed

section \<open>A started runtime\<close>

lemma started_store:
  "\<exists>st e v s f t l. booted init_order st \<and> st_empty_pair st = e \<and> distinct [0, e, v, s, f, t, l] \<and>
    st_objs st e = Some (OPair 0 0) \<and> st_objs st v = Some (OLong 42) \<and> st_objs st s = Some (OString ''gel'') \<and>
    st_objs st f = Some (OLambda empty_lambda) \<and> st_objs st t = Some (OTimer 1 f) \<and>
    st_objs st l = Some (OEventLoop [t])"
proof -
  let ?M = example_machine
  obtain s0 where b: "booted init_order s0" "6 * max_cost < store_free s0"
  proof -
    obtain s0 where "booted init_order s0" "store_free (initial_store large_heap) \<le> store_free s0 + boot_room"
      using Object_Init_boots [OF large_heap_facts(1) example_machine_sane large_heap_facts(2)] by blast
    moreover from this(2) have "6 * max_cost < store_free s0"
      using large_heap_room by (simp add: store_free_def)
    ultimately show thesis using that by blast
  qed
  have r: "max_cost < store_free s0" using b(2) by linarith
  have k: "kind_of (OPair 0 0) \<noteq> KModule" by (simp add: kind_of_def)
  obtain e s1 where 1: "booted init_order s1" "e \<noteq> 0" "st_objs s0 e = None" "st_objs s1 = (st_objs s0)(e \<mapsto> OPair 0 0)"
      "st_empty_pair s1 = st_empty_pair s0" "store_free s0 \<le> store_free s1 + max_cost"
    using booted_new [OF b(1) example_machine_sane k r] by blast
  define s1' where "s1' = s1\<lparr>st_empty_pair := e\<rparr>"
  have c: "booted init_order s1'" unfolding s1'_def using 1(1,4) by (intro booted_empty_pair) simp_all
  have d: "st_objs s1' = st_objs s1" "store_free s1' = store_free s1" "st_empty_pair s1' = e"
    by (simp_all add: s1'_def store_free_def)
  have r: "max_cost < store_free s1'" using b(2) 1(6) d(2) by linarith
  have k: "kind_of (OLong 42) \<noteq> KModule" by (simp add: kind_of_def)
  obtain v s2 where 2: "booted init_order s2" "v \<noteq> 0" "st_objs s1' v = None" "st_objs s2 = (st_objs s1')(v \<mapsto> OLong 42)"
      "st_empty_pair s2 = st_empty_pair s1'" "store_free s1' \<le> store_free s2 + max_cost"
    using booted_new [OF c example_machine_sane k r] by blast
  have r: "max_cost < store_free s2" using b(2) 1(6) d(2) 2(6) by linarith
  have k: "kind_of (OString ''gel'') \<noteq> KModule" by (simp add: kind_of_def)
  obtain s s3 where 3: "booted init_order s3" "s \<noteq> 0" "st_objs s2 s = None" "st_objs s3 = (st_objs s2)(s \<mapsto> OString ''gel'')"
      "st_empty_pair s3 = st_empty_pair s2" "store_free s2 \<le> store_free s3 + max_cost"
    using booted_new [OF 2(1) example_machine_sane k r] by blast
  have r: "max_cost < store_free s3" using b(2) 1(6) d(2) 2(6) 3(6) by linarith
  have k: "kind_of (OLambda empty_lambda) \<noteq> KModule" by (simp add: kind_of_def)
  obtain f s4 where 4: "booted init_order s4" "f \<noteq> 0" "st_objs s3 f = None" "st_objs s4 = (st_objs s3)(f \<mapsto> OLambda empty_lambda)"
      "st_empty_pair s4 = st_empty_pair s3" "store_free s3 \<le> store_free s4 + max_cost"
    using booted_new [OF 3(1) example_machine_sane k r] by blast
  have r: "max_cost < store_free s4" using b(2) 1(6) d(2) 2(6) 3(6) 4(6) by linarith
  have k: "kind_of (OTimer 1 f) \<noteq> KModule" by (simp add: kind_of_def)
  obtain t s5 where 5: "booted init_order s5" "t \<noteq> 0" "st_objs s4 t = None" "st_objs s5 = (st_objs s4)(t \<mapsto> OTimer 1 f)"
      "st_empty_pair s5 = st_empty_pair s4" "store_free s4 \<le> store_free s5 + max_cost"
    using booted_new [OF 4(1) example_machine_sane k r] by blast
  have r: "max_cost < store_free s5" using b(2) 1(6) d(2) 2(6) 3(6) 4(6) 5(6) by linarith
  have k: "kind_of (OEventLoop [t]) \<noteq> KModule" by (simp add: kind_of_def)
  obtain l s6 where 6: "booted init_order s6" "l \<noteq> 0" "st_objs s5 l = None" "st_objs s6 = (st_objs s5)(l \<mapsto> OEventLoop [t])"
      "st_empty_pair s6 = st_empty_pair s5" "store_free s5 \<le> store_free s6 + max_cost"
    using booted_new [OF 5(1) example_machine_sane k r] by blast
  have D: "distinct [0, e, v, s, f, t, l]"
    using 1(2) 2(2,3) 3(2,3) 4(2,3) 5(2,3) 6(2,3) unfolding 5(4) 4(4) 3(4) 2(4) d(1) 1(4)
    by (auto split: if_splits)
  have m: "st_objs s6 = (st_objs s0)(e \<mapsto> OPair 0 0, v \<mapsto> OLong 42, s \<mapsto> OString ''gel'',
      f \<mapsto> OLambda empty_lambda, t \<mapsto> OTimer 1 f, l \<mapsto> OEventLoop [t])"
    by (simp only: 6(4) 5(4) 4(4) 3(4) 2(4) d(1) 1(4))
  have "st_empty_pair s6 = e" by (simp only: d(3) 2(5) 3(5) 4(5) 5(5) 6(5))
  moreover have "st_objs s6 e = Some (OPair 0 0)" "st_objs s6 v = Some (OLong 42)" "st_objs s6 s = Some (OString ''gel'')"
      "st_objs s6 f = Some (OLambda empty_lambda)" "st_objs s6 t = Some (OTimer 1 f)" "st_objs s6 l = Some (OEventLoop [t])"
    using D by (simp_all add: m)
  ultimately show ?thesis using 6(1) D by blast
qed

definition example_outside :: outside where
  "example_outside =
    \<lparr>o_hashes = example_hashes,
     o_uv = \<lparr>uv_timer_init = \<lambda>a. ret 0, uv_timer_start = \<lambda>a t r. ret 0, uv_timer_stop = \<lambda>a. ret 0,
       uv_timer_again = \<lambda>a. ret 0, uv_timer_set_repeat = \<lambda>a r. ret (), uv_timer_get_repeat = \<lambda>a rt. 0,
       uv_timer_get_due_in = \<lambda>a rt. 0, uv_fs = \<lambda>c. ret 0, uv_strerror = \<lambda>e. ''error''\<rparr>,
     o_version = ''1'', o_home = None, o_random = \<lambda>rt. 4, o_random_in = \<lambda>a b rt. a, o_format = \<lambda>f vs. Some f,
     o_bindings = \<lambda>f. ret (), o_cwd = ''/'', o_triple = ''x86_64-linux-gnu'',
     o_other = \<lambda>call n as. fails LogFatal\<rparr>"

definition example_natives :: native_env where
  "example_natives = \<lparr>ne_world = example_world, ne_outside = example_outside, ne_fuel = 9,
    ne_call = call_procedure 9 example_world\<rparr>"

lemma example_outside_ok: "outside_ok example_outside"
  by (simp add: outside_ok_def example_outside_def quiet.keeps_ret)

lemma example_gel_world_ok: "world_ok (gel_world example_world example_outside 9)"
proof -
  have "unmodelled_ok example_outside"
    by (simp add: unmodelled_ok_def example_outside_def caller.keeps_ret caller.keeps_fails)
  then show ?thesis by (rule gel_world_ok [OF example_world_ok example_outside_ok])
qed

theorem natives_answer_witness:
  "let f = \<lparr>fr_id = 1, fr_target = TScript 64, fr_locals = 0, fr_return = 0, fr_stack = [4176]\<rparr>;
       s = example_runtime\<lparr>rt_frames := [f]\<rparr> in
    \<exists>t. apply_native example_natives 80 [] s = Inr (True, t) \<and>
      (\<exists>vs. length vs \<le> 1 \<and> rt_frames t = [f\<lparr>fr_stack := vs @ [4176]\<rparr>])"
proof -
  let ?f = "\<lparr>fr_id = 1, fr_target = TScript 64, fr_locals = 0, fr_return = 0, fr_stack = [4176]\<rparr>"
  let ?s = "example_runtime\<lparr>rt_frames := [?f]\<rparr>" and ?N = example_natives
  let ?t = "?s\<lparr>rt_frames := [?f\<lparr>fr_stack := [8320, 4176]\<rparr>]\<rparr>"
  have n: "all_natives ! 80 = (''gel/debug?'', proc_gel_get_debug)" "80 < length all_natives"
    by (simp_all add: all_natives_def class_natives_def symbol_natives_def InitNatives_table_def timer_natives_def
        container_natives_def fs_natives_def rx_natives_def rx_names_def debug_natives_def buffer_natives_def left_out_def)
  then have a: "apply_native ?N 80 [] ?s = Inr (True, ?t)"
    by (simp add: apply_native_def proc_gel_get_debug_def ReturnBool_def Return_def DoNothing_def op_simps on_store_def
        Bool_Box_def Bool_True_def stack_Push_def GetOperationStack_def set_stack_def example_runtime_def example_store_def)
  have f: "fresh_scopes (scopes_of ?s)"
    by (simp add: fresh_scopes_def example_runtime_def example_store_def example_objects_def empty_scopes_def)
  have "fst (all_natives ! 80) \<notin> set unmodelled_names" by (simp add: n unmodelled_names_def rx_names_def)
  from natives_answer [OF _ f this a] a show ?thesis
    by (auto simp: Let_def example_natives_def example_outside_ok)
qed

theorem set_car_of_null_witness:
  "\<exists>rt e v rt'. IsNull e (rt_store rt) = Inr True \<and> proc_set_car example_natives [e, v] rt = Inr (True, rt') \<and>
    Null example_machine (rt_store rt') = Inr (e, rt_store rt') \<and> IsNull e (rt_store rt') = Inr False"
proof -
  obtain st e v s f t l where st: "booted init_order st" "st_empty_pair st = e" "distinct [0, e, v, s, f, t, l]"
      "st_objs st e = Some (OPair 0 0)" "st_objs st v = Some (OLong 42)"
    using started_store by blast
  define rt where "rt = example_runtime\<lparr>rt_store := st\<rparr>"
  have b: "booted init_order (rt_store rt)" "st_empty_pair (rt_store rt) = e" "holds rt e (OPair 0 0)"
      "holds rt v (OLong 42)" "\<not> is_error (OLong 42)"
    using st by (simp_all add: rt_def holds_def is_error_def)
  have "IsNull e (rt_store rt) = Inr True \<and> (\<exists>rt'. proc_set_car example_natives [e, v] rt = Inr (True, rt') \<and>
      Null example_machine (rt_store rt') = Inr (e, rt_store rt') \<and> IsNull e (rt_store rt') = Inr False)"
    using set_car_of_null [OF b, of example_natives example_machine] by blast
  then show ?thesis by blast
qed

theorem timers_are_the_first_witness:
  "\<exists>rt a t f. holds rt a (OLong 42) \<and> holds rt t (OTimer 1 f) \<and>
    proc_timer_stop example_natives [a] rt = sthen (Timer_Stop (ne_uv example_natives) t) (ReturnNull example_natives) rt"
proof -
  obtain st e v s f t l where st: "booted init_order st" "distinct [0, e, v, s, f, t, l]"
      "st_objs st v = Some (OLong 42)" "st_objs st t = Some (OTimer 1 f)" "st_objs st l = Some (OEventLoop [t])"
    using started_store by blast
  define rt where "rt = example_runtime\<lparr>rt_store := st, rt_event_loop := l\<rparr>"
  have b: "booted init_order (rt_store rt)" "holds rt v (OLong 42)" "holds rt v (OLong 42)" "holds rt v (OLong 42)"
      "rt_event_loop rt = l" "holds rt l (OEventLoop [t])" "0 \<notin> set [t]" and t: "holds rt t (OTimer 1 f)"
    using st by (auto simp: rt_def holds_def)
  have "proc_timer_stop example_natives [v] rt =
      sthen (Timer_Stop (ne_uv example_natives) t) (ReturnNull example_natives) rt"
    using timers_are_the_first [OF b, of example_natives] by (simp add: on_first_timer_def)
  then show ?thesis using b(2) t by blast
qed

theorem fs_declared_short_witness:
  "\<exists>rt p f. holds rt p (OString ''gel'') \<and> proc_fs_rename example_natives [p, p, f, f] rt = Inl UndefinedBehaviour \<and>
    proc_fs_rmdir example_natives [f, f] rt =
      ThrowError example_natives ''arg #0 `` is expected to be an instance of: `String`'' rt"
proof -
  obtain st e v s f t l where st: "booted init_order st" "distinct [0, e, v, s, f, t, l]"
      "st_objs st s = Some (OString ''gel'')" "st_objs st f = Some (OLambda empty_lambda)"
    using started_store by blast
  define rt where "rt = example_runtime\<lparr>rt_store := st\<rparr>"
  have b: "booted init_order (rt_store rt)" "holds rt s (OString ''gel'')" "holds rt s (OString ''gel'')"
      "holds rt f (OLambda empty_lambda)" "holds rt f (OLambda empty_lambda)"
    using st by (auto simp: rt_def holds_def)
  have n: "show_nat 0 = ''0''" by code_simp
  have "not_instance_text 0 (pr_other (ne_printer example_natives) (OLambda empty_lambda)) ''String'' =
      ''arg #0 `` is expected to be an instance of: `String`''"
    using n by (simp add: not_instance_text_def example_natives_def example_world_def)
  then show ?thesis using fs_declared_short [OF b, of example_natives] b(2) by metis
qed

end
