(* ===== verification/Program.thy ===== *)
theory Program
  imports Natives ParserForms Interpreter
begin

text \<open>
  The program as a whole: modules read from files (\<open>gel/module.cc\<close>, \<open>gel/module_loader.h\<close>,
  \<open>gel/module_loader.cc\<close>), the start of the runtime (\<open>gel/runtime.cc\<close>, \<open>gel/object.cc\<close>), scripts
  from files (\<open>gel/script.cc\<close>), the prompt (\<open>gel/repl.h\<close>, \<open>gel/repl.cc\<close>) and \<open>main.cc\<close>. Files, the
  environment and the flags are parameters. \<open>std::cout\<close> is the output of the runtime;
  \<open>std::cerr\<close>, clearing the terminal and the measuring of time are left out.
\<close>

section \<open>What the program is run with\<close>

text \<open>\<open>pg_read\<close> gives the text of a file that can be opened, \<open>pg_entries\<close> the paths in a directory.
  \<open>pg_compile_script\<close> is the compiler on scripts. A \<open>gel::Exception\<close> that leaves the evaluation of
  a text leaves the runtime as \<open>pg_left\<close> says: failed operations of the model have no state.\<close>

record program =
  pg_parser :: parser_env
  pg_fuel :: nat
  pg_compile_script :: "uword \<Rightarrow> nat \<Rightarrow> bool rop"
  pg_left :: "string \<Rightarrow> runtime \<Rightarrow> runtime"
  pg_read :: "string \<Rightarrow> string option"
  pg_entries :: "string \<Rightarrow> string list"
  pg_regular :: "string \<Rightarrow> bool"
  pg_home :: "string option"
  pg_kernel :: bool
  pg_expr :: string
  pg_eval :: bool
  pg_dump_ast :: bool

abbreviation pg_world :: "program \<Rightarrow> world" where
  "pg_world P \<equiv> pe_world (pg_parser P)"

abbreviation pg_machine :: "program \<Rightarrow> machine" where
  "pg_machine P \<equiv> w_machine (pg_world P)"

abbreviation pg_run :: "program \<Rightarrow> uword \<Rightarrow> unit rop" where
  "pg_run P \<equiv> Run (pg_fuel P) (pg_world P)"

abbreviation pg_call :: "program \<Rightarrow> uword \<Rightarrow> uword list \<Rightarrow> unit rop" where
  "pg_call P \<equiv> call_procedure (pg_fuel P) (pg_world P)"

section \<open>Modules from files\<close>

text \<open>The text of a file as a stream: putting nothing into a \<open>stringstream\<close> makes it fail, so an
  empty file fails the assertion that the stream is good.\<close>

definition read_stream :: "program \<Rightarrow> string \<Rightarrow> string rop" where
  "read_stream P filename =
    (case pg_read P filename of
       None \<Rightarrow> fails LogFatal
     | Some text \<Rightarrow> sthen (sassert (text \<noteq> [])) (ret text))"

definition scope_in_init :: "nat rop" where
  "scope_in_init =
    sbind (asks rt_init_scope) (\<lambda>i. on_scopes (\<lambda>sc. Inr (LocalScope_New (Some i) sc)))"

definition LoadFrom :: "program \<Rightarrow> (string \<Rightarrow> uword rop) \<Rightarrow> string \<Rightarrow> uword rop" where
  "LoadFrom P find_module path =
    sbind scope_in_init (\<lambda>scope.
    sbind (read_stream P path) (\<lambda>text.
    ParseModuleFrom (pg_fuel P) ((pg_parser P)\<lparr>pe_find_module := find_module\<rparr>) path text scope))"

text \<open>Adding the scope of a module to the initial scope; that a name is there already is only
  logged.\<close>

definition add_to_init_scope :: "module_obj \<Rightarrow> unit rop" where
  "add_to_init_scope md =
    sbind (asks rt_init_scope) (\<lambda>i. sbind (import_scope i (md_scope md)) (\<lambda>ok. ret ()))"

definition init_or_die :: "program \<Rightarrow> uword \<Rightarrow> unit rop" where
  "init_or_die P m =
    sbind (stored (module_at m)) (\<lambda>md.
    if md_init md \<noteq> 0 then sbind (Module_Init (pg_call P) m) (sguard LogFatal) else ret ())"

text \<open>\<open>FindOrLoad\<close> loads a module under the name itself, without an extension. The modules it
  imports are found in the same way; \<open>depth\<close> bounds how deep imports are nested.\<close>

fun FindOrLoad :: "nat \<Rightarrow> program \<Rightarrow> string \<Rightarrow> uword rop" where
  "FindOrLoad depth P name =
    sbind (reads (Module_Find name)) (\<lambda>found.
    if found \<noteq> 0 then ret found
    else case pg_home P of
      None \<Rightarrow> ret 0
    | Some home \<Rightarrow>
        (case depth of
           0 \<Rightarrow> fails OutOfFuel
         | Suc d \<Rightarrow>
             sbind (LoadFrom P (FindOrLoad d P) (home @ ''/lib/'' @ name)) (\<lambda>m.
             sthen (sguard LogFatal (m \<noteq> 0))
               (sbind (stored (module_at m)) (\<lambda>md.
                sthen (add_to_init_scope md) (sthen (init_or_die P m) (ret m)))))))"

declare FindOrLoad.simps [simp del]

definition LoadKernelModule :: "program \<Rightarrow> unit rop" where
  "LoadKernelModule P =
    (if \<not> pg_kernel P then ret ()
     else case pg_home P of
       None \<Rightarrow> ret ()
     | Some home \<Rightarrow>
         sbind (LoadFrom P (FindOrLoad (pg_fuel P) P) (home @ ''/_kernel.cl'')) (\<lambda>kernel.
         sthen (sguard LogFatal (kernel \<noteq> 0))
           (sbind (stored (module_at kernel)) (\<lambda>md.
            sthen (add_to_init_scope md) (init_or_die P kernel)))))"

text \<open>\<open>Runtime::Import(Module*)\<close>, into the scope the runtime is in.\<close>

definition Runtime_Import_module :: "uword \<Rightarrow> bool rop" where
  "Runtime_Import_module m =
    sthen (sassert (m \<noteq> 0))
      (sbind (stored (module_at m)) (\<lambda>md.
       sbind (asks rt_scope) (\<lambda>scope.
       case scope of
         None \<Rightarrow> fails UndefinedBehaviour
       | Some i \<Rightarrow> import_scope i (md_scope md))))"

text \<open>The loaders of directories. The file's name is cut at its last dot here, the module's name at
  the first one.\<close>

definition HasGelExtension :: "string \<Rightarrow> bool" where
  "HasGelExtension rhs = (drop (length rhs - 3) rhs = ''.cl'')"

definition path_filename :: "string \<Rightarrow> string" where
  "path_filename p = (case find_last_of (CHR ''/'') p of None \<Rightarrow> p | Some i \<Rightarrow> drop (i + 1) p)"

definition GetFilename :: "string \<Rightarrow> string" where
  "GetFilename p =
    (let filename = path_filename p in
     case find_last_of (CHR ''.'') filename of None \<Rightarrow> filename | Some dotpos \<Rightarrow> take dotpos filename)"

definition LoadModule :: "program \<Rightarrow> string \<Rightarrow> uword rop" where
  "LoadModule P p =
    sthen (sassert (pg_regular P p))
      (let name = GetFilename p in
       sthen (sassert (name \<noteq> []))
         (sbind (reads (Module_IsLoaded name)) (\<lambda>loaded.
          if loaded then ret 0
          else sbind (LoadFrom P (FindOrLoad (pg_fuel P) P) p) (\<lambda>m.
            if m = 0 then ret 0
            else sbind (stored (module_at m)) (\<lambda>md.
              sthen (if md_init md \<noteq> 0 then sbind (Module_Init (pg_call P) m) (\<lambda>ok. ret ()) else ret ())
                (ret m))))))"

fun load_entries :: "program \<Rightarrow> string list \<Rightarrow> unit rop" where
  "load_entries P [] = ret ()"
| "load_entries P (p # ps) =
    (if \<not> pg_regular P p \<or> \<not> HasGelExtension p then load_entries P ps
     else sbind (LoadModule P p) (\<lambda>m. load_entries P ps))"

definition LoadAllModules :: "program \<Rightarrow> string \<Rightarrow> bool rop" where
  "LoadAllModules P dir = sthen (load_entries P (pg_entries P dir)) (ret True)"

section \<open>The start\<close>

text \<open>\<open>Object::Init\<close>: the classes, some with native procedures before or after them. The class of
  buffers is given its two.\<close>

definition natives_before :: "string list \<Rightarrow> nat" where
  "natives_before names = length (takeWhile (\<lambda>n. n \<noteq> hd names) (map fst all_natives))"

definition init_natives :: "world \<Rightarrow> (string \<times> native_body) list \<Rightarrow> unit rop" where
  "init_natives W table = (let names = map fst table in InitNatives_from W (natives_before names) names)"

definition native_function :: "world \<Rightarrow> uword \<Rightarrow> string \<Rightarrow> unit rop" where
  "native_function W cls name =
    sbind (on_store (Symbol_New_text (w_machine W) name)) (\<lambda>sy.
    sbind (NativeProcedure_Find sy) (\<lambda>native. on_store (AddFunction cls native)))"

definition Buffer_Init :: "world \<Rightarrow> unit rop" where
  "Buffer_Init W =
    sthen (init_natives W buffer_natives)
      (sthen (on_store (InitClass (w_machine W) KBuffer))
        (sbind (on_store (GetClass KBuffer)) (\<lambda>cls.
         sthen (native_function W cls ''Buffer:get-capacity'') (native_function W cls ''Buffer:get-length''))))"

definition init_kind :: "world \<Rightarrow> kind \<Rightarrow> unit rop" where
  "init_kind W k =
    (if k = KBool then on_store (Bool_Init (w_machine W))
     else if k = KBuffer then Buffer_Init W
     else
       sthen (on_store (InitClass (w_machine W) k))
         (if k = KClass then init_natives W class_natives
          else if k = KSymbol then init_natives W symbol_natives
          else if k = KNativeProcedure then init_natives W InitNatives_table
          else ret ()))"

fun init_kinds :: "world \<Rightarrow> kind list \<Rightarrow> unit rop" where
  "init_kinds W [] = ret ()"
| "init_kinds W (k # ks) = sthen (init_kind W k) (init_kinds W ks)"

text \<open>A runtime with an initial scope of its own, which is the current one as well.\<close>

definition new_Runtime :: "store \<Rightarrow> runtime" where
  "new_Runtime st =
    (let (scope, scopes) = LocalScope_New None (st_scopes st) in
     \<lparr>rt_store = st\<lparr>st_scopes := scopes\<rparr>, rt_code = Map.empty, rt_current = 0, rt_init_scope = scope,
      rt_scope = Some scope, rt_frames = [], rt_result = 0, rt_natives = [], rt_modules = [],
      rt_namespaces = [], rt_event_loop = 0, rt_output = []\<rparr>)"

definition Runtime_Init :: "program \<Rightarrow> store \<Rightarrow> (unit \<times> runtime) res" where
  "Runtime_Init P st = sthen (init_kinds (pg_world P) init_order) (LoadKernelModule P) (new_Runtime st)"

section \<open>Scripts from files\<close>

text \<open>The scope for names at compile time is the current one; the script's own hangs under the
  initial one.\<close>

definition ParseScript_stream :: "program \<Rightarrow> string \<Rightarrow> uword rop" where
  "ParseScript_stream P text =
    sbind scope_in_init (\<lambda>scope.
    sthen (sassert (text \<noteq> []))
      (with_parser
        (ParseScript (pg_fuel P) ((pg_parser P)\<lparr>pe_find_module := FindOrLoad (pg_fuel P) P\<rparr>)) text scope))"

definition FromFile :: "program \<Rightarrow> string \<Rightarrow> uword rop" where
  "FromFile P filename =
    (case pg_read P filename of
       None \<Rightarrow> fails LogFatal
     | Some text \<Rightarrow>
         sbind (ParseScript_stream P text) (\<lambda>script.
         sthen (sassert (script \<noteq> 0))
           (sbind (asks rt_scope) (\<lambda>scope.
            case scope of
              None \<Rightarrow> fails AssertFailed
            | Some sc \<Rightarrow>
                sbind (pg_compile_script P script sc) (\<lambda>ok. sthen (sguard LogFatal ok) (ret script))))))"

section \<open>Exceptions\<close>

text \<open>A \<open>try\<close> block with a handler of \<open>gel::Exception\<close>, around the evaluation of a text.\<close>

definition try_gel :: "program \<Rightarrow> string \<Rightarrow> 'a rop \<Rightarrow> (string \<Rightarrow> 'a rop) \<Rightarrow> 'a rop" where
  "try_gel P text m handler = (\<lambda>rt.
    case m rt of
      Inl (GelException message) \<Rightarrow> handler message (pg_left P text rt)
    | r \<Rightarrow> r)"

definition eval_text :: "program \<Rightarrow> string \<Rightarrow> uword rop" where
  "eval_text P expr =
    Eval (pg_world P) (pg_run P)
      (ParseExpr (pg_fuel P) ((pg_parser P)\<lparr>pe_find_module := FindOrLoad (pg_fuel P) P\<rparr>)) expr"

section \<open>The prompt\<close>

definition put_out :: "string \<Rightarrow> unit rop" where
  "put_out s = modifies (\<lambda>rt. rt\<lparr>rt_output := rt_output rt @ s\<rparr>)"

text \<open>\<open>Respond\<close>, by the type of its argument.\<close>

definition Respond_text :: "string \<Rightarrow> unit rop" where
  "Respond_text rhs = sthen (sassert (rhs \<noteq> [])) (put_out (newline @ rhs @ newline))"

definition Respond :: "program \<Rightarrow> uword \<Rightarrow> unit rop" where
  "Respond P rhs =
    sthen (sassert (rhs \<noteq> 0))
      (sbind (stored (obj_at rhs)) (\<lambda>x.
       case x of
         OError m \<Rightarrow>
           sbind (stored (string_at m)) (\<lambda>message. put_out (newline @ ''Error: '' @ message @ newline))
       | _ \<Rightarrow>
           sbind (stored (PrintValue (pg_fuel P) (w_printer (pg_world P)) rhs)) (\<lambda>text.
           put_out (newline @ text @ newline))))"

definition IsExitCommand :: "string \<Rightarrow> bool" where
  "IsExitCommand cmd = (cmd = ''exit'' \<or> cmd = ''quit'' \<or> cmd = ''q'')"

definition IsHelpCommand :: "string \<Rightarrow> bool" where
  "IsHelpCommand cmd = (cmd = ''help'' \<or> cmd = ''h'')"

definition IsClearCommand :: "string \<Rightarrow> bool" where
  "IsClearCommand cmd = (cmd = ''clear'' \<or> cmd = ''cls'')"

text \<open>\<open>std::getline\<close>: the line, what is left, and whether the stream is still good, which it is not
  when the line ends with the text and not with a newline.\<close>

definition getline :: "string \<Rightarrow> string \<times> string \<times> bool" where
  "getline input =
    (case dropWhile (\<lambda>c. c \<noteq> CHR 10) input of
       [] \<Rightarrow> (input, [], False)
     | _ # rest \<Rightarrow> (takeWhile (\<lambda>c. c \<noteq> CHR 10) input, rest, True))"

lemma getline_shorter: "getline input = (line, rest, True) \<Longrightarrow> length rest < length input"
proof -
  assume "getline input = (line, rest, True)"
  then obtain c where "dropWhile (\<lambda>c. c \<noteq> CHR 10) input = c # rest"
    by (auto simp: getline_def split: list.splits)
  then show ?thesis
    using length_dropWhile_le [of "\<lambda>c. c \<noteq> CHR 10" input] by simp
qed

text \<open>What one line does, other than ending the loop.\<close>

definition repl_command :: "program \<Rightarrow> string \<Rightarrow> unit rop" where
  "repl_command P expression =
    (if IsHelpCommand expression then Respond_text ''No help available.''
     else if IsClearCommand expression then ret ()
     else if expression = [] then Respond_text ''Nothing to eval.''
     else
       sbind (try_gel P expression (eval_text P expression) (\<lambda>m. on_store (Error_New_text (pg_machine P) m)))
         (\<lambda>result.
       sbind (stored (IsNull result)) (\<lambda>n. if n then ret () else Respond P result)))"

text \<open>\<open>RunRepl\<close> on what is left of the input, with the flag \<open>running_\<close>.\<close>

function repl_loop :: "program \<Rightarrow> bool \<Rightarrow> string \<Rightarrow> unit rop" where
  "repl_loop P running input =
    (if \<not> running then ret ()
     else
       sthen (put_out ''>>> '')
         (case getline input of
            (expression, rest, good) \<Rightarrow>
              if \<not> good then ret ()
              else if IsExitCommand expression then repl_loop P False rest
              else sthen (repl_command P expression) (repl_loop P True rest)))"
  by pat_completeness auto
termination
  by (relation "measure (\<lambda>(P, running, input). length input)") (auto dest!: getline_shorter [OF sym])

declare repl_loop.simps [simp del]

definition RunRepl :: "program \<Rightarrow> string \<Rightarrow> int rop" where
  "RunRepl P input = sthen (repl_loop P True input) (ret 0)"

section \<open>\<open>main\<close>\<close>

definition EXIT_SUCCESS :: int where
  "EXIT_SUCCESS = 0"

definition EXIT_FAILURE :: int where
  "EXIT_FAILURE = 1"

text \<open>The end of \<open>Execute\<close> and of \<open>ExecuteScript\<close>: the result on the output, unless it is an error.\<close>

definition IsErrorValue :: "uword \<Rightarrow> store \<Rightarrow> bool res" where
  "IsErrorValue a st =
    (if a = 0 then Inr False
     else rbind (obj_at a st) (\<lambda>x. Inr (case x of OError _ \<Rightarrow> True | _ \<Rightarrow> False)))"

definition put_result :: "program \<Rightarrow> uword \<Rightarrow> int rop" where
  "put_result P result =
    sbind (stored (IsErrorValue result)) (\<lambda>bad.
    if bad then ret EXIT_FAILURE
    else sbind (stored (IsNull result)) (\<lambda>n.
      if n then ret EXIT_SUCCESS
      else sbind (stored (PrintValue (pg_fuel P) (w_printer (pg_world P)) result)) (\<lambda>text.
        sthen (put_out (''result: '' @ text @ newline)) (ret EXIT_SUCCESS))))"

text \<open>With \<open>dump_ast\<close> the expression is parsed and compiled once before it is evaluated; that there
  is no expression fails an assertion of the macro expander.\<close>

definition dump_expression :: "program \<Rightarrow> string \<Rightarrow> int rop" where
  "dump_expression P expr =
    sbind (on_scopes (\<lambda>sc. Inr (LocalScope_New None sc))) (\<lambda>own.
    sbind (ParseExpr (pg_fuel P) ((pg_parser P)\<lparr>pe_find_module := FindOrLoad (pg_fuel P) P\<rparr>) expr own)
      (\<lambda>parsed.
    case parsed of
      None \<Rightarrow> fails AssertFailed
    | Some e \<Rightarrow>
        sbind (on_store (Lambda_New (pg_machine P) [] [e])) (\<lambda>lambda.
        sbind (asks rt_scope) (\<lambda>scope.
        case scope of
          None \<Rightarrow> fails AssertFailed
        | Some sc \<Rightarrow>
            sbind (w_compile (pg_world P) lambda sc) (\<lambda>ok. sthen (sguard LogFatal ok) (ret EXIT_SUCCESS))))))"

definition Execute :: "program \<Rightarrow> string \<Rightarrow> int rop" where
  "Execute P expr =
    sbind (if pg_dump_ast P then try_gel P expr (dump_expression P expr) (\<lambda>m. ret EXIT_FAILURE)
           else ret EXIT_SUCCESS) (\<lambda>dumped.
    if dumped \<noteq> EXIT_SUCCESS then ret dumped
    else if \<not> pg_eval P then ret EXIT_SUCCESS
    else
      sbind (try_gel P expr (eval_text P expr)
        (\<lambda>m. on_store (Error_New_text (pg_machine P) (''failed to execute expression: '' @ m)))) (put_result P))"

definition ExecuteScript :: "program \<Rightarrow> string \<Rightarrow> int rop" where
  "ExecuteScript P filename =
    sbind (FromFile P filename) (\<lambda>script.
    sthen (sassert (script \<noteq> 0))
      (if \<not> pg_eval P then ret EXIT_SUCCESS
       else
         sbind (try_gel P filename (Exec (pg_world P) (pg_run P) script)
           (\<lambda>m. on_store (Error_New_text (pg_machine P) (''failed to execute script: '' @ m)))) (put_result P)))"

text \<open>\<open>main\<close> on the arguments after the flags, with the heap made and the input to read.\<close>

definition main_program :: "program \<Rightarrow> string list \<Rightarrow> string \<Rightarrow> store \<Rightarrow> (int \<times> runtime) res" where
  "main_program P args input st =
    rbind (Runtime_Init P st) (\<lambda>(_, rt).
    (if pg_expr P \<noteq> [] then Execute P (pg_expr P)
     else case args of
       filename # _ \<Rightarrow> ExecuteScript P filename
     | [] \<Rightarrow> RunRepl P input) rt)"

end
