(* ===== verification/ProgramCorrect.thy ===== *)
theory ProgramCorrect
  imports Program NativesCorrect EvalCorrect
begin

text \<open>
  Correctness of the program as a whole: the prompt evaluates the lines of its input in their order
  up to the first exit command and comes back; a module that is not loaded yet is not found under
  its name.
\<close>

section \<open>The lines of a text\<close>

text \<open>The lines that end with a newline, and those before the first exit command.\<close>

fun lines_from :: "string \<Rightarrow> string \<Rightarrow> string list" where
  "lines_from acc [] = []"
| "lines_from acc (c # cs) = (if c = CHR 10 then acc # lines_from [] cs else lines_from (acc @ [c]) cs)"

definition complete_lines :: "string \<Rightarrow> string list" where
  "complete_lines input = lines_from [] input"

definition commands :: "string \<Rightarrow> string list" where
  "commands input = takeWhile (\<lambda>l. \<not> IsExitCommand l) (complete_lines input)"

lemma getline_Cons:
  "getline [] = ([], [], False)" "getline (CHR 10 # cs) = ([], cs, True)"
  "c \<noteq> CHR 10 \<Longrightarrow> getline (c # cs) = (case getline cs of (line, rest, good) \<Rightarrow> (c # line, rest, good))"
proof -
  assume c: "c \<noteq> CHR 10"
  show "getline (c # cs) = (case getline cs of (line, rest, good) \<Rightarrow> (c # line, rest, good))"
    by (cases "dropWhile (\<lambda>c. c \<noteq> CHR 10) cs") (simp_all add: getline_def c del: dropWhile_eq_Nil_conv)
qed (simp_all add: getline_def)

lemma lines_from_getline:
  "getline input = (line, rest, good) \<Longrightarrow>
    lines_from acc input = (if good then (acc @ line) # lines_from [] rest else [])"
proof (induction input arbitrary: acc line)
  case (Cons c cs)
  show ?case
  proof (cases "c = CHR 10")
    case False
    then obtain line' where "getline cs = (line', rest, good)" "line = c # line'"
      using Cons.prems by (auto simp: getline_Cons(3) split: prod.splits)
    then show ?thesis using Cons.IH [of line' "acc @ [c]"] False by simp
  qed (use Cons.prems in \<open>simp add: getline_Cons(2)\<close>)
qed (simp add: getline_Cons(1))

lemma complete_lines_getline:
  "getline input = (line, rest, good) \<Longrightarrow>
    complete_lines input = (if good then line # complete_lines rest else [])"
  unfolding complete_lines_def using lines_from_getline [of input line rest good "[]"] by simp

lemma lines_unterminated: "CHR 10 \<notin> set last_line \<Longrightarrow> lines_from acc (input @ last_line) = lines_from acc input"
proof (induction input arbitrary: acc)
  case Nil
  have "lines_from acc l = []" if "CHR 10 \<notin> set l" for l
    using that by (induction l arbitrary: acc) auto
  then show ?case using Nil by simp
qed simp

section \<open>The prompt\<close>

fun prompt_each :: "program \<Rightarrow> string list \<Rightarrow> unit rop" where
  "prompt_each P [] = put_out ''>>> ''"
| "prompt_each P (l # ls) = sthen (put_out ''>>> '') (sthen (repl_command P l) (prompt_each P ls))"

lemma repl_loop_stops: "repl_loop P False input = ret ()"
  by (simp add: repl_loop.simps)

lemma sthen_ret: "sthen m (ret ()) = m"
  by (rule ext) (auto simp: sthen_def sbind_def ret_def rbind_def split: sum.split)

lemma repl_loop_commands: "repl_loop P True input = prompt_each P (commands input)"
proof (induction "length input" arbitrary: input rule: less_induct)
  case less
  obtain line rest good where g: "getline input = (line, rest, good)" by (cases "getline input")
  note unfolded = repl_loop.simps [of P True input] commands_def complete_lines_getline [OF g] g
  show ?case
  proof (cases "good \<and> \<not> IsExitCommand line")
    case True
    then have "repl_loop P True rest = prompt_each P (commands rest)"
      using less getline_shorter [of input line rest] g by simp
    then show ?thesis using True by (simp add: unfolded)
  next
    case False
    then show ?thesis by (auto simp: unfolded repl_loop_stops sthen_ret)
  qed
qed

lemma prompt_each_returns:
  assumes "\<And>s rt. I rt \<Longrightarrow> I (rt\<lparr>rt_output := s\<rparr>)"
    and "\<And>l rt. l \<in> set ls \<Longrightarrow> I rt \<Longrightarrow> \<exists>rt'. repl_command P l rt = Inr ((), rt') \<and> I rt'"
    and "I rt"
  shows "\<exists>rt'. prompt_each P ls rt = Inr ((), rt') \<and> I rt'"
  using assms(2,3)
proof (induction ls arbitrary: rt)
  case Nil
  then show ?case using assms(1) by (auto simp: put_out_def op_simps)
next
  case (Cons l ls)
  let ?s = "rt\<lparr>rt_output := rt_output rt @ ''>>> ''\<rparr>"
  obtain t where t: "repl_command P l ?s = Inr ((), t)" "I t"
    using Cons.prems(1) [of l ?s] assms(1) [OF Cons.prems(2)] by auto
  obtain u where "prompt_each P ls t = Inr ((), u)" "I u"
    using Cons.IH [OF _ t(2)] Cons.prems(1) by auto
  then show ?case using t(1) by (auto simp: put_out_def op_simps)
qed

text \<open>C20. On every input the prompt evaluates the lines before the first exit command, in their
  order, and comes back with success, if each of these lines can be evaluated; the text after
  the last newline is never evaluated.\<close>

theorem repl_returns:
  assumes "\<And>s rt. I rt \<Longrightarrow> I (rt\<lparr>rt_output := s\<rparr>)"
    and "\<And>l rt. l \<in> set (commands input) \<Longrightarrow> I rt \<Longrightarrow> \<exists>rt'. repl_command P l rt = Inr ((), rt') \<and> I rt'"
    and "I rt" "CHR 10 \<notin> set last_line"
  shows "RunRepl P (input @ last_line) = sthen (prompt_each P (commands input)) (ret EXIT_SUCCESS) \<and>
    (\<exists>rt'. RunRepl P (input @ last_line) rt = Inr (EXIT_SUCCESS, rt') \<and> I rt')"
proof -
  have "commands (input @ last_line) = commands input"
    using assms(4) by (simp add: commands_def complete_lines_def lines_unterminated)
  then have r: "RunRepl P (input @ last_line) = sthen (prompt_each P (commands input)) (ret EXIT_SUCCESS)"
    by (simp add: RunRepl_def repl_loop_commands EXIT_SUCCESS_def)
  obtain rt' where "prompt_each P (commands input) rt = Inr ((), rt')" "I rt'"
    using prompt_each_returns [OF assms(1,2,3)] by blast
  then show ?thesis unfolding r by (auto simp: op_simps)
qed

section \<open>What the prompt answers\<close>

lemma show_nat_no_newline: "CHR 10 \<notin> set (show_nat n)"
proof -
  have "isdigit c" if "c \<in> set (show_nat n)" for c
    using show_nat_digits [of n] that by (simp add: list_all_iff)
  moreover have "\<not> isdigit (CHR 10)" by (simp add: isdigit_def code_of_char_def)
  ultimately show ?thesis by blast
qed

lemma shown_no_newline: "CHR 10 \<notin> set (show_source e)"
proof (induction e)
  case (SUnary op a)
  then show ?case by (cases op) simp_all
next
  case (SBinary op a b es)
  then show ?case by (cases op) auto
qed (auto simp: show_bool_def show_nat_no_newline)

lemma shown_no_command:
  "\<not> IsExitCommand (show_source e)" "\<not> IsHelpCommand (show_source e)" "\<not> IsClearCommand (show_source e)"
  "show_source e \<noteq> []"
proof -
  have n: "show_nat n \<noteq> c # cs" if "\<not> isdigit c" for n c cs
    using show_nat_digits [of n] that by auto
  show "\<not> IsExitCommand (show_source e)" "\<not> IsHelpCommand (show_source e)" "\<not> IsClearCommand (show_source e)"
    "show_source e \<noteq> []"
    using show_nat_digits by (cases e; simp add: IsExitCommand_def IsHelpCommand_def IsClearCommand_def
        show_bool_def n isdigit_def code_of_char_def)+
qed

fun shown_value :: "val \<Rightarrow> string" where
  "shown_value (Whole w) = show_nat (unat w)"
| "shown_value (Flag b) = show_bool b"

lemma commands_line:
  assumes "CHR 10 \<notin> set l" "\<not> IsExitCommand l"
  shows "commands (l @ newline @ ''exit'' @ newline @ behind) = [l]"
proof -
  have f: "lines_from acc (xs @ CHR 10 # ys) = (acc @ xs) # lines_from [] ys" if "CHR 10 \<notin> set xs" for acc xs ys
    using that by (induction xs arbitrary: acc) auto
  have "lines_from [] (l @ CHR 10 # (''exit'' @ CHR 10 # behind)) = l # ''exit'' # lines_from [] behind"
    using assms(1) by (subst f, simp, subst f) simp_all
  then show ?thesis
    using assms(2) by (simp add: commands_def complete_lines_def newline_def IsExitCommand_def)
qed

text \<open>C2. From the text at the prompt to the text of the answer: a line with an expression of
  numbers, booleans and operators is answered with its value, printed, on a line of its own.\<close>

theorem prompt_answers:
  assumes "worth e = Some v" "writable e" "nodes e \<le> 225" "2 * nodes e + 3 < pg_fuel P"
    and "compiles_with (pg_fuel P) B buffer_start code_start (pg_world P)" "w_events (pg_world P) = ret ()"
    and "able (pg_machine P) (3 * nodes e + 2) (rt_store rt)" "dollar_ready (rt_store rt)" "rt_frames rt = []"
  shows "\<exists>r rt1. eval_text P (show_source e) (rt\<lparr>rt_output := rt_output rt @ ''>>> ''\<rparr>) = Inr (r, rt1) \<and>
    RunRepl P (show_source e @ newline @ ''exit'' @ newline @ behind) rt =
      Inr (EXIT_SUCCESS, rt1\<lparr>rt_output := rt_output rt1 @ newline @ shown_value v @ newline @ ''>>> ''\<rparr>)"
proof -
  let ?rt = "rt\<lparr>rt_output := rt_output rt @ ''>>> ''\<rparr>"
  let ?pe = "(pg_parser P)\<lparr>pe_find_module := FindOrLoad (pg_fuel P) P\<rparr>"
  have a: "able (pe_machine ?pe) (3 * nodes e + 2) (rt_store ?rt)" "dollar_ready (rt_store ?rt)" "rt_frames ?rt = []"
      "pg_machine P = pe_machine ?pe"
    using assms(7-9) by simp_all
  obtain r rt1 where r: "eval_text P (show_source e) ?rt = Inr (r, rt1)" "r \<noteq> 0"
      "st_objs (rt_store rt1) r = Some (obj_of v)"
    using Eval_runs [OF assms(1-4) a(4) assms(5,6) a(1-3)] unfolding runs_def eval_text_def by blast
  have "repl_command P (show_source e) ?rt =
      Inr ((), rt1\<lparr>rt_output := rt_output rt1 @ newline @ shown_value v @ newline\<rparr>)"
    using r shown_no_command [of e]
    by (cases v) (simp_all add: repl_command_def try_gel_def op_simps stored_def IsNull_def obj_at_def Respond_def
        PrintValue.simps put_out_def)
  then have "prompt_each P [show_source e] rt =
      Inr ((), rt1\<lparr>rt_output := rt_output rt1 @ newline @ shown_value v @ newline @ ''>>> ''\<rparr>)"
    by (simp add: op_simps put_out_def)
  then show ?thesis
    using r(1) commands_line [OF shown_no_newline shown_no_command(1)]
    by (intro exI [of _ r] exI [of _ rt1]) (simp add: RunRepl_def repl_loop_commands op_simps EXIT_SUCCESS_def)
qed

section \<open>Imports\<close>

text \<open>C31. A module that is not loaded is looked for under its name, without the extension the files
  of modules have: the import ends the program although the module's file is there.\<close>

theorem module_file_missed:
  assumes "Module_Find name rt = Inr 0" "pg_home P = Some home"
    and "pg_read P (home @ ''/lib/'' @ name @ ''.cl'') = Some shipped"
    and "pg_read P (home @ ''/lib/'' @ name) = None"
  shows "HasGelExtension (home @ ''/lib/'' @ name @ ''.cl'') \<and>
    FindOrLoad (Suc depth) P name rt = Inl LogFatal"
proof -
  have "LoadFrom P (FindOrLoad depth P) (home @ ''/lib/'' @ name) rt = Inl LogFatal"
    using assms(4) by (simp only: LoadFrom_def read_stream_def op_simps scope_in_init_def on_scopes_def)
      (simp add: op_simps on_store_def on_part_def rbind_def split: prod.split)
  then have "FindOrLoad (Suc depth) P name rt = Inl LogFatal"
    using assms(1,2) by (simp add: FindOrLoad.simps [of "Suc depth"] op_simps del: append.simps)
  moreover have "HasGelExtension ((home @ ''/lib/'' @ name) @ ''.cl'')"
    unfolding HasGelExtension_def by (simp del: append_assoc)
  ultimately show ?thesis by simp
qed

section \<open>A concrete program\<close>

definition example_program :: program where
  "example_program =
    \<lparr>pg_parser = example_parser_env\<lparr>pe_world := eval_world\<rparr>, pg_fuel = 30,
     pg_compile_script = \<lambda>a sc. ret False, pg_left = \<lambda>e rt. rt,
     pg_read = \<lambda>f. if f = ''/gel/lib/fs.cl'' then Some ''(ns fs)'' else None,
     pg_entries = \<lambda>d. [], pg_regular = \<lambda>f. False, pg_home = Some ''/gel'', pg_kernel = False,
     pg_expr = [], pg_eval = True, pg_dump_ast = False\<rparr>"

theorem repl_returns_witness:
  "\<exists>rt'. RunRepl example_program ((''help'' @ newline @ newline @ ''exit'' @ newline @ ''(car'' @ newline) @ ''(cdr'')
      example_runtime = Inr (EXIT_SUCCESS, rt') \<and>
    rt_output rt' = ''>>> '' @ newline @ ''No help available.'' @ newline @ ''>>> '' @ newline @
      ''Nothing to eval.'' @ newline @ ''>>> ''"
proof -
  let ?input = "''help'' @ newline @ newline @ ''exit'' @ newline @ ''(car'' @ newline"
  have c: "commands ?input = [''help'', []]"
    by (simp add: commands_def complete_lines_def newline_def IsExitCommand_def)
  have r: "\<exists>rt'. repl_command example_program l rt = Inr ((), rt') \<and> True" if "l \<in> set (commands ?input)" for l rt
    using that unfolding c
    by (auto simp: repl_command_def IsHelpCommand_def IsClearCommand_def Respond_text_def put_out_def op_simps)
  have e: "RunRepl example_program (?input @ ''(cdr'') =
      sthen (prompt_each example_program [''help'', []]) (ret EXIT_SUCCESS)"
    using repl_returns [of "\<lambda>rt. True" ?input example_program example_runtime "''(cdr''"] r unfolding c by simp
  show ?thesis
    unfolding e
    by (simp add: repl_command_def IsHelpCommand_def IsClearCommand_def Respond_text_def put_out_def op_simps
        example_runtime_def)
qed

theorem prompt_answers_witness:
  "\<exists>st rt1. RunRepl example_program (''(! (< (+ 20 3 19) 42))'' @ newline @ ''exit'' @ newline)
      (example_runtime\<lparr>rt_store := st\<rparr>) =
    Inr (EXIT_SUCCESS, rt1\<lparr>rt_output := rt_output rt1 @ newline @ ''#t'' @ newline @ ''>>> ''\<rparr>)"
proof -
  let ?e = "SUnary UNot (SBinary BLessThan (SBinary BAdd (SNum 20) (SNum 3) [SNum 19]) (SNum 42) [])"
  obtain st where st: "able example_machine 100 st" "dollar_ready st" using store_with_truths by blast
  have shown: "show_source ?e = ''(! (< (+ 20 3 19) 42))''"
    by (simp add: show_nat.simps digit_def char_of_def bit_0)
  have "compiles_with 30 example_env 16384 20480 eval_world"
    by (simp add: compiles_with_def eval_world_def example_env_def)
  moreover have "able example_machine (3 * nodes ?e + 2) st" using able_less [OF st(1)] by simp
  ultimately show ?thesis
    using prompt_answers [of ?e "Flag True" example_program example_env 16384 20480
        "example_runtime\<lparr>rt_store := st\<rparr>" "[]", unfolded shown] st(2)
    by (force simp: applied_opt_def eval_world_def example_world_def example_parser_env_def example_program_def
        example_runtime_def show_bool_def)
qed

theorem module_file_missed_witness:
  "pg_read example_program ''/gel/lib/fs.cl'' = Some ''(ns fs)'' \<and>
    FindOrLoad (Suc 0) example_program ''fs'' example_runtime = Inl LogFatal"
  using module_file_missed [of "''fs''" example_runtime example_program "''/gel''" "''(ns fs)''" 0]
  by (simp add: example_program_def example_runtime_def Module_Find_def)

end
