(* ===== verification/Collector.thy ===== *)
theory Collector
  imports Regions Scopes
begin

text \<open>
  The copying collector (\<open>gel/collector.h\<close>, \<open>gel/collector.cc\<close>) with \<open>Pointer::Copy\<close>
  (\<open>gel/pointer.h\<close>) and the functions that hand it pointers: \<open>Class::VisitClassPointers\<close>,
  \<open>Module::VisitModulePointers\<close>, \<open>LocalScope::VisitLocalPointers\<close> and the
  \<open>VisitPointers(PointerPointerVisitor*)\<close> of \<open>Object\<close>, \<open>Class\<close>, \<open>Error\<close> and \<open>Module\<close>.

  The headers of the new zone are those of \<open>Regions\<close>; what follows a header is one value of
  the map \<open>co_objects\<close>, by the address of the header. It shows the fields \<open>VisitPointers\<close>
  reads; \<open>'b\<close> is the rest of the object's bytes. Copying an object copies that value, so a
  module and its copy share their scope. A visitor takes the pointer a
  \<open>Pointer**\<close> refers to and gives back the one it leaves there; whoever called it writes it
  back. What is only logged is left out.
\<close>

section \<open>The objects and the state\<close>

datatype 'b heap_object =
    ClassObject 'b
  | ErrorObject uword 'b  \<comment> \<open>the message, a \<open>Pointer*\<close>\<close>
  | ModuleObject uword nat "uword list" 'b  \<comment> \<open>the name, the scope, the namespaces\<close>
  | OtherObject 'b

record 'b collection =
  co_heap :: heap
  co_objects :: "uword \<rightharpoonup> 'b heap_object"
  co_classes :: "uword list"
  co_modules :: "uword list"
  co_scopes :: scopes
  co_runtime :: bool
  curr_address :: uword
  next_address :: uword

type_synonym 'b pointer_visitor =
  "uword \<Rightarrow> 'b collection \<Rightarrow> (bool \<times> uword \<times> 'b collection) res"

definition co_zone :: "'b collection \<Rightarrow> new_zone" where
  "co_zone st = heap_new_zone (co_heap st)"

definition set_zone :: "new_zone \<Rightarrow> 'b collection \<Rightarrow> 'b collection" where
  "set_zone z st = st\<lparr>co_heap := (co_heap st)\<lparr>heap_new_zone := z\<rparr>\<rparr>"

definition set_headers :: "headers \<Rightarrow> 'b collection \<Rightarrow> 'b collection" where
  "set_headers hs st = set_zone ((co_zone st)\<lparr>zone_headers := hs\<rparr>) st"

text \<open>What \<open>*ptr\<close> and \<open>ptr->GetObjectPointer()\<close> read.\<close>

definition header_at :: "'b collection \<Rightarrow> uword \<Rightarrow> pointer res" where
  "header_at st p =
    (case zone_headers (co_zone st) p of None \<Rightarrow> Inl UndefinedBehaviour | Some h \<Rightarrow> Inr h)"

definition object_at :: "'b collection \<Rightarrow> uword \<Rightarrow> 'b heap_object res" where
  "object_at st p =
    (case co_objects st p of None \<Rightarrow> Inl UndefinedBehaviour | Some x \<Rightarrow> Inr x)"

definition write_header :: "uword \<Rightarrow> pointer \<Rightarrow> 'b collection \<Rightarrow> 'b collection" where
  "write_header p h st = set_headers ((zone_headers (co_zone st))(p \<mapsto> h)) st"

definition write_object :: "uword \<Rightarrow> 'b heap_object \<Rightarrow> 'b collection \<Rightarrow> 'b collection" where
  "write_object p x st = st\<lparr>co_objects := (co_objects st)(p \<mapsto> x)\<rparr>"

text \<open>\<open>Object::raw_ptr\<close>: from an object to its header.\<close>

definition raw_ptr :: "uword \<Rightarrow> uword" where
  "raw_ptr obj = obj - sizeof_Pointer"

section \<open>The roots\<close>

text \<open>The loop of \<open>VisitClassPointers\<close> and of \<open>VisitModulePointers\<close>, over a list of pointers
  that the visitor may change.\<close>

fun visit_roots :: "'b pointer_visitor \<Rightarrow> uword list \<Rightarrow> 'b collection \<Rightarrow>
    (bool \<times> uword list \<times> 'b collection) res" where
  "visit_roots vis [] st = Inr (True, [], st)"
| "visit_roots vis (p # ps) st =
    asserting (p \<noteq> 0 \<and> GetObjectAddress p \<noteq> 0)
      (rbind (vis p st) (\<lambda>(ok, p', st1).
       if \<not> ok then Inr (False, p' # ps, st1)
       else rbind (visit_roots vis ps st1) (\<lambda>(ok', ps', st2). Inr (ok', p' # ps', st2))))"

definition VisitClassPointers :: "'b pointer_visitor \<Rightarrow> 'b collection \<Rightarrow> (bool \<times> 'b collection) res" where
  "VisitClassPointers vis st =
    rbind (visit_roots vis (co_classes st) st) (\<lambda>(ok, ps, st1).
    Inr (ok, st1\<lparr>co_classes := ps\<rparr>))"

definition VisitModulePointers :: "'b pointer_visitor \<Rightarrow> 'b collection \<Rightarrow> (bool \<times> 'b collection) res" where
  "VisitModulePointers vis st =
    rbind (visit_roots vis (co_modules st) st) (\<lambda>(ok, ps, st1).
    Inr (ok, st1\<lparr>co_modules := ps\<rparr>))"

definition VisitRoots :: "'b pointer_visitor \<Rightarrow> 'b collection \<Rightarrow> (bool \<times> 'b collection) res" where
  "VisitRoots vis st =
    (if \<not> co_runtime st then Inr (False, st)
     else rbind (VisitClassPointers vis st) (\<lambda>(ok, st1).
       if \<not> ok then Inr (False, st1) else VisitModulePointers vis st1))"

section \<open>The pointers in an object\<close>

text \<open>The loop over the variables of one scope: \<open>local->Accept(vis)\<close> is \<open>vis(&value_)\<close>.\<close>

fun visit_local_pointers :: "'b pointer_visitor \<Rightarrow> nat list \<Rightarrow> 'b collection \<Rightarrow>
    (bool \<times> 'b collection) res" where
  "visit_local_pointers vis [] st = Inr (True, st)"
| "visit_local_pointers vis (l # ls) st =
    rbind (get_local (co_scopes st) l) (\<lambda>v.
    rbind (vis (lv_ptr v) st) (\<lambda>(ok, p', st1).
    let st2 = st1\<lparr>co_scopes := upd_local l (v\<lparr>lv_ptr := p'\<rparr>) (co_scopes st1)\<rparr> in
    if \<not> ok then Inr (False, st2) else visit_local_pointers vis ls st2))"

fun VisitLocalPointers_from :: "nat \<Rightarrow> 'b pointer_visitor \<Rightarrow> bool \<Rightarrow> nat \<Rightarrow> 'b collection \<Rightarrow>
    (bool \<times> 'b collection) res" where
  "VisitLocalPointers_from fuel vis recursive i st =
    rbind (get_scope (co_scopes st) i) (\<lambda>s.
    rbind (visit_local_pointers vis (sc_locals s) st) (\<lambda>(ok, st1).
    if \<not> ok then Inr (False, st1)
    else if recursive then
      case sc_parent s of
        None \<Rightarrow> Inr (True, st1)
      | Some p \<Rightarrow>
          (case fuel of
             0 \<Rightarrow> Inl OutOfFuel
           | Suc k \<Rightarrow> VisitLocalPointers_from k vis recursive p st1)
    else Inr (True, st1)))"

declare VisitLocalPointers_from.simps [simp del]

definition VisitLocalPointers :: "'b pointer_visitor \<Rightarrow> bool \<Rightarrow> nat \<Rightarrow> 'b collection \<Rightarrow>
    (bool \<times> 'b collection) res" where
  "VisitLocalPointers vis recursive i st = VisitLocalPointers_from i vis recursive i st"

text \<open>The loop over the namespaces of a module, each given by its object.\<close>

fun visit_namespaces :: "'b pointer_visitor \<Rightarrow> uword list \<Rightarrow> 'b collection \<Rightarrow>
    (bool \<times> uword list \<times> 'b collection) res" where
  "visit_namespaces vis [] st = Inr (True, [], st)"
| "visit_namespaces vis (ns # nss) st =
    rbind (vis (raw_ptr ns) st) (\<lambda>(ok, p', st1).
    if \<not> ok then Inr (False, ns # nss, st1)
    else rbind (visit_namespaces vis nss st1) (\<lambda>(ok', nss', st2).
      Inr (ok', GetObjectAddress p' # nss', st2)))"

definition Module_VisitPointers :: "'b pointer_visitor \<Rightarrow> uword \<Rightarrow> nat \<Rightarrow> uword list \<Rightarrow> 'b \<Rightarrow>
    'b collection \<Rightarrow> (bool \<times> 'b heap_object \<times> 'b collection) res" where
  "Module_VisitPointers vis name scope nss b st =
    rbind (vis (raw_ptr name) st) (\<lambda>(ok, p', st1).
    if \<not> ok then Inr (False, ModuleObject name scope nss b, st1)
    else let name' = GetObjectAddress p' in
      rbind (VisitLocalPointers vis True scope st1) (\<lambda>(ok2, st2).
      guardr LogFatal ok2
        (rbind (visit_namespaces vis nss st2) (\<lambda>(ok3, nss', st3).
         Inr (ok3, ModuleObject name' scope nss' b, st3)))))"

text \<open>\<open>Object::VisitPointers\<close> as each class overrides it. That of \<open>Class\<close> is
  \<open>NOT_IMPLEMENTED(ERROR)\<close>, which logs; every other class has the one of \<open>Object\<close>, which
  does nothing: the elements of pairs and arrays, the fields of instances and of procedures
  are not shown to the visitor.\<close>

fun object_VisitPointers :: "'b pointer_visitor \<Rightarrow> 'b heap_object \<Rightarrow> 'b collection \<Rightarrow>
    (bool \<times> 'b heap_object \<times> 'b collection) res" where
  "object_VisitPointers vis (ClassObject b) st = Inr (True, ClassObject b, st)"
| "object_VisitPointers vis (ErrorObject message b) st =
    rbind (vis message st) (\<lambda>(ok, p', st1). Inr (ok, ErrorObject p' b, st1))"
| "object_VisitPointers vis (ModuleObject name scope nss b) st =
    Module_VisitPointers vis name scope nss b st"
| "object_VisitPointers vis (OtherObject b) st = Inr (True, OtherObject b, st)"

definition Pointer_VisitPointers :: "'b pointer_visitor \<Rightarrow> uword \<Rightarrow> 'b collection \<Rightarrow>
    (bool \<times> 'b collection) res" where
  "Pointer_VisitPointers vis p st =
    rbind (object_at st p) (\<lambda>x.
    rbind (object_VisitPointers vis x st) (\<lambda>(ok, x', st1).
    Inr (ok, write_object p x' st1)))"

section \<open>\<open>class Collector\<close>\<close>

text \<open>\<open>Pointer::Copy\<close>: the header of the copy has the tag and no forwarding address; the bytes
  of the object follow. What was in that place is gone.\<close>

definition Pointer_Copy :: "uword \<Rightarrow> uword \<Rightarrow> 'b collection \<Rightarrow> (uword \<times> 'b collection) res" where
  "Pointer_Copy address p st =
    rbind (header_at st p) (\<lambda>h.
    rbind (object_at st p) (\<lambda>x.
    asserting (address \<noteq> 0)
      (let gone = (\<lambda>a. a - address < GetTotalSize h);
           st1 = set_headers ((erase address (GetTotalSize h) (zone_headers (co_zone st)))
             (address \<mapsto> \<lparr>ptr_tag = ptr_tag h, forwarding = 0\<rparr>)) st in
       Inr (address, st1\<lparr>co_objects :=
         (\<lambda>a. if gone a then None else co_objects st a)(address \<mapsto> x)\<rparr>))))"

definition CopyPointer :: "uword \<Rightarrow> 'b collection \<Rightarrow> (uword \<times> 'b collection) res" where
  "CopyPointer p st =
    asserting (p \<noteq> 0)
      (rbind (header_at st p) (\<lambda>h.
       let total_size = GetTotalSize h in
       if fromspace (co_zone st) + semi_size (co_zone st) \<le> next_address st + total_size
       then Inr (0, st)
       else rbind (Pointer_Copy (next_address st) p st) (\<lambda>(new, st1).
         Inr (new, st1\<lparr>next_address := next_address st1 + total_size\<rparr>))))"

text \<open>\<open>Process\<close> does not change \<open>*ptr\<close>.\<close>

definition Process :: "'b pointer_visitor" where
  "Process p st =
    asserting (p \<noteq> 0)
      (asserting (GetObjectAddress p \<noteq> 0)
        (rbind (CopyPointer p st) (\<lambda>(new, st1).
         asserting (new \<noteq> 0)
           (rbind (header_at st1 new) (\<lambda>h.
            let st2 = write_header new (h\<lparr>ptr_tag := SetRememberedBit True (ptr_tag h)\<rparr>) st1 in
            rbind (header_at st2 p) (\<lambda>old.
            Inr (True, p, write_header p (SetForwardingAddress new old) st2)))))))"

definition ProcessRoots :: "'b collection \<Rightarrow> 'b collection res" where
  "ProcessRoots st =
    rbind (VisitRoots Process st) (\<lambda>(ok, st1). guardr LogFatal ok (Inr st1))"

text \<open>\<open>PointerNotifier::Visit\<close>.\<close>

definition Notifier_Visit :: "'b pointer_visitor" where
  "Notifier_Visit p st =
    asserting (p \<noteq> 0)
      (rbind (header_at st p) (\<lambda>h. asserting (IsForwarding h) (Inr (True, forwarding h, st))))"

definition NotifyRoots :: "'b collection \<Rightarrow> 'b collection res" where
  "NotifyRoots st =
    rbind (VisitRoots Notifier_Visit st) (\<lambda>(ok, st1). guardr LogFatal ok (Inr st1))"

text \<open>\<open>Collector::Visit\<close>.\<close>

definition Collector_Visit :: "'b pointer_visitor" where
  "Collector_Visit p st =
    asserting (p \<noteq> 0)
      (rbind (header_at st p) (\<lambda>h. if IsForwarding h then Inr (True, p, st) else Process p st))"

text \<open>The scan of \<open>ProcessFromspace\<close>. The address moves on by the size of a header at least and
  never passes the end of the semispace, so the size of a semispace is fuel enough.\<close>

fun scan_loop :: "nat \<Rightarrow> 'b collection \<Rightarrow> (bool \<times> 'b collection) res" where
  "scan_loop fuel st =
    (if curr_address st < next_address st then
       (case fuel of
          0 \<Rightarrow> Inl OutOfFuel
        | Suc k \<Rightarrow>
           (let p = curr_address st in
            asserting (p \<noteq> 0)
              (rbind (Pointer_VisitPointers Collector_Visit p st) (\<lambda>(ok, st1).
               if \<not> ok then Inr (False, st1)
               else rbind (header_at st1 p) (\<lambda>h.
                 scan_loop k (st1\<lparr>curr_address := curr_address st1 + GetTotalSize h\<rparr>))))))
     else Inr (True, st))"

declare scan_loop.simps [simp del]

definition ProcessFromspace :: "'b collection \<Rightarrow> (bool \<times> 'b collection) res" where
  "ProcessFromspace st = scan_loop (unat (semi_size (co_zone st))) st"

definition Collect :: "'b collection \<Rightarrow> 'b collection res" where
  "Collect st =
    (let st1 = set_zone (SwapSpaces (co_zone st)) st;
         st2 = st1\<lparr>curr_address := fromspace (co_zone st1), next_address := fromspace (co_zone st1)\<rparr> in
     rbind (ProcessRoots st2) (\<lambda>st3.
     rbind (ProcessFromspace st3) (\<lambda>(ok, st4).
     guardr LogFatal ok
       (rbind (NotifyRoots st4) (\<lambda>st5.
        rbind (SetCurrent (next_address st5) (co_zone st5)) (\<lambda>z. Inr (set_zone z st5)))))))"

text \<open>\<open>MinorCollection\<close> visits the roots before and after to print them.\<close>

definition kPrintRoot :: "'b pointer_visitor" where
  "kPrintRoot p st = asserting (p \<noteq> 0 \<and> GetObjectAddress p \<noteq> 0) (Inr (True, p, st))"

definition MinorCollection :: "'b collection \<Rightarrow> 'b collection res" where
  "MinorCollection st =
    rbind (VisitRoots kPrintRoot st) (\<lambda>(ok, st1).
    guardr LogFatal ok
      (rbind (Collect st1) (\<lambda>st2.
       rbind (VisitRoots kPrintRoot st2) (\<lambda>(ok', st3). guardr LogFatal ok' (Inr st3)))))"

end
