(* ===== verification/CollectorCorrect.thy ===== *)
theory CollectorCorrect
  imports Collector RegionsCorrect
begin

text \<open>
  What a collection does. From a new zone whose objects lie one after another
  (\<open>ready\<close>), \<open>Collect\<close> returns, copies exactly the objects that the pointers its visitors
  are shown lead to, each once and as it is, and makes every root the address of its copy.
\<close>

section \<open>The objects of a zone\<close>

definition object_bytes :: "'b collection \<Rightarrow> uword \<Rightarrow> nat" where
  "object_bytes st a =
    (case zone_headers (co_zone st) a of None \<Rightarrow> 0 | Some h \<Rightarrow> unat (GetTotalSize h))"

definition unmoved :: "'b collection \<Rightarrow> uword \<Rightarrow> bool" where
  "unmoved st a \<longleftrightarrow> (\<exists>h. zone_headers (co_zone st) a = Some h \<and> \<not> IsForwarding h) \<and>
     co_objects st a \<noteq> None"

fun objects_from :: "'b collection \<Rightarrow> nat \<Rightarrow> uword list \<Rightarrow> nat \<Rightarrow> bool" where
  "objects_from st p [] q \<longleftrightarrow> p = q"
| "objects_from st p (a # as) q \<longleftrightarrow>
    unat a = p \<and> unmoved st a \<and> objects_from st (p + object_bytes st a) as q"

definition space_of :: "'b collection \<Rightarrow> uword list \<Rightarrow> nat" where
  "space_of st as = sum_list (map (object_bytes st) as)"

text \<open>The pointers an object shows a visitor.\<close>

definition local_pointers :: "'b collection \<Rightarrow> nat \<Rightarrow> uword list" where
  "local_pointers st i =
    (case VisitLocals (co_scopes st) (\<lambda>l. True) True i of
       Inl e \<Rightarrow> []
     | Inr (ls, ok) \<Rightarrow> map (\<lambda>l. lv_ptr (the (lv_map (co_scopes st) l))) ls)"

fun pointers_of :: "'b collection \<Rightarrow> 'b heap_object \<Rightarrow> uword list" where
  "pointers_of st (ClassObject b) = []"
| "pointers_of st (ErrorObject message b) = [message]"
| "pointers_of st (ModuleObject name scope nss b) =
    raw_ptr name # local_pointers st scope @ map raw_ptr nss"
| "pointers_of st (OtherObject b) = []"

text \<open>The scope of a module and its parents exist.\<close>

fun scope_of_object :: "'b heap_object \<Rightarrow> nat option" where
  "scope_of_object (ModuleObject name scope nss b) = Some scope"
| "scope_of_object x = None"

definition whole_scope :: "'b collection \<Rightarrow> nat \<Rightarrow> bool" where
  "whole_scope st i \<longleftrightarrow>
    (case VisitLocals (co_scopes st) (\<lambda>l. True) True i of
       Inl e \<Rightarrow> False
     | Inr (ls, ok) \<Rightarrow> list_all (\<lambda>l. lv_map (co_scopes st) l \<noteq> None) ls)"

definition whole_object :: "'b collection \<Rightarrow> uword list \<Rightarrow> 'b heap_object \<Rightarrow> bool" where
  "whole_object st as x \<longleftrightarrow> set (pointers_of st x) \<subseteq> set as \<and>
     (case scope_of_object x of None \<Rightarrow> True | Some i \<Rightarrow> whole_scope st i)"

definition co_roots :: "'b collection \<Rightarrow> uword list" where
  "co_roots st = co_classes st @ co_modules st"

inductive reached :: "'b collection \<Rightarrow> uword \<Rightarrow> bool" for st where
  root: "a \<in> set (co_roots st) \<Longrightarrow> reached st a"
| field: "reached st a \<Longrightarrow> co_objects st a = Some x \<Longrightarrow> b \<in> set (pointers_of st x) \<Longrightarrow> reached st b"

section \<open>Where the copies go\<close>

fun place :: "'b collection \<Rightarrow> nat \<Rightarrow> uword list \<Rightarrow> uword \<Rightarrow> nat" where
  "place st F [] a = 0"
| "place st F (c # cs) a = (if a = c then F else place st (F + object_bytes st c) cs a)"

definition moved :: "'b collection \<Rightarrow> nat \<Rightarrow> uword list \<Rightarrow> uword \<Rightarrow> uword" where
  "moved st F cs a = of_nat (place st F cs a)"

definition copy_end :: "'b collection \<Rightarrow> nat \<Rightarrow> uword list \<Rightarrow> uword" where
  "copy_end st F cs = of_nat (F + space_of st cs)"

lemma space_of_simps [simp]:
  "space_of st [] = 0" "space_of st (a # as) = object_bytes st a + space_of st as"
  "space_of st (as @ bs) = space_of st as + space_of st bs"
  by (simp_all add: space_of_def)

lemma place_interval:
  "a \<in> set cs \<Longrightarrow> F \<le> place st F cs a \<and> place st F cs a + object_bytes st a \<le> F + space_of st cs"
proof (induction cs arbitrary: F)
  case (Cons c cs)
  show ?case
  proof (cases "a = c")
    case False
    then have "a \<in> set cs" using Cons.prems by simp
    from Cons.IH [OF this, of "F + object_bytes st c"] show ?thesis
      using False by simp
  qed simp
qed simp

lemma place_append:
  "place st F (cs @ ds) a = (if a \<in> set cs then place st F cs a else place st (F + space_of st cs) ds a)"
  by (induction cs arbitrary: F) (auto simp: add.assoc)

lemma place_nth:
  assumes "distinct cs" "k < length cs"
  shows "place st F cs (cs ! k) = F + space_of st (take k cs)"
proof -
  have "cs = take k cs @ cs ! k # drop (Suc k) cs" using assms(2) by (rule id_take_nth_drop)
  then have "place st F cs (cs ! k) = place st F (take k cs @ cs ! k # drop (Suc k) cs) (cs ! k)"
    by simp
  moreover have "cs ! k \<notin> set (take k cs)"
    using assms by (auto simp: in_set_conv_nth nth_eq_iff_index_eq)
  ultimately show ?thesis by (simp add: place_append)
qed

lemma space_of_subset:
  assumes "distinct cs" "distinct as" "set cs \<subseteq> set as"
  shows "space_of st cs \<le> space_of st as"
proof -
  have "space_of st cs = sum (object_bytes st) (set cs)" "space_of st as = sum (object_bytes st) (set as)"
    using assms(1,2) by (simp_all add: space_of_def sum_list_distinct_conv_sum_set)
  then show ?thesis using assms(3) by (simp add: sum_mono2)
qed

lemma GetTotalSize_bound: "unat (GetTotalSize h) = 16 + unat (GetObjectSize h)"
  "unat (GetObjectSize h) < 2 ^ 32"
proof -
  have "GetSize t = take_bit 32 (GetSize t)" for t
    unfolding GetSize_def field_decode_def
    by (rule bit_word_eqI) (simp add: bit_bf_decode bit_simps)
  then have "unat (GetObjectSize h) = unat (take_bit 32 (GetObjectSize h))"
    unfolding GetObjectSize_def by metis
  also have "\<dots> < 2 ^ 32" by (metis unsigned_take_bit_eq take_bit_nat_less_exp)
  finally show b: "unat (GetObjectSize h) < 2 ^ 32" .
  then show "unat (GetTotalSize h) = 16 + unat (GetObjectSize h)"
    unfolding GetTotalSize_def sizeof_Pointer_def by (subst unat_plus_small) simp_all
qed

lemma object_bytes_bound: "unmoved st a \<Longrightarrow> 16 \<le> object_bytes st a \<and> object_bytes st a < 2 ^ 33"
  using GetTotalSize_bound by (fastforce simp: unmoved_def object_bytes_def intro: order.strict_trans2)

lemma GetTotalSize_remembered [simp]:
  "GetTotalSize \<lparr>ptr_tag = SetRememberedBit b t, forwarding = f\<rparr> = GetTotalSize \<lparr>ptr_tag = t, forwarding = g\<rparr>"
  by (simp add: GetTotalSize_def GetObjectSize_def GetSize_def SetRememberedBit_def field_decode_update)

lemma objects_from_facts:
  assumes "objects_from st p as q"
  shows "q = p + space_of st as" "distinct as"
    "a \<in> set as \<Longrightarrow> unmoved st a \<and> p \<le> unat a \<and> unat a + object_bytes st a \<le> q"
proof -
  have "q = p + space_of st as \<and> distinct as \<and>
    (\<forall>a\<in>set as. unmoved st a \<and> p \<le> unat a \<and> unat a + object_bytes st a \<le> q)"
    using assms
  proof (induction st p as q rule: objects_from.induct)
    case (2 st p a as q)
    then have "16 \<le> object_bytes st a" using object_bytes_bound by auto
    then show ?case using 2 by fastforce
  qed simp
  then show "q = p + space_of st as" "distinct as"
    "a \<in> set as \<Longrightarrow> unmoved st a \<and> p \<le> unat a \<and> unat a + object_bytes st a \<le> q" by auto
qed

section \<open>A collection at work\<close>

text \<open>The state of a collection that started with \<open>st0\<close>: the headers, the objects and the
  two addresses have changed, nothing else.\<close>

definition busy :: "'b collection \<Rightarrow> headers \<Rightarrow> (uword \<rightharpoonup> 'b heap_object) \<Rightarrow> uword \<Rightarrow> uword \<Rightarrow>
    'b collection" where
  "busy st0 hs ob c n =
    st0\<lparr>co_heap := (co_heap st0)\<lparr>heap_new_zone := (co_zone st0)\<lparr>zone_headers := hs\<rparr>\<rparr>,
      co_objects := ob, curr_address := c, next_address := n\<rparr>"

lemma busy_simps [simp]:
  "co_zone (busy st0 hs ob c n) = (co_zone st0)\<lparr>zone_headers := hs\<rparr>"
  "co_objects (busy st0 hs ob c n) = ob"
  "co_classes (busy st0 hs ob c n) = co_classes st0"
  "co_modules (busy st0 hs ob c n) = co_modules st0"
  "co_scopes (busy st0 hs ob c n) = co_scopes st0"
  "co_runtime (busy st0 hs ob c n) = co_runtime st0"
  "curr_address (busy st0 hs ob c n) = c"
  "next_address (busy st0 hs ob c n) = n"
  "header_at (busy st0 hs ob c n) p = (case hs p of None \<Rightarrow> Inl UndefinedBehaviour | Some h \<Rightarrow> Inr h)"
  "object_at (busy st0 hs ob c n) p = (case ob p of None \<Rightarrow> Inl UndefinedBehaviour | Some x \<Rightarrow> Inr x)"
  "set_headers hs' (busy st0 hs ob c n) = busy st0 hs' ob c n"
  "write_header p h (busy st0 hs ob c n) = busy st0 (hs(p \<mapsto> h)) ob c n"
  "write_object p x (busy st0 hs ob c n) = busy st0 hs (ob(p \<mapsto> x)) c n"
  "(busy st0 hs ob c n)\<lparr>co_objects := ob'\<rparr> = busy st0 hs ob' c n"
  "(busy st0 hs ob c n)\<lparr>curr_address := c'\<rparr> = busy st0 hs ob c' n"
  "(busy st0 hs ob c n)\<lparr>next_address := n'\<rparr> = busy st0 hs ob c n'"
  by (simp_all add: busy_def co_zone_def header_at_def object_at_def set_headers_def set_zone_def
      write_header_def write_object_def)

lemma busy_same [simp]:
  "(busy st0 hs ob c n)\<lparr>co_classes := co_classes st0\<rparr> = busy st0 hs ob c n"
  "(busy st0 hs ob c n)\<lparr>co_modules := co_modules st0\<rparr> = busy st0 hs ob c n"
  "(busy st0 hs ob c n)\<lparr>co_scopes := co_scopes st0\<rparr> = busy st0 hs ob c n"
  by (cases st0; simp add: busy_def)+

text \<open>One object is copied to where the last copy ends.\<close>

lemma Process_busy:
  assumes "hs a = Some h" "ob a = Some x" "a \<noteq> 0" "GetObjectAddress a \<noteq> 0" "n \<noteq> 0" "n \<noteq> a"
    and "\<not> a - n < GetTotalSize h"
    and "n + GetTotalSize h < fromspace (co_zone st0) + semi_size (co_zone st0)"
  shows "Process a (busy st0 hs ob c n) =
    Inr (True, a, busy st0
      ((erase n (GetTotalSize h) hs)(n \<mapsto> \<lparr>ptr_tag = SetRememberedBit True (ptr_tag h), forwarding = 0\<rparr>,
         a \<mapsto> SetForwardingAddress n h))
      ((\<lambda>b. if b - n < GetTotalSize h then None else ob b)(n \<mapsto> x)) c (n + GetTotalSize h))"
  using assms
  by (simp add: Process_def CopyPointer_def Pointer_Copy_def Let_def erase_other not_le cong: if_cong)

text \<open>What the collection needs of the state it starts with, and what it keeps: the objects \<open>cs\<close>
  have been copied, in that order.\<close>

definition target :: "'b collection \<Rightarrow> uword list \<Rightarrow> nat \<Rightarrow> bool" where
  "target st0 as F \<longleftrightarrow> distinct as \<and> 0 < F \<and> fromspace (co_zone st0) = of_nat F \<and>
     F + unat (semi_size (co_zone st0)) < 2 ^ 62 \<and>
     space_of st0 as < unat (semi_size (co_zone st0)) \<and>
     (\<forall>a\<in>set as. unmoved st0 a \<and> 0 < unat a \<and> unat a + object_bytes st0 a < 2 ^ 62 \<and>
        (unat a + object_bytes st0 a \<le> F \<or> F + unat (semi_size (co_zone st0)) \<le> unat a))"

definition copied :: "'b collection \<Rightarrow> uword list \<Rightarrow> nat \<Rightarrow> uword list \<Rightarrow> headers \<Rightarrow>
    (uword \<rightharpoonup> 'b heap_object) \<Rightarrow> bool" where
  "copied st0 as F cs hs ob \<longleftrightarrow> distinct cs \<and> set cs \<subseteq> set as \<and>
     (\<forall>a\<in>set as. \<forall>h. zone_headers (co_zone st0) a = Some h \<longrightarrow> ob a = co_objects st0 a \<and>
        hs a = Some (if a \<in> set cs then SetForwardingAddress (moved st0 F cs a) h else h)) \<and>
     (\<forall>a\<in>set cs. \<forall>h. zone_headers (co_zone st0) a = Some h \<longrightarrow>
        ob (moved st0 F cs a) = co_objects st0 a \<and>
        hs (moved st0 F cs a) = Some \<lparr>ptr_tag = SetRememberedBit True (ptr_tag h), forwarding = 0\<rparr>)"

definition working :: "'b collection \<Rightarrow> uword list \<Rightarrow> nat \<Rightarrow> uword list \<Rightarrow> uword \<Rightarrow> 'b collection \<Rightarrow> bool" where
  "working st0 as F cs c st \<longleftrightarrow>
     (\<exists>hs ob. copied st0 as F cs hs ob \<and> st = busy st0 hs ob c (copy_end st0 F cs))"

lemma sub_in_block:
  assumes "a - n < (t :: uword)" "unat n + unat t < 2 ^ 64"
  shows "unat n \<le> unat a" "unat a < unat n + unat t"
proof -
  have u: "unat (a - n) < unat t" using assms(1) by (simp add: word_less_nat_alt)
  show "unat n \<le> unat a"
  proof (rule ccontr)
    assume "\<not> unat n \<le> unat a"
    then have "unat (a - n) = unat a + 2 ^ 64 - unat n"
      by (simp add: unat_sub_if' word_le_nat_alt)
    then show False using u assms(2) by linarith
  qed
  then have "unat (a - n) = unat a - unat n" by (simp add: unat_sub_if' word_le_nat_alt)
  then show "unat a < unat n + unat t" using u by linarith
qed

lemma target_room:
  assumes "target st0 as F" "distinct cs" "set cs \<subseteq> set as"
  shows "space_of st0 cs < unat (semi_size (co_zone st0))"
    "F + space_of st0 cs < 2 ^ 62" "unat (copy_end st0 F cs) = F + space_of st0 cs"
proof -
  show "space_of st0 cs < unat (semi_size (co_zone st0))"
    using assms space_of_subset [of cs as st0] by (simp add: target_def)
  then show "F + space_of st0 cs < 2 ^ 62" using assms(1) unfolding target_def by linarith
  then show "unat (copy_end st0 F cs) = F + space_of st0 cs"
    unfolding copy_end_def by (simp add: unat_of_nat del: of_nat_add)
qed

lemma unat_moved:
  assumes "target st0 as F" "distinct cs" "set cs \<subseteq> set as" "a \<in> set cs"
  shows "unat (moved st0 F cs a) = place st0 F cs a" "moved st0 F cs a \<noteq> 0"
proof -
  have p: "F \<le> place st0 F cs a" "place st0 F cs a < 2 ^ 62"
    using place_interval [OF assms(4), of F st0] target_room(2) [OF assms(1-3)] by linarith+
  then show u: "unat (moved st0 F cs a) = place st0 F cs a"
    unfolding moved_def by (simp add: unat_of_nat)
  show "moved st0 F cs a \<noteq> 0"
  proof
    assume "moved st0 F cs a = 0"
    then have "place st0 F cs a = 0" using u by simp
    then show False using p(1) assms(1) by (simp add: target_def)
  qed
qed

lemma moved_append:
  "a \<in> set cs \<Longrightarrow> moved st F (cs @ ds) a = moved st F cs a"
  "a \<notin> set cs \<Longrightarrow> moved st F (cs @ [a]) a = copy_end st F cs"
  by (simp_all add: moved_def copy_end_def place_append)

lemma copy_end_snoc:
  assumes "zone_headers (co_zone st) a = Some h"
  shows "copy_end st F (cs @ [a]) = copy_end st F cs + GetTotalSize h"
  using assms by (simp add: copy_end_def object_bytes_def)

text \<open>The block the next copy goes to: it ends below the end of the semispace, no object that
  waits to be copied and no copy has its header in it.\<close>

definition block_free :: "'b collection \<Rightarrow> uword list \<Rightarrow> nat \<Rightarrow> uword list \<Rightarrow> uword \<Rightarrow> bool" where
  "block_free st0 as F cs T \<longleftrightarrow> (let n = copy_end st0 F cs in
     n \<noteq> 0 \<and> 0 < T \<and> n + T < fromspace (co_zone st0) + semi_size (co_zone st0) \<and>
     (\<forall>b\<in>set as. \<not> b - n < T) \<and>
     (\<forall>b\<in>set cs. \<not> moved st0 F cs b - n < T \<and> moved st0 F cs b \<notin> set as))"

lemma target_objects:
  assumes "target st0 as F" "a \<in> set as"
  shows "unmoved st0 a" "0 < unat a" "unat a + object_bytes st0 a < 2 ^ 62" "16 \<le> object_bytes st0 a"
    "unat a + object_bytes st0 a \<le> F \<or> F + unat (semi_size (co_zone st0)) \<le> unat a"
    "a \<noteq> 0" "GetObjectAddress a \<noteq> 0"
proof -
  show u: "unmoved st0 a" "0 < unat a" "unat a + object_bytes st0 a < 2 ^ 62"
    "unat a + object_bytes st0 a \<le> F \<or> F + unat (semi_size (co_zone st0)) \<le> unat a"
    using assms by (simp_all add: target_def)
  show "16 \<le> object_bytes st0 a" using object_bytes_bound [OF u(1)] by simp
  show "a \<noteq> 0" using u(2) by auto
  show "GetObjectAddress a \<noteq> 0"
  proof
    assume "GetObjectAddress a = 0"
    then have "unat (a + 16) = 0" by (simp add: GetObjectAddress_def sizeof_Pointer_def)
    then show False using u(3) by (subst (asm) unat_plus_small) simp_all
  qed
qed

lemma copies_apart:
  assumes t: "target st0 as F" and cs: "distinct cs" "set cs \<subseteq> set as" and b: "b \<in> set cs" and a: "a \<in> set as"
  shows "moved st0 F cs b \<noteq> a"
proof
  assume "moved st0 F cs b = a"
  then have "unat a = place st0 F cs b" using unat_moved(1) [OF t cs b] by simp
  moreover have "F \<le> place st0 F cs b" "place st0 F cs b + object_bytes st0 b \<le> F + space_of st0 cs"
    using place_interval [OF b, of F st0] by simp_all
  ultimately show False
    using target_objects(4) [OF t, of b] target_objects(4,5) [OF t a] target_room(1) [OF t cs] b cs(2)
    by (auto simp: subset_iff)
qed

lemma next_block:
  assumes t: "target st0 as F" and cs: "distinct cs" "set cs \<subseteq> set as" and a: "a \<in> set as" "a \<notin> set cs"
    and h: "zone_headers (co_zone st0) a = Some h"
  shows "block_free st0 as F cs (GetTotalSize h)"
proof -
  define n where "n = copy_end st0 F cs"
  define T where "T = GetTotalSize h"
  have ob: "object_bytes st0 a = unat T" using h by (simp add: object_bytes_def T_def)
  have F: "0 < F" "F + unat (semi_size (co_zone st0)) < 2 ^ 62" "fromspace (co_zone st0) = of_nat F"
    using t by (simp_all add: target_def)
  have n: "unat n = F + space_of st0 cs" using target_room(3) [OF t cs] by (simp add: n_def)
  have nT: "unat n + unat T < F + unat (semi_size (co_zone st0))"
    using target_room(1) [OF t, of "cs @ [a]"] cs a n ob by simp
  then have s: "unat n + unat T < 2 ^ 62" using F(2) by linarith
  have block: "b - n < T \<Longrightarrow> unat n \<le> unat b \<and> unat b < unat n + unat T" for b
    using sub_in_block [of b n T] s by simp
  have "n \<noteq> 0" using n F(1) by (metis add_is_0 less_numeral_extra(3) unat_0)
  moreover have "0 < T" using target_objects(4) [OF t a(1)] ob by (auto simp: word_gt_0)
  moreover have "n + T < fromspace (co_zone st0) + semi_size (co_zone st0)"
  proof -
    have "unat (n + T) = unat n + unat T" using s by (intro unat_plus_small) simp
    moreover have "unat (of_nat F :: uword) = F" using F by (simp add: unat_of_nat)
    then have "unat (fromspace (co_zone st0) + semi_size (co_zone st0)) = F + unat (semi_size (co_zone st0))"
      using F by (subst unat_plus_small) simp_all
    ultimately show ?thesis using nT by (simp add: word_less_nat_alt)
  qed
  moreover have "\<not> b - n < T" if b: "b \<in> set as" for b
    using block [of b] target_objects(4,5) [OF t b] n nT by fastforce
  moreover have "\<not> moved st0 F cs b - n < T" if b: "b \<in> set cs" for b
  proof
    assume "moved st0 F cs b - n < T"
    from block [OF this] have "unat n \<le> place st0 F cs b" using unat_moved(1) [OF t cs b] by simp
    moreover have "16 \<le> object_bytes st0 b" using target_objects(4) [OF t] cs(2) b by blast
    ultimately show False using place_interval [OF b, of F st0] n by linarith
  qed
  moreover have "moved st0 F cs b \<notin> set as" if "b \<in> set cs" for b
    using copies_apart [OF t cs that] by blast
  ultimately show ?thesis by (simp add: block_free_def Let_def n_def T_def)
qed

lemma copied_step:
  assumes cp: "copied st0 as F cs hs ob" and a: "a \<in> set as" "a \<notin> set cs"
    and h: "zone_headers (co_zone st0) a = Some h" "co_objects st0 a = Some x"
    and free: "block_free st0 as F cs (GetTotalSize h)"
    and n: "n = copy_end st0 F cs"
  shows "copied st0 as F (cs @ [a])
    ((erase n (GetTotalSize h) hs)(n \<mapsto> \<lparr>ptr_tag = SetRememberedBit True (ptr_tag h), forwarding = 0\<rparr>,
       a \<mapsto> SetForwardingAddress n h))
    ((\<lambda>b. if b - n < GetTotalSize h then None else ob b)(n \<mapsto> x))"
    (is "copied st0 as F _ ?hs ?ob")
proof -
  have out: "\<not> b - n < GetTotalSize h" "b \<noteq> n" if "b \<in> set as" for b
    using free that by (auto simp: block_free_def Let_def n)
  have old: "\<not> moved st0 F cs b - n < GetTotalSize h" "moved st0 F cs b \<noteq> n" "moved st0 F cs b \<noteq> a"
    if "b \<in> set cs" for b
    using free that a(1) by (auto simp: block_free_def Let_def n)
  have here: "moved st0 F (cs @ [a]) a = n" using a by (simp add: moved_append n)
  show ?thesis
    unfolding copied_def
  proof (intro conjI ballI allI impI)
    show "distinct (cs @ [a])" "set (cs @ [a]) \<subseteq> set as" using cp a by (simp_all add: copied_def)
  next
    fix b k assume b: "b \<in> set as" "zone_headers (co_zone st0) b = Some k"
    show "?ob b = co_objects st0 b" using cp b out [OF b(1)] by (simp add: copied_def)
    show "?hs b = Some (if b \<in> set (cs @ [a]) then SetForwardingAddress (moved st0 F (cs @ [a]) b) k else k)"
    proof (cases "b = a")
      case False
      then have "?hs b = hs b" using out [OF b(1)] by (simp add: erase_other)
      then show ?thesis using cp b False by (simp add: copied_def moved_append)
    qed (use b h here in simp)
  next
    fix b k assume b: "b \<in> set (cs @ [a])" "zone_headers (co_zone st0) b = Some k"
    show "?ob (moved st0 F (cs @ [a]) b) = co_objects st0 b"
      using cp b old [of b] h here by (cases "b = a") (auto simp: copied_def moved_append)
    show "?hs (moved st0 F (cs @ [a]) b) = Some \<lparr>ptr_tag = SetRememberedBit True (ptr_tag k), forwarding = 0\<rparr>"
    proof (cases "b = a")
      case False
      then have bc: "b \<in> set cs" using b(1) by simp
      then have "?hs (moved st0 F cs b) = hs (moved st0 F cs b)"
        using old [OF bc] by (simp add: erase_other)
      then show ?thesis using cp bc b(2) by (simp add: copied_def moved_append)
    qed (use b h here out(2) [OF a(1)] in simp)
  qed
qed

lemma Process_working:
  assumes t: "target st0 as F" and w: "working st0 as F cs c st" and a: "a \<in> set as" "a \<notin> set cs"
  shows "\<exists>st'. Process a st = Inr (True, a, st') \<and> working st0 as F (cs @ [a]) c st'"
proof -
  define n where "n = copy_end st0 F cs"
  obtain hs ob where cp: "copied st0 as F cs hs ob" and st: "st = busy st0 hs ob c n"
    using w unfolding working_def n_def by blast
  have cs: "distinct cs" "set cs \<subseteq> set as" using cp by (simp_all add: copied_def)
  obtain h x where h: "zone_headers (co_zone st0) a = Some h" "co_objects st0 a = Some x"
    using target_objects(1) [OF t a(1)] by (auto simp: unmoved_def)
  have free: "block_free st0 as F cs (GetTotalSize h)" by (rule next_block [OF t cs a h(1)])
  then have "n \<noteq> 0" "0 < GetTotalSize h" "\<not> a - n < GetTotalSize h"
    "n + GetTotalSize h < fromspace (co_zone st0) + semi_size (co_zone st0)"
    using a(1) by (auto simp: block_free_def Let_def n_def)
  moreover from this have "n \<noteq> a" by auto
  moreover have "hs a = Some h" "ob a = Some x" using cp a h by (simp_all add: copied_def)
  moreover note target_objects(6,7) [OF t a(1)]
  ultimately have p: "Process a st = Inr (True, a, busy st0
      ((erase n (GetTotalSize h) hs)(n \<mapsto> \<lparr>ptr_tag = SetRememberedBit True (ptr_tag h), forwarding = 0\<rparr>,
         a \<mapsto> SetForwardingAddress n h))
      ((\<lambda>b. if b - n < GetTotalSize h then None else ob b)(n \<mapsto> x)) c (n + GetTotalSize h))"
    unfolding st by (intro Process_busy)
  have "n + GetTotalSize h = copy_end st0 F (cs @ [a])" using copy_end_snoc [OF h(1)] by (simp add: n_def)
  then show ?thesis
    using p copied_step [OF cp a h free n_def] unfolding working_def by auto
qed

section \<open>Visiting\<close>

text \<open>The pointers \<open>ps\<close> have been shown to the collector: those that had not been copied are now.\<close>

definition widened :: "'b collection \<Rightarrow> uword list \<Rightarrow> nat \<Rightarrow> uword \<Rightarrow> uword list \<Rightarrow> uword list \<Rightarrow>
    uword list \<Rightarrow> 'b collection \<Rightarrow> bool" where
  "widened st0 as F c cs ps cs2 st2 \<longleftrightarrow> working st0 as F cs2 c st2 \<and> (\<exists>cs'. cs2 = cs @ cs') \<and>
     set ps \<subseteq> set cs2 \<and> set cs2 \<subseteq> set cs \<union> set ps"

lemma widened_trans:
  "widened st0 as F c cs ps cs2 st2 \<Longrightarrow> widened st0 as F c cs2 qs cs3 st3 \<Longrightarrow>
     widened st0 as F c cs (ps @ qs) cs3 st3"
  by (auto simp: widened_def)

lemma widened_refl: "working st0 as F cs c st \<Longrightarrow> widened st0 as F c cs [] cs st"
  by (auto simp: widened_def)

lemma working_scopes: "working st0 as F cs c st \<Longrightarrow> co_scopes st = co_scopes st0"
  by (auto simp: working_def)

lemma working_same_scopes [simp]:
  "working st0 as F cs c st \<Longrightarrow> st\<lparr>co_scopes := co_scopes st0\<rparr> = st"
  by (auto simp: working_def)

lemma Visit_working:
  assumes t: "target st0 as F" and w: "working st0 as F cs c st" and a: "a \<in> set as"
  shows "\<exists>cs2 st2. Collector_Visit a st = Inr (True, a, st2) \<and> widened st0 as F c cs [a] cs2 st2"
proof -
  obtain hs ob where cp: "copied st0 as F cs hs ob" and st: "st = busy st0 hs ob c (copy_end st0 F cs)"
    using w unfolding working_def by blast
  obtain h where h: "zone_headers (co_zone st0) a = Some h" "\<not> IsForwarding h"
    using target_objects(1) [OF t a] by (auto simp: unmoved_def)
  have hs: "hs a = Some (if a \<in> set cs then SetForwardingAddress (moved st0 F cs a) h else h)"
    using cp a h by (simp add: copied_def)
  show ?thesis
  proof (cases "a \<in> set cs")
    case True
    then have "moved st0 F cs a \<noteq> 0" using unat_moved(2) [OF t] cp by (simp add: copied_def)
    then have "Collector_Visit a st = Inr (True, a, st)"
      using hs True target_objects(6) [OF t a]
      by (simp add: Collector_Visit_def st IsForwarding_def SetForwardingAddress_def)
    then show ?thesis using w True by (auto simp: widened_def)
  next
    case False
    obtain st' where "Process a st = Inr (True, a, st')" "working st0 as F (cs @ [a]) c st'"
      using Process_working [OF t w a False] by blast
    then have "Collector_Visit a st = Inr (True, a, st') \<and> widened st0 as F c cs [a] (cs @ [a]) st'"
      using hs h False target_objects(6) [OF t a] by (auto simp: Collector_Visit_def st widened_def)
    then show ?thesis by blast
  qed
qed

lemma visit_local_pointers_working:
  assumes t: "target st0 as F"
  shows "working st0 as F cs c st \<Longrightarrow> \<forall>l\<in>set ls. lv_map (co_scopes st0) l \<noteq> None \<Longrightarrow>
    (\<lambda>l. lv_ptr (the (lv_map (co_scopes st0) l))) ` set ls \<subseteq> set as \<Longrightarrow>
    \<exists>cs2 st2. visit_local_pointers Collector_Visit ls st = Inr (True, st2) \<and>
      widened st0 as F c cs (map (\<lambda>l. lv_ptr (the (lv_map (co_scopes st0) l))) ls) cs2 st2"
proof (induction ls arbitrary: cs st)
  case Nil
  then show ?case using widened_refl [OF Nil(1)] by auto
next
  case (Cons l ls)
  obtain v where v: "lv_map (co_scopes st0) l = Some v" using Cons.prems(2) by auto
  have va: "lv_ptr v \<in> set as" using Cons.prems(3) v by auto
  obtain cs1 st1 where 1: "Collector_Visit (lv_ptr v) st = Inr (True, lv_ptr v, st1)"
    "widened st0 as F c cs [lv_ptr v] cs1 st1" using Visit_working [OF t Cons.prems(1) va] by blast
  have w1: "working st0 as F cs1 c st1" using 1(2) by (simp add: widened_def)
  have keep: "upd_local l v (co_scopes st0) = co_scopes st0"
    using v by (simp add: upd_local_def map_upd_triv)
  obtain cs2 st2 where 2: "visit_local_pointers Collector_Visit ls st1 = Inr (True, st2)"
    "widened st0 as F c cs1 (map (\<lambda>l. lv_ptr (the (lv_map (co_scopes st0) l))) ls) cs2 st2"
    using Cons.IH [OF w1] Cons.prems(2,3) by auto
  have "visit_local_pointers Collector_Visit (l # ls) st = Inr (True, st2)"
    using 1(1) 2(1) v working_scopes [OF Cons.prems(1)] working_scopes [OF w1] w1
    by (simp add: get_local_def keep Let_def)
  then show ?case using widened_trans [OF 1(2) 2(2)] v by auto
qed

lemma visit_locals_all: "visit_locals (\<lambda>l. True) ls = (ls, True)"
  by (induction ls) simp_all

lemma VisitLocalPointers_working:
  assumes t: "target st0 as F"
  shows "working st0 as F cs c st \<Longrightarrow>
    VisitLocals_from fuel (co_scopes st0) (\<lambda>l. True) True i = Inr (ls, ok) \<Longrightarrow>
    \<forall>l\<in>set ls. lv_map (co_scopes st0) l \<noteq> None \<Longrightarrow>
    (\<lambda>l. lv_ptr (the (lv_map (co_scopes st0) l))) ` set ls \<subseteq> set as \<Longrightarrow>
    \<exists>cs2 st2. VisitLocalPointers_from fuel Collector_Visit True i st = Inr (True, st2) \<and>
      widened st0 as F c cs (map (\<lambda>l. lv_ptr (the (lv_map (co_scopes st0) l))) ls) cs2 st2"
proof (induction fuel arbitrary: i ls cs st)
  case 0
  then obtain s where s: "get_scope (co_scopes st0) i = Inr s" "sc_parent s = None" "ls = sc_locals s"
    by (subst (asm) VisitLocals_from.simps)
      (auto simp: visit_locals_all res_elims split: option.splits)
  then show ?case
    using visit_local_pointers_working [OF t 0(1) 0(3,4)] working_scopes [OF 0(1)]
    by (subst VisitLocalPointers_from.simps) auto
next
  case (Suc k)
  obtain s where s: "get_scope (co_scopes st0) i = Inr s"
    using Suc.prems(2) by (subst (asm) VisitLocals_from.simps) (auto simp: res_elims)
  show ?case
  proof (cases "sc_parent s")
    case None
    then have "ls = sc_locals s" using Suc.prems(2) s
      by (subst (asm) VisitLocals_from.simps) (simp add: visit_locals_all)
    then show ?thesis
      using visit_local_pointers_working [OF t Suc.prems(1,3,4)] working_scopes [OF Suc.prems(1)] s None
      by (subst VisitLocalPointers_from.simps) auto
  next
    case (Some p)
    obtain ls' where ls': "VisitLocals_from k (co_scopes st0) (\<lambda>l. True) True p = Inr (ls', ok)"
      "ls = sc_locals s @ ls'"
      using Suc.prems(2) s Some
      by (subst (asm) VisitLocals_from.simps) (auto simp: visit_locals_all res_elims)
    obtain cs1 st1 where 1: "visit_local_pointers Collector_Visit (sc_locals s) st = Inr (True, st1)"
      "widened st0 as F c cs (map (\<lambda>l. lv_ptr (the (lv_map (co_scopes st0) l))) (sc_locals s)) cs1 st1"
      using visit_local_pointers_working [OF t Suc.prems(1), of "sc_locals s"] Suc.prems(3,4) ls'(2)
      by (auto simp: image_Un)
    have w1: "working st0 as F cs1 c st1" using 1(2) by (simp add: widened_def)
    obtain cs2 st2 where 2: "VisitLocalPointers_from k Collector_Visit True p st1 = Inr (True, st2)"
      "widened st0 as F c cs1 (map (\<lambda>l. lv_ptr (the (lv_map (co_scopes st0) l))) ls') cs2 st2"
      using Suc.IH [OF w1 ls'(1)] Suc.prems(3,4) ls'(2) by (auto simp: image_Un)
    have "VisitLocalPointers_from (Suc k) Collector_Visit True i st = Inr (True, st2)"
      using 1(1) 2(1) s Some working_scopes [OF Suc.prems(1)]
      by (subst VisitLocalPointers_from.simps) simp
    then show ?thesis using widened_trans [OF 1(2) 2(2)] ls'(2) by auto
  qed
qed

lemma visit_namespaces_working:
  assumes t: "target st0 as F"
  shows "working st0 as F cs c st \<Longrightarrow> raw_ptr ` set nss \<subseteq> set as \<Longrightarrow>
    \<exists>cs2 st2. visit_namespaces Collector_Visit nss st = Inr (True, nss, st2) \<and>
      widened st0 as F c cs (map raw_ptr nss) cs2 st2"
proof (induction nss arbitrary: cs st)
  case Nil
  then show ?case using widened_refl [OF Nil(1)] by auto
next
  case (Cons ns nss)
  obtain cs1 st1 where 1: "Collector_Visit (raw_ptr ns) st = Inr (True, raw_ptr ns, st1)"
    "widened st0 as F c cs [raw_ptr ns] cs1 st1"
    using Visit_working [OF t Cons.prems(1), of "raw_ptr ns"] Cons.prems(2) by auto
  then obtain cs2 st2 where 2: "visit_namespaces Collector_Visit nss st1 = Inr (True, nss, st2)"
    "widened st0 as F c cs1 (map raw_ptr nss) cs2 st2"
    using Cons.IH [of cs1 st1] Cons.prems(2) by (auto simp: widened_def)
  have "visit_namespaces Collector_Visit (ns # nss) st = Inr (True, ns # nss, st2)"
    using 1(1) 2(1) by (simp add: GetObjectAddress_def raw_ptr_def)
  then show ?case using widened_trans [OF 1(2) 2(2)] by auto
qed

lemma VisitPointers_working:
  assumes t: "target st0 as F" and w: "working st0 as F cs c st" and x: "whole_object st0 as x"
  shows "\<exists>cs2 st2. object_VisitPointers Collector_Visit x st = Inr (True, x, st2) \<and>
    widened st0 as F c cs (pointers_of st0 x) cs2 st2"
proof (cases x)
  case (ErrorObject m b)
  then show ?thesis using Visit_working [OF t w, of m] x by (auto simp: whole_object_def)
next
  case (ModuleObject n i nss b)
  obtain ls ok where ls: "VisitLocals_from i (co_scopes st0) (\<lambda>l. True) True i = Inr (ls, ok)"
    "\<forall>l\<in>set ls. lv_map (co_scopes st0) l \<noteq> None"
    using x ModuleObject
    by (auto simp: whole_object_def whole_scope_def VisitLocals_def list_all_iff split: sum.splits)
  define ps where "ps = map (\<lambda>l. lv_ptr (the (lv_map (co_scopes st0) l))) ls"
  have ps: "local_pointers st0 i = ps" using ls(1) by (simp add: local_pointers_def VisitLocals_def ps_def)
  have sub: "raw_ptr n \<in> set as" "set ps \<subseteq> set as" "raw_ptr ` set nss \<subseteq> set as"
    using x ModuleObject ps by (auto simp: whole_object_def)
  obtain cs1 st1 where 1: "Collector_Visit (raw_ptr n) st = Inr (True, raw_ptr n, st1)"
    "widened st0 as F c cs [raw_ptr n] cs1 st1" using Visit_working [OF t w sub(1)] by blast
  then have w1: "working st0 as F cs1 c st1" by (simp add: widened_def)
  obtain cs2 st2 where 2: "VisitLocalPointers_from i Collector_Visit True i st1 = Inr (True, st2)"
    "widened st0 as F c cs1 ps cs2 st2"
    using VisitLocalPointers_working [OF t w1 ls] sub(2) by (auto simp: ps_def)
  then have w2: "working st0 as F cs2 c st2" by (simp add: widened_def)
  obtain cs3 st3 where 3: "visit_namespaces Collector_Visit nss st2 = Inr (True, nss, st3)"
    "widened st0 as F c cs2 (map raw_ptr nss) cs3 st3"
    using visit_namespaces_working [OF t w2 sub(3)] by blast
  have "object_VisitPointers Collector_Visit x st = Inr (True, x, st3)"
    using 1(1) 2(1) 3(1) ModuleObject
    by (simp add: Module_VisitPointers_def VisitLocalPointers_def GetObjectAddress_def raw_ptr_def Let_def)
  then show ?thesis
    using widened_trans [OF widened_trans [OF 1(2) 2(2)] 3(2)] ModuleObject ps by auto
qed (use widened_refl [OF w] in auto)

section \<open>The roots and the scan\<close>

lemma visit_roots_Process:
  assumes t: "target st0 as F"
  shows "working st0 as F cs c st \<Longrightarrow> distinct (cs @ ps) \<Longrightarrow> set ps \<subseteq> set as \<Longrightarrow>
    \<exists>st'. visit_roots Process ps st = Inr (True, ps, st') \<and> working st0 as F (cs @ ps) c st'"
proof (induction ps arbitrary: cs st)
  case (Cons p ps)
  have p: "p \<in> set as" "p \<notin> set cs" using Cons.prems by auto
  obtain st1 where 1: "Process p st = Inr (True, p, st1)" "working st0 as F (cs @ [p]) c st1"
    using Process_working [OF t Cons.prems(1) p] by blast
  then obtain st2 where "visit_roots Process ps st1 = Inr (True, ps, st2)"
    "working st0 as F ((cs @ [p]) @ ps) c st2" using Cons.IH [OF 1(2)] Cons.prems by auto
  then show ?case using 1(1) target_objects(6,7) [OF t p(1)] by simp
qed simp

lemma working_fields:
  assumes "working st0 as F cs c st"
  shows "curr_address st = c" "next_address st = copy_end st0 F cs" "co_runtime st = co_runtime st0"
    "co_classes st = co_classes st0" "co_modules st = co_modules st0" "distinct cs" "set cs \<subseteq> set as"
    "st\<lparr>co_classes := co_classes st0\<rparr> = st" "st\<lparr>co_modules := co_modules st0\<rparr> = st"
    "semi_size (co_zone st) = semi_size (co_zone st0)"
  using assms by (auto simp: working_def copied_def)

lemma working_curr: "working st0 as F cs c st \<Longrightarrow> working st0 as F cs c' (st\<lparr>curr_address := c'\<rparr>)"
  unfolding working_def using busy_simps(15) by metis

lemma ProcessRoots_working:
  assumes t: "target st0 as F" and w: "working st0 as F [] c st"
    and "co_runtime st0" "distinct (co_roots st0)" "set (co_roots st0) \<subseteq> set as"
  shows "\<exists>st'. ProcessRoots st = Inr st' \<and> working st0 as F (co_roots st0) c st'"
proof -
  obtain st1 where 1: "visit_roots Process (co_classes st0) st = Inr (True, co_classes st0, st1)"
    "working st0 as F (co_classes st0) c st1"
    using visit_roots_Process [OF t w, of "co_classes st0"] assms(4,5) by (auto simp: co_roots_def)
  obtain st2 where 2: "visit_roots Process (co_modules st0) st1 = Inr (True, co_modules st0, st2)"
    "working st0 as F (co_roots st0) c st2"
    using visit_roots_Process [OF t 1(2), of "co_modules st0"] assms(4,5) by (auto simp: co_roots_def)
  have "VisitRoots Process st = Inr (True, st2)"
    using 1(1) 2(1) assms(3)
    by (simp add: VisitRoots_def VisitClassPointers_def VisitModulePointers_def working_fields [OF w]
        working_fields [OF 1(2)] working_fields [OF 2(2)])
  then show ?thesis using 2(2) by (simp add: ProcessRoots_def)
qed

lemma working_copy:
  assumes t: "target st0 as F" and w: "working st0 as F cs c st" and a: "a \<in> set cs"
    and h: "zone_headers (co_zone st0) a = Some h" "co_objects st0 a = Some x"
  shows "header_at st (moved st0 F cs a) = Inr \<lparr>ptr_tag = SetRememberedBit True (ptr_tag h), forwarding = 0\<rparr>"
    "object_at st (moved st0 F cs a) = Inr x" "write_object (moved st0 F cs a) x st = st"
  using w a h by (auto simp: working_def copied_def map_upd_triv)

definition closed_under_pointers :: "'b collection \<Rightarrow> uword list \<Rightarrow> uword list \<Rightarrow> bool" where
  "closed_under_pointers st as cs \<longleftrightarrow>
     (\<forall>a\<in>set as. \<forall>x. co_objects st a = Some x \<longrightarrow> set (pointers_of st x) \<subseteq> set cs)"

lemma scan_step:
  assumes t: "target st0 as F"
    and whole: "\<forall>a\<in>set as. \<forall>x. co_objects st0 a = Some x \<longrightarrow> whole_object st0 as x"
    and wk: "working st0 as F cs (copy_end st0 F (take k cs)) st" and k: "k < length cs"
  shows "\<exists>cs1 st1 x. scan_loop (Suc fuel) st = scan_loop fuel st1 \<and>
    working st0 as F cs1 (copy_end st0 F (take (Suc k) cs1)) st1 \<and> (\<exists>cs'. cs1 = cs @ cs') \<and>
    co_objects st0 (cs ! k) = Some x \<and> set (pointers_of st0 x) \<subseteq> set cs1 \<and>
    set cs1 \<subseteq> set cs \<union> set (pointers_of st0 x)"
proof -
  note w = working_fields [OF wk]
  define a where "a = cs ! k"
  have a: "a \<in> set cs" "a \<in> set as" using k w(7) by (auto simp: a_def)
  have tk: "take (Suc k) cs = take k cs @ [a]" using k by (simp add: take_Suc_conv_app_nth a_def)
  obtain h x where h: "zone_headers (co_zone st0) a = Some h" "co_objects st0 a = Some x"
    using target_objects(1) [OF t a(2)] by (auto simp: unmoved_def)
  define p where "p = moved st0 F cs a"
  have p: "p = copy_end st0 F (take k cs)" "p \<noteq> 0"
    using place_nth [OF w(6) k, of st0 F] unat_moved(2) [OF t w(6,7) a(1)]
    by (simp_all add: p_def a_def moved_def copy_end_def)
  have "distinct (take k cs)" "set (take k cs) \<subseteq> set as"
    using w(6,7) set_take_subset [of k cs] by auto
  note room = target_room(3) [OF t this]
  have "space_of st0 (take (Suc k) cs) \<le> space_of st0 cs"
    using w(6) by (intro space_of_subset) (auto dest: in_set_takeD)
  then have less: "p < next_address st"
    using room target_room(3) [OF t w(6,7)] target_objects(4) [OF t a(2)]
    by (simp add: word_less_nat_alt w(2) p(1) tk)
  obtain cs1 st1 where 1: "object_VisitPointers Collector_Visit x st = Inr (True, x, st1)"
    "widened st0 as F p cs (pointers_of st0 x) cs1 st1"
    using VisitPointers_working [OF t, of cs p st x] whole a(2) h(2) wk p(1) by blast
  have w1: "working st0 as F cs1 p st1" and ext: "\<exists>cs'. cs1 = cs @ cs'"
    and cover: "set (pointers_of st0 x) \<subseteq> set cs1" "set cs1 \<subseteq> set cs \<union> set (pointers_of st0 x)"
    using 1(2) by (simp_all add: widened_def)
  have mv: "moved st0 F cs1 a = p" "a \<in> set cs1" "take (Suc k) cs1 = take k cs @ [a]"
    using ext a(1) k tk by (auto simp: p_def moved_append)
  have visit: "Pointer_VisitPointers Collector_Visit p st = Inr (True, st1)"
    using working_copy [OF t wk a(1) h] working_copy [OF t w1 mv(2) h] 1(1)
    by (simp add: Pointer_VisitPointers_def p_def [symmetric] mv(1))
  have hd: "header_at st1 p = Inr \<lparr>ptr_tag = SetRememberedBit True (ptr_tag h), forwarding = 0\<rparr>"
    using working_copy(1) [OF t w1 mv(2) h] mv(1) by simp
  have "GetTotalSize \<lparr>ptr_tag = SetRememberedBit True (ptr_tag h), forwarding = 0\<rparr> = GetTotalSize h"
    by (simp add: GetTotalSize_def GetObjectSize_def GetSize_def SetRememberedBit_def field_decode_update)
  then have "scan_loop (Suc fuel) st =
    scan_loop fuel (st1\<lparr>curr_address := copy_end st0 F (take (Suc k) cs1)\<rparr>)"
    using less visit hd p w(1) working_fields(1) [OF w1] copy_end_snoc [OF h(1), of F "take k cs"] mv(3)
    by (subst scan_loop.simps) (simp add: Let_def)
  then show ?thesis using working_curr [OF w1] ext cover h(2) a_def by blast
qed

lemma scan_working:
  assumes t: "target st0 as F"
    and whole: "\<forall>a\<in>set as. \<forall>x. co_objects st0 a = Some x \<longrightarrow> whole_object st0 as x"
  shows "working st0 as F cs (copy_end st0 F (take k cs)) st \<Longrightarrow> k \<le> length cs \<Longrightarrow>
    length as \<le> k + fuel \<Longrightarrow> closed_under_pointers st0 (take k cs) cs \<Longrightarrow>
    (\<forall>a\<in>set cs. reached st0 a) \<Longrightarrow>
    \<exists>cs2 st2. scan_loop fuel st = Inr (True, st2) \<and> working st0 as F cs2 (copy_end st0 F cs2) st2 \<and>
      set cs \<subseteq> set cs2 \<and> closed_under_pointers st0 cs2 cs2 \<and> (\<forall>a\<in>set cs2. reached st0 a)"
proof (induction "length as - k" arbitrary: fuel k cs st)
  case 0
  note w = working_fields [OF 0(2)]
  have "length cs \<le> length as"
    using w(6,7) t card_mono [OF finite_set w(7)] by (simp add: target_def distinct_card)
  then have k: "k = length cs" using 0 by simp
  then have "scan_loop fuel st = Inr (True, st)" using w(1,2) by (subst scan_loop.simps) simp
  then show ?case using 0 k by auto
next
  case (Suc m)
  note w = working_fields [OF Suc.prems(1)]
  show ?case
  proof (cases "k = length cs")
    case True
    then have "scan_loop fuel st = Inr (True, st)" using w(1,2) by (subst scan_loop.simps) simp
    then show ?thesis using Suc.prems True by auto
  next
    case False
    then have k: "k < length cs" using Suc.prems(2) by simp
    have "length cs \<le> length as"
      using w(6,7) t card_mono [OF finite_set w(7)] by (simp add: target_def distinct_card)
    then obtain f where f: "fuel = Suc f" using k Suc.prems(3) by (cases fuel) auto
    obtain cs1 st1 x where 1: "scan_loop (Suc f) st = scan_loop f st1"
      "working st0 as F cs1 (copy_end st0 F (take (Suc k) cs1)) st1"
      and ext: "\<exists>cs'. cs1 = cs @ cs'" and x: "co_objects st0 (cs ! k) = Some x"
      and cover: "set (pointers_of st0 x) \<subseteq> set cs1" "set cs1 \<subseteq> set cs \<union> set (pointers_of st0 x)"
      using scan_step [OF t whole Suc.prems(1) k, where fuel = f] by blast
    have tk: "take (Suc k) cs1 = take k cs @ [cs ! k]" using ext k by (auto simp: take_Suc_conv_app_nth)
    have "closed_under_pointers st0 (take (Suc k) cs1) cs1"
      unfolding closed_under_pointers_def tk
    proof (intro ballI allI impI)
      fix b y assume b: "b \<in> set (take k cs @ [cs ! k])" "co_objects st0 b = Some y"
      show "set (pointers_of st0 y) \<subseteq> set cs1"
      proof (cases "b = cs ! k")
        case False
        then have "set (pointers_of st0 y) \<subseteq> set cs"
          using Suc.prems(4) b by (simp add: closed_under_pointers_def)
        then show ?thesis using ext by auto
      qed (use b(2) x cover(1) in simp)
    qed
    moreover have "\<forall>b\<in>set cs1. reached st0 b"
      using cover(2) Suc.prems(5) reached.field [OF _ x] k by (meson UnE nth_mem subsetD)
    moreover have "m = length as - Suc k" "length as \<le> Suc k + f" using Suc(2) Suc.prems(3) f by simp_all
    moreover have "Suc k \<le> length cs1" using k ext by auto
    ultimately obtain cs2 st2 where 2: "scan_loop f st1 = Inr (True, st2)"
      "working st0 as F cs2 (copy_end st0 F cs2) st2" "set cs1 \<subseteq> set cs2"
      "closed_under_pointers st0 cs2 cs2" "\<forall>b\<in>set cs2. reached st0 b"
      using Suc.hyps(1) [OF _ 1(2)] by blast
    have "set cs \<subseteq> set cs2" using ext 2(3) by auto
    then show ?thesis using 1(1) f 2 by auto
  qed
qed

lemma closed_reached:
  assumes "set (co_roots st) \<subseteq> set cs" "closed_under_pointers st cs cs" "\<forall>a\<in>set cs. reached st a"
  shows "set cs = {a. reached st a}"
proof -
  have "reached st a \<Longrightarrow> a \<in> set cs" for a
  proof (induction rule: reached.induct)
    case (field a x b)
    then show ?case using assms(2) unfolding closed_under_pointers_def by blast
  qed (use assms(1) in blast)
  then show ?thesis using assms(3) by blast
qed

section \<open>The roots afterwards, and the whole collection\<close>

lemma visit_roots_Notifier:
  assumes t: "target st0 as F" and cs: "distinct cs" "set cs \<subseteq> set as"
    and hd: "\<And>a. a \<in> set cs \<Longrightarrow> \<exists>h. header_at st a = Inr h \<and> forwarding h = moved st0 F cs a"
  shows "set ps \<subseteq> set cs \<Longrightarrow> visit_roots Notifier_Visit ps st = Inr (True, map (moved st0 F cs) ps, st)"
proof (induction ps)
  case (Cons p ps)
  have p: "p \<in> set cs" "p \<in> set as" using Cons.prems cs by auto
  obtain h where "header_at st p = Inr h" "forwarding h = moved st0 F cs p" using hd [OF p(1)] by blast
  then have "Notifier_Visit p st = Inr (True, moved st0 F cs p, st)"
    using unat_moved(2) [OF t cs p(1)] target_objects(6) [OF t p(2)]
    by (simp add: Notifier_Visit_def IsForwarding_def)
  then show ?case using Cons target_objects(6,7) [OF t p(2)] by simp
qed simp

lemma working_forwarded:
  assumes t: "target st0 as F" and w: "working st0 as F cs c st" and a: "a \<in> set cs"
  shows "\<exists>h. header_at (st\<lparr>co_classes := ps\<rparr>) a = Inr h \<and> forwarding h = moved st0 F cs a"
proof -
  obtain hs ob where cp: "copied st0 as F cs hs ob" and st: "st = busy st0 hs ob c (copy_end st0 F cs)"
    using w unfolding working_def by blast
  have aas: "a \<in> set as" using cp a by (auto simp: copied_def)
  obtain h where h: "zone_headers (co_zone st0) a = Some h"
    using target_objects(1) [OF t aas] by (auto simp: unmoved_def)
  then have "hs a = Some (SetForwardingAddress (moved st0 F cs a) h)"
    using cp aas a by (simp add: copied_def)
  moreover have "header_at (st\<lparr>co_classes := ps\<rparr>) a = header_at st a"
    by (simp add: header_at_def co_zone_def)
  ultimately show ?thesis by (simp add: st SetForwardingAddress_def)
qed

lemma NotifyRoots_working:
  assumes t: "target st0 as F" and w: "working st0 as F cs c st"
    and "co_runtime st0" "set (co_roots st0) \<subseteq> set cs"
  shows "NotifyRoots st = Inr (st\<lparr>co_classes := map (moved st0 F cs) (co_classes st0),
    co_modules := map (moved st0 F cs) (co_modules st0)\<rparr>)"
proof -
  note f = working_fields [OF w]
  have "visit_roots Notifier_Visit (co_classes st0) st = Inr (True, map (moved st0 F cs) (co_classes st0), st)"
    using working_forwarded [OF t w, of _ "co_classes st0"] assms(4)
    by (intro visit_roots_Notifier [OF t f(6,7)]) (simp_all add: f co_roots_def)
  moreover have "visit_roots Notifier_Visit (co_modules st0) (st\<lparr>co_classes := ps\<rparr>) =
    Inr (True, map (moved st0 F cs) (co_modules st0), st\<lparr>co_classes := ps\<rparr>)" for ps
    using working_forwarded [OF t w, of _ ps] assms(4)
    by (intro visit_roots_Notifier [OF t f(6,7)]) (simp_all add: co_roots_def)
  ultimately show ?thesis
    using f assms(3) by (simp add: NotifyRoots_def VisitRoots_def VisitClassPointers_def VisitModulePointers_def)
qed

text \<open>A zone in use: two halves, the objects one after another in the from-space, the roots
  different objects among them, and with an object all that it points to.\<close>

definition two_halves :: "new_zone \<Rightarrow> bool" where
  "two_halves z \<longleftrightarrow> 0 < unat (r_start z) \<and> unat (r_start z) + unat (r_size z) < 2 ^ 62 \<and>
     unat (r_size z) = 2 * unat (semi_size z) \<and>
     (fromspace z = r_start z \<and> tospace z = r_start z + semi_size z \<or>
      tospace z = r_start z \<and> fromspace z = r_start z + semi_size z)"

definition ready :: "'b collection \<Rightarrow> uword list \<Rightarrow> bool" where
  "ready st as \<longleftrightarrow> co_runtime st \<and> distinct (co_roots st) \<and> set (co_roots st) \<subseteq> set as \<and>
     two_halves (co_zone st) \<and>
     objects_from st (unat (fromspace (co_zone st))) as (unat (r_current (co_zone st))) \<and>
     unat (r_current (co_zone st)) < unat (fromspace (co_zone st)) + unat (semi_size (co_zone st)) \<and>
     list_all (\<lambda>a. case co_objects st a of None \<Rightarrow> True | Some x \<Rightarrow> whole_object st as x) as"

definition flipped :: "'b collection \<Rightarrow> 'b collection" where
  "flipped st = (set_zone (SwapSpaces (co_zone st)) st)
     \<lparr>curr_address := tospace (co_zone st), next_address := tospace (co_zone st)\<rparr>"

lemma flipped_simps [simp]:
  "co_zone (flipped st) = SwapSpaces (co_zone st)" "co_objects (flipped st) = co_objects st"
  "co_classes (flipped st) = co_classes st" "co_modules (flipped st) = co_modules st"
  "co_scopes (flipped st) = co_scopes st" "co_runtime (flipped st) = co_runtime st"
  "curr_address (flipped st) = tospace (co_zone st)" "next_address (flipped st) = tospace (co_zone st)"
  "co_roots (flipped st) = co_roots st"
  "zone_headers (SwapSpaces z) = zone_headers z" "semi_size (SwapSpaces z) = semi_size z"
  "fromspace (SwapSpaces z) = tospace z" "tospace (SwapSpaces z) = fromspace z"
  "r_start (SwapSpaces z) = r_start z" "r_size (SwapSpaces z) = r_size z"
  by (simp_all add: flipped_def set_zone_def co_zone_def co_roots_def SwapSpaces_def)

lemma flipped_objects [simp]:
  "object_bytes (flipped st) = object_bytes st" "unmoved (flipped st) = unmoved st"
  "space_of (flipped st) = space_of st" "pointers_of (flipped st) x = pointers_of st x"
  "whole_object (flipped st) as x = whole_object st as x" "place (flipped st) F cs a = place st F cs a"
  "moved (flipped st) F cs a = moved st F cs a" "copy_end (flipped st) F cs = copy_end st F cs"
proof -
  show 1: "object_bytes (flipped st) = object_bytes st" "unmoved (flipped st) = unmoved st"
    by (simp_all add: object_bytes_def unmoved_def fun_eq_iff)
  show 2: "space_of (flipped st) = space_of st" by (rule ext) (simp add: space_of_def 1)
  show 3: "pointers_of (flipped st) x = pointers_of st x" for x
    by (cases x) (simp_all add: local_pointers_def split: sum.split prod.split)
  have "whole_scope (flipped st) = whole_scope st"
    by (rule ext) (simp add: whole_scope_def split: sum.split prod.split)
  then show "whole_object (flipped st) as x = whole_object st as x"
    by (simp add: whole_object_def 3 split: option.split)
  show 4: "place (flipped st) F cs a = place st F cs a" for F
    by (induction cs arbitrary: F) (simp_all add: 1)
  show "moved (flipped st) F cs a = moved st F cs a" "copy_end (flipped st) F cs = copy_end st F cs"
    by (simp_all add: moved_def copy_end_def 2 4)
qed

lemma flipped_reached [simp]: "reached (flipped st) a = reached st a"
proof
  show "reached (flipped st) a \<Longrightarrow> reached st a"
    by (induction rule: reached.induct) (auto intro: reached.intros)
  show "reached st a \<Longrightarrow> reached (flipped st) a"
  proof (induction rule: reached.induct)
    case (field a x b)
    then show ?case using reached.field [of "flipped st" a x b] by simp
  qed (simp add: reached.root)
qed

lemma ready_target:
  assumes "ready st as"
  shows "target (flipped st) as (unat (tospace (co_zone st)))"
    "unat (r_start (co_zone st)) \<le> unat (tospace (co_zone st))"
    "unat (tospace (co_zone st)) + unat (semi_size (co_zone st)) \<le>
      unat (r_start (co_zone st)) + unat (r_size (co_zone st))"
proof -
  define z where "z = co_zone st"
  have h: "0 < unat (r_start z)" "unat (r_start z) + 2 * unat (semi_size z) < 2 ^ 62"
    "unat (r_size z) = 2 * unat (semi_size z)"
    using assms by (simp_all add: ready_def two_halves_def z_def)
  have mid: "unat (r_start z + semi_size z) = unat (r_start z) + unat (semi_size z)"
    using h by (intro unat_plus_small) simp
  consider "unat (fromspace z) = unat (r_start z)" "unat (tospace z) = unat (r_start z) + unat (semi_size z)" |
    "unat (tospace z) = unat (r_start z)" "unat (fromspace z) = unat (r_start z) + unat (semi_size z)"
    using assms mid by (auto simp: ready_def two_halves_def z_def)
  note halves = this
  show "unat (r_start (co_zone st)) \<le> unat (tospace (co_zone st))"
    "unat (tospace (co_zone st)) + unat (semi_size (co_zone st)) \<le>
      unat (r_start (co_zone st)) + unat (r_size (co_zone st))"
    using halves h(3) by (cases; simp add: z_def)+
  have ob: "objects_from st (unat (fromspace z)) as (unat (r_current z))"
    and cur: "unat (r_current z) < unat (fromspace z) + unat (semi_size z)"
    using assms by (simp_all add: ready_def z_def)
  note f = objects_from_facts [OF ob]
  have "unmoved st a \<and> 0 < unat a \<and> unat a + object_bytes st a < 2 ^ 62 \<and>
    (unat a + object_bytes st a \<le> unat (tospace z) \<or> unat (tospace z) + unat (semi_size z) \<le> unat a)"
    if "a \<in> set as" for a
  proof -
    note g = f(3) [OF that]
    have "0 < unat a" using halves g h by (cases; linarith)
    moreover have "unat a + object_bytes st a < 2 ^ 62" using halves g h cur by (cases; linarith)
    moreover have "unat a + object_bytes st a \<le> unat (tospace z) \<or> unat (tospace z) + unat (semi_size z) \<le> unat a"
      using halves g h cur by (cases; linarith)
    ultimately show ?thesis using g by simp
  qed
  moreover have "space_of st as < unat (semi_size z)" using f(1) cur by linarith
  moreover have "0 < unat (tospace z)" "unat (tospace z) + unat (semi_size z) < 2 ^ 62"
    using halves h by (cases; simp)+
  ultimately show "target (flipped st) as (unat (tospace (co_zone st)))"
    using f(2) by (simp add: target_def z_def)
qed

text \<open>What \<open>Collect\<close> has done when it has copied \<open>cs\<close>.\<close>

definition collected :: "'b collection \<Rightarrow> uword list \<Rightarrow> 'b collection \<Rightarrow> bool" where
  "collected st cs st' \<longleftrightarrow>
     (let new = moved st (unat (tospace (co_zone st))) cs in
      distinct cs \<and> set cs = {a. reached st a} \<and>
      co_classes st' = map new (co_classes st) \<and> co_modules st' = map new (co_modules st) \<and>
      co_scopes st' = co_scopes st \<and> co_runtime st' = co_runtime st \<and> fromspace (co_zone st') = tospace (co_zone st) \<and>
      tospace (co_zone st') = fromspace (co_zone st) \<and>
      r_current (co_zone st') = tospace (co_zone st) + of_nat (space_of st cs) \<and>
      (\<forall>a\<in>set cs. object_at st' (new a) = object_at st a \<and>
         (\<exists>h. header_at st a = Inr h \<and>
            header_at st' (new a) = Inr \<lparr>ptr_tag = SetRememberedBit True (ptr_tag h), forwarding = 0\<rparr>)))"

lemma Collect_end:
  assumes r: "ready st as" and w: "working (flipped st) as (unat (tospace (co_zone st))) cs c st2"
  shows "SetCurrent (next_address st2) (co_zone st2) =
    Inr ((co_zone st2)\<lparr>r_current := copy_end st (unat (tospace (co_zone st))) cs\<rparr>)"
proof -
  note t = ready_target [OF r]
  note f = working_fields [OF w]
  have zone: "r_start (co_zone st2) = r_start (co_zone st)" "r_size (co_zone st2) = r_size (co_zone st)"
    using w by (auto simp: working_def)
  have room: "unat (copy_end st (unat (tospace (co_zone st))) cs) = unat (tospace (co_zone st)) + space_of st cs"
    "space_of st cs < unat (semi_size (co_zone st))"
    using target_room(1,3) [OF t(1) f(6,7)] by simp_all
  have "unat (r_start (co_zone st) + r_size (co_zone st)) = unat (r_start (co_zone st)) + unat (r_size (co_zone st))"
    using r by (intro unat_plus_small) (simp add: ready_def two_halves_def)
  then have "r_start (co_zone st) \<le> next_address st2 \<and> next_address st2 \<le> GetEndingAddress (co_zone st2)"
    using t(2,3) room by (simp add: GetEndingAddress_def zone word_le_nat_alt f(2))
  then show ?thesis by (simp add: SetCurrent_def zone(1) f(2))
qed

lemma ended_simps:
  "co_zone (st2\<lparr>co_classes := A, co_modules := B\<rparr>) = co_zone st2"
  "co_zone (set_zone z st) = z" "header_at (set_zone (z\<lparr>r_current := q\<rparr>) st) p = header_at (set_zone z st) p"
  "header_at (set_zone (co_zone st2) (st2\<lparr>co_classes := A, co_modules := B\<rparr>)) p = header_at st2 p"
  "object_at (set_zone z (st2\<lparr>co_classes := A, co_modules := B\<rparr>)) p = object_at st2 p"
  "co_classes (set_zone z st) = co_classes st" "co_modules (set_zone z st) = co_modules st"
  "co_scopes (set_zone z st) = co_scopes st" "co_runtime (set_zone z st) = co_runtime st"
  by (simp_all add: header_at_def object_at_def co_zone_def set_zone_def)

lemma collected_working:
  assumes r: "ready st as" and w: "working (flipped st) as (unat (tospace (co_zone st))) cs c st2"
    and set: "set cs = {a. reached st a}"
    and st3: "st3 = st2\<lparr>co_classes := map (moved st (unat (tospace (co_zone st))) cs) (co_classes st),
      co_modules := map (moved st (unat (tospace (co_zone st))) cs) (co_modules st)\<rparr>"
  shows "collected st cs
    (set_zone ((co_zone st3)\<lparr>r_current := copy_end st (unat (tospace (co_zone st))) cs\<rparr>) st3)"
proof -
  define F where "F = unat (tospace (co_zone st))"
  note t = ready_target(1) [OF r]
  note w2 = working_fields [OF w]
  have spaces: "fromspace (co_zone st2) = tospace (co_zone st)" "tospace (co_zone st2) = fromspace (co_zone st)"
    "co_scopes st2 = co_scopes st"
    using w by (auto simp: working_def)
  have copy: "object_at st2 (moved st F cs a) = object_at st a \<and> (\<exists>h. header_at st a = Inr h \<and>
      header_at st2 (moved st F cs a) = Inr \<lparr>ptr_tag = SetRememberedBit True (ptr_tag h), forwarding = 0\<rparr>)"
    if a: "a \<in> set cs" for a
  proof -
    have "unmoved (flipped st) a" using target_objects(1) [OF t] w2(7) a by blast
    then obtain h x where "zone_headers (co_zone (flipped st)) a = Some h" "co_objects (flipped st) a = Some x"
      by (auto simp: unmoved_def)
    then show ?thesis using working_copy(1,2) [OF t w a, of h x]
      by (simp add: header_at_def object_at_def F_def)
  qed
  show ?thesis
    using w2(3,6) spaces set copy
    by (simp add: collected_def Let_def F_def [symmetric] ended_simps copy_end_def st3)
      (simp add: F_def)
qed

lemma Collect_ready:
  assumes r: "ready st as"
  shows "\<exists>cs st'. Collect st = Inr st' \<and> set cs \<subseteq> set as \<and> collected st cs st'"
proof -
  define F where "F = unat (tospace (co_zone st))"
  define st0 where "st0 = flipped st"
  have t: "target st0 as F" using ready_target(1) [OF r] by (simp add: F_def st0_def)
  have F: "of_nat F = tospace (co_zone st)" by (simp add: F_def)
  have whole: "\<forall>a\<in>set as. \<forall>x. co_objects st0 a = Some x \<longrightarrow> whole_object st0 as x"
    using r by (auto simp: ready_def list_all_iff st0_def split: option.splits)
  have w0: "working st0 as F [] (tospace (co_zone st)) st0"
    by (auto simp: working_def copied_def busy_def copy_end_def F st0_def flipped_def set_zone_def
        co_zone_def SwapSpaces_def intro!: exI [of _ "zone_headers (co_zone st)"] exI [of _ "co_objects st"])
  obtain st1 where 1: "ProcessRoots st0 = Inr st1" "working st0 as F (co_roots st) (tospace (co_zone st)) st1"
    using ProcessRoots_working [OF t w0] r by (auto simp: ready_def st0_def)
  have start: "working st0 as F (co_roots st) (copy_end st0 F (take 0 (co_roots st))) st1"
    using 1(2) by (simp add: copy_end_def F)
  have "length as * 16 \<le> space_of st0 as"
    using target_objects(4) [OF t] sum_list_mono [of as "\<lambda>_. 16" "object_bytes st0"]
    by (simp add: space_of_def sum_list_triv)
  then have "length as \<le> 0 + unat (semi_size (co_zone st1))"
    using t working_fields(10) [OF 1(2)] by (simp add: target_def)
  moreover have "closed_under_pointers st0 (take 0 (co_roots st)) (co_roots st)"
    by (simp add: closed_under_pointers_def)
  moreover have "\<forall>a\<in>set (co_roots st). reached st0 a" by (simp add: st0_def reached.root)
  ultimately obtain cs st2 where 2: "ProcessFromspace st1 = Inr (True, st2)"
    "working st0 as F cs (copy_end st0 F cs) st2" "set (co_roots st) \<subseteq> set cs"
    "closed_under_pointers st0 cs cs" "\<forall>a\<in>set cs. reached st0 a"
    using scan_working [OF t whole start le0] unfolding ProcessFromspace_def by blast
  define st3 where "st3 = st2\<lparr>co_classes := map (moved st F cs) (co_classes st),
    co_modules := map (moved st F cs) (co_modules st)\<rparr>"
  have "NotifyRoots st2 = Inr st3"
    using NotifyRoots_working [OF t 2(2)] r 2(3) by (simp add: ready_def st0_def st3_def)
  moreover have "SetCurrent (next_address st3) (co_zone st3) = Inr ((co_zone st3)\<lparr>r_current := copy_end st F cs\<rparr>)"
    using Collect_end [OF r 2(2) [unfolded st0_def F_def]] by (simp add: st3_def F_def co_zone_def)
  ultimately have "Collect st = Inr (set_zone ((co_zone st3)\<lparr>r_current := copy_end st F cs\<rparr>) st3)"
    using 1(1) 2(1) by (simp add: Collect_def Let_def st0_def flipped_def co_zone_def set_zone_def SwapSpaces_def)
  moreover have "set cs = {a. reached st a}"
    using closed_reached [of st0 cs] 2(3-5) by (simp add: st0_def)
  ultimately show ?thesis
    using collected_working [OF r 2(2) [unfolded st0_def F_def] _ st3_def [unfolded F_def]]
      working_fields(7) [OF 2(2)] by (auto simp: F_def)
qed

lemma visit_roots_kPrintRoot:
  "(\<And>p. p \<in> set ps \<Longrightarrow> p \<noteq> 0 \<and> GetObjectAddress p \<noteq> 0) \<Longrightarrow>
     visit_roots kPrintRoot ps st = Inr (True, ps, st)"
  by (induction ps) (simp_all add: kPrintRoot_def)

lemma print_roots:
  assumes "co_runtime st" "\<And>p. p \<in> set (co_roots st) \<Longrightarrow> p \<noteq> 0 \<and> GetObjectAddress p \<noteq> 0"
  shows "VisitRoots kPrintRoot st = Inr (True, st)"
  using assms(1) visit_roots_kPrintRoot [of "co_classes st" st] visit_roots_kPrintRoot [of "co_modules st" st] assms(2)
  by (cases st) (simp add: VisitRoots_def VisitClassPointers_def VisitModulePointers_def co_roots_def)

lemma moved_root:
  assumes "target st0 as F" "distinct cs" "set cs \<subseteq> set as" "a \<in> set cs"
  shows "moved st0 F cs a \<noteq> 0 \<and> GetObjectAddress (moved st0 F cs a) \<noteq> 0"
proof
  show "moved st0 F cs a \<noteq> 0" by (rule unat_moved(2) [OF assms])
  have "unat (moved st0 F cs a) < 2 ^ 62"
    using unat_moved(1) [OF assms] place_interval [OF assms(4), of F st0] target_room(2) [OF assms(1-3)]
    by linarith
  then have "unat (moved st0 F cs a + 16) \<noteq> 0" by (subst unat_plus_small) simp_all
  then show "GetObjectAddress (moved st0 F cs a) \<noteq> 0"
    unfolding GetObjectAddress_def sizeof_Pointer_def by (metis unat_0)
qed

lemma MinorCollection_ready:
  assumes r: "ready st as"
  shows "\<exists>cs st'. MinorCollection st = Inr st' \<and> set cs \<subseteq> set as \<and> collected st cs st'"
proof -
  note t = ready_target(1) [OF r]
  have run: "co_runtime st" and sub: "set (co_roots st) \<subseteq> set as" using r by (simp_all add: ready_def)
  obtain cs st' where 1: "Collect st = Inr st'" "set cs \<subseteq> set as" "collected st cs st'" "co_runtime st'"
    using Collect_ready [OF r] run by (auto simp: collected_def Let_def)
  have cs: "distinct cs" "set (co_roots st) \<subseteq> set cs"
    and roots: "set (co_roots st') = moved st (unat (tospace (co_zone st))) cs ` set (co_roots st)"
    using 1(3) reached.root [of _ st] by (auto simp: collected_def Let_def co_roots_def)
  have "VisitRoots kPrintRoot st = Inr (True, st)"
    using target_objects(6,7) [OF t] sub by (intro print_roots [OF run]) blast
  moreover have "VisitRoots kPrintRoot st' = Inr (True, st')"
    using moved_root [OF t cs(1) 1(2)] cs(2) roots by (intro print_roots [OF 1(4)]) auto
  ultimately show ?thesis using 1 by (simp add: MinorCollection_def) blast
qed

section \<open>A collection\<close>

text \<open>A class, the string that names a module, the module, an error that is the value of the
  module's variable and has the string for its message, and a pair that nothing the collector
  is shown points to.\<close>

definition example_collection :: "nat collection" where
  "example_collection =
    \<lparr>co_heap = \<lparr>heap_new_zone = \<lparr>r_start = 65536, r_size = 1024, r_current = 65696, fromspace = 65536,
         tospace = 66048, semi_size = 512,
         zone_headers = [65536 \<mapsto> new_Pointer 16, 65568 \<mapsto> new_Pointer 16, 65600 \<mapsto> new_Pointer 16,
           65632 \<mapsto> new_Pointer 16, 65664 \<mapsto> new_Pointer 16]\<rparr>,
       heap_old_zone = heap_old_zone example_heap\<rparr>,
     co_objects = [65536 \<mapsto> ClassObject 1, 65568 \<mapsto> OtherObject 2, 65600 \<mapsto> ModuleObject 65584 0 [] 3,
       65632 \<mapsto> ErrorObject 65568 4, 65664 \<mapsto> OtherObject 5],
     co_classes = [65536], co_modules = [65600],
     co_scopes = \<lparr>sc_map = [0 \<mapsto> \<lparr>sc_parent = None, sc_locals = [0]\<rparr>], sc_next = 1,
       lv_map = [0 \<mapsto> \<lparr>lv_owner = Some 0, lv_index = 0, lv_name = ''e'', lv_ptr = 65632\<rparr>], lv_next = 1\<rparr>,
     co_runtime = True, curr_address = 0, next_address = 0\<rparr>"

lemma example_collection_ready:
  "ready example_collection [65536, 65568, 65600, 65632, 65664]"
proof -
  have p: "\<not> IsForwarding (new_Pointer 16)" "GetTotalSize (new_Pointer 16) = 32"
    by (simp_all add: IsForwarding_def GetTotalSize_new) (simp add: new_Pointer_def)
  have l: "VisitLocals (co_scopes example_collection) (\<lambda>l. True) True 0 = Inr ([0], True)"
    by (simp add: VisitLocals_def VisitLocals_from.simps example_collection_def get_scope_def)
  have "two_halves (co_zone example_collection)"
    by (simp add: two_halves_def example_collection_def co_zone_def)
  moreover have "objects_from example_collection 65536 [65536, 65568, 65600, 65632, 65664] 65696"
    by (simp add: unmoved_def object_bytes_def example_collection_def co_zone_def p)
  moreover have "whole_object example_collection [65536, 65568, 65600, 65632, 65664] x"
    if "x \<in> {ClassObject 1, OtherObject 2, ModuleObject 65584 0 [] 3, ErrorObject 65568 4, OtherObject 5}" for x
    using that l by (auto simp: whole_object_def whole_scope_def local_pointers_def raw_ptr_def
        sizeof_Pointer_def example_collection_def)
  ultimately show ?thesis
    by (simp add: ready_def co_roots_def) (simp add: example_collection_def co_zone_def)
qed

text \<open>C7. From a new zone whose objects lie one after another, with different roots and no
  object that points out of the zone, a minor collection returns. It copies exactly the
  objects reached from the classes and the modules through the pointers \<open>VisitPointers\<close>
  shows (a module's name, its namespaces and the variables of its scope, an error's message),
  each once, into the other half of the zone; every copy has the object's bytes as they were,
  the pointers in it included, and its tag with the remembered bit; the roots are the
  addresses of the copies, and allocation goes on where the last copy ends. The pointers in
  the copies and in the scopes still are the addresses in the half that is given up.\<close>

theorem minor_collection_copies_reached:
  assumes "ready st as"
  shows "\<exists>cs st'. MinorCollection st = Inr st' \<and> set cs \<subseteq> set as \<and> collected st cs st'"
  by (rule MinorCollection_ready [OF assms])

theorem minor_collection_copies_reached_witness:
  "\<exists>cs st'. MinorCollection example_collection = Inr st' \<and>
     set cs \<subseteq> {65536, 65568, 65600, 65632, 65664} \<and> collected example_collection cs st'"
  using minor_collection_copies_reached [OF example_collection_ready] by simp

end
