(* ===== verification/Disassembler.thy ===== *)
theory Disassembler
  imports Printing Runtime
begin

text \<open>
  The disassembler (\<open>gel/disassembler.h\<close>, \<open>gel/disassembler_vm.cc\<close>) over the decoder of theory
  \<open>Assembler\<close>. Its stream is the text written so far; \<open>tellp\<close> is the length of the text. How a
  pointer is written, and what the platform makes of the conversion of minus infinity, the
  logarithm of the position 0, to an unsigned number are parameters: the standard leaves both to
  it. A string of more characters than the library allows is a \<open>length_error\<close>.
\<close>

section \<open>The disassembler and its text\<close>

record disassembler_config =
  show_labels :: bool
  show_instr_addr :: bool
  show_instr_offset :: bool
  show_comments :: bool

definition kDefaultConfig :: disassembler_config where
  "kDefaultConfig = \<lparr>show_labels = True, show_instr_addr = True, show_instr_offset = True,
     show_comments = True\<rparr>"

definition kDisassemblyMaxLength :: nat where
  "kDisassemblyMaxLength = 64"

record disassembler_env =
  de_printer :: printer
  de_fuel :: nat  \<comment> \<open>for printing values\<close>
  de_pointer :: "uword \<Rightarrow> string"
  de_log10_zero :: uword

record disassembler =
  di_config :: disassembler_config
  di_scope :: nat
  di_text :: string
  di_startp :: nat

definition new_Disassembler :: "disassembler_config \<Rightarrow> nat \<Rightarrow> disassembler" where
  "new_Disassembler cfg scope = \<lparr>di_config = cfg, di_scope = scope, di_text = [], di_startp = 0\<rparr>"

definition put :: "string \<Rightarrow> disassembler \<Rightarrow> disassembler" where
  "put s d = d\<lparr>di_text := di_text d @ s\<rparr>"

definition newline :: string where
  "newline = [CHR 10]"

section \<open>Prefix and label\<close>

text \<open>\<open>floor(log10(pos))\<close>, exact for the positions a double can tell apart.\<close>

fun floor_log10 :: "nat \<Rightarrow> nat" where
  "floor_log10 n = (if n < 10 then 0 else Suc (floor_log10 (n div 10)))"

declare floor_log10.simps [simp del]

definition tens_places :: "disassembler_env \<Rightarrow> uword \<Rightarrow> uword" where
  "tens_places E pos = (if pos = 0 then de_log10_zero E else of_nat (floor_log10 (unat pos)))"

text \<open>\<open>std::string(n, ' ')\<close>.\<close>

definition max_string_length :: nat where
  "max_string_length = 2 ^ 62 - 1"

definition blanks :: "nat \<Rightarrow> string res" where
  "blanks n = guardr (CppException ''length_error'') (n \<le> max_string_length) (Inr (replicate n (CHR '' '')))"

definition WritePrefix :: "disassembler_env \<Rightarrow> uword \<Rightarrow> uword \<Rightarrow> disassembler \<Rightarrow> disassembler res" where
  "WritePrefix E address pos d =
    (let c = di_config d;
         d1 = (if show_instr_addr c
               then put (de_pointer E address @ (if show_instr_offset c then '' '' else [])) d else d) in
     rbind (if show_instr_offset c
            then rbind (blanks (nat \<bar>sint (4 - tens_places E pos)\<bar>)) (\<lambda>pad.
              Inr (put (pad @ show_nat (unat pos)) d1))
            else Inr d1) (\<lambda>d2.
     Inr (if show_instr_addr c \<or> show_instr_offset c then put '':'' d2 else d2)))"

definition WriteLabel :: "string \<Rightarrow> disassembler \<Rightarrow> disassembler res" where
  "WriteLabel label d =
    asserting (show_labels (di_config d))
      (asserting (label \<noteq> [])
        (Inr (put ((if length label \<le> 17 then replicate (17 - length label) (CHR '' '') else []) @
           label @ '':'' @ newline) d)))"

section \<open>Comments\<close>

definition Comment :: "disassembler \<Rightarrow> disassembler" where
  "Comment d = put (replicate (kDisassemblyMaxLength - (length (di_text d) - di_startp d)) (CHR '' '') @ '';; '') d"

definition Comment_value :: "disassembler_env \<Rightarrow> store \<Rightarrow> uword \<Rightarrow> disassembler \<Rightarrow> disassembler res" where
  "Comment_value E st v d =
    rbind (PrintValue (de_fuel E) (de_printer E) v st) (\<lambda>s. Inr (put s (Comment d)))"

definition Comment_text :: "string \<Rightarrow> disassembler \<Rightarrow> disassembler" where
  "Comment_text s d = put s (Comment d)"

definition Comment_local :: "disassembler_env \<Rightarrow> store \<Rightarrow> local_var \<Rightarrow> disassembler \<Rightarrow> disassembler res" where
  "Comment_local E st v d =
    (let d1 = put ('' idx='' @ show_nat (unat (lv_index v))) (Comment_text (lv_name v) d) in
     if HasValue v
     then rbind (PrintValue (de_fuel E) (de_printer E) (GetValue v) st) (\<lambda>s. Inr (put s d1))
     else Inr d1)"

definition Local :: "disassembler_env \<Rightarrow> store \<Rightarrow> local_var \<Rightarrow> bool \<Rightarrow> disassembler \<Rightarrow> disassembler res" where
  "Local E st v write_index d =
    Comment_local E st v (if write_index then put (''#'' @ show_nat (unat (lv_index v))) d else d)"

definition Pointer :: "disassembler_env \<Rightarrow> store \<Rightarrow> uword \<Rightarrow> disassembler \<Rightarrow> disassembler res" where
  "Pointer E st v d = asserting (v \<noteq> 0) (Comment_value E st v (put (de_pointer E v) d))"

definition show_int :: "int \<Rightarrow> string" where
  "show_int i = (if i < 0 then ''-'' @ show_nat (nat (- i)) else show_nat (nat i))"

text \<open>\<open>WriteOffset\<close> writes a sign of its own and then the number with its sign.\<close>

definition WriteOffset :: "32 word \<Rightarrow> disassembler \<Rightarrow> disassembler" where
  "WriteOffset rhs d = put ((if rhs <s 0 then ''-'' else ''+'') @ show_int (sint rhs)) d"

section \<open>Operands\<close>

text \<open>An operand that is an object of a class the instruction expects.\<close>

definition expect_kind :: "kind \<Rightarrow> uword \<Rightarrow> store \<Rightarrow> 'a res \<Rightarrow> 'a res" where
  "expect_kind k v st m = asserting (v \<noteq> 0) (rbind (obj_at v st) (\<lambda>x. asserting (kind_of x = k) m))"

definition local_at :: "store \<Rightarrow> uword \<Rightarrow> disassembler \<Rightarrow> local_var res" where
  "local_at st index d =
    rbind (GetLocalAt (st_scopes st) (di_scope d) index) (get_local (st_scopes st))"

text \<open>The short forms, and \<open>sl\<close>: nothing is written where the scope has too few variables.\<close>

definition Local_if_there :: "disassembler_env \<Rightarrow> store \<Rightarrow> uword \<Rightarrow> bool \<Rightarrow> disassembler \<Rightarrow> disassembler res" where
  "Local_if_there E st index write_index d =
    rbind (get_scope (st_scopes st) (di_scope d)) (\<lambda>s.
    if scope_IsEmpty s \<or> GetNumberOfLocals s < index then Inr d
    else rbind (local_at st index d) (\<lambda>v. Local E st v write_index d))"

definition num_args_text :: "uword \<Rightarrow> string" where
  "num_args_text n = '', num_args='' @ show_nat (unat n)"

definition Comment_call :: "disassembler_env \<Rightarrow> store \<Rightarrow> memory \<Rightarrow> uword \<Rightarrow> bytecode_decoder \<Rightarrow>
    disassembler \<Rightarrow> (bytecode_decoder \<times> disassembler) res" where
  "Comment_call E st m v dec d =
    rbind (Comment_value E st v d) (\<lambda>d1.
    rbind (NextUWord m dec) (\<lambda>(n, dec1). Inr (dec1, put (num_args_text n) d1)))"

definition Disassembler_Invoke :: "disassembler_env \<Rightarrow> store \<Rightarrow> memory \<Rightarrow> op \<Rightarrow> bytecode_decoder \<Rightarrow>
    disassembler \<Rightarrow> (bytecode_decoder \<times> disassembler) res" where
  "Disassembler_Invoke E st m x dec d =
    rbind (NextUWord m dec) (\<lambda>(v, dec1).
    if x = kInvoke then expect_kind KLambda v st (Comment_call E st m v dec1 d)
    else if x = kInvokeNative then expect_kind KNativeProcedure v st (Comment_call E st m v dec1 d)
    else if x = kInvokeDynamic then Inr (dec1, put (''num_args='' @ show_nat (unat v)) (Comment d))
    else Inl LogFatal)"

definition operand_text :: "disassembler_env \<Rightarrow> store \<Rightarrow> memory \<Rightarrow> uword \<Rightarrow> op \<Rightarrow> bytecode_decoder \<Rightarrow>
    disassembler \<Rightarrow> (bytecode_decoder \<times> disassembler) res" where
  "operand_text E st m ipos x dec d =
    (if x = kPushQ then
       rbind (NextUWord m dec) (\<lambda>(v, dec1).
       asserting (v \<noteq> 0) (rbind (Pointer E st v d) (\<lambda>d1. Inr (dec1, d1))))
     else if x = kPushI then
       rbind (NextUWord m dec) (\<lambda>(v, dec1). Inr (dec1, put (show_nat (unat v)) d))
     else if x \<in> {kStoreField, kLoadField} then
       rbind (NextUWord m dec) (\<lambda>(v, dec1).
       expect_kind KField v st (rbind (Comment_value E st v d) (\<lambda>d1. Inr (dec1, d1))))
     else if x = kLoadLocal then
       rbind (NextUWord m dec) (\<lambda>(i, dec1).
       rbind (local_at st i d) (\<lambda>v. rbind (Local E st v True d) (\<lambda>d1. Inr (dec1, d1))))
     else if x \<in> {kLoadLocal0, kLoadLocal1, kLoadLocal2, kLoadLocal3} then
       rbind (Local_if_there E st (of_nat (op_code x - op_code kLoadLocal0)) False d) (\<lambda>d1. Inr (dec, d1))
     else if x = kStoreLocal then
       rbind (NextUWord m dec) (\<lambda>(i, dec1).
       rbind (Local_if_there E st i True d) (\<lambda>d1. Inr (dec1, d1)))
     else if x \<in> {kStoreLocal0, kStoreLocal1, kStoreLocal2, kStoreLocal3} then
       rbind (Local_if_there E st (of_nat (op_code x - op_code kStoreLocal0)) False d) (\<lambda>d1. Inr (dec, d1))
     else if x \<in> {kJump, kJz, kJnz, kJeq, kJne} then
       rbind (NextUWord m dec) (\<lambda>(offset, dec1).
       Inr (dec1, put (''#'' @ show_nat (unat (ucast (ipos + offset) :: 32 word)))
         (Comment (WriteOffset (ucast offset) d))))
     else if x \<in> {kCheckInstance, kCast} then
       rbind (NextUWord m dec) (\<lambda>(v, dec1).
       expect_kind KClass v st (rbind (Pointer E st v d) (\<lambda>d1. Inr (dec1, d1))))
     else if x = kNew then
       rbind (NextUWord m dec) (\<lambda>(v, dec1). expect_kind KClass v st (Comment_call E st m v dec1 d))
     else if x \<in> {kInvoke, kInvokeNative, kInvokeDynamic} then Disassembler_Invoke E st m x dec d
     else Inr (dec, d))"

section \<open>The loop\<close>

text \<open>Every round reads a byte, so the size of the region is fuel enough. A byte that is no
  operation is written as \<open>unknown\<close> and has no operand.\<close>

definition mnemonic_text :: "op option \<Rightarrow> string" where
  "mnemonic_text x = '' '' @ (case x of None \<Rightarrow> ''unknown'' | Some y \<Rightarrow> mnemonic y) @ '' ''"

fun disassemble_loop :: "nat \<Rightarrow> disassembler_env \<Rightarrow> store \<Rightarrow> memory \<Rightarrow> bytecode_decoder \<Rightarrow>
    disassembler \<Rightarrow> disassembler res" where
  "disassemble_loop fuel E st m dec d =
    (if HasNext dec then
       (case fuel of
          0 \<Rightarrow> Inl OutOfFuel
        | Suc k \<Rightarrow>
           (let ipos = decoder_GetPos dec in
            rbind (WritePrefix E (decoder_current dec) ipos d) (\<lambda>d1.
            let d2 = d1\<lparr>di_startp := length (di_text d1)\<rparr> in
            rbind (NextBytecode m dec) (\<lambda>(raw, dec1).
            let x = op_of_raw raw; d3 = put (mnemonic_text x) d2 in
            rbind (case x of None \<Rightarrow> Inr (dec1, d3) | Some y \<Rightarrow> operand_text E st m ipos y dec1 d3)
              (\<lambda>(dec2, d4). disassemble_loop k E st m dec2 (put newline d4))))))
     else Inr (put newline d))"

declare disassemble_loop.simps [simp del]

definition Disassemble :: "disassembler_env \<Rightarrow> store \<Rightarrow> memory \<Rightarrow> region \<Rightarrow> string \<Rightarrow> disassembler \<Rightarrow>
    disassembler res" where
  "Disassemble E st m r label d =
    (let d1 = put newline d in
     rbind (if show_labels (di_config d) \<and> label \<noteq> [] then WriteLabel label d1 else Inr d1) (\<lambda>d2.
     disassemble_loop (unat (r_size r)) E st m (new_BytecodeDecoder (r_start r) (r_size r)) d2))"

section \<open>Lambdas and scripts\<close>

text \<open>\<open>Disassemble(stream, exec, parent_scope)\<close>, given whether the lambda or script is compiled, its
  scope, name and code: what it writes to the stream, and the store with the scope it makes.\<close>

definition Disassemble_exec :: "disassembler_env \<Rightarrow> memory \<Rightarrow> bool \<Rightarrow> nat option \<Rightarrow> string \<Rightarrow> region \<Rightarrow>
    nat option \<Rightarrow> store \<Rightarrow> (string \<times> store) res" where
  "Disassemble_exec E m compiled exec_scope name code parent st =
    asserting compiled
      (let (scope, sc) = LocalScope_New parent (st_scopes st) in
       rbind (case exec_scope of
                None \<Rightarrow> Inr sc
              | Some i \<Rightarrow> rbind (Add_scope (is_native_value st) scope i sc) (\<lambda>(ok, sc1).
                  guardr LogFatal ok (Inr sc1))) (\<lambda>sc2.
       let st1 = st\<lparr>st_scopes := sc2\<rparr> in
       rbind (Disassemble E st1 m code name (new_Disassembler kDefaultConfig scope)) (\<lambda>d.
       Inr (di_text d, st1))))"

definition Disassemble_lambda :: "disassembler_env \<Rightarrow> memory \<Rightarrow> uword \<Rightarrow> nat option \<Rightarrow> store \<Rightarrow>
    (string \<times> store) res" where
  "Disassemble_lambda E m a parent st =
    rbind (obj_at a st) (\<lambda>x.
    case x of
      OLambda l \<Rightarrow>
        rbind (if lm_symbol l \<noteq> 0 then symbol_text_at (lm_symbol l) st else Inr ''Lambda'') (\<lambda>name.
        Disassemble_exec E m (IsAllocated (lm_code l)) (lm_scope l) name (lm_code l) parent st)
    | _ \<Rightarrow> Inl UndefinedBehaviour)"

definition Disassemble_script :: "disassembler_env \<Rightarrow> memory \<Rightarrow> uword \<Rightarrow> nat option \<Rightarrow> store \<Rightarrow>
    (string \<times> store) res" where
  "Disassemble_script E m a parent st =
    rbind (obj_at a st) (\<lambda>x.
    case x of
      OScript s \<Rightarrow>
        rbind (if sp_name s \<noteq> 0 then string_at (sp_name s) st else Inr ''Script'') (\<lambda>name.
        Disassemble_exec E m (IsAllocated (sp_code s)) (sp_scope s) name (sp_code s) parent st)
    | _ \<Rightarrow> Inl UndefinedBehaviour)"

end
