(* ===== verification/DisassemblerCorrect.thy ===== *)
theory DisassemblerCorrect
  imports Disassembler AssemblerCorrect
begin

text \<open>
  The listing of assembled code: what the disassembler writes for a code region is the listing
  of the instructions the assembler was given, line by line. The operands it reads are those the
  assembler wrote, whatever the instruction.
\<close>

section \<open>The listing of a program\<close>

fun instr_op :: "instr \<Rightarrow> op" where
  "instr_op (Plain x) = x"
| "instr_op (OneWord x v) = x"
| "instr_op (TwoWords x v n) = x"

text \<open>What follows the mnemonic of an instruction at a position.\<close>

fun list_operand :: "disassembler_env \<Rightarrow> store \<Rightarrow> uword \<Rightarrow> instr \<Rightarrow> disassembler \<Rightarrow> disassembler res" where
  "list_operand E st pos (Plain x) d =
    (if x \<in> {kLoadLocal0, kLoadLocal1, kLoadLocal2, kLoadLocal3}
     then Local_if_there E st (of_nat (op_code x - op_code kLoadLocal0)) False d
     else if x \<in> {kStoreLocal0, kStoreLocal1, kStoreLocal2, kStoreLocal3}
     then Local_if_there E st (of_nat (op_code x - op_code kStoreLocal0)) False d
     else Inr d)"
| "list_operand E st pos (OneWord x v) d =
    (case x of
       kPushQ \<Rightarrow> Pointer E st v d
     | kPushI \<Rightarrow> Inr (put (show_nat (unat v)) d)
     | kStoreField \<Rightarrow> expect_kind KField v st (Comment_value E st v d)
     | kLoadField \<Rightarrow> expect_kind KField v st (Comment_value E st v d)
     | kLoadLocal \<Rightarrow> rbind (local_at st v d) (\<lambda>l. Local E st l True d)
     | kStoreLocal \<Rightarrow> Local_if_there E st v True d
     | kCheckInstance \<Rightarrow> expect_kind KClass v st (Pointer E st v d)
     | kCast \<Rightarrow> expect_kind KClass v st (Pointer E st v d)
     | kInvokeDynamic \<Rightarrow> Inr (put (''num_args='' @ show_nat (unat v)) (Comment d))
     | _ \<Rightarrow> Inr (put (''#'' @ show_nat (unat (ucast (pos + v) :: 32 word)))
              (Comment (WriteOffset (ucast v) d))))"
| "list_operand E st pos (TwoWords x v n) d =
    expect_kind (case x of kInvoke \<Rightarrow> KLambda | kInvokeNative \<Rightarrow> KNativeProcedure | _ \<Rightarrow> KClass) v st
      (rbind (Comment_value E st v d) (\<lambda>d1. Inr (put (num_args_text n) d1)))"

fun list_lines :: "disassembler_env \<Rightarrow> store \<Rightarrow> uword \<Rightarrow> (uword \<times> instr) list \<Rightarrow> disassembler \<Rightarrow>
    disassembler res" where
  "list_lines E st addr [] d = Inr (put newline d)"
| "list_lines E st addr ((pos, i) # is) d =
    rbind (WritePrefix E (addr + pos) pos d) (\<lambda>d1.
    rbind (list_operand E st pos i
      (put ('' '' @ mnemonic (instr_op i) @ '' '') (d1\<lparr>di_startp := length (di_text d1)\<rparr>))) (\<lambda>d2.
    list_lines E st addr is (put newline d2)))"

definition listing :: "disassembler_env \<Rightarrow> store \<Rightarrow> uword \<Rightarrow> (uword \<times> instr) list \<Rightarrow> string \<Rightarrow>
    disassembler \<Rightarrow> disassembler res" where
  "listing E st addr is label d =
    rbind (if show_labels (di_config d) \<and> label \<noteq> [] then WriteLabel label (put newline d)
           else Inr (put newline d)) (list_lines E st addr is)"

lemma rbind_expect: "rbind (expect_kind k v st f) g = expect_kind k v st (rbind f g)"
  by (cases "obj_at v st") (simp_all add: expect_kind_def guardr_def)

lemma rbind_rbind: "rbind (rbind f g) h = rbind f (\<lambda>x. rbind (g x) h)"
  by (cases f) simp_all

text \<open>Reading an instruction and writing its operands go through the code in step.\<close>

lemma operand_text_instr:
  assumes "read_instr m dec = Inr (i, dec')"
  shows "\<exists>raw dec1. NextBytecode m dec = Inr (raw, dec1) \<and> op_of_raw raw = Some (instr_op i) \<and>
    (\<forall>d. operand_text E st m pos (instr_op i) dec1 d =
      rbind (list_operand E st pos i d) (\<lambda>d'. Inr (dec', d')))"
proof -
  obtain raw dec1 where n: "NextBytecode m dec = Inr (raw, dec1)"
    using assms by (auto simp: read_instr_def rbind_eq_Inr)
  then obtain x where x: "op_of_raw raw = Some x"
    using assms by (auto simp: read_instr_def split: option.splits)
  consider (plain) "operand_words x = 0" "i = Plain x" "dec' = dec1" |
    (one) v where "operand_words x = 1" "i = OneWord x v" "NextUWord m dec1 = Inr (v, dec')" |
    (two) v w dec2 where "operand_words x = 2" "i = TwoWords x v w" "NextUWord m dec1 = Inr (v, dec2)"
      "NextUWord m dec2 = Inr (w, dec')"
    using assms n x by (auto simp: read_instr_def rbind_eq_Inr operand_words_def split: if_splits)
  then have "instr_op i = x \<and> (\<forall>d. operand_text E st m pos x dec1 d =
      rbind (list_operand E st pos i d) (\<lambda>d'. Inr (dec', d')))"
  proof cases
    case plain
    then show ?thesis by (cases x) (simp_all add: operand_text_def operand_words_def)
  next
    case one
    then show ?thesis
      by (cases x) (simp_all add: operand_text_def operand_words_def Pointer_def Disassembler_Invoke_def
          rbind_expect rbind_rbind guardr_def)
  next
    case two
    then show ?thesis
      by (cases x) (simp_all add: operand_text_def operand_words_def Disassembler_Invoke_def Comment_call_def
          rbind_expect rbind_rbind)
  qed
  then show ?thesis using n x by auto
qed

lemma read_instr_region: "read_instr m dec = Inr (i, dec') \<Longrightarrow> region_start dec' = region_start dec"
  by (auto simp: read_instr_def NextBytecode_def NextUWord_def rbind_eq_Inr split: option.splits if_splits)

lemma disassemble_loop_lines:
  "read_all fuel m dec = Inr is \<Longrightarrow>
     disassemble_loop fuel E st m dec d = list_lines E st (region_start dec) is d"
proof (induction fuel arbitrary: dec "is" d)
  case 0
  then show ?case
    by (subst (asm) read_all.simps, subst disassemble_loop.simps) (auto split: if_splits)
next
  case (Suc k)
  show ?case
  proof (cases "HasNext dec")
    case False
    then show ?thesis using Suc.prems
      by (subst (asm) read_all.simps, subst disassemble_loop.simps) simp
  next
    case True
    then obtain i dec' js where r: "read_instr m dec = Inr (i, dec')" "read_all k m dec' = Inr js"
      "is = (decoder_GetPos dec, i) # js"
      using Suc.prems by (subst (asm) read_all.simps) (auto simp: rbind_eq_Inr)
    obtain raw dec1 where b: "NextBytecode m dec = Inr (raw, dec1)" "op_of_raw raw = Some (instr_op i)"
      and o: "operand_text E st m (decoder_GetPos dec) (instr_op i) dec1 d' =
        rbind (list_operand E st (decoder_GetPos dec) i d') (\<lambda>d''. Inr (dec', d''))" for d'
      using operand_text_instr [OF r(1)] by metis
    have "decoder_current dec = region_start dec + decoder_GetPos dec" by (simp add: decoder_GetPos_def)
    then show ?thesis
      using True b Suc.IH [OF r(2)] read_instr_region [OF r(1)]
      by (subst disassemble_loop.simps) (simp add: Let_def o r(3) rbind_rbind mnemonic_text_def)
  qed
qed

lemma Disassemble_assembled:
  assumes "\<forall>a\<in>set as. action_ok a" "widths as \<le> 4096" "as \<noteq> []"
    "unat addr + widths as + 1 < 2 ^ 64"
  shows "rbind (rbind (run_actions as new_label (new_AssemblerBuffer mapped kDefaultInitSize))
      (\<lambda>(l, b). Bind l b)) (\<lambda>(l, b).
      rbind (Assemble addr b Map.empty) (\<lambda>(start, sz, m).
      Disassemble E st m \<lparr>r_start = start, r_size = sz\<rparr> label d)) =
    listing E st addr (instrs_of (widths as) 0 as) label d"
proof -
  obtain l b sz m where 1: "rbind (run_actions as new_label (new_AssemblerBuffer mapped kDefaultInitSize))
      (\<lambda>(l, b). Bind l b) = Inr (l, b)" "Assemble addr b Map.empty = Inr (addr, sz, m)"
    and r: "read_all (unat sz) m (new_BytecodeDecoder addr sz) = Inr (instrs_of (widths as) 0 as)"
    using assembled_decodes [OF assms] by blast
  have "disassemble_loop (unat sz) E st m (new_BytecodeDecoder addr sz) =
      list_lines E st addr (instrs_of (widths as) 0 as)"
    by (rule ext) (simp add: disassemble_loop_lines [OF r], simp add: new_BytecodeDecoder_def)
  then show ?thesis using 1 by (simp add: Disassemble_def listing_def Let_def)
qed

text \<open>C14. Disassembling the code that the assembler makes of a program writes the listing of that
  program: the label, and for every instruction that was emitted, in order, a line with its
  address and position, its mnemonic and its operands, a jump with the distance to the label.
  An operand that is not the object the instruction needs, or cannot be printed, fails as it
  would in the listing.\<close>

theorem disassembly_lists_program:
  assumes "\<forall>a\<in>set as. action_ok a" "widths as \<le> 4096" "as \<noteq> []"
    "unat addr + widths as + 1 < 2 ^ 64"
  shows "rbind (rbind (run_actions as new_label (new_AssemblerBuffer mapped kDefaultInitSize))
      (\<lambda>(l, b). Bind l b)) (\<lambda>(l, b).
      rbind (Assemble addr b Map.empty) (\<lambda>(start, sz, m).
      Disassemble E st m \<lparr>r_start = start, r_size = sz\<rparr> label d)) =
    listing E st addr (instrs_of (widths as) 0 as) label d"
  by (rule Disassemble_assembled [OF assms])

definition example_env :: disassembler_env where
  "example_env = \<lparr>de_printer = \<lparr>pr_double = \<lambda>_. [], pr_set = map snd, pr_other = \<lambda>_. []\<rparr>, de_fuel = 3,
     de_pointer = \<lambda>p. ''@'' @ show_nat (unat p), de_log10_zero = 0\<rparr>"

definition listed_actions :: "action list" where
  "listed_actions = [Code (Plain kPushT), JumpTo kJnz, Code (OneWord kPushI 5)]"

lemma listed_actions_facts:
  "\<forall>a\<in>set listed_actions. action_ok a" "widths listed_actions = 19" "listed_actions \<noteq> []"
  "instrs_of 19 0 listed_actions = [(0, Plain kPushT), (1, OneWord kJnz 18), (10, OneWord kPushI 5)]"
  by (simp_all add: listed_actions_def widths_def)

definition example_listing :: string where
  "example_listing = newline @ ''                f:'' @ newline @ ''@8192     0: pusht '' @ newline @
     ''@8193     1: jnz +18'' @ replicate 56 (CHR '' '') @ '';; #19'' @ newline @
     ''@8202    10: pushi 5'' @ newline @ newline"

lemma example_numbers:
  "show_nat 0 = ''0''" "show_nat 1 = ''1''" "show_nat 5 = ''5''" "show_nat 10 = ''10''"
  "show_nat 18 = ''18''" "show_nat 19 = ''19''" "show_nat 8192 = ''8192''" "show_nat 8193 = ''8193''"
  "show_nat 8202 = ''8202''"
  by (simp_all add: show_nat.simps digit_def char_of_def bit_0)

lemma example_blanks:
  "replicate 3 c = [c, c, c]" "replicate 4 c = [c, c, c, c]"
  "replicate 16 c = [c, c, c, c, c, c, c, c, c, c, c, c, c, c, c, c]"
  by (simp_all add: numeral_eq_Suc)

lemma example_tens:
  "tens_places example_env 0 = 0" "tens_places example_env 1 = 0" "tens_places example_env 10 = 1"
  by (simp_all add: tens_places_def example_env_def floor_log10.simps)

lemma example_prefixes:
  "di_config d = kDefaultConfig \<Longrightarrow> WritePrefix example_env 8192 0 d = Inr (put ''@8192     0:'' d)"
  "di_config d = kDefaultConfig \<Longrightarrow> WritePrefix example_env 8193 1 d = Inr (put ''@8193     1:'' d)"
  "di_config d = kDefaultConfig \<Longrightarrow> WritePrefix example_env 8202 10 d = Inr (put ''@8202    10:'' d)"
  by (simp_all add: WritePrefix_def kDefaultConfig_def example_tens blanks_def max_string_length_def
      put_def Let_def example_numbers example_blanks) (simp_all add: example_env_def example_numbers example_numbers(2) [unfolded One_nat_def])

lemma example_listing_eq:
  "rbind (listing example_env st 8192 [(0, Plain kPushT), (1, OneWord kJnz 18), (10, OneWord kPushI 5)] ''f''
    (new_Disassembler kDefaultConfig 0)) (\<lambda>d. Inr (di_text d)) = Inr example_listing"
  by (simp add: listing_def WriteLabel_def new_Disassembler_def put_def Let_def example_prefixes
      Comment_def WriteOffset_def show_int_def kDisassemblyMaxLength_def example_numbers newline_def
      kDefaultConfig_def example_listing_def example_blanks(3) word_sless_alt)

theorem disassembly_lists_program_witness:
  "rbind (rbind (rbind (run_actions listed_actions new_label (new_AssemblerBuffer 65536 kDefaultInitSize))
      (\<lambda>(l, b). Bind l b)) (\<lambda>(l, b).
      rbind (Assemble 8192 b Map.empty) (\<lambda>(start, sz, m).
      Disassemble example_env example_objects m \<lparr>r_start = start, r_size = sz\<rparr> ''f''
        (new_Disassembler kDefaultConfig 0)))) (\<lambda>d. Inr (di_text d)) = Inr example_listing"
  using disassembly_lists_program [of listed_actions 8192 65536 example_env example_objects "''f''"
      "new_Disassembler kDefaultConfig 0"] listed_actions_facts example_listing_eq
  by simp

end
