(* ===== verification/Spec2Isabelle.thy ===== *)
theory Spec2Isabelle
  imports GelPrelude AssemblerLabels RegionsCorrect Symbols ScopesCorrect Exprs ObjectsCorrect Printing ClassesCorrect InterpreterCorrect
    EvalCorrect NativesCorrect ProgramCorrect CollectorCorrect DisassemblerCorrect
begin

text \<open>
  A model of gel, a small Lisp with a bytecode compiler and interpreter written in C++
  (\<open>src/Sources/gel\<close>), and the theorems that make its parts correct.

  The program. The lexer and the parser turn a text into expressions, and scripts and modules into
  units of lambdas, macros and namespaces; the macro expander replaces macro calls; the flow graph
  builder turns the body of a lambda or of a script into a graph of instructions; the compiler
  assembles the graph to bytecode in an executable region; the interpreter runs the bytecode on the
  operation stack of a frame, and the runtime calls lambdas, scripts and native procedures. Values
  are objects of the heap, classes are objects as well, symbols are shared through a pool, variables
  live in scopes. The prompt and \<open>main\<close> evaluate texts, scripts and modules from files.

  Conventions (\<open>GelPrelude\<close>, \<open>StateOps\<close>). A function that can fail returns a sum: \<open>Inl\<close> a
  \<open>failure\<close> (a failed assertion, a fatal log message, a C++ exception, undefined behaviour, no
  fuel left) or \<open>Inr\<close> its result. Operations on a state are functions from the state to such a
  sum, composed with \<open>sbind\<close> and \<open>sthen\<close>; \<open>keeps R\<close> says that every run that succeeds relates the
  states before and after by \<open>R\<close>, and the locale \<open>kept\<close> has its rules for preorders. Addresses and
  integers are 64-bit words, a pointer to an object of the heap is its address and null is 0;
  the contents of the heap are a partial map from addresses to objects. C++ objects outside the
  heap are numbered or are values. Logging is left out.

  Memory and data.
    \<^item> \<open>Tags\<close>: the header word of an object (\<open>bitfield.h\<close>, \<open>tag.h\<close>).
    \<^item> \<open>Common\<close>: powers of two and splitting of strings (\<open>common.h\<close>).
    \<^item> \<open>Regions\<close>, \<open>RegionsCorrect\<close>: regions, semispaces, zones, the free list, the heap
      (\<open>section.h\<close>, \<open>pointer.h\<close>, \<open>semispace.cc\<close>, \<open>zone.cc\<close>, \<open>free_list.cc\<close>, \<open>heap.cc\<close>).
    \<^item> \<open>Collector\<close>, \<open>CollectorCorrect\<close>: the copying collector and what it visits (\<open>collector.cc\<close>,
      \<open>local_scope.cc\<close>, and the visits of \<open>class.cc\<close>, \<open>module.cc\<close>, \<open>error.cc\<close>).
    \<^item> \<open>Tries\<close>, \<open>Symbols\<close>: the trie, symbols and their pool (\<open>trie.h\<close>, \<open>symbol.cc\<close>).
    \<^item> \<open>Scopes\<close>, \<open>ScopesCorrect\<close>: local variables and scopes (\<open>local.cc\<close>, \<open>local_scope.cc\<close>).
    \<^item> \<open>Objects\<close>, \<open>ObjectsCorrect\<close>, \<open>Printing\<close>: objects, lists, arithmetic, equality, printed
      values (\<open>object.h\<close>, \<open>object.cc\<close>, \<open>error.h\<close>).
    \<^item> \<open>Classes\<close>, \<open>ClassesCorrect\<close>: classes and fields, their making (\<open>class.h\<close>, \<open>class.cc\<close>).
    \<^item> \<open>Containers\<close>, \<open>ContainersCorrect\<close>: hash codes, sets, maps, arrays, buffers (\<open>object.h\<close>,
      \<open>array.h\<close>, \<open>buffer.h\<close> and their \<open>.cc\<close> files).

  From texts to expressions.
    \<^item> \<open>Exprs\<close>: the expressions and their visitors (\<open>expression.h\<close>, \<open>expression.cc\<close>).
    \<^item> \<open>Tokens\<close>, \<open>Lexer\<close>, \<open>LexerCorrect\<close>, \<open>LexerTexts\<close>: tokens, keywords, \<open>NextToken\<close> and
      \<open>PeekToken\<close> (\<open>token.h\<close>, \<open>parser.h\<close>, \<open>parser.cc\<close>).
    \<^item> \<open>Units\<close>: lambdas, macros, scripts, namespaces, modules as they are built and changed
      (\<open>lambda.h\<close>, \<open>macro.h\<close>, \<open>script.cc\<close>, \<open>namespace.cc\<close>, \<open>module.cc\<close>).
    \<^item> \<open>Parser\<close>, \<open>ParserForms\<close>, \<open>ParserTexts\<close>, \<open>ParserCorrect\<close>: the \<open>Parse\<close> functions, and what they
      make of the texts of a grammar with a printer (\<open>parser.h\<close>, \<open>parser.cc\<close>).
    \<^item> \<open>MacroExpander\<close>, \<open>MacroExpanderCorrect\<close>: macro calls replaced by bodies, as far as the expander looks
      (\<open>macro_expander.h\<close>, \<open>macro_expander.cc\<close>).

  From expressions to code, and code.
    \<^item> \<open>Constants\<close>, \<open>ConstantsCorrect\<close>: constant expressions and their values (\<open>expression.cc\<close>).
    \<^item> \<open>FlowGraph\<close>, \<open>FlowGraphBuilder\<close>: instructions, their links, and the visits of the expressions
      (\<open>instruction.h\<close>, \<open>flow_graph_builder.cc\<close>).
    \<^item> \<open>Compiler\<close>, \<open>CompilerCorrect\<close>: code for instructions and blocks, the compilation of lambdas and
      scripts (\<open>flow_graph_compiler.cc\<close>, \<open>instruction_vm.cc\<close>).
    \<^item> \<open>Bytecodes\<close>: the instruction set (\<open>bytecode.h\<close>).
    \<^item> \<open>Assembler\<close>, \<open>AssemblerCorrect\<close>, \<open>AssemblerLabels\<close>: the code buffer, labels and backpatching,
      the decoder; programs around one label, and programs with any number of labels
      (\<open>assembler_base.cc\<close>, \<open>assembler_vm.cc\<close>, \<open>disassembler_vm.h\<close>).
    \<^item> \<open>Disassembler\<close>, \<open>DisassemblerCorrect\<close>: the listing of code (\<open>disassembler_vm.cc\<close>).

  Running.
    \<^item> \<open>Runtime\<close>, \<open>Interpreter\<close>, \<open>InterpreterCorrect\<close>: frames, calls, the bytecode loop
      (\<open>runtime.cc\<close>, \<open>stack_frame.cc\<close>, \<open>operation_stack.h\<close>, \<open>native_procedure.cc\<close>,
      \<open>interpreter.cc\<close>).
    \<^item> \<open>EvalCorrect\<close>: \<open>Runtime::Eval\<close> with the parser, expander, compiler and interpreter in place.
    \<^item> \<open>EventLoop\<close>: timers and file requests (\<open>event_loop.h\<close>, \<open>event_loop.cc\<close>).
    \<^item> \<open>Natives\<close>, \<open>NativesCorrect\<close>: the native procedures (\<open>natives.cc\<close>, \<open>natives_fs.cc\<close>,
      \<open>natives_debug.cc\<close> and those of the classes).
    \<^item> \<open>Program\<close>, \<open>ProgramCorrect\<close>: modules from files, the start of the runtime, the prompt and
      \<open>main\<close> (\<open>module_loader.cc\<close>, \<open>module.cc\<close>, \<open>runtime.cc\<close>, \<open>repl.cc\<close>, \<open>main.cc\<close>).

  The groups of lemmas. Round trips: assembled code read back and listed, labels against a two-pass
  assembler (forward and backward jumps to any number of labels), symbol texts, printed sources read back by the parser, texts through buffers.
  Refinement and equivalence: the trie and the hash tables against partial maps, scopes against
  nested maps, lists of the heap against HOL lists, compiled code against an evaluator of
  expressions, and \<open>Eval\<close> and the prompt against an evaluator of sources. Invariants: the heap's
  zones, the object store, the classes after initialisation, the copies a collection has made; a call
  keeps its caller's frames and scope whatever the callee does; the check of the frames passes where a
  call returns and ends the process where a \<open>gel::Exception\<close> leaves it; every native procedure that is
  modelled keeps what calls ask of it. Termination: the lexer ends, the prompt comes back, a collection comes back; a
  macro that calls itself is expanded without end. Errors: every assertion and fatal message of the
  modelled code is a branch of its model, and the theorems say where they are reached.

  Fuel. Walks up the scopes take the number of the scope as fuel, since a parent is older than
  its children; walks up the classes take the number of classes; the lexer's loops take the
  characters left, a collection's scan and the disassembler the bytes of their region; the flow
  graph builder takes the depth of the expression and the compiler's chains the number of
  instructions. \<open>Equals\<close> and \<open>PrintValue\<close> take fuel for cyclic lists. The parser's fuel bounds the
  rounds of its loops and the depth of forms, that of the macro expander the nesting of expansions,
  that of \<open>FindOrLoad\<close> the imports of imports; the interpreter's bounds instructions and calls
  together. Theorems about results state how much fuel is enough.

  Not modelled. The reactive objects and their procedures, which wrap a library that is not in the
  repository, five procedures for debugging and the loader of bindings (\<open>unmodelled_names\<close>), of which
  nothing is assumed; the event
  library (libuv), threads and the operating system's memory and files; the graph printers, which
  call graphviz and are built only on demand; \<open>ToString\<close> and logging; how a double is written. What
  outside code does is an argument of the definitions (\<open>machine\<close>, \<open>printer\<close>, \<open>hashes\<close>, \<open>uv\<close>,
  \<open>world\<close>, \<open>outside\<close>, \<open>program\<close>, \<open>disassembler_env\<close>); a \<open>gel::Exception\<close> that the prompt catches,
  one from outside every call, leaves the runtime as a parameter says. Each component is modelled with its own view of the
  state: the collector sees of an object what its visitors are shown, and the compiled code of a
  region is read from a memory of bytes.
\<close>

end
